(* ===== verification/Tomk_Prelude.thy ===== *)
theory Tomk_Prelude
  imports Main "HOL-Library.Word" "HOL-Library.Monad_Syntax"
begin

text \<open>
  Shared vocabulary of the development: the machine integer types of the i386 kernel, the
  macros of \<^verbatim>\<open>align.h\<close>, \<^verbatim>\<open>paging.h\<close> and \<^verbatim>\<open>kspacedef.h\<close>, the counted loops of the C code,
  and the lemmas that move a word expression to \<open>nat\<close>.

  A C function that may stop the kernel (an \<^verbatim>\<open>assert\<close> that fails calls \<^verbatim>\<open>kpanic\<close>, which hangs;
  an access outside an array; a loop that does not end) returns an \<open>option\<close>, and \<open>None\<close> is
  "the kernel does not continue". The values \<^verbatim>\<open>0\<close> and \<^verbatim>\<open>NULL\<close> that the C code returns on
  failure are ordinary values of the model.
\<close>

unbundle bit_operations_syntax

type_synonym u8 = "8 word"
type_synonym u16 = "16 word"
type_synonym u32 = "32 word"
type_synonym u64 = "64 word"

named_theorems to_nat \<open>rewriting a word expression to the natural number it denotes\<close>

section \<open>Macros of the kernel headers\<close>

definition PAGE_SIZE :: u32 where
  "PAGE_SIZE = 0x1000"

definition TO_PAGE :: "u32 \<Rightarrow> u32" where
  "TO_PAGE a = drop_bit 12 a"

definition TO_ADDR :: "u32 \<Rightarrow> u32" where
  "TO_ADDR p = push_bit 12 p"

definition PD_IDX :: "u32 \<Rightarrow> u32" where
  "PD_IDX v = drop_bit 22 v"

definition PT_IDX :: "u32 \<Rightarrow> u32" where
  "PT_IDX v = drop_bit 12 v AND 0x3FF"

definition PTE_P :: u32 where
  "PTE_P = 0x01"

definition PTE_RW :: u32 where
  "PTE_RW = 0x02"

definition PTE_US :: u32 where
  "PTE_US = 0x04"

definition KVIRT :: u32 where
  "KVIRT = 0xC0000000"

definition KVIRT_END :: u32 where
  "KVIRT_END = 0xFFC00000"

definition V2P :: "u32 \<Rightarrow> u32" where
  "V2P v = v - KVIRT"

definition P2V :: "u32 \<Rightarrow> u32" where
  "P2V p = KVIRT + p"

text \<open>\<^verbatim>\<open>ALIGN(t,x,a)\<close> at the 32-bit unsigned types it is used with.\<close>

definition ALIGN :: "u32 \<Rightarrow> u32 \<Rightarrow> u32" where
  "ALIGN x a = (x + (a - 1)) AND NOT (a - 1)"

definition CEIL_DIV :: "u32 \<Rightarrow> u32 \<Rightarrow> u32" where
  "CEIL_DIV x y = (x + y - 1) div y"

text \<open>
  \<^verbatim>\<open>assert(x)\<close>: a false condition calls \<^verbatim>\<open>kpanic\<close>, which prints and hangs.
\<close>

definition assert :: "bool \<Rightarrow> unit option" where
  "assert b = (if b then Some () else None)"

text \<open>
  \<^verbatim>\<open>for (size_t i = 0; i < count; i++) body(i)\<close>: the counter never reaches \<open>2 ^ 32\<close>, so the
  loop runs for exactly the values below \<open>count\<close>, in order.
\<close>

primrec for_upto :: "nat \<Rightarrow> (u32 \<Rightarrow> 's \<Rightarrow> 's option) \<Rightarrow> 's \<Rightarrow> 's option" where
  "for_upto 0 body s = Some s"
| "for_upto (Suc n) body s = do { s' \<leftarrow> for_upto n body s; body (of_nat n) s' }"

text \<open>A \<^verbatim>\<open>for\<close> over the elements of a list, in order, stopping with the kernel.\<close>

primrec for_each :: "'a list \<Rightarrow> ('a \<Rightarrow> 's \<Rightarrow> 's option) \<Rightarrow> 's \<Rightarrow> 's option" where
  "for_each [] body s = Some s"
| "for_each (x # xs) body s = do { s' \<leftarrow> body x s; for_each xs body s' }"

text \<open>
  \<^verbatim>\<open>for (p = start; p < end; p += PAGE_SIZE)\<close> with both bounds on a page boundary visits the
  addresses of the pages from \<open>start\<close> up to \<open>end\<close>; \<open>page_range_step\<close> below is the equation of
  the C loop.
\<close>

definition page_range :: "u32 \<Rightarrow> u32 \<Rightarrow> u32 list" where
  "page_range a b = map (\<lambda>i. TO_ADDR (of_nat i)) [unat (TO_PAGE a) ..< unat (TO_PAGE b)]"

section \<open>Words as natural numbers\<close>

lemma assert_simps [simp]:
  "assert True = Some ()" "assert False = None"
  by (simp_all add: assert_def)

lemma assert_eq_Some [simp]: "assert b = Some u \<longleftrightarrow> b"
  by (simp add: assert_def)

lemma unat_drop_bit_u32 [to_nat]: "unat (drop_bit n (x :: u32)) = unat x div 2 ^ n"
  by (simp only: unat_drop_bit_eq drop_bit_nat_def)

lemma unat_push_bit_u32: "unat (push_bit n (x :: u32)) = (unat x * 2 ^ n) mod 2 ^ 32"
  by (simp only: unsigned_push_bit_eq push_bit_nat_def take_bit_nat_def) simp

lemma unat_and_mask_u32: "unat ((x :: u32) AND mask n) = unat x mod 2 ^ n"
  by (simp only: take_bit_eq_mask [symmetric] unsigned_take_bit_eq take_bit_nat_def)

lemma and_not_mask_u32: "(x :: u32) AND NOT (mask n) = push_bit n (drop_bit n x)"
  by (rule bit_eqI) (auto simp: bit_simps)

lemma unat_less_u32 [simp]: "unat (x :: u32) < 4294967296"
  using unsigned_less [of x] by simp

lemma unat_of_nat_u32: "n < 4294967296 \<Longrightarrow> unat (of_nat n :: u32) = n"
  by (simp add: unsigned_of_nat take_bit_nat_eq_self_iff)

lemma unat_add_u32: "unat x + unat y < 4294967296 \<Longrightarrow> unat ((x :: u32) + y) = unat x + unat y"
  using unat_add_lem [of x y] by simp

lemma unat_sub_u32: "unat y \<le> unat x \<Longrightarrow> unat ((x :: u32) - y) = unat x - unat y"
  by (simp add: unat_sub word_le_nat_alt)

lemma unat_mod_add_u32: "unat ((x :: u32) + y) = (unat x + unat y) mod 4294967296"
  by (simp add: unat_word_ariths)

lemma unat_and_31 [to_nat]: "unat ((x :: u32) AND 31) = unat x mod 32"
  using unat_and_mask_u32 [of x 5] by (simp add: mask_eq_exp_minus_1)

lemma unat_and_fff [to_nat]: "unat ((x :: u32) AND 0xFFF) = unat x mod 4096"
  using unat_and_mask_u32 [of x 12] by (simp add: mask_eq_exp_minus_1)

section \<open>Pages and addresses\<close>

lemma unat_TO_PAGE [to_nat]: "unat (TO_PAGE a) = unat a div 4096"
  by (simp add: TO_PAGE_def unat_drop_bit_u32)

lemma TO_PAGE_bound [simp]: "unat (TO_PAGE a) < 1048576"
  using unat_less_u32 [of a] by (simp add: unat_TO_PAGE less_mult_imp_div_less del: unat_less_u32)

lemma unat_TO_ADDR: "unat p < 1048576 \<Longrightarrow> unat (TO_ADDR p) = unat p * 4096"
  by (simp add: TO_ADDR_def unat_push_bit_u32)

lemma TO_PAGE_TO_ADDR: "unat p < 1048576 \<Longrightarrow> TO_PAGE (TO_ADDR p) = p"
  by (rule word_unat_eq_iff [THEN iffD2]) (simp add: unat_TO_PAGE unat_TO_ADDR)

lemma unat_TO_ADDR_TO_PAGE [to_nat]: "unat (TO_ADDR (TO_PAGE a)) = unat a div 4096 * 4096"
  by (simp add: unat_TO_ADDR unat_TO_PAGE less_mult_imp_div_less)

lemma TO_ADDR_eq_0: "unat p < 1048576 \<Longrightarrow> TO_ADDR p = 0 \<longleftrightarrow> p = 0"
  by (simp add: unat_TO_ADDR word_unat_eq_iff)

definition page_aligned :: "u32 \<Rightarrow> bool" where
  "page_aligned a \<longleftrightarrow> unat a mod 4096 = 0"

lemma page_aligned_TO_ADDR [simp]: "page_aligned (TO_ADDR p)"
  by (simp add: page_aligned_def TO_ADDR_def unat_push_bit_u32 mod_mult_eq
      mod_mod_cancel [of 4096 "4294967296 :: nat"])

lemma TO_ADDR_TO_PAGE: "page_aligned a \<Longrightarrow> TO_ADDR (TO_PAGE a) = a"
  by (rule word_unat_eq_iff [THEN iffD2]) (auto simp: to_nat page_aligned_def)

lemma page_aligned_iff: "page_aligned a \<longleftrightarrow> a AND (PAGE_SIZE - 1) = 0"
  by (simp add: page_aligned_def PAGE_SIZE_def to_nat word_unat_eq_iff)

lemma TO_ADDR_mult: "TO_ADDR p = p * PAGE_SIZE"
  by (simp add: TO_ADDR_def PAGE_SIZE_def push_bit_eq_mult)

lemma page_aligned_mult: "page_aligned a \<longleftrightarrow> (\<exists>x. a = x * PAGE_SIZE)"
  by (metis TO_ADDR_TO_PAGE TO_ADDR_mult page_aligned_TO_ADDR)

lemma page_aligned_add: "page_aligned a \<Longrightarrow> page_aligned b \<Longrightarrow> page_aligned (a + b)"
  unfolding page_aligned_mult by (metis distrib_right)

lemma page_aligned_diff: "page_aligned a \<Longrightarrow> page_aligned b \<Longrightarrow> page_aligned (a - b)"
  unfolding page_aligned_mult by (metis left_diff_distrib)

lemma page_aligned_page_mult [simp]: "page_aligned (x * PAGE_SIZE)"
  unfolding page_aligned_mult by blast

lemma page_floor: "x AND NOT (PAGE_SIZE - 1) = TO_ADDR (TO_PAGE x)"
  using and_not_mask_u32 [of x 12]
  by (simp add: PAGE_SIZE_def TO_ADDR_def TO_PAGE_def mask_eq_exp_minus_1)

lemma ALIGN_page: "ALIGN x PAGE_SIZE = TO_ADDR (TO_PAGE (x + (PAGE_SIZE - 1)))"
  by (simp add: ALIGN_def page_floor)

lemma page_range_Nil: "unat b div 4096 \<le> unat a div 4096 \<Longrightarrow> page_range a b = []"
  by (simp add: page_range_def to_nat)

lemma page_range_step:
  assumes "page_aligned a" and "page_aligned b"
  shows "page_range a b = (if a < b then a # page_range (a + PAGE_SIZE) b else [])"
proof (cases "a < b")
  case True
  then have lt: "unat a div 4096 < unat b div 4096"
    using assms by (auto simp: word_less_nat_alt page_aligned_def)
  moreover have "unat b div 4096 < 1048576"
    using TO_PAGE_bound [of b] by (simp add: to_nat)
  ultimately have "unat (a + PAGE_SIZE) = unat a + 4096"
    using assms(1) by (intro trans [OF unat_add_u32]) (auto simp: PAGE_SIZE_def page_aligned_def)
  then have "unat (TO_PAGE (a + PAGE_SIZE)) = Suc (unat (TO_PAGE a))"
    by (simp add: unat_TO_PAGE div_add_self2)
  then show ?thesis
    using True lt TO_ADDR_TO_PAGE [OF assms(1)]
    by (simp add: page_range_def upt_conv_Cons flip: unat_TO_PAGE)
next
  case False
  then show ?thesis
    using assms by (auto simp: page_range_def to_nat word_less_nat_alt intro!: div_le_mono)
qed

lemma set_page_range:
  "set (page_range a b) = (\<lambda>i. TO_ADDR (of_nat i)) ` {unat a div 4096 ..< unat b div 4096}"
  by (simp add: page_range_def to_nat)

section \<open>Counted loops\<close>

lemma for_upto_rule:
  assumes "P 0 s"
    and "\<And>i s. i < n \<Longrightarrow> P i s \<Longrightarrow> \<exists>s'. body (of_nat i) s = Some s' \<and> P (Suc i) s'"
  shows "\<exists>s'. for_upto n body s = Some s' \<and> P n s'"
  using assms(2)
proof (induction n)
  case 0
  then show ?case using assms(1) by simp
next
  case (Suc n)
  then obtain s' where "for_upto n body s = Some s'" "P n s'"
    by (metis less_SucI)
  with Suc.prems [of n s'] show ?case by auto
qed

lemma for_upto_inv:
  assumes "for_upto n body s = Some s'" and "P 0 s"
    and "\<And>i s s'. i < n \<Longrightarrow> P i s \<Longrightarrow> body (of_nat i) s = Some s' \<Longrightarrow> P (Suc i) s'"
  shows "P n s'"
  using assms(1,3)
proof (induction n arbitrary: s')
  case 0
  then show ?case using assms(2) by simp
next
  case (Suc n)
  then show ?case by (auto split: bind_splits)
qed

lemma for_upto_cong:
  "(\<And>i s. i < n \<Longrightarrow> f (of_nat i) s = g (of_nat i) s) \<Longrightarrow> for_upto n f s = for_upto n g s"
  by (induction n) (auto split: bind_splits)

lemma for_each_rule:
  assumes "P xs s"
    and "\<And>y ys s. P (y # ys) s \<Longrightarrow> \<exists>s'. body y s = Some s' \<and> P ys s'"
  shows "\<exists>s'. for_each xs body s = Some s' \<and> P [] s'"
  using assms(1)
proof (induction xs arbitrary: s)
  case (Cons x xs)
  then obtain s' where "body x s = Some s'" "P xs s'"
    using assms(2) by blast
  with Cons.IH [of s'] show ?case by auto
qed simp

lemma for_each_append:
  "for_each (xs @ ys) body s = do { s' \<leftarrow> for_each xs body s; for_each ys body s' }"
  by (induction xs arbitrary: s) (auto simp: Option.bind_assoc)

lemma for_upto_for_each: "for_upto n body s = for_each (map of_nat [0..<n]) body s"
  by (induction n) (simp_all add: for_each_append)

text \<open>
  The interface of a marking loop: a step that, where \<open>ok\<close> holds, adds \<open>adds\<close> to a set the state
  represents and keeps the invariant. What is \<open>ok\<close> and what is added depend on a part of the
  state, its frame, that no step changes. The loops over pages of the memory managers are
  instances.
\<close>

locale marking =
  fixes step :: "'a \<Rightarrow> 's \<Rightarrow> 's option"
    and inv :: "'s \<Rightarrow> bool"
    and view :: "'s \<Rightarrow> nat set"
    and frame :: "'s \<Rightarrow> 'f"
    and ok :: "'a \<Rightarrow> 'f \<Rightarrow> bool"
    and adds :: "'a \<Rightarrow> 'f \<Rightarrow> nat set"
  assumes step: "inv s \<Longrightarrow> ok a (frame s) \<Longrightarrow> \<exists>s'. step a s = Some s' \<and> inv s' \<and>
      view s' = view s \<union> adds a (frame s) \<and> frame s' = frame s"
begin

lemma steps:
  assumes "inv s" and "\<forall>a \<in> set as. ok a (frame s)"
  shows "\<exists>s'. for_each as step s = Some s' \<and> inv s' \<and>
      view s' = view s \<union> (\<Union>a \<in> set as. adds a (frame s)) \<and> frame s' = frame s"
  using assms
proof (induction as arbitrary: s)
  case (Cons a as)
  from step [OF Cons.prems(1), of a] Cons.prems(2) obtain s1 where s1: "step a s = Some s1" "inv s1"
      "view s1 = view s \<union> adds a (frame s)" "frame s1 = frame s"
    by auto
  then show ?case using Cons.IH [of s1] Cons.prems(2) by auto
qed simp

end

section \<open>Refinement\<close>

text \<open>
  A deterministic step function that refines another: the invariant is kept and the representation
  commutes with the steps. Then so do any number of steps.
\<close>

locale refinement =
  fixes cstep :: "'c \<Rightarrow> 'c" and astep :: "'a \<Rightarrow> 'a" and inv :: "'c \<Rightarrow> bool" and abs :: "'c \<Rightarrow> 'a"
  assumes keeps: "inv c \<Longrightarrow> inv (cstep c)"
    and commutes: "inv c \<Longrightarrow> abs (cstep c) = astep (abs c)"
begin

lemma keeps_steps: "inv c \<Longrightarrow> inv ((cstep ^^ n) c)"
  by (induction n) (simp_all add: keeps)

lemma commutes_steps: "inv c \<Longrightarrow> abs ((cstep ^^ n) c) = (astep ^^ n) (abs c)"
  by (induction n) (simp_all add: commutes keeps_steps)

end

text \<open>The same for operations with an argument: a sequence of them is a fold over the arguments.\<close>

locale event_refinement =
  fixes cstep :: "'e \<Rightarrow> 'c \<Rightarrow> 'c" and astep :: "'e \<Rightarrow> 'a \<Rightarrow> 'a" and inv :: "'c \<Rightarrow> bool" and abs :: "'c \<Rightarrow> 'a"
  assumes keeps: "inv c \<Longrightarrow> inv (cstep e c)"
    and commutes: "inv c \<Longrightarrow> abs (cstep e c) = astep e (abs c)"
begin

lemma keeps_events: "inv c \<Longrightarrow> inv (fold cstep es c)"
  by (induction es arbitrary: c) (simp_all add: keeps)

lemma commutes_events: "inv c \<Longrightarrow> abs (fold cstep es c) = fold astep es (abs c)"
  by (induction es arbitrary: c) (simp_all add: keeps commutes)

end

sublocale event_refinement \<subseteq> each: refinement "cstep e" "astep e" inv abs for e
  by unfold_locales (simp_all add: keeps commutes)

end
