(* ===== verification/Bitmap.thy ===== *)
theory Bitmap
  imports Tomk_Prelude
begin

text \<open>
  The page bitmaps of the physical and the virtual memory manager: an array of 32-bit words in
  which bit \<open>page & 31\<close> of word \<open>page >> 5\<close> is set when the page is used. The two managers
  write the same three accesses and the same search for a run of free pages; the accesses and
  the search are here, and \<^verbatim>\<open>Pmm\<close> and \<^verbatim>\<open>Vmm\<close> wrap them the way their C functions do.

  The first half holds the executable definitions; the second half reads them as operations on
  the set of used pages and shows that the search returns the first run that fits.
\<close>

section \<open>Accesses\<close>

definition bit_of :: "u32 \<Rightarrow> u32" where
  "bit_of page = push_bit (unat (page AND 31)) 1"

definition word_of :: "u32 \<Rightarrow> nat" where
  "word_of page = unat (drop_bit 5 page)"

definition bm_set :: "u32 list \<Rightarrow> u32 \<Rightarrow> u32 list" where
  "bm_set bm page = bm[word_of page := (bm ! word_of page) OR bit_of page]"

definition bm_clear :: "u32 list \<Rightarrow> u32 \<Rightarrow> u32 list" where
  "bm_clear bm page = bm[word_of page := (bm ! word_of page) AND NOT (bit_of page)]"

definition bm_test :: "u32 list \<Rightarrow> u32 \<Rightarrow> bool" where
  "bm_test bm page \<longleftrightarrow> (bm ! word_of page) AND bit_of page \<noteq> 0"

section \<open>The search for a run of free pages\<close>

text \<open>
  The state of \<^verbatim>\<open>pmm_find_contiguous_pages\<close> and \<^verbatim>\<open>vmm_find_contiguous_pages\<close> between two pages:
  where the current run starts, how long it is, and the longest run that a used page has ended.
\<close>

record scan =
  scan_start :: u32
  scan_run :: u32
  scan_largest :: u32

datatype scan_result = Found scan | Continue scan

text \<open>The loop over the bits of one word; the list holds the bits that are left.\<close>

primrec scan_bits :: "nat list \<Rightarrow> u32 \<Rightarrow> u32 \<Rightarrow> u32 \<Rightarrow> u32 \<Rightarrow> scan \<Rightarrow> scan_result" where
  "scan_bits [] dword bits npages count s = Continue s"
| "scan_bits (b # bs) dword bits npages count s =
    (let page = push_bit 5 dword + of_nat b in
     if npages \<le> page then Continue s
     else if bits AND push_bit b 1 \<noteq> 0 then
       scan_bits bs dword bits npages count
         (s\<lparr>scan_largest := (if scan_largest s < scan_run s then scan_run s else scan_largest s),
            scan_run := 0\<rparr>)
     else
       let start = (if scan_run s = 0 then page else scan_start s); run = scan_run s + 1 in
       if run = count then
         Found (s\<lparr>scan_start := start, scan_run := run, scan_largest := run\<rparr>)
       else scan_bits bs dword bits npages count (s\<lparr>scan_start := start, scan_run := run\<rparr>))"

text \<open>The loop over the words, from word number \<open>dword\<close> on.\<close>

primrec scan_dwords :: "u32 list \<Rightarrow> u32 \<Rightarrow> u32 \<Rightarrow> u32 \<Rightarrow> scan \<Rightarrow> scan_result" where
  "scan_dwords [] dword npages count s = Continue s"
| "scan_dwords (bits # ws) dword npages count s =
    (case scan_bits [0..<32] dword bits npages count s of
       Found t \<Rightarrow> Found t
     | Continue t \<Rightarrow> scan_dwords ws (dword + 1) npages count t)"

definition scan_init :: scan where
  "scan_init = \<lparr>scan_start = 0, scan_run = 0, scan_largest = 0\<rparr>"

section \<open>A bitmap as a set of used pages\<close>

definition used :: "u32 list \<Rightarrow> nat \<Rightarrow> bool" where
  "used bm n \<longleftrightarrow> n div 32 < length bm \<and> bit (bm ! (n div 32)) (n mod 32)"

lemma word_of_nat: "word_of page = unat page div 32"
  by (simp add: word_of_def unat_drop_bit_u32)

lemma bit_bit_of: "bit (bit_of page) n \<longleftrightarrow> n = unat page mod 32"
proof -
  have "unat page mod 32 < 32" by simp
  then show ?thesis by (auto simp: bit_of_def to_nat bit_simps bit_1_iff)
qed

lemma and_bit_of: "w AND bit_of page \<noteq> 0 \<longleftrightarrow> bit w (unat page mod 32)"
proof (cases "bit w (unat page mod 32)")
  case True
  then have "bit (w AND bit_of page) (unat page mod 32)"
    by (simp add: bit_and_iff bit_bit_of)
  with True show ?thesis by fastforce
next
  case False
  then have "w AND bit_of page = 0"
    by (intro bit_eqI) (auto simp: bit_and_iff bit_bit_of)
  with False show ?thesis by simp
qed

lemma length_bm [simp]:
  "length (bm_set bm page) = length bm" "length (bm_clear bm page) = length bm"
  by (simp_all add: bm_set_def bm_clear_def)

lemma bm_test_used: "unat page div 32 < length bm \<Longrightarrow> bm_test bm page \<longleftrightarrow> used bm (unat page)"
  by (simp add: bm_test_def used_def word_of_nat and_bit_of)

lemma divmod_32_eq: "(m :: nat) div 32 = n div 32 \<Longrightarrow> m mod 32 = n mod 32 \<Longrightarrow> m = n"
  by (metis div_mult_mod_eq)

lemma used_bm_set:
  "unat page div 32 < length bm \<Longrightarrow> used (bm_set bm page) n \<longleftrightarrow> used bm n \<or> n = unat page"
  by (auto simp: used_def bm_set_def word_of_nat nth_list_update bit_or_iff bit_bit_of
      intro: divmod_32_eq)

lemma used_bm_clear:
  "unat page div 32 < length bm \<Longrightarrow> used (bm_clear bm page) n \<longleftrightarrow> used bm n \<and> n \<noteq> unat page"
  by (auto simp: used_def bm_clear_def word_of_nat nth_list_update bit_and_iff bit_not_iff
      bit_bit_of possible_bit_def intro: divmod_32_eq)

lemma used_beyond: "length bm * 32 \<le> n \<Longrightarrow> \<not> used bm n"
  by (simp add: used_def div_less_iff_less_mult)

lemma used_replicate: "n < 32 * k \<Longrightarrow> used (replicate k w) n \<longleftrightarrow> bit w (n mod 32)"
  by (simp add: used_def div_less_iff_less_mult mult.commute)

section \<open>The search finds the first run that fits\<close>

definition free_run :: "u32 list \<Rightarrow> nat \<Rightarrow> nat \<Rightarrow> bool" where
  "free_run bm s c \<longleftrightarrow> (\<forall>i < c. \<not> used bm (s + i))"

text \<open>
  After the first \<open>n\<close> pages: the current run is the block of free pages that ends at \<open>n\<close>, it is
  maximal to the left, it is shorter than the request, and no run of the requested length lies
  within the first \<open>n\<close> pages.
\<close>

definition scan_inv :: "u32 list \<Rightarrow> nat \<Rightarrow> nat \<Rightarrow> scan \<Rightarrow> bool" where
  "scan_inv bm c n s \<longleftrightarrow>
     unat (scan_run s) \<le> n \<and> unat (scan_run s) < c \<and>
     free_run bm (n - unat (scan_run s)) (unat (scan_run s)) \<and>
     (scan_run s \<noteq> 0 \<longrightarrow> unat (scan_start s) = n - unat (scan_run s)) \<and>
     (unat (scan_run s) = n \<or> used bm (n - unat (scan_run s) - 1)) \<and>
     (\<forall>s'. s' + c \<le> n \<longrightarrow> \<not> free_run bm s' c)"

lemma free_run_Suc: "free_run bm s (Suc c) \<longleftrightarrow> free_run bm s c \<and> \<not> used bm (s + c)"
  by (auto simp: free_run_def less_Suc_eq)

lemma not_free_run: "used bm i \<Longrightarrow> s \<le> i \<Longrightarrow> i < s + c \<Longrightarrow> \<not> free_run bm s c"
  unfolding free_run_def by (metis add_diff_inverse_nat less_diff_conv2 not_less add.commute)

lemma scan_inv_used:
  assumes "scan_inv bm c n s" and "used bm n"
  shows "scan_inv bm c (Suc n) (s\<lparr>scan_largest := l, scan_run := 0\<rparr>)"
proof -
  have "\<not> free_run bm s' c" if "s' + c \<le> Suc n" for s'
  proof (cases "s' + c \<le> n")
    case True
    then show ?thesis using assms(1) by (simp add: scan_inv_def)
  next
    case False
    moreover have "0 < c" using assms(1) by (auto simp: scan_inv_def)
    ultimately show ?thesis using that assms(2) by (intro not_free_run [of _ n]) auto
  qed
  then show ?thesis using assms by (auto simp: scan_inv_def free_run_def)
qed

lemma scan_inv_free:
  assumes inv: "scan_inv bm c n s" and free: "\<not> used bm n" and page: "unat page = n"
    and run: "unat run = Suc (unat (scan_run s))"
    and start: "start = (if scan_run s = 0 then page else scan_start s)"
  shows "unat start = Suc n - unat run \<and> free_run bm (Suc n - unat run) (unat run)"
    and "unat run \<noteq> c \<Longrightarrow> scan_inv bm c (Suc n) (s\<lparr>scan_start := start, scan_run := run\<rparr>)"
proof -
  show *: "unat start = Suc n - unat run \<and> free_run bm (Suc n - unat run) (unat run)"
    using inv free page run start by (auto simp: scan_inv_def free_run_Suc)
  assume "unat run \<noteq> c"
  then have less: "unat run < c" using inv run by (simp add: scan_inv_def)
  have "\<not> free_run bm s' c" if "s' + c \<le> Suc n" for s'
  proof (cases "s' + c \<le> n")
    case True
    then show ?thesis using inv by (simp add: scan_inv_def)
  next
    case False
    then have "unat (scan_run s) \<noteq> n" using that less run by auto
    then have "used bm (n - unat (scan_run s) - 1)" using inv by (simp add: scan_inv_def)
    then show ?thesis
      using False that less run inv by (intro not_free_run) (auto simp: scan_inv_def)
  qed
  then show "scan_inv bm c (Suc n) (s\<lparr>scan_start := start, scan_run := run\<rparr>)"
    using * inv less run by (auto simp: scan_inv_def)
qed

text \<open>What the search promises of its result.\<close>

definition first_fit :: "u32 list \<Rightarrow> nat \<Rightarrow> nat \<Rightarrow> nat \<Rightarrow> bool" where
  "first_fit bm np c s \<longleftrightarrow> free_run bm s c \<and> s + c \<le> np \<and> (\<forall>s' < s. \<not> free_run bm s' c)"

primrec scan_post :: "u32 list \<Rightarrow> nat \<Rightarrow> nat \<Rightarrow> nat \<Rightarrow> scan_result \<Rightarrow> bool" where
  "scan_post bm np c n (Found t) \<longleftrightarrow>
     first_fit bm np c (unat (scan_start t)) \<and> unat (scan_largest t) = c"
| "scan_post bm np c n (Continue t) \<longleftrightarrow> scan_inv bm c (min n np) t"

lemma unat_page_of_bit:
  assumes "32 * d + 32 \<le> 4294967295" and "b < 32"
  shows "unat (push_bit 5 (of_nat d) + of_nat b :: u32) = 32 * d + b"
proof -
  have "unat (push_bit 5 (of_nat d) :: u32) = 32 * d"
    using assms by (simp add: unat_push_bit_u32 unat_of_nat_u32)
  then show ?thesis using assms by (subst unat_add_u32) (simp_all add: unat_of_nat_u32)
qed

lemma and_exp: "b < 32 \<Longrightarrow> (w :: u32) AND 2 ^ b = 0 \<longleftrightarrow> \<not> bit w b"
  using and_bit_of [of w "of_nat b"] by (auto simp: bit_of_def to_nat unat_of_nat_u32)

lemma scan_bits_post:
  assumes "d < length bm" and "32 * length bm \<le> 4294967295"
    and "scan_inv bm (unat count) (min (32 * d + b) (unat np)) s" and "b \<le> 32"
  shows "scan_post bm (unat np) (unat count) (32 * d + 32)
           (scan_bits [b..<32] (of_nat d) (bm ! d) np count s)"
  using assms(3,4)
proof (induction "32 - b" arbitrary: b s)
  case 0
  then show ?case by simp
next
  case (Suc k)
  then have b: "b < 32" and split: "[b..<32] = b # [Suc b..<32]"
    by (auto simp: upt_conv_Cons)
  let ?n = "32 * d + b" and ?page = "push_bit 5 (of_nat d) + of_nat b :: u32"
  have page: "unat ?page = ?n" using assms(1,2) b by (intro unat_page_of_bit) auto
  show ?case
  proof (cases "unat np \<le> ?n")
    case True
    then show ?thesis
      using Suc.prems page by (simp add: split word_le_nat_alt min_absorb2)
  next
    case False
    have k: "k = 32 - Suc b" using Suc.hyps(2) by simp
    have inv: "scan_inv bm (unat count) ?n s" using Suc.prems False by simp
    have used: "used bm ?n \<longleftrightarrow> bit (bm ! d) b"
      using assms(1) b by (simp add: used_def)
    have next_page: "min (32 * d + Suc b) (unat np) = Suc ?n" using False by simp
    let ?run = "scan_run s + 1"
    have run: "unat ?run = Suc (unat (scan_run s))"
      using inv unat_less_u32 [of count]
      by (subst unat_add_u32) (auto simp: scan_inv_def simp del: unat_less_u32)
    note step = Suc.hyps(1) [OF k, unfolded next_page]
    show ?thesis
    proof (cases "used bm ?n")
      case True
      then show ?thesis
        using False page b used step [OF scan_inv_used [OF inv True]]
        by (simp add: split word_le_nat_alt and_exp Let_def)
    next
      case free: False
      note fr = scan_inv_free [OF inv free page run refl]
      show ?thesis
      proof (cases "?run = count")
        case True
        then have "first_fit bm (unat np) (unat count) (Suc ?n - unat ?run)"
          using fr(1) run False inv by (auto simp: first_fit_def scan_inv_def)
        then show ?thesis
          using True False page b used free fr(1)
          by (simp add: split word_le_nat_alt and_exp Let_def)
      next
        case ne: False
        then have "unat ?run \<noteq> unat count" by (simp add: word_unat_eq_iff)
        then show ?thesis
          using ne False page b used free step [OF fr(2)]
          by (simp add: split word_le_nat_alt and_exp Let_def)
      qed
    qed
  qed
qed

lemma scan_dwords_post:
  assumes "32 * length bm \<le> 4294967295" and "d \<le> length bm"
    and "scan_inv bm (unat count) (min (32 * d) (unat np)) s"
  shows "scan_post bm (unat np) (unat count) (32 * length bm)
           (scan_dwords (drop d bm) (of_nat d) np count s)"
  using assms(2,3)
proof (induction "length bm - d" arbitrary: d s)
  case 0
  then show ?case by simp
next
  case (Suc k)
  then have d: "d < length bm" by simp
  have post: "scan_post bm (unat np) (unat count) (32 * d + 32)
      (scan_bits [0..<32] (of_nat d) (bm ! d) np count s)"
    using Suc.prems assms(1) d by (intro scan_bits_post) auto
  show ?case
  proof (cases "scan_bits [0..<32] (of_nat d) (bm ! d) np count s")
    case (Found t)
    then show ?thesis using post d by (simp add: Cons_nth_drop_Suc [symmetric])
  next
    case (Continue t)
    have "k = length bm - Suc d" and "32 * d + 32 = 32 * Suc d" using Suc.hyps(2) by simp_all
    then show ?thesis
      using Continue post d Suc.hyps(1) [of "Suc d" t]
      by (simp add: Cons_nth_drop_Suc [symmetric] add.commute)
  qed
qed

lemma scan_inv_init: "count \<noteq> 0 \<Longrightarrow> scan_inv bm (unat count) 0 scan_init"
  by (auto simp: scan_inv_def scan_init_def free_run_def unat_gt_0)

theorem scan_correct:
  assumes "32 * length bm \<le> 4294967295" and "unat np \<le> 32 * length bm" and "count \<noteq> 0"
  shows "case scan_dwords bm 0 np count scan_init of
      Found t \<Rightarrow> first_fit bm (unat np) (unat count) (unat (scan_start t)) \<and> scan_largest t = count
    | Continue t \<Rightarrow> \<forall>s. s + unat count \<le> unat np \<longrightarrow> \<not> free_run bm s (unat count)"
proof -
  have "scan_post bm (unat np) (unat count) (32 * length bm) (scan_dwords bm 0 np count scan_init)"
    using scan_dwords_post [OF assms(1), of 0 count np scan_init] scan_inv_init [OF assms(3), of bm]
    by simp
  then show ?thesis
    using assms(2)
    by (auto split: scan_result.splits simp: scan_inv_def min_absorb2 word_unat_eq_iff)
qed

end
