(* ===== verification/Kphysmap.thy ===== *)
theory Kphysmap
  imports Tomk_Prelude
begin

text \<open>
  \<^verbatim>\<open>src/mm/kphysmap.c\<close>, the table of physical memory regions, and \<^verbatim>\<open>src/init/mb.c\<close>, which fills
  it from the memory map of the boot loader. The table is an array of ten regions and a count;
  an eleventh region stops the kernel. The boot loader's map is a chain of records in memory,
  read here through a function from addresses to 32-bit words; the chain is followed until its
  end, which a record of a bad size may never reach, so the loop is partial.
\<close>

definition KPHYSREGION_VALID :: u32 where
  "KPHYSREGION_VALID = 0x1"

definition KPHYSREGION_TYPE_MASK :: u32 where
  "KPHYSREGION_TYPE_MASK = 0x6"

definition KPHYSREGION_TYPE_RAM :: u32 where
  "KPHYSREGION_TYPE_RAM = 0x2"

definition KPHYSREGION_TYPE_REV :: u32 where
  "KPHYSREGION_TYPE_REV = 0x4"

definition KPHYSMAP_MAX_REGIONS :: nat where
  "KPHYSMAP_MAX_REGIONS = 10"

record kphysregion =
  kr_address :: u32
  kr_size :: u32
  kr_flags :: u32

record kphysmap =
  km_count :: u32
  km_regions :: "kphysregion list"

definition zero_region :: kphysregion where
  "zero_region = \<lparr>kr_address = 0, kr_size = 0, kr_flags = 0\<rparr>"

definition kphysmap_init :: kphysmap where
  "kphysmap_init = \<lparr>km_count = 0, km_regions = replicate KPHYSMAP_MAX_REGIONS zero_region\<rparr>"

definition kphysmap_add :: "u32 \<Rightarrow> u32 \<Rightarrow> u32 \<Rightarrow> kphysmap \<Rightarrow> kphysmap option" where
  "kphysmap_add address sz flags m = do {
     assert (unat (km_count m) < KPHYSMAP_MAX_REGIONS);
     Some (m\<lparr>km_count := km_count m + 1,
             km_regions := (km_regions m)[unat (km_count m) :=
               \<lparr>kr_address = address, kr_size = sz, kr_flags = flags OR KPHYSREGION_VALID\<rparr>]\<rparr>)
   }"

text \<open>The loop of \<^verbatim>\<open>kphysmap_remove\<close>: the first match is cleared and ends it.\<close>

primrec remove_first :: "u32 \<Rightarrow> kphysregion list \<Rightarrow> kphysregion list" where
  "remove_first address [] = []"
| "remove_first address (r # rs) =
     (if kr_address r = address then zero_region # rs else r # remove_first address rs)"

definition kphysmap_remove :: "u32 \<Rightarrow> kphysmap \<Rightarrow> kphysmap" where
  "kphysmap_remove address m =
     m\<lparr>km_regions := remove_first address (take (unat (km_count m)) (km_regions m))
                     @ drop (unat (km_count m)) (km_regions m)\<rparr>"

section \<open>The boot loader's memory map\<close>

record multiboot_info =
  mbi_flags :: u32
  mbi_mmap_length :: u32
  mbi_mmap_addr :: u32

definition MULTIBOOT_FLAGS_MMAP :: u32 where
  "MULTIBOOT_FLAGS_MMAP = 0x40"

definition MULTIBOOT_MMAP_TYPE_RAM :: u32 where
  "MULTIBOOT_MMAP_TYPE_RAM = 1"

record mb_entry =
  mb_size :: u32
  mb_addr1 :: u32
  mb_addr2 :: u32
  mb_len1 :: u32
  mb_len2 :: u32
  mb_type :: u32

definition read_entry :: "(u32 \<Rightarrow> u32) \<Rightarrow> u32 \<Rightarrow> mb_entry" where
  "read_entry rd a = \<lparr>mb_size = rd a, mb_addr1 = rd (a + 4), mb_addr2 = rd (a + 8),
     mb_len1 = rd (a + 12), mb_len2 = rd (a + 16), mb_type = rd (a + 20)\<rparr>"

text \<open>
  One turn of the loop: the 64-bit address and length are put together and then narrowed to the
  32-bit parameters of \<^verbatim>\<open>kphysmap_add\<close>.
\<close>

definition mb_add_entry :: "mb_entry \<Rightarrow> kphysmap \<Rightarrow> kphysmap option" where
  "mb_add_entry e m =
    (let addr = push_bit 32 (ucast (mb_addr2 e)) OR ucast (mb_addr1 e) :: u64;
         len = push_bit 32 (ucast (mb_len2 e)) OR ucast (mb_len1 e) :: u64
     in kphysmap_add (ucast addr) (ucast len)
          (if mb_type e = MULTIBOOT_MMAP_TYPE_RAM then KPHYSREGION_TYPE_RAM
           else KPHYSREGION_TYPE_REV) m)"

partial_function (option) mb_loop ::
  "(u32 \<Rightarrow> u32) \<Rightarrow> u32 \<Rightarrow> u32 \<Rightarrow> kphysmap \<Rightarrow> kphysmap option" where
  "mb_loop rd p limit m =
    (if p < limit then do {
       m' \<leftarrow> mb_add_entry (read_entry rd p) m;
       mb_loop rd (p + mb_size (read_entry rd p) + 4) limit m'
     } else Some m)"

definition mb_init :: "(u32 \<Rightarrow> u32) \<Rightarrow> multiboot_info option \<Rightarrow> kphysmap \<Rightarrow> kphysmap option" where
  "mb_init rd info m = (case info of
     None \<Rightarrow> None
   | Some i \<Rightarrow> do {
       assert (mbi_flags i AND MULTIBOOT_FLAGS_MMAP \<noteq> 0);
       let addr = P2V (mbi_mmap_addr i) in mb_loop rd addr (addr + mbi_mmap_length i) m
     })"

section \<open>The table\<close>

definition km_wf :: "kphysmap \<Rightarrow> bool" where
  "km_wf m \<longleftrightarrow> length (km_regions m) = 10 \<and> unat (km_count m) \<le> 10"

text \<open>The regions the table holds.\<close>

definition km_list :: "kphysmap \<Rightarrow> kphysregion list" where
  "km_list m = take (unat (km_count m)) (km_regions m)"

lemma km_wf_init [simp]: "km_wf kphysmap_init" "km_list kphysmap_init = []"
  by (simp_all add: km_wf_def km_list_def kphysmap_init_def KPHYSMAP_MAX_REGIONS_def)

lemma kphysmap_add_eq:
  assumes "km_wf m"
  shows "kphysmap_add a s f m = None \<longleftrightarrow> unat (km_count m) = 10"
    and "kphysmap_add a s f m = Some m' \<Longrightarrow>
      km_wf m' \<and> km_list m' = km_list m @
        [\<lparr>kr_address = a, kr_size = s, kr_flags = f OR KPHYSREGION_VALID\<rparr>]"
proof -
  show "kphysmap_add a s f m = None \<longleftrightarrow> unat (km_count m) = 10"
    using assms by (auto simp: kphysmap_add_def km_wf_def KPHYSMAP_MAX_REGIONS_def assert_def)
  assume add: "kphysmap_add a s f m = Some m'"
  then have c: "unat (km_count m) < 10"
    by (auto simp: kphysmap_add_def KPHYSMAP_MAX_REGIONS_def split: bind_splits)
  then have "unat (km_count m + 1) = Suc (unat (km_count m))"
    by (subst unat_add_u32) simp_all
  then show "km_wf m' \<and> km_list m' = km_list m @
        [\<lparr>kr_address = a, kr_size = s, kr_flags = f OR KPHYSREGION_VALID\<rparr>]"
    using add assms c
    by (auto simp: kphysmap_add_def km_wf_def km_list_def take_Suc_conv_app_nth
        split: bind_splits)
qed

lemma length_remove_first [simp]: "length (remove_first a rs) = length rs"
  by (induction rs) auto

lemma km_list_remove:
  "km_wf m \<Longrightarrow> km_wf (kphysmap_remove a m) \<and>
     km_list (kphysmap_remove a m) = remove_first a (km_list m)"
  by (simp add: kphysmap_remove_def km_wf_def km_list_def)

section \<open>A well-formed boot map is copied into the table\<close>

text \<open>The records \<open>es\<close> lie one after another from \<open>p\<close> on.\<close>

primrec laid_out :: "(u32 \<Rightarrow> u32) \<Rightarrow> u32 \<Rightarrow> mb_entry list \<Rightarrow> bool" where
  "laid_out rd p [] \<longleftrightarrow> True"
| "laid_out rd p (e # es) \<longleftrightarrow> read_entry rd p = e \<and> laid_out rd (p + mb_size e + 4) es"

primrec layout_size :: "mb_entry list \<Rightarrow> nat" where
  "layout_size [] = 0"
| "layout_size (e # es) = unat (mb_size e) + 4 + layout_size es"

definition region_of :: "mb_entry \<Rightarrow> kphysregion" where
  "region_of e = \<lparr>kr_address = mb_addr1 e, kr_size = mb_len1 e,
     kr_flags = (if mb_type e = 1 then 0x3 else 0x5)\<rparr>"

lemma ucast_low: "ucast (push_bit 32 (ucast hi) OR ucast lo :: u64) = (lo :: u32)"
  for hi :: u32
  by (rule bit_eqI) (auto simp: bit_simps)

lemma mb_add_entry_eq:
  assumes "km_wf m" and "unat (km_count m) < 10"
  shows "\<exists>m'. mb_add_entry e m = Some m' \<and> km_wf m' \<and> km_list m' = km_list m @ [region_of e]"
proof -
  let ?f = "if mb_type e = 1 then 2 else 4 :: u32"
  obtain m' where m': "kphysmap_add (mb_addr1 e) (mb_len1 e) ?f m = Some m'"
    using kphysmap_add_eq(1) [OF assms(1)] assms(2) by fastforce
  then show ?thesis
    using kphysmap_add_eq(2) [OF assms(1) m']
    by (auto simp: mb_add_entry_def ucast_low MULTIBOOT_MMAP_TYPE_RAM_def KPHYSREGION_TYPE_RAM_def
        KPHYSREGION_TYPE_REV_def KPHYSREGION_VALID_def region_of_def Let_def)
qed

lemma km_list_length: "km_wf m \<Longrightarrow> length (km_list m) = unat (km_count m)"
  by (simp add: km_list_def km_wf_def)

text \<open>What one turn of the loop is when the next record lies inside the map.\<close>

lemma mb_loop_Cons:
  assumes "laid_out rd p (e # es)" and "unat p + layout_size (e # es) < 4294967296"
  shows "mb_loop rd p (p + of_nat (layout_size (e # es))) m = do {
      m' \<leftarrow> mb_add_entry e m;
      mb_loop rd (p + mb_size e + 4) (p + mb_size e + 4 + of_nat (layout_size es)) m' }"
    and "unat (p + mb_size e + 4) + layout_size es < 4294967296"
proof -
  let ?n = "layout_size (e # es)"
  have "unat (p + mb_size e) = unat p + unat (mb_size e)"
    using assms(2) by (subst unat_add_u32) auto
  then have "unat (p + mb_size e + 4) = unat p + unat (mb_size e) + 4"
    using assms(2) by (subst unat_add_u32) auto
  then show "unat (p + mb_size e + 4) + layout_size es < 4294967296"
    using assms(2) by simp
  have limit: "p + of_nat ?n = p + mb_size e + 4 + of_nat (layout_size es)"
    by (simp add: algebra_simps)
  have "unat (p + of_nat ?n) = unat p + ?n"
    using assms(2) by (subst unat_add_u32) (simp_all add: unat_of_nat_u32 del: of_nat_add)
  then have "p < p + of_nat ?n" by (simp add: word_less_nat_alt)
  then show "mb_loop rd p (p + of_nat ?n) m = do {
      m' \<leftarrow> mb_add_entry e m;
      mb_loop rd (p + mb_size e + 4) (p + mb_size e + 4 + of_nat (layout_size es)) m' }"
    using assms(1) unfolding limit by (subst mb_loop.simps) simp
qed

lemma mb_loop_copies:
  assumes "laid_out rd p es" and "unat p + layout_size es < 4294967296"
    and "km_wf m" and "length (km_list m) + length es \<le> 10"
  shows "\<exists>m'. mb_loop rd p (p + of_nat (layout_size es)) m = Some m' \<and> km_wf m' \<and>
              km_list m' = km_list m @ map region_of es"
  using assms
proof (induction es arbitrary: p m)
  case Nil
  then show ?case by (simp add: mb_loop.simps)
next
  case (Cons e es)
  obtain m1 where m1: "mb_add_entry e m = Some m1" "km_wf m1"
      "km_list m1 = km_list m @ [region_of e]"
    using mb_add_entry_eq [of m e] Cons.prems(3,4) km_list_length [of m] by auto
  then show ?case
    using mb_loop_Cons [OF Cons.prems(1,2)] Cons.prems Cons.IH [of "p + mb_size e + 4" m1]
    by auto
qed

lemma mb_loop_overflow:
  assumes "laid_out rd p es" and "unat p + layout_size es < 4294967296"
    and "km_wf m" and "10 < length (km_list m) + length es"
  shows "mb_loop rd p (p + of_nat (layout_size es)) m = None"
  using assms
proof (induction es arbitrary: p m)
  case Nil
  then show ?case using km_list_length [of m] by (simp add: km_wf_def)
next
  case (Cons e es)
  show ?case
  proof (cases "unat (km_count m) = 10")
    case True
    then have "mb_add_entry e m = None"
      using kphysmap_add_eq(1) [OF Cons.prems(3)] by (simp add: mb_add_entry_def Let_def)
    then show ?thesis using mb_loop_Cons(1) [OF Cons.prems(1,2)] by simp
  next
    case False
    then have "unat (km_count m) < 10" using Cons.prems(3) by (simp add: km_wf_def)
    then obtain m1 where "mb_add_entry e m = Some m1" "km_wf m1"
        "km_list m1 = km_list m @ [region_of e]"
      using mb_add_entry_eq [OF Cons.prems(3)] by blast
    then show ?thesis
      using mb_loop_Cons [OF Cons.prems(1,2)] Cons.prems Cons.IH [of "p + mb_size e + 4" m1]
      by auto
  qed
qed

text \<open>C14: for a boot loader map whose records lie one after another, \<open>mb_init\<close> on the empty table
  ends; it records exactly the map's regions in order when there are at most ten (available RAM
  as RAM, every other type as reserved, each address and length reduced to its low 32 bits), and
  it stops the kernel when there are more.\<close>

theorem mb_init_copies_map:
  assumes "mbi_flags i AND MULTIBOOT_FLAGS_MMAP \<noteq> 0"
    and "laid_out rd (P2V (mbi_mmap_addr i)) es"
    and "mbi_mmap_length i = of_nat (layout_size es)"
    and "unat (P2V (mbi_mmap_addr i)) + layout_size es < 4294967296"
  shows "if length es \<le> 10
    then \<exists>m. mb_init rd (Some i) kphysmap_init = Some m \<and> km_wf m \<and> km_list m = map region_of es
    else mb_init rd (Some i) kphysmap_init = None"
  using mb_loop_copies [OF assms(2,4) km_wf_init(1)] mb_loop_overflow [OF assms(2,4) km_wf_init(1)]
    assms(1,3)
  by (auto simp: mb_init_def Let_def)

theorem mb_init_copies_map_witness:
  "\<exists>m. mb_init (\<lambda>a. if a = 0xC0009000 then 20 else if a = 0xC000900C then 0x9FC00
                     else if a = 0xC0009014 then 1 else 0)
         (Some \<lparr>mbi_flags = 0x40, mbi_mmap_length = 24, mbi_mmap_addr = 0x9000\<rparr>) kphysmap_init = Some m
     \<and> km_list m = [\<lparr>kr_address = 0, kr_size = 0x9FC00, kr_flags = 3\<rparr>]"
  using mb_init_copies_map [where i = "\<lparr>mbi_flags = 0x40, mbi_mmap_length = 24, mbi_mmap_addr = 0x9000\<rparr>"
      and rd = "\<lambda>a. if a = 0xC0009000 then 20 else if a = 0xC000900C then 0x9FC00
                     else if a = 0xC0009014 then 1 else 0"
      and es = "[\<lparr>mb_size = 20, mb_addr1 = 0, mb_addr2 = 0, mb_len1 = 0x9FC00, mb_len2 = 0, mb_type = 1\<rparr>]"]
  by (auto simp: MULTIBOOT_FLAGS_MMAP_def P2V_def KVIRT_def read_entry_def region_of_def)

end
