(* ===== verification/Paging.thy ===== *)
theory Paging
  imports Tomk_Prelude
begin

text \<open>
  \<^verbatim>\<open>src/mm/paging.asm\<close>: the page directory and the page tables, reached through the recursive
  window at \<^verbatim>\<open>0xFFC00000\<close>. The state is the 32-bit words behind that window by their virtual
  address, and the physical address of the static table array \<^verbatim>\<open>pg_pt\<close>, which the linker
  fixes. Every page directory entry the code writes points into \<^verbatim>\<open>pg_pt\<close> and is never removed,
  so the words of one page table stay behind the same window addresses.

  The properties: what \<^verbatim>\<open>pg_virt2phys\<close> returns after \<^verbatim>\<open>pg_map\<close> and \<^verbatim>\<open>pg_unmap\<close>, inside and outside
  the range, and the invariant that a table without a directory entry maps nothing.
\<close>

record paging =
  pg_win :: "u32 \<Rightarrow> u32"
  pg_pt_phys :: u32

definition pg_loc_pde :: "u32 \<Rightarrow> u32" where
  "pg_loc_pde virt = 0xFFFFF000 + drop_bit 22 virt * 4"

definition pg_loc_pte :: "u32 \<Rightarrow> u32" where
  "pg_loc_pte virt =
     0xFFC00000 + (drop_bit 10 virt AND 0xFFFFF000) + (drop_bit 12 virt AND 0x3FF) * 4"

definition map_page :: "u32 \<Rightarrow> u32 \<Rightarrow> u32 \<Rightarrow> paging \<Rightarrow> paging" where
  "map_page virt phys flags g =
    (let pde = pg_loc_pde virt;
         g1 = (if pg_win g pde AND PTE_P \<noteq> 0 then g
               else g\<lparr>pg_win := (pg_win g)(pde :=
                      ((drop_bit 10 virt AND 0xFFFFF000) + pg_pt_phys g) OR (PTE_RW OR PTE_P))\<rparr>)
     in g1\<lparr>pg_win := (pg_win g1)(pg_loc_pte virt :=
             (phys AND 0xFFFFF000) OR ((flags AND 0xFFF) OR PTE_P))\<rparr>)"

definition unmap_page :: "u32 \<Rightarrow> paging \<Rightarrow> paging" where
  "unmap_page virt g =
    (if pg_win g (pg_loc_pde virt) AND PTE_P = 0 then g
     else if pg_win g (pg_loc_pte virt) AND PTE_P = 0 then g
     else g\<lparr>pg_win := (pg_win g)(pg_loc_pte virt := 0)\<rparr>)"

text \<open>The loops of \<^verbatim>\<open>pg_map\<close>, \<^verbatim>\<open>pg_unmap\<close> and \<^verbatim>\<open>pg_chgpriv\<close>; the number is what is left of \<^verbatim>\<open>count\<close>.\<close>

primrec pg_map_loop :: "nat \<Rightarrow> u32 \<Rightarrow> u32 \<Rightarrow> u32 \<Rightarrow> paging \<Rightarrow> paging" where
  "pg_map_loop 0 virt phys flags g = g"
| "pg_map_loop (Suc n) virt phys flags g =
     pg_map_loop n (virt + PAGE_SIZE) (phys + PAGE_SIZE) flags (map_page virt phys flags g)"

definition pg_map :: "u32 \<Rightarrow> u32 \<Rightarrow> u32 \<Rightarrow> u32 \<Rightarrow> paging \<Rightarrow> paging" where
  "pg_map virt phys flags count g = pg_map_loop (unat count) virt phys flags g"

primrec pg_unmap_loop :: "nat \<Rightarrow> u32 \<Rightarrow> paging \<Rightarrow> paging" where
  "pg_unmap_loop 0 virt g = g"
| "pg_unmap_loop (Suc n) virt g = pg_unmap_loop n (virt + PAGE_SIZE) (unmap_page virt g)"

definition pg_unmap :: "u32 \<Rightarrow> u32 \<Rightarrow> paging \<Rightarrow> paging" where
  "pg_unmap virt count g = pg_unmap_loop (unat count) virt g"

definition pg_virt2phys :: "u32 \<Rightarrow> paging \<Rightarrow> u32" where
  "pg_virt2phys virt g =
    (if pg_win g (pg_loc_pde virt) AND PTE_P = 0 then 0
     else if pg_win g (pg_loc_pte virt) AND PTE_P = 0 then 0
     else (virt AND (PAGE_SIZE - 1)) OR (pg_win g (pg_loc_pte virt) AND 0xFFFFF000))"

primrec pg_chgpriv_loop :: "nat \<Rightarrow> u32 \<Rightarrow> u32 \<Rightarrow> paging \<Rightarrow> paging" where
  "pg_chgpriv_loop 0 virt flags g = g"
| "pg_chgpriv_loop (Suc n) virt flags g =
     pg_chgpriv_loop n (virt + PAGE_SIZE) flags
       (g\<lparr>pg_win := (pg_win g)(pg_loc_pte virt :=
            (pg_win g (pg_loc_pte virt) AND NOT (PTE_RW OR PTE_US)) OR flags)\<rparr>)"

text \<open>
  \<^verbatim>\<open>pg_chgpriv\<close> keeps \<^verbatim>\<open>count\<close> in \<^verbatim>\<open>edx\<close>, and \<^verbatim>\<open>PG_DBG\<close> is defined, so \<^verbatim>\<open>kdprintf\<close> is called before the loop; a
  compiled function may leave any value in \<^verbatim>\<open>edx\<close>. The loop runs as often as that value says: it is the
  parameter \<open>edx\<close>, a function of the count. Where the call leaves the register alone it is the identity.
\<close>

definition pg_chgpriv :: "(u32 \<Rightarrow> u32) \<Rightarrow> u32 \<Rightarrow> u32 \<Rightarrow> u32 \<Rightarrow> paging \<Rightarrow> paging" where
  "pg_chgpriv edx virt flags count g =
     pg_chgpriv_loop (unat (edx count)) virt (flags AND (PTE_RW OR PTE_US)) g"

section \<open>Where the entries are\<close>

lemma unat_pg_loc_pde: "unat (pg_loc_pde v) = 4294963200 + 4 * (unat v div 4194304)"
proof -
  have "unat v div 4194304 < 1024" using unat_less_u32 [of v] by (simp add: less_mult_imp_div_less del: unat_less_u32)
  moreover from this have "unat (drop_bit 22 v * 4) = 4 * (unat v div 4194304)"
    by (simp add: unat_word_ariths unat_drop_bit_u32)
  ultimately show ?thesis
    unfolding pg_loc_pde_def by (subst unat_add_u32) simp_all
qed

lemma frame_mask: "(0xFFFFF000 :: u32) = NOT (mask 12)"
  by code_simp

lemma unat_table_offset:
  "unat (drop_bit 10 (v :: u32) AND 0xFFFFF000) = unat v div 4194304 * 4096"
  by (simp only: frame_mask and_not_mask_u32 unat_push_bit_u32 unat_drop_bit_u32)
    (use unat_less_u32 [of v] in
      \<open>simp add: less_mult_imp_div_less div_mult2_eq [symmetric] del: unat_less_u32\<close>)

lemma unat_pg_loc_pte: "unat (pg_loc_pte v) = 4290772992 + 4 * (unat v div 4096)"
proof -
  define q where "q = unat v div 4096"
  have q: "q < 1048576" using TO_PAGE_bound [of v] by (simp add: q_def unat_TO_PAGE)
  have off: "unat (drop_bit 10 v AND 0xFFFFF000) = q div 1024 * 4096"
    by (simp add: unat_table_offset q_def div_mult2_eq [symmetric])
  have "unat (drop_bit 12 v AND 0x3FF) = q mod 1024"
    using unat_and_mask_u32 [of "drop_bit 12 v" 10]
    by (simp add: mask_eq_exp_minus_1 unat_drop_bit_u32 q_def)
  then have idx: "unat ((drop_bit 12 v AND 0x3FF) * 4) = 4 * (q mod 1024)"
    by (simp add: unat_word_ariths)
  have d: "q div 1024 < 1024" and m: "q mod 1024 < 1024"
    using q by (simp_all add: less_mult_imp_div_less)
  have tab: "unat (0xFFC00000 + (drop_bit 10 v AND 0xFFFFF000)) = 4290772992 + q div 1024 * 4096"
    using d by (subst unat_add_u32) (simp_all add: off)
  have "unat (pg_loc_pte v) = 4290772992 + q div 1024 * 4096 + 4 * (q mod 1024)"
    unfolding pg_loc_pte_def
    by (rule trans [OF unat_add_u32]) (use tab idx d m in linarith, use tab idx in linarith)
  then show ?thesis unfolding q_def [symmetric] using div_mult_mod_eq [of q 1024] by linarith
qed

lemma pg_loc_pte_eq: "pg_loc_pte v = pg_loc_pte w \<longleftrightarrow> unat v div 4096 = unat w div 4096"
  by (simp add: word_unat_eq_iff unat_pg_loc_pte)

lemma pg_loc_pde_eq: "pg_loc_pde v = pg_loc_pde w \<longleftrightarrow> unat v div 4194304 = unat w div 4194304"
  by (simp add: word_unat_eq_iff unat_pg_loc_pde)

lemma pg_loc_pte_not_pde: "v < 0xFFC00000 \<Longrightarrow> pg_loc_pte v \<noteq> pg_loc_pde w"
  by (simp add: word_unat_eq_iff word_less_nat_alt unat_pg_loc_pte unat_pg_loc_pde)

section \<open>The tables as a partial map from pages to frames\<close>

definition present :: "u32 \<Rightarrow> bool" where
  "present e \<longleftrightarrow> e AND PTE_P \<noteq> 0"

definition pg_abs :: "paging \<Rightarrow> nat \<Rightarrow> u32 option" where
  "pg_abs g n =
    (let v = TO_ADDR (of_nat n) in
     if n < 0xFFC00 \<and> present (pg_win g (pg_loc_pde v)) \<and> present (pg_win g (pg_loc_pte v))
     then Some (pg_win g (pg_loc_pte v) AND 0xFFFFF000) else None)"

text \<open>A table that the directory does not reach holds no present entry.\<close>

definition pg_wf :: "paging \<Rightarrow> bool" where
  "pg_wf g \<longleftrightarrow> (\<forall>v < 0xFFC00000. present (pg_win g (pg_loc_pte v)) \<longrightarrow>
                                   present (pg_win g (pg_loc_pde v)))"

lemma bit_frame_mask: "bit (0xFFFFF000 :: u32) n \<longleftrightarrow> 12 \<le> n \<and> n < 32"
  by (auto simp: frame_mask bit_simps)

lemma bit_offset_mask: "bit (0xFFF :: u32) n \<longleftrightarrow> n < 12"
proof -
  have "(0xFFF :: u32) = mask 12" by (simp add: mask_eq_exp_minus_1)
  then show ?thesis by (simp only: bit_mask_iff) (auto simp: possible_bit_def)
qed

lemma present_iff: "present e \<longleftrightarrow> bit e 0"
  by (simp add: present_def PTE_P_def bit_0 and_one_eq mod_2_eq_odd)

lemma present_entry: "present (x OR (y OR PTE_P))"
  by (simp add: present_iff bit_or_iff PTE_P_def)

lemma present_pde: "present (x OR (PTE_RW OR PTE_P))"
  by (rule present_entry)

lemma entry_frame:
  "((phys AND 0xFFFFF000) OR ((flags AND 0xFFF) OR PTE_P)) AND 0xFFFFF000 = phys AND 0xFFFFF000"
  by (rule bit_eqI)
    (auto simp: bit_and_iff bit_or_iff bit_frame_mask bit_offset_mask PTE_P_def bit_1_iff
      simp del: bit_numeral_word_iff)

lemma same_page_same_table:
  "unat v div 4096 = unat w div 4096 \<Longrightarrow> unat v div 4194304 = unat w div 4194304"
  using div_mult2_eq [of "unat v" 4096 1024] div_mult2_eq [of "unat w" 4096 1024] by simp

lemma page_addr:
  assumes "n < 0xFFC00"
  shows "unat (TO_ADDR (of_nat n)) = n * 4096" and "TO_ADDR (of_nat n) < 0xFFC00000"
proof -
  show "unat (TO_ADDR (of_nat n)) = n * 4096"
    using assms by (subst unat_TO_ADDR) (simp_all add: unat_of_nat_u32)
  then show "TO_ADDR (of_nat n) < 0xFFC00000"
    using assms by (simp add: word_less_nat_alt)
qed

lemma page_bound: "(v :: u32) < 0xFFC00000 \<Longrightarrow> unat v div 4096 < 0xFFC00"
  by (simp add: word_less_nat_alt div_less_iff_less_mult)

lemma pg_abs_page:
  assumes "v < 0xFFC00000"
  shows "pg_abs g (unat v div 4096) =
     (if present (pg_win g (pg_loc_pde v)) \<and> present (pg_win g (pg_loc_pte v))
      then Some (pg_win g (pg_loc_pte v) AND 0xFFFFF000) else None)"
proof -
  let ?w = "TO_ADDR (of_nat (unat v div 4096))"
  have n: "unat v div 4096 < 0xFFC00" using assms by (rule page_bound)
  then have "unat ?w div 4096 = unat v div 4096"
    by (subst page_addr(1)) simp_all
  then have "pg_loc_pte ?w = pg_loc_pte v" and "pg_loc_pde ?w = pg_loc_pde v"
    by (auto simp: pg_loc_pte_eq pg_loc_pde_eq dest: same_page_same_table)
  then show ?thesis using n by (simp add: pg_abs_def Let_def)
qed

lemma pg_virt2phys_abs:
  assumes "v < 0xFFC00000"
  shows "pg_virt2phys v g = (case pg_abs g (unat v div 4096) of None \<Rightarrow> 0
           | Some f \<Rightarrow> (v AND 0xFFF) OR f)"
  by (simp add: pg_abs_page [OF assms] pg_virt2phys_def present_def PAGE_SIZE_def)

lemma pg_win_map_page:
  assumes "v < 0xFFC00000"
  shows "present (pg_win (map_page v p f g) (pg_loc_pde w)) \<longleftrightarrow>
           present (pg_win g (pg_loc_pde w)) \<or> unat v div 4194304 = unat w div 4194304"
    and "w < 0xFFC00000 \<Longrightarrow> pg_win (map_page v p f g) (pg_loc_pte w) =
           (if unat v div 4096 = unat w div 4096
            then (p AND 0xFFFFF000) OR ((f AND 0xFFF) OR PTE_P) else pg_win g (pg_loc_pte w))"
  using assms pg_loc_pte_not_pde [of v w] pg_loc_pte_not_pde [of w v]
  by (auto simp: map_page_def Let_def pg_loc_pde_eq pg_loc_pte_eq present_pde
      simp flip: present_def dest: sym) (metis pg_loc_pde_eq)

lemma pg_wf_map_page: "pg_wf g \<Longrightarrow> v < 0xFFC00000 \<Longrightarrow> pg_wf (map_page v p f g)"
  by (auto simp: pg_wf_def pg_win_map_page dest: same_page_same_table split: if_splits)

lemma pg_abs_map_page:
  assumes "pg_wf g" and "v < 0xFFC00000"
  shows "pg_abs (map_page v p f g) = (pg_abs g)(unat v div 4096 \<mapsto> p AND 0xFFFFF000)"
proof
  fix n
  show "pg_abs (map_page v p f g) n = ((pg_abs g)(unat v div 4096 \<mapsto> p AND 0xFFFFF000)) n"
  proof (cases "n < 0xFFC00")
    case True
    let ?w = "TO_ADDR (of_nat n)"
    have w: "?w < 0xFFC00000" and n: "n = unat ?w div 4096"
      using page_addr [OF True] by simp_all
    have "pg_abs (map_page v p f g) (unat ?w div 4096) =
        ((pg_abs g)(unat v div 4096 \<mapsto> p AND 0xFFFFF000)) (unat ?w div 4096)"
      using assms w same_page_same_table [of v ?w]
      by (auto simp: pg_abs_page pg_win_map_page present_entry entry_frame pg_wf_def)
    then show ?thesis by (simp flip: n)
  next
    case False
    then show ?thesis using page_bound [OF assms(2)] by (auto simp: pg_abs_def)
  qed
qed

lemma pg_win_unmap_page:
  assumes "v < 0xFFC00000"
  shows "pg_win (unmap_page v g) (pg_loc_pde w) = pg_win g (pg_loc_pde w)"
    and "present (pg_win (unmap_page v g) (pg_loc_pte w)) \<Longrightarrow>
          pg_win (unmap_page v g) (pg_loc_pte w) = pg_win g (pg_loc_pte w)"
    and "pg_wf g \<Longrightarrow> present (pg_win (unmap_page v g) (pg_loc_pte w)) \<longleftrightarrow>
          present (pg_win g (pg_loc_pte w)) \<and> unat v div 4096 \<noteq> unat w div 4096"
  using assms pg_loc_pte_not_pde [OF assms, of w]
  by (auto simp: unmap_page_def pg_loc_pte_eq present_def pg_wf_def dest: sym)
    (metis pg_loc_pte_eq)+

lemma pg_wf_unmap_page: "pg_wf g \<Longrightarrow> v < 0xFFC00000 \<Longrightarrow> pg_wf (unmap_page v g)"
  by (auto simp: pg_wf_def [of "unmap_page v g"] pg_win_unmap_page) (simp add: pg_wf_def)

lemma pg_abs_unmap_page:
  assumes "pg_wf g" and "v < 0xFFC00000"
  shows "pg_abs (unmap_page v g) = (pg_abs g)(unat v div 4096 := None)"
proof
  fix n
  show "pg_abs (unmap_page v g) n = ((pg_abs g)(unat v div 4096 := None)) n"
  proof (cases "n < 0xFFC00")
    case True
    let ?w = "TO_ADDR (of_nat n)"
    have w: "?w < 0xFFC00000" and n: "n = unat ?w div 4096"
      using page_addr [OF True] by simp_all
    have "pg_abs (unmap_page v g) (unat ?w div 4096) =
        ((pg_abs g)(unat v div 4096 := None)) (unat ?w div 4096)"
      using assms w pg_win_unmap_page [OF assms(2), of g ?w]
      by (auto simp: pg_abs_page)
    then show ?thesis by (simp flip: n)
  next
    case False
    then show ?thesis by (auto simp: pg_abs_def)
  qed
qed

lemma next_page_addr:
  assumes "unat v div 4096 + Suc n \<le> 0xFFC00"
  shows "(v :: u32) < 0xFFC00000" and "unat (v + PAGE_SIZE) div 4096 = Suc (unat v div 4096)"
proof -
  have "unat v div 4096 < 0xFFC00" using assms by simp
  then have lt: "unat v < 0xFFC00000" by (simp add: div_less_iff_less_mult)
  then show "v < 0xFFC00000" by (simp add: word_less_nat_alt)
  from lt have "unat (v + PAGE_SIZE) = unat v + 4096"
    by (subst unat_add_u32) (simp_all add: PAGE_SIZE_def)
  then show "unat (v + PAGE_SIZE) div 4096 = Suc (unat v div 4096)"
    by (simp add: div_add_self2)
qed

lemma pg_map_loop_abs:
  assumes "pg_wf g" and "unat v div 4096 + n \<le> 0xFFC00"
  shows "pg_wf (pg_map_loop n v p f g) \<and>
    pg_abs (pg_map_loop n v p f g) =
      (\<lambda>k. if unat v div 4096 \<le> k \<and> k < unat v div 4096 + n
           then Some ((p + of_nat (k - unat v div 4096) * PAGE_SIZE) AND 0xFFFFF000)
           else pg_abs g k)"
  using assms
proof (induction n arbitrary: v p g)
  case 0
  then show ?case by (auto simp: fun_eq_iff)
next
  case (Suc n)
  note nxt = next_page_addr [OF Suc.prems(2)]
  have wf: "pg_wf (map_page v p f g)" using Suc.prems nxt by (simp add: pg_wf_map_page)
  have "unat (v + PAGE_SIZE) div 4096 + n \<le> 0xFFC00" using Suc.prems nxt by simp
  note IH = Suc.IH [OF wf this, of "p + PAGE_SIZE"]
  show ?case
    using IH nxt Suc.prems
    by (auto simp: fun_eq_iff pg_abs_map_page not_le less_Suc_eq_le dest: le_antisym)
      (simp add: algebra_simps)
qed

lemma pg_unmap_loop_abs:
  assumes "pg_wf g" and "unat v div 4096 + n \<le> 0xFFC00"
  shows "pg_wf (pg_unmap_loop n v g) \<and>
    pg_abs (pg_unmap_loop n v g) =
      (\<lambda>k. if unat v div 4096 \<le> k \<and> k < unat v div 4096 + n then None else pg_abs g k)"
  using assms
proof (induction n arbitrary: v g)
  case 0
  then show ?case by (auto simp: fun_eq_iff)
next
  case (Suc n)
  note nxt = next_page_addr [OF Suc.prems(2)]
  have wf: "pg_wf (unmap_page v g)" using Suc.prems nxt by (simp add: pg_wf_unmap_page)
  have "unat (v + PAGE_SIZE) div 4096 + n \<le> 0xFFC00" using Suc.prems nxt by simp
  note IH = Suc.IH [OF wf this]
  show ?case
    using IH nxt Suc.prems by (auto simp: fun_eq_iff pg_abs_unmap_page)
qed

section \<open>Frames and offsets\<close>

lemma frame_floor: "x AND 0xFFFFF000 = TO_ADDR (TO_PAGE x)"
  using and_not_mask_u32 [of x 12] by (simp only: frame_mask TO_ADDR_def TO_PAGE_def)

lemma frame_aligned: "page_aligned f \<Longrightarrow> f AND 0xFFFFF000 = f"
  by (simp add: frame_floor TO_ADDR_TO_PAGE)

lemma or_disjoint_add: "x AND y = 0 \<Longrightarrow> x OR y = x + y" for x y :: u32
  using word_plus_and_or [of x y] by simp

lemma offset_or_frame: "page_aligned f \<Longrightarrow> (w AND 0xFFF) OR f = (w AND 0xFFF) + f"
proof (rule or_disjoint_add)
  assume "page_aligned f"
  then have "(w AND 0xFFF) AND f = (w AND 0xFFF) AND (f AND 0xFFFFF000)"
    by (simp add: frame_aligned)
  also have "\<dots> = 0"
    by (rule bit_eqI) (auto simp: bit_and_iff bit_frame_mask bit_offset_mask
        simp del: bit_numeral_word_iff)
  finally show "(w AND 0xFFF) AND f = 0" .
qed

lemma offset_plus_frame: "(w AND 0xFFF) + (w AND 0xFFFFF000) = (w :: u32)"
proof -
  have "(w AND 0xFFF) OR (w AND 0xFFFFF000) = w"
    by (rule bit_eqI) (auto simp: bit_and_iff bit_or_iff bit_frame_mask bit_offset_mask
        simp del: bit_numeral_word_iff)
  then show ?thesis by (simp add: offset_or_frame frame_floor)
qed

section \<open>What the range operations do\<close>

lemma pg_map_abs:
  assumes "pg_wf g" and "unat v div 4096 + unat c \<le> 0xFFC00"
  shows "pg_wf (pg_map v p f c g)"
    and "pg_abs (pg_map v p f c g) k =
      (if unat v div 4096 \<le> k \<and> k < unat v div 4096 + unat c
       then Some ((p + of_nat (k - unat v div 4096) * PAGE_SIZE) AND 0xFFFFF000)
       else pg_abs g k)"
  using pg_map_loop_abs [OF assms, of p f] by (simp_all add: pg_map_def)

lemma pg_unmap_abs:
  assumes "pg_wf g" and "unat v div 4096 + unat c \<le> 0xFFC00"
  shows "pg_wf (pg_unmap v c g)"
    and "pg_abs (pg_unmap v c g) k =
      (if unat v div 4096 \<le> k \<and> k < unat v div 4096 + unat c then None else pg_abs g k)"
  using pg_unmap_loop_abs [OF assms] by (simp_all add: pg_unmap_def)

text \<open>The state at boot: no entry is present.\<close>

definition pg_empty :: "u32 \<Rightarrow> paging" where
  "pg_empty pt = \<lparr>pg_win = (\<lambda>_. 0), pg_pt_phys = pt\<rparr>"

lemma pg_wf_empty: "pg_wf (pg_empty pt)"
  by (simp add: pg_wf_def pg_empty_def present_def)

text \<open>C9: after \<open>pg_map\<close> every address of the mapped range translates to the physical page at the
  same distance from the start, with the offset inside the page kept, and every other address
  translates as before.\<close>

theorem pg_map_translates:
  assumes "pg_wf g" and "unat v div 4096 + unat c \<le> 0xFFC00" and "w < 0xFFC00000"
  shows "pg_virt2phys w (pg_map v p f c g) =
    (if unat v div 4096 \<le> unat w div 4096 \<and> unat w div 4096 < unat v div 4096 + unat c
     then (w AND 0xFFF) OR
       ((p + of_nat (unat w div 4096 - unat v div 4096) * PAGE_SIZE) AND 0xFFFFF000)
     else pg_virt2phys w g)"
  using assms(3) by (simp add: pg_virt2phys_abs pg_map_abs [OF assms(1,2)])

theorem pg_map_translates_witness:
  "pg_virt2phys 0xC0101234 (pg_map 0xC0100000 0x00500000 PTE_RW 2 (pg_empty 0x300000)) = 0x501234"
  using pg_map_translates [OF pg_wf_empty [of "0x300000"], where v = "0xC0100000" and c = 2 and w = "0xC0101234"
      and p = "0x00500000" and f = PTE_RW]
  by (simp add: PAGE_SIZE_def)

text \<open>C10: after \<open>pg_unmap\<close> no address of the range is mapped (\<open>pg_virt2phys\<close> returns 0), and every
  other address translates as before.\<close>

theorem pg_unmap_translates:
  assumes "pg_wf g" and "unat v div 4096 + unat c \<le> 0xFFC00" and "w < 0xFFC00000"
  shows "pg_virt2phys w (pg_unmap v c g) =
    (if unat v div 4096 \<le> unat w div 4096 \<and> unat w div 4096 < unat v div 4096 + unat c
     then 0 else pg_virt2phys w g)"
  using assms(3) by (simp add: pg_virt2phys_abs pg_unmap_abs [OF assms(1,2)])

theorem pg_unmap_translates_witness:
  "pg_virt2phys 0xC0100010 (pg_unmap 0xC0100000 1 (pg_map 0xC0100000 0x500000 PTE_RW 2 (pg_empty 0))) = 0
   \<and> pg_virt2phys 0xC0101010 (pg_unmap 0xC0100000 1 (pg_map 0xC0100000 0x500000 PTE_RW 2 (pg_empty 0)))
       = pg_virt2phys 0xC0101010 (pg_map 0xC0100000 0x500000 PTE_RW 2 (pg_empty 0))"
proof -
  have wf: "pg_wf (pg_map 0xC0100000 0x500000 PTE_RW 2 (pg_empty 0))"
    by (rule pg_map_abs) (simp_all add: pg_wf_empty)
  show ?thesis
    using pg_unmap_translates [OF wf, where v = "0xC0100000" and c = 1 and w = "0xC0100010"]
      pg_unmap_translates [OF wf, where v = "0xC0100000" and c = 1 and w = "0xC0101010"]
    by simp
qed

end
