(* ===== verification/Kinit_Alloc.thy ===== *)
theory Kinit_Alloc
  imports Paging
begin

text \<open>
  \<^verbatim>\<open>src/mm/kinit_alloc.c\<close>: the bump allocator that gives out memory behind the kernel image
  while the memory managers are set up. An allocation moves \<^verbatim>\<open>next\<close> up and maps the pages it
  lies on at their kernel addresses; nothing is ever freed.
\<close>

record kinit_alloc =
  ka_base :: u32
  ka_next :: u32
  ka_limit :: u32
  ka_enabled :: bool

definition DEFAULT_ALIGNMENT :: u32 where
  "DEFAULT_ALIGNMENT = 0x10"

definition kinit_alloc_init :: "u32 \<Rightarrow> u32 \<Rightarrow> kinit_alloc option" where
  "kinit_alloc_init base limit = do {
     assert (base AND (PAGE_SIZE - 1) = 0);
     assert (limit AND (PAGE_SIZE - 1) = 0);
     Some \<lparr>ka_base = base, ka_next = base, ka_limit = limit, ka_enabled = True\<rparr>
   }"

definition kinit_alloc_finalize :: "kinit_alloc \<Rightarrow> kinit_alloc option" where
  "kinit_alloc_finalize ka = do {
     assert (ka_enabled ka = True);
     assert (ka_base ka < ka_next ka);
     Some (ka\<lparr>ka_enabled := False, ka_limit := ka_next ka - ka_base ka\<rparr>)
   }"

definition kinit_alloc_get_base :: "kinit_alloc \<Rightarrow> u32" where
  "kinit_alloc_get_base ka = ka_base ka"

definition kinit_alloc_get_next :: "kinit_alloc \<Rightarrow> u32" where
  "kinit_alloc_get_next ka = ka_next ka"

definition kinit_alloc_get_limit :: "kinit_alloc \<Rightarrow> u32" where
  "kinit_alloc_get_limit ka = ka_limit ka"

text \<open>The result is the pointer (0 for \<^verbatim>\<open>NULL\<close>) with the allocator and the page tables.\<close>

definition kinit_alloc_align ::
  "u32 \<Rightarrow> u32 \<Rightarrow> kinit_alloc \<times> paging \<Rightarrow> (u32 \<times> kinit_alloc \<times> paging) option" where
  "kinit_alloc_align sz align st = (case st of (ka, g) \<Rightarrow> do {
     assert (ka_enabled ka = True);
     let a = (if align = 0 then DEFAULT_ALIGNMENT else align);
         p = ALIGN (ka_next ka) a in
     if ka_limit ka < (p - ka_base ka) + sz then Some (0, ka, g)
     else Some (p, ka\<lparr>ka_next := p + sz\<rparr>,
            pg_map (p AND 0xFFFFF000) (V2P (p AND 0xFFFFF000)) PTE_RW
              (TO_PAGE ((p AND 0xFFF) + sz + (PAGE_SIZE - 1))) g)
   })"

definition kinit_alloc :: "u32 \<Rightarrow> kinit_alloc \<times> paging \<Rightarrow> (u32 \<times> kinit_alloc \<times> paging) option" where
  "kinit_alloc sz = kinit_alloc_align sz 0"

section \<open>The allocations are aligned, in bounds, apart from one another and mapped\<close>

definition ka_wf :: "kinit_alloc \<Rightarrow> bool" where
  "ka_wf ka \<longleftrightarrow> ka_enabled ka \<and> page_aligned (ka_base ka) \<and>
     unat (ka_base ka) \<le> unat (ka_next ka) \<and>
     unat (ka_next ka) \<le> unat (ka_base ka) + unat (ka_limit ka) \<and>
     unat (ka_base ka) + unat (ka_limit ka) + 16 \<le> 0xFFC00000"

lemma ALIGN_16:
  assumes "unat x + 15 < 4294967296"
  shows "unat (ALIGN x 16) mod 16 = 0" "unat x \<le> unat (ALIGN x 16)" "unat (ALIGN x 16) < unat x + 16"
proof -
  have "NOT (15 :: u32) = NOT (mask 4)" by (simp add: mask_eq_exp_minus_1)
  then have "ALIGN x 16 = push_bit 4 (drop_bit 4 (x + 15))"
    by (simp only: ALIGN_def and_not_mask_u32 [symmetric]) simp
  moreover have "unat (x + 15) = unat x + 15" using assms by (subst unat_add_u32) simp_all
  ultimately have "unat (ALIGN x 16) = (unat x + 15) div 16 * 16"
    using assms by (simp add: unat_push_bit_u32 unat_drop_bit_u32 mod_less)
  then show "unat (ALIGN x 16) mod 16 = 0" "unat x \<le> unat (ALIGN x 16)"
    "unat (ALIGN x 16) < unat x + 16" by simp_all
qed

lemma page_aligned_KVIRT: "page_aligned KVIRT"
  by (simp add: page_aligned_def KVIRT_def)

lemma identity_translation:
  assumes "pg_wf g" and "unat p div 4096 + unat c \<le> 0xFFC00"
    and "unat p div 4096 \<le> unat w div 4096" "unat w div 4096 < unat p div 4096 + unat c"
  shows "pg_virt2phys w (pg_map (p AND 0xFFFFF000) (V2P (p AND 0xFFFFF000)) f c g) = V2P w"
proof -
  let ?v = "p AND 0xFFFFF000" and ?k = "unat w div 4096 - unat p div 4096"
  have v: "unat ?v div 4096 = unat p div 4096" by (simp add: frame_floor to_nat)
  have "unat w < 0xFFC00000"
    using assms(2,4) by (simp add: div_less_iff_less_mult)
  then have w: "w < 0xFFC00000" by (simp add: word_less_nat_alt)
  have "?v + of_nat ?k * PAGE_SIZE = w AND 0xFFFFF000"
    using assms(3) by (simp add: frame_floor TO_ADDR_mult algebra_simps flip: unat_TO_PAGE)
  then have "V2P ?v + of_nat ?k * PAGE_SIZE = V2P (w AND 0xFFFFF000)"
    by (simp add: V2P_def algebra_simps)
  moreover have "page_aligned (V2P (w AND 0xFFFFF000))"
    by (simp add: V2P_def frame_floor page_aligned_diff page_aligned_KVIRT)
  moreover have "(w AND 0xFFF) + V2P (w AND 0xFFFFF000) = V2P w"
    using offset_plus_frame [of w] by (simp add: V2P_def algebra_simps)
  ultimately show ?thesis
    using assms w
    by (simp add: pg_virt2phys_abs pg_map_abs v frame_aligned offset_or_frame)
qed

text \<open>The pages an allocation of \<open>sz\<close> bytes at \<open>p\<close> lies on.\<close>

lemma alloc_pages:
  assumes "unat p + unat sz \<le> 0xFFC00000"
  shows "unat p div 4096 + unat (TO_PAGE ((p AND 0xFFF) + sz + (PAGE_SIZE - 1))) =
    (unat p + unat sz + 4095) div 4096"
proof -
  have "unat p mod 4096 < 4096" by simp
  then have "unat ((p AND 0xFFF) + sz) = unat p mod 4096 + unat sz"
    using assms by (subst unat_add_u32) (auto simp: to_nat)
  then have "unat ((p AND 0xFFF) + sz + (PAGE_SIZE - 1)) = unat p mod 4096 + unat sz + 4095"
    using assms \<open>unat p mod 4096 < 4096\<close> by (subst unat_add_u32) (auto simp: PAGE_SIZE_def)
  moreover have "a div 4096 + (a mod 4096 + b + 4095) div 4096 = (a + b + 4095) div 4096" for a b :: nat
  proof -
    have "a + b + 4095 = a mod 4096 + b + 4095 + a div 4096 * 4096"
      using div_mult_mod_eq [of a 4096] by linarith
    then show ?thesis by (simp only:)
  qed
  ultimately show ?thesis by (simp add: unat_TO_PAGE)
qed

lemma kinit_alloc_eq:
  assumes ka: "ka_wf ka" and sz: "unat (ka_limit ka) + unat sz + 16 < 4294967296"
  defines "p \<equiv> ALIGN (ka_next ka) 16"
  shows "unat p mod 16 = 0" and "unat (ka_next ka) \<le> unat p"
    and "kinit_alloc sz (ka, g) =
      (if unat (ka_base ka) + unat (ka_limit ka) < unat p + unat sz then Some (0, ka, g)
       else Some (p, ka\<lparr>ka_next := p + sz\<rparr>,
            pg_map (p AND 0xFFFFF000) (V2P (p AND 0xFFFFF000)) PTE_RW
              (TO_PAGE ((p AND 0xFFF) + sz + (PAGE_SIZE - 1))) g))"
proof -
  have "unat (ka_next ka) + 15 < 4294967296" using ka by (simp add: ka_wf_def)
  note al = ALIGN_16 [OF this, folded p_def]
  show "unat p mod 16 = 0" "unat (ka_next ka) \<le> unat p" using al by simp_all
  have "unat (p - ka_base ka) = unat p - unat (ka_base ka)"
    using al ka by (subst unat_sub_u32) (auto simp: ka_wf_def)
  then have "unat (p - ka_base ka + sz) = unat p - unat (ka_base ka) + unat sz"
    using al ka sz by (subst unat_add_u32) (auto simp: ka_wf_def)
  then have "ka_limit ka < p - ka_base ka + sz \<longleftrightarrow>
      unat (ka_base ka) + unat (ka_limit ka) < unat p + unat sz"
    using al ka by (auto simp: word_less_nat_alt ka_wf_def)
  then show "kinit_alloc sz (ka, g) =
      (if unat (ka_base ka) + unat (ka_limit ka) < unat p + unat sz then Some (0, ka, g)
       else Some (p, ka\<lparr>ka_next := p + sz\<rparr>,
            pg_map (p AND 0xFFFFF000) (V2P (p AND 0xFFFFF000)) PTE_RW
              (TO_PAGE ((p AND 0xFFF) + sz + (PAGE_SIZE - 1))) g))"
    using ka by (simp add: kinit_alloc_def kinit_alloc_align_def DEFAULT_ALIGNMENT_def ka_wf_def
        Let_def flip: p_def)
qed

lemma kinit_alloc_some:
  assumes ka: "ka_wf ka" and g: "pg_wf g"
    and sz: "unat (ka_limit ka) + unat sz + 16 < 4294967296"
    and fits: "unat p + unat sz \<le> unat (ka_base ka) + unat (ka_limit ka)"
    and p: "p = ALIGN (ka_next ka) 16"
  shows "\<exists>g'. kinit_alloc sz (ka, g) = Some (p, ka\<lparr>ka_next := p + sz\<rparr>, g') \<and>
      ka_wf (ka\<lparr>ka_next := p + sz\<rparr>) \<and> pg_wf g' \<and> unat (p + sz) = unat p + unat sz \<and>
      (\<forall>w. unat p \<le> unat w \<and> unat w < unat p + unat sz \<longrightarrow> pg_virt2phys w g' = V2P w)"
proof -
  let ?c = "TO_PAGE ((p AND 0xFFF) + sz + (PAGE_SIZE - 1))"
  let ?g = "pg_map (p AND 0xFFFFF000) (V2P (p AND 0xFFFFF000)) PTE_RW ?c g"
  have top: "unat p + unat sz + 16 \<le> 0xFFC00000" using fits ka by (simp add: ka_wf_def)
  have c: "unat p div 4096 + unat ?c = (unat p + unat sz + 4095) div 4096"
    using top by (intro alloc_pages) simp
  then have cb: "unat p div 4096 + unat ?c \<le> 0xFFC00" using top by simp
  then have "pg_wf ?g" using g by (intro pg_map_abs) (simp_all add: frame_floor to_nat)
  moreover have "pg_virt2phys w ?g = V2P w" if "unat p \<le> unat w" "unat w < unat p + unat sz" for w
    using that c by (intro identity_translation [OF g cb]) (auto intro: div_le_mono)
  moreover have "unat (p + sz) = unat p + unat sz" using top by (subst unat_add_u32) auto
  ultimately show ?thesis
    using kinit_alloc_eq [OF ka sz] fits ka p by (auto simp: ka_wf_def)
qed

text \<open>\<open>kinit_alloc\<close> either returns \<open>NULL\<close> with the state unchanged, exactly when the aligned
  request does not fit below the limit, or returns a 16-byte aligned block that starts at or after
  the previous allocations and ends at or below the limit, with every byte of it mapped at its
  kernel address; the allocator stays well-formed.\<close>

theorem kinit_alloc_correct:
  assumes "ka_wf ka" and "pg_wf g" and "unat (ka_limit ka) + unat sz + 16 < 4294967296"
  shows "\<exists>p ka' g'. kinit_alloc sz (ka, g) = Some (p, ka', g') \<and> ka_wf ka' \<and> pg_wf g' \<and>
    (if unat (ka_base ka) + unat (ka_limit ka) < unat (ALIGN (ka_next ka) 16) + unat sz
     then p = 0 \<and> ka' = ka \<and> g' = g
     else p = ALIGN (ka_next ka) 16 \<and> unat p mod 16 = 0 \<and> unat (ka_next ka) \<le> unat p \<and>
       unat (ka_next ka') = unat p + unat sz \<and>
       unat (ka_next ka') \<le> unat (ka_base ka) + unat (ka_limit ka) \<and>
       (\<forall>w. unat p \<le> unat w \<and> unat w < unat p + unat sz \<longrightarrow> pg_virt2phys w g' = V2P w))"
proof (cases "unat (ka_base ka) + unat (ka_limit ka) < unat (ALIGN (ka_next ka) 16) + unat sz")
  case True
  then show ?thesis using kinit_alloc_eq [OF assms(1,3)] assms by simp
next
  case False
  then show ?thesis
    using kinit_alloc_some [OF assms _ refl] kinit_alloc_eq [OF assms(1,3)] by fastforce
qed

theorem kinit_alloc_correct_witness:
  "\<exists>p ka' g'. kinit_alloc 0x1000
      (\<lparr>ka_base = 0xC0200000, ka_next = 0xC0200004, ka_limit = 0x100000, ka_enabled = True\<rparr>,
       pg_empty 0) = Some (p, ka', g') \<and> pg_virt2phys 0xC0200800 g' = 0x200800"
proof -
  let ?ka = "\<lparr>ka_base = 0xC0200000, ka_next = 0xC0200004, ka_limit = 0x100000, ka_enabled = True\<rparr>"
  have wf: "ka_wf ?ka" by (simp add: ka_wf_def page_aligned_def)
  obtain p ka' g' where "kinit_alloc 0x1000 (?ka, pg_empty 0) = Some (p, ka', g')"
      "p = 0xC0200010"
      "\<forall>w. unat p \<le> unat w \<and> unat w < unat p + 4096 \<longrightarrow> pg_virt2phys w g' = V2P w"
    using kinit_alloc_correct [OF wf pg_wf_empty [of 0], of "0x1000"] by (auto simp: ALIGN_def)
  moreover from this(2,3) have "pg_virt2phys 0xC0200800 g' = V2P 0xC0200800" by simp
  ultimately show ?thesis by (auto simp: V2P_def KVIRT_def)
qed

end
