(* ===== verification/Pmm.thy ===== *)
theory Pmm
  imports Bitmap Kphysmap Kinit_Alloc
begin

text \<open>
  \<^verbatim>\<open>src/mm/pmm.c\<close>: the physical memory manager. Its state is the global \<^verbatim>\<open>pmm\<close>: a bitmap with one
  bit for each physical page below the end of RAM, the page counters, the page where the next
  single allocation starts to search, and the longest run the last contiguous search saw.

  An access to \<^verbatim>\<open>bitmap[i]\<close> outside the array is \<open>None\<close>. Functions that return an address return
  0 when they fail, as the C code does.
\<close>

record pmm =
  pmm_bitmap_ptr :: u32
  pmm_bitmap :: "u32 list"
  pmm_bitmap_size :: u32
  pmm_total_pages :: u32
  pmm_usable_pages :: u32
  pmm_free_pages :: u32
  pmm_used_pages :: u32
  pmm_hint :: u32
  pmm_largest_run :: u32
  pmm_memory_end :: u32

section \<open>Bitmap accesses\<close>

definition pmm_set :: "u32 \<Rightarrow> pmm \<Rightarrow> pmm option" where
  "pmm_set phys p =
    (let page = TO_PAGE phys in
     if word_of page < length (pmm_bitmap p)
     then Some (p\<lparr>pmm_bitmap := bm_set (pmm_bitmap p) page\<rparr>) else None)"

definition pmm_clear :: "u32 \<Rightarrow> pmm \<Rightarrow> pmm option" where
  "pmm_clear phys p =
    (let page = TO_PAGE phys in
     if word_of page < length (pmm_bitmap p)
     then Some (p\<lparr>pmm_bitmap := bm_clear (pmm_bitmap p) page\<rparr>) else None)"

definition pmm_test :: "u32 \<Rightarrow> pmm \<Rightarrow> bool option" where
  "pmm_test phys p =
    (let page = TO_PAGE phys in
     if word_of page < length (pmm_bitmap p) then Some (bm_test (pmm_bitmap p) page) else None)"

section \<open>Marking ranges\<close>

text \<open>The loop bodies of \<^verbatim>\<open>pmm_mark_free\<close> and \<^verbatim>\<open>pmm_mark_used\<close>.\<close>

definition mark_free_page :: "u32 \<Rightarrow> pmm \<Rightarrow> pmm option" where
  "mark_free_page a p =
    (if pmm_total_pages p \<le> TO_PAGE a then Some p
     else do {
       t \<leftarrow> pmm_test a p;
       if t then do {
         p \<leftarrow> pmm_clear a p;
         Some (p\<lparr>pmm_free_pages := pmm_free_pages p + 1, pmm_used_pages := pmm_used_pages p - 1\<rparr>)
       } else Some p
     })"

definition mark_used_page :: "u32 \<Rightarrow> pmm \<Rightarrow> pmm option" where
  "mark_used_page a p =
    (if pmm_total_pages p \<le> TO_PAGE a then Some p
     else do {
       t \<leftarrow> pmm_test a p;
       if \<not> t then do {
         p \<leftarrow> pmm_set a p;
         Some (p\<lparr>pmm_free_pages := pmm_free_pages p - 1, pmm_used_pages := pmm_used_pages p + 1\<rparr>)
       } else Some p
     })"

definition pmm_mark_free :: "u32 \<Rightarrow> u32 \<Rightarrow> pmm \<Rightarrow> pmm option" where
  "pmm_mark_free phys sz p =
    (if pmm_memory_end p < phys then Some p
     else for_each (page_range (phys AND NOT (PAGE_SIZE - 1))
                     ((phys + sz + (PAGE_SIZE - 1)) AND NOT (PAGE_SIZE - 1))) mark_free_page p)"

definition pmm_mark_used :: "u32 \<Rightarrow> u32 \<Rightarrow> pmm \<Rightarrow> pmm option" where
  "pmm_mark_used phys sz p =
    (if pmm_memory_end p < phys then Some p
     else for_each (page_range (phys AND NOT (PAGE_SIZE - 1))
                     ((phys + sz + (PAGE_SIZE - 1)) AND NOT (PAGE_SIZE - 1))) mark_used_page p)"

section \<open>Initialisation\<close>

definition is_ram :: "kphysregion \<Rightarrow> bool" where
  "is_ram r \<longleftrightarrow> kr_flags r AND KPHYSREGION_VALID \<noteq> 0 \<and>
     kr_flags r AND KPHYSREGION_TYPE_MASK = KPHYSREGION_TYPE_RAM"

text \<open>One turn of the loop that finds the end of RAM and counts the whole pages.\<close>

definition measure_region :: "kphysregion \<Rightarrow> pmm \<Rightarrow> pmm" where
  "measure_region r p =
    (if \<not> is_ram r then p
     else
       let end_addr = kr_address r + kr_size r;
           p1 = (if pmm_memory_end p < end_addr then p\<lparr>pmm_memory_end := end_addr\<rparr> else p);
           start_page = ALIGN (kr_address r) PAGE_SIZE;
           end_page = end_addr AND NOT (PAGE_SIZE - 1)
       in if start_page < end_page
          then p1\<lparr>pmm_usable_pages := pmm_usable_pages p1 + TO_PAGE (end_page - start_page)\<rparr>
          else p1)"

definition pmm_init ::
  "kphysmap \<Rightarrow> pmm \<Rightarrow> kinit_alloc \<times> paging \<Rightarrow> (pmm \<times> kinit_alloc \<times> paging) option" where
  "pmm_init m p st = do {
     assert (0 < km_count m);
     let p = fold measure_region (km_list m) (p\<lparr>pmm_memory_end := 0, pmm_usable_pages := 0\<rparr>);
         tot = TO_PAGE (pmm_memory_end p + (PAGE_SIZE - 1));
         bytes = CEIL_DIV tot 32 * 4 in do {
     (ptr, ka, g) \<leftarrow> kinit_alloc bytes st;
     assert (ptr \<noteq> 0);
     p \<leftarrow> for_each (km_list m)
       (\<lambda>r p. if is_ram r then pmm_mark_free (kr_address r) (kr_size r) p else Some p)
       (p\<lparr>pmm_total_pages := tot, pmm_bitmap_size := bytes, pmm_free_pages := 0,
          pmm_used_pages := pmm_usable_pages p, pmm_hint := 0, pmm_bitmap_ptr := ptr,
          pmm_bitmap := replicate (unat bytes div 4) 0xFFFFFFFF\<rparr>);
     p \<leftarrow> pmm_mark_used 0 0x1000 p;
     Some (p, ka, g) } }"

section \<open>Allocating one page\<close>

text \<open>The inner \<^verbatim>\<open>while\<close>: the number of the lowest set bit, counted from \<open>b\<close>.\<close>

partial_function (option) lowest_one :: "u32 \<Rightarrow> u32 \<Rightarrow> u32 option" where
  "lowest_one free_bits b =
    (if free_bits AND 1 \<noteq> 0 then Some b else lowest_one (drop_bit 1 free_bits) (b + 1))"

text \<open>
  The search of both loops of \<^verbatim>\<open>pmm_alloc_one\<close>: the words are visited in the order of the list,
  with the bits of \<open>msk\<close> taken as used in word \<open>start\<close>, and the first word with a clear bit gives
  the page.
\<close>

primrec search_words :: "nat list \<Rightarrow> nat \<Rightarrow> u32 \<Rightarrow> u32 list \<Rightarrow> u32 option option" where
  "search_words [] start msk bm = Some None"
| "search_words (d # ds) start msk bm =
    (if length bm \<le> d then None
     else
       let bits = (if d = start then bm ! d OR msk else bm ! d) in
       if bits = 0xFFFFFFFF then search_words ds start msk bm
       else do {
         b \<leftarrow> lowest_one (NOT bits) 0;
         Some (Some (push_bit 5 (of_nat d) + b))
       })"

definition take_page :: "u32 \<Rightarrow> pmm \<Rightarrow> (u32 \<times> pmm) option" where
  "take_page page p = do {
     p \<leftarrow> pmm_set (TO_ADDR page) p;
     let p = p\<lparr>pmm_free_pages := pmm_free_pages p - 1, pmm_used_pages := pmm_used_pages p + 1,
               pmm_hint := page + 1\<rparr> in
     let p = (if pmm_total_pages p \<le> pmm_hint p then p\<lparr>pmm_hint := 0\<rparr> else p) in
     Some (TO_ADDR page, p)
   }"

definition pmm_alloc_one :: "pmm \<Rightarrow> (u32 \<times> pmm) option" where
  "pmm_alloc_one p =
    (if pmm_free_pages p = 0 then Some (0, p)
     else
       let p = (if pmm_total_pages p \<le> pmm_hint p then p\<lparr>pmm_hint := 0\<rparr> else p);
           hint = pmm_hint p;
           start = unat (drop_bit 5 hint);
           below = (\<lambda>page. push_bit (unat (page AND 31)) 1 - 1) in do {
       assert (start < unat (pmm_bitmap_size p div 4) \<longrightarrow> pmm_bitmap_ptr p \<noteq> 0);
       up \<leftarrow> search_words [start ..< unat (pmm_bitmap_size p div 4)] start (below hint) (pmm_bitmap p);
       let found = (case up of Some page \<Rightarrow> page < pmm_total_pages p | None \<Rightarrow> False);
           page = (case up of Some page \<Rightarrow> page | None \<Rightarrow> hint) in
       if found then take_page page p
       else do {
         down \<leftarrow> search_words [0 ..< Suc start] start (NOT (below page)) (pmm_bitmap p);
         case down of
           None \<Rightarrow> Some (0, p)
         | Some page \<Rightarrow> if pmm_total_pages p \<le> page then Some (0, p) else take_page page p
       } })"

section \<open>Allocating and freeing runs\<close>

definition pmm_find_contiguous_pages :: "u32 \<Rightarrow> pmm \<Rightarrow> (u32 \<times> pmm) option" where
  "pmm_find_contiguous_pages count p = do {
     assert (pmm_bitmap_ptr p \<noteq> 0);
     assert (pmm_bitmap_size p \<noteq> 0);
     let p = p\<lparr>pmm_largest_run := 0\<rparr> in
     if count = 0 then Some (0, p)
     else if length (pmm_bitmap p) < unat (pmm_bitmap_size p div 4) then None
     else case scan_dwords (take (unat (pmm_bitmap_size p div 4)) (pmm_bitmap p)) 0
            (pmm_total_pages p) count scan_init of
       Found s \<Rightarrow> Some (scan_start s, p\<lparr>pmm_largest_run := scan_largest s\<rparr>)
     | Continue s \<Rightarrow> Some (0, p\<lparr>pmm_largest_run := scan_largest s\<rparr>)
   }"

definition pmm_alloc :: "u32 \<Rightarrow> pmm \<Rightarrow> (u32 \<times> pmm) option" where
  "pmm_alloc count p =
    (if count = 0 then Some (0, p)
     else if pmm_free_pages p < count then Some (0, p)
     else if count = 1 then pmm_alloc_one p
     else do {
       (start, p) \<leftarrow> pmm_find_contiguous_pages count p;
       if start = 0 then Some (0, p)
       else do {
         p \<leftarrow> for_upto (unat count) (\<lambda>i. pmm_set (TO_ADDR (start + i))) p;
         Some (TO_ADDR start, p\<lparr>pmm_free_pages := pmm_free_pages p - count,
                                pmm_used_pages := pmm_used_pages p + count\<rparr>)
       }
     })"

text \<open>The address that \<^verbatim>\<open>pmm_free\<close> clears in turn \<^verbatim>\<open>i\<close> is \<^verbatim>\<open>phys + TO_PAGE(i)\<close>, as in the source.\<close>

definition pmm_free :: "u32 \<Rightarrow> u32 \<Rightarrow> pmm \<Rightarrow> pmm option" where
  "pmm_free phys count p =
    (if count = 0 then Some p
     else if phys AND (PAGE_SIZE - 1) \<noteq> 0 then Some p
     else
       let page = TO_PAGE phys in
       if pmm_total_pages p \<le> page \<or> pmm_total_pages p - page < count then Some p
       else do {
         p \<leftarrow> for_upto (unat count) (\<lambda>i. pmm_clear (phys + TO_PAGE i)) p;
         Some (p\<lparr>pmm_free_pages := pmm_free_pages p + count,
                 pmm_used_pages := pmm_used_pages p - count\<rparr>)
       })"

section \<open>Counters\<close>

definition pmm_get_free :: "pmm \<Rightarrow> u32" where
  "pmm_get_free p = pmm_free_pages p"

definition pmm_get_total :: "pmm \<Rightarrow> u32" where
  "pmm_get_total p = pmm_total_pages p"

definition pmm_get_used :: "pmm \<Rightarrow> u32" where
  "pmm_get_used p = pmm_used_pages p"

definition pmm_get_usable :: "pmm \<Rightarrow> u32" where
  "pmm_get_usable p = pmm_usable_pages p"

definition pmm_get_largest_run :: "pmm \<Rightarrow> u32" where
  "pmm_get_largest_run p = pmm_largest_run p"

section \<open>The invariant\<close>

text \<open>The pages the manager can give out.\<close>

definition free_set :: "pmm \<Rightarrow> nat set" where
  "free_set p = {n. n < unat (pmm_total_pages p) \<and> \<not> used (pmm_bitmap p) n}"

text \<open>The bitmap has one bit per page, and the bits behind the last page are set.\<close>

definition pmm_shape :: "pmm \<Rightarrow> bool" where
  "pmm_shape p \<longleftrightarrow> pmm_bitmap_ptr p \<noteq> 0 \<and> unat (pmm_total_pages p) < 1048576 \<and>
     length (pmm_bitmap p) = (unat (pmm_total_pages p) + 31) div 32 \<and>
     unat (pmm_bitmap_size p) = 4 * length (pmm_bitmap p) \<and>
     (\<forall>n. unat (pmm_total_pages p) \<le> n \<and> n < 32 * length (pmm_bitmap p) \<longrightarrow> used (pmm_bitmap p) n)"

definition pmm_wf :: "pmm \<Rightarrow> bool" where
  "pmm_wf p \<longleftrightarrow> pmm_shape p \<and> unat (pmm_free_pages p) = card (free_set p)"

text \<open>Address 0 stands for failure, so page 0 is never free.\<close>

definition pmm_inv :: "pmm \<Rightarrow> bool" where
  "pmm_inv p \<longleftrightarrow> pmm_wf p \<and> 0 \<notin> free_set p"

lemma finite_free_set [simp]: "finite (free_set p)"
  by (simp add: free_set_def)

lemma free_set_subset: "free_set p \<subseteq> {..<unat (pmm_total_pages p)}"
  by (auto simp: free_set_def)

lemma card_free_set_less: "pmm_shape p \<Longrightarrow> card (free_set p) < 1048576"
  using card_mono [OF _ free_set_subset, of p] by (auto simp: pmm_shape_def)

lemma shape_word: "pmm_shape p \<Longrightarrow> n < unat (pmm_total_pages p) \<Longrightarrow> n div 32 < length (pmm_bitmap p)"
  by (auto simp: pmm_shape_def)

text \<open>Setting and clearing one bit.\<close>

lemma pmm_test_page:
  assumes "pmm_shape p" and "TO_PAGE a < pmm_total_pages p"
  shows "pmm_test a p = Some (unat (TO_PAGE a) \<notin> free_set p)"
  using assms shape_word [OF assms(1), of "unat (TO_PAGE a)"]
  by (simp add: pmm_test_def word_of_nat bm_test_used free_set_def word_less_nat_alt)

lemma pmm_set_page:
  assumes "pmm_shape p" and "TO_PAGE a < pmm_total_pages p"
  shows "\<exists>bm. pmm_set a p = Some (p\<lparr>pmm_bitmap := bm\<rparr>) \<and> pmm_shape (p\<lparr>pmm_bitmap := bm\<rparr>) \<and>
    (\<forall>n. used bm n \<longleftrightarrow> used (pmm_bitmap p) n \<or> n = unat (TO_PAGE a))"
proof -
  have "unat (TO_PAGE a) div 32 < length (pmm_bitmap p)"
    using assms by (intro shape_word) (simp_all add: word_less_nat_alt)
  then show ?thesis
    using assms(1) by (auto simp: pmm_set_def word_of_nat pmm_shape_def used_bm_set)
qed

lemma pmm_clear_page:
  assumes "pmm_shape p" and "TO_PAGE a < pmm_total_pages p"
  shows "\<exists>bm. pmm_clear a p = Some (p\<lparr>pmm_bitmap := bm\<rparr>) \<and> pmm_shape (p\<lparr>pmm_bitmap := bm\<rparr>) \<and>
    (\<forall>n. used bm n \<longleftrightarrow> used (pmm_bitmap p) n \<and> n \<noteq> unat (TO_PAGE a))"
proof -
  have lt: "unat (TO_PAGE a) < unat (pmm_total_pages p)"
    using assms(2) by (simp add: word_less_nat_alt)
  then show ?thesis
    using assms(1) shape_word [OF assms(1) lt]
    by (auto simp: pmm_clear_def word_of_nat pmm_shape_def used_bm_clear)
qed

lemma unat_minus_1: "n \<noteq> 0 \<Longrightarrow> unat (n - 1) = unat n - 1" for n :: u32
  by (subst unat_sub_u32) (auto simp: word_unat_eq_iff)

lemma free_pages_in: "pmm_wf p \<Longrightarrow> n \<in> free_set p \<Longrightarrow> pmm_free_pages p \<noteq> 0"
  by (auto simp: pmm_wf_def)

text \<open>Removing a page from, and adding one to, the free set together with the counter.\<close>

lemma pmm_wf_take:
  assumes "pmm_wf p" and "n \<in> free_set p" and "pmm_shape q"
    and "free_set q = free_set p - {n}" and "pmm_free_pages q = pmm_free_pages p - 1"
  shows "pmm_wf q"
  using assms free_pages_in [OF assms(1,2)] by (simp add: pmm_wf_def unat_minus_1)

lemma pmm_wf_give:
  assumes "pmm_wf p" and "n \<notin> free_set p" and "pmm_shape q"
    and "free_set q = insert n (free_set p)" and "pmm_free_pages q = pmm_free_pages p + 1"
  shows "pmm_wf q"
proof -
  have "unat (pmm_free_pages p + 1) = Suc (unat (pmm_free_pages p))"
    using assms(1) card_free_set_less [of p] by (subst unat_add_u32) (auto simp: pmm_wf_def)
  then show ?thesis using assms by (simp add: pmm_wf_def)
qed

section \<open>Marking loops\<close>

type_synonym pmm_geometry = "u32 \<times> u32 \<times> u32 \<times> u32"

text \<open>What the marking loops leave alone, and the page that one turn is about.\<close>

definition geometry :: "pmm \<Rightarrow> pmm_geometry" where
  "geometry p = (pmm_total_pages p, pmm_memory_end p, pmm_usable_pages p, pmm_bitmap_ptr p)"

definition page_in :: "u32 \<Rightarrow> pmm_geometry \<Rightarrow> nat set" where
  "page_in a geo = {n. n = unat (TO_PAGE a) \<and> n < unat (fst geo)}"

lemma mark_free_page_step:
  assumes "pmm_wf p"
  shows "\<exists>p'. mark_free_page a p = Some p' \<and> pmm_wf p' \<and>
    free_set p' = free_set p \<union> page_in a (geometry p) \<and> geometry p' = geometry p"
proof (cases "pmm_total_pages p \<le> TO_PAGE a")
  case True
  then show ?thesis
    using assms by (auto simp: mark_free_page_def page_in_def geometry_def word_le_nat_alt)
next
  case False
  then have lt: "TO_PAGE a < pmm_total_pages p" by simp
  then have page: "page_in a (geometry p) = {unat (TO_PAGE a)}"
    by (auto simp: page_in_def geometry_def word_less_nat_alt)
  have shape: "pmm_shape p" using assms by (simp add: pmm_wf_def)
  obtain bm where bm: "pmm_clear a p = Some (p\<lparr>pmm_bitmap := bm\<rparr>)" "pmm_shape (p\<lparr>pmm_bitmap := bm\<rparr>)"
      "\<forall>n. used bm n \<longleftrightarrow> used (pmm_bitmap p) n \<and> n \<noteq> unat (TO_PAGE a)"
    using pmm_clear_page [OF shape lt] by blast
  let ?q = "p\<lparr>pmm_bitmap := bm, pmm_free_pages := pmm_free_pages p + 1,
              pmm_used_pages := pmm_used_pages p - 1\<rparr>"
  have q: "free_set ?q = insert (unat (TO_PAGE a)) (free_set p)"
    using bm(3) lt by (auto simp: free_set_def word_less_nat_alt)
  show ?thesis
  proof (cases "unat (TO_PAGE a) \<in> free_set p")
    case True
    then show ?thesis
      using assms False page pmm_test_page [OF shape lt] by (auto simp: mark_free_page_def)
  next
    case notin: False
    have "pmm_wf ?q"
      by (rule pmm_wf_give [OF assms notin _ q]) (use bm(2) in \<open>simp_all add: pmm_shape_def\<close>)
    then show ?thesis
      using notin False pmm_test_page [OF shape lt] bm(1) q page
      by (simp add: mark_free_page_def geometry_def)
  qed
qed

lemma mark_used_page_step:
  assumes "pmm_wf p"
  shows "\<exists>p'. mark_used_page a p = Some p' \<and> pmm_wf p' \<and>
    free_set p' = free_set p - page_in a (geometry p) \<and> geometry p' = geometry p"
proof (cases "pmm_total_pages p \<le> TO_PAGE a")
  case True
  then show ?thesis
    using assms by (auto simp: mark_used_page_def page_in_def geometry_def word_le_nat_alt)
next
  case False
  then have lt: "TO_PAGE a < pmm_total_pages p" by simp
  then have page: "page_in a (geometry p) = {unat (TO_PAGE a)}"
    by (auto simp: page_in_def geometry_def word_less_nat_alt)
  have shape: "pmm_shape p" using assms by (simp add: pmm_wf_def)
  obtain bm where bm: "pmm_set a p = Some (p\<lparr>pmm_bitmap := bm\<rparr>)" "pmm_shape (p\<lparr>pmm_bitmap := bm\<rparr>)"
      "\<forall>n. used bm n \<longleftrightarrow> used (pmm_bitmap p) n \<or> n = unat (TO_PAGE a)"
    using pmm_set_page [OF shape lt] by blast
  let ?q = "p\<lparr>pmm_bitmap := bm, pmm_free_pages := pmm_free_pages p - 1,
              pmm_used_pages := pmm_used_pages p + 1\<rparr>"
  have q: "free_set ?q = free_set p - {unat (TO_PAGE a)}"
    using bm(3) lt by (auto simp: free_set_def word_less_nat_alt)
  show ?thesis
  proof (cases "unat (TO_PAGE a) \<in> free_set p")
    case False
    then show ?thesis
      using assms \<open>\<not> pmm_total_pages p \<le> TO_PAGE a\<close> page pmm_test_page [OF shape lt]
      by (auto simp: mark_used_page_def)
  next
    case True
    have "pmm_wf ?q"
      by (rule pmm_wf_take [OF assms True _ q]) (use bm(2) in \<open>simp_all add: pmm_shape_def\<close>)
    then show ?thesis
      using True False pmm_test_page [OF shape lt] bm(1) q page
      by (simp add: mark_used_page_def geometry_def)
  qed
qed

interpretation mark_free: marking mark_free_page pmm_wf free_set geometry "\<lambda>a geo. True" page_in
  by unfold_locales (use mark_free_page_step in blast)

text \<open>Marking used grows the complement of the free set.\<close>

interpretation mark_used:
  marking mark_used_page pmm_wf "\<lambda>p. - free_set p" geometry "\<lambda>a geo. True" page_in
  by unfold_locales (use mark_used_page_step in \<open>metis Compl_Diff_eq Un_commute\<close>)

text \<open>The pages that an area of memory touches.\<close>

definition pages_of :: "u32 \<Rightarrow> u32 \<Rightarrow> nat set" where
  "pages_of phys sz = {unat phys div 4096 ..< (unat phys + unat sz + 4095) div 4096}"

lemma area_pages:
  assumes "unat phys + unat sz + 4095 < 4294967296"
  shows "(\<Union>a \<in> set (page_range (phys AND NOT (PAGE_SIZE - 1))
      ((phys + sz + (PAGE_SIZE - 1)) AND NOT (PAGE_SIZE - 1))). page_in a (geometry p)) =
    pages_of phys sz \<inter> {..< unat (pmm_total_pages p)}"
proof -
  have "unat (phys + sz) = unat phys + unat sz" using assms by (intro unat_add_u32) simp
  then have last: "unat (phys + sz + (PAGE_SIZE - 1)) = unat phys + unat sz + 4095"
    using assms by (subst unat_add_u32) (simp_all add: PAGE_SIZE_def)
  have small: "(unat phys + unat sz + 4095) div 4096 < 1048576"
    using assms by (simp add: less_mult_imp_div_less)
  have page: "page_in (TO_ADDR (of_nat i)) (geometry p) = {i} \<inter> {..< unat (pmm_total_pages p)}"
    if "i \<in> pages_of phys sz" for i
  proof -
    have "unat (of_nat i :: u32) = i" and "TO_PAGE (TO_ADDR (of_nat i)) = of_nat i"
      using that small by (auto simp: pages_of_def unat_of_nat_u32 intro!: TO_PAGE_TO_ADDR)
    then show ?thesis by (auto simp: page_in_def geometry_def)
  qed
  have "set (page_range (phys AND NOT (PAGE_SIZE - 1)) ((phys + sz + (PAGE_SIZE - 1)) AND NOT (PAGE_SIZE - 1)))
      = (\<lambda>i. TO_ADDR (of_nat i)) ` pages_of phys sz"
    unfolding page_floor set_page_range by (simp add: to_nat last pages_of_def)
  then show ?thesis using page by auto
qed

lemma pmm_mark_free_step:
  assumes "pmm_wf p" and "unat phys + unat sz + 4095 < 4294967296" and "phys \<le> pmm_memory_end p"
  shows "\<exists>p'. pmm_mark_free phys sz p = Some p' \<and> pmm_wf p' \<and> geometry p' = geometry p \<and>
    free_set p' = free_set p \<union> (pages_of phys sz \<inter> {..< unat (pmm_total_pages p)})"
  using mark_free.steps [OF assms(1)] area_pages [OF assms(2)] assms(3)
  by (simp add: pmm_mark_free_def not_less) metis

lemma pmm_mark_used_step:
  assumes "pmm_wf p" and "unat phys + unat sz + 4095 < 4294967296" and "phys \<le> pmm_memory_end p"
  shows "\<exists>p'. pmm_mark_used phys sz p = Some p' \<and> pmm_wf p' \<and> geometry p' = geometry p \<and>
    free_set p' = free_set p - pages_of phys sz"
proof -
  have "free_set p - (pages_of phys sz \<inter> {..< unat (pmm_total_pages p)}) = free_set p - pages_of phys sz"
    by (auto simp: free_set_def)
  moreover have "- F = - G \<union> H \<longleftrightarrow> F = G - H" for F G H :: "nat set" by blast
  ultimately show ?thesis
    using mark_used.steps [OF assms(1)] area_pages [OF assms(2)] assms(3)
    by (simp add: pmm_mark_used_def not_less) metis
qed

section \<open>The search for one page\<close>

lemma lowest_one_bit:
  "bit w k \<Longrightarrow> \<forall>j < k. \<not> bit w j \<Longrightarrow> lowest_one w b = Some (b + of_nat k)"
proof (induction k arbitrary: w b)
  case 0
  then show ?case
    by (subst lowest_one.simps) (simp add: bit_0 and_one_eq mod_2_eq_odd)
next
  case (Suc k)
  then have "\<not> bit w 0" by blast
  moreover have "lowest_one (drop_bit 1 w) (b + 1) = Some (b + 1 + of_nat k)"
    using Suc.prems by (intro Suc.IH) (auto simp: bit_drop_bit_eq)
  ultimately show ?case
    by (subst lowest_one.simps) (simp add: bit_0 and_one_eq mod_2_eq_odd add.assoc)
qed

text \<open>A page that the search passes over: used, or masked in the word where the search starts.\<close>

definition blocked :: "u32 list \<Rightarrow> nat \<Rightarrow> u32 \<Rightarrow> nat \<Rightarrow> bool" where
  "blocked bm start msk n \<longleftrightarrow> used bm n \<or> (n div 32 = start \<and> bit msk (n mod 32))"

lemma blocked_word:
  assumes "d < length bm" and "b < 32"
  shows "blocked bm start msk (32 * d + b) \<longleftrightarrow> bit (if d = start then bm ! d OR msk else bm ! d) b"
  using assms by (auto simp: blocked_def used_def bit_or_iff)

lemma all_ones: "w = 0xFFFFFFFF \<longleftrightarrow> (\<forall>b < 32. bit (w :: u32) b)"
proof -
  have "(0xFFFFFFFF :: u32) = mask 32" by (simp add: mask_eq_exp_minus_1)
  then have "bit (0xFFFFFFFF :: u32) b \<longleftrightarrow> b < 32" for b
    by (simp only: bit_mask_iff) (auto simp: possible_bit_def)
  then show ?thesis by (auto simp: bit_eq_iff possible_bit_def simp del: bit_numeral_word_iff)
qed

lemma word_offset: "32 * d \<le> n \<Longrightarrow> n < 32 * d + 32 \<Longrightarrow> \<exists>b < 32. n = 32 * d + b" for n d :: nat
  by (rule exI [of _ "n - 32 * d"]) auto

lemma first_clear_bit:
  assumes "w \<noteq> (0xFFFFFFFF :: u32)"
  obtains b where "b < 32" "\<not> bit w b" "\<forall>j < b. bit w j" "lowest_one (NOT w) 0 = Some (of_nat b)"
proof -
  define b where "b = (LEAST b. \<not> bit w b)"
  obtain c where c: "c < 32" "\<not> bit w c" using assms all_ones [of w] by blast
  then have b: "\<not> bit w b" "b \<le> c" "\<forall>j < b. bit w j"
    unfolding b_def using LeastI [of "\<lambda>b. \<not> bit w b" c] Least_le [of "\<lambda>b. \<not> bit w b" c]
    by (auto dest: not_less_Least)
  then have "lowest_one (NOT w) 0 = Some (0 + of_nat b)"
    using c by (intro lowest_one_bit) (auto simp: bit_not_iff possible_bit_def)
  with b c that [of b] show thesis by simp
qed

lemma search_words_upt:
  assumes "j \<le> length bm" and "32 * length bm \<le> 4294967295" and "i \<le> j"
  shows "case search_words [i..<j] start msk bm of
      None \<Rightarrow> False
    | Some None \<Rightarrow> \<forall>n. 32 * i \<le> n \<and> n < 32 * j \<longrightarrow> blocked bm start msk n
    | Some (Some page) \<Rightarrow> 32 * i \<le> unat page \<and> unat page < 32 * j \<and> \<not> blocked bm start msk (unat page) \<and>
        (\<forall>n. 32 * i \<le> n \<and> n < unat page \<longrightarrow> blocked bm start msk n)"
  using assms(3)
proof (induction "j - i" arbitrary: i)
  case 0
  then show ?case by auto
next
  case (Suc k)
  then have i: "i < j" and split: "[i..<j] = i # [Suc i..<j]"
    by (auto simp: upt_conv_Cons)
  let ?w = "if i = start then bm ! i OR msk else bm ! i"
  have word: "blocked bm start msk (32 * i + b) \<longleftrightarrow> bit ?w b" if "b < 32" for b
    using i assms(1) that by (intro blocked_word) auto
  show ?case
  proof (cases "?w = 0xFFFFFFFF")
    case True
    then have low: "blocked bm start msk n" if "32 * i \<le> n" "n < 32 * i + 32" for n
      using word_offset [OF that] word all_ones [of ?w] by auto
    have IH: "k = j - Suc i" "Suc i \<le> j" using Suc.hyps(2) i by auto
    have "blocked bm start msk n" if "32 * i \<le> n" "32 * Suc i \<le> n \<Longrightarrow> blocked bm start msk n" for n
      using that low [of n] by (cases "n < 32 * i + 32") auto
    then show ?thesis
      using Suc.hyps(1) [OF IH] True i assms(1)
      by (auto simp: split Let_def split: option.splits)
  next
    case False
    obtain b where b: "b < 32" "\<not> bit ?w b" "\<forall>j < b. bit ?w j" "lowest_one (NOT ?w) 0 = Some (of_nat b)"
      using first_clear_bit [OF False] by blast
    have page: "unat (push_bit 5 (of_nat i) + of_nat b :: u32) = 32 * i + b"
      using i assms(1,2) b(1) by (intro unat_page_of_bit) auto
    have "blocked bm start msk n" if "32 * i \<le> n" "n < 32 * i + b" for n
      using that b(1,3) word [of "n - 32 * i"] by auto
    then show ?thesis
      using False b i assms(1) word [OF b(1)] page by (simp add: split Let_def del: of_nat_add)
  qed
qed

section \<open>Allocation of one page\<close>

text \<open>
  The page that a next-fit search takes from the free pages \<open>F\<close>: the least one at or behind the
  hint, and the least of all if there is none.
\<close>

definition next_fit :: "nat set \<Rightarrow> nat \<Rightarrow> nat \<Rightarrow> bool" where
  "next_fit F h n \<longleftrightarrow> n \<in> F \<and>
     (if \<exists>m \<in> F. h \<le> m then h \<le> n \<and> (\<forall>m \<in> F. h \<le> m \<longrightarrow> n \<le> m) else \<forall>m \<in> F. n \<le> m)"

lemma bit_below: "bit (push_bit (unat (h AND 31)) 1 - 1 :: u32) b \<longleftrightarrow> b < unat h mod 32"
  for h :: u32
proof -
  have "(push_bit (unat (h AND 31)) 1 - 1 :: u32) = mask (unat h mod 32)"
    by (simp add: push_bit_eq_mult mask_eq_exp_minus_1 to_nat)
  moreover have "unat h mod 32 < 32" by simp
  ultimately show ?thesis by (auto simp: bit_mask_iff possible_bit_def simp del: mod_less_divisor)
qed

lemma less_same_word: "n div 32 = h div 32 \<Longrightarrow> n mod 32 < h mod 32 \<longleftrightarrow> n < h" for n h :: nat
  using div_mult_mod_eq [of n 32] div_mult_mod_eq [of h 32] by linarith

lemma blocked_up:
  "h div 32 \<le> n div 32 \<Longrightarrow> (\<And>b. bit msk b \<longleftrightarrow> b < h mod 32) \<Longrightarrow>
   blocked bm (h div 32) msk n \<longleftrightarrow> used bm n \<or> n < h"
proof -
  assume le: "h div 32 \<le> n div 32" and msk: "\<And>b. bit msk b \<longleftrightarrow> b < h mod 32"
  have "n div 32 = h div 32 \<and> n mod 32 < h mod 32 \<longleftrightarrow> n < h"
    using le by (auto simp: less_same_word dest: div_le_mono [OF less_imp_le, of n h 32])
  then show ?thesis by (auto simp: blocked_def msk)
qed

lemma blocked_down:
  "n div 32 \<le> h div 32 \<Longrightarrow> (\<And>b. b < 32 \<Longrightarrow> bit msk b \<longleftrightarrow> h mod 32 \<le> b) \<Longrightarrow>
   blocked bm (h div 32) msk n \<longleftrightarrow> used bm n \<or> h \<le> n"
proof -
  assume le: "n div 32 \<le> h div 32" and msk: "\<And>b. b < 32 \<Longrightarrow> bit msk b \<longleftrightarrow> h mod 32 \<le> b"
  have "n div 32 = h div 32 \<and> h mod 32 \<le> n mod 32 \<longleftrightarrow> h \<le> n"
    using le by (auto simp: less_same_word simp flip: not_less dest: div_le_mono [of h n 32])
  then show ?thesis by (auto simp: blocked_def msk)
qed

lemma shape_free:
  "pmm_shape p \<Longrightarrow> n < 32 * length (pmm_bitmap p) \<Longrightarrow> \<not> used (pmm_bitmap p) n \<longleftrightarrow> n \<in> free_set p"
  by (auto simp: free_set_def pmm_shape_def not_less)

lemma shape_length: "pmm_shape p \<Longrightarrow> 32 * length (pmm_bitmap p) \<le> 4294967295"
  by (auto simp: pmm_shape_def)

lemma shape_total: "pmm_shape p \<Longrightarrow> unat (pmm_total_pages p) \<le> 32 * length (pmm_bitmap p)"
  by (auto simp: pmm_shape_def)

lemma shape_words: "pmm_shape p \<Longrightarrow> unat (pmm_bitmap_size p div 4) = length (pmm_bitmap p)"
  by (simp add: pmm_shape_def unat_div)

lemma free_set_bound: "pmm_shape p \<Longrightarrow> n \<in> free_set p \<Longrightarrow> n < 32 * length (pmm_bitmap p)"
  using shape_total by (fastforce simp: free_set_def)

text \<open>The two searches of \<^verbatim>\<open>pmm_alloc_one\<close> read as searches in the free set.\<close>

lemma search_up:
  assumes shape: "pmm_shape p" and h: "h < pmm_total_pages p"
  shows "case search_words [unat (drop_bit 5 h) ..< unat (pmm_bitmap_size p div 4)]
            (unat (drop_bit 5 h)) (push_bit (unat (h AND 31)) 1 - 1) (pmm_bitmap p) of
      None \<Rightarrow> False
    | Some None \<Rightarrow> \<forall>n \<in> free_set p. n < unat h
    | Some (Some page) \<Rightarrow> unat page \<in> free_set p \<and> unat h \<le> unat page \<and>
        (\<forall>n \<in> free_set p. unat h \<le> n \<longrightarrow> unat page \<le> n)"
proof -
  let ?bm = "pmm_bitmap p" and ?s = "unat h div 32" and ?m = "push_bit (unat (h AND 31)) 1 - 1 :: u32"
  have up: "blocked ?bm ?s ?m n \<longleftrightarrow> used ?bm n \<or> n < unat h" if "32 * ?s \<le> n" for n
    using that by (intro blocked_up) (auto simp: bit_below less_eq_div_iff_mult_less_eq mult.commute simp del: push_bit_of_1)
  have ge: "unat h \<le> n \<Longrightarrow> 32 * ?s \<le> n" for n
    by (rule order_trans [OF _ ]) simp_all
  have "?s < length ?bm" using shape_word [OF shape] h by (simp add: word_less_nat_alt)
  then show ?thesis
    using search_words_upt [of "length ?bm" ?bm ?s ?s ?m] shape_length [OF shape] up ge
      shape_free [OF shape] free_set_bound [OF shape]
    by (auto simp: shape_words [OF shape] unat_drop_bit_u32 split: option.splits)
       (metis not_less)+
qed

lemma search_down:
  assumes shape: "pmm_shape p" and h: "h < pmm_total_pages p"
  shows "case search_words [0 ..< Suc (unat (drop_bit 5 h))]
            (unat (drop_bit 5 h)) (NOT (push_bit (unat (h AND 31)) 1 - 1)) (pmm_bitmap p) of
      None \<Rightarrow> False
    | Some None \<Rightarrow> \<forall>n \<in> free_set p. unat h \<le> n
    | Some (Some page) \<Rightarrow> unat page \<in> free_set p \<and> unat page < unat h \<and>
        (\<forall>n \<in> free_set p. n < unat h \<longrightarrow> unat page \<le> n)"
proof -
  let ?bm = "pmm_bitmap p" and ?s = "unat h div 32" and ?m = "NOT (push_bit (unat (h AND 31)) 1 - 1) :: u32"
  have down: "blocked ?bm ?s ?m n \<longleftrightarrow> used ?bm n \<or> unat h \<le> n" if "n < 32 * Suc ?s" for n
    using that by (intro blocked_down) (auto simp: bit_below bit_not_iff possible_bit_def not_less
        div_less_iff_less_mult mult.commute simp flip: less_Suc_eq_le simp del: push_bit_of_1)
  have lt: "n < 32 * Suc ?s" if "n < unat h" for n
    using that div_mult_mod_eq [of "unat h" 32] mod_less_divisor [of 32 "unat h"]
    unfolding mult_Suc_right by linarith
  have s: "Suc ?s \<le> length ?bm" using shape_word [OF shape] h by (simp add: word_less_nat_alt Suc_le_eq)
  then show ?thesis
    using search_words_upt [of "Suc ?s" ?bm 0 ?s ?m] shape_length [OF shape] down lt
      shape_free [OF shape] free_set_bound [OF shape]
    by (auto simp: unat_drop_bit_u32 split: option.splits) (metis not_less)+
qed

text \<open>The free set of a state whose bitmap, counters and hint changed together.\<close>

lemma take_page_step:
  assumes inv: "pmm_wf p" and page: "unat page \<in> free_set p"
  shows "\<exists>p'. take_page page p = Some (TO_ADDR page, p') \<and> pmm_wf p' \<and>
    free_set p' = free_set p - {unat page} \<and> pmm_used_pages p' = pmm_used_pages p + 1 \<and>
    pmm_hint p' = (if pmm_total_pages p \<le> page + 1 then 0 else page + 1) \<and>
    pmm_total_pages p' = pmm_total_pages p"
proof -
  have shape: "pmm_shape p" and lt: "page < pmm_total_pages p" and small: "unat page < 1048576"
    using inv page by (auto simp: pmm_wf_def pmm_shape_def free_set_def word_less_nat_alt)
  obtain bm where bm: "pmm_set (TO_ADDR page) p = Some (p\<lparr>pmm_bitmap := bm\<rparr>)"
      "pmm_shape (p\<lparr>pmm_bitmap := bm\<rparr>)"
      "\<forall>n. used bm n \<longleftrightarrow> used (pmm_bitmap p) n \<or> n = unat page"
    using pmm_set_page [OF shape, of "TO_ADDR page"] lt TO_PAGE_TO_ADDR [OF small] by auto
  define h where "h = (if pmm_total_pages p \<le> page + 1 then 0 else page + 1)"
  let ?q = "p\<lparr>pmm_bitmap := bm, pmm_free_pages := pmm_free_pages p - 1,
              pmm_used_pages := pmm_used_pages p + 1, pmm_hint := h\<rparr>"
  have q: "free_set ?q = free_set p - {unat page}"
    using bm(3) by (auto simp: free_set_def)
  have "pmm_wf ?q"
    by (rule pmm_wf_take [OF inv page _ q]) (use bm(2) in \<open>simp_all add: pmm_shape_def\<close>)
  moreover have "take_page page p = Some (TO_ADDR page, ?q)"
    by (simp add: take_page_def bm(1) Let_def h_def)
  ultimately show ?thesis using q by (simp add: h_def [symmetric])
qed

lemma unat_0_iff: "unat x = 0 \<longleftrightarrow> x = 0" for x :: u32
  by (simp add: word_unat_eq_iff)

lemma shape_hint [simp]:
  "pmm_shape (p\<lparr>pmm_hint := h\<rparr>) = pmm_shape p" "free_set (p\<lparr>pmm_hint := h\<rparr>) = free_set p"
  "pmm_wf (p\<lparr>pmm_hint := h\<rparr>) = pmm_wf p"
  by (simp_all add: pmm_wf_def pmm_shape_def free_set_def)

lemma next_fit_up:
  "n \<in> F \<Longrightarrow> h \<le> n \<Longrightarrow> (\<forall>m \<in> F. h \<le> m \<longrightarrow> n \<le> m) \<Longrightarrow> next_fit F h n"
  by (auto simp: next_fit_def)

lemma next_fit_down:
  "n \<in> F \<Longrightarrow> (\<forall>m \<in> F. m < h) \<Longrightarrow> (\<forall>m \<in> F. m < h \<longrightarrow> n \<le> m) \<Longrightarrow> next_fit F h n"
  by (auto simp: next_fit_def not_less [symmetric])

lemma pmm_alloc_one_step:
  assumes wf: "pmm_wf p" and free: "pmm_free_pages p \<noteq> 0"
    and h: "h = (if pmm_total_pages p \<le> pmm_hint p then 0 else pmm_hint p)"
  shows "\<exists>page p'. pmm_alloc_one p = Some (TO_ADDR page, p') \<and> next_fit (free_set p) (unat h) (unat page) \<and>
    pmm_wf p' \<and> free_set p' = free_set p - {unat page} \<and> pmm_used_pages p' = pmm_used_pages p + 1 \<and>
    pmm_hint p' = (if pmm_total_pages p \<le> page + 1 then 0 else page + 1) \<and>
    pmm_total_pages p' = pmm_total_pages p"
proof -
  let ?q = "p\<lparr>pmm_hint := h\<rparr>"
  have shape: "pmm_shape ?q" and "free_set p \<noteq> {}" and ptr: "pmm_bitmap_ptr p \<noteq> 0"
    using wf free by (auto simp: pmm_wf_def pmm_shape_def unat_0_iff)
  then obtain m where m: "m \<in> free_set p" by blast
  then have "0 < pmm_total_pages p" by (auto simp: free_set_def word_less_nat_alt)
  then have lt: "h < pmm_total_pages ?q" by (simp add: h not_le)
  have q: "(if pmm_total_pages p \<le> pmm_hint p then p\<lparr>pmm_hint := 0\<rparr> else p) = ?q"
    by (simp add: h)
  define U where "U = search_words [unat (drop_bit 5 h) ..< unat (pmm_bitmap_size p div 4)]
    (unat (drop_bit 5 h)) (push_bit (unat (h AND 31)) 1 - 1) (pmm_bitmap p)"
  define D where "D = search_words [0 ..< Suc (unat (drop_bit 5 h))]
    (unat (drop_bit 5 h)) (NOT (push_bit (unat (h AND 31)) 1 - 1)) (pmm_bitmap p)"
  have up: "case U of None \<Rightarrow> False | Some None \<Rightarrow> \<forall>n \<in> free_set p. n < unat h
    | Some (Some page) \<Rightarrow> unat page \<in> free_set p \<and> unat h \<le> unat page \<and>
        (\<forall>n \<in> free_set p. unat h \<le> n \<longrightarrow> unat page \<le> n)"
    using search_up [OF shape lt, unfolded shape_hint] by (simp add: U_def del: push_bit_of_1)
  have down: "case D of None \<Rightarrow> False | Some None \<Rightarrow> \<forall>n \<in> free_set p. unat h \<le> n
    | Some (Some page) \<Rightarrow> unat page \<in> free_set p \<and> unat page < unat h \<and>
        (\<forall>n \<in> free_set p. n < unat h \<longrightarrow> unat page \<le> n)"
    using search_down [OF shape lt, unfolded shape_hint] by (simp add: D_def del: push_bit_of_1 upt_Suc)
  have bound: "unat page \<in> free_set p \<Longrightarrow> page < pmm_total_pages p" for page
    by (simp add: free_set_def word_less_nat_alt)
  have one: "pmm_alloc_one p = take_page page ?q" if "U = Some (Some page)" "page < pmm_total_pages p" for page
    using that free ptr unfolding U_def pmm_alloc_one_def q
    by (simp add: Let_def del: push_bit_of_1)
  have two: "pmm_alloc_one p = take_page page ?q"
    if "U = Some None" "D = Some (Some page)" "page < pmm_total_pages p" for page
    using that free ptr unfolding U_def D_def pmm_alloc_one_def q
    by (auto simp: Let_def not_le simp del: push_bit_of_1 upt_Suc)
  obtain page where page: "pmm_alloc_one p = take_page page ?q"
      "next_fit (free_set p) (unat h) (unat page)"
    using up
  proof (cases U)
    case (Some u)
    show thesis
    proof (cases u)
      case None
      with Some up down m obtain page where D: "D = Some (Some page)"
        by (fastforce split: option.splits)
      show thesis
        by (rule that [OF two [OF Some [unfolded None] D]])
          (use up down Some None D bound in \<open>auto intro: next_fit_down\<close>)
    next
      case (Some page)
      show thesis
        by (rule that [OF one [of page]])
          (use up \<open>U = Some u\<close> Some bound in \<open>auto intro: next_fit_up\<close>)
    qed
  qed simp
  then have "unat page \<in> free_set ?q" by (simp add: next_fit_def)
  then show ?thesis
    using take_page_step [of ?q page] wf page by auto
qed

section \<open>Allocation of a run\<close>

text \<open>A run of free pages, as a set.\<close>

lemma free_run_set:
  assumes "pmm_shape p" and "s + c \<le> unat (pmm_total_pages p)"
  shows "free_run (pmm_bitmap p) s c \<longleftrightarrow> {s ..< s + c} \<subseteq> free_set p"
proof
  assume run: "free_run (pmm_bitmap p) s c"
  show "{s ..< s + c} \<subseteq> free_set p"
  proof
    fix n assume n: "n \<in> {s ..< s + c}"
    then have "n - s < c" by auto
    with run have "\<not> used (pmm_bitmap p) (s + (n - s))" unfolding free_run_def by blast
    then show "n \<in> free_set p" using n assms(2) by (simp add: free_set_def)
  qed
next
  assume "{s ..< s + c} \<subseteq> free_set p"
  then show "free_run (pmm_bitmap p) s c"
    by (auto simp: free_run_def free_set_def subset_iff)
qed

lemma run_in_total: "{s ..< s + c} \<subseteq> free_set p \<Longrightarrow> 0 < c \<Longrightarrow> s + c \<le> unat (pmm_total_pages p)"
  by (drule subsetD [of _ _ "s + c - 1"]) (auto simp: free_set_def)

lemma free_set_largest_run [simp]:
  "free_set (p\<lparr>pmm_largest_run := l\<rparr>) = free_set p" "pmm_shape (p\<lparr>pmm_largest_run := l\<rparr>) = pmm_shape p"
  "pmm_wf (p\<lparr>pmm_largest_run := l\<rparr>) = pmm_wf p"
  by (simp_all add: free_set_def pmm_shape_def pmm_wf_def)

lemma find_contiguous:
  assumes shape: "pmm_shape p" and count: "count \<noteq> 0" and zero: "0 \<notin> free_set p"
    and size: "pmm_bitmap_size p \<noteq> 0"
  shows "\<exists>start l. pmm_find_contiguous_pages count p = Some (start, p\<lparr>pmm_largest_run := l\<rparr>) \<and>
    (if start = 0 then \<forall>s. \<not> {s ..< s + unat count} \<subseteq> free_set p
     else l = count \<and> {unat start ..< unat start + unat count} \<subseteq> free_set p \<and>
          (\<forall>s < unat start. \<not> {s ..< s + unat count} \<subseteq> free_set p))"
proof -
  let ?bm = "pmm_bitmap p" and ?np = "unat (pmm_total_pages p)" and ?c = "unat count"
  have c: "0 < ?c" using count by (simp add: unat_gt_0)
  have words: "take (unat (pmm_bitmap_size p div 4)) ?bm = ?bm"
    and len: "\<not> length ?bm < unat (pmm_bitmap_size p div 4)"
    using shape_words [OF shape] by simp_all
  have ptr: "pmm_bitmap_ptr p \<noteq> 0" using shape by (simp add: pmm_shape_def)
  have no: "\<not> {s ..< s + ?c} \<subseteq> free_set p" if "s + ?c \<le> ?np \<Longrightarrow> \<not> free_run ?bm s ?c" for s
    using that free_run_set [OF shape, of s ?c] run_in_total [of s ?c p] c by blast
  note scan = scan_correct [OF shape_length [OF shape] shape_total [OF shape] count]
  show ?thesis
  proof (cases "scan_dwords ?bm 0 (pmm_total_pages p) count scan_init")
    case (Found t)
    then have ff: "free_run ?bm (unat (scan_start t)) ?c" "unat (scan_start t) + ?c \<le> ?np"
        "\<forall>s < unat (scan_start t). \<not> free_run ?bm s ?c" and l: "scan_largest t = count"
      using scan by (auto simp: first_fit_def)
    have run: "{unat (scan_start t) ..< unat (scan_start t) + ?c} \<subseteq> free_set p"
      using free_run_set [OF shape ff(2)] ff(1) by blast
    moreover from this have "scan_start t \<noteq> 0" using c zero by (auto simp: subset_iff)
    ultimately show ?thesis
      using Found l no ff(3) ptr size count len words
      by (auto simp: pmm_find_contiguous_pages_def Let_def intro!: exI [of _ "scan_start t"] exI [of _ count])
  next
    case (Continue t)
    then have "\<forall>s. \<not> {s ..< s + ?c} \<subseteq> free_set p" using scan no by auto
    then show ?thesis
      using Continue ptr size count len words by (auto simp: pmm_find_contiguous_pages_def Let_def)
  qed
qed

lemma unat_page_add:
  "unat s + unat c < 4294967296 \<Longrightarrow> i < unat c \<Longrightarrow> unat (s + of_nat i) = unat s + i" for s c :: u32
  by (subst unat_add_u32) (simp_all add: unat_of_nat_u32)

text \<open>The loop that marks the run used.\<close>

lemma set_run:
  fixes c :: u32
  assumes shape: "pmm_shape p" and run: "unat s + unat c \<le> unat (pmm_total_pages p)"
  shows "\<exists>bm. for_upto (unat c) (\<lambda>i. pmm_set (TO_ADDR (s + i))) p = Some (p\<lparr>pmm_bitmap := bm\<rparr>) \<and>
    pmm_shape (p\<lparr>pmm_bitmap := bm\<rparr>) \<and>
    free_set (p\<lparr>pmm_bitmap := bm\<rparr>) = free_set p - {unat s ..< unat s + unat c}"
proof -
  let ?P = "\<lambda>n q. \<exists>bm. q = p\<lparr>pmm_bitmap := bm\<rparr> \<and> pmm_shape q \<and>
    free_set q = free_set p - {unat s ..< unat s + n}"
  have small: "unat (pmm_total_pages p) < 1048576" using shape by (simp add: pmm_shape_def)
  have "\<exists>q. for_upto (unat c) (\<lambda>i. pmm_set (TO_ADDR (s + i))) p = Some q \<and> ?P (unat c) q"
  proof (rule for_upto_rule)
    show "?P 0 p" using shape by (auto intro: exI [of _ "pmm_bitmap p"])
    fix i q assume i: "i < unat c" and "?P i q"
    then obtain bm where q: "q = p\<lparr>pmm_bitmap := bm\<rparr>" "pmm_shape q"
        "free_set q = free_set p - {unat s ..< unat s + i}" by blast
    have page: "unat (s + of_nat i) = unat s + i"
      using i run small by (intro unat_page_add [of s c]) auto
    then have inverse: "TO_PAGE (TO_ADDR (s + of_nat i)) = s + of_nat i"
      using i run small by (intro TO_PAGE_TO_ADDR) auto
    obtain bm' where bm': "pmm_set (TO_ADDR (s + of_nat i)) q = Some (q\<lparr>pmm_bitmap := bm'\<rparr>)"
        "pmm_shape (q\<lparr>pmm_bitmap := bm'\<rparr>)"
        "\<forall>n. used bm' n \<longleftrightarrow> used (pmm_bitmap q) n \<or> n = unat s + i"
      using pmm_set_page [OF q(2), of "TO_ADDR (s + of_nat i)"] inverse page i run q(1)
      by (auto simp: word_less_nat_alt)
    have "free_set (q\<lparr>pmm_bitmap := bm'\<rparr>) = free_set q - {unat s + i}"
      using bm'(3) by (auto simp: free_set_def)
    then have "?P (Suc i) (q\<lparr>pmm_bitmap := bm'\<rparr>)"
      using bm'(2) q(1,3) by (auto simp: atLeastLessThanSuc)
    with bm'(1) show "\<exists>q'. pmm_set (TO_ADDR (s + of_nat i)) q = Some q' \<and> ?P (Suc i) q'" by blast
  qed
  then show ?thesis by blast
qed

lemma pmm_wf_take_run:
  assumes "pmm_wf p" and "pmm_shape q" and "R \<subseteq> free_set p" and "card R = unat c"
    and "free_set q = free_set p - R" and "pmm_free_pages q = pmm_free_pages p - c"
  shows "pmm_wf q"
proof -
  have "card R \<le> card (free_set p)" using assms(3) by (simp add: card_mono)
  moreover have "card (free_set q) = card (free_set p) - card R"
    using assms(3,5) by (simp add: card_Diff_subset finite_subset [OF assms(3)])
  ultimately show ?thesis
    using assms by (simp add: pmm_wf_def unat_sub_u32)
qed

lemma singleton_run: "{n ..< n + 1} = {n}" for n :: nat
  by auto

lemma pmm_alloc_step:
  assumes inv: "pmm_inv p" and count: "count \<noteq> 0"
  shows "\<exists>a p'. pmm_alloc count p = Some (a, p') \<and> pmm_inv p' \<and> pmm_total_pages p' = pmm_total_pages p \<and>
    (if \<exists>s. {s ..< s + unat count} \<subseteq> free_set p
     then a \<noteq> 0 \<and> page_aligned a \<and>
       {unat (TO_PAGE a) ..< unat (TO_PAGE a) + unat count} \<subseteq> free_set p \<and>
       free_set p' = free_set p - {unat (TO_PAGE a) ..< unat (TO_PAGE a) + unat count} \<and>
       pmm_used_pages p' = pmm_used_pages p + count
     else a = 0 \<and> free_set p' = free_set p \<and> pmm_used_pages p' = pmm_used_pages p)"
proof -
  let ?c = "unat count"
  have wf: "pmm_wf p" and shape: "pmm_shape p" and zero: "0 \<notin> free_set p"
    using inv by (simp_all add: pmm_inv_def pmm_wf_def)
  have c: "0 < ?c" using count by (simp add: unat_gt_0)
  have addr: "a \<noteq> 0 \<and> page_aligned a \<and> TO_PAGE a = s"
    if "unat s \<in> free_set p" "a = TO_ADDR s" for s a
    using that zero shape TO_PAGE_TO_ADDR [of s] TO_ADDR_eq_0 [of s]
    by (auto simp: free_set_def pmm_shape_def)
  have many: "\<not> {s ..< s + ?c} \<subseteq> free_set p" if "pmm_free_pages p < count" for s
    using that card_mono [OF finite_free_set, of "{s ..< s + ?c}" p] wf
    by (auto simp: pmm_wf_def word_less_nat_alt)
  consider "pmm_free_pages p < count" | "\<not> pmm_free_pages p < count" "count = 1"
    | "\<not> pmm_free_pages p < count" "count \<noteq> 1" by blast
  then show ?thesis
  proof cases
    case 1
    then show ?thesis using many inv count by (auto simp: pmm_alloc_def)
  next
    case 2
    then have "pmm_free_pages p \<noteq> 0" by auto
    from pmm_alloc_one_step [OF wf this refl] obtain page p' where
      p': "pmm_alloc_one p = Some (TO_ADDR page, p')" "unat page \<in> free_set p" "pmm_wf p'"
        "free_set p' = free_set p - {unat page}" "pmm_used_pages p' = pmm_used_pages p + 1"
        "pmm_total_pages p' = pmm_total_pages p"
      by (auto simp: next_fit_def)
    then show ?thesis
      using 2 addr [OF p'(2) refl] zero
      by (auto simp: pmm_alloc_def pmm_inv_def singleton_run intro: exI [of _ "unat page"])
  next
    case 3
    have "pmm_bitmap_size p \<noteq> 0"
    proof
      assume "pmm_bitmap_size p = 0"
      then have "free_set p = {}" using shape by (auto simp: pmm_shape_def free_set_def)
      then show False using 3(1) wf count by (auto simp: pmm_wf_def unat_0_iff not_less)
    qed
    then obtain start l where fc: "pmm_find_contiguous_pages count p = Some (start, p\<lparr>pmm_largest_run := l\<rparr>)"
      "if start = 0 then \<forall>s. \<not> {s ..< s + ?c} \<subseteq> free_set p
       else {unat start ..< unat start + ?c} \<subseteq> free_set p"
      using find_contiguous [OF shape count zero] by (auto split: if_splits)
    show ?thesis
    proof (cases "start = 0")
      case True
      then show ?thesis using 3 fc inv count by (auto simp: pmm_alloc_def pmm_inv_def)
    next
      case False
      let ?p = "p\<lparr>pmm_largest_run := l\<rparr>" and ?R = "{unat start ..< unat start + ?c}"
      have R: "?R \<subseteq> free_set p" using fc False by simp
      obtain bm where bm: "for_upto ?c (\<lambda>i. pmm_set (TO_ADDR (start + i))) ?p = Some (?p\<lparr>pmm_bitmap := bm\<rparr>)"
          "pmm_shape (?p\<lparr>pmm_bitmap := bm\<rparr>)" "free_set (?p\<lparr>pmm_bitmap := bm\<rparr>) = free_set p - ?R"
        using set_run [of ?p start count] shape run_in_total [OF R c] by auto
      let ?q = "?p\<lparr>pmm_bitmap := bm, pmm_free_pages := pmm_free_pages p - count,
                   pmm_used_pages := pmm_used_pages p + count\<rparr>"
      have q: "free_set ?q = free_set p - ?R" using bm(3) by (simp add: free_set_def)
      have "pmm_wf ?q"
        by (rule pmm_wf_take_run [OF wf _ R _ q, of count]) (use bm(2) in \<open>simp_all add: pmm_shape_def\<close>)
      moreover have "unat start \<in> free_set p" using R c by (auto simp: subset_iff)
      moreover have "pmm_alloc count p = Some (TO_ADDR start, ?q)"
        using 3 count fc(1) False bm(1) by (simp add: pmm_alloc_def)
      ultimately show ?thesis
        using addr [of start "TO_ADDR start"] q R zero by (auto simp: pmm_inv_def)
    qed
  qed
qed

end
