(* ===== verification/Pmm_Correct.thy ===== *)
theory Pmm_Correct
  imports Pmm
begin

text \<open>
  What the physical memory manager promises: initialisation establishes the invariant and leaves
  exactly the pages of RAM free, an allocation returns a free run if there is one and 0 if not,
  the search for one page is next-fit, and a page that is given back is free again. The theorem
  on \<^verbatim>\<open>pmm_free\<close> with more than one page states what the code does: it releases the first page
  only and counts all of them.
\<close>

section \<open>Giving pages back\<close>

text \<open>
  \<^verbatim>\<open>TO_PAGE(i)\<close> is 0 for \<open>i < 4096\<close>, so up to 4096 turns of the loop clear the same bit.
\<close>

lemma TO_PAGE_small: "i < 4096 \<Longrightarrow> TO_PAGE (of_nat i) = 0"
  by (simp add: word_unat_eq_iff unat_TO_PAGE unat_of_nat_u32)

lemma clear_same_page:
  assumes shape: "pmm_shape p" and page: "TO_PAGE a < pmm_total_pages p" and n: "0 < n" "n \<le> 4096"
  shows "\<exists>bm. for_upto n (\<lambda>i. pmm_clear (a + TO_PAGE i)) p = Some (p\<lparr>pmm_bitmap := bm\<rparr>) \<and>
    pmm_shape (p\<lparr>pmm_bitmap := bm\<rparr>) \<and> free_set (p\<lparr>pmm_bitmap := bm\<rparr>) = insert (unat (TO_PAGE a)) (free_set p)"
proof -
  let ?P = "\<lambda>k q. \<exists>bm. q = p\<lparr>pmm_bitmap := bm\<rparr> \<and> pmm_shape q \<and>
    free_set q = (if k = (0 :: nat) then free_set p else insert (unat (TO_PAGE a)) (free_set p))"
  have "\<exists>q. for_upto n (\<lambda>i. pmm_clear (a + TO_PAGE i)) p = Some q \<and> ?P n q"
  proof (rule for_upto_rule)
    show "?P 0 p" using shape by (auto intro: exI [of _ "pmm_bitmap p"])
    fix i q assume i: "i < n" and "?P i q"
    then obtain bm where q: "q = p\<lparr>pmm_bitmap := bm\<rparr>" "pmm_shape q"
        "free_set q \<union> {unat (TO_PAGE a)} = insert (unat (TO_PAGE a)) (free_set p)"
      by (auto split: if_splits)
    have a: "a + TO_PAGE (of_nat i) = a" using i n(2) by (simp add: TO_PAGE_small)
    obtain bm' where bm': "pmm_clear a q = Some (q\<lparr>pmm_bitmap := bm'\<rparr>)" "pmm_shape (q\<lparr>pmm_bitmap := bm'\<rparr>)"
        "\<forall>n. used bm' n \<longleftrightarrow> used (pmm_bitmap q) n \<and> n \<noteq> unat (TO_PAGE a)"
      using pmm_clear_page [OF q(2), of a] page q(1) by auto
    have "free_set (q\<lparr>pmm_bitmap := bm'\<rparr>) = insert (unat (TO_PAGE a)) (free_set q)"
      using bm'(3) page q(1) by (auto simp: free_set_def word_less_nat_alt)
    then have "?P (Suc i) (q\<lparr>pmm_bitmap := bm'\<rparr>)" using bm'(2) q(1,3) by auto
    with bm'(1) a show "\<exists>q'. pmm_clear (a + TO_PAGE (of_nat i)) q = Some q' \<and> ?P (Suc i) q'" by auto
  qed
  with n(1) show ?thesis by auto
qed

lemma pmm_free_run:
  assumes shape: "pmm_shape p" and page: "TO_PAGE a < pmm_total_pages p" and al: "page_aligned a"
    and n: "count \<noteq> 0" "unat count \<le> 4096" "count \<le> pmm_total_pages p - TO_PAGE a"
  shows "\<exists>p'. pmm_free a count p = Some p' \<and> pmm_shape p' \<and>
    free_set p' = insert (unat (TO_PAGE a)) (free_set p) \<and>
    pmm_free_pages p' = pmm_free_pages p + count \<and> pmm_used_pages p' = pmm_used_pages p - count"
proof -
  obtain bm where bm: "for_upto (unat count) (\<lambda>i. pmm_clear (a + TO_PAGE i)) p = Some (p\<lparr>pmm_bitmap := bm\<rparr>)"
    "pmm_shape (p\<lparr>pmm_bitmap := bm\<rparr>)" "free_set (p\<lparr>pmm_bitmap := bm\<rparr>) = insert (unat (TO_PAGE a)) (free_set p)"
    using clear_same_page [OF shape page, of "unat count"] n by (auto simp: unat_gt_0)
  let ?q = "p\<lparr>pmm_bitmap := bm, pmm_free_pages := pmm_free_pages p + count,
              pmm_used_pages := pmm_used_pages p - count\<rparr>"
  have "pmm_shape ?q" and "free_set ?q = insert (unat (TO_PAGE a)) (free_set p)"
    using bm(2,3) by (simp_all add: pmm_shape_def free_set_def)
  moreover have "pmm_free a count p = Some ?q"
    using n page al bm(1)
    by (auto simp: pmm_free_def page_aligned_iff [symmetric] Let_def not_le not_less)
  ultimately show ?thesis by simp
qed

lemma one_le_diff: "x < y \<Longrightarrow> 1 \<le> y - x" for x y :: u32
  by (simp add: word_le_nat_alt word_less_nat_alt unat_sub_u32 Suc_le_eq)

lemma pmm_free_one:
  assumes inv: "pmm_inv p" and page: "TO_PAGE a < pmm_total_pages p" and al: "page_aligned a" and a: "a \<noteq> 0"
    and taken: "unat (TO_PAGE a) \<notin> free_set p"
  shows "\<exists>p'. pmm_free a 1 p = Some p' \<and> pmm_inv p' \<and> free_set p' = insert (unat (TO_PAGE a)) (free_set p) \<and>
    pmm_used_pages p' = pmm_used_pages p - 1"
proof -
  have wf: "pmm_wf p" and shape: "pmm_shape p" and zero: "0 \<notin> free_set p"
    using inv by (simp_all add: pmm_inv_def pmm_wf_def)
  obtain p' where p': "pmm_free a 1 p = Some p'" "pmm_shape p'"
      "free_set p' = insert (unat (TO_PAGE a)) (free_set p)"
      "pmm_free_pages p' = pmm_free_pages p + 1" "pmm_used_pages p' = pmm_used_pages p - 1"
    using pmm_free_run [OF shape page al, of 1] one_le_diff [OF page] by auto
  have "pmm_wf p'" by (rule pmm_wf_give [OF wf taken p'(2,3,4)])
  moreover have "TO_PAGE a \<noteq> 0" using al a TO_ADDR_TO_PAGE [OF al] by (auto simp: TO_ADDR_def)
  ultimately show ?thesis using p' zero by (auto simp: pmm_inv_def unat_0_iff)
qed

section \<open>The interface to the virtual memory manager\<close>

text \<open>
  A pool of frames: what the code that backs virtual pages relies on. \<open>frames\<close> are the frames the
  pool manages and \<open>avail\<close> those that are not given out.
\<close>

locale frame_pool =
  fixes alloc :: "u32 \<Rightarrow> 'p \<Rightarrow> (u32 \<times> 'p) option"
    and give :: "u32 \<Rightarrow> u32 \<Rightarrow> 'p \<Rightarrow> 'p option"
    and inv :: "'p \<Rightarrow> bool"
    and avail :: "'p \<Rightarrow> nat set"
    and frames :: "'p \<Rightarrow> nat set"
  assumes alloc_some: "inv p \<Longrightarrow> avail p \<noteq> {} \<Longrightarrow> \<exists>f p'. alloc 1 p = Some (TO_ADDR (of_nat f), p') \<and>
      inv p' \<and> frames p' = frames p \<and> f \<in> avail p \<and> avail p' = avail p - {f}"
    and alloc_none: "inv p \<Longrightarrow> avail p = {} \<Longrightarrow> \<exists>p'. alloc 1 p = Some (0, p') \<and>
      inv p' \<and> frames p' = frames p \<and> avail p' = {}"
    and give_one: "inv p \<Longrightarrow> f \<in> frames p \<Longrightarrow> f \<notin> avail p \<Longrightarrow> f \<noteq> 0 \<Longrightarrow> \<exists>p'. give (TO_ADDR (of_nat f)) 1 p = Some p' \<and>
      inv p' \<and> frames p' = frames p \<and> avail p' = insert f (avail p)"
    and bounds: "inv p \<Longrightarrow> avail p \<subseteq> frames p \<and> 0 \<notin> avail p \<and> frames p \<subseteq> {..<1048576}"
begin

lemma frame_addr:
  assumes "inv p" and "f \<in> frames p"
  shows "unat (of_nat f :: u32) = f" and "TO_PAGE (TO_ADDR (of_nat f)) = of_nat f"
    and "TO_ADDR (of_nat f) = 0 \<longleftrightarrow> f = 0"
proof -
  have "f < 1048576" using assms bounds by blast
  then show "unat (of_nat f :: u32) = f" and "TO_PAGE (TO_ADDR (of_nat f)) = of_nat f"
    by (simp_all add: unat_of_nat_u32 TO_PAGE_TO_ADDR)
  with \<open>f < 1048576\<close> show "TO_ADDR (of_nat f) = 0 \<longleftrightarrow> f = 0"
    by (subst TO_ADDR_eq_0) (simp_all add: word_unat_eq_iff)
qed

lemma alloc_give:
  assumes "inv p" and "avail p \<noteq> {}"
  shows "\<exists>a p1 p2. alloc 1 p = Some (a, p1) \<and> a \<noteq> 0 \<and> give a 1 p1 = Some p2 \<and> inv p2 \<and> avail p2 = avail p"
proof -
  obtain f p1 where p1: "alloc 1 p = Some (TO_ADDR (of_nat f), p1)" "inv p1" "frames p1 = frames p"
      "f \<in> avail p" "avail p1 = avail p - {f}"
    using alloc_some [OF assms] by blast
  moreover have "f \<in> frames p" "f \<noteq> 0" using bounds [OF assms(1)] p1(4) by (blast, metis)
  moreover from calculation obtain p2 where "give (TO_ADDR (of_nat f)) 1 p1 = Some p2" "inv p2"
      "avail p2 = insert f (avail p1)"
    using give_one [of p1 f] by auto
  ultimately show ?thesis using frame_addr(3) [OF assms(1)] by (auto intro: insert_Diff)
qed

end

lemma pmm_page_addr:
  assumes "pmm_inv p" and "n < unat (pmm_total_pages p)"
  shows "unat (of_nat n :: u32) = n" and "TO_PAGE (TO_ADDR (of_nat n)) = of_nat n"
proof -
  have "n < 1048576" using assms by (simp add: pmm_inv_def pmm_wf_def pmm_shape_def)
  then show "unat (of_nat n :: u32) = n" and "TO_PAGE (TO_ADDR (of_nat n)) = of_nat n"
    by (simp_all add: unat_of_nat_u32 TO_PAGE_TO_ADDR)
qed

lemma pmm_alloc_page:
  assumes "pmm_inv p" and "free_set p \<noteq> {}"
  shows "\<exists>f p'. pmm_alloc 1 p = Some (TO_ADDR (of_nat f), p') \<and> pmm_inv p' \<and>
    pmm_total_pages p' = pmm_total_pages p \<and> f \<in> free_set p \<and> free_set p' = free_set p - {f}"
proof -
  have "\<exists>s. {s ..< s + unat (1 :: u32)} \<subseteq> free_set p" using assms(2) by (auto simp: singleton_run)
  then obtain a p' where p': "pmm_alloc 1 p = Some (a, p')" "pmm_inv p'" "page_aligned a"
      "pmm_total_pages p' = pmm_total_pages p" "unat (TO_PAGE a) \<in> free_set p"
      "free_set p' = free_set p - {unat (TO_PAGE a)}"
    using pmm_alloc_step [OF assms(1), of 1] by (auto simp: singleton_run)
  moreover have "TO_ADDR (of_nat (unat (TO_PAGE a))) = a" using TO_ADDR_TO_PAGE [OF p'(3)] by simp
  ultimately show ?thesis by metis
qed

lemma pmm_alloc_no_page:
  "pmm_inv p \<Longrightarrow> free_set p = {} \<Longrightarrow> \<exists>p'. pmm_alloc 1 p = Some (0, p') \<and> pmm_inv p' \<and>
    pmm_total_pages p' = pmm_total_pages p \<and> free_set p' = {}"
  using pmm_alloc_step [of p 1] by (auto simp: singleton_run)

lemma pmm_free_total: "pmm_free a c p = Some p' \<Longrightarrow> pmm_total_pages p' = pmm_total_pages p"
proof -
  have "for_upto n (\<lambda>i. pmm_clear (a + TO_PAGE i)) p = Some q \<Longrightarrow> pmm_total_pages q = pmm_total_pages p" for n q
    by (erule for_upto_inv) (auto simp: pmm_clear_def Let_def split: if_splits)
  then show "pmm_free a c p = Some p' \<Longrightarrow> pmm_total_pages p' = pmm_total_pages p"
    by (auto simp: pmm_free_def Let_def split: if_splits bind_splits)
qed

lemma pmm_free_frame:
  assumes "pmm_inv p" and "f < unat (pmm_total_pages p)" and "f \<notin> free_set p" and "f \<noteq> 0"
  shows "\<exists>p'. pmm_free (TO_ADDR (of_nat f)) 1 p = Some p' \<and> pmm_inv p' \<and>
    pmm_total_pages p' = pmm_total_pages p \<and> free_set p' = insert f (free_set p)"
proof -
  note addr = pmm_page_addr [OF assms(1,2)]
  have "(of_nat f :: u32) \<noteq> 0" using addr(1) assms(4) by auto
  then have "TO_ADDR (of_nat f) \<noteq> 0" using addr(2) by (auto simp: TO_PAGE_def)
  then show ?thesis
    using pmm_free_one [OF assms(1), of "TO_ADDR (of_nat f)"] addr assms(2,3) pmm_free_total
    by (auto simp: word_less_nat_alt)
qed

interpretation frames: frame_pool pmm_alloc pmm_free pmm_inv free_set "\<lambda>p. {..< unat (pmm_total_pages p)}"
proof
  show "\<exists>f p'. pmm_alloc 1 p = Some (TO_ADDR (of_nat f), p') \<and> pmm_inv p' \<and>
      {..< unat (pmm_total_pages p')} = {..< unat (pmm_total_pages p)} \<and> f \<in> free_set p \<and>
      free_set p' = free_set p - {f}" if "pmm_inv p" "free_set p \<noteq> {}" for p
    using pmm_alloc_page [OF that] by auto
  show "\<exists>p'. pmm_alloc 1 p = Some (0, p') \<and> pmm_inv p' \<and>
      {..< unat (pmm_total_pages p')} = {..< unat (pmm_total_pages p)} \<and> free_set p' = {}"
    if "pmm_inv p" "free_set p = {}" for p
    using pmm_alloc_no_page [OF that] by auto
  show "\<exists>p'. pmm_free (TO_ADDR (of_nat f)) 1 p = Some p' \<and> pmm_inv p' \<and>
      {..< unat (pmm_total_pages p')} = {..< unat (pmm_total_pages p)} \<and> free_set p' = insert f (free_set p)"
    if "pmm_inv p" "f \<in> {..< unat (pmm_total_pages p)}" "f \<notin> free_set p" "f \<noteq> 0" for p f
    using pmm_free_frame [of p f] that by auto
  show "free_set p \<subseteq> {..< unat (pmm_total_pages p)} \<and> 0 \<notin> free_set p \<and> {..< unat (pmm_total_pages p)} \<subseteq> {..<1048576}"
    if "pmm_inv p" for p
    using that by (auto simp: pmm_inv_def pmm_wf_def pmm_shape_def free_set_def)
qed

section \<open>Initialisation\<close>

lemma memory_end_mono: "pmm_memory_end p \<le> pmm_memory_end (measure_region r p)"
  by (auto simp: measure_region_def Let_def)

lemma memory_end_fold_mono: "pmm_memory_end p \<le> pmm_memory_end (fold measure_region rs p)"
  by (induction rs arbitrary: p) (auto intro: order_trans [OF memory_end_mono])

lemma memory_end_bound:
  "r \<in> set rs \<Longrightarrow> is_ram r \<Longrightarrow> kr_address r + kr_size r \<le> pmm_memory_end (fold measure_region rs p)"
proof (induction rs arbitrary: p)
  case (Cons x rs)
  have "kr_address r + kr_size r \<le> pmm_memory_end (measure_region r p)" if "is_ram r"
    using that by (auto simp: measure_region_def Let_def)
  then show ?case
    using Cons memory_end_fold_mono [of "measure_region r p" rs] by (auto intro: order_trans)
qed simp

lemma total_of_end:
  assumes "unat e + 4095 < 4294967296"
  shows "unat (TO_PAGE (e + (PAGE_SIZE - 1))) = (unat e + 4095) div 4096"
  using assms by (simp add: unat_TO_PAGE PAGE_SIZE_def unat_add_u32)

lemma bitmap_bytes:
  assumes "unat tot < 1048576"
  shows "unat (CEIL_DIV tot 32 * 4) = 4 * ((unat tot + 31) div 32)"
proof -
  have "unat (tot + 32 - 1) = unat tot + 31" using assms by (simp add: unat_add_u32)
  then have d: "unat (CEIL_DIV tot 32) = (unat tot + 31) div 32" by (simp add: CEIL_DIV_def unat_div)
  moreover have "(unat tot + 31) div 32 < 32769" using assms by (simp add: less_mult_imp_div_less)
  ultimately show ?thesis by (simp add: unat_word_ariths)
qed

text \<open>The state before the regions are marked: every page is used.\<close>

lemma all_used_wf:
  assumes "unat tot < 1048576" and "ptr \<noteq> 0"
  shows "pmm_wf (p\<lparr>pmm_total_pages := tot, pmm_bitmap_size := CEIL_DIV tot 32 * 4, pmm_free_pages := 0,
      pmm_used_pages := u, pmm_hint := 0, pmm_bitmap_ptr := ptr,
      pmm_bitmap := replicate (unat (CEIL_DIV tot 32 * 4) div 4) 0xFFFFFFFF\<rparr>)" (is "pmm_wf ?q")
    and "free_set (p\<lparr>pmm_total_pages := tot, pmm_bitmap_size := CEIL_DIV tot 32 * 4, pmm_free_pages := 0,
      pmm_used_pages := u, pmm_hint := 0, pmm_bitmap_ptr := ptr,
      pmm_bitmap := replicate (unat (CEIL_DIV tot 32 * 4) div 4) 0xFFFFFFFF\<rparr>) = {}"
proof -
  have "used (pmm_bitmap ?q) n" if "n < 32 * ((unat tot + 31) div 32)" for n
    using that all_ones [of "0xFFFFFFFF"] by (simp add: bitmap_bytes [OF assms(1)] used_replicate)
  moreover have "unat tot \<le> 32 * ((unat tot + 31) div 32)" by simp
  ultimately show "free_set ?q = {}"
    unfolding free_set_def by fastforce
  with \<open>\<And>n. n < 32 * ((unat tot + 31) div 32) \<Longrightarrow> used (pmm_bitmap ?q) n\<close> assms
  show "pmm_wf ?q"
    by (simp add: pmm_wf_def pmm_shape_def bitmap_bytes)
qed

text \<open>The regions that fit below 4 GiB, and the pages of RAM.\<close>

definition regions_fit :: "kphysregion list \<Rightarrow> bool" where
  "regions_fit rs \<longleftrightarrow> (\<forall>r \<in> set rs. is_ram r \<longrightarrow> unat (kr_address r) + unat (kr_size r) + 4095 < 4294967296)"

definition ram_pages :: "kphysregion list \<Rightarrow> nat set" where
  "ram_pages rs = (\<Union>r \<in> {r \<in> set rs. is_ram r}. pages_of (kr_address r) (kr_size r))"

lemma memory_end_fit:
  assumes "regions_fit rs"
  shows "unat (pmm_memory_end p) + 4095 < 4294967296 \<Longrightarrow>
    unat (pmm_memory_end (fold measure_region rs p)) + 4095 < 4294967296"
  using assms
proof (induction rs arbitrary: p)
  case (Cons r rs)
  have "unat (pmm_memory_end (measure_region r p)) + 4095 < 4294967296"
    using Cons.prems by (auto simp: regions_fit_def measure_region_def Let_def unat_add_u32)
  then show ?case using Cons.IH [of "measure_region r p"] Cons.prems by (simp add: regions_fit_def)
qed simp

lemma mark_regions:
  assumes "pmm_wf p" and "regions_fit rs"
    and "\<forall>r \<in> set rs. is_ram r \<longrightarrow> kr_address r \<le> pmm_memory_end p"
  shows "\<exists>p'. for_each rs (\<lambda>r p. if is_ram r then pmm_mark_free (kr_address r) (kr_size r) p else Some p) p
      = Some p' \<and> pmm_wf p' \<and> geometry p' = geometry p \<and>
    free_set p' = free_set p \<union> (ram_pages rs \<inter> {..< unat (pmm_total_pages p)})"
  using assms
proof (induction rs arbitrary: p)
  case (Cons r rs)
  show ?case
  proof (cases "is_ram r")
    case True
    with Cons.prems pmm_mark_free_step [of p "kr_address r" "kr_size r"] obtain p1 where
      p1: "pmm_mark_free (kr_address r) (kr_size r) p = Some p1" "pmm_wf p1" "geometry p1 = geometry p"
        "free_set p1 = free_set p \<union> (pages_of (kr_address r) (kr_size r) \<inter> {..< unat (pmm_total_pages p)})"
      by (auto simp: regions_fit_def)
    moreover have "ram_pages (r # rs) = pages_of (kr_address r) (kr_size r) \<union> ram_pages rs"
      using True by (auto simp: ram_pages_def)
    ultimately show ?thesis
      using Cons.IH [of p1] Cons.prems True by (auto simp: regions_fit_def geometry_def)
  next
    case False
    then have "ram_pages (r # rs) = ram_pages rs" by (auto simp: ram_pages_def)
    then show ?thesis using Cons False by (auto simp: regions_fit_def)
  qed
qed (simp add: ram_pages_def)

lemma pages_below_end:
  assumes "regions_fit rs" and "unat (pmm_memory_end (fold measure_region rs p)) + 4095 < 4294967296"
  shows "ram_pages rs \<subseteq> {..< unat (TO_PAGE (pmm_memory_end (fold measure_region rs p) + (PAGE_SIZE - 1)))}"
proof
  fix n assume "n \<in> ram_pages rs"
  then obtain r where r: "r \<in> set rs" "is_ram r" "n < (unat (kr_address r) + unat (kr_size r) + 4095) div 4096"
    by (auto simp: ram_pages_def pages_of_def)
  moreover have "unat (kr_address r + kr_size r) = unat (kr_address r) + unat (kr_size r)"
    using r assms(1) by (intro unat_add_u32) (auto simp: regions_fit_def)
  ultimately have "n < (unat (pmm_memory_end (fold measure_region rs p)) + 4095) div 4096"
    using memory_end_bound [OF r(1,2), of p]
    by (auto simp: word_le_nat_alt intro: order_less_le_trans div_le_mono)
  then show "n \<in> {..< unat (TO_PAGE (pmm_memory_end (fold measure_region rs p) + (PAGE_SIZE - 1)))}"
    by (simp add: total_of_end [OF assms(2)])
qed

lemma address_below_end:
  assumes "regions_fit rs" and "r \<in> set rs" and "is_ram r"
  shows "kr_address r \<le> pmm_memory_end (fold measure_region rs p)"
proof -
  have "unat (kr_address r + kr_size r) = unat (kr_address r) + unat (kr_size r)"
    using assms by (intro unat_add_u32) (auto simp: regions_fit_def)
  then show ?thesis
    using memory_end_bound [OF assms(2,3), of p] by (auto simp: word_le_nat_alt)
qed

lemma page_zero: "pages_of 0 0x1000 = {0}"
  by (auto simp: pages_of_def)

lemma pmm_init_step:
  assumes count: "0 < km_count m" and fit: "regions_fit (km_list m)"
    and alloc: "kinit_alloc (CEIL_DIV (TO_PAGE (pmm_memory_end (fold measure_region (km_list m)
        (p\<lparr>pmm_memory_end := 0, pmm_usable_pages := 0\<rparr>)) + (PAGE_SIZE - 1))) 32 * 4) st = Some (ptr, ka, g)"
    and ptr: "ptr \<noteq> 0"
  shows "\<exists>p'. pmm_init m p st = Some (p', ka, g) \<and> pmm_inv p' \<and> free_set p' = ram_pages (km_list m) - {0} \<and>
    pmm_memory_end p' = pmm_memory_end (fold measure_region (km_list m) (p\<lparr>pmm_memory_end := 0, pmm_usable_pages := 0\<rparr>))"
proof -
  define p0 where "p0 = fold measure_region (km_list m) (p\<lparr>pmm_memory_end := 0, pmm_usable_pages := 0\<rparr>)"
  define tot where "tot = TO_PAGE (pmm_memory_end p0 + (PAGE_SIZE - 1))"
  define p1 where "p1 = p0\<lparr>pmm_total_pages := tot, pmm_bitmap_size := CEIL_DIV tot 32 * 4, pmm_free_pages := 0,
      pmm_used_pages := pmm_usable_pages p0, pmm_hint := 0, pmm_bitmap_ptr := ptr,
      pmm_bitmap := replicate (unat (CEIL_DIV tot 32 * 4) div 4) 0xFFFFFFFF\<rparr>"
  have "unat tot < 1048576" by (simp add: tot_def)
  then have wf: "pmm_wf p1" and free: "free_set p1 = {}"
    unfolding p1_def using all_used_wf [OF _ ptr] by simp_all
  have "unat (pmm_memory_end p0) + 4095 < 4294967296"
    unfolding p0_def by (rule memory_end_fit [OF fit]) simp
  then have below: "ram_pages (km_list m) \<subseteq> {..< unat tot}"
    unfolding tot_def p0_def by (rule pages_below_end [OF fit])
  have total: "pmm_total_pages p1 = tot" by (simp add: p1_def)
  have le: "\<forall>r \<in> set (km_list m). is_ram r \<longrightarrow> kr_address r \<le> pmm_memory_end p1"
    using address_below_end [OF fit] by (simp add: p1_def p0_def)
  obtain p2 where p2: "for_each (km_list m)
      (\<lambda>r p. if is_ram r then pmm_mark_free (kr_address r) (kr_size r) p else Some p) p1 = Some p2"
      "pmm_wf p2" "geometry p2 = geometry p1" "free_set p2 = ram_pages (km_list m)"
    using mark_regions [OF wf fit le] free below total by (auto simp: Int_absorb2)
  obtain p3 where p3: "pmm_mark_used 0 0x1000 p2 = Some p3" "pmm_wf p3" "free_set p3 = ram_pages (km_list m) - {0}"
      "geometry p3 = geometry p2"
    using pmm_mark_used_step [OF p2(2), of 0 "0x1000"] p2(4) page_zero by auto
  have "pmm_init m p st = Some (p3, ka, g)"
    using count alloc ptr p2(1) p3(1)
    unfolding pmm_init_def p0_def [symmetric] Let_def tot_def [symmetric] p1_def by simp
  moreover have "pmm_memory_end p3 = pmm_memory_end p0" using p3(4) p2(3) by (simp add: geometry_def p1_def)
  ultimately show ?thesis using p3 by (auto simp: pmm_inv_def p0_def)
qed

section \<open>The properties\<close>

text \<open>A manager of six pages with the pages 1, 2, 3 and 5 free, for the witnesses.\<close>

definition six_pages :: pmm where
  "six_pages = \<lparr>pmm_bitmap_ptr = 0xC0200000, pmm_bitmap = [0xFFFFFFD1], pmm_bitmap_size = 4,
     pmm_total_pages = 6, pmm_usable_pages = 6, pmm_free_pages = 4, pmm_used_pages = 2,
     pmm_hint = 4, pmm_largest_run = 0, pmm_memory_end = 0x6000\<rparr>"

lemma free_set_exec: "free_set p = set (filter (\<lambda>n. \<not> used (pmm_bitmap p) n) [0 ..< unat (pmm_total_pages p)])"
  by (auto simp: free_set_def)

lemma pmm_shape_exec:
  "pmm_shape p \<longleftrightarrow> pmm_bitmap_ptr p \<noteq> 0 \<and> unat (pmm_total_pages p) < 1048576 \<and>
     length (pmm_bitmap p) = (unat (pmm_total_pages p) + 31) div 32 \<and>
     unat (pmm_bitmap_size p) = 4 * length (pmm_bitmap p) \<and>
     list_all (used (pmm_bitmap p)) [unat (pmm_total_pages p) ..< 32 * length (pmm_bitmap p)]"
  by (auto simp: pmm_shape_def list_all_iff)

lemma six_pages_sel [simp]: "pmm_total_pages six_pages = 6" "pmm_free_pages six_pages = 4" "pmm_hint six_pages = 4"
  by (simp_all add: six_pages_def)

lemma six_pages_inv: "pmm_inv six_pages" and six_pages_free: "free_set six_pages = {1, 2, 3, 5}"
proof -
  have "filter (\<lambda>n. \<not> used [0xFFFFFFD1] n) [0 ..< 6] = [1, 2, 3, 5]" by code_simp
  then show free: "free_set six_pages = {1, 2, 3, 5}"
    by (simp add: free_set_exec six_pages_def)
  have "list_all (used [0xFFFFFFD1]) [6 ..< 32]" by code_simp
  then have "pmm_shape six_pages" by (simp add: pmm_shape_exec six_pages_def)
  with free show "pmm_inv six_pages" by (simp add: pmm_inv_def pmm_wf_def six_pages_def)
qed

text \<open>
  C3: \<^verbatim>\<open>pmm_alloc\<close> of a positive number of pages always returns. If some run of that many
  consecutive free pages exists, the result is the nonzero, page-aligned address of such a run,
  exactly the pages of the run leave the free set, and \<^verbatim>\<open>used_pages\<close> grows by \<^verbatim>\<open>count\<close>; otherwise
  the result is 0 and no page changes. The invariant (bitmap, counters, page 0 never free) holds
  afterwards.
\<close>

theorem pmm_alloc_correct:
  assumes "pmm_inv p" and "count \<noteq> 0"
  shows "\<exists>a p'. pmm_alloc count p = Some (a, p') \<and> pmm_inv p' \<and>
    (if \<exists>s. {s ..< s + unat count} \<subseteq> free_set p
     then a \<noteq> 0 \<and> page_aligned a \<and>
       {unat (TO_PAGE a) ..< unat (TO_PAGE a) + unat count} \<subseteq> free_set p \<and>
       free_set p' = free_set p - {unat (TO_PAGE a) ..< unat (TO_PAGE a) + unat count} \<and>
       pmm_used_pages p' = pmm_used_pages p + count
     else a = 0 \<and> free_set p' = free_set p \<and> pmm_used_pages p' = pmm_used_pages p)"
  using pmm_alloc_step [OF assms] by (auto split: if_splits)

theorem pmm_alloc_correct_witness:
  "pmm_inv six_pages \<and> (\<exists>a p'. pmm_alloc 3 six_pages = Some (a, p') \<and> pmm_inv p' \<and> a \<noteq> 0)"
proof -
  have "\<exists>s. {s ..< s + unat (3 :: u32)} \<subseteq> free_set six_pages"
    by (rule exI [of _ 1]) (auto simp: six_pages_free)
  then show ?thesis using pmm_alloc_correct [OF six_pages_inv, of 3] six_pages_inv by auto
qed

text \<open>
  C11: \<^verbatim>\<open>pmm_alloc_one\<close> with a free page left is a next-fit search: it takes the least free page at
  or behind the hint, and the least free page of all if none is behind it. The hint then points
  behind the page taken, back at 0 behind the last page, and the invariant is kept.
\<close>

theorem pmm_alloc_one_next_fit:
  assumes "pmm_inv p" and "pmm_free_pages p \<noteq> 0" and "pmm_hint p < pmm_total_pages p"
  shows "\<exists>page p'. pmm_alloc_one p = Some (TO_ADDR page, p') \<and>
    next_fit (free_set p) (unat (pmm_hint p)) (unat page) \<and> pmm_inv p' \<and>
    free_set p' = free_set p - {unat page} \<and>
    pmm_hint p' = (if pmm_total_pages p \<le> page + 1 then 0 else page + 1)"
proof -
  have "pmm_hint p = (if pmm_total_pages p \<le> pmm_hint p then 0 else pmm_hint p)"
    using assms(3) by auto
  from pmm_alloc_one_step [OF _ assms(2) this] assms(1) show ?thesis
    unfolding pmm_inv_def by blast
qed

theorem pmm_alloc_one_next_fit_witness:
  "\<exists>page p'. pmm_alloc_one six_pages = Some (TO_ADDR page, p') \<and>
    next_fit {1, 2, 3, 5} 4 (unat page) \<and> free_set p' = {1, 2, 3, 5} - {unat page}"
  using pmm_alloc_one_next_fit [OF six_pages_inv]
  unfolding six_pages_free by auto

text \<open>
  a page that \<^verbatim>\<open>pmm_alloc\<close> gave out and \<^verbatim>\<open>pmm_free\<close> takes back is free again, with the free
  set, the counters and the invariant as before.
\<close>

theorem pmm_alloc_free_one:
  assumes "pmm_inv p" and "pmm_free_pages p \<noteq> 0"
  shows "\<exists>a p1 p2. pmm_alloc 1 p = Some (a, p1) \<and> pmm_free a 1 p1 = Some p2 \<and> pmm_inv p2 \<and>
    free_set p2 = free_set p \<and> pmm_free_pages p2 = pmm_free_pages p \<and>
    pmm_used_pages p2 = pmm_used_pages p"
proof -
  have "free_set p \<noteq> {}" using assms by (auto simp: pmm_inv_def pmm_wf_def unat_0_iff)
  then have "\<exists>s. {s ..< s + unat (1 :: u32)} \<subseteq> free_set p" by (auto simp: singleton_run)
  then obtain a p1 where a: "pmm_alloc 1 p = Some (a, p1)" "pmm_inv p1" "a \<noteq> 0" "page_aligned a"
      "unat (TO_PAGE a) \<in> free_set p" "free_set p1 = free_set p - {unat (TO_PAGE a)}"
      "pmm_used_pages p1 = pmm_used_pages p + 1" "pmm_total_pages p1 = pmm_total_pages p"
    using pmm_alloc_step [OF assms(1), of 1] by (auto simp: singleton_run)
  then obtain p2 where "pmm_free a 1 p1 = Some p2" "pmm_inv p2"
      "free_set p2 = insert (unat (TO_PAGE a)) (free_set p1)" "pmm_used_pages p2 = pmm_used_pages p1 - 1"
    using pmm_free_one [of p1 a] by (auto simp: free_set_def word_less_nat_alt)
  moreover from this a have "free_set p2 = free_set p" by auto
  ultimately show ?thesis
    using a assms by (auto simp: pmm_inv_def pmm_wf_def word_unat_eq_iff)
qed

theorem pmm_alloc_free_one_witness:
  "\<exists>a p1 p2. pmm_alloc 1 six_pages = Some (a, p1) \<and> pmm_free a 1 p1 = Some p2 \<and>
     free_set p2 = {1, 2, 3, 5}"
  using pmm_alloc_free_one [OF six_pages_inv] unfolding six_pages_free by auto

text \<open>
  \<^verbatim>\<open>pmm_free\<close> of a run of 2 to 4096 allocated pages releases the first page only, because the
  loop adds \<^verbatim>\<open>TO_PAGE(i)\<close> where the address of page \<open>i\<close> is meant; \<^verbatim>\<open>free_pages\<close> still grows by the
  whole \<^verbatim>\<open>count\<close>, so it is no longer the number of free pages.
\<close>

theorem pmm_free_releases_first_page_only:
  assumes "pmm_inv p" and "page_aligned a" and "1 < count" and "unat count \<le> 4096"
    and "TO_PAGE a < pmm_total_pages p" and "count \<le> pmm_total_pages p - TO_PAGE a"
    and "unat (TO_PAGE a) \<notin> free_set p"
  shows "\<exists>p'. pmm_free a count p = Some p' \<and> free_set p' = insert (unat (TO_PAGE a)) (free_set p) \<and>
    pmm_free_pages p' = pmm_free_pages p + count \<and> \<not> pmm_wf p'"
proof -
  have wf: "pmm_wf p" and shape: "pmm_shape p" using assms(1) by (simp_all add: pmm_inv_def pmm_wf_def)
  obtain p' where p': "pmm_free a count p = Some p'" "pmm_shape p'"
      "free_set p' = insert (unat (TO_PAGE a)) (free_set p)" "pmm_free_pages p' = pmm_free_pages p + count"
    using pmm_free_run [OF shape assms(5,2) _ assms(4,6)] assms(3) by force
  have "unat (pmm_free_pages p + count) = card (free_set p) + unat count"
    using wf card_free_set_less [OF shape] assms(4) by (subst unat_add_u32) (auto simp: pmm_wf_def)
  moreover have "1 < unat count" using assms(3) by (simp add: word_less_nat_alt)
  ultimately have "\<not> pmm_wf p'" using p' assms(7) by (simp add: pmm_wf_def)
  with p' show ?thesis by blast
qed

theorem pmm_free_releases_first_page_only_witness:
  "\<exists>p'. pmm_free 0x4000 2 six_pages = Some p' \<and> free_set p' = insert 4 {1, 2, 3, 5} \<and> \<not> pmm_wf p'"
  using pmm_free_releases_first_page_only [OF six_pages_inv, of "0x4000" 2]
  by (auto simp: six_pages_free page_aligned_def TO_PAGE_def)

text \<open>
  C12: \<^verbatim>\<open>pmm_init\<close> on a memory map whose RAM regions end below 4 GiB, with room for the bitmap,
  establishes the invariant, and the free pages are exactly the pages that a RAM region touches,
  except page 0.
\<close>

theorem pmm_init_correct:
  assumes "0 < km_count m" and "regions_fit (km_list m)"
    and "kinit_alloc (CEIL_DIV (TO_PAGE (pmm_memory_end (fold measure_region (km_list m)
        (p\<lparr>pmm_memory_end := 0, pmm_usable_pages := 0\<rparr>)) + (PAGE_SIZE - 1))) 32 * 4) st = Some (ptr, ka, g)"
    and "ptr \<noteq> 0"
  shows "\<exists>p'. pmm_init m p st = Some (p', ka, g) \<and> pmm_inv p' \<and> free_set p' = ram_pages (km_list m) - {0}"
  using pmm_init_step [OF assms] by blast

definition two_regions :: kphysmap where
  "two_regions = \<lparr>km_count = 2, km_regions =
     [\<lparr>kr_address = 0, kr_size = 0x9FC00, kr_flags = 3\<rparr>, \<lparr>kr_address = 0x100000, kr_size = 0x200000, kr_flags = 3\<rparr>]
     @ replicate 8 zero_region\<rparr>"

theorem pmm_init_correct_witness:
  "\<exists>p' ka g. pmm_init two_regions six_pages
      (\<lparr>ka_base = 0xC0200000, ka_next = 0xC0200000, ka_limit = 0x10000, ka_enabled = True\<rparr>, pg_empty 0x300000)
      = Some (p', ka, g) \<and> pmm_inv p' \<and> 0 \<notin> free_set p'"
proof -
  have rs: "km_list two_regions = [\<lparr>kr_address = 0, kr_size = 0x9FC00, kr_flags = 3\<rparr>,
      \<lparr>kr_address = 0x100000, kr_size = 0x200000, kr_flags = 3\<rparr>]"
    by (simp add: km_list_def two_regions_def)
  have ram: "is_ram \<lparr>kr_address = a, kr_size = s, kr_flags = 3\<rparr>" for a s
    by (simp add: is_ram_def KPHYSREGION_VALID_def KPHYSREGION_TYPE_MASK_def KPHYSREGION_TYPE_RAM_def)
  have fit: "regions_fit (km_list two_regions)" by (simp add: rs regions_fit_def)
  have count: "0 < km_count two_regions" by (simp add: two_regions_def)
  show ?thesis
    using pmm_init_correct [OF count fit, of six_pages
      "(\<lparr>ka_base = 0xC0200000, ka_next = 0xC0200000, ka_limit = 0x10000, ka_enabled = True\<rparr>, pg_empty 0x300000)"]
    by (auto simp: rs measure_region_def ram Let_def six_pages_def CEIL_DIV_def TO_PAGE_def PAGE_SIZE_def
        kinit_alloc_def kinit_alloc_align_def DEFAULT_ALIGNMENT_def ALIGN_def)
qed

end
