(* ===== verification/Vmm.thy ===== *)
theory Vmm
  imports Pmm
begin

text \<open>
  \<^verbatim>\<open>src/mm/vmm.c\<close>: a virtual memory manager hands out the pages of one range of virtual
  addresses, \<^verbatim>\<open>base\<close> to \<^verbatim>\<open>end\<close>, from a bitmap, and backs them with frames of the physical memory
  manager through the page tables. The state of the functions that touch frames is the manager
  together with the physical manager and the page tables.

  The pointer that \<^verbatim>\<open>vmm_init\<close> and \<^verbatim>\<open>vmm_destroy\<close> get from and give to their callbacks is kept
  beside the words of the bitmap; the callbacks are arguments, as in the C code.
\<close>

record vmm =
  vmm_bitmap_ptr :: u32
  vmm_bitmap :: "u32 list"
  vmm_bitmap_size :: u32
  vmm_total_pages :: u32
  vmm_usable_pages :: u32
  vmm_free_pages :: u32
  vmm_used_pages :: u32
  vmm_largest_run :: u32
  vmm_base :: u32
  vmm_end :: u32

type_synonym mm = "vmm \<times> pmm \<times> paging"

section \<open>Bitmap accesses\<close>

text \<open>Unlike the physical manager, an index behind the bitmap is ignored.\<close>

definition vmm_set :: "u32 \<Rightarrow> vmm \<Rightarrow> vmm option" where
  "vmm_set virt v =
    (let page = TO_PAGE (virt - vmm_base v); i = word_of page in
     if unat (vmm_bitmap_size v div 4) \<le> i then Some v
     else if i < length (vmm_bitmap v) then Some (v\<lparr>vmm_bitmap := bm_set (vmm_bitmap v) page\<rparr>) else None)"

definition vmm_clear :: "u32 \<Rightarrow> vmm \<Rightarrow> vmm option" where
  "vmm_clear virt v =
    (let page = TO_PAGE (virt - vmm_base v); i = word_of page in
     if unat (vmm_bitmap_size v div 4) \<le> i then Some v
     else if i < length (vmm_bitmap v) then Some (v\<lparr>vmm_bitmap := bm_clear (vmm_bitmap v) page\<rparr>) else None)"

definition vmm_test :: "u32 \<Rightarrow> vmm \<Rightarrow> bool option" where
  "vmm_test virt v =
    (let page = TO_PAGE (virt - vmm_base v); i = word_of page in
     if unat (vmm_bitmap_size v div 4) \<le> i then Some False
     else if i < length (vmm_bitmap v) then Some (bm_test (vmm_bitmap v) page) else None)"

section \<open>Marking ranges\<close>

text \<open>The loop bodies; the flag is the result \<^verbatim>\<open>r\<close>, false once a page was already in the state.\<close>

definition vmm_mark_free_page :: "u32 \<Rightarrow> bool \<times> vmm \<Rightarrow> (bool \<times> vmm) option" where
  "vmm_mark_free_page a rv = (case rv of (r, v) \<Rightarrow> do {
     t \<leftarrow> vmm_test a v;
     if \<not> t then Some (False, v)
     else do {
       v \<leftarrow> vmm_clear a v;
       Some (r, v\<lparr>vmm_free_pages := vmm_free_pages v + 1, vmm_used_pages := vmm_used_pages v - 1\<rparr>)
     } })"

definition vmm_mark_used_page :: "u32 \<Rightarrow> bool \<times> vmm \<Rightarrow> (bool \<times> vmm) option" where
  "vmm_mark_used_page a rv = (case rv of (r, v) \<Rightarrow> do {
     t \<leftarrow> vmm_test a v;
     if t then Some (False, v)
     else do {
       v \<leftarrow> vmm_set a v;
       Some (r, v\<lparr>vmm_free_pages := vmm_free_pages v - 1, vmm_used_pages := vmm_used_pages v + 1\<rparr>)
     } })"

definition vmm_mark_free :: "u32 \<Rightarrow> u32 \<Rightarrow> vmm \<Rightarrow> (bool \<times> vmm) option" where
  "vmm_mark_free virt sz v = do {
     assert (vmm_base v \<le> virt);
     assert (sz \<le> vmm_end v - virt);
     for_each (page_range (ALIGN virt PAGE_SIZE) ((virt + sz) AND NOT (PAGE_SIZE - 1)))
       vmm_mark_free_page (True, v)
   }"

definition vmm_mark_used :: "u32 \<Rightarrow> u32 \<Rightarrow> vmm \<Rightarrow> (bool \<times> vmm) option" where
  "vmm_mark_used virt sz v = do {
     assert (vmm_base v \<le> virt);
     assert (sz \<le> vmm_end v - virt);
     for_each (page_range (ALIGN virt PAGE_SIZE) (ALIGN (virt + sz) PAGE_SIZE))
       vmm_mark_used_page (True, v)
   }"

section \<open>Set-up\<close>

definition vmm_init ::
  "u32 \<Rightarrow> u32 \<Rightarrow> (u32 \<Rightarrow> 's \<Rightarrow> (u32 \<times> 's) option) \<Rightarrow> vmm \<Rightarrow> 's \<Rightarrow> (vmm \<times> 's) option" where
  "vmm_init base lim alloc v s = do {
     assert (base AND (PAGE_SIZE - 1) = 0);
     assert (lim AND (PAGE_SIZE - 1) = 0);
     assert (base < lim);
     let np = TO_PAGE (lim - base); bytes = CEIL_DIV np 32 * 4 in do {
     (ptr, s) \<leftarrow> alloc bytes s;
     assert (ptr \<noteq> 0);
     let v = v\<lparr>vmm_base := base, vmm_end := lim, vmm_total_pages := np, vmm_bitmap_size := bytes,
               vmm_free_pages := np, vmm_usable_pages := np, vmm_used_pages := 0,
               vmm_bitmap_ptr := ptr, vmm_bitmap := replicate (unat bytes div 4) 0\<rparr> in
     if base = 0 then do { (r, v) \<leftarrow> vmm_mark_used 0 0x1000 v; Some (v, s) } else Some (v, s) } }"

section \<open>Reserving addresses\<close>

definition vmm_find_contiguous_pages :: "u32 \<Rightarrow> vmm \<Rightarrow> (u32 \<times> vmm) option" where
  "vmm_find_contiguous_pages count v = do {
     assert (vmm_bitmap_ptr v \<noteq> 0);
     assert (vmm_bitmap_size v \<noteq> 0);
     let v = v\<lparr>vmm_largest_run := 0\<rparr> in
     if count = 0 then Some (0, v)
     else if length (vmm_bitmap v) < unat (vmm_bitmap_size v div 4) then None
     else case scan_dwords (take (unat (vmm_bitmap_size v div 4)) (vmm_bitmap v)) 0
            (vmm_total_pages v) count scan_init of
       Found s \<Rightarrow> Some (vmm_base v + TO_ADDR (scan_start s), v\<lparr>vmm_largest_run := scan_largest s\<rparr>)
     | Continue s \<Rightarrow> Some (0, v\<lparr>vmm_largest_run := scan_largest s\<rparr>)
   }"

definition vmm_reserve :: "u32 \<Rightarrow> vmm \<Rightarrow> (u32 \<times> vmm) option" where
  "vmm_reserve count v =
    (if count = 0 then Some (0, v)
     else if vmm_free_pages v < count then Some (0, v)
     else do {
       (start, v) \<leftarrow> vmm_find_contiguous_pages count v;
       if start = 0 then Some (0, v)
       else do {
         v \<leftarrow> for_upto (unat count) (\<lambda>i. vmm_set (start + TO_ADDR i)) v;
         Some (start, v\<lparr>vmm_free_pages := vmm_free_pages v - count,
                        vmm_used_pages := vmm_used_pages v + count\<rparr>)
       }
     })"

definition vmm_unreserve :: "u32 \<Rightarrow> u32 \<Rightarrow> vmm \<Rightarrow> vmm option" where
  "vmm_unreserve virt count v =
    (if virt = 0 then Some v
     else if count = 0 then Some v
     else if virt < vmm_base v \<or> vmm_end v \<le> virt then Some v
     else if virt AND (PAGE_SIZE - 1) \<noteq> 0 then Some v
     else do {
       v \<leftarrow> for_upto (unat count) (\<lambda>i. vmm_clear (virt + TO_ADDR i)) v;
       Some (v\<lparr>vmm_free_pages := vmm_free_pages v + count,
               vmm_used_pages := vmm_used_pages v - count\<rparr>)
     })"

section \<open>Backing addresses with frames\<close>

definition rollback_page :: "u32 \<Rightarrow> mm \<Rightarrow> mm option" where
  "rollback_page virt_addr st = (case st of (v, p, g) \<Rightarrow>
    (let phys_addr = pg_virt2phys virt_addr g in do {
       (p, g) \<leftarrow> (if phys_addr \<noteq> 0 then do { p \<leftarrow> pmm_free phys_addr 1 p; Some (p, pg_unmap virt_addr 1 g) }
                  else Some (p, g));
       v \<leftarrow> vmm_clear virt_addr v;
       Some (v, p, g)
     }))"

definition rollback_allocations :: "u32 \<Rightarrow> u32 \<Rightarrow> mm \<Rightarrow> mm option" where
  "rollback_allocations virt count = for_upto (unat count) (\<lambda>i. rollback_page (virt + TO_ADDR i))"

text \<open>The loop of \<^verbatim>\<open>vmm_alloc\<close>; the list holds the page numbers that are left.\<close>

primrec vmm_alloc_loop :: "nat list \<Rightarrow> u32 \<Rightarrow> mm \<Rightarrow> (u32 \<times> mm) option" where
  "vmm_alloc_loop [] start st = Some (start, st)"
| "vmm_alloc_loop (i # is) start st = (case st of (v, p, g) \<Rightarrow> do {
     (phys, p) \<leftarrow> pmm_alloc 1 p;
     if phys = 0 then do {
       st \<leftarrow> rollback_allocations start (of_nat i) (v, p, g);
       Some (0, st)
     }
     else vmm_alloc_loop is start (v, p, pg_map (start + TO_ADDR (of_nat i)) phys PTE_RW 1 g)
   })"

definition vmm_alloc :: "u32 \<Rightarrow> mm \<Rightarrow> (u32 \<times> mm) option" where
  "vmm_alloc count st = (case st of (v, p, g) \<Rightarrow> do {
     (start, v) \<leftarrow> vmm_reserve count v;
     if start = 0 then Some (0, v, p, g)
     else vmm_alloc_loop [0 ..< unat count] start (v, p, g)
   })"

definition vmm_alloc_contiguous :: "u32 \<Rightarrow> mm \<Rightarrow> (u32 \<times> mm) option" where
  "vmm_alloc_contiguous count st = (case st of (v, p, g) \<Rightarrow> do {
     (virt, v) \<leftarrow> vmm_reserve count v;
     if virt = 0 then Some (0, v, p, g)
     else do {
       (phys, p) \<leftarrow> pmm_alloc count p;
       if phys = 0 then Some (0, v, p, g)
       else Some (virt, v, p, pg_map virt phys PTE_RW count g)
     }
   })"

text \<open>The loop of \<^verbatim>\<open>vmm_free\<close> over the frames.\<close>

definition free_frame :: "paging \<Rightarrow> u32 \<Rightarrow> pmm \<Rightarrow> pmm option" where
  "free_frame g virt_addr p =
    (let phys_addr = pg_virt2phys virt_addr g in
     if phys_addr \<noteq> 0 then pmm_free phys_addr 1 p else Some p)"

definition vmm_free :: "u32 \<Rightarrow> u32 \<Rightarrow> mm \<Rightarrow> mm option" where
  "vmm_free virt count st = (case st of (v, p, g) \<Rightarrow> do {
     v \<leftarrow> vmm_unreserve virt count v;
     let g = pg_unmap virt count g in do {
     p \<leftarrow> for_upto (unat count) (\<lambda>i. free_frame g (virt + TO_ADDR i)) p;
     Some (v, p, g) } })"

section \<open>Tear-down\<close>

text \<open>One bit of \<^verbatim>\<open>vmm_destroy\<close>, with \<open>bits\<close> the word as it was when the loop reached it.\<close>

definition destroy_page :: "u32 \<Rightarrow> mm \<Rightarrow> mm option" where
  "destroy_page page st = (case st of (v, p, g) \<Rightarrow>
    (let virt_addr = vmm_base v + TO_ADDR page; phys_addr = pg_virt2phys virt_addr g in do {
       (p, g) \<leftarrow> (if phys_addr \<noteq> 0 then do { p \<leftarrow> pmm_free phys_addr 1 p; Some (p, pg_unmap virt_addr 1 g) }
                  else Some (p, g));
       Some (v\<lparr>vmm_bitmap := bm_clear (vmm_bitmap v) page\<rparr>, p, g)
     }))"

primrec destroy_bits :: "nat list \<Rightarrow> u32 \<Rightarrow> u32 \<Rightarrow> mm \<Rightarrow> mm option" where
  "destroy_bits [] dword bits st = Some st"
| "destroy_bits (b # bs) dword bits st =
    (let page = push_bit 5 dword + of_nat b in
     if vmm_total_pages (fst st) \<le> page then Some st
     else if bits AND push_bit b 1 = 0 then destroy_bits bs dword bits st
     else do { st \<leftarrow> destroy_page page st; destroy_bits bs dword bits st })"

definition destroy_dword :: "nat \<Rightarrow> mm \<Rightarrow> mm option" where
  "destroy_dword i st =
    (if i < length (vmm_bitmap (fst st))
     then destroy_bits [0..<32] (of_nat i) (vmm_bitmap (fst st) ! i) st else None)"

text \<open>
  The state beside the manager is what the callback works on; \<^verbatim>\<open>free\<close> may use the physical manager
  and the page tables too.
\<close>

definition vmm_destroy ::
  "(u32 \<Rightarrow> 's \<times> pmm \<times> paging \<Rightarrow> ('s \<times> pmm \<times> paging) option) \<Rightarrow> mm \<times> 's \<Rightarrow> (mm \<times> 's) option" where
  "vmm_destroy free st = (case st of (m, s) \<Rightarrow> do {
     assert (vmm_bitmap_ptr (fst m) \<noteq> 0);
     (v, p, g) \<leftarrow> for_each [0 ..< unat (vmm_bitmap_size (fst m) div 4)] destroy_dword m;
     (s, p, g) \<leftarrow> free (vmm_bitmap_ptr v) (s, p, g);
     Some ((v\<lparr>vmm_bitmap_ptr := 0, vmm_bitmap := [], vmm_bitmap_size := 0\<rparr>, p, g), s)
   })"

section \<open>Counters\<close>

definition vmm_get_free :: "vmm \<Rightarrow> u32" where
  "vmm_get_free v = vmm_free_pages v"

definition vmm_get_total :: "vmm \<Rightarrow> u32" where
  "vmm_get_total v = vmm_total_pages v"

definition vmm_get_used :: "vmm \<Rightarrow> u32" where
  "vmm_get_used v = vmm_used_pages v"

definition vmm_get_usable :: "vmm \<Rightarrow> u32" where
  "vmm_get_usable v = vmm_usable_pages v"

definition vmm_get_largest_run :: "vmm \<Rightarrow> u32" where
  "vmm_get_largest_run v = vmm_largest_run v"

section \<open>The invariant\<close>

text \<open>The pages of the range, by their distance from \<^verbatim>\<open>base\<close>, that are not reserved.\<close>

definition vfree :: "vmm \<Rightarrow> nat set" where
  "vfree v = {n. n < unat (vmm_total_pages v) \<and> \<not> used (vmm_bitmap v) n}"

definition vmm_shape :: "vmm \<Rightarrow> bool" where
  "vmm_shape v \<longleftrightarrow> vmm_bitmap_ptr v \<noteq> 0 \<and> page_aligned (vmm_base v) \<and> page_aligned (vmm_end v) \<and>
     vmm_base v < vmm_end v \<and> vmm_end v \<le> KVIRT_END \<and>
     vmm_total_pages v = TO_PAGE (vmm_end v - vmm_base v) \<and>
     length (vmm_bitmap v) = (unat (vmm_total_pages v) + 31) div 32 \<and>
     unat (vmm_bitmap_size v) = 4 * length (vmm_bitmap v)"

text \<open>Address 0 stands for failure, so a manager that starts at 0 never has page 0 free.\<close>

definition vmm_inv :: "vmm \<Rightarrow> bool" where
  "vmm_inv v \<longleftrightarrow> vmm_shape v \<and> unat (vmm_free_pages v) = card (vfree v) \<and>
     (vmm_base v = 0 \<longrightarrow> 0 \<notin> vfree v)"

text \<open>The virtual address of page \<open>n\<close> of the range.\<close>

definition vaddr :: "vmm \<Rightarrow> nat \<Rightarrow> u32" where
  "vaddr v n = vmm_base v + TO_ADDR (of_nat n)"

definition vpage :: "vmm \<Rightarrow> nat" where
  "vpage v = unat (TO_PAGE (vmm_base v))"

lemma finite_vfree [simp]: "finite (vfree v)"
  by (simp add: vfree_def)

lemma vmm_total:
  assumes "vmm_shape v"
  shows "unat (vmm_base v) + unat (vmm_total_pages v) * 4096 = unat (vmm_end v)"
    and "vpage v + unat (vmm_total_pages v) \<le> 0xFFC00"
proof -
  have "unat (vmm_end v - vmm_base v) = unat (vmm_end v) - unat (vmm_base v)"
    and le: "unat (vmm_base v) \<le> unat (vmm_end v)"
    using assms by (simp_all add: vmm_shape_def unat_sub_u32 word_less_nat_alt)
  moreover have "(unat (vmm_end v) - unat (vmm_base v)) mod 4096 = 0"
    using assms le by (simp add: vmm_shape_def page_aligned_def mod_0_imp_dvd)
  ultimately show *: "unat (vmm_base v) + unat (vmm_total_pages v) * 4096 = unat (vmm_end v)"
    using assms by (auto simp: vmm_shape_def unat_TO_PAGE)
  have "unat (vmm_end v) \<le> 0xFFC00000"
    using assms by (simp add: vmm_shape_def KVIRT_END_def word_le_nat_alt)
  moreover have "unat (vmm_base v) = vpage v * 4096"
    using assms by (auto simp: vmm_shape_def page_aligned_def vpage_def unat_TO_PAGE)
  ultimately show "vpage v + unat (vmm_total_pages v) \<le> 0xFFC00" using * by simp
qed

lemma vmm_total_small: "vmm_shape v \<Longrightarrow> unat (vmm_total_pages v) \<le> 0xFFC00"
  using vmm_total(2) by fastforce

lemma unat_vaddr:
  assumes "vmm_shape v" and "n < unat (vmm_total_pages v)"
  shows "unat (vaddr v n) = unat (vmm_base v) + n * 4096"
proof -
  have n: "n < 1048576" using assms vmm_total_small by fastforce
  then have "unat (TO_ADDR (of_nat n)) = n * 4096" by (simp add: unat_TO_ADDR unat_of_nat_u32)
  moreover have "unat (vmm_base v) + n * 4096 < 4294967296"
    using vmm_total(1) [OF assms(1)] assms(2) unat_less_u32 [of "vmm_end v"] by linarith
  ultimately show ?thesis unfolding vaddr_def by (subst unat_add_u32) simp_all
qed

lemma vaddr_page:
  assumes "vmm_shape v" and "n < unat (vmm_total_pages v)"
  shows "TO_PAGE (vaddr v n - vmm_base v) = of_nat n" and "unat (of_nat n :: u32) = n"
    and "unat (vaddr v n) div 4096 = vpage v + n" and "vaddr v n < 0xFFC00000" and "page_aligned (vaddr v n)"
proof -
  have n: "n < 1048576" using assms vmm_total_small by fastforce
  show "TO_PAGE (vaddr v n - vmm_base v) = of_nat n"
    using n by (simp add: vaddr_def TO_PAGE_TO_ADDR unat_of_nat_u32)
  show "unat (of_nat n :: u32) = n" using n by (simp add: unat_of_nat_u32)
  show "unat (vaddr v n) div 4096 = vpage v + n"
    by (simp add: unat_vaddr [OF assms] vpage_def unat_TO_PAGE)
  have "unat (vaddr v n) < unat (vmm_end v)"
    using vmm_total(1) [OF assms(1)] assms(2) unat_vaddr [OF assms] by linarith
  then show "vaddr v n < 0xFFC00000"
    using assms(1) by (simp add: vmm_shape_def KVIRT_END_def word_less_nat_alt word_le_nat_alt)
  show "page_aligned (vaddr v n)"
    using assms(1) by (simp add: vaddr_def vmm_shape_def page_aligned_add)
qed

lemma vmm_word: "vmm_shape v \<Longrightarrow> n < unat (vmm_total_pages v) \<Longrightarrow> n div 32 < length (vmm_bitmap v)"
  by (auto simp: vmm_shape_def)

lemma vmm_words: "vmm_shape v \<Longrightarrow> unat (vmm_bitmap_size v div 4) = length (vmm_bitmap v)"
  by (simp add: vmm_shape_def unat_div)

lemmas vmm_access = vaddr_page(1,2) vmm_word

section \<open>One page\<close>

lemma vmm_test_page:
  assumes "vmm_shape v" and "n < unat (vmm_total_pages v)"
  shows "vmm_test (vaddr v n) v = Some (n \<notin> vfree v)"
  using assms vmm_access [OF assms] vmm_words [OF assms(1)]
  by (simp add: vmm_test_def word_of_nat bm_test_used vfree_def not_le)

lemma vmm_set_page:
  assumes "vmm_shape v" and "n < unat (vmm_total_pages v)"
  shows "\<exists>bm. vmm_set (vaddr v n) v = Some (v\<lparr>vmm_bitmap := bm\<rparr>) \<and> vmm_shape (v\<lparr>vmm_bitmap := bm\<rparr>) \<and>
    vfree (v\<lparr>vmm_bitmap := bm\<rparr>) = vfree v - {n}"
proof -
  let ?bm = "bm_set (vmm_bitmap v) (of_nat n)"
  have "vmm_set (vaddr v n) v = Some (v\<lparr>vmm_bitmap := ?bm\<rparr>)"
    using vmm_access [OF assms] vmm_words [OF assms(1)] by (simp add: vmm_set_def word_of_nat not_le)
  moreover have "vmm_shape (v\<lparr>vmm_bitmap := ?bm\<rparr>)" using assms(1) by (simp add: vmm_shape_def)
  moreover have "vfree (v\<lparr>vmm_bitmap := ?bm\<rparr>) = vfree v - {n}"
    using vmm_access [OF assms] by (auto simp: vfree_def used_bm_set)
  ultimately show ?thesis by blast
qed

lemma vmm_clear_page:
  assumes "vmm_shape v" and "n < unat (vmm_total_pages v)"
  shows "\<exists>bm. vmm_clear (vaddr v n) v = Some (v\<lparr>vmm_bitmap := bm\<rparr>) \<and> vmm_shape (v\<lparr>vmm_bitmap := bm\<rparr>) \<and>
    vfree (v\<lparr>vmm_bitmap := bm\<rparr>) = insert n (vfree v)"
proof -
  let ?bm = "bm_clear (vmm_bitmap v) (of_nat n)"
  have "vmm_clear (vaddr v n) v = Some (v\<lparr>vmm_bitmap := ?bm\<rparr>)"
    using vmm_access [OF assms] vmm_words [OF assms(1)] by (simp add: vmm_clear_def word_of_nat not_le)
  moreover have "vmm_shape (v\<lparr>vmm_bitmap := ?bm\<rparr>)" using assms(1) by (simp add: vmm_shape_def)
  moreover have "vfree (v\<lparr>vmm_bitmap := ?bm\<rparr>) = insert n (vfree v)"
    using vmm_access [OF assms] assms(2) by (auto simp: vfree_def used_bm_clear)
  ultimately show ?thesis by blast
qed

lemma vaddr_step: "vaddr v n + TO_ADDR (of_nat i) = vaddr v (n + i)"
  by (simp add: vaddr_def TO_ADDR_mult distrib_right)

lemma vaddr_bitmap [simp]: "vaddr (v\<lparr>vmm_bitmap := bm\<rparr>) n = vaddr v n"
  by (simp add: vaddr_def)

section \<open>Runs of pages\<close>

lemma vmm_set_run:
  assumes "vmm_shape v" and "s + c \<le> unat (vmm_total_pages v)"
  shows "\<exists>bm. for_upto c (\<lambda>i. vmm_set (vaddr v s + TO_ADDR i)) v = Some (v\<lparr>vmm_bitmap := bm\<rparr>) \<and>
    vmm_shape (v\<lparr>vmm_bitmap := bm\<rparr>) \<and> vfree (v\<lparr>vmm_bitmap := bm\<rparr>) = vfree v - {s ..< s + c}"
proof -
  let ?P = "\<lambda>i w. \<exists>bm. w = v\<lparr>vmm_bitmap := bm\<rparr> \<and> vmm_shape w \<and> vfree w = vfree v - {s ..< s + i}"
  have "\<exists>w. for_upto c (\<lambda>i. vmm_set (vaddr v s + TO_ADDR i)) v = Some w \<and> ?P c w"
  proof (rule for_upto_rule)
    show "?P 0 v" using assms(1) by (auto intro: exI [of _ "vmm_bitmap v"])
    fix i w assume i: "i < c" and "?P i w"
    then obtain bm where w: "w = v\<lparr>vmm_bitmap := bm\<rparr>" "vmm_shape w" "vfree w = vfree v - {s ..< s + i}"
      by blast
    then show "\<exists>w'. vmm_set (vaddr v s + TO_ADDR (of_nat i)) w = Some w' \<and> ?P (Suc i) w'"
      using vmm_set_page [OF w(2), of "s + i"] i assms(2)
      by (auto simp: vaddr_step atLeastLessThanSuc)
  qed
  then show ?thesis by blast
qed

lemma vmm_clear_run:
  assumes "vmm_shape v" and "s + c \<le> unat (vmm_total_pages v)"
  shows "\<exists>bm. for_upto c (\<lambda>i. vmm_clear (vaddr v s + TO_ADDR i)) v = Some (v\<lparr>vmm_bitmap := bm\<rparr>) \<and>
    vmm_shape (v\<lparr>vmm_bitmap := bm\<rparr>) \<and> vfree (v\<lparr>vmm_bitmap := bm\<rparr>) = vfree v \<union> {s ..< s + c}"
proof -
  let ?P = "\<lambda>i w. \<exists>bm. w = v\<lparr>vmm_bitmap := bm\<rparr> \<and> vmm_shape w \<and> vfree w = vfree v \<union> {s ..< s + i}"
  have "\<exists>w. for_upto c (\<lambda>i. vmm_clear (vaddr v s + TO_ADDR i)) v = Some w \<and> ?P c w"
  proof (rule for_upto_rule)
    show "?P 0 v" using assms(1) by (auto intro: exI [of _ "vmm_bitmap v"])
    fix i w assume i: "i < c" and "?P i w"
    then obtain bm where w: "w = v\<lparr>vmm_bitmap := bm\<rparr>" "vmm_shape w" "vfree w = vfree v \<union> {s ..< s + i}"
      by blast
    then show "\<exists>w'. vmm_clear (vaddr v s + TO_ADDR (of_nat i)) w = Some w' \<and> ?P (Suc i) w'"
      using vmm_clear_page [OF w(2), of "s + i"] i assms(2)
      by (auto simp: vaddr_step atLeastLessThanSuc)
  qed
  then show ?thesis by blast
qed

section \<open>Reserving and giving back\<close>

lemma vfree_set:
  assumes "vmm_shape v" and "s + c \<le> unat (vmm_total_pages v)"
  shows "free_run (vmm_bitmap v) s c \<longleftrightarrow> {s ..< s + c} \<subseteq> vfree v"
proof
  assume run: "free_run (vmm_bitmap v) s c"
  show "{s ..< s + c} \<subseteq> vfree v"
  proof
    fix n assume n: "n \<in> {s ..< s + c}"
    then have "n - s < c" by auto
    with run have "\<not> used (vmm_bitmap v) (s + (n - s))" unfolding free_run_def by blast
    then show "n \<in> vfree v" using n assms(2) by (simp add: vfree_def)
  qed
next
  assume "{s ..< s + c} \<subseteq> vfree v"
  then show "free_run (vmm_bitmap v) s c" by (auto simp: free_run_def vfree_def subset_iff)
qed

lemma vrun_in_total: "{s ..< s + c} \<subseteq> vfree v \<Longrightarrow> 0 < c \<Longrightarrow> s + c \<le> unat (vmm_total_pages v)"
  by (drule subsetD [of _ _ "s + c - 1"]) (auto simp: vfree_def)

lemma vmm_largest_run_simps [simp]:
  "vfree (v\<lparr>vmm_largest_run := l\<rparr>) = vfree v" "vmm_shape (v\<lparr>vmm_largest_run := l\<rparr>) = vmm_shape v"
  "vmm_inv (v\<lparr>vmm_largest_run := l\<rparr>) = vmm_inv v" "vaddr (v\<lparr>vmm_largest_run := l\<rparr>) n = vaddr v n"
  by (simp_all add: vfree_def vmm_shape_def vmm_inv_def vaddr_def)

lemma vmm_size_nonzero: "vmm_shape v \<Longrightarrow> vmm_bitmap_size v \<noteq> 0"
proof
  assume v: "vmm_shape v" and "vmm_bitmap_size v = 0"
  then have "unat (vmm_total_pages v) = 0" by (auto simp: vmm_shape_def)
  then show False using vmm_total(1) [OF v] v by (simp add: vmm_shape_def word_less_nat_alt)
qed

lemma vaddr_nonzero: "vmm_inv v \<Longrightarrow> n \<in> vfree v \<Longrightarrow> vaddr v n \<noteq> 0"
proof
  assume v: "vmm_inv v" "n \<in> vfree v" "vaddr v n = 0"
  then have "unat (vmm_base v) + n * 4096 = 0"
    using unat_vaddr [of v n] by (simp add: vmm_inv_def vfree_def)
  with v show False by (auto simp: vmm_inv_def word_unat_eq_iff)
qed

lemma vmm_find_run:
  assumes inv: "vmm_inv v" and count: "count \<noteq> 0"
  shows "\<exists>start l. vmm_find_contiguous_pages count v = Some (start, v\<lparr>vmm_largest_run := l\<rparr>) \<and>
    (if \<exists>s. {s ..< s + unat count} \<subseteq> vfree v
     then \<exists>s. start = vaddr v s \<and> start \<noteq> 0 \<and> {s ..< s + unat count} \<subseteq> vfree v \<and>
            (\<forall>s' < s. \<not> {s' ..< s' + unat count} \<subseteq> vfree v)
     else start = 0)"
proof -
  let ?bm = "vmm_bitmap v" and ?np = "unat (vmm_total_pages v)" and ?c = "unat count"
  have shape: "vmm_shape v" using inv by (simp add: vmm_inv_def)
  have c: "0 < ?c" using count by (simp add: unat_gt_0)
  have ptr: "vmm_bitmap_ptr v \<noteq> 0" using shape by (simp add: vmm_shape_def)
  have words: "take (unat (vmm_bitmap_size v div 4)) ?bm = ?bm"
    and len: "\<not> length ?bm < unat (vmm_bitmap_size v div 4)"
    using vmm_words [OF shape] by simp_all
  have b: "32 * length ?bm \<le> 4294967295" "?np \<le> 32 * length ?bm"
    using shape vmm_total_small [OF shape] by (auto simp: vmm_shape_def)
  have no: "\<not> {s ..< s + ?c} \<subseteq> vfree v" if "s + ?c \<le> ?np \<Longrightarrow> \<not> free_run ?bm s ?c" for s
    using that vfree_set [OF shape, of s ?c] vrun_in_total [of s ?c v] c by blast
  note scan = scan_correct [OF b count]
  show ?thesis
  proof (cases "scan_dwords ?bm 0 (vmm_total_pages v) count scan_init")
    case (Found t)
    let ?s = "unat (scan_start t)"
    have ff: "free_run ?bm ?s ?c" "?s + ?c \<le> ?np" "\<forall>s < ?s. \<not> free_run ?bm s ?c"
      using scan Found by (auto simp: first_fit_def)
    have run: "{?s ..< ?s + ?c} \<subseteq> vfree v" using vfree_set [OF shape ff(2)] ff(1) by blast
    then have "vaddr v ?s \<noteq> 0" using c by (intro vaddr_nonzero [OF inv]) auto
    moreover have "vmm_find_contiguous_pages count v =
        Some (vaddr v ?s, v\<lparr>vmm_largest_run := scan_largest t\<rparr>)"
      using Found ptr count len words vmm_size_nonzero [OF shape]
      by (simp add: vmm_find_contiguous_pages_def vaddr_def Let_def)
    ultimately show ?thesis using run no ff(3) by auto
  next
    case (Continue t)
    then have "\<forall>s. \<not> {s ..< s + ?c} \<subseteq> vfree v" using scan no by auto
    then show ?thesis
      using Continue ptr count len words vmm_size_nonzero [OF shape]
      by (auto simp: vmm_find_contiguous_pages_def Let_def)
  qed
qed

lemma vmm_inv_take:
  assumes "vmm_inv v" and "vmm_shape w" and "R \<subseteq> vfree v" and "card R = unat c"
    and "vfree w = vfree v - R" and "vmm_free_pages w = vmm_free_pages v - c" and "vmm_base w = vmm_base v"
  shows "vmm_inv w"
proof -
  have "card R \<le> card (vfree v)" using assms(3) by (simp add: card_mono)
  moreover have "card (vfree w) = card (vfree v) - card R"
    using assms(3,5) by (simp add: card_Diff_subset finite_subset [OF assms(3)])
  ultimately show ?thesis using assms by (simp add: vmm_inv_def unat_sub_u32)
qed

lemma vmm_inv_give:
  assumes "vmm_inv v" and "vmm_shape w" and "R \<inter> vfree v = {}" and "finite R" and "card R = unat c"
    and "vfree w = vfree v \<union> R" and "vmm_free_pages w = vmm_free_pages v + c" and "vmm_base w = vmm_base v"
    and "vmm_base v = 0 \<Longrightarrow> 0 \<notin> R"
  shows "vmm_inv w"
proof -
  have card: "card (vfree w) = card (vfree v) + card R"
    using assms(3,4,6) by (simp add: card_Un_disjoint Int_commute)
  have "vfree w \<subseteq> {..< unat (vmm_total_pages w)}" by (auto simp: vfree_def)
  from card_mono [OF finite_lessThan this] have "card (vfree w) \<le> unat (vmm_total_pages w)" by simp
  then have "unat (vmm_free_pages v + c) = card (vfree v) + card R"
    using assms(1,5) card vmm_total_small [OF assms(2)]
    by (subst unat_add_u32) (simp_all add: vmm_inv_def)
  moreover have "vmm_base w = 0 \<Longrightarrow> 0 \<notin> vfree w"
    using assms(1,6,8,9) by (simp add: vmm_inv_def)
  ultimately show ?thesis using assms(2,7) card by (simp add: vmm_inv_def)
qed

text \<open>What stays the same of a manager.\<close>

definition same_range :: "vmm \<Rightarrow> vmm \<Rightarrow> bool" where
  "same_range v w \<longleftrightarrow> vmm_base w = vmm_base v \<and> vmm_end w = vmm_end v \<and>
     vmm_total_pages w = vmm_total_pages v"

lemma same_range_vaddr: "same_range v w \<Longrightarrow> vaddr w n = vaddr v n \<and> vpage w = vpage v"
  by (simp add: same_range_def vaddr_def vpage_def)

lemma vmm_reserve_step:
  assumes inv: "vmm_inv v" and count: "count \<noteq> 0"
  shows "\<exists>a w. vmm_reserve count v = Some (a, w) \<and> vmm_inv w \<and> same_range v w \<and>
    (if \<exists>s. {s ..< s + unat count} \<subseteq> vfree v
     then \<exists>s. a = vaddr v s \<and> a \<noteq> 0 \<and> {s ..< s + unat count} \<subseteq> vfree v \<and>
            (\<forall>s' < s. \<not> {s' ..< s' + unat count} \<subseteq> vfree v) \<and>
            vfree w = vfree v - {s ..< s + unat count} \<and> vmm_used_pages w = vmm_used_pages v + count
     else a = 0 \<and> vfree w = vfree v \<and> vmm_used_pages w = vmm_used_pages v)"
proof -
  let ?c = "unat count"
  have shape: "vmm_shape v" using inv by (simp add: vmm_inv_def)
  have c: "0 < ?c" using count by (simp add: unat_gt_0)
  show ?thesis
  proof (cases "vmm_free_pages v < count")
    case True
    have "\<not> {s ..< s + ?c} \<subseteq> vfree v" for s
      using True card_mono [OF finite_vfree, of "{s ..< s + ?c}" v] inv
      by (auto simp: vmm_inv_def word_less_nat_alt)
    then show ?thesis using True count inv by (auto simp: vmm_reserve_def same_range_def)
  next
    case False
    obtain start l where find: "vmm_find_contiguous_pages count v = Some (start, v\<lparr>vmm_largest_run := l\<rparr>)"
      "if \<exists>s. {s ..< s + ?c} \<subseteq> vfree v
       then \<exists>s. start = vaddr v s \<and> start \<noteq> 0 \<and> {s ..< s + ?c} \<subseteq> vfree v \<and>
            (\<forall>s' < s. \<not> {s' ..< s' + ?c} \<subseteq> vfree v)
       else start = 0"
      using vmm_find_run [OF inv count] by blast
    show ?thesis
    proof (cases "\<exists>s. {s ..< s + ?c} \<subseteq> vfree v")
      case none: False
      then show ?thesis
        using False count inv find by (simp add: vmm_reserve_def same_range_def)
    next
      case True
      then obtain s where s: "start = vaddr v s" "start \<noteq> 0" "{s ..< s + ?c} \<subseteq> vfree v"
          "\<forall>s' < s. \<not> {s' ..< s' + ?c} \<subseteq> vfree v"
        using find(2) by auto
      let ?v = "v\<lparr>vmm_largest_run := l\<rparr>"
      obtain bm where bm: "for_upto ?c (\<lambda>i. vmm_set (start + TO_ADDR i)) ?v = Some (?v\<lparr>vmm_bitmap := bm\<rparr>)"
          "vmm_shape (?v\<lparr>vmm_bitmap := bm\<rparr>)" "vfree (?v\<lparr>vmm_bitmap := bm\<rparr>) = vfree v - {s ..< s + ?c}"
        using vmm_set_run [of ?v s ?c] shape vrun_in_total [OF s(3) c] s(1) by auto
      let ?w = "?v\<lparr>vmm_bitmap := bm, vmm_free_pages := vmm_free_pages v - count,
                   vmm_used_pages := vmm_used_pages v + count\<rparr>"
      have w: "vfree ?w = vfree v - {s ..< s + ?c}" using bm(3) by (simp add: vfree_def)
      have "vmm_inv ?w"
        by (rule vmm_inv_take [OF inv _ s(3) _ w, of count]) (use bm(2) in \<open>simp_all add: vmm_shape_def\<close>)
      moreover have "vmm_reserve count v = Some (start, ?w)"
        using False count find(1) s(2) bm(1) by (simp add: vmm_reserve_def)
      ultimately show ?thesis
        using True s w by (auto simp: same_range_def)
    qed
  qed
qed

lemma vmm_unreserve_step:
  assumes inv: "vmm_inv v" and count: "count \<noteq> 0" and n: "n + unat count \<le> unat (vmm_total_pages v)"
    and taken: "{n ..< n + unat count} \<inter> vfree v = {}" and a: "vaddr v n \<noteq> 0"
  shows "\<exists>w. vmm_unreserve (vaddr v n) count v = Some w \<and> vmm_inv w \<and> same_range v w \<and>
    vfree w = vfree v \<union> {n ..< n + unat count} \<and> vmm_used_pages w = vmm_used_pages v - count"
proof -
  have shape: "vmm_shape v" using inv by (simp add: vmm_inv_def)
  have c: "0 < unat count" using count by (simp add: unat_gt_0)
  then have lt: "n < unat (vmm_total_pages v)" using n by simp
  obtain bm where bm: "for_upto (unat count) (\<lambda>i. vmm_clear (vaddr v n + TO_ADDR i)) v = Some (v\<lparr>vmm_bitmap := bm\<rparr>)"
      "vmm_shape (v\<lparr>vmm_bitmap := bm\<rparr>)" "vfree (v\<lparr>vmm_bitmap := bm\<rparr>) = vfree v \<union> {n ..< n + unat count}"
    using vmm_clear_run [OF shape n] by blast
  let ?w = "v\<lparr>vmm_bitmap := bm, vmm_free_pages := vmm_free_pages v + count,
              vmm_used_pages := vmm_used_pages v - count\<rparr>"
  have w: "vfree ?w = vfree v \<union> {n ..< n + unat count}" using bm(3) by (simp add: vfree_def)
  have zero: "0 \<notin> {n ..< n + unat count}" if "vmm_base v = 0"
    using that a by (auto simp: vaddr_def TO_ADDR_def)
  have "vmm_inv ?w"
    by (rule vmm_inv_give [OF inv _ taken _ _ w, of count])
      (use bm(2) zero in \<open>simp_all add: vmm_shape_def\<close>)
  moreover have "vmm_base v \<le> vaddr v n" "vaddr v n < vmm_end v"
    using unat_vaddr [OF shape lt] vmm_total(1) [OF shape] lt
    by (simp_all add: word_le_nat_alt word_less_nat_alt)
  then have "vmm_unreserve (vaddr v n) count v = Some ?w"
    using a count bm(1) vaddr_page(5) [OF shape lt]
    by (simp add: vmm_unreserve_def page_aligned_iff not_less not_le)
  ultimately show ?thesis using w by (auto simp: same_range_def)
qed

end
