(* ===== verification/Vmm_Correct.thy ===== *)
theory Vmm_Correct
  imports Vmm Pmm_Correct
begin

text \<open>
  What the virtual memory manager promises. \<^verbatim>\<open>vmm_init\<close> establishes the invariant, \<^verbatim>\<open>vmm_reserve\<close>
  takes the first run that fits and \<^verbatim>\<open>vmm_unreserve\<close> gives it back, \<^verbatim>\<open>vmm_alloc\<close> backs every page
  of the run with a frame of its own. Three theorems record what the code does where it fails:
  after an unsuccessful \<^verbatim>\<open>vmm_alloc\<close> the frames are back but part of the range stays reserved, an
  unsuccessful \<^verbatim>\<open>vmm_alloc_contiguous\<close> keeps the whole range, and \<^verbatim>\<open>vmm_free\<close> never gives a frame
  back, because it looks the frames up after it has unmapped the pages.
\<close>

section \<open>Backing a run\<close>

text \<open>
  The state inside \<^verbatim>\<open>vmm_alloc\<close>: the first pages of the run at page \<open>s\<close> are mapped to the frames
  \<open>fs\<close>, which were free at the start, and nothing else changed.
\<close>

definition backed :: "vmm \<Rightarrow> nat \<Rightarrow> pmm \<Rightarrow> paging \<Rightarrow> nat list \<Rightarrow> pmm \<Rightarrow> paging \<Rightarrow> bool" where
  "backed v s p0 g0 fs p g \<longleftrightarrow> pmm_inv p \<and> pmm_total_pages p = pmm_total_pages p0 \<and> pg_wf g \<and>
     distinct fs \<and> set fs \<subseteq> free_set p0 \<and> free_set p = free_set p0 - set fs \<and>
     (\<forall>k. pg_abs g k =
       (if vpage v + s \<le> k \<and> k < vpage v + s + length fs
        then Some (TO_ADDR (of_nat (fs ! (k - (vpage v + s))))) else pg_abs g0 k))"

lemma backed_Nil: "pmm_inv p \<Longrightarrow> pg_wf g \<Longrightarrow> backed v s p g [] p g"
  by (auto simp: backed_def)

lemma frame_entry: "page_aligned a \<Longrightarrow> (a + of_nat 0 * PAGE_SIZE) AND 0xFFFFF000 = a"
  by (simp add: frame_aligned)

lemma backed_snoc:
  assumes b: "backed v s p0 g0 fs p g" and shape: "vmm_shape v"
    and room: "s + length fs < unat (vmm_total_pages v)"
    and f: "f \<in> free_set p" and p': "pmm_inv p'" "pmm_total_pages p' = pmm_total_pages p" "free_set p' = free_set p - {f}"
  shows "backed v s p0 g0 (fs @ [f]) p' (pg_map (vaddr v (s + length fs)) (TO_ADDR (of_nat f)) PTE_RW 1 g)"
proof -
  let ?a = "vaddr v (s + length fs)"
  note page = vaddr_page(3) [OF shape room]
  have "unat ?a div 4096 + unat (1 :: u32) \<le> 0xFFC00" using page vmm_total(2) [OF shape] room by simp
  note map = pg_map_abs [of g, OF _ this, of "TO_ADDR (of_nat f)" PTE_RW]
  have "pg_wf g" using b by (simp add: backed_def)
  then have "pg_wf (pg_map ?a (TO_ADDR (of_nat f)) PTE_RW 1 g)"
    and "pg_abs (pg_map ?a (TO_ADDR (of_nat f)) PTE_RW 1 g) k =
      (if k = vpage v + s + length fs then Some (TO_ADDR (of_nat f)) else pg_abs g k)" for k
    using map page frame_entry [of "TO_ADDR (of_nat f)"] by (auto simp: less_Suc_eq_le add.assoc)
  then show ?thesis
    using b f p' by (auto simp: backed_def nth_append less_Suc_eq)
qed

lemma vmm_alloc_loop_enough:
  assumes "backed v s p0 g0 fs p g" and "vmm_shape v" and "s + n \<le> unat (vmm_total_pages v)"
    and "length fs \<le> n" and "n - length fs \<le> card (free_set p)"
  shows "\<exists>fs' p' g'. vmm_alloc_loop [length fs ..< n] (vaddr v s) (v, p, g) = Some (vaddr v s, v, p', g') \<and>
    length fs' = n \<and> backed v s p0 g0 fs' p' g'"
  using assms(1,4,5)
proof (induction "n - length fs" arbitrary: fs p g)
  case 0
  then show ?case by auto
next
  case (Suc k)
  then have lt: "length fs < n" and split: "[length fs ..< n] = length fs # [Suc (length fs) ..< n]"
    by (auto simp: upt_conv_Cons)
  have inv: "pmm_inv p" using Suc.prems(1) by (simp add: backed_def)
  have ne: "free_set p \<noteq> {}" using Suc.prems(3) lt by auto
  obtain f p' where p': "pmm_alloc 1 p = Some (TO_ADDR (of_nat f), p')" "pmm_inv p'"
      "pmm_total_pages p' = pmm_total_pages p" "f \<in> free_set p" "free_set p' = free_set p - {f}"
    using pmm_alloc_page [OF inv ne] by blast
  have a: "TO_ADDR (of_nat f) \<noteq> 0"
    using frames.frame_addr(3) [OF inv, of f] frames.bounds [OF inv] p'(4) by auto
  let ?g = "pg_map (vaddr v (s + length fs)) (TO_ADDR (of_nat f)) PTE_RW 1 g"
  have b: "backed v s p0 g0 (fs @ [f]) p' ?g"
    using lt assms(3) by (intro backed_snoc [OF Suc.prems(1) assms(2) _ p'(4,2,3,5)]) simp
  have "card (free_set p') = card (free_set p) - 1" using p'(4,5) by simp
  then have "n - length (fs @ [f]) \<le> card (free_set p')" "k = n - length (fs @ [f])"
    using Suc.prems(3) Suc.hyps(2) by simp_all
  then show ?case
    using Suc.hyps(1) [OF _ b] lt p'(1) a by (simp add: split vaddr_step)
qed

section \<open>Undoing it\<close>

lemma virt2phys_page:
  assumes "vmm_shape v" and "n < unat (vmm_total_pages v)" and "pg_abs g (vpage v + n) = Some (TO_ADDR f)"
  shows "pg_virt2phys (vaddr v n) g = TO_ADDR f"
proof -
  have "vaddr v n AND 0xFFF = 0"
    using vaddr_page(5) [OF assms(1,2)] by (simp add: page_aligned_iff PAGE_SIZE_def)
  then show ?thesis
    using assms(3) by (simp add: pg_virt2phys_abs [OF vaddr_page(4) [OF assms(1,2)]] vaddr_page(3) [OF assms(1,2)])
qed

lemma rollback_page_step:
  assumes shape: "vmm_shape v" and n: "n < unat (vmm_total_pages v)" and inv: "pmm_inv p" and wf: "pg_wf g"
    and f: "pg_abs g (vpage v + n) = Some (TO_ADDR (of_nat f))"
      "f < unat (pmm_total_pages p)" "f \<notin> free_set p" "f \<noteq> 0"
  shows "\<exists>bm p' g'. rollback_page (vaddr v n) (v, p, g) = Some (v\<lparr>vmm_bitmap := bm\<rparr>, p', g') \<and>
    vmm_shape (v\<lparr>vmm_bitmap := bm\<rparr>) \<and> vfree (v\<lparr>vmm_bitmap := bm\<rparr>) = insert n (vfree v) \<and>
    pmm_inv p' \<and> pmm_total_pages p' = pmm_total_pages p \<and> free_set p' = insert f (free_set p) \<and>
    pg_wf g' \<and> pg_abs g' = (pg_abs g)(vpage v + n := None)"
proof -
  have phys: "pg_virt2phys (vaddr v n) g = TO_ADDR (of_nat f)" by (rule virt2phys_page [OF shape n f(1)])
  have nz: "TO_ADDR (of_nat f) \<noteq> 0" using frames.frame_addr(3) [OF inv, of f] f(2,4) by simp
  obtain p' where p': "pmm_free (TO_ADDR (of_nat f)) 1 p = Some p'" "pmm_inv p'"
      "pmm_total_pages p' = pmm_total_pages p" "free_set p' = insert f (free_set p)"
    using pmm_free_frame [OF inv f(2,3,4)] by blast
  obtain bm where bm: "vmm_clear (vaddr v n) v = Some (v\<lparr>vmm_bitmap := bm\<rparr>)" "vmm_shape (v\<lparr>vmm_bitmap := bm\<rparr>)"
      "vfree (v\<lparr>vmm_bitmap := bm\<rparr>) = insert n (vfree v)"
    using vmm_clear_page [OF shape n] by blast
  have "unat (vaddr v n) div 4096 + unat (1 :: u32) \<le> 0xFFC00"
    using vaddr_page(3) [OF shape n] vmm_total(2) [OF shape] n by simp
  then have "pg_wf (pg_unmap (vaddr v n) 1 g)"
    and "pg_abs (pg_unmap (vaddr v n) 1 g) = (pg_abs g)(vpage v + n := None)"
    using pg_unmap_abs [OF wf, of "vaddr v n" 1] vaddr_page(3) [OF shape n]
    by (auto simp: fun_eq_iff less_Suc_eq_le)
  then show ?thesis using phys nz p' bm by (auto simp: rollback_page_def Let_def)
qed

text \<open>The pages of a run are no longer mapped.\<close>

definition unmapped :: "vmm \<Rightarrow> nat \<Rightarrow> nat \<Rightarrow> paging \<Rightarrow> paging \<Rightarrow> bool" where
  "unmapped v s c g g' \<longleftrightarrow> (\<forall>k. pg_abs g' k =
     (if vpage v + s \<le> k \<and> k < vpage v + s + c then None else pg_abs g k))"

lemma rollback_all:
  assumes b: "backed v s p0 g0 fs p g" and shape: "vmm_shape v"
    and room: "s + length fs \<le> unat (vmm_total_pages v)" and inv0: "pmm_inv p0"
  shows "\<exists>bm p' g'. rollback_allocations (vaddr v s) (of_nat (length fs)) (v, p, g) = Some (v\<lparr>vmm_bitmap := bm\<rparr>, p', g') \<and>
    vmm_shape (v\<lparr>vmm_bitmap := bm\<rparr>) \<and> vfree (v\<lparr>vmm_bitmap := bm\<rparr>) = vfree v \<union> {s ..< s + length fs} \<and>
    pmm_inv p' \<and> free_set p' = free_set p0 \<and> pg_wf g' \<and> unmapped v s (length fs) g0 g'"
proof -
  let ?P = "\<lambda>i st. \<exists>bm p' g'. st = (v\<lparr>vmm_bitmap := bm\<rparr>, p', g') \<and> vmm_shape (v\<lparr>vmm_bitmap := bm\<rparr>) \<and>
    vfree (v\<lparr>vmm_bitmap := bm\<rparr>) = vfree v \<union> {s ..< s + i} \<and> pmm_inv p' \<and>
    pmm_total_pages p' = pmm_total_pages p0 \<and> free_set p' = free_set p0 - set (drop i fs) \<and> pg_wf g' \<and>
    (\<forall>k. pg_abs g' k = (if vpage v + s \<le> k \<and> k < vpage v + s + i then None else pg_abs g k))"
  have len: "unat (of_nat (length fs) :: u32) = length fs"
    using room vmm_total_small [OF shape] by (intro unat_of_nat_u32) simp
  have "\<exists>st. for_upto (length fs) (\<lambda>i. rollback_page (vaddr v s + TO_ADDR i)) (v, p, g) = Some st \<and> ?P (length fs) st"
  proof (rule for_upto_rule)
    show "?P 0 (v, p, g)"
      using b shape by (intro exI [of _ "vmm_bitmap v"] exI [of _ p] exI [of _ g]) (auto simp: backed_def)
    fix i st assume i: "i < length fs" and "?P i st"
    then obtain bm p' g' where st: "st = (v\<lparr>vmm_bitmap := bm\<rparr>, p', g')" "vmm_shape (v\<lparr>vmm_bitmap := bm\<rparr>)"
        "vfree (v\<lparr>vmm_bitmap := bm\<rparr>) = vfree v \<union> {s ..< s + i}" "pmm_inv p'"
        "pmm_total_pages p' = pmm_total_pages p0" "free_set p' = free_set p0 - set (drop i fs)" "pg_wf g'"
        "\<forall>k. pg_abs g' k = (if vpage v + s \<le> k \<and> k < vpage v + s + i then None else pg_abs g k)"
      by blast
    let ?v = "v\<lparr>vmm_bitmap := bm\<rparr>"
    have fi: "fs ! i \<in> free_set p0" and dist: "distinct fs" using b i by (auto simp: backed_def)
    have drop: "drop i fs = fs ! i # drop (Suc i) fs" using i by (simp add: Cons_nth_drop_Suc)
    have fr: "fs ! i < unat (pmm_total_pages p')" "fs ! i \<notin> free_set p'" "fs ! i \<noteq> 0"
      using fi st(5,6) drop inv0 by (simp add: free_set_def, simp, metis pmm_inv_def)
    have "pg_abs g' (vpage ?v + (s + i)) = Some (TO_ADDR (of_nat (fs ! i)))"
      using st(8) b i by (simp add: backed_def vpage_def)
    from rollback_page_step [OF st(2) _ st(4,7) this fr] obtain bm' p2 g2 where
      r: "rollback_page (vaddr v (s + i)) st = Some (v\<lparr>vmm_bitmap := bm'\<rparr>, p2, g2)"
        "vmm_shape (v\<lparr>vmm_bitmap := bm'\<rparr>)" "vfree (v\<lparr>vmm_bitmap := bm'\<rparr>) = insert (s + i) (vfree ?v)"
        "pmm_inv p2" "pmm_total_pages p2 = pmm_total_pages p0" "free_set p2 = insert (fs ! i) (free_set p')"
        "pg_wf g2" "pg_abs g2 = (pg_abs g')(vpage v + (s + i) := None)"
      using i room st(1,5) by (auto simp: vpage_def)
    have "free_set p2 = free_set p0 - set (drop (Suc i) fs)"
      using r(6) st(6) drop fi distinct_drop [OF dist, of i] by auto
    moreover have "vfree (v\<lparr>vmm_bitmap := bm'\<rparr>) = vfree v \<union> {s ..< s + Suc i}"
      using r(3) st(3) by (auto simp: atLeastLessThanSuc)
    moreover have "\<forall>k. pg_abs g2 k = (if vpage v + s \<le> k \<and> k < vpage v + s + Suc i then None else pg_abs g k)"
      using r(8) st(8) by auto
    ultimately show "\<exists>st'. rollback_page (vaddr v s + TO_ADDR (of_nat i)) st = Some st' \<and> ?P (Suc i) st'"
      using r(1,2,4,5,7) unfolding vaddr_step by blast
  qed
  moreover have "pg_abs g k = pg_abs g0 k" if "\<not> (vpage v + s \<le> k \<and> k < vpage v + s + length fs)" for k
    using b that by (auto simp: backed_def)
  ultimately show ?thesis
    unfolding rollback_allocations_def len unmapped_def by fastforce
qed

lemma vmm_alloc_loop_short:
  assumes "backed v s p0 g0 fs p g" and "vmm_shape v" and "s + n \<le> unat (vmm_total_pages v)"
    and "length fs \<le> n" and "card (free_set p) < n - length fs" and "pmm_inv p0"
  shows "\<exists>bm p' g'. vmm_alloc_loop [length fs ..< n] (vaddr v s) (v, p, g) = Some (0, v\<lparr>vmm_bitmap := bm\<rparr>, p', g') \<and>
    vmm_shape (v\<lparr>vmm_bitmap := bm\<rparr>) \<and>
    vfree (v\<lparr>vmm_bitmap := bm\<rparr>) = vfree v \<union> {s ..< s + (length fs + card (free_set p))} \<and>
    pmm_inv p' \<and> free_set p' = free_set p0 \<and> pg_wf g' \<and> unmapped v s (length fs + card (free_set p)) g0 g'"
  using assms(1,4,5)
proof (induction "card (free_set p)" arbitrary: fs p g)
  case 0
  then have split: "[length fs ..< n] = length fs # [Suc (length fs) ..< n]"
    by (simp add: upt_conv_Cons)
  have inv: "pmm_inv p" and empty: "free_set p = {}" using 0 by (auto simp: backed_def)
  obtain p1 where p1: "pmm_alloc 1 p = Some (0, p1)" "pmm_inv p1" "pmm_total_pages p1 = pmm_total_pages p"
      "free_set p1 = {}"
    using pmm_alloc_no_page [OF inv empty] by blast
  have "backed v s p0 g0 fs p1 g" using 0(2) p1 empty by (simp add: backed_def)
  then show ?case
    using rollback_all [OF _ assms(2) _ assms(6), of s g0 fs p1 g] 0 assms(3) p1(1) empty
    by (auto simp: split)
next
  case (Suc k)
  then have lt: "length fs < n" and split: "[length fs ..< n] = length fs # [Suc (length fs) ..< n]"
    by (auto simp: upt_conv_Cons)
  have inv: "pmm_inv p" and ne: "free_set p \<noteq> {}" using Suc by (auto simp: backed_def)
  obtain f p' where p': "pmm_alloc 1 p = Some (TO_ADDR (of_nat f), p')" "pmm_inv p'"
      "pmm_total_pages p' = pmm_total_pages p" "f \<in> free_set p" "free_set p' = free_set p - {f}"
    using pmm_alloc_page [OF inv ne] by blast
  have a: "TO_ADDR (of_nat f) \<noteq> 0"
    using frames.frame_addr(3) [OF inv, of f] frames.bounds [OF inv] p'(4) by auto
  let ?g = "pg_map (vaddr v (s + length fs)) (TO_ADDR (of_nat f)) PTE_RW 1 g"
  have b: "backed v s p0 g0 (fs @ [f]) p' ?g"
    using lt assms(3) by (intro backed_snoc [OF Suc.prems(1) assms(2) _ p'(4,2,3,5)]) simp
  have c: "card (free_set p') = k" using p'(4,5) Suc.hyps(2) by simp
  with Suc.hyps(2) Suc.prems(3) have "card (free_set p') < n - length (fs @ [f])" by simp
  then show ?case
    using Suc.hyps(1) [OF c [symmetric] b] lt p'(1) a c
    by (simp add: split vaddr_step Suc.hyps(2) [symmetric])
qed

section \<open>Allocation and release\<close>

lemma vmm_alloc_ok:
  assumes v: "vmm_inv v" and p: "pmm_inv p" and g: "pg_wf g" and count: "count \<noteq> 0"
    and run: "\<exists>s. {s ..< s + unat count} \<subseteq> vfree v" and enough: "unat count \<le> card (free_set p)"
  shows "\<exists>s w p' g' fs. vmm_alloc count (v, p, g) = Some (vaddr v s, w, p', g') \<and> vaddr v s \<noteq> 0 \<and>
    vmm_inv w \<and> same_range v w \<and> {s ..< s + unat count} \<subseteq> vfree v \<and>
    vfree w = vfree v - {s ..< s + unat count} \<and> length fs = unat count \<and> backed v s p g fs p' g'"
proof -
  let ?c = "unat count"
  obtain s w where w: "vmm_reserve count v = Some (vaddr v s, w)" "vmm_inv w" "same_range v w" "vaddr v s \<noteq> 0"
      "{s ..< s + ?c} \<subseteq> vfree v" "vfree w = vfree v - {s ..< s + ?c}"
    using vmm_reserve_step [OF v count] run by auto
  have c: "0 < ?c" using count by (simp add: unat_gt_0)
  have room: "s + ?c \<le> unat (vmm_total_pages w)"
    using vrun_in_total [OF w(5) c] w(3) by (simp add: same_range_def)
  have shape: "vmm_shape w" using w(2) by (simp add: vmm_inv_def)
  obtain fs p' g' where l: "vmm_alloc_loop [0 ..< ?c] (vaddr w s) (w, p, g) = Some (vaddr w s, w, p', g')"
      "length fs = ?c" "backed w s p g fs p' g'"
    using vmm_alloc_loop_enough [OF backed_Nil [OF p g, of w s] shape room] enough by auto
  have "backed v s p g fs p' g'" using l(3) same_range_vaddr [OF w(3)] by (simp add: backed_def)
  then show ?thesis
    using w l same_range_vaddr [OF w(3)] by (auto simp: vmm_alloc_def)
qed

lemma vmm_alloc_no_frames:
  assumes v: "vmm_inv v" and p: "pmm_inv p" and g: "pg_wf g" and count: "count \<noteq> 0"
    and run: "\<exists>s. {s ..< s + unat count} \<subseteq> vfree v" and short: "card (free_set p) < unat count"
  shows "\<exists>s w p' g'. vmm_alloc count (v, p, g) = Some (0, w, p', g') \<and> {s ..< s + unat count} \<subseteq> vfree v \<and>
    vfree w = vfree v - {s + card (free_set p) ..< s + unat count} \<and>
    vmm_free_pages w = vmm_free_pages v - count \<and>
    pmm_inv p' \<and> free_set p' = free_set p \<and> pg_wf g' \<and> unmapped v s (card (free_set p)) g g'"
proof -
  let ?c = "unat count" and ?k = "card (free_set p)"
  obtain s w where w: "vmm_reserve count v = Some (vaddr v s, w)" "vmm_inv w" "same_range v w" "vaddr v s \<noteq> 0"
      "{s ..< s + ?c} \<subseteq> vfree v" "vfree w = vfree v - {s ..< s + ?c}"
    using vmm_reserve_step [OF v count] run by auto
  have c: "0 < ?c" using count by (simp add: unat_gt_0)
  have room: "s + ?c \<le> unat (vmm_total_pages w)"
    using vrun_in_total [OF w(5) c] w(3) by (simp add: same_range_def)
  have shape: "vmm_shape w" using w(2) by (simp add: vmm_inv_def)
  have "card (vfree w) = card (vfree v) - ?c" using w(5,6) by (simp add: card_Diff_subset)
  moreover have "?c \<le> card (vfree v)" using card_mono [OF finite_vfree w(5)] by simp
  ultimately have cnt: "vmm_free_pages w = vmm_free_pages v - count"
    using w(2) v by (simp add: vmm_inv_def word_unat_eq_iff unat_sub_u32)
  obtain bm p' g' where l: "vmm_alloc_loop [0 ..< ?c] (vaddr w s) (w, p, g) = Some (0, w\<lparr>vmm_bitmap := bm\<rparr>, p', g')"
      "vfree (w\<lparr>vmm_bitmap := bm\<rparr>) = vfree w \<union> {s ..< s + ?k}" "pmm_inv p'" "free_set p' = free_set p"
      "pg_wf g'" "unmapped w s ?k g g'"
    using vmm_alloc_loop_short [OF backed_Nil [OF p g, of w s] shape room _ _ p] short by auto
  have "vfree w \<union> {s ..< s + ?k} = vfree v - {s + ?k ..< s + ?c}"
    using w(5,6) short by (auto simp: subset_iff)
  moreover have "unmapped v s ?k g g'" using l(6) same_range_vaddr [OF w(3)] by (simp add: unmapped_def)
  ultimately show ?thesis
    using w l cnt same_range_vaddr [OF w(3)] by (auto simp: vmm_alloc_def)
qed

lemma vmm_alloc_contiguous_cases:
  assumes v: "vmm_inv v" and p: "pmm_inv p" and g: "pg_wf g" and count: "count \<noteq> 0"
    and run: "\<exists>s. {s ..< s + unat count} \<subseteq> vfree v"
  shows "\<exists>s w p' g' a. vmm_alloc_contiguous count (v, p, g) = Some (a, w, p', g') \<and>
    vmm_inv w \<and> same_range v w \<and> {s ..< s + unat count} \<subseteq> vfree v \<and>
    vfree w = vfree v - {s ..< s + unat count} \<and> pmm_inv p' \<and> pg_wf g' \<and>
    (if \<exists>f. {f ..< f + unat count} \<subseteq> free_set p
     then \<exists>f. a = vaddr v s \<and> a \<noteq> 0 \<and> {f ..< f + unat count} \<subseteq> free_set p \<and>
       free_set p' = free_set p - {f ..< f + unat count} \<and>
       (\<forall>i < unat count. pg_abs g' (vpage v + s + i) = Some (TO_ADDR (of_nat (f + i)))) \<and>
       (\<forall>k. \<not> (vpage v + s \<le> k \<and> k < vpage v + s + unat count) \<longrightarrow> pg_abs g' k = pg_abs g k)
     else a = 0 \<and> free_set p' = free_set p \<and> g' = g)"
proof -
  let ?c = "unat count"
  obtain s w where w: "vmm_reserve count v = Some (vaddr v s, w)" "vmm_inv w" "same_range v w" "vaddr v s \<noteq> 0"
      "{s ..< s + ?c} \<subseteq> vfree v" "vfree w = vfree v - {s ..< s + ?c}"
    using vmm_reserve_step [OF v count] run by auto
  obtain a p' where a: "pmm_alloc count p = Some (a, p')" "pmm_inv p'"
    "if \<exists>f. {f ..< f + ?c} \<subseteq> free_set p
     then a \<noteq> 0 \<and> page_aligned a \<and> {unat (TO_PAGE a) ..< unat (TO_PAGE a) + ?c} \<subseteq> free_set p \<and>
       free_set p' = free_set p - {unat (TO_PAGE a) ..< unat (TO_PAGE a) + ?c} \<and>
       pmm_used_pages p' = pmm_used_pages p + count
     else a = 0 \<and> free_set p' = free_set p \<and> pmm_used_pages p' = pmm_used_pages p"
    using pmm_alloc_step [OF p count] by blast
  show ?thesis
  proof (cases "\<exists>f. {f ..< f + ?c} \<subseteq> free_set p")
    case False
    then show ?thesis using w a g by (auto simp: vmm_alloc_contiguous_def)
  next
    case True
    let ?g = "pg_map (vaddr v s) a PTE_RW count g"
    have c: "0 < ?c" using count by (simp add: unat_gt_0)
    have shape: "vmm_shape v" and room: "s + ?c \<le> unat (vmm_total_pages v)"
      using v vrun_in_total [OF w(5) c] by (simp_all add: vmm_inv_def)
    have page: "unat (vaddr v s) div 4096 = vpage v + s" using vaddr_page(3) [OF shape, of s] room c by simp
    then have lim: "unat (vaddr v s) div 4096 + ?c \<le> 0xFFC00" using vmm_total(2) [OF shape] room by simp
    have al: "page_aligned a" using a(3) True by simp
    have entry: "(a + of_nat i * PAGE_SIZE) AND 0xFFFFF000 = TO_ADDR (of_nat (unat (TO_PAGE a) + i))" for i
    proof -
      have "TO_ADDR (of_nat (unat (TO_PAGE a) + i)) = a + of_nat i * PAGE_SIZE"
        using TO_ADDR_TO_PAGE [OF al] by (simp add: TO_ADDR_mult distrib_right)
      then show ?thesis using al by (simp add: frame_aligned page_aligned_add)
    qed
    have "pg_abs ?g (vpage v + s + i) = Some (TO_ADDR (of_nat (unat (TO_PAGE a) + i)))" if "i < ?c" for i
      using that pg_map_abs(2) [OF g lim, of a PTE_RW "vpage v + s + i"] page entry by simp
    moreover have "\<forall>k. \<not> (vpage v + s \<le> k \<and> k < vpage v + s + ?c) \<longrightarrow> pg_abs ?g k = pg_abs g k"
      using pg_map_abs(2) [OF g lim, of a PTE_RW] page by auto
    moreover have "pg_wf ?g" by (rule pg_map_abs(1) [OF g lim])
    moreover have "vmm_alloc_contiguous count (v, p, g) = Some (vaddr v s, w, p', ?g)"
      using w(1,4) a(1,3) True by (simp add: vmm_alloc_contiguous_def)
    ultimately show ?thesis
      using True w(2,3,4,5,6) a(2,3)
      by (intro exI [of _ s] exI [of _ w] exI [of _ p'] exI [of _ ?g] exI [of _ "vaddr v s"])
        (simp del: of_nat_add, intro exI [of _ "unat (TO_PAGE a)"], simp del: of_nat_add)
  qed
qed

text \<open>
  What a client sees of the two allocations, whatever the state of the memory: the pages are taken and each
  is mapped to a frame, which is not frame 0; no other page changes.
\<close>

definition mapped_run :: "nat \<Rightarrow> nat \<Rightarrow> paging \<Rightarrow> bool" where
  "mapped_run k c g \<longleftrightarrow> (\<forall>i < c. \<exists>x. pg_abs g (k + i) = Some x \<and> x \<noteq> 0)"

definition vmm_granted :: "u32 \<Rightarrow> u32 \<Rightarrow> mm \<Rightarrow> mm \<Rightarrow> bool" where
  "vmm_granted count a m m' = (case (m, m') of ((v, p, g), (v', p', g')) \<Rightarrow>
     \<exists>s. a = vaddr v s \<and> {s ..< s + unat count} \<subseteq> vfree v \<and> vfree v' = vfree v - {s ..< s + unat count} \<and>
       vmm_inv v' \<and> same_range v v' \<and> pmm_inv p' \<and> pg_wf g' \<and> mapped_run (vpage v + s) (unat count) g' \<and>
       (\<forall>k. \<not> (vpage v + s \<le> k \<and> k < vpage v + s + unat count) \<longrightarrow> pg_abs g' k = pg_abs g k))"

text \<open>Whether there is room for a run of pages in a run of frames, and what it costs.\<close>

definition run_room :: "nat \<Rightarrow> mm \<Rightarrow> bool" where
  "run_room c m = (case m of (v, p, g) \<Rightarrow> (\<exists>s. {s ..< s + c} \<subseteq> vfree v) \<and> (\<exists>f. {f ..< f + c} \<subseteq> free_set p))"

definition run_taken :: "nat \<Rightarrow> mm \<Rightarrow> mm \<Rightarrow> bool" where
  "run_taken c m m' = (case (m, m') of ((v, p, g), (v', p', g')) \<Rightarrow>
     (\<exists>s. vfree v' = vfree v - {s ..< s + c}) \<and> (\<exists>f. free_set p' = free_set p - {f ..< f + c}))"

text \<open>A run that remains when another run is taken out of one that is long enough.\<close>

lemma run_remains:
  assumes "{a ..< a + (2 * n + c)} \<subseteq> A"
  shows "\<exists>b. {b ..< b + n} \<subseteq> A - {x ..< x + c :: nat}"
proof (cases "a + n \<le> x")
  case True
  then have "{a ..< a + n} \<subseteq> A - {x ..< x + c}" using assms by (auto simp: subset_iff)
  then show ?thesis by blast
next
  case False
  then have "{a + n + c ..< a + n + c + n} \<subseteq> A - {x ..< x + c}" using assms by (auto simp: subset_iff)
  then show ?thesis by blast
qed

lemma run_room_taken: "\<lbrakk>run_room (2 * n + c) m; run_taken c m m'\<rbrakk> \<Longrightarrow> run_room n m'"
  unfolding run_room_def run_taken_def by (cases m, cases m') (simp, metis run_remains)

lemma run_less: "{s ..< s + n} \<subseteq> A \<Longrightarrow> k \<le> n \<Longrightarrow> {s ..< s + k :: nat} \<subseteq> A"
  by (auto simp: subset_iff)

lemma run_room_less: "run_room n m \<Longrightarrow> k \<le> n \<Longrightarrow> run_room k m"
  unfolding run_room_def by (cases m) (simp, metis run_less)

lemma frame_not_null:
  assumes "pmm_inv p" and "f \<in> free_set p"
  shows "TO_ADDR (of_nat f) \<noteq> (0 :: u32)"
  using frames.frame_addr(3) [OF assms(1), of f] frames.bounds [OF assms(1)] assms(2) by auto

text \<open>What an allocation that fails may cost: pages stay reserved, but nothing is mapped.\<close>

definition vmm_refused :: "mm \<Rightarrow> mm \<Rightarrow> bool" where
  "vmm_refused m m' = (case (m, m') of ((v, p, g), (v', p', g')) \<Rightarrow>
     vmm_inv v' \<and> same_range v v' \<and> vfree v' \<subseteq> vfree v \<and> pmm_inv p' \<and> g' = g)"

lemma vmm_reserve_none:
  assumes "vmm_inv v" and "count \<noteq> 0" and "\<not> (\<exists>s. {s ..< s + unat count} \<subseteq> vfree v)"
  shows "\<exists>w. vmm_reserve count v = Some (0, w) \<and> vmm_inv w \<and> same_range v w \<and> vfree w = vfree v"
  using vmm_reserve_step [OF assms(1,2)] assms(3) by auto

lemma vmm_alloc_total:
  assumes "vmm_inv v" and "pmm_inv p" and "pg_wf g" and "count \<noteq> 0"
  shows "\<exists>a m'. vmm_alloc count (v, p, g) = Some (a, m') \<and> (a \<noteq> 0 \<longrightarrow> vmm_granted count a (v, p, g) m')"
proof (cases "\<exists>s. {s ..< s + unat count} \<subseteq> vfree v")
  case False
  then show ?thesis using vmm_reserve_none [OF assms(1,4)] by (auto simp: vmm_alloc_def)
next
  case run: True
  show ?thesis
  proof (cases "unat count \<le> card (free_set p)")
    case True
    from vmm_alloc_ok [OF assms run True] obtain s w p' g' fs where
      r: "vmm_alloc count (v, p, g) = Some (vaddr v s, w, p', g')" "vmm_inv w" "same_range v w"
        "{s ..< s + unat count} \<subseteq> vfree v" "vfree w = vfree v - {s ..< s + unat count}" "length fs = unat count"
        "backed v s p g fs p' g'"
      by blast
    have "mapped_run (vpage v + s) (unat count) g'"
      using r(6,7) frame_not_null [OF assms(2)] unfolding mapped_run_def backed_def
      by (auto simp: subset_iff intro!: nth_mem)
    then have "vmm_granted count (vaddr v s) (v, p, g) (w, p', g')"
      using r unfolding vmm_granted_def backed_def by auto
    then show ?thesis using r(1) by blast
  next
    case False
    then have "card (free_set p) < unat count" by simp
    from vmm_alloc_no_frames [OF assms run this] show ?thesis by blast
  qed
qed

lemma vmm_alloc_contiguous_total:
  assumes "vmm_inv v" and "pmm_inv p" and "pg_wf g" and "count \<noteq> 0"
  shows "\<exists>a m'. vmm_alloc_contiguous count (v, p, g) = Some (a, m') \<and>
    (if a = 0 then \<not> run_room (unat count) (v, p, g) \<and> vmm_refused (v, p, g) m'
     else vmm_granted count a (v, p, g) m' \<and> run_taken (unat count) (v, p, g) m')"
proof (cases "\<exists>s. {s ..< s + unat count} \<subseteq> vfree v")
  case False
  obtain w where "vmm_reserve count v = Some (0, w)" "vmm_inv w" "same_range v w" "vfree w = vfree v"
    using vmm_reserve_none [OF assms(1,4) False] by blast
  then show ?thesis
    using assms(2) False by (auto simp: vmm_alloc_contiguous_def run_room_def vmm_refused_def)
next
  case True
  from vmm_alloc_contiguous_cases [OF assms True] obtain s w p' g' a where
    r: "vmm_alloc_contiguous count (v, p, g) = Some (a, w, p', g')" "vmm_inv w" "same_range v w"
      "{s ..< s + unat count} \<subseteq> vfree v" "vfree w = vfree v - {s ..< s + unat count}" "pmm_inv p'" "pg_wf g'"
    and c: "if \<exists>f. {f ..< f + unat count} \<subseteq> free_set p
     then \<exists>f. a = vaddr v s \<and> a \<noteq> 0 \<and> {f ..< f + unat count} \<subseteq> free_set p \<and>
       free_set p' = free_set p - {f ..< f + unat count} \<and>
       (\<forall>i < unat count. pg_abs g' (vpage v + s + i) = Some (TO_ADDR (of_nat (f + i)))) \<and>
       (\<forall>k. \<not> (vpage v + s \<le> k \<and> k < vpage v + s + unat count) \<longrightarrow> pg_abs g' k = pg_abs g k)
     else a = 0 \<and> free_set p' = free_set p \<and> g' = g"
    by blast
  show ?thesis
  proof (cases "\<exists>f. {f ..< f + unat count} \<subseteq> free_set p")
    case False
    then have "a = 0" "g' = g" using c by simp_all
    moreover have "vmm_refused (v, p, g) (w, p', g)" using r(2,3,5,6) by (auto simp: vmm_refused_def)
    ultimately show ?thesis using r(1) False by (auto simp: run_room_def)
  next
    case run: True
    then obtain f where f: "a = vaddr v s" "a \<noteq> 0" "{f ..< f + unat count} \<subseteq> free_set p"
        "free_set p' = free_set p - {f ..< f + unat count}"
        "\<forall>i < unat count. pg_abs g' (vpage v + s + i) = Some (TO_ADDR (of_nat (f + i)))"
        "\<forall>k. \<not> (vpage v + s \<le> k \<and> k < vpage v + s + unat count) \<longrightarrow> pg_abs g' k = pg_abs g k"
      using c by auto
    have "f + i \<in> free_set p" if "i < unat count" for i using f(3) that by auto
    then have "mapped_run (vpage v + s) (unat count) g'"
      using f(5) frame_not_null [OF assms(2)] unfolding mapped_run_def by blast
    then have "vmm_granted count a (v, p, g) (w, p', g')"
      unfolding vmm_granted_def prod.case using r(2-7) f(1,6) by blast
    moreover have "run_taken (unat count) (v, p, g) (w, p', g')" using r(5) f(4) by (auto simp: run_taken_def)
    ultimately show ?thesis using r(1) f(2) by auto
  qed
qed

text \<open>\<^verbatim>\<open>vmm_free\<close> looks for the frames behind pages that it has just unmapped.\<close>

lemma vmm_free_keeps_frames:
  assumes "pg_wf g" and "unat a div 4096 + unat count \<le> 0xFFC00" and "page_aligned a"
    and "vmm_unreserve a count v = Some w"
  shows "vmm_free a count (v, p, g) = Some (w, p, pg_unmap a count g)"
proof -
  let ?g = "pg_unmap a count g"
  have "free_frame ?g (a + TO_ADDR (of_nat i)) q = Some q" if i: "i < unat count" for i q
  proof -
    have n: "i < 1048576" using i assms(2) by simp
    then have add: "unat (a + TO_ADDR (of_nat i)) = unat a + i * 4096"
      using i assms(2) by (subst unat_add_u32) (auto simp: unat_TO_ADDR unat_of_nat_u32)
    then have "unat (a + TO_ADDR (of_nat i)) div 4096 = unat a div 4096 + i" by simp
    moreover from this have "a + TO_ADDR (of_nat i) < 0xFFC00000"
      using i assms(2) by (simp add: word_less_nat_alt div_less_iff_less_mult [symmetric])
    ultimately have "pg_virt2phys (a + TO_ADDR (of_nat i)) ?g = 0"
      using i by (simp add: pg_virt2phys_abs pg_unmap_abs [OF assms(1,2)])
    then show ?thesis by (simp add: free_frame_def)
  qed
  then have "for_upto n (\<lambda>i. free_frame ?g (a + TO_ADDR i)) p = Some p" if "n \<le> unat count" for n
    using that by (induction n) auto
  then show ?thesis using assms(4) by (simp add: vmm_free_def Let_def)
qed

section \<open>Marking and set-up\<close>

definition vmm_frame :: "bool \<times> vmm \<Rightarrow> u32 \<times> u32 \<times> u32 \<times> u32" where
  "vmm_frame rv = (case rv of (r, v) \<Rightarrow>
     (vmm_base v, vmm_end v, vmm_total_pages v, vmm_bitmap_ptr v))"

text \<open>
  What the marking loop is used under: the counter is the number of free pages. That page 0 is
  not free is not part of it, since \<^verbatim>\<open>vmm_init\<close> marks page 0 through this loop.
\<close>

definition vmm_counted :: "vmm \<Rightarrow> bool" where
  "vmm_counted v \<longleftrightarrow> vmm_shape v \<and> unat (vmm_free_pages v) = card (vfree v)"

definition vmark_ok :: "u32 \<Rightarrow> u32 \<times> u32 \<times> u32 \<times> u32 \<Rightarrow> bool" where
  "vmark_ok a fr = (case fr of (base, _, np, _) \<Rightarrow>
     page_aligned a \<and> base \<le> a \<and> unat (TO_PAGE (a - base)) < unat np)"

definition vmark_adds :: "u32 \<Rightarrow> u32 \<times> u32 \<times> u32 \<times> u32 \<Rightarrow> nat set" where
  "vmark_adds a fr = (case fr of (base, _) \<Rightarrow> {unat (TO_PAGE (a - base))})"

lemma vaddr_of_page:
  assumes "vmm_shape v" and "page_aligned a" and "vmm_base v \<le> a"
  shows "vaddr v (unat (TO_PAGE (a - vmm_base v))) = a"
proof -
  have "page_aligned (a - vmm_base v)" using assms by (simp add: page_aligned_diff vmm_shape_def)
  then show ?thesis by (simp add: vaddr_def TO_ADDR_TO_PAGE)
qed

lemma vmm_mark_used_page_step:
  assumes "vmm_counted v" and "vmark_ok a (vmm_frame (r, v))"
  shows "\<exists>r' v'. vmm_mark_used_page a (r, v) = Some (r', v') \<and> vmm_counted v' \<and>
    vfree v' = vfree v - vmark_adds a (vmm_frame (r, v)) \<and> vmm_frame (r', v') = vmm_frame (r, v) \<and>
    (r' \<longleftrightarrow> r \<and> unat (TO_PAGE (a - vmm_base v)) \<in> vfree v)"
proof -
  let ?n = "unat (TO_PAGE (a - vmm_base v))"
  have shape: "vmm_shape v" using assms(1) by (simp add: vmm_counted_def)
  have n: "?n < unat (vmm_total_pages v)" and a: "vaddr v ?n = a" and adds: "vmark_adds a (vmm_frame (r, v)) = {?n}"
    using assms(2) vaddr_of_page [OF shape, of a] by (auto simp: vmark_ok_def vmm_frame_def vmark_adds_def)
  obtain bm where bm: "vmm_set a v = Some (v\<lparr>vmm_bitmap := bm\<rparr>)" "vmm_shape (v\<lparr>vmm_bitmap := bm\<rparr>)"
      "vfree (v\<lparr>vmm_bitmap := bm\<rparr>) = vfree v - {?n}"
    using vmm_set_page [OF shape n] a by auto
  have test: "vmm_test a v = Some (?n \<notin> vfree v)" using vmm_test_page [OF shape n] a by simp
  show ?thesis
  proof (cases "?n \<in> vfree v")
    case False
    then show ?thesis
      using test assms(1) adds
      by (intro exI [of _ False] exI [of _ v]) (auto simp: vmm_mark_used_page_def vmm_frame_def)
  next
    case True
    let ?w = "v\<lparr>vmm_bitmap := bm, vmm_free_pages := vmm_free_pages v - 1, vmm_used_pages := vmm_used_pages v + 1\<rparr>"
    have w: "vfree ?w = vfree v - {?n}" using bm(3) by (simp add: vfree_def)
    have "vmm_free_pages v \<noteq> 0" using True assms(1) by (auto simp: vmm_counted_def)
    moreover have "vmm_shape ?w" using bm(2) by (simp add: vmm_shape_def)
    ultimately have "vmm_counted ?w"
      using assms(1) w True by (simp add: vmm_counted_def unat_minus_1)
    then show ?thesis
      using test True bm(1) w adds by (simp add: vmm_mark_used_page_def vmm_frame_def)
  qed
qed

interpretation vmark_used:
  marking vmm_mark_used_page "\<lambda>rv. vmm_counted (snd rv)" "\<lambda>rv. - vfree (snd rv)" vmm_frame vmark_ok vmark_adds
proof
  fix rv a assume c: "vmm_counted (snd rv)" and ok: "vmark_ok a (vmm_frame rv)"
  show "\<exists>rv'. vmm_mark_used_page a rv = Some rv' \<and> vmm_counted (snd rv') \<and>
      - vfree (snd rv') = - vfree (snd rv) \<union> vmark_adds a (vmm_frame rv) \<and> vmm_frame rv' = vmm_frame rv"
  proof (cases rv)
    case (Pair r v)
    with c ok have "vmm_counted v" "vmark_ok a (vmm_frame (r, v))" by simp_all
    from vmm_mark_used_page_step [OF this] obtain r' v' where
      "vmm_mark_used_page a rv = Some (r', v')" "vmm_counted v'"
      "vfree v' = vfree v - vmark_adds a (vmm_frame rv)" "vmm_frame (r', v') = vmm_frame rv"
      unfolding Pair by blast
    then show ?thesis using Pair by (intro exI [of _ "(r', v')"]) (simp add: Compl_Diff_eq Un_commute)
  qed
qed

lemma vmm_mark_free_page_step:
  assumes "vmm_counted v" and "vmark_ok a (vmm_frame (r, v))"
  shows "\<exists>r' v'. vmm_mark_free_page a (r, v) = Some (r', v') \<and> vmm_counted v' \<and>
    vfree v' = vfree v \<union> vmark_adds a (vmm_frame (r, v)) \<and> vmm_frame (r', v') = vmm_frame (r, v) \<and>
    (r' \<longleftrightarrow> r \<and> unat (TO_PAGE (a - vmm_base v)) \<notin> vfree v)"
proof -
  let ?n = "unat (TO_PAGE (a - vmm_base v))"
  have shape: "vmm_shape v" using assms(1) by (simp add: vmm_counted_def)
  have n: "?n < unat (vmm_total_pages v)" and a: "vaddr v ?n = a" and adds: "vmark_adds a (vmm_frame (r, v)) = {?n}"
    using assms(2) vaddr_of_page [OF shape, of a] by (auto simp: vmark_ok_def vmm_frame_def vmark_adds_def)
  obtain bm where bm: "vmm_clear a v = Some (v\<lparr>vmm_bitmap := bm\<rparr>)" "vmm_shape (v\<lparr>vmm_bitmap := bm\<rparr>)"
      "vfree (v\<lparr>vmm_bitmap := bm\<rparr>) = insert ?n (vfree v)"
    using vmm_clear_page [OF shape n] a by auto
  have test: "vmm_test a v = Some (?n \<notin> vfree v)" using vmm_test_page [OF shape n] a by simp
  show ?thesis
  proof (cases "?n \<in> vfree v")
    case True
    then show ?thesis
      using test assms(1) adds
      by (intro exI [of _ False] exI [of _ v]) (auto simp: vmm_mark_free_page_def vmm_frame_def)
  next
    case False
    let ?w = "v\<lparr>vmm_bitmap := bm, vmm_free_pages := vmm_free_pages v + 1, vmm_used_pages := vmm_used_pages v - 1\<rparr>"
    have w: "vfree ?w = insert ?n (vfree v)" using bm(3) by (simp add: vfree_def)
    have "vfree v \<subseteq> {..< unat (vmm_total_pages v)}" by (auto simp: vfree_def)
    from card_mono [OF finite_lessThan this] have "card (vfree v) \<le> 0xFFC00"
      using vmm_total_small [OF shape] by simp
    then have "unat (vmm_free_pages v + 1) = Suc (card (vfree v))"
      using assms(1) by (subst unat_add_u32) (simp_all add: vmm_counted_def)
    then have "vmm_counted ?w"
      using bm(2) w False by (simp add: vmm_counted_def vmm_shape_def)
    then show ?thesis
      using test False bm(1) w adds by (simp add: vmm_mark_free_page_def vmm_frame_def)
  qed
qed

interpretation vmark_free:
  marking vmm_mark_free_page "\<lambda>rv. vmm_counted (snd rv)" "\<lambda>rv. vfree (snd rv)" vmm_frame vmark_ok vmark_adds
proof
  fix rv a assume c: "vmm_counted (snd rv)" and ok: "vmark_ok a (vmm_frame rv)"
  show "\<exists>rv'. vmm_mark_free_page a rv = Some rv' \<and> vmm_counted (snd rv') \<and>
      vfree (snd rv') = vfree (snd rv) \<union> vmark_adds a (vmm_frame rv) \<and> vmm_frame rv' = vmm_frame rv"
  proof (cases rv)
    case (Pair r v)
    with c ok have "vmm_counted v" "vmark_ok a (vmm_frame (r, v))" by simp_all
    from vmm_mark_free_page_step [OF this] obtain r' v' where
      "vmm_mark_free_page a rv = Some (r', v')" "vmm_counted v'"
      "vfree v' = vfree v \<union> vmark_adds a (vmm_frame rv)" "vmm_frame (r', v') = vmm_frame rv"
      unfolding Pair by blast
    then show ?thesis using Pair by (intro exI [of _ "(r', v')"]) (simp add: Compl_Diff_eq Un_commute)
  qed
qed

text \<open>The pages of the range that an area touches, from the first page that starts inside it.\<close>

definition vpages :: "vmm \<Rightarrow> u32 \<Rightarrow> u32 \<Rightarrow> nat set" where
  "vpages v a b = {n. unat a \<le> unat (vaddr v n) \<and> unat (vaddr v n) < unat b \<and> n < unat (vmm_total_pages v)}"

lemma page_range_mem:
  assumes "page_aligned a" and "page_aligned b"
  shows "x \<in> set (page_range a b) \<longleftrightarrow> page_aligned x \<and> a \<le> x \<and> x < b"
proof
  assume "x \<in> set (page_range a b)"
  then obtain i where i: "x = TO_ADDR (of_nat i)" "unat a div 4096 \<le> i" "i < unat b div 4096"
    by (auto simp: set_page_range)
  moreover have "unat b div 4096 < 1048576" using TO_PAGE_bound [of b] by (simp add: unat_TO_PAGE)
  ultimately have "unat x = i * 4096" by (simp add: unat_TO_ADDR unat_of_nat_u32)
  then show "page_aligned x \<and> a \<le> x \<and> x < b"
    using i assms by (auto simp: word_le_nat_alt word_less_nat_alt page_aligned_def)
next
  assume x: "page_aligned x \<and> a \<le> x \<and> x < b"
  then have "x = TO_ADDR (of_nat (unat x div 4096))"
    using TO_ADDR_TO_PAGE [of x] by (simp add: unat_TO_PAGE [symmetric])
  moreover have "unat a div 4096 \<le> unat x div 4096"
    using x by (simp add: word_le_nat_alt div_le_mono)
  moreover have "unat x div 4096 < unat b div 4096"
    using x assms by (auto simp: word_less_nat_alt page_aligned_def)
  ultimately show "x \<in> set (page_range a b)"
    unfolding set_page_range by (metis atLeastLessThan_iff imageI)
qed

lemma vmm_range_pages:
  assumes shape: "vmm_shape v" and al: "page_aligned a" "page_aligned b"
    and ok: "vmm_base v \<le> a" "b \<le> vmm_end v"
  shows "\<forall>x \<in> set (page_range a b). vmark_ok x (vmm_frame (r, v))"
    and "(\<Union>x \<in> set (page_range a b). vmark_adds x (vmm_frame (r, v))) = vpages v a b"
proof -
  have page: "page_aligned x \<and> vmm_base v \<le> x \<and> unat (TO_PAGE (x - vmm_base v)) < unat (vmm_total_pages v)"
    if "x \<in> set (page_range a b)" for x
  proof -
    have x: "page_aligned x" "a \<le> x" "x < b" using that page_range_mem [OF al] by auto
    then have le: "vmm_base v \<le> x" and lt: "x < vmm_end v" using ok by auto
    then have "unat (x - vmm_base v) = unat x - unat (vmm_base v)" by (simp add: unat_sub_u32 word_le_nat_alt)
    moreover have "unat x - unat (vmm_base v) < unat (vmm_total_pages v) * 4096"
      using vmm_total(1) [OF shape] lt le by (simp add: word_less_nat_alt word_le_nat_alt)
    ultimately show ?thesis using x le by (simp add: unat_TO_PAGE div_less_iff_less_mult)
  qed
  then show "\<forall>x \<in> set (page_range a b). vmark_ok x (vmm_frame (r, v))"
    by (auto simp: vmark_ok_def vmm_frame_def)
  have "vmark_adds x (vmm_frame (r, v)) = {unat (TO_PAGE (x - vmm_base v))}" for x
    by (simp add: vmark_adds_def vmm_frame_def)
  moreover have "n \<in> (\<lambda>x. unat (TO_PAGE (x - vmm_base v))) ` set (page_range a b) \<longleftrightarrow> n \<in> vpages v a b" for n
  proof
    assume "n \<in> (\<lambda>x. unat (TO_PAGE (x - vmm_base v))) ` set (page_range a b)"
    then obtain x where x: "x \<in> set (page_range a b)" "n = unat (TO_PAGE (x - vmm_base v))" by auto
    then have "vaddr v n = x" using page [OF x(1)] vaddr_of_page [OF shape, of x] by simp
    then show "n \<in> vpages v a b"
      using x page [OF x(1)] page_range_mem [OF al, of x]
      by (simp add: vpages_def word_le_nat_alt word_less_nat_alt)
  next
    assume n: "n \<in> vpages v a b"
    then have "vaddr v n \<in> set (page_range a b)" and "unat (TO_PAGE (vaddr v n - vmm_base v)) = n"
      using vaddr_page [OF shape, of n] page_range_mem [OF al, of "vaddr v n"]
      by (auto simp: vpages_def word_le_nat_alt word_less_nat_alt)
    then show "n \<in> (\<lambda>x. unat (TO_PAGE (x - vmm_base v))) ` set (page_range a b)" by force
  qed
  ultimately show "(\<Union>x \<in> set (page_range a b). vmark_adds x (vmm_frame (r, v))) = vpages v a b"
    by (simp add: image_iff set_eq_iff)
qed

lemma ALIGN_up:
  assumes "unat a + 4095 < 4294967296"
  shows "unat (ALIGN a PAGE_SIZE) = (unat a + 4095) div 4096 * 4096" and "page_aligned (ALIGN a PAGE_SIZE)"
  using assms unfolding ALIGN_page by (simp_all add: to_nat PAGE_SIZE_def unat_add_u32)

lemma round_up_le:
  "x mod 4096 = 0 \<Longrightarrow> (a + 4095) div 4096 * 4096 \<le> x \<longleftrightarrow> a \<le> x" for a x :: nat
proof -
  assume "x mod 4096 = 0"
  then obtain k where x: "x = k * 4096" by (metis mod_0_imp_dvd dvd_def mult.commute)
  have "(a + 4095) div 4096 * 4096 \<le> x \<longleftrightarrow> (a + 4095) div 4096 < Suc k" by (simp add: x less_Suc_eq_le)
  also have "\<dots> \<longleftrightarrow> a + 4095 < Suc k * 4096" by (rule div_less_iff_less_mult) simp
  also have "\<dots> \<longleftrightarrow> a \<le> x" by (auto simp: x)
  finally show ?thesis .
qed

lemma vpages_ALIGN:
  assumes "vmm_shape v" and "unat a + 4095 < 4294967296" and "unat b + 4095 < 4294967296"
  shows "vpages v (ALIGN a PAGE_SIZE) (ALIGN b PAGE_SIZE) = vpages v a b"
proof -
  have "unat (vaddr v n) mod 4096 = 0" if "n < unat (vmm_total_pages v)" for n
    using vaddr_page(5) [OF assms(1) that] by (simp add: page_aligned_def)
  then show ?thesis
    using round_up_le [of "unat (vaddr v _)" "unat a"] round_up_le [of "unat (vaddr v _)" "unat b"]
    unfolding vpages_def ALIGN_up(1) [OF assms(2)] ALIGN_up(1) [OF assms(3)]
    by (metis (no_types, lifting) not_le)
qed

lemma vmm_mark_used_step:
  assumes v: "vmm_counted v" and base: "vmm_base v \<le> a" "a \<le> vmm_end v" and sz: "sz \<le> vmm_end v - a"
  shows "\<exists>r w. vmm_mark_used a sz v = Some (r, w) \<and> vmm_counted w \<and> same_range v w \<and>
    vfree w = vfree v - vpages v a (a + sz)"
proof -
  have shape: "vmm_shape v" using v by (simp add: vmm_counted_def)
  have e: "unat (vmm_end v) \<le> 0xFFC00000" and ea: "unat (vmm_end v) mod 4096 = 0"
    using shape by (simp_all add: vmm_shape_def KVIRT_END_def word_le_nat_alt page_aligned_def)
  have sum: "unat a + unat sz \<le> unat (vmm_end v)"
    using base(2) sz by (simp add: word_le_nat_alt unat_sub_u32)
  then have add: "unat (a + sz) = unat a + unat sz" using e by (intro unat_add_u32) simp
  have fit: "unat a + 4095 < 4294967296" "unat (a + sz) + 4095 < 4294967296" using sum add e by simp_all
  let ?a = "ALIGN a PAGE_SIZE" and ?b = "ALIGN (a + sz) PAGE_SIZE"
  have "vmm_base v \<le> ?a"
    using base(1) ALIGN_up(1) [OF fit(1)] round_up_le [of "(unat a + 4095) div 4096 * 4096" "unat a"]
    by (simp add: word_le_nat_alt)
  moreover have "?b \<le> vmm_end v"
    using round_up_le [OF ea, of "unat (a + sz)"] sum add ALIGN_up(1) [OF fit(2)] by (simp add: word_le_nat_alt)
  moreover note al = ALIGN_up(2) [OF fit(1)] ALIGN_up(2) [OF fit(2)]
  ultimately have pages: "\<forall>x \<in> set (page_range ?a ?b). vmark_ok x (vmm_frame (True, v))"
    "(\<Union>x \<in> set (page_range ?a ?b). vmark_adds x (vmm_frame (True, v))) = vpages v a (a + sz)"
    using vmm_range_pages [OF shape al] vpages_ALIGN [OF shape fit] by auto
  obtain rw where rw: "for_each (page_range ?a ?b) vmm_mark_used_page (True, v) = Some rw" "vmm_counted (snd rw)"
      "- vfree (snd rw) = - vfree v \<union> vpages v a (a + sz)" "vmm_frame rw = vmm_frame (True, v)"
    using vmark_used.steps [OF _ pages(1)] v unfolding pages(2) by auto
  obtain r w where "rw = (r, w)" by (cases rw)
  moreover have "vfree (snd rw) = vfree v - vpages v a (a + sz)" using rw(3) by blast
  ultimately show ?thesis
    using rw base sz by (auto simp: vmm_mark_used_def same_range_def vmm_frame_def)
qed

lemma used_zeros: "\<not> used (replicate k 0) n"
  by (simp add: used_def)

lemma vpages_zero:
  assumes "vmm_shape v" and "vmm_base v = 0"
  shows "vpages v 0 0x1000 = {0}"
proof -
  have pos: "0 < unat (vmm_total_pages v)"
    using vmm_total(1) [OF assms(1)] assms by (simp add: vmm_shape_def word_less_nat_alt)
  have "unat (vaddr v n) = n * 4096" if "n < unat (vmm_total_pages v)" for n
    using unat_vaddr [OF assms(1) that] assms(2) by simp
  with pos show ?thesis by (auto simp: vpages_def)
qed

lemma vmm_init_step:
  assumes al: "page_aligned base" "page_aligned lim" "base < lim" "lim \<le> KVIRT_END"
    and alloc: "alloc (CEIL_DIV (TO_PAGE (lim - base)) 32 * 4) s = Some (ptr, s')" "ptr \<noteq> 0"
  shows "\<exists>w. vmm_init base lim alloc v s = Some (w, s') \<and> vmm_inv w \<and> vmm_base w = base \<and> vmm_end w = lim \<and>
    vfree w = {..< unat (TO_PAGE (lim - base))} - (if base = 0 then {0} else {})"
proof -
  let ?np = "TO_PAGE (lim - base)"
  let ?v = "v\<lparr>vmm_base := base, vmm_end := lim, vmm_total_pages := ?np,
     vmm_bitmap_size := CEIL_DIV ?np 32 * 4, vmm_free_pages := ?np, vmm_usable_pages := ?np, vmm_used_pages := 0,
     vmm_bitmap_ptr := ptr, vmm_bitmap := replicate (unat (CEIL_DIV ?np 32 * 4) div 4) 0\<rparr>"
  have bytes: "unat (CEIL_DIV ?np 32 * 4) = 4 * ((unat ?np + 31) div 32)" by (simp add: bitmap_bytes)
  have shape: "vmm_shape ?v" using al alloc(2) by (simp add: vmm_shape_def bytes)
  have free: "vfree ?v = {..< unat ?np}" by (auto simp: vfree_def used_zeros)
  then have counted: "vmm_counted ?v" using shape by (simp add: vmm_counted_def)
  show ?thesis
  proof (cases "base = 0")
    case False
    then have "vmm_inv ?v" using counted by (simp add: vmm_inv_def vmm_counted_def)
    moreover have "vmm_init base lim alloc v s = Some (?v, s')"
      using False al alloc by (simp add: vmm_init_def page_aligned_iff Let_def)
    ultimately show ?thesis using False free by simp
  next
    case True
    have "0x1000 \<le> lim"
      using al(2,3) True by (auto simp: word_le_nat_alt word_less_nat_alt page_aligned_def)
    then have "\<exists>r w. vmm_mark_used 0 0x1000 ?v = Some (r, w) \<and> vmm_counted w \<and> same_range ?v w \<and>
        vfree w = vfree ?v - vpages ?v 0 0x1000"
      using vmm_mark_used_step [OF counted, of 0 "0x1000"] True by auto
    then obtain r w where w: "vmm_mark_used 0 0x1000 ?v = Some (r, w)" "vmm_counted w" "same_range ?v w"
        "vfree w = {..< unat ?np} - {0}"
      using vpages_zero [OF shape] True free by auto
    have "vmm_init base lim alloc v s = Some (w, s')"
      using True al alloc w(1) by (simp add: vmm_init_def page_aligned_iff Let_def)
    moreover have "vmm_inv w" using w by (auto simp: vmm_inv_def vmm_counted_def)
    ultimately show ?thesis using w True by (auto simp: same_range_def)
  qed
qed

section \<open>The properties\<close>

text \<open>A manager of the eight pages from \<^verbatim>\<open>0xC0000000\<close> with the first two reserved, for the witnesses.\<close>

definition eight_pages :: vmm where
  "eight_pages = \<lparr>vmm_bitmap_ptr = 0xC0200000, vmm_bitmap = [3], vmm_bitmap_size = 4, vmm_total_pages = 8,
     vmm_usable_pages = 8, vmm_free_pages = 6, vmm_used_pages = 2, vmm_largest_run = 0,
     vmm_base = 0xC0000000, vmm_end = 0xC0008000\<rparr>"

lemma vfree_exec: "vfree v = set (filter (\<lambda>n. \<not> used (vmm_bitmap v) n) [0 ..< unat (vmm_total_pages v)])"
  by (auto simp: vfree_def)

lemma eight_pages_inv: "vmm_inv eight_pages" and eight_pages_free: "vfree eight_pages = {2 ..< 8}"
proof -
  have "filter (\<lambda>n. \<not> used [3] n) [0 ..< 8] = [2 ..< 8]" by code_simp
  moreover have "vfree eight_pages = set (filter (\<lambda>n. \<not> used [3] n) [0 ..< 8])"
    unfolding vfree_exec by (simp only: eight_pages_def vmm.simps) simp
  ultimately show free: "vfree eight_pages = {2 ..< 8}" by (simp only: set_upt)
  have "vmm_shape eight_pages"
    by (simp add: vmm_shape_def eight_pages_def page_aligned_def KVIRT_END_def TO_PAGE_def)
  with free show "vmm_inv eight_pages" by (simp add: vmm_inv_def eight_pages_def)
qed

lemma eight_pages_run: "c \<le> 6 \<Longrightarrow> \<exists>s. {s ..< s + c} \<subseteq> vfree eight_pages"
  by (rule exI [of _ 2]) (auto simp: eight_pages_free)

text \<open>
  \<^verbatim>\<open>vmm_init\<close> on a page-aligned range below the page-table window, with a callback that has
  room for the bitmap, establishes the invariant, and every page of the range is free, except page
  0 when the range starts at address 0.
\<close>

theorem vmm_init_correct:
  assumes "page_aligned base" and "page_aligned lim" and "base < lim" and "lim \<le> KVIRT_END"
    and "alloc (CEIL_DIV (TO_PAGE (lim - base)) 32 * 4) s = Some (ptr, s')" and "ptr \<noteq> 0"
  shows "\<exists>w. vmm_init base lim alloc v s = Some (w, s') \<and> vmm_inv w \<and> vmm_base w = base \<and> vmm_end w = lim \<and>
    vfree w = {..< unat (TO_PAGE (lim - base))} - (if base = 0 then {0} else {})"
  using assms by (rule vmm_init_step)

theorem vmm_init_correct_witness:
  "\<exists>w. vmm_init 0 0x4000 (\<lambda>n s. Some (0xC0200000, n)) eight_pages 0 = Some (w, 4) \<and> vmm_inv w \<and>
     vfree w = {..< 4} - {0}"
  using vmm_init_correct [of 0 "0x4000" "\<lambda>n s. Some (0xC0200000, n)" 0 "0xC0200000" 4 eight_pages]
  by (auto simp: page_aligned_def KVIRT_END_def CEIL_DIV_def TO_PAGE_def)

text \<open>
  \<^verbatim>\<open>vmm_reserve\<close> returns the address of the first run of \<^verbatim>\<open>count\<close> free pages and reserves exactly
  that run, or returns \<^verbatim>\<open>NULL\<close> with no page reserved if there is no such run; the invariant holds
  afterwards, so the counter is again the number of free pages.
\<close>

theorem vmm_reserve_first_fit:
  assumes "vmm_inv v" and "count \<noteq> 0"
  shows "\<exists>a w. vmm_reserve count v = Some (a, w) \<and> vmm_inv w \<and>
    (if \<exists>s. {s ..< s + unat count} \<subseteq> vfree v
     then \<exists>s. a = vaddr v s \<and> a \<noteq> 0 \<and> {s ..< s + unat count} \<subseteq> vfree v \<and>
            (\<forall>s' < s. \<not> {s' ..< s' + unat count} \<subseteq> vfree v) \<and> vfree w = vfree v - {s ..< s + unat count}
     else a = 0 \<and> vfree w = vfree v)"
  using vmm_reserve_step [OF assms] by (auto split: if_splits)

theorem vmm_reserve_first_fit_witness:
  "\<exists>a w s. vmm_reserve 3 eight_pages = Some (a, w) \<and> a = vaddr eight_pages s \<and> {s ..< s + 3} \<subseteq> {2 ..< 8} \<and>
     vfree w = {2 ..< 8} - {s ..< s + 3}"
  using vmm_reserve_first_fit [OF eight_pages_inv, of 3] eight_pages_run [of 3]
  unfolding eight_pages_free by auto

text \<open>
  giving a reserved run back with \<^verbatim>\<open>vmm_unreserve\<close> undoes \<^verbatim>\<open>vmm_reserve\<close>: the free pages and both
  counters are as before and the invariant holds.
\<close>

theorem vmm_reserve_unreserve:
  assumes "vmm_inv v" and "count \<noteq> 0" and "\<exists>s. {s ..< s + unat count} \<subseteq> vfree v"
  shows "\<exists>a v1 v2. vmm_reserve count v = Some (a, v1) \<and> vmm_unreserve a count v1 = Some v2 \<and> vmm_inv v2 \<and>
    vfree v2 = vfree v \<and> vmm_free_pages v2 = vmm_free_pages v \<and> vmm_used_pages v2 = vmm_used_pages v"
proof -
  let ?c = "unat count"
  obtain s w where w: "vmm_reserve count v = Some (vaddr v s, w)" "vmm_inv w" "same_range v w" "vaddr v s \<noteq> 0"
      "{s ..< s + ?c} \<subseteq> vfree v" "vfree w = vfree v - {s ..< s + ?c}" "vmm_used_pages w = vmm_used_pages v + count"
    using vmm_reserve_step [OF assms(1,2)] assms(3) by auto
  have "s + ?c \<le> unat (vmm_total_pages w)"
    using vrun_in_total [OF w(5)] assms(2) w(3) by (simp add: same_range_def unat_gt_0)
  then obtain v2 where v2: "vmm_unreserve (vaddr v s) count w = Some v2" "vmm_inv v2"
      "vfree v2 = vfree w \<union> {s ..< s + ?c}" "vmm_used_pages v2 = vmm_used_pages w - count"
    using vmm_unreserve_step [OF w(2) assms(2), of s] w(4,6) same_range_vaddr [OF w(3)] by auto
  moreover have "vfree v2 = vfree v" using v2(3) w(5,6) by auto
  ultimately show ?thesis
    using w assms(1) by (auto simp: vmm_inv_def word_unat_eq_iff)
qed

theorem vmm_reserve_unreserve_witness:
  "\<exists>a v1 v2. vmm_reserve 4 eight_pages = Some (a, v1) \<and> vmm_unreserve a 4 v1 = Some v2 \<and> vfree v2 = {2 ..< 8}"
  using vmm_reserve_unreserve [OF eight_pages_inv, of 4] eight_pages_run [of 4]
  unfolding eight_pages_free by auto

text \<open>
  C4: with a free run of pages and enough free frames, \<^verbatim>\<open>vmm_alloc\<close> returns the address of such a
  run and maps its pages, one by one, to frames that were free, all different and now used; the
  translation of every page of the run is its frame, that of every other page is unchanged.
\<close>

theorem vmm_alloc_backs_run:
  assumes "vmm_inv v" and "pmm_inv p" and "pg_wf g" and "count \<noteq> 0"
    and "\<exists>s. {s ..< s + unat count} \<subseteq> vfree v" and "unat count \<le> card (free_set p)"
  shows "\<exists>s w p' g' fs. vmm_alloc count (v, p, g) = Some (vaddr v s, w, p', g') \<and> vaddr v s \<noteq> 0 \<and>
    vmm_inv w \<and> pmm_inv p' \<and> pg_wf g' \<and>
    {s ..< s + unat count} \<subseteq> vfree v \<and> vfree w = vfree v - {s ..< s + unat count} \<and>
    length fs = unat count \<and> distinct fs \<and> set fs \<subseteq> free_set p \<and> free_set p' = free_set p - set fs \<and>
    (\<forall>i < unat count. pg_virt2phys (vaddr v (s + i)) g' = TO_ADDR (of_nat (fs ! i))) \<and>
    (\<forall>k. k \<notin> {vpage v + s ..< vpage v + s + unat count} \<longrightarrow> pg_abs g' k = pg_abs g k)"
proof -
  obtain s w p' g' fs where r: "vmm_alloc count (v, p, g) = Some (vaddr v s, w, p', g')" "vaddr v s \<noteq> 0"
      "vmm_inv w" "{s ..< s + unat count} \<subseteq> vfree v" "vfree w = vfree v - {s ..< s + unat count}"
      "length fs = unat count" and b: "backed v s p g fs p' g'"
    using vmm_alloc_ok [OF assms] by blast
  have shape: "vmm_shape v" and room: "s + unat count \<le> unat (vmm_total_pages v)"
    using assms(1,4) vrun_in_total [OF r(4)] by (simp_all add: vmm_inv_def unat_gt_0)
  have "pg_virt2phys (vaddr v (s + i)) g' = TO_ADDR (of_nat (fs ! i))" if "i < unat count" for i
    using that room r(6) b by (intro virt2phys_page [OF shape]) (auto simp: backed_def add.assoc)
  with r b show ?thesis by (intro exI [of _ s] exI [of _ w] exI [of _ p'] exI [of _ g'] exI [of _ fs]) (auto simp: backed_def)
qed

theorem vmm_alloc_backs_run_witness:
  "\<exists>s w p' g'. vmm_alloc 3 (eight_pages, six_pages, pg_empty 0x300000) = Some (vaddr eight_pages s, w, p', g') \<and>
     vmm_inv w \<and> pmm_inv p' \<and> vfree w = {2 ..< 8} - {s ..< s + 3}"
proof -
  have "card (free_set six_pages) = 4" by (simp add: six_pages_free)
  then show ?thesis
    using vmm_alloc_backs_run [OF eight_pages_inv six_pages_inv pg_wf_empty, of 3 "0x300000"] eight_pages_run [of 3]
    unfolding eight_pages_free by auto
qed

text \<open>
  C13: when the frames run out in the middle of \<^verbatim>\<open>vmm_alloc\<close>, it returns \<^verbatim>\<open>NULL\<close>, every frame it took
  is free again and the pages it had mapped are unmapped. The pages it had not reached stay
  reserved, and \<^verbatim>\<open>free_pages\<close> keeps the deduction of the whole request.
\<close>

theorem vmm_alloc_out_of_frames:
  assumes "vmm_inv v" and "pmm_inv p" and "pg_wf g" and "count \<noteq> 0"
    and "\<exists>s. {s ..< s + unat count} \<subseteq> vfree v" and "card (free_set p) < unat count"
  shows "\<exists>s w p' g'. vmm_alloc count (v, p, g) = Some (0, w, p', g') \<and> {s ..< s + unat count} \<subseteq> vfree v \<and>
    vfree w = vfree v - {s + card (free_set p) ..< s + unat count} \<and>
    vmm_free_pages w = vmm_free_pages v - count \<and>
    pmm_inv p' \<and> free_set p' = free_set p \<and> pg_wf g' \<and> unmapped v s (card (free_set p)) g g'"
  by (rule vmm_alloc_no_frames [OF assms])

theorem vmm_alloc_out_of_frames_witness:
  "\<exists>w p' g'. vmm_alloc 5 (eight_pages, six_pages, pg_empty 0x300000) = Some (0, w, p', g') \<and>
     free_set p' = {1, 2, 3, 5} \<and> vmm_free_pages w = 1"
proof -
  have "card (free_set six_pages) = 4" by (simp add: six_pages_free)
  then show ?thesis
    using vmm_alloc_out_of_frames [OF eight_pages_inv six_pages_inv pg_wf_empty, of 5 "0x300000"] eight_pages_run [of 5]
    unfolding eight_pages_free six_pages_free by (auto simp: eight_pages_def)
qed

text \<open>
  \<^verbatim>\<open>vmm_alloc_contiguous\<close> with a free run of pages reserves it and maps it, in order, to a run
  of free frames if there is one, and maps nothing else. If there is none it returns \<^verbatim>\<open>NULL\<close> with frames and page tables
  unchanged, but the reserved pages are not given back.
\<close>

theorem vmm_alloc_contiguous_correct:
  assumes "vmm_inv v" and "pmm_inv p" and "pg_wf g" and "count \<noteq> 0"
    and "\<exists>s. {s ..< s + unat count} \<subseteq> vfree v"
  shows "\<exists>s w p' g' a. vmm_alloc_contiguous count (v, p, g) = Some (a, w, p', g') \<and>
    vmm_inv w \<and> same_range v w \<and> {s ..< s + unat count} \<subseteq> vfree v \<and>
    vfree w = vfree v - {s ..< s + unat count} \<and> pmm_inv p' \<and> pg_wf g' \<and>
    (if \<exists>f. {f ..< f + unat count} \<subseteq> free_set p
     then \<exists>f. a = vaddr v s \<and> a \<noteq> 0 \<and> {f ..< f + unat count} \<subseteq> free_set p \<and>
       free_set p' = free_set p - {f ..< f + unat count} \<and>
       (\<forall>i < unat count. pg_abs g' (vpage v + s + i) = Some (TO_ADDR (of_nat (f + i)))) \<and>
       (\<forall>k. \<not> (vpage v + s \<le> k \<and> k < vpage v + s + unat count) \<longrightarrow> pg_abs g' k = pg_abs g k)
     else a = 0 \<and> free_set p' = free_set p \<and> g' = g)"
  by (rule vmm_alloc_contiguous_cases [OF assms])

theorem vmm_alloc_contiguous_correct_witness:
  "\<exists>s w p' g' a. vmm_alloc_contiguous 4 (eight_pages, six_pages, pg_empty 0x300000) = Some (a, w, p', g') \<and>
     vfree w = {2 ..< 8} - {s ..< s + 4} \<and> pmm_inv p'"
  using vmm_alloc_contiguous_correct [OF eight_pages_inv six_pages_inv pg_wf_empty, of 4 "0x300000"] eight_pages_run [of 4]
  unfolding eight_pages_free by auto

text \<open>
  C15: \<^verbatim>\<open>vmm_free\<close> of a mapped range never gives a frame back: it unmaps the range first, and the
  loop that frees the frames then finds every page unmapped, so the physical memory manager is
  unchanged whatever was mapped there.
\<close>

theorem vmm_free_leaks_frames:
  assumes "pg_wf g" and "unat a div 4096 + unat count \<le> 0xFFC00" and "page_aligned a"
    and "vmm_unreserve a count v = Some w"
  shows "vmm_free a count (v, p, g) = Some (w, p, pg_unmap a count g)"
  by (rule vmm_free_keeps_frames [OF assms])

theorem vmm_free_leaks_frames_witness:
  "\<exists>w. vmm_free 0xC0000000 1 (eight_pages, six_pages, pg_map 0xC0000000 0x4000 PTE_RW 1 (pg_empty 0x300000)) =
    Some (w, six_pages, pg_unmap 0xC0000000 1 (pg_map 0xC0000000 0x4000 PTE_RW 1 (pg_empty 0x300000)))"
proof -
  have wf: "pg_wf (pg_map 0xC0000000 0x4000 PTE_RW 1 (pg_empty 0x300000))"
    by (rule pg_map_abs) (simp_all add: pg_wf_empty)
  have a: "vaddr eight_pages 0 = 0xC0000000" by (simp add: vaddr_def eight_pages_def TO_ADDR_def)
  have "0 + unat (1 :: u32) \<le> unat (vmm_total_pages eight_pages)" by (simp add: eight_pages_def)
  from vmm_unreserve_step [OF eight_pages_inv _ this] obtain w where
    "vmm_unreserve 0xC0000000 1 eight_pages = Some w"
    unfolding a by (auto simp: eight_pages_free)
  then show ?thesis
    using vmm_free_leaks_frames [OF wf, of "0xC0000000" 1 eight_pages w six_pages]
    by (auto simp: page_aligned_def)
qed

end
