(* ===== verification/Dll.thy ===== *)
theory Dll
  imports Tomk_Prelude
begin

text \<open>
  Doubly linked lists in a store. The kernel keeps its heap regions, the blocks of a region and its
  processes in lists with \<^verbatim>\<open>next\<close> and \<^verbatim>\<open>prev\<close> pointers and a head and a tail, and each of them has
  its own copy of the code that links and unlinks an element. This theory states what it means for
  such pointers to hold a list, and an interface (a locale) per operation: the law is the effect of
  the assignments on the four projections of the state, the lemma is the effect on the list. The
  components interpret the locales for their own functions.
\<close>

section \<open>Pointers that hold a list\<close>

definition first :: "'p list \<Rightarrow> 'p \<Rightarrow> 'p" where
  "first xs b = (if xs = [] then b else hd xs)"

definition final :: "'p \<Rightarrow> 'p list \<Rightarrow> 'p" where
  "final a xs = (if xs = [] then a else last xs)"

primrec links :: "('p \<Rightarrow> 'p) \<Rightarrow> ('p \<Rightarrow> 'p) \<Rightarrow> 'p \<Rightarrow> 'p list \<Rightarrow> 'p \<Rightarrow> bool" where
  "links n p a [] b \<longleftrightarrow> True"
| "links n p a (x # xs) b \<longleftrightarrow> p x = a \<and> n x = first xs b \<and> links n p x xs b"

definition dll :: "'p \<Rightarrow> ('p \<Rightarrow> 'p) \<Rightarrow> ('p \<Rightarrow> 'p) \<Rightarrow> 'p \<Rightarrow> 'p \<Rightarrow> 'p list \<Rightarrow> bool" where
  "dll null n p h t xs \<longleftrightarrow>
     null \<notin> set xs \<and> distinct xs \<and> links n p null xs null \<and> h = first xs null \<and> t = final null xs"

lemma first_simps [simp]:
  "first [] b = b" "first (x # xs) b = x" "first (xs @ ys) b = first xs (first ys b)"
  by (simp_all add: first_def)

lemma final_simps [simp]:
  "final a [] = a" "final a (x # xs) = final x xs" "final a (xs @ ys) = final (final a xs) ys"
  by (simp_all add: final_def)

lemma first_in: "first xs b \<noteq> b \<Longrightarrow> first xs b \<in> set xs"
  by (auto simp: first_def split: if_splits)

lemma final_in: "final a xs \<noteq> a \<Longrightarrow> final a xs \<in> set xs"
  by (auto simp: final_def split: if_splits)

lemma first_null_iff: "null \<notin> set xs \<Longrightarrow> first xs null = null \<longleftrightarrow> xs = []"
  by (cases xs) auto

lemma final_null_iff: "null \<notin> set xs \<Longrightarrow> final null xs = null \<longleftrightarrow> xs = []"
  by (auto simp: final_def dest: last_in_set)

lemma first_any: "xs \<noteq> [] \<Longrightarrow> first xs b = first xs c" and final_any: "xs \<noteq> [] \<Longrightarrow> final a xs = final c xs"
  by (simp_all add: first_def final_def)

lemma links_append [simp]:
  "links n p a (xs @ ys) b \<longleftrightarrow> links n p a xs (first ys b) \<and> links n p (final a xs) ys b"
  by (induction xs arbitrary: a) auto

lemma links_cong:
  "(\<And>x. x \<in> set xs \<Longrightarrow> n x = n' x \<and> p x = p' x) \<Longrightarrow> links n p a xs b \<longleftrightarrow> links n' p' a xs b"
  by (induction xs arbitrary: a) auto

lemma dll_cong:
  "(\<And>x. x \<in> set xs \<Longrightarrow> n x = n' x \<and> p x = p' x) \<Longrightarrow> dll null n p h t xs \<longleftrightarrow> dll null n' p' h t xs"
  unfolding dll_def using links_cong [of xs n n' p p'] by metis

text \<open>The two ends of a segment can be redirected.\<close>

lemma links_last:
  assumes "links n p a xs b" and "distinct xs"
    and "\<And>x. x \<in> set xs \<Longrightarrow> p' x = p x"
    and "\<And>x. x \<in> set xs \<Longrightarrow> n' x = (if x = last xs then b' else n x)"
  shows "links n' p' a xs b'"
  using assms
proof (induction xs arbitrary: a)
  case (Cons x xs)
  then show ?case by (cases xs) auto
qed simp

lemma links_first:
  assumes "links n p a xs b" and "distinct xs"
    and "\<And>x. x \<in> set xs \<Longrightarrow> n' x = n x"
    and "\<And>x. x \<in> set xs \<Longrightarrow> p' x = (if x = hd xs then a' else p x)"
  shows "links n' p' a' xs b"
proof (cases xs)
  case (Cons x ys)
  have "links n p x ys b" using assms(1) Cons by simp
  moreover have "links n p x ys b \<longleftrightarrow> links n' p' x ys b"
    using assms Cons by (intro links_cong) auto
  ultimately show ?thesis using assms Cons by simp
qed simp

section \<open>Operations\<close>

text \<open>
  A store with one list: its projections, and whether the owner of the list exists. An operation on
  a list whose owner is \<^verbatim>\<open>NULL\<close> does nothing, so the laws are about owners that exist.
\<close>

locale dll_store =
  fixes null :: 'p
    and owned :: bool
    and nxt prv :: "'s \<Rightarrow> 'p \<Rightarrow> 'p"
    and top bot :: "'s \<Rightarrow> 'p"

text \<open>Linking an element in behind the last one.\<close>

locale dll_append = dll_store +
  fixes append :: "'p \<Rightarrow> 's \<Rightarrow> 's"
  assumes append_nxt: "owned \<Longrightarrow> x \<noteq> null \<Longrightarrow> x \<noteq> bot s \<Longrightarrow>
      nxt (append x s) y = (if y = x then null else if y = bot s \<and> bot s \<noteq> null then x else nxt s y)"
    and append_prv: "owned \<Longrightarrow> x \<noteq> null \<Longrightarrow> x \<noteq> bot s \<Longrightarrow> prv (append x s) y = (if y = x then bot s else prv s y)"
    and append_ends: "owned \<Longrightarrow> x \<noteq> null \<Longrightarrow> x \<noteq> bot s \<Longrightarrow> top (append x s) = (if bot s = null then x else top s)"
      "owned \<Longrightarrow> x \<noteq> null \<Longrightarrow> x \<noteq> bot s \<Longrightarrow> bot (append x s) = x"
begin

lemma append_list:
  assumes own: owned and d: "dll null (nxt s) (prv s) (top s) (bot s) xs" and x: "x \<noteq> null" "x \<notin> set xs"
  shows "dll null (nxt (append x s)) (prv (append x s)) (top (append x s)) (bot (append x s)) (xs @ [x])"
proof -
  have bot: "bot s = final null xs" and nn: "null \<notin> set xs" using d by (simp_all add: dll_def)
  then have ne: "x \<noteq> bot s" using x final_in [of null xs] by (cases "final null xs = null") auto
  note laws = append_nxt [OF own x(1) ne] append_prv [OF own x(1) ne] append_ends(1,2) [OF own x(1) ne]
  have "links (nxt (append x s)) (prv (append x s)) null xs x"
  proof (rule links_last [where n = "nxt s" and p = "prv s" and b = null])
    show "links (nxt s) (prv s) null xs null" "distinct xs" using d by (simp_all add: dll_def)
    fix y assume y: "y \<in> set xs"
    then have "y \<noteq> x" "y \<noteq> null" "bot s = last xs" using x nn bot by (auto simp: final_def)
    then show "prv (append x s) y = prv s y" "nxt (append x s) y = (if y = last xs then x else nxt s y)"
      by (auto simp: laws)
  qed
  then show ?thesis
    using d x final_null_iff [OF nn] by (auto simp: dll_def laws intro: first_any)
qed

end

text \<open>Unlinking an element.\<close>

locale dll_remove = dll_store +
  fixes remove :: "'p \<Rightarrow> 's \<Rightarrow> 's"
  assumes remove_nxt: "owned \<Longrightarrow> x \<noteq> null \<Longrightarrow>
      nxt (remove x s) y = (if y = x then null else if y = prv s x \<and> y \<noteq> null then nxt s x else nxt s y)"
    and remove_prv: "owned \<Longrightarrow> x \<noteq> null \<Longrightarrow>
      prv (remove x s) y = (if y = x then null else if y = nxt s x \<and> y \<noteq> null then prv s x else prv s y)"
    and remove_ends: "owned \<Longrightarrow> x \<noteq> null \<Longrightarrow> top (remove x s) = (if prv s x = null then nxt s x else top s)"
      "owned \<Longrightarrow> x \<noteq> null \<Longrightarrow> bot (remove x s) = (if nxt s x = null then prv s x else bot s)"
begin

lemma remove_list:
  assumes own: owned and d: "dll null (nxt s) (prv s) (top s) (bot s) (us @ x # vs)"
  shows "dll null (nxt (remove x s)) (prv (remove x s)) (top (remove x s)) (bot (remove x s)) (us @ vs)"
proof -
  have x: "x \<noteq> null" and nn: "null \<notin> set us" "null \<notin> set vs" and dist: "distinct us" "distinct vs"
    and l: "links (nxt s) (prv s) null us x" "links (nxt s) (prv s) x vs null"
    and px: "prv s x = final null us" and nx: "nxt s x = first vs null"
    and sep: "x \<notin> set us" "x \<notin> set vs" "set us \<inter> set vs = {}"
    using d by (auto simp: dll_def)
  note laws = remove_nxt [OF own x] remove_prv [OF own x] remove_ends(1,2) [OF own x]
  have pus: "prv s x \<noteq> null \<Longrightarrow> prv s x \<in> set us" and nvs: "nxt s x \<noteq> null \<Longrightarrow> nxt s x \<in> set vs"
    using px nx final_in [of null us] first_in [of vs null] by auto
  have "links (nxt (remove x s)) (prv (remove x s)) null us (first vs null)"
  proof (rule links_last [OF l(1) dist(1)])
    fix y assume y: "y \<in> set us"
    then have "y \<noteq> x" "y \<notin> set vs" "y \<noteq> null" "final null us = last us" using sep nn by (auto simp: final_def)
    then show "prv (remove x s) y = prv s y" "nxt (remove x s) y = (if y = last us then first vs null else nxt s y)"
      using nvs px nx by (auto simp: laws)
  qed
  moreover have "links (nxt (remove x s)) (prv (remove x s)) (final null us) vs null"
  proof (rule links_first [OF l(2) dist(2)])
    fix y assume y: "y \<in> set vs"
    then have "y \<noteq> x" "y \<notin> set us" "y \<noteq> null" "first vs null = hd vs" using sep nn by (auto simp: first_def)
    then show "nxt (remove x s) y = nxt s y" "prv (remove x s) y = (if y = hd vs then final null us else prv s y)"
      using pus px nx by (auto simp: laws)
  qed
  ultimately show ?thesis
    using d px nx final_null_iff [OF nn(1)] first_null_iff [OF nn(2)]
    by (auto simp: dll_def laws intro: first_any final_any)
qed

lemma remove_out: "owned \<Longrightarrow> x \<noteq> null \<Longrightarrow> nxt (remove x s) x = null \<and> prv (remove x s) x = null"
  by (simp add: remove_nxt remove_prv)

end

text \<open>Linking an element \<open>z\<close> in behind an element \<open>x\<close>.\<close>

locale dll_insert = dll_store +
  fixes insert_after :: "'p \<Rightarrow> 'p \<Rightarrow> 's \<Rightarrow> 's"
  assumes insert_nxt: "owned \<Longrightarrow> x \<noteq> null \<Longrightarrow> z \<noteq> null \<Longrightarrow> x \<noteq> z \<Longrightarrow> nxt s x \<noteq> z \<Longrightarrow>
      nxt (insert_after x z s) y = (if y = x then z else if y = z then nxt s x else nxt s y)"
    and insert_prv: "owned \<Longrightarrow> x \<noteq> null \<Longrightarrow> z \<noteq> null \<Longrightarrow> x \<noteq> z \<Longrightarrow> nxt s x \<noteq> z \<Longrightarrow>
      prv (insert_after x z s) y = (if y = z then x else if y = nxt s x \<and> y \<noteq> null then z else prv s y)"
    and insert_ends: "owned \<Longrightarrow> x \<noteq> null \<Longrightarrow> z \<noteq> null \<Longrightarrow> x \<noteq> z \<Longrightarrow> nxt s x \<noteq> z \<Longrightarrow> top (insert_after x z s) = top s"
      "owned \<Longrightarrow> x \<noteq> null \<Longrightarrow> z \<noteq> null \<Longrightarrow> x \<noteq> z \<Longrightarrow> nxt s x \<noteq> z \<Longrightarrow>
        bot (insert_after x z s) = (if nxt s x = null then z else bot s)"
begin

lemma insert_list:
  assumes own: owned and d: "dll null (nxt s) (prv s) (top s) (bot s) (us @ x # vs)"
    and z: "z \<noteq> null" "z \<notin> set (us @ x # vs)"
  shows "dll null (nxt (insert_after x z s)) (prv (insert_after x z s)) (top (insert_after x z s))
           (bot (insert_after x z s)) (us @ x # z # vs)"
proof -
  have x: "x \<noteq> null" and nn: "null \<notin> set vs" and dist: "distinct us" "distinct vs"
    and l: "links (nxt s) (prv s) null us x" "links (nxt s) (prv s) x vs null"
    and px: "prv s x = final null us" and nx: "nxt s x = first vs null"
    and sep: "x \<notin> set us" "x \<notin> set vs" "set us \<inter> set vs = {}" "null \<notin> set us"
    using d by (auto simp: dll_def)
  have nvs: "nxt s x \<noteq> null \<Longrightarrow> nxt s x \<in> set vs" using nx first_in [of vs null] by auto
  then have nz: "nxt s x \<noteq> z" and xz: "x \<noteq> z" using z by auto
  note laws = insert_nxt [OF own x z(1) xz nz] insert_prv [OF own x z(1) xz nz] insert_ends(1,2) [OF own x z(1) xz nz]
  let ?n = "nxt (insert_after x z s)" and ?p = "prv (insert_after x z s)"
  have "links ?n ?p null us x"
  proof -
    have "?n y = nxt s y \<and> ?p y = prv s y" if "y \<in> set us" for y
    proof -
      have "y \<noteq> x" "y \<noteq> z" "y \<notin> set vs" "y \<noteq> null" using that sep z by auto
      then show ?thesis using nvs by (auto simp: laws)
    qed
    then show ?thesis using l(1) links_cong [of us "nxt s" ?n "prv s" ?p null x] by auto
  qed
  moreover have "links ?n ?p z vs null"
  proof (rule links_first [OF l(2) dist(2)])
    fix y assume y: "y \<in> set vs"
    then have "y \<noteq> x" "y \<noteq> z" "y \<noteq> null" "first vs null = hd vs" using sep nn z by (auto simp: first_def)
    then show "?n y = nxt s y" "?p y = (if y = hd vs then z else prv s y)"
      using nx by (auto simp: laws)
  qed
  moreover have "?p x = final null us"
  proof -
    have "nxt s x \<noteq> x" using nvs sep x by auto
    then show ?thesis using px xz by (auto simp: laws)
  qed
  ultimately show ?thesis
    using d z nx first_null_iff [OF nn] xz by (auto simp: dll_def laws intro: final_any)
qed

end

text \<open>A store with all the operations the process and region lists have.\<close>

locale dll_list = dll_append + dll_remove
begin

lemma append_remove:
  assumes owned and "dll null (nxt s) (prv s) (top s) (bot s) xs" and "x \<noteq> null" "x \<notin> set xs"
  shows "dll null (nxt (remove x (append x s))) (prv (remove x (append x s)))
    (top (remove x (append x s))) (bot (remove x (append x s))) xs"
  using remove_list [OF assms(1), of "append x s" xs x "[]"] append_list [OF assms] by simp

end

end
