(* ===== verification/Kheap.thy ===== *)
theory Kheap
  imports Vmm Dll
begin

text \<open>
  \<^verbatim>\<open>src/mm/kheap.c\<close> and \<^verbatim>\<open>src/mm/kmalloc.c\<close>: the kernel heap. The heap is a list of regions, each
  obtained from the virtual memory manager, and each region is divided into blocks by headers in
  the memory itself. The store maps the address of a header to its fields, one map for the block
  headers and one for the region headers; that headers do not overlap is part of the invariant
  (the blocks of a region tile it). Memory is read and written through pointers that the code has
  checked against \<^verbatim>\<open>NULL\<close>, so the maps are total.

  The loops that follow \<^verbatim>\<open>next\<close> pointers end on well-formed lists only, so they are partial. The
  pointer \<^verbatim>\<open>heap->vmm\<close> is represented by the manager in the state.
\<close>

section \<open>Data\<close>

record heap_block =
  hb_size :: u32
  hb_flags :: u32
  hb_next :: u32
  hb_prev :: u32

record heap_region =
  hr_size :: u32
  hr_flags :: u32
  hr_next :: u32
  hr_prev :: u32
  hr_head :: u32
  hr_tail :: u32

record heap =
  heap_head :: u32
  heap_tail :: u32
  heap_blocks :: "u32 \<Rightarrow> heap_block"
  heap_regions :: "u32 \<Rightarrow> heap_region"

definition GROW_PAGES :: u32 where
  "GROW_PAGES = 0x10"

definition BLOCK_FREE :: u32 where
  "BLOCK_FREE = 0x00"

definition BLOCK_USED :: u32 where
  "BLOCK_USED = 0x01"

definition REGION_NONCONTIGUOUS :: u32 where
  "REGION_NONCONTIGUOUS = 0x00"

definition REGION_CONTIGUOUS :: u32 where
  "REGION_CONTIGUOUS = 0x02"

definition BLOCK_ALIGNMENT :: u32 where
  "BLOCK_ALIGNMENT = 0x10"

definition MIN_BLOCK_SIZE :: u32 where
  "MIN_BLOCK_SIZE = 0x10"

text \<open>The structures have four and six 32-bit fields.\<close>

definition HEADER_SIZE :: u32 where
  "HEADER_SIZE = ALIGN 16 BLOCK_ALIGNMENT"

definition REGION_SIZE :: u32 where
  "REGION_SIZE = ALIGN 24 BLOCK_ALIGNMENT"

definition BLOCK_PTR :: "u32 \<Rightarrow> u32" where
  "BLOCK_PTR block = block + HEADER_SIZE"

definition REGION_BLOCK :: "u32 \<Rightarrow> u32" where
  "REGION_BLOCK region = region + REGION_SIZE"

text \<open>Assignments to fields of the structures behind a pointer.\<close>

definition upd_block :: "u32 \<Rightarrow> (heap_block \<Rightarrow> heap_block) \<Rightarrow> heap \<Rightarrow> heap" where
  "upd_block b f s = s\<lparr>heap_blocks := (heap_blocks s)(b := f (heap_blocks s b))\<rparr>"

definition upd_region :: "u32 \<Rightarrow> (heap_region \<Rightarrow> heap_region) \<Rightarrow> heap \<Rightarrow> heap" where
  "upd_region r f s = s\<lparr>heap_regions := (heap_regions s)(r := f (heap_regions s r))\<rparr>"

section \<open>Lists of regions and blocks\<close>

definition heap_init :: "heap \<Rightarrow> heap" where
  "heap_init s = s\<lparr>heap_head := 0, heap_tail := 0\<rparr>"

text \<open>The loops of \<^verbatim>\<open>heap_destroy\<close> only read.\<close>

definition heap_destroy :: "heap \<Rightarrow> heap" where
  "heap_destroy s = s\<lparr>heap_head := 0, heap_tail := 0\<rparr>"

definition region_append :: "u32 \<Rightarrow> heap \<Rightarrow> heap" where
  "region_append region s =
    (if region = 0 then s
     else
       let s = upd_region region (\<lambda>x. x\<lparr>hr_next := 0, hr_prev := heap_tail s\<rparr>) s;
           s = (if heap_tail s \<noteq> 0 then upd_region (heap_tail s) (\<lambda>x. x\<lparr>hr_next := region\<rparr>) s
                else s\<lparr>heap_head := region\<rparr>)
       in s\<lparr>heap_tail := region\<rparr>)"

definition region_remove :: "u32 \<Rightarrow> heap \<Rightarrow> heap" where
  "region_remove region s =
    (if region = 0 then s
     else
       let p = hr_prev (heap_regions s region);
           s = (if p \<noteq> 0 then upd_region p (\<lambda>x. x\<lparr>hr_next := hr_next (heap_regions s region)\<rparr>) s
                else s\<lparr>heap_head := hr_next (heap_regions s region)\<rparr>);
           n = hr_next (heap_regions s region);
           s = (if n \<noteq> 0 then upd_region n (\<lambda>x. x\<lparr>hr_prev := hr_prev (heap_regions s region)\<rparr>) s
                else s\<lparr>heap_tail := hr_prev (heap_regions s region)\<rparr>)
       in upd_region region (\<lambda>x. x\<lparr>hr_next := 0, hr_prev := 0\<rparr>) s)"

definition block_insert_after :: "u32 \<Rightarrow> u32 \<Rightarrow> u32 \<Rightarrow> heap \<Rightarrow> heap" where
  "block_insert_after region block nblock s =
    (if region = 0 \<or> block = 0 \<or> nblock = 0 then s
     else
       let s = upd_block nblock (\<lambda>x. x\<lparr>hb_prev := block, hb_next := hb_next (heap_blocks s block)\<rparr>) s;
           n = hb_next (heap_blocks s block);
           s = (if n \<noteq> 0 then upd_block n (\<lambda>x. x\<lparr>hb_prev := nblock\<rparr>) s
                else upd_region region (\<lambda>x. x\<lparr>hr_tail := nblock\<rparr>) s)
       in upd_block block (\<lambda>x. x\<lparr>hb_next := nblock\<rparr>) s)"

definition block_remove :: "u32 \<Rightarrow> u32 \<Rightarrow> heap \<Rightarrow> heap" where
  "block_remove region block s =
    (if region = 0 \<or> block = 0 then s
     else
       let p = hb_prev (heap_blocks s block);
           s = (if p \<noteq> 0 then upd_block p (\<lambda>x. x\<lparr>hb_next := hb_next (heap_blocks s block)\<rparr>) s
                else upd_region region (\<lambda>x. x\<lparr>hr_head := hb_next (heap_blocks s block)\<rparr>) s);
           n = hb_next (heap_blocks s block);
           s = (if n \<noteq> 0 then upd_block n (\<lambda>x. x\<lparr>hb_prev := hb_prev (heap_blocks s block)\<rparr>) s
                else upd_region region (\<lambda>x. x\<lparr>hr_tail := hb_prev (heap_blocks s block)\<rparr>) s)
       in upd_block block (\<lambda>x. x\<lparr>hb_next := 0, hb_prev := 0\<rparr>) s)"

section \<open>Blocks\<close>

definition block_used :: "heap_block \<Rightarrow> bool" where
  "block_used b \<longleftrightarrow> hb_flags b AND BLOCK_USED \<noteq> 0"

definition block_alloc :: "u32 \<Rightarrow> u32 \<Rightarrow> u32 \<Rightarrow> heap \<Rightarrow> bool \<times> heap" where
  "block_alloc region block sz s =
    (if region = 0 then (False, s)
     else if block = 0 then (False, s)
     else if hb_size (heap_blocks s block) < sz then (False, s)
     else
       let s = (if sz + HEADER_SIZE + MIN_BLOCK_SIZE \<le> hb_size (heap_blocks s block)
                then
                  let nblock = block + HEADER_SIZE + sz;
                      s = upd_block nblock (\<lambda>x. x\<lparr>hb_size := hb_size (heap_blocks s block) - HEADER_SIZE - sz,
                            hb_flags := BLOCK_FREE, hb_next := 0, hb_prev := 0\<rparr>) s;
                      s = block_insert_after region block nblock s
                  in upd_block block (\<lambda>x. x\<lparr>hb_size := sz\<rparr>) s
                else s)
       in (True, upd_block block (\<lambda>x. x\<lparr>hb_flags := hb_flags x OR BLOCK_USED\<rparr>) s))"

definition block_free :: "u32 \<Rightarrow> u32 \<Rightarrow> heap \<Rightarrow> heap" where
  "block_free region block s =
    (if region = 0 then s
     else if block = 0 then s
     else
       let nblock = hb_next (heap_blocks s block) in
       if nblock = 0 then s
       else if block_used (heap_blocks s nblock) then s
       else block_remove region nblock
              (upd_block block (\<lambda>x. x\<lparr>hb_size := hb_size x + (HEADER_SIZE + hb_size (heap_blocks s nblock))\<rparr>) s))"

text \<open>The two loops of \<^verbatim>\<open>block_find\<close> and of \<^verbatim>\<open>block_find_free\<close>; 0 stands for \<^verbatim>\<open>NULL\<close>.\<close>

partial_function (option) find_ptr_block :: "heap \<Rightarrow> u32 \<Rightarrow> u32 \<Rightarrow> u32 option" where
  "find_ptr_block s ptr block =
    (if block = 0 then Some 0
     else if BLOCK_PTR block = ptr then Some block
     else find_ptr_block s ptr (hb_next (heap_blocks s block)))"

partial_function (option) find_ptr_region :: "heap \<Rightarrow> u32 \<Rightarrow> u32 \<Rightarrow> (u32 \<times> u32) option" where
  "find_ptr_region s ptr region =
    (if region = 0 then Some (0, 0)
     else do {
       b \<leftarrow> find_ptr_block s ptr (hr_head (heap_regions s region));
       if b \<noteq> 0 then Some (b, region) else find_ptr_region s ptr (hr_next (heap_regions s region))
     })"

definition block_find :: "u32 \<Rightarrow> heap \<Rightarrow> (u32 \<times> u32) option" where
  "block_find ptr s = find_ptr_region s ptr (heap_head s)"

definition block_fits :: "heap \<Rightarrow> u32 \<Rightarrow> u32 \<Rightarrow> u32 \<Rightarrow> u32 \<Rightarrow> bool" where
  "block_fits s sz contiguous region block \<longleftrightarrow>
     \<not> block_used (heap_blocks s block) \<and> sz \<le> hb_size (heap_blocks s block) \<and>
     (contiguous \<noteq> 0) = (hr_flags (heap_regions s region) AND REGION_CONTIGUOUS \<noteq> 0)"

partial_function (option) find_free_block :: "heap \<Rightarrow> u32 \<Rightarrow> u32 \<Rightarrow> u32 \<Rightarrow> u32 \<Rightarrow> u32 option" where
  "find_free_block s sz contiguous region block =
    (if block = 0 then Some 0
     else if block_fits s sz contiguous region block then Some block
     else find_free_block s sz contiguous region (hb_next (heap_blocks s block)))"

partial_function (option) find_free_region :: "heap \<Rightarrow> u32 \<Rightarrow> u32 \<Rightarrow> u32 \<Rightarrow> (u32 \<times> u32) option" where
  "find_free_region s sz contiguous region =
    (if region = 0 then Some (0, 0)
     else do {
       b \<leftarrow> find_free_block s sz contiguous region (hr_head (heap_regions s region));
       if b \<noteq> 0 then Some (b, region) else find_free_region s sz contiguous (hr_next (heap_regions s region))
     })"

definition block_find_free :: "u32 \<Rightarrow> u32 \<Rightarrow> heap \<Rightarrow> (u32 \<times> u32) option" where
  "block_find_free sz contiguous s = find_free_region s sz contiguous (heap_head s)"

section \<open>Allocation and release\<close>

definition grow_pages :: "u32 \<Rightarrow> u32" where
  "grow_pages sz =
    (let pages = TO_PAGE (sz + REGION_SIZE + HEADER_SIZE + (PAGE_SIZE - 1)) in
     if pages < GROW_PAGES then GROW_PAGES else pages)"

definition heap_grow :: "u32 \<Rightarrow> u32 \<Rightarrow> heap \<times> mm \<Rightarrow> (u32 \<times> heap \<times> mm) option" where
  "heap_grow sz contiguous st = (case st of (s, m) \<Rightarrow>
    (let pages = grow_pages sz in do {
       (region, m) \<leftarrow> (if contiguous \<noteq> 0 then vmm_alloc_contiguous pages m else vmm_alloc pages m);
       if region = 0 then Some (0, s, m)
       else
         let s = upd_region region (\<lambda>x. x\<lparr>hr_flags :=
                   (if contiguous \<noteq> 0 then REGION_CONTIGUOUS else REGION_NONCONTIGUOUS)\<rparr>) s;
             block = REGION_BLOCK region;
             s = upd_block block (\<lambda>x. x\<lparr>hb_size := TO_ADDR pages - REGION_SIZE - HEADER_SIZE,
                   hb_flags := BLOCK_FREE, hb_next := 0, hb_prev := 0\<rparr>) s;
             s = upd_region region (\<lambda>x. x\<lparr>hr_size := TO_ADDR pages, hr_head := block, hr_tail := block,
                   hr_next := 0, hr_prev := 0\<rparr>) s
         in Some (region, s, m)
     }))"

definition heap_shrink :: "u32 \<Rightarrow> u32 \<Rightarrow> heap \<times> mm \<Rightarrow> (heap \<times> mm) option" where
  "heap_shrink region block st = (case st of (s, m) \<Rightarrow>
    (let s = block_free region block s;
         p = hb_prev (heap_blocks s block);
         (block, s) = (if p \<noteq> 0 \<and> \<not> block_used (heap_blocks s p) then (p, block_free region p s)
                       else (block, s));
         x = heap_regions s region
     in if hr_head x = hr_tail x \<and> hr_head x = block \<and> \<not> block_used (heap_blocks s block)
        then
          let s = region_remove region s in
          do { m \<leftarrow> vmm_free region (TO_PAGE (hr_size x)) m; Some (s, m) }
        else Some (s, m)))"

definition heap_alloc :: "u32 \<Rightarrow> u32 \<Rightarrow> heap \<times> mm \<Rightarrow> (u32 \<times> heap \<times> mm) option" where
  "heap_alloc sz contiguous st = (case st of (s, m) \<Rightarrow>
    (if sz = 0 then Some (0, s, m)
     else
       let sz = ALIGN sz BLOCK_ALIGNMENT in do {
       (block, region) \<leftarrow> block_find_free sz contiguous s;
       let (ok, s1) = (if block \<noteq> 0 then block_alloc region block sz s else (False, s)) in
       if ok then Some (BLOCK_PTR block, s1, m)
       else do {
         (region, s, m) \<leftarrow> heap_grow sz contiguous (s, m);
         if region = 0 then Some (0, s, m)
         else
           let s = region_append region s;
               block = hr_head (heap_regions s region);
               (ok, s) = block_alloc region block sz s
           in if ok then Some (BLOCK_PTR block, s, m) else Some (0, s, m)
       } }))"

definition heap_free :: "u32 \<Rightarrow> heap \<times> mm \<Rightarrow> (heap \<times> mm) option" where
  "heap_free ptr st = (case st of (s, m) \<Rightarrow>
    (if ptr = 0 then Some (s, m)
     else do {
       (block, region) \<leftarrow> block_find ptr s;
       if block = 0 then Some (s, m)
       else if \<not> block_used (heap_blocks s block) then Some (s, m)
       else heap_shrink region block
              (upd_block block (\<lambda>x. x\<lparr>hb_flags := hb_flags x AND NOT BLOCK_USED\<rparr>) s, m)
     }))"

definition heap_get_total :: "heap \<times> mm \<Rightarrow> u32" where
  "heap_get_total st = vmm_get_total (fst (snd st))"

definition heap_get_free :: "heap \<times> mm \<Rightarrow> u32" where
  "heap_get_free st = vmm_get_free (fst (snd st))"

definition heap_get_used :: "heap \<times> mm \<Rightarrow> u32" where
  "heap_get_used st = vmm_get_used (fst (snd st))"

definition heap_get_usable :: "heap \<times> mm \<Rightarrow> u32" where
  "heap_get_usable st = vmm_get_usable (fst (snd st))"

section \<open>The kernel's entry points\<close>

definition kmalloc :: "u32 \<Rightarrow> heap \<times> mm \<Rightarrow> (u32 \<times> heap \<times> mm) option" where
  "kmalloc sz = heap_alloc sz 1"

definition kfree :: "u32 \<Rightarrow> heap \<times> mm \<Rightarrow> (heap \<times> mm) option" where
  "kfree ptr = heap_free ptr"

definition vmalloc :: "u32 \<Rightarrow> heap \<times> mm \<Rightarrow> (u32 \<times> heap \<times> mm) option" where
  "vmalloc sz = heap_alloc sz 0"

definition vfree_ptr :: "u32 \<Rightarrow> heap \<times> mm \<Rightarrow> (heap \<times> mm) option" where
  "vfree_ptr ptr = heap_free ptr"

end
