(* ===== verification/Kheap_Correct.thy ===== *)
theory Kheap_Correct
  imports Kheap Vmm_Correct
begin

text \<open>
  The invariant of the kernel heap and what its operations do. The regions form a list and lie
  apart from one another; the blocks of a region form a list, tile the region from its header to
  its end, and no two free blocks are neighbours. The contents of a heap are read as a partial map
  from the pointers that are in use to the sizes of their blocks.
\<close>

lemma HEADER_16 [simp]: "HEADER_SIZE = 16" and REGION_32 [simp]: "REGION_SIZE = 32"
  by code_simp+

abbreviation "nxb s b \<equiv> hb_next (heap_blocks s b)"
abbreviation "pvb s b \<equiv> hb_prev (heap_blocks s b)"
abbreviation "szb s b \<equiv> hb_size (heap_blocks s b)"
abbreviation "usedb s b \<equiv> block_used (heap_blocks s b)"
abbreviation "nxr s r \<equiv> hr_next (heap_regions s r)"
abbreviation "pvr s r \<equiv> hr_prev (heap_regions s r)"

section \<open>The lists\<close>

lemma upd_block_simps [simp]:
  "heap_blocks (upd_block b f s) = (heap_blocks s)(b := f (heap_blocks s b))"
  "heap_regions (upd_block b f s) = heap_regions s"
  "heap_head (upd_block b f s) = heap_head s" "heap_tail (upd_block b f s) = heap_tail s"
  by (simp_all add: upd_block_def)

lemma upd_region_simps [simp]:
  "heap_regions (upd_region r f s) = (heap_regions s)(r := f (heap_regions s r))"
  "heap_blocks (upd_region r f s) = heap_blocks s"
  "heap_head (upd_region r f s) = heap_head s" "heap_tail (upd_region r f s) = heap_tail s"
  by (simp_all add: upd_region_def)

interpretation region_list: dll_list "0 :: u32" True nxr pvr heap_head heap_tail region_append region_remove
  by unfold_locales (auto simp: region_append_def region_remove_def Let_def)

interpretation block_list: dll_remove "0 :: u32" "r \<noteq> 0" nxb pvb "\<lambda>s. hr_head (heap_regions s r)"
    "\<lambda>s. hr_tail (heap_regions s r)" "block_remove r" for r
  by unfold_locales (auto simp: block_remove_def Let_def)

interpretation block_ins: dll_insert "0 :: u32" "r \<noteq> 0" nxb pvb "\<lambda>s. hr_head (heap_regions s r)"
    "\<lambda>s. hr_tail (heap_regions s r)" "block_insert_after r" for r
  by unfold_locales (auto simp: block_insert_after_def Let_def)

text \<open>What the list operations leave alone.\<close>

lemma block_insert_frame:
  "y \<noteq> x \<Longrightarrow> y \<noteq> z \<Longrightarrow> y \<noteq> nxb s x \<or> y = 0 \<Longrightarrow> heap_blocks (block_insert_after r x z s) y = heap_blocks s y"
  "r' \<noteq> r \<Longrightarrow> heap_regions (block_insert_after r x z s) r' = heap_regions s r'"
  "x \<noteq> z \<Longrightarrow> szb (block_insert_after r x z s) y = szb s y"
  "x \<noteq> z \<Longrightarrow> hb_flags (heap_blocks (block_insert_after r x z s) y) = hb_flags (heap_blocks s y)"
  "hr_size (heap_regions (block_insert_after r x z s) r') = hr_size (heap_regions s r')"
  "nxr (block_insert_after r x z s) r' = nxr s r'" "pvr (block_insert_after r x z s) r' = pvr s r'"
  "heap_head (block_insert_after r x z s) = heap_head s" "heap_tail (block_insert_after r x z s) = heap_tail s"
  "hr_flags (heap_regions (block_insert_after r x z s) r') = hr_flags (heap_regions s r')"
  by (auto simp: block_insert_after_def Let_def)

lemma block_remove_frame:
  "y \<noteq> x \<Longrightarrow> y \<noteq> nxb s x \<or> y = 0 \<Longrightarrow> y \<noteq> pvb s x \<or> y = 0 \<Longrightarrow> heap_blocks (block_remove r x s) y = heap_blocks s y"
  "r' \<noteq> r \<Longrightarrow> heap_regions (block_remove r x s) r' = heap_regions s r'"
  "szb (block_remove r x s) y = szb s y"
  "hb_flags (heap_blocks (block_remove r x s) y) = hb_flags (heap_blocks s y)"
  "hr_size (heap_regions (block_remove r x s) r') = hr_size (heap_regions s r')"
  "nxr (block_remove r x s) r' = nxr s r'" "pvr (block_remove r x s) r' = pvr s r'"
  "heap_head (block_remove r x s) = heap_head s" "heap_tail (block_remove r x s) = heap_tail s"
  "hr_flags (heap_regions (block_remove r x s) r') = hr_flags (heap_regions s r')"
  by (auto simp: block_remove_def Let_def)

lemma region_append_frame:
  "heap_blocks (region_append r s) = heap_blocks s"
  "hr_size (heap_regions (region_append r s) r') = hr_size (heap_regions s r')"
  "hr_head (heap_regions (region_append r s) r') = hr_head (heap_regions s r')"
  "hr_tail (heap_regions (region_append r s) r') = hr_tail (heap_regions s r')"
  "hr_flags (heap_regions (region_append r s) r') = hr_flags (heap_regions s r')"
  by (auto simp: region_append_def Let_def)

lemma region_remove_frame:
  "heap_blocks (region_remove r s) = heap_blocks s"
  "hr_size (heap_regions (region_remove r s) r') = hr_size (heap_regions s r')"
  "hr_head (heap_regions (region_remove r s) r') = hr_head (heap_regions s r')"
  "hr_tail (heap_regions (region_remove r s) r') = hr_tail (heap_regions s r')"
  "hr_flags (heap_regions (region_remove r s) r') = hr_flags (heap_regions s r')"
  by (auto simp: region_remove_def Let_def)

section \<open>Tiling\<close>

primrec tile :: "(u32 \<Rightarrow> u32) \<Rightarrow> nat \<Rightarrow> u32 list \<Rightarrow> nat \<Rightarrow> bool" where
  "tile sz a [] e \<longleftrightarrow> a = e"
| "tile sz a (b # bs) e \<longleftrightarrow> unat b = a \<and> 16 dvd unat (sz b) \<and> tile sz (a + 16 + unat (sz b)) bs e"

lemma tile_append: "tile sz a (xs @ ys) e \<longleftrightarrow> (\<exists>m. tile sz a xs m \<and> tile sz m ys e)"
  by (induction xs arbitrary: a) auto

lemma tile_cong: "(\<And>b. b \<in> set bs \<Longrightarrow> sz b = sz' b) \<Longrightarrow> tile sz a bs e \<longleftrightarrow> tile sz' a bs e"
  by (induction bs arbitrary: a) auto

lemma tile_upd [simp]: "b \<notin> set bs \<Longrightarrow> tile (sz(b := k)) a bs e \<longleftrightarrow> tile sz a bs e"
  by (rule tile_cong) auto

lemma tile_le: "tile sz a bs e \<Longrightarrow> a \<le> e"
  by (induction bs arbitrary: a) fastforce+

lemma tile_bounds:
  "tile sz a bs e \<Longrightarrow> b \<in> set bs \<Longrightarrow> a \<le> unat b \<and> unat b + 16 + unat (sz b) \<le> e"
  by (induction bs arbitrary: a) (fastforce dest: tile_le)+

lemma tile_distinct: "tile sz a bs e \<Longrightarrow> distinct bs"
proof (induction bs arbitrary: a)
  case (Cons b bs)
  then have "a + 16 + unat (sz b) \<le> unat c" if "c \<in> set bs" for c using tile_bounds that by auto
  then have "b \<notin> set bs" using Cons.prems by fastforce
  with Cons show ?case by auto
qed simp

text \<open>Two blocks of a tiling do not overlap.\<close>

lemma tile_disjoint:
  assumes "tile sz a bs e" and "b \<in> set bs" and "c \<in> set bs" and "b \<noteq> c"
  shows "unat b + 16 + unat (sz b) \<le> unat c \<or> unat c + 16 + unat (sz c) \<le> unat b"
  using assms
proof (induction bs arbitrary: a)
  case (Cons x bs)
  then have "a + 16 + unat (sz x) \<le> unat y" if "y \<in> set bs" for y using tile_bounds that by auto
  with Cons show ?case by auto
qed simp

text \<open>Splitting a block, and merging it with the following one.\<close>

lemma tile_split:
  assumes "tile sz a (us @ b # vs) e" and "e < 4294967296" and "unat k + 16 \<le> unat (sz b)" and "16 dvd unat k"
    and n: "n = b + 16 + k"
  shows "tile (sz(b := k, n := sz b - 16 - k)) a (us @ b # n # vs) e"
    and "unat n = unat b + 16 + unat k" and "n \<notin> set (us @ b # vs)"
proof -
  obtain m where m: "tile sz a us m" "unat b = m" "16 dvd unat (sz b)" "tile sz (m + 16 + unat (sz b)) vs e"
    using assms(1) by (auto simp: tile_append)
  have le: "unat b + 16 + unat (sz b) \<le> e" using tile_bounds [OF assms(1), of b] by simp
  have b16: "unat (b + 16) = unat b + 16" using le assms(2) by (subst unat_add_u32) simp_all
  then show un: "unat n = unat b + 16 + unat k"
    using le assms(2,3) unfolding n by (subst unat_add_u32) simp_all
  have s16: "unat (sz b - 16) = unat (sz b) - 16" using assms(3) by (subst unat_sub_u32) simp_all
  then have sn: "unat (sz b - 16 - k) = unat (sz b) - 16 - unat k"
    using assms(3) by (subst unat_sub_u32) simp_all
  have out: "\<not> (unat b < unat y \<and> unat y < unat b + 16 + unat (sz b))" if "y \<in> set (us @ b # vs)" for y
    using that tile_disjoint [OF assms(1) that, of b] by fastforce
  show nin: "n \<notin> set (us @ b # vs)" using out [of n] un assms(3) by fastforce
  have "b \<notin> set us" "b \<notin> set vs" using tile_distinct [OF assms(1)] by auto
  then have "tile (sz(b := k, n := sz b - 16 - k)) a us m"
    and "tile (sz(b := k, n := sz b - 16 - k)) (m + 16 + unat (sz b)) vs e"
    using m(1,4) nin by simp_all
  moreover have "16 dvd unat (sz b) - 16 - unat k" using m(3) assms(4) by simp
  moreover have "b \<noteq> n" using nin by auto
  ultimately show "tile (sz(b := k, n := sz b - 16 - k)) a (us @ b # n # vs) e"
    using m(2) un sn assms(3,4) by (auto simp: tile_append ac_simps)
qed

lemma tile_merge:
  assumes "tile sz a (us @ b # n # vs) e" and "e < 4294967296"
  shows "tile (sz(b := sz b + (16 + sz n))) a (us @ b # vs) e"
    and "unat (sz b + (16 + sz n)) = unat (sz b) + 16 + unat (sz n)"
proof -
  obtain m where m: "tile sz a us m" "unat b = m" "16 dvd unat (sz b)" "unat n = m + 16 + unat (sz b)"
      "16 dvd unat (sz n)" "tile sz (m + 16 + unat (sz b) + 16 + unat (sz n)) vs e"
    using assms(1) by (auto simp: tile_append)
  have le: "unat n + 16 + unat (sz n) \<le> e" using tile_bounds [OF assms(1), of n] by simp
  have "unat (16 + sz n) = 16 + unat (sz n)" using le assms(2) by (subst unat_add_u32) simp_all
  then show sum: "unat (sz b + (16 + sz n)) = unat (sz b) + 16 + unat (sz n)"
    using le assms(2) m(4) by (subst unat_add_u32) simp_all
  have "b \<notin> set us" "b \<notin> set vs" using tile_distinct [OF assms(1)] by auto
  then have "tile (sz(b := sz b + (16 + sz n))) a us m"
    and "tile (sz(b := sz b + (16 + sz n))) (m + 16 + unat (sz b) + 16 + unat (sz n)) vs e"
    using m(1,6) by simp_all
  then show "tile (sz(b := sz b + (16 + sz n))) a (us @ b # vs) e"
    using m sum by (auto simp: tile_append add.assoc)
qed

section \<open>The invariant\<close>

fun coalesced :: "('p \<Rightarrow> bool) \<Rightarrow> 'p list \<Rightarrow> bool" where
  "coalesced u (a # b # bs) \<longleftrightarrow> (u a \<or> u b) \<and> coalesced u (b # bs)"
| "coalesced u bs \<longleftrightarrow> True"

lemma coalesced_Cons: "coalesced u (b # bs) \<longleftrightarrow> (bs = [] \<or> u b \<or> u (hd bs)) \<and> coalesced u bs"
  by (cases bs) auto

lemma coalesced_append:
  "coalesced u (xs @ ys) \<longleftrightarrow> coalesced u xs \<and> coalesced u ys \<and> (xs = [] \<or> ys = [] \<or> u (last xs) \<or> u (hd ys))"
  by (induction xs) (auto simp: coalesced_Cons)

lemma coalesced_cong: "(\<And>b. b \<in> set bs \<Longrightarrow> u b = u' b) \<Longrightarrow> coalesced u bs \<longleftrightarrow> coalesced u' bs"
  by (induction bs) (auto simp: coalesced_Cons)

definition region_ok :: "heap \<Rightarrow> u32 \<Rightarrow> u32 list \<Rightarrow> bool" where
  "region_ok s r bs \<longleftrightarrow> r \<noteq> 0 \<and> bs \<noteq> [] \<and> page_aligned r \<and> page_aligned (hr_size (heap_regions s r)) \<and>
     unat r + unat (hr_size (heap_regions s r)) < 4294967296 \<and>
     dll 0 (nxb s) (pvb s) (hr_head (heap_regions s r)) (hr_tail (heap_regions s r)) bs \<and>
     tile (szb s) (unat r + 32) bs (unat r + unat (hr_size (heap_regions s r))) \<and>
     coalesced (usedb s) bs"

definition in_region :: "heap \<Rightarrow> u32 \<Rightarrow> u32 \<Rightarrow> bool" where
  "in_region s r y \<longleftrightarrow> unat r \<le> unat y \<and> unat y < unat r + unat (hr_size (heap_regions s r))"

definition apart :: "heap \<Rightarrow> u32 \<Rightarrow> u32 \<Rightarrow> bool" where
  "apart s r r' \<longleftrightarrow> unat r + unat (hr_size (heap_regions s r)) \<le> unat r' \<or>
     unat r' + unat (hr_size (heap_regions s r')) \<le> unat r"

text \<open>A heap with the regions and blocks \<open>rbs\<close>, in the order of the lists.\<close>

definition heap_inv :: "heap \<Rightarrow> (u32 \<times> u32 list) list \<Rightarrow> bool" where
  "heap_inv s rbs \<longleftrightarrow> dll 0 (nxr s) (pvr s) (heap_head s) (heap_tail s) (map fst rbs) \<and>
     (\<forall>(r, bs) \<in> set rbs. region_ok s r bs) \<and>
     (\<forall>r \<in> set (map fst rbs). \<forall>r' \<in> set (map fst rbs). r \<noteq> r' \<longrightarrow> apart s r r')"

definition all_blocks :: "(u32 \<times> u32 list) list \<Rightarrow> u32 set" where
  "all_blocks rbs = (\<Union>(r, bs) \<in> set rbs. set bs)"

text \<open>The pointers in use and the sizes of their blocks.\<close>

definition contents :: "heap \<Rightarrow> (u32 \<times> u32 list) list \<Rightarrow> u32 \<rightharpoonup> u32" where
  "contents s rbs ptr =
    (if ptr - 16 \<in> all_blocks rbs \<and> usedb s (ptr - 16) then Some (szb s (ptr - 16)) else None)"

lemma all_blocks_simps [simp]:
  "all_blocks [] = {}" "all_blocks ((r, bs) # rbs) = set bs \<union> all_blocks rbs"
  "all_blocks (xs @ ys) = all_blocks xs \<union> all_blocks ys"
  by (auto simp: all_blocks_def)

lemma region_ok_block:
  assumes "region_ok s r bs" and "b \<in> set bs"
  shows "unat r + 32 \<le> unat b" and "unat b + 16 + unat (szb s b) \<le> unat r + unat (hr_size (heap_regions s r))"
    and "in_region s r b" and "b \<noteq> 0"
proof -
  show 1: "unat r + 32 \<le> unat b"
    and 2: "unat b + 16 + unat (szb s b) \<le> unat r + unat (hr_size (heap_regions s r))"
    using assms tile_bounds [of "szb s" "unat r + 32" bs _ b] by (auto simp: region_ok_def)
  from 1 2 show "in_region s r b" and "b \<noteq> 0" by (auto simp: in_region_def)
qed

text \<open>What an operation on the region \<open>r\<close> leaves alone.\<close>

definition frame_region :: "u32 \<Rightarrow> heap \<Rightarrow> heap \<Rightarrow> bool" where
  "frame_region r s s' \<longleftrightarrow> (\<forall>y. \<not> in_region s r y \<longrightarrow> heap_blocks s' y = heap_blocks s y) \<and>
     (\<forall>r'. r' \<noteq> r \<longrightarrow> heap_regions s' r' = heap_regions s r') \<and>
     nxr s' r = nxr s r \<and> pvr s' r = pvr s r \<and>
     hr_size (heap_regions s' r) = hr_size (heap_regions s r) \<and>
     hr_flags (heap_regions s' r) = hr_flags (heap_regions s r) \<and>
     heap_head s' = heap_head s \<and> heap_tail s' = heap_tail s"

lemma frame_region_refl [simp]: "frame_region r s s"
  by (simp add: frame_region_def)

lemma frame_region_trans: "frame_region r s s' \<Longrightarrow> frame_region r s' s'' \<Longrightarrow> frame_region r s s''"
  by (simp add: frame_region_def in_region_def)

lemma region_ok_cong:
  assumes "\<And>b. b \<in> set bs \<Longrightarrow> heap_blocks s' b = heap_blocks s b"
    and "hr_size (heap_regions s' r) = hr_size (heap_regions s r)"
      "hr_head (heap_regions s' r) = hr_head (heap_regions s r)"
      "hr_tail (heap_regions s' r) = hr_tail (heap_regions s r)"
  shows "region_ok s' r bs \<longleftrightarrow> region_ok s r bs"
proof -
  have "dll 0 (nxb s') (pvb s') h t bs \<longleftrightarrow> dll 0 (nxb s) (pvb s) h t bs" for h t
    by (rule dll_cong) (simp add: assms(1))
  moreover have "tile (szb s') a bs e \<longleftrightarrow> tile (szb s) a bs e" for a e
    by (rule tile_cong) (simp add: assms(1))
  moreover have "coalesced (usedb s') bs \<longleftrightarrow> coalesced (usedb s) bs"
    by (rule coalesced_cong) (simp add: assms(1))
  ultimately show ?thesis by (simp add: region_ok_def assms(2-4))
qed

lemma other_region:
  assumes "heap_inv s rbs" and "(r, bs) \<in> set rbs" and "(r', bs') \<in> set rbs" and "r' \<noteq> r" and "b \<in> set bs'"
  shows "\<not> in_region s r b"
proof -
  have "apart s r r'" and "region_ok s r' bs'"
    using assms by (force simp: heap_inv_def)+
  then show ?thesis
    using region_ok_block(1,2) [of s r' bs' b] assms(5) by (auto simp: apart_def in_region_def)
qed

lemma heap_inv_distinct: "heap_inv s (xs @ (r, bs) # ys) \<Longrightarrow> r \<notin> fst ` set xs \<and> r \<notin> fst ` set ys"
  by (auto simp: heap_inv_def dll_def)

lemma heap_inv_update:
  assumes inv: "heap_inv s (xs @ (r, bs) # ys)" and fr: "frame_region r s s'" and ok: "region_ok s' r bs'"
  shows "heap_inv s' (xs @ (r, bs') # ys)"
proof -
  have same: "hr_size (heap_regions s' r') = hr_size (heap_regions s r')" "nxr s' r' = nxr s r'"
      "pvr s' r' = pvr s r'" for r'
    using fr by (cases "r' = r"; simp add: frame_region_def)+
  have "region_ok s' r' bs''" if "(r', bs'') \<in> set xs \<union> set ys" for r' bs''
  proof -
    have ne: "r' \<noteq> r" using heap_inv_distinct [OF inv] that by force
    have "heap_blocks s' b = heap_blocks s b" if "b \<in> set bs''" for b
      using other_region [OF inv, of r bs r' bs'' b] \<open>(r', bs'') \<in> set xs \<union> set ys\<close> ne that fr
      by (auto simp: frame_region_def)
    moreover have "heap_regions s' r' = heap_regions s r'" using fr ne by (simp add: frame_region_def)
    moreover have "region_ok s r' bs''" using inv that by (auto simp: heap_inv_def)
    ultimately show ?thesis using region_ok_cong [of bs'' s' s r'] by simp
  qed
  moreover have "dll 0 (nxr s') (pvr s') (heap_head s') (heap_tail s') (map fst (xs @ (r, bs') # ys))"
    using inv fr same dll_cong [of "map fst (xs @ (r, bs) # ys)" "nxr s'" "nxr s" "pvr s'" "pvr s"]
    by (simp add: heap_inv_def frame_region_def)
  ultimately show ?thesis
    using inv ok same by (auto simp: heap_inv_def apart_def)
qed

text \<open>The contents after a change inside one region.\<close>

lemma contents_update:
  assumes inv: "heap_inv s (xs @ (r, bs) # ys)" and fr: "frame_region r s s'"
    and blocks: "\<And>b. b \<in> set bs' \<Longrightarrow> usedb s' b \<Longrightarrow> b \<noteq> c \<Longrightarrow> b \<in> set bs \<and> usedb s b \<and> szb s' b = szb s b"
      "\<And>b. b \<in> set bs \<Longrightarrow> usedb s b \<Longrightarrow> b \<noteq> c \<Longrightarrow> b \<in> set bs' \<and> usedb s' b"
    and c: "c \<in> set bs"
  shows "contents s' (xs @ (r, bs') # ys) =
    (contents s (xs @ (r, bs) # ys))(c + 16 := (if c \<in> set bs' \<and> usedb s' c then Some (szb s' c) else None))"
proof
  fix ptr
  have other: "heap_blocks s' b = heap_blocks s b \<and> b \<notin> set bs" if b: "b \<in> all_blocks xs \<union> all_blocks ys" for b
  proof -
    obtain r' bs'' where r': "(r', bs'') \<in> set xs \<union> set ys" "b \<in> set bs''" using b by (auto simp: all_blocks_def)
    then have "r' \<noteq> r" using heap_inv_distinct [OF inv] by force
    then have "\<not> in_region s r b" using other_region [OF inv, of r bs r' bs'' b] r' by auto
    moreover have "region_ok s r bs" using inv by (simp add: heap_inv_def)
    ultimately show ?thesis using fr region_ok_block(3) [of s r bs b] by (auto simp: frame_region_def)
  qed
  have eq: "ptr = c + 16 \<longleftrightarrow> ptr - 16 = c" by auto
  show "contents s' (xs @ (r, bs') # ys) ptr =
    ((contents s (xs @ (r, bs) # ys))(c + 16 := (if c \<in> set bs' \<and> usedb s' c then Some (szb s' c) else None))) ptr"
  proof (cases "ptr - 16 = c")
    case True
    then have "ptr = c + 16" using eq by simp
    moreover have "c \<notin> all_blocks xs \<union> all_blocks ys" using other c by blast
    ultimately show ?thesis by (simp add: contents_def)
  next
    case False
    then show ?thesis
      using blocks [of "ptr - 16"] other [of "ptr - 16"] eq by (auto simp: contents_def)
  qed
qed

section \<open>Taking a block\<close>

lemma flag_simps [simp]:
  "BLOCK_USED \<noteq> 0" "(f OR BLOCK_USED) AND BLOCK_USED \<noteq> 0" "BLOCK_FREE AND BLOCK_USED = 0" "(f AND NOT BLOCK_USED) AND BLOCK_USED = 0"
proof -
  have iff: "w AND BLOCK_USED = 0 \<longleftrightarrow> \<not> bit w 0" for w :: u32
    by (simp add: BLOCK_USED_def bit_0 and_one_eq mod_2_eq_odd)
  show "BLOCK_USED \<noteq> 0" by (simp add: BLOCK_USED_def)
  show "(f OR BLOCK_USED) AND BLOCK_USED \<noteq> 0" "BLOCK_FREE AND BLOCK_USED = 0"
    "(f AND NOT BLOCK_USED) AND BLOCK_USED = 0"
    unfolding iff by (simp_all add: bit_or_iff bit_and_iff bit_not_iff BLOCK_USED_def BLOCK_FREE_def)
qed

text \<open>The room that the split needs does not overflow, because a block ends below 4 GiB.\<close>

lemma split_room:
  assumes "region_ok s r bs" and "b \<in> set bs" and "sz \<le> szb s b"
  shows "sz + HEADER_SIZE + MIN_BLOCK_SIZE \<le> szb s b \<longleftrightarrow> unat sz + 32 \<le> unat (szb s b)"
proof -
  have "unat (szb s b) + 48 < 4294967296"
    using region_ok_block(1,2) [OF assms(1,2)] assms(1) by (auto simp: region_ok_def)
  moreover have "unat sz \<le> unat (szb s b)" using assms(3) by (simp add: word_le_nat_alt)
  ultimately have "unat (sz + 32) = unat sz + 32" by (subst unat_add_u32) simp_all
  then show ?thesis by (simp add: MIN_BLOCK_SIZE_def word_le_nat_alt add.assoc)
qed

lemma split_block:
  assumes ok: "region_ok s r (us @ b # vs)" and free: "\<not> usedb s b" and sz: "unat sz + 32 \<le> unat (szb s b)"
    and dvd: "16 dvd unat sz" and n: "n = b + HEADER_SIZE + sz"
    and s1: "s1 = upd_block n (\<lambda>x. x\<lparr>hb_size := szb s b - HEADER_SIZE - sz, hb_flags := BLOCK_FREE, hb_next := 0, hb_prev := 0\<rparr>) s"
    and s2: "s2 = upd_block b (\<lambda>x. x\<lparr>hb_size := sz\<rparr>) (block_insert_after r b n s1)"
    and s3: "s3 = upd_block b (\<lambda>x. x\<lparr>hb_flags := hb_flags x OR BLOCK_USED\<rparr>) s2"
  shows "region_ok s3 r (us @ b # n # vs)" and "frame_region r s s3" and "usedb s3 b" and "szb s3 b = sz"
    and "\<not> usedb s3 n" and "\<And>y. y \<noteq> b \<Longrightarrow> y \<noteq> n \<Longrightarrow> usedb s3 y = usedb s y \<and> szb s3 y = szb s y"
proof -
  let ?e = "unat r + unat (hr_size (heap_regions s r))"
  have r: "r \<noteq> 0" and e: "?e < 4294967296" and tile: "tile (szb s) (unat r + 32) (us @ b # vs) ?e"
    and d: "dll 0 (nxb s) (pvb s) (hr_head (heap_regions s r)) (hr_tail (heap_regions s r)) (us @ b # vs)"
    and co: "coalesced (usedb s) (us @ b # vs)"
    using ok by (simp_all add: region_ok_def)
  have n': "n = b + 16 + sz" using n by simp
  have "unat sz + 16 \<le> unat (szb s b)" using sz by simp
  note split = tile_split [OF tile e this dvd n']
  have bn: "b \<noteq> n" and nin: "n \<notin> set (us @ b # vs)" using split(3) by auto
  have nreg: "in_region s r n"
    using split(2) sz region_ok_block(1,2) [OF ok, of b] by (simp add: in_region_def)
  then have n0: "n \<noteq> 0" using region_ok_block(1) [OF ok, of b] split(2) by auto
  have nb: "nxb s b = 0 \<or> nxb s b \<in> set vs" using d first_in [of vs 0] by (auto simp: dll_def)
  have "heap_blocks s1 y = heap_blocks s y" if "y \<in> set (us @ b # vs)" for y
    using that nin by (auto simp: s1)
  then have d1: "dll 0 (nxb s1) (pvb s1) (hr_head (heap_regions s1 r)) (hr_tail (heap_regions s1 r)) (us @ b # vs)"
    using d by (subst dll_cong [where n' = "nxb s" and p' = "pvb s"]) (simp_all add: s1)
  have "nxb s3 = nxb (block_insert_after r b n s1)" "pvb s3 = pvb (block_insert_after r b n s1)"
    "heap_regions s3 = heap_regions (block_insert_after r b n s1)"
    by (auto simp: s2 s3 fun_eq_iff)
  then have d3: "dll 0 (nxb s3) (pvb s3) (hr_head (heap_regions s3 r)) (hr_tail (heap_regions s3 r)) (us @ b # n # vs)"
    using block_ins.insert_list [OF r d1 n0] nin by simp
  have size: "szb s3 = (szb s)(b := sz, n := szb s b - 16 - sz)"
    using bn by (auto simp: s2 s3 fun_eq_iff block_insert_frame(3) s1)
  have fl: "hb_flags (heap_blocks s3 y) = (if y = b then hb_flags (heap_blocks s b) OR BLOCK_USED
      else if y = n then BLOCK_FREE else hb_flags (heap_blocks s y))" for y
    using bn by (auto simp: s2 s3 block_insert_frame(4) s1)
  show u: "usedb s3 b" "\<not> usedb s3 n" using bn by (simp_all add: fl block_used_def)
  show "szb s3 b = sz" using bn fun_cong [OF size, of b] by simp
  show other: "\<And>y. y \<noteq> b \<Longrightarrow> y \<noteq> n \<Longrightarrow> usedb s3 y = usedb s y \<and> szb s3 y = szb s y"
    using fun_cong [OF size] by (simp add: fl block_used_def)
  have hs: "hr_size (heap_regions s3 r') = hr_size (heap_regions s r')" for r'
    by (simp add: s2 s3 s1 block_insert_frame(5))
  have "coalesced (usedb s3) (us @ b # n # vs)"
  proof -
    have "y \<noteq> b \<and> y \<noteq> n" if "y \<in> set us \<union> set vs" for y
      using that nin tile_distinct [OF tile] by auto
    then have "\<And>y. y \<in> set us \<union> set vs \<Longrightarrow> usedb s3 y = usedb s y" using other by blast
    then have "coalesced (usedb s3) us" "coalesced (usedb s3) vs" "vs \<noteq> [] \<Longrightarrow> usedb s3 (hd vs)"
      using co free coalesced_cong [of us "usedb s3" "usedb s"] coalesced_cong [of vs "usedb s3" "usedb s"]
      by (auto simp: coalesced_append coalesced_Cons)
    then show ?thesis using u by (auto simp: coalesced_append coalesced_Cons)
  qed
  then show "region_ok s3 r (us @ b # n # vs)"
    using ok d3 split(1) size by (simp add: region_ok_def hs)
  have "heap_blocks s3 y = heap_blocks s y" if "\<not> in_region s r y" for y
  proof -
    have "y \<noteq> b" "y \<noteq> n" "y \<noteq> nxb s1 b \<or> y = 0"
      using that nreg nb region_ok_block(3) [OF ok] bn by (auto simp: s1)
    then show ?thesis by (simp add: s2 s3 block_insert_frame(1) s1)
  qed
  then show "frame_region r s s3"
    by (simp add: frame_region_def s2 s3 s1 block_insert_frame)
qed

lemma mark_block:
  assumes ok: "region_ok s r (us @ b # vs)"
    and s': "s' = upd_block b (\<lambda>x. x\<lparr>hb_flags := hb_flags x OR BLOCK_USED\<rparr>) s"
  shows "region_ok s' r (us @ b # vs)" and "frame_region r s s'" and "usedb s' b"
    and "\<And>y. y \<noteq> b \<Longrightarrow> usedb s' y = usedb s y" and "szb s' = szb s"
proof -
  have links: "nxb s' = nxb s" "pvb s' = pvb s" and size: "szb s' = szb s"
    by (auto simp: s' fun_eq_iff)
  show u: "usedb s' b" by (simp add: s' block_used_def)
  show other: "\<And>y. y \<noteq> b \<Longrightarrow> usedb s' y = usedb s y" by (simp add: s')
  show "szb s' = szb s" by (rule size)
  have "distinct (us @ b # vs)" using ok by (simp add: region_ok_def dll_def)
  then have "y \<noteq> b" if "y \<in> set us \<union> set vs" for y using that by auto
  then have "\<And>y. y \<in> set us \<union> set vs \<Longrightarrow> usedb s' y = usedb s y" using other by blast
  then have "coalesced (usedb s') us" "coalesced (usedb s') vs"
    using ok coalesced_cong [of us "usedb s'" "usedb s"] coalesced_cong [of vs "usedb s'" "usedb s"]
    by (auto simp: region_ok_def coalesced_append coalesced_Cons)
  then have "coalesced (usedb s') (us @ b # vs)" using u by (auto simp: coalesced_append coalesced_Cons)
  then show "region_ok s' r (us @ b # vs)" using ok links size by (simp add: region_ok_def s')
  have "in_region s r b" using region_ok_block(3) [OF ok, of b] by simp
  then show "frame_region r s s'" by (auto simp: frame_region_def s')
qed

lemma block_alloc_ok:
  assumes ok: "region_ok s r (us @ b # vs)" and free: "\<not> usedb s b" and sz: "sz \<le> szb s b" and dvd: "16 dvd unat sz"
  shows "\<exists>s' bs'. block_alloc r b sz s = (True, s') \<and> region_ok s' r bs' \<and> frame_region r s s' \<and>
    b \<in> set bs' \<and> usedb s' b \<and> sz \<le> szb s' b \<and>
    (\<forall>y. y \<in> set bs' \<and> usedb s' y \<and> y \<noteq> b \<longrightarrow> y \<in> set (us @ b # vs) \<and> usedb s y \<and> szb s' y = szb s y) \<and>
    (\<forall>y. y \<in> set (us @ b # vs) \<and> usedb s y \<and> y \<noteq> b \<longrightarrow> y \<in> set bs' \<and> usedb s' y)"
proof -
  have r0: "r \<noteq> 0" and b0: "b \<noteq> 0" using ok region_ok_block(4) [OF ok, of b] by (auto simp: region_ok_def)
  have room: "sz + HEADER_SIZE + MIN_BLOCK_SIZE \<le> szb s b \<longleftrightarrow> unat sz + 32 \<le> unat (szb s b)"
    using split_room [OF ok _ sz] by simp
  show ?thesis
  proof (cases "unat sz + 32 \<le> unat (szb s b)")
    case True
    define n where "n = b + HEADER_SIZE + sz"
    define s1 where "s1 = upd_block n (\<lambda>x. x\<lparr>hb_size := szb s b - HEADER_SIZE - sz,
      hb_flags := BLOCK_FREE, hb_next := 0, hb_prev := 0\<rparr>) s"
    define s2 where "s2 = upd_block b (\<lambda>x. x\<lparr>hb_size := sz\<rparr>) (block_insert_after r b n s1)"
    define s3 where "s3 = upd_block b (\<lambda>x. x\<lparr>hb_flags := hb_flags x OR BLOCK_USED\<rparr>) s2"
    note sp = split_block [OF ok free True dvd n_def s1_def s2_def s3_def]
    have alloc: "block_alloc r b sz s = (True, s3)"
      using r0 b0 sz True unfolding block_alloc_def Let_def room s3_def s2_def s1_def n_def by auto
    have old: "y \<in> set (us @ b # vs) \<and> usedb s y \<and> szb s3 y = szb s y"
      if "y \<in> set (us @ b # n # vs) \<and> usedb s3 y \<and> y \<noteq> b" for y
      using that sp(5) sp(6) [of y] by (cases "y = n") auto
    have kept: "y \<in> set (us @ b # n # vs) \<and> usedb s3 y"
      if "y \<in> set (us @ b # vs) \<and> usedb s y \<and> y \<noteq> b" for y
    proof -
      have "n \<notin> set (us @ b # vs)"
        using sp(1) by (auto simp: region_ok_def dll_def)
      then show ?thesis using that sp(6) [of y] by auto
    qed
    show ?thesis
    proof (intro exI conjI)
      show "block_alloc r b sz s = (True, s3)" by (rule alloc)
      show "region_ok s3 r (us @ b # n # vs)" "frame_region r s s3" "usedb s3 b" by (rule sp)+
      show "sz \<le> szb s3 b" using sp(4) by simp
    qed (simp, use old in blast, use kept in blast)
  next
    case False
    define s3 where "s3 = upd_block b (\<lambda>x. x\<lparr>hb_flags := hb_flags x OR BLOCK_USED\<rparr>) s"
    note mk = mark_block [OF ok s3_def]
    have "block_alloc r b sz s = (True, s3)"
      using r0 b0 sz False unfolding block_alloc_def Let_def room s3_def by auto
    then show ?thesis
      using mk(1-4) fun_cong [OF mk(5)] sz by (intro exI [of _ s3] exI [of _ "us @ b # vs"]) auto
  qed
qed

section \<open>Giving a block back\<close>

lemma clear_block:
  assumes ok: "region_ok s r (us @ b # vs)" and s': "s' = upd_block b (\<lambda>x. x\<lparr>hb_flags := hb_flags x AND NOT BLOCK_USED\<rparr>) s"
  shows "nxb s' = nxb s" "pvb s' = pvb s" "szb s' = szb s" "heap_regions s' = heap_regions s" "frame_region r s s'"
    "\<not> usedb s' b" "\<And>y. y \<noteq> b \<Longrightarrow> usedb s' y = usedb s y"
  using region_ok_block(3) [OF ok, of b] by (auto simp: s' fun_eq_iff frame_region_def block_used_def)

text \<open>The parts of the invariant of a region that hold while free blocks are being merged.\<close>

definition region_tiled :: "heap \<Rightarrow> u32 \<Rightarrow> u32 list \<Rightarrow> bool" where
  "region_tiled s r bs \<longleftrightarrow> r \<noteq> 0 \<and> bs \<noteq> [] \<and> page_aligned r \<and> page_aligned (hr_size (heap_regions s r)) \<and>
     unat r + unat (hr_size (heap_regions s r)) < 4294967296 \<and>
     dll 0 (nxb s) (pvb s) (hr_head (heap_regions s r)) (hr_tail (heap_regions s r)) bs \<and>
     tile (szb s) (unat r + 32) bs (unat r + unat (hr_size (heap_regions s r)))"

lemma region_ok_tiled: "region_ok s r bs \<longleftrightarrow> region_tiled s r bs \<and> coalesced (usedb s) bs"
  by (auto simp: region_ok_def region_tiled_def)

lemma tiled_in_region: "region_tiled s r bs \<Longrightarrow> b \<in> set bs \<Longrightarrow> in_region s r b \<and> b \<noteq> 0"
  using tile_bounds [of "szb s" "unat r + 32" bs _ b] by (force simp: region_tiled_def in_region_def)

lemma block_free_none:
  assumes "region_tiled s r (us @ b # vs)" and "vs = [] \<or> usedb s (hd vs)"
  shows "block_free r b s = s"
proof -
  have "nxb s b = first vs 0" using assms(1) by (simp add: region_tiled_def dll_def)
  then show ?thesis using assms(2) by (cases vs) (auto simp: block_free_def Let_def)
qed

lemma block_free_merge:
  assumes t: "region_tiled s r (us @ b # n # vs)" and free: "\<not> usedb s n"
  shows "region_tiled (block_free r b s) r (us @ b # vs)" and "frame_region r s (block_free r b s)"
    and "usedb (block_free r b s) = usedb s" and "\<And>y. y \<noteq> b \<Longrightarrow> szb (block_free r b s) y = szb s y"
proof -
  define s1 where "s1 = upd_block b (\<lambda>x. x\<lparr>hb_size := hb_size x + (HEADER_SIZE + szb s n)\<rparr>) s"
  have r0: "r \<noteq> 0" and e: "unat r + unat (hr_size (heap_regions s r)) < 4294967296"
    and d: "dll 0 (nxb s) (pvb s) (hr_head (heap_regions s r)) (hr_tail (heap_regions s r)) (us @ b # n # vs)"
    and tl: "tile (szb s) (unat r + 32) (us @ b # n # vs) (unat r + unat (hr_size (heap_regions s r)))"
    using t by (simp_all add: region_tiled_def)
  have b0: "b \<noteq> 0" and n0: "n \<noteq> 0" using tiled_in_region [OF t] by auto
  have nb: "nxb s b = n" using d by (simp add: dll_def)
  have def: "block_free r b s = block_remove r n s1"
    using r0 b0 n0 nb free by (simp add: block_free_def Let_def s1_def)
  have same: "nxb s1 = nxb s" "pvb s1 = pvb s" "heap_regions s1 = heap_regions s"
    by (auto simp: s1_def fun_eq_iff)
  have "dll 0 (nxb (block_remove r n s1)) (pvb (block_remove r n s1)) (hr_head (heap_regions (block_remove r n s1) r))
      (hr_tail (heap_regions (block_remove r n s1) r)) ((us @ [b]) @ vs)"
    using block_list.remove_list [OF r0, of s1 "us @ [b]" n vs] d same by simp
  moreover have size: "szb (block_remove r n s1) = (szb s)(b := szb s b + (16 + szb s n))"
    by (auto simp: fun_eq_iff block_remove_frame(3) s1_def)
  moreover have "tile ((szb s)(b := szb s b + (16 + szb s n))) (unat r + 32) (us @ b # vs)
      (unat r + unat (hr_size (heap_regions s r)))"
    by (rule tile_merge(1) [OF tl e])
  ultimately show "region_tiled (block_free r b s) r (us @ b # vs)"
    using t unfolding def by (simp add: region_tiled_def block_remove_frame(5) same)
  have fl: "hb_flags (heap_blocks (block_remove r n s1) y) = hb_flags (heap_blocks s y)" for y
    by (simp add: block_remove_frame(4) s1_def)
  then show "usedb (block_free r b s) = usedb s" by (simp add: def fun_eq_iff block_used_def)
  show "\<And>y. y \<noteq> b \<Longrightarrow> szb (block_free r b s) y = szb s y" using fun_cong [OF size] by (simp add: def)
  have links: "nxb s n = 0 \<or> nxb s n \<in> set vs" "pvb s n = b"
    using d first_in [of vs 0] by (auto simp: dll_def)
  have "heap_blocks (block_remove r n s1) y = heap_blocks s y" if y: "\<not> in_region s r y" for y
  proof -
    have "y \<noteq> n" "y \<noteq> nxb s n \<or> y = 0" "y \<noteq> pvb s n \<or> y = 0" "y \<noteq> b"
      using y links tiled_in_region [OF t] by auto
    moreover have "nxb s1 n = nxb s n" "pvb s1 n = pvb s n" by (simp_all add: s1_def)
    ultimately have "heap_blocks (block_remove r n s1) y = heap_blocks s1 y"
      by (intro block_remove_frame(1)) simp_all
    with \<open>y \<noteq> b\<close> show ?thesis by (simp add: s1_def)
  qed
  then show "frame_region r s (block_free r b s)"
    unfolding def frame_region_def by (simp add: block_remove_frame same s1_def)
qed

lemma unused_cong: "usedb s = usedb s' \<Longrightarrow> coalesced (usedb s) bs = coalesced (usedb s') bs"
  by simp

text \<open>Merging with the following block, and with the preceding one.\<close>

lemma merge_next:
  assumes t: "region_tiled s r (us @ b # vs)" and co: "coalesced (usedb s) vs"
  shows "\<exists>ws. region_tiled (block_free r b s) r (us @ b # ws) \<and> frame_region r s (block_free r b s) \<and>
    usedb (block_free r b s) = usedb s \<and> (\<forall>y. y \<noteq> b \<longrightarrow> szb (block_free r b s) y = szb s y) \<and>
    coalesced (usedb s) ws \<and> (ws = [] \<or> usedb s (hd ws)) \<and>
    set ws \<subseteq> set vs \<and> (\<forall>y \<in> set vs. usedb s y \<longrightarrow> y \<in> set ws)"
proof (cases "vs = [] \<or> usedb s (hd vs)")
  case True
  then show ?thesis using block_free_none [OF t] t co by (intro exI [of _ vs]) auto
next
  case False
  then obtain n ws where vs: "vs = n # ws" and n: "\<not> usedb s n" by (cases vs) auto
  have "ws = [] \<or> usedb s (hd ws)" "coalesced (usedb s) ws" using co vs n by (auto simp: coalesced_Cons)
  then show ?thesis
    using block_free_merge [of s r us b n ws] t vs n by (intro exI [of _ ws]) auto
qed

lemma merge_both:
  assumes ok: "region_ok s r (us @ b # vs)" and used: "usedb s b"
    and s1: "s1 = upd_block b (\<lambda>x. x\<lparr>hb_flags := hb_flags x AND NOT BLOCK_USED\<rparr>) s"
    and s2: "s2 = block_free r b s1"
    and s3: "(c, s3) = (if pvb s2 b \<noteq> 0 \<and> \<not> usedb s2 (pvb s2 b) then (pvb s2 b, block_free r (pvb s2 b) s2) else (b, s2))"
  shows "\<exists>ws. region_ok s3 r ws \<and> frame_region r s s3 \<and> c \<in> set ws \<and> \<not> usedb s3 c \<and>
    (\<forall>y. y \<in> set ws \<and> usedb s3 y \<and> y \<noteq> b \<longrightarrow> y \<in> set (us @ b # vs) \<and> usedb s y \<and> szb s3 y = szb s y) \<and>
    (\<forall>y. y \<in> set (us @ b # vs) \<and> usedb s y \<and> y \<noteq> b \<longrightarrow> y \<in> set ws \<and> usedb s3 y) \<and>
    \<not> usedb s3 b"
proof -
  note cl = clear_block [OF ok s1]
  have dist: "distinct (us @ b # vs)" and nn: "0 \<notin> set us" using ok by (auto simp: region_ok_def dll_def)
  have same: "usedb s1 y = usedb s y" if "y \<in> set us \<union> set vs" for y
    using that dist cl(7) [of y] by auto
  have t1: "region_tiled s1 r (us @ b # vs)"
    using ok cl(1-4) by (simp add: region_ok_def region_tiled_def)
  have co: "coalesced (usedb s1) us" "coalesced (usedb s1) vs"
    using ok same coalesced_cong [of us "usedb s1" "usedb s"] coalesced_cong [of vs "usedb s1" "usedb s"]
    by (auto simp: region_ok_def coalesced_append coalesced_Cons)
  obtain ws where ws: "region_tiled s2 r (us @ b # ws)" "frame_region r s1 s2" "usedb s2 = usedb s1"
      "\<forall>y. y \<noteq> b \<longrightarrow> szb s2 y = szb s1 y" "coalesced (usedb s1) ws" "ws = [] \<or> usedb s1 (hd ws)"
      "set ws \<subseteq> set vs" "\<forall>y \<in> set vs. usedb s1 y \<longrightarrow> y \<in> set ws"
    using merge_next [OF t1 co(2)] unfolding s2 by blast
  have u2: "usedb s2 y = usedb s1 y" for y using fun_cong [OF ws(3)] by simp
  have fr2: "frame_region r s s2" using frame_region_trans [OF cl(5) ws(2)] .
  have sz2: "szb s2 y = szb s y" if "y \<noteq> b" for y using ws(4) fun_cong [OF cl(3), of y] that by simp
  have prev: "pvb s2 b = final 0 us" using ws(1) by (simp add: region_tiled_def dll_def)
  show ?thesis
  proof (cases "us = [] \<or> usedb s1 (last us)")
    case True
    then have "\<not> (pvb s2 b \<noteq> 0 \<and> \<not> usedb s2 (pvb s2 b))"
      using prev u2 by (auto simp: final_def)
    then have c: "c = b" "s3 = s2" using s3 by auto
    have "coalesced (usedb s2) (us @ b # ws)"
      using co(1) ws(3,5,6) True by (auto simp: coalesced_append coalesced_Cons)
    then have rok: "region_ok s2 r (us @ b # ws)" using ws(1) by (simp add: region_ok_tiled)
    have old: "y \<in> set (us @ b # vs) \<and> usedb s y \<and> szb s2 y = szb s y"
      if "y \<in> set (us @ b # ws) \<and> usedb s2 y \<and> y \<noteq> b" for y
      using that u2 [of y] ws(7) same [of y] sz2 by auto
    have kept: "y \<in> set (us @ b # ws) \<and> usedb s2 y" if "y \<in> set (us @ b # vs) \<and> usedb s y \<and> y \<noteq> b" for y
      using that u2 [of y] ws(8) same [of y] by auto
    show ?thesis unfolding c
    proof (intro exI conjI)
      show "region_ok s2 r (us @ b # ws)" "frame_region r s s2" by (rule rok, rule fr2)
      show "b \<in> set (us @ b # ws)" "\<not> usedb s2 b" "\<not> usedb s2 b" using cl(6) u2 by simp_all
    qed (use old in blast, use kept in blast)
  next
    case False
    then obtain us' p where us: "us = us' @ [p]" and p: "\<not> usedb s1 p" by (cases us rule: rev_cases) auto
    then have "pvb s2 b = p" "p \<noteq> 0" using prev nn by auto
    then have c: "c = p" "s3 = block_free r p s2" using s3 p u2 by auto
    have "region_tiled s2 r (us' @ p # b # ws)" using ws(1) us by simp
    note m = block_free_merge [OF this, folded c(2)]
    have nb: "\<not> usedb s2 b" using cl(6) u2 by simp
    note m = m(1) [OF nb] m(2) [OF nb] m(3) [OF nb] m(4) [OF nb]
    have u3: "usedb s3 y = usedb s1 y" for y using fun_cong [OF m(3)] u2 by simp
    have pb: "p \<noteq> b" using dist us by auto
    have "coalesced (usedb s3) (us' @ p # ws)"
      using co(1) ws(5,6) us p unfolding u3 by (auto simp: coalesced_append coalesced_Cons)
    then have rok: "region_ok s3 r (us' @ p # ws)" using m(1) by (simp add: region_ok_tiled)
    have fr3: "frame_region r s s3" using frame_region_trans [OF fr2 m(2)] .
    have old: "y \<in> set (us @ b # vs) \<and> usedb s y \<and> szb s3 y = szb s y"
      if "y \<in> set (us' @ p # ws) \<and> usedb s3 y \<and> y \<noteq> b" for y
    proof -
      have "y \<noteq> p" using that p u3 by auto
      then show ?thesis using that ws(7) same [of y] us u3 sz2 [of y] m(4) [of y] by auto
    qed
    have kept: "y \<in> set (us' @ p # ws) \<and> usedb s3 y" if "y \<in> set (us @ b # vs) \<and> usedb s y \<and> y \<noteq> b" for y
      using that ws(8) same [of y] us u3 by auto
    show ?thesis unfolding c(1)
    proof (intro exI conjI)
      show "region_ok s3 r (us' @ p # ws)" "frame_region r s s3" by (rule rok, rule fr3)
      show "p \<in> set (us' @ p # ws)" "\<not> usedb s3 p" "\<not> usedb s3 b" using p cl(6) u3 by simp_all
    qed (use old in blast, use kept in blast)
  qed
qed

end
