(* ===== verification/Kheap_Ops.thy ===== *)
theory Kheap_Ops
  imports Kheap_Correct
begin

text \<open>
  \<^verbatim>\<open>heap_alloc\<close> and \<^verbatim>\<open>heap_free\<close> on a well-formed heap whose regions are reserved in its virtual
  memory manager: the searches find what they look for, allocation adds one pointer to the
  contents, release removes one, and nothing else in use changes.
\<close>

section \<open>Searches\<close>

text \<open>The blocks of a heap with their regions, in the order of the searches.\<close>

definition pairs :: "(u32 \<times> u32 list) list \<Rightarrow> (u32 \<times> u32) list" where
  "pairs rbs = concat (map (\<lambda>(r, bs). map (\<lambda>b. (b, r)) bs) rbs)"

definition found :: "(u32 \<times> u32) option \<Rightarrow> u32 \<times> u32" where
  "found x = (case x of None \<Rightarrow> (0, 0) | Some y \<Rightarrow> y)"

lemma pairs_simps [simp]: "pairs [] = []" "pairs ((r, bs) # rbs) = map (\<lambda>b. (b, r)) bs @ pairs rbs"
  by (simp_all add: pairs_def)

lemma set_pairs: "(b, r) \<in> set (pairs rbs) \<longleftrightarrow> (\<exists>bs. (r, bs) \<in> set rbs \<and> b \<in> set bs)"
  by (force simp: pairs_def)

lemma find_append: "find P (xs @ ys) = (case find P xs of None \<Rightarrow> find P ys | Some x \<Rightarrow> Some x)"
  by (induction xs) auto

lemma find_map: "find P (map f xs) = map_option f (find (P \<circ> f) xs)"
  by (induction xs) auto

lemma find_in: "find P xs = Some x \<Longrightarrow> x \<in> set xs \<and> P x"
  by (induction xs) (auto split: if_splits)

lemma find_none: "find P xs = None \<Longrightarrow> x \<in> set xs \<Longrightarrow> \<not> P x"
  by (induction xs) (auto split: if_splits)

lemma find_ptr_block_list:
  "links (nxb s) p a bs 0 \<Longrightarrow> 0 \<notin> set bs \<Longrightarrow>
   find_ptr_block s ptr (first bs 0) = Some (case find (\<lambda>b. BLOCK_PTR b = ptr) bs of None \<Rightarrow> 0 | Some b \<Rightarrow> b)"
proof (induction bs arbitrary: a)
  case Nil
  then show ?case by (simp add: find_ptr_block.simps)
next
  case (Cons b bs)
  then show ?case by (subst find_ptr_block.simps) auto
qed

lemma find_free_block_list:
  "links (nxb s) p a bs 0 \<Longrightarrow> 0 \<notin> set bs \<Longrightarrow>
   find_free_block s sz c r (first bs 0) = Some (case find (block_fits s sz c r) bs of None \<Rightarrow> 0 | Some b \<Rightarrow> b)"
proof (induction bs arbitrary: a)
  case Nil
  then show ?case by (simp add: find_free_block.simps)
next
  case (Cons b bs)
  then show ?case by (subst find_free_block.simps) auto
qed

lemma find_ptr_region_list:
  "links (nxr s) p a (map fst rbs) 0 \<Longrightarrow> 0 \<notin> set (map fst rbs) \<Longrightarrow> \<forall>(r, bs) \<in> set rbs. region_ok s r bs \<Longrightarrow>
   find_ptr_region s ptr (first (map fst rbs) 0) = Some (found (find (\<lambda>(b, r). BLOCK_PTR b = ptr) (pairs rbs)))"
proof (induction rbs arbitrary: a)
  case Nil
  then show ?case by (simp add: find_ptr_region.simps found_def)
next
  case (Cons rb rbs)
  obtain r bs where rb: "rb = (r, bs)" by (cases rb)
  then have ok: "region_ok s r bs" using Cons.prems by simp
  then have "find_ptr_block s ptr (hr_head (heap_regions s r)) =
      Some (case find (\<lambda>b. BLOCK_PTR b = ptr) bs of None \<Rightarrow> 0 | Some b \<Rightarrow> b)"
    using find_ptr_block_list [of s "pvb s" 0 bs ptr] by (simp add: region_ok_def dll_def)
  moreover have "b \<noteq> 0" if "find (\<lambda>b. BLOCK_PTR b = ptr) bs = Some b" for b
    using find_in [OF that] region_ok_block(4) [OF ok, of b] by simp
  ultimately show ?case
    using Cons rb by (subst find_ptr_region.simps)
      (auto simp: find_append find_map comp_def found_def split: option.splits)
qed

lemma find_free_region_list:
  "links (nxr s) p a (map fst rbs) 0 \<Longrightarrow> 0 \<notin> set (map fst rbs) \<Longrightarrow> \<forall>(r, bs) \<in> set rbs. region_ok s r bs \<Longrightarrow>
   find_free_region s sz c (first (map fst rbs) 0) = Some (found (find (\<lambda>(b, r). block_fits s sz c r b) (pairs rbs)))"
proof (induction rbs arbitrary: a)
  case Nil
  then show ?case by (simp add: find_free_region.simps found_def)
next
  case (Cons rb rbs)
  obtain r bs where rb: "rb = (r, bs)" by (cases rb)
  then have ok: "region_ok s r bs" using Cons.prems by simp
  then have "find_free_block s sz c r (hr_head (heap_regions s r)) =
      Some (case find (block_fits s sz c r) bs of None \<Rightarrow> 0 | Some b \<Rightarrow> b)"
    using find_free_block_list [of s "pvb s" 0 bs sz c r] by (simp add: region_ok_def dll_def)
  moreover have "b \<noteq> 0" if "find (block_fits s sz c r) bs = Some b" for b
    using find_in [OF that] region_ok_block(4) [OF ok, of b] by simp
  ultimately show ?case
    using Cons rb by (subst find_free_region.simps)
      (auto simp: find_append find_map comp_def found_def split: option.splits)
qed

lemma find_cases:
  assumes "heap_inv s rbs"
  shows "(\<forall>(b, r) \<in> set (pairs rbs). \<not> P (b, r)) \<and> found (find P (pairs rbs)) = (0, 0) \<or>
    (\<exists>b r xs ys us vs. found (find P (pairs rbs)) = (b, r) \<and> P (b, r) \<and> b \<noteq> 0 \<and>
       rbs = xs @ (r, us @ b # vs) # ys)"
proof (cases "find P (pairs rbs)")
  case None
  then show ?thesis using find_none [OF None] by (auto simp: found_def)
next
  case (Some x)
  obtain b r where x: "x = (b, r)" by (cases x)
  then have "(b, r) \<in> set (pairs rbs)" "P (b, r)" using find_in [OF Some] by simp_all
  then obtain bs where bs: "(r, bs) \<in> set rbs" "b \<in> set bs" by (auto simp: set_pairs)
  then have "region_ok s r bs" using assms by (auto simp: heap_inv_def)
  then have "b \<noteq> 0" using region_ok_block(4) bs(2) by auto
  moreover obtain xs ys where "rbs = xs @ (r, bs) # ys" using split_list [OF bs(1)] by auto
  moreover obtain us vs where "bs = us @ b # vs" using split_list [OF bs(2)] by auto
  ultimately show ?thesis using Some x \<open>P (b, r)\<close> by (auto simp: found_def)
qed

lemma block_find_eq: "heap_inv s rbs \<Longrightarrow> block_find ptr s = Some (found (find (\<lambda>(b, r). BLOCK_PTR b = ptr) (pairs rbs)))"
  using find_ptr_region_list [of s "pvr s" 0 rbs ptr] by (simp add: block_find_def heap_inv_def dll_def)

lemma block_find_free_eq:
  "heap_inv s rbs \<Longrightarrow> block_find_free sz c s = Some (found (find (\<lambda>(b, r). block_fits s sz c r b) (pairs rbs)))"
  using find_free_region_list [of s "pvr s" 0 rbs sz c] by (simp add: block_find_free_def heap_inv_def dll_def)

section \<open>The heap and its memory\<close>

text \<open>A region lies on pages that are reserved in the virtual memory manager.\<close>

definition region_reserved :: "vmm \<Rightarrow> heap \<Rightarrow> u32 \<Rightarrow> bool" where
  "region_reserved v s r \<longleftrightarrow> (\<exists>n. r = vaddr v n \<and>
     n + unat (TO_PAGE (hr_size (heap_regions s r))) \<le> unat (vmm_total_pages v) \<and>
     0 < unat (TO_PAGE (hr_size (heap_regions s r))) \<and>
     {n ..< n + unat (TO_PAGE (hr_size (heap_regions s r)))} \<inter> vfree v = {})"

definition heap_system :: "heap \<times> mm \<Rightarrow> (u32 \<times> u32 list) list \<Rightarrow> bool" where
  "heap_system st rbs = (case st of (s, v, p, g) \<Rightarrow>
     heap_inv s rbs \<and> vmm_inv v \<and> pmm_inv p \<and> pg_wf g \<and> (\<forall>(r, bs) \<in> set rbs. region_reserved v s r))"

lemma region_reserved_cong:
  "hr_size (heap_regions s' r) = hr_size (heap_regions s r) \<Longrightarrow> region_reserved v s' r = region_reserved v s r"
  by (simp add: region_reserved_def)

lemma frame_region_size: "frame_region r s s' \<Longrightarrow> hr_size (heap_regions s' r') = hr_size (heap_regions s r')"
  by (cases "r' = r") (auto simp: frame_region_def)

lemma heap_system_update:
  assumes "heap_system (s, m) (xs @ (r, bs) # ys)" and "frame_region r s s'" and "region_ok s' r bs'"
  shows "heap_system (s', m) (xs @ (r, bs') # ys)"
  using assms heap_inv_update [OF _ assms(2,3)] region_reserved_cong [OF frame_region_size [OF assms(2)]]
  by (auto simp: heap_system_def)

text \<open>The memory of a region is mapped to frames.\<close>

definition region_mapped :: "paging \<Rightarrow> heap \<Rightarrow> u32 \<Rightarrow> bool" where
  "region_mapped g s r \<longleftrightarrow> mapped_run (unat r div 4096) (unat (TO_PAGE (hr_size (heap_regions s r)))) g"

definition heap_mapped :: "heap \<times> mm \<Rightarrow> (u32 \<times> u32 list) list \<Rightarrow> bool" where
  "heap_mapped st rbs = (case st of (s, v, p, g) \<Rightarrow> \<forall>r \<in> fst ` set rbs. region_mapped g s r)"

lemma heap_mapped_cong:
  "\<lbrakk>\<And>r. hr_size (heap_regions s' r) = hr_size (heap_regions s r); fst ` set rbs' = fst ` set rbs\<rbrakk> \<Longrightarrow>
    heap_mapped (s', m) rbs' = heap_mapped (s, m) rbs"
  by (cases m) (simp add: heap_mapped_def region_mapped_def)

section \<open>Allocation from an existing block\<close>

lemma alloc_in_block:
  assumes sys: "heap_system (s, m) (xs @ (r, us @ b # vs) # ys)" and free: "\<not> usedb s b"
    and sz: "sz \<le> szb s b" "16 dvd unat sz"
  shows "\<exists>s' bs'. block_alloc r b sz s = (True, s') \<and> heap_system (s', m) (xs @ (r, bs') # ys) \<and> sz \<le> szb s' b \<and>
    heap_mapped (s', m) (xs @ (r, bs') # ys) = heap_mapped (s, m) (xs @ (r, us @ b # vs) # ys) \<and>
    contents s' (xs @ (r, bs') # ys) = (contents s (xs @ (r, us @ b # vs) # ys))(BLOCK_PTR b \<mapsto> szb s' b)"
proof -
  have inv: "heap_inv s (xs @ (r, us @ b # vs) # ys)" using sys by (cases m) (simp add: heap_system_def)
  then have ok: "region_ok s r (us @ b # vs)" by (simp add: heap_inv_def)
  obtain s' bs' where a: "block_alloc r b sz s = (True, s')" "region_ok s' r bs'" "frame_region r s s'"
      "b \<in> set bs'" "usedb s' b" "sz \<le> szb s' b"
      "\<forall>y. y \<in> set bs' \<and> usedb s' y \<and> y \<noteq> b \<longrightarrow> y \<in> set (us @ b # vs) \<and> usedb s y \<and> szb s' y = szb s y"
      "\<forall>y. y \<in> set (us @ b # vs) \<and> usedb s y \<and> y \<noteq> b \<longrightarrow> y \<in> set bs' \<and> usedb s' y"
    using block_alloc_ok [OF ok free sz] by blast
  have "contents s' (xs @ (r, bs') # ys) = (contents s (xs @ (r, us @ b # vs) # ys))
      (b + 16 := (if b \<in> set bs' \<and> usedb s' b then Some (szb s' b) else None))"
  proof (rule contents_update [OF inv a(3)])
    show "b \<in> set (us @ b # vs)" by simp
  qed (rule a(7) [rule_format], blast, rule a(8) [rule_format], blast)
  then have "contents s' (xs @ (r, bs') # ys) =
      (contents s (xs @ (r, us @ b # vs) # ys))(BLOCK_PTR b \<mapsto> szb s' b)"
    using a(4,5) by (simp add: BLOCK_PTR_def)
  moreover have "heap_mapped (s', m) (xs @ (r, bs') # ys) = heap_mapped (s, m) (xs @ (r, us @ b # vs) # ys)"
    by (rule heap_mapped_cong [OF frame_region_size [OF a(3)]]) simp
  ultimately show ?thesis using a(1,6) heap_system_update [OF sys a(3,2)] by blast
qed

lemma contents_fresh:
  assumes "heap_inv s (xs @ (r, us @ b # vs) # ys)" and "\<not> usedb s b"
  shows "contents s (xs @ (r, us @ b # vs) # ys) (BLOCK_PTR b) = None"
  using assms by (simp add: contents_def BLOCK_PTR_def)

section \<open>A new region\<close>

lemma heap_inv_append:
  assumes inv: "heap_inv s rbs" and new: "region_ok s' r bs" "r \<notin> fst ` set rbs"
    and same: "\<And>r' bs' b. (r', bs') \<in> set rbs \<Longrightarrow> b \<in> set bs' \<Longrightarrow> heap_blocks s' b = heap_blocks s b"
      "\<And>r'. r' \<in> fst ` set rbs \<Longrightarrow> heap_regions s' r' = heap_regions s r'"
      "heap_head s' = heap_head s" "heap_tail s' = heap_tail s"
    and apart: "\<And>r'. r' \<in> fst ` set rbs \<Longrightarrow> apart s' r r'"
  shows "heap_inv (region_append r s') (rbs @ [(r, bs)])"
proof -
  let ?t = "region_append r s'"
  have size: "hr_size (heap_regions ?t x) = hr_size (heap_regions s' x)" for x by (simp add: region_append_frame)
  have ok: "region_ok ?t x ys \<longleftrightarrow> region_ok s' x ys" for x ys
    by (rule region_ok_cong) (simp_all add: region_append_frame)
  have "dll 0 (nxr s') (pvr s') (heap_head s') (heap_tail s') (map fst rbs)"
    using inv dll_cong [of "map fst rbs" "nxr s'" "nxr s" "pvr s'" "pvr s"] same(2-4)
    by (simp add: heap_inv_def)
  then have "dll 0 (nxr ?t) (pvr ?t) (heap_head ?t) (heap_tail ?t) (map fst rbs @ [r])"
    using new by (intro region_list.append_list) (auto simp: region_ok_def)
  moreover have "region_ok s' r' bs'" if "(r', bs') \<in> set rbs" for r' bs'
  proof -
    have "region_ok s r' bs'" and r': "r' \<in> fst ` set rbs" using inv that by (force simp: heap_inv_def)+
    then show ?thesis using region_ok_cong [of bs' s' s r'] same(1) [OF that] same(2) [OF r'] by simp
  qed
  moreover have "apart ?t x y"
    if "x \<in> insert r (fst ` set rbs)" "y \<in> insert r (fst ` set rbs)" "x \<noteq> y" for x y
  proof -
    have sym: "apart s' a b = apart s' b a" for a b by (auto simp: apart_def)
    have "apart s' x y"
    proof (cases "x = r \<or> y = r")
      case True
      then show ?thesis using that apart sym by auto
    next
      case False
      then have "apart s x y" using inv that by (auto simp: heap_inv_def)
      then show ?thesis using same(2) that False by (auto simp: apart_def)
    qed
    then show ?thesis by (simp add: apart_def size)
  qed
  ultimately show ?thesis using new(1) ok by (auto simp: heap_inv_def)
qed

lemma aligned_pages: "page_aligned x \<Longrightarrow> unat x = unat (TO_PAGE x) * 4096"
  by (auto simp: page_aligned_def unat_TO_PAGE)

lemma intervals_apart:
  assumes "{a ..< a + k} \<inter> {b ..< b + l} = {}" and "0 < k" and "0 < l"
  shows "a + k \<le> b \<or> b + l \<le> (a :: nat)"
proof (rule ccontr)
  assume "\<not> ?thesis"
  then have "max a b \<in> {a ..< a + k} \<inter> {b ..< b + l}" using assms(2,3) by auto
  with assms(1) show False by blast
qed

lemma grow_pages_room:
  assumes "unat sz + 4143 < 4294967296"
  shows "unat sz + 48 \<le> unat (grow_pages sz) * 4096" and "16 \<le> unat (grow_pages sz)"
proof -
  have "unat (sz + 32) = unat sz + 32" using assms by (subst unat_add_u32) simp_all
  then have "unat (sz + 32 + 16) = unat sz + 48" using assms by (subst unat_add_u32) simp_all
  then have "unat (sz + REGION_SIZE + HEADER_SIZE + (PAGE_SIZE - 1)) = unat sz + 4143"
    using assms by (subst unat_add_u32) (simp_all add: PAGE_SIZE_def)
  then have p: "unat (TO_PAGE (sz + REGION_SIZE + HEADER_SIZE + (PAGE_SIZE - 1))) = (unat sz + 4143) div 4096"
    by (simp add: unat_TO_PAGE)
  have "unat sz + 48 \<le> (unat sz + 4143) div 4096 * 4096"
    using div_mult_mod_eq [of "unat sz + 4143" 4096] mod_less_divisor [of 4096 "unat sz + 4143"] by linarith
  moreover have "unat (grow_pages sz) = max 16 ((unat sz + 4143) div 4096)"
    using p by (auto simp: grow_pages_def Let_def GROW_PAGES_def word_less_nat_alt)
  ultimately show "unat sz + 48 \<le> unat (grow_pages sz) * 4096" and "16 \<le> unat (grow_pages sz)" by auto
qed

lemma granted_region:
  assumes g: "vmm_granted c a (v, p, pg) m'" and v: "vmm_inv v" and c: "0 < unat c"
  shows "page_aligned a" and "unat a + unat c * 4096 < 4294967296" and "unat (TO_ADDR c) = unat c * 4096"
    and "\<exists>n. a = vaddr v n \<and> n + unat c \<le> unat (vmm_total_pages v) \<and> {n ..< n + unat c} \<subseteq> vfree v \<and>
      vfree (fst m') = vfree v - {n ..< n + unat c}"
proof -
  obtain v' p' pg' where m': "m' = (v', p', pg')" by (cases m')
  obtain n where n: "a = vaddr v n" "{n ..< n + unat c} \<subseteq> vfree v" "vfree v' = vfree v - {n ..< n + unat c}"
    using g by (auto simp: vmm_granted_def m')
  have shape: "vmm_shape v" using v by (simp add: vmm_inv_def)
  have room: "n + unat c \<le> unat (vmm_total_pages v)" by (rule vrun_in_total [OF n(2) c])
  then have lt: "n < unat (vmm_total_pages v)" using c by simp
  show "page_aligned a" using vaddr_page(5) [OF shape lt] n(1) by simp
  have "unat a + unat c * 4096 \<le> unat (vmm_end v)"
    using unat_vaddr [OF shape lt] vmm_total(1) [OF shape] room n(1) by (auto simp flip: add_mult_distrib)
  then show "unat a + unat c * 4096 < 4294967296" using unat_less_u32 [of "vmm_end v"] by linarith
  show "unat (TO_ADDR c) = unat c * 4096"
    using room vmm_total_small [OF shape] by (intro unat_TO_ADDR) simp
  show "\<exists>n. a = vaddr v n \<and> n + unat c \<le> unat (vmm_total_pages v) \<and> {n ..< n + unat c} \<subseteq> vfree v \<and>
      vfree (fst m') = vfree v - {n ..< n + unat c}"
    using n room m' by auto
qed

definition new_region :: "u32 \<Rightarrow> u32 \<Rightarrow> u32 \<Rightarrow> heap \<Rightarrow> heap" where
  "new_region a pages flags s =
     upd_region a (\<lambda>x. x\<lparr>hr_size := TO_ADDR pages, hr_head := REGION_BLOCK a, hr_tail := REGION_BLOCK a,
         hr_next := 0, hr_prev := 0\<rparr>)
       (upd_block (REGION_BLOCK a) (\<lambda>x. x\<lparr>hb_size := TO_ADDR pages - REGION_SIZE - HEADER_SIZE,
           hb_flags := BLOCK_FREE, hb_next := 0, hb_prev := 0\<rparr>)
         (upd_region a (\<lambda>x. x\<lparr>hr_flags := flags\<rparr>) s))"

lemma new_region_ok:
  assumes g: "vmm_granted pages a (v, p, pg) m'" and v: "vmm_inv v" and a: "a \<noteq> 0" and pages: "16 \<le> unat pages"
  shows "region_ok (new_region a pages fl s) a [a + 32]" and "unat (a + 32) = unat a + 32"
    and "unat (szb (new_region a pages fl s) (a + 32)) = unat pages * 4096 - 48"
    and "\<not> usedb (new_region a pages fl s) (a + 32)"
    and "unat (hr_size (heap_regions (new_region a pages fl s) a)) = unat pages * 4096"
proof -
  have "0 < unat pages" using pages by simp
  note gr = granted_region [OF g v this]
  show a32: "unat (a + 32) = unat a + 32" using gr(2) pages by (subst unat_add_u32) simp_all
  have "unat (TO_ADDR pages - 32) = unat pages * 4096 - 32" using gr(3) pages by (subst unat_sub_u32) simp_all
  then have sz: "unat (TO_ADDR pages - 32 - 16) = unat pages * 4096 - 48"
    using pages by (subst unat_sub_u32) simp_all
  then show size: "unat (szb (new_region a pages fl s) (a + 32)) = unat pages * 4096 - 48"
    by (simp add: new_region_def REGION_BLOCK_def)
  show free: "\<not> usedb (new_region a pages fl s) (a + 32)"
    by (simp add: new_region_def REGION_BLOCK_def block_used_def)
  show rs: "unat (hr_size (heap_regions (new_region a pages fl s) a)) = unat pages * 4096"
    using gr(3) by (simp add: new_region_def)
  have "16 dvd unat pages * 4096 - 48" using pages by (intro dvd_diff_nat) auto
  then have "tile (szb (new_region a pages fl s)) (unat a + 32) [a + 32] (unat a + unat pages * 4096)"
    using a32 size pages by simp
  moreover have "dll 0 (nxb (new_region a pages fl s)) (pvb (new_region a pages fl s))
      (hr_head (heap_regions (new_region a pages fl s) a)) (hr_tail (heap_regions (new_region a pages fl s) a)) [a + 32]"
    using a32 by (auto simp: dll_def new_region_def REGION_BLOCK_def)
  ultimately show "region_ok (new_region a pages fl s) a [a + 32]"
    using a gr(1,2) rs by (simp add: region_ok_def page_aligned_def)
qed

lemma reserved_apart:
  assumes sys: "heap_system (s, v, p, pg) rbs" and r: "(r, bs) \<in> set rbs"
    and g: "vmm_granted pages a (v, p, pg) m'" and pages: "16 \<le> unat pages"
  shows "unat a + unat pages * 4096 \<le> unat r \<or> unat r + unat (hr_size (heap_regions s r)) \<le> unat a"
proof -
  have v: "vmm_inv v" and shape: "vmm_shape v" and res: "region_reserved v s r" and ok: "region_ok s r bs"
    using sys r by (auto simp: heap_system_def heap_inv_def vmm_inv_def)
  let ?k = "unat (TO_PAGE (hr_size (heap_regions s r)))"
  obtain m where m: "r = vaddr v m" "m + ?k \<le> unat (vmm_total_pages v)" "0 < ?k" "{m ..< m + ?k} \<inter> vfree v = {}"
    using res by (auto simp: region_reserved_def)
  have "0 < unat pages" using pages by simp
  from granted_region(4) [OF g v this] obtain n where
    n: "a = vaddr v n" "n + unat pages \<le> unat (vmm_total_pages v)" "{n ..< n + unat pages} \<subseteq> vfree v" by blast
  have "{n ..< n + unat pages} \<inter> {m ..< m + ?k} = {}" using m(4) n(3) by blast
  then have ap: "n + unat pages \<le> m \<or> m + ?k \<le> n" using intervals_apart m(3) pages by auto
  have size: "unat (hr_size (heap_regions s r)) = ?k * 4096"
    using ok by (intro aligned_pages) (simp add: region_ok_def)
  have ua: "unat a = unat (vmm_base v) + n * 4096" using unat_vaddr [OF shape, of n] n(1,2) pages by simp
  have ur: "unat r = unat (vmm_base v) + m * 4096" using unat_vaddr [OF shape, of m] m(1-3) by simp
  show ?thesis
    unfolding size ua ur using ap
    by (auto dest: mult_le_mono1 [where k = 4096] simp: add_mult_distrib)
qed

lemma new_region_system:
  assumes sys: "heap_system (s, v, p, pg) rbs" and g: "vmm_granted pages a (v, p, pg) m'"
    and a: "a \<noteq> 0" and pages: "16 \<le> unat pages"
  shows "heap_system (region_append a (new_region a pages fl s), m') (rbs @ [(a, [a + 32])])"
    and "contents (region_append a (new_region a pages fl s)) (rbs @ [(a, [a + 32])]) = contents s rbs"
proof -
  let ?s = "new_region a pages fl s"
  let ?t = "region_append a ?s"
  have v: "vmm_inv v" and inv: "heap_inv s rbs" and res: "\<forall>(r, bs) \<in> set rbs. region_reserved v s r"
    using sys by (auto simp: heap_system_def)
  note nr = new_region_ok [OF g v a pages]
  have out: "r \<noteq> a \<and> (\<forall>b \<in> set bs. b \<noteq> a + 32)" if r: "(r, bs) \<in> set rbs" for r bs
  proof -
    have ok: "region_ok s r bs" using inv r by (auto simp: heap_inv_def)
    then obtain b where "b \<in> set bs" by (cases bs) (auto simp: region_ok_def)
    then have "32 < unat (hr_size (heap_regions s r))" using region_ok_block(1,2) [OF ok] by fastforce
    then show ?thesis
      using reserved_apart [OF sys r g pages] nr(2) pages region_ok_block(1,2) [OF ok] by fastforce
  qed
  have blocks: "heap_blocks ?s b = heap_blocks s b" if "b \<noteq> a + 32" for b
    using that by (simp add: new_region_def REGION_BLOCK_def)
  have regs: "heap_regions ?s r = heap_regions s r" if "r \<noteq> a" for r
    using that by (simp add: new_region_def)
  have inv': "heap_inv ?t (rbs @ [(a, [a + 32])])"
  proof (rule heap_inv_append [OF inv nr(1)])
    show "a \<notin> fst ` set rbs" using out by fastforce
    show "\<And>r' bs' b. (r', bs') \<in> set rbs \<Longrightarrow> b \<in> set bs' \<Longrightarrow> heap_blocks ?s b = heap_blocks s b"
      using out blocks by blast
    show "\<And>r'. r' \<in> fst ` set rbs \<Longrightarrow> heap_regions ?s r' = heap_regions s r'" using out regs by fastforce
    show "heap_head ?s = heap_head s" "heap_tail ?s = heap_tail s" by (simp_all add: new_region_def)
    fix r' assume "r' \<in> fst ` set rbs"
    then obtain bs where r': "(r', bs) \<in> set rbs" by auto
    then have "hr_size (heap_regions ?s r') = hr_size (heap_regions s r')" using out regs by auto
    then show "apart ?s a r'" using reserved_apart [OF sys r' g pages] nr(5) by (auto simp: apart_def)
  qed
  show "contents ?t (rbs @ [(a, [a + 32])]) = contents s rbs"
  proof
    fix ptr :: u32
    define q where "q = ptr - 16"
    have notin: "a + 32 \<notin> all_blocks rbs" using out by (auto simp: all_blocks_def)
    show "contents ?t (rbs @ [(a, [a + 32])]) ptr = contents s rbs ptr"
      unfolding contents_def q_def [symmetric] region_append_frame(1)
      using nr(4) [of fl s] blocks [of q] notin by (cases "q = a + 32") simp_all
  qed
  obtain w p' pg' where m': "m' = (w, p', pg')" by (cases m')
  have pos: "0 < unat pages" using pages by simp
  obtain n where n: "a = vaddr v n" "n + unat pages \<le> unat (vmm_total_pages v)" "{n ..< n + unat pages} \<subseteq> vfree v"
      "vfree w = vfree v - {n ..< n + unat pages}"
    using granted_region(4) [OF g v pos] m' by auto
  have w: "vmm_inv w" "same_range v w" "pmm_inv p'" "pg_wf pg'" using g by (auto simp: vmm_granted_def m')
  have tp: "unat (TO_PAGE (hr_size (heap_regions ?t a))) = unat pages"
    using nr(5) by (simp add: region_append_frame unat_TO_PAGE)
  have "region_reserved w ?t a"
    using n w(2) tp pos same_range_vaddr [OF w(2)] unfolding region_reserved_def
    by (intro exI [of _ n]) (auto simp: same_range_def)
  moreover have "region_reserved w ?t r" if r: "(r, bs) \<in> set rbs" for r bs
  proof -
    have "region_reserved v s r" using res r by auto
    moreover have "hr_size (heap_regions ?t r) = hr_size (heap_regions s r)"
      using out [OF r] regs by (simp add: region_append_frame)
    ultimately show ?thesis
      using n(4) w(2) same_range_vaddr [OF w(2)] by (auto simp: region_reserved_def same_range_def)
  qed
  ultimately show "heap_system (?t, m') (rbs @ [(a, [a + 32])])"
    using inv' w by (auto simp: heap_system_def m')
qed

lemma new_region_mapped:
  assumes sys: "heap_system (s, v, p, pg) rbs" and g: "vmm_granted pages a (v, p, pg) m'"
    and a: "a \<noteq> 0" and pages: "16 \<le> unat pages" and m: "heap_mapped (s, v, p, pg) rbs"
  shows "heap_mapped (region_append a (new_region a pages fl s), m') (rbs @ [(a, [a + 32])])"
proof -
  let ?t = "region_append a (new_region a pages fl s)"
  have v: "vmm_inv v" and shape: "vmm_shape v" using sys by (auto simp: heap_system_def vmm_inv_def)
  obtain w p' pg' where m': "m' = (w, p', pg')" by (cases m')
  obtain n where n: "a = vaddr v n" "{n ..< n + unat pages} \<subseteq> vfree v" "mapped_run (vpage v + n) (unat pages) pg'"
      "\<And>k. \<not> (vpage v + n \<le> k \<and> k < vpage v + n + unat pages) \<Longrightarrow> pg_abs pg' k = pg_abs pg k"
    using g by (auto simp: vmm_granted_def m')
  have "0 < unat pages" using pages by simp
  then have "n < unat (vmm_total_pages v)" using vrun_in_total [OF n(2)] by simp
  then have page: "unat a div 4096 = vpage v + n" using vaddr_page(3) [OF shape] n(1) by simp
  have tp: "unat (TO_PAGE (hr_size (heap_regions ?t a))) = unat pages"
    using new_region_ok(5) [OF g v a pages, of fl] by (simp add: region_append_frame unat_TO_PAGE)
  have "region_mapped pg' ?t r" if r: "r \<in> fst ` set rbs" "r \<noteq> a" for r
  proof -
    let ?k = "unat (TO_PAGE (hr_size (heap_regions s r)))"
    have "region_reserved v s r" "region_mapped pg s r" using sys m r(1) by (auto simp: heap_system_def heap_mapped_def)
    then obtain l where l: "r = vaddr v l" "l + ?k \<le> unat (vmm_total_pages v)" "0 < ?k" "{l ..< l + ?k} \<inter> vfree v = {}"
      and run: "mapped_run (unat r div 4096) ?k pg"
      by (auto simp: region_reserved_def region_mapped_def)
    have lr: "unat r div 4096 = vpage v + l" using vaddr_page(3) [OF shape, of l] l by simp
    have out: "\<not> (vpage v + n \<le> vpage v + l + i \<and> vpage v + l + i < vpage v + n + unat pages)" if "i < ?k" for i
    proof
      assume "vpage v + n \<le> vpage v + l + i \<and> vpage v + l + i < vpage v + n + unat pages"
      then have "l + i \<in> vfree v" using n(2) by (auto simp: subset_iff)
      moreover have "l + i \<in> {l ..< l + ?k}" using that by simp
      ultimately show False using l(4) by blast
    qed
    have "mapped_run (vpage v + l) ?k pg'" using run n(4) [OF out] unfolding mapped_run_def lr by simp
    then show ?thesis using r(2) lr by (simp add: region_mapped_def region_append_frame new_region_def)
  qed
  moreover have "region_mapped pg' ?t a" unfolding region_mapped_def tp page by (rule n(3))
  ultimately show ?thesis by (auto simp: heap_mapped_def m')
qed

section \<open>Allocation\<close>

lemma heap_grow_eq:
  "heap_grow sz c (s, m) = do {
     (region, m') \<leftarrow> (if c \<noteq> 0 then vmm_alloc_contiguous (grow_pages sz) m else vmm_alloc (grow_pages sz) m);
     Some (if region = 0 then (0, s, m')
       else (region, new_region region (grow_pages sz)
              (if c \<noteq> 0 then REGION_CONTIGUOUS else REGION_NONCONTIGUOUS) s, m'))
   }"
  unfolding heap_grow_def prod.case Let_def [of "grow_pages sz"]
  by (rule Option.bind_cong [OF refl]) (auto simp: new_region_def Let_def)

lemma heap_grow_cases:
  assumes "vmm_inv v" and "pmm_inv p" and "pg_wf g" and "16 \<le> unat (grow_pages sz)"
  shows "\<exists>a m'. (a = 0 \<and> heap_grow sz c (s, v, p, g) = Some (0, s, m') \<and>
      (c \<noteq> 0 \<longrightarrow> \<not> run_room (unat (grow_pages sz)) (v, p, g) \<and> vmm_refused (v, p, g) m')) \<or>
    (a \<noteq> 0 \<and> vmm_granted (grow_pages sz) a (v, p, g) m' \<and>
     (c \<noteq> 0 \<longrightarrow> run_taken (unat (grow_pages sz)) (v, p, g) m') \<and>
     (\<exists>fl. heap_grow sz c (s, v, p, g) = Some (a, new_region a (grow_pages sz) fl s, m')))"
proof -
  have "grow_pages sz \<noteq> 0" using assms(4) by auto
  then obtain a m' where
    "(if c \<noteq> 0 then vmm_alloc_contiguous (grow_pages sz) (v, p, g) else vmm_alloc (grow_pages sz) (v, p, g)) = Some (a, m')"
    "a \<noteq> 0 \<longrightarrow> vmm_granted (grow_pages sz) a (v, p, g) m'"
    "c \<noteq> 0 \<longrightarrow> (if a = 0 then \<not> run_room (unat (grow_pages sz)) (v, p, g) \<and> vmm_refused (v, p, g) m' else run_taken (unat (grow_pages sz)) (v, p, g) m')"
    using vmm_alloc_total [OF assms(1-3)] vmm_alloc_contiguous_total [OF assms(1-3)] by (metis (full_types))
  then show ?thesis
    unfolding heap_grow_eq by (intro exI [of _ a] exI [of _ m']) (cases "a = 0", auto)
qed

lemma block_ptr_nonzero:
  assumes "region_ok s r bs" and "b \<in> set bs"
  shows "BLOCK_PTR b \<noteq> 0"
proof -
  have "unat (b + 16) = unat b + 16"
    using region_ok_block(2) [OF assms] assms(1) by (subst unat_add_u32) (auto simp: region_ok_def)
  then show ?thesis by (auto simp: BLOCK_PTR_def)
qed

text \<open>
  Besides what changes in the heap: the memory managers change only when the heap grows, by one run of
  pages; a contiguous allocation fails only if there is no room for such a run; regions stay mapped.
\<close>

lemma heap_alloc_cases:
  assumes sys: "heap_system (s, m) rbs" and sz: "sz \<noteq> 0" "unat sz + 4158 < 4294967296"
  shows "\<exists>ptr s' m'. heap_alloc sz c (s, m) = Some (ptr, s', m') \<and>
    (if ptr = 0 then s' = s \<and> (\<forall>(b, r) \<in> set (pairs rbs). \<not> block_fits s (ALIGN sz BLOCK_ALIGNMENT) c r b) \<and>
       (c \<noteq> 0 \<longrightarrow> \<not> run_room (unat (grow_pages (ALIGN sz BLOCK_ALIGNMENT))) m \<and> vmm_refused m m')
     else \<exists>rbs' k. heap_system (s', m') rbs' \<and> contents s rbs ptr = None \<and> sz \<le> k \<and>
       contents s' rbs' = (contents s rbs)(ptr \<mapsto> k) \<and>
       (heap_mapped (s, m) rbs \<longrightarrow> heap_mapped (s', m') rbs') \<and>
       (m' = m \<or> (c \<noteq> 0 \<longrightarrow> run_taken (unat (grow_pages (ALIGN sz BLOCK_ALIGNMENT))) m m')))"
proof -
  define z where "z = ALIGN sz BLOCK_ALIGNMENT"
  have fit: "unat sz + 15 < 4294967296" using sz(2) by simp
  have zu: "unat sz \<le> unat z" "unat z < unat sz + 16" and z16: "16 dvd unat z"
    using ALIGN_16 [OF fit] by (auto simp: z_def BLOCK_ALIGNMENT_def mod_eq_0_iff_dvd)
  obtain v p g where m: "m = (v, p, g)" by (cases m)
  have inv: "heap_inv s rbs" and vm: "vmm_inv v" "pmm_inv p" "pg_wf g"
    using sys by (auto simp: heap_system_def m)
  have def: "heap_alloc sz c (s, m) = (case found (find (\<lambda>(b, r). block_fits s z c r b) (pairs rbs)) of (block, region) \<Rightarrow>
      let (ok, s1) = (if block \<noteq> 0 then block_alloc region block z s else (False, s)) in
      if ok then Some (BLOCK_PTR block, s1, m)
      else do {
        (region, s, m) \<leftarrow> heap_grow z c (s, m);
        if region = 0 then Some (0, s, m)
        else
          let s = region_append region s; block = hr_head (heap_regions s region); (ok, s) = block_alloc region block z s
          in if ok then Some (BLOCK_PTR block, s, m) else Some (0, s, m)
      })"
    using sz(1) by (simp add: heap_alloc_def block_find_free_eq [OF inv] z_def [symmetric] Let_def)
  from find_cases [OF inv, of "\<lambda>(b, r). block_fits s z c r b"] consider
    (none) "\<forall>(b, r) \<in> set (pairs rbs). \<not> block_fits s z c r b"
      "found (find (\<lambda>(b, r). block_fits s z c r b) (pairs rbs)) = (0, 0)"
    | (some) b r xs ys us vs where "found (find (\<lambda>(b, r). block_fits s z c r b) (pairs rbs)) = (b, r)"
      "block_fits s z c r b" "b \<noteq> 0" "rbs = xs @ (r, us @ b # vs) # ys"
    by auto
  then show ?thesis
  proof cases
    case some
    then have free: "\<not> usedb s b" and le: "z \<le> szb s b" by (auto simp: block_fits_def)
    obtain s' bs' where a: "block_alloc r b z s = (True, s')" "heap_system (s', m) (xs @ (r, bs') # ys)"
        "z \<le> szb s' b" "heap_mapped (s', m) (xs @ (r, bs') # ys) = heap_mapped (s, m) rbs" "contents s' (xs @ (r, bs') # ys) = (contents s rbs)(BLOCK_PTR b \<mapsto> szb s' b)"
      using alloc_in_block [OF sys [unfolded some(4)] free le z16] some(4) by blast
    have "region_ok s r (us @ b # vs)" using inv some(4) by (simp add: heap_inv_def)
    then have nz: "BLOCK_PTR b \<noteq> 0" using block_ptr_nonzero by auto
    have fresh: "contents s rbs (BLOCK_PTR b) = None" using contents_fresh [OF inv [unfolded some(4)] free] some(4) by simp
    have "sz \<le> szb s' b" using a(3) zu(1) by (simp add: word_le_nat_alt)
    moreover have "heap_alloc sz c (s, m) = Some (BLOCK_PTR b, s', m)" using def some(1,3) a(1) by simp
    ultimately show ?thesis using nz fresh a(2,4,5) by auto
  next
    case none
    have room: "unat z + 4143 < 4294967296" using zu(2) sz(2) by simp
    note gp = grow_pages_room [OF room]
    from heap_grow_cases [OF vm gp(2), of c s] consider
      (no) m' where "heap_grow z c (s, m) = Some (0, s, m')" "c \<noteq> 0 \<longrightarrow> \<not> run_room (unat (grow_pages z)) m \<and> vmm_refused m m'"
      | (yes) a m' fl where "a \<noteq> 0" "vmm_granted (grow_pages z) a (v, p, g) m'"
        "heap_grow z c (s, m) = Some (a, new_region a (grow_pages z) fl s, m')"
        "c \<noteq> 0 \<longrightarrow> run_taken (unat (grow_pages z)) m m'"
      unfolding m by blast
    then show ?thesis
    proof cases
      case no
      then have "heap_alloc sz c (s, m) = Some (0, s, m')" using def none(2) by simp
      then show ?thesis using none(1) no(2) unfolding z_def by auto
    next
      case yes
      let ?t = "region_append a (new_region a (grow_pages z) fl s)"
      have sys': "heap_system (s, v, p, g) rbs" using sys m by simp
      note ns = new_region_system [OF sys' yes(2,1) gp(2), of fl]
      note nr = new_region_ok [OF yes(2) vm(1) yes(1) gp(2)]
      have b: "heap_blocks ?t (a + 32) = heap_blocks (new_region a (grow_pages z) fl s) (a + 32)"
        by (simp add: region_append_frame)
      have hd: "hr_head (heap_regions ?t a) = a + 32"
        by (simp add: region_append_frame new_region_def REGION_BLOCK_def)
      have free: "\<not> usedb ?t (a + 32)" and le: "z \<le> szb ?t (a + 32)"
        using nr(3,4) [of fl s] gp(1) b by (simp_all add: word_le_nat_alt)
      obtain s' bs' where al: "block_alloc a (a + 32) z ?t = (True, s')" "heap_system (s', m') (rbs @ [(a, bs')])"
          "z \<le> szb s' (a + 32)" "heap_mapped (s', m') (rbs @ [(a, bs')]) = heap_mapped (?t, m') (rbs @ [(a, [a + 32])])" "contents s' (rbs @ [(a, bs')]) = (contents s rbs)(BLOCK_PTR (a + 32) \<mapsto> szb s' (a + 32))"
        using alloc_in_block [of ?t m' rbs a "[]" "a + 32" "[]" "[]", OF _ free le z16] ns by auto
      have nz: "BLOCK_PTR (a + 32) \<noteq> 0" using block_ptr_nonzero [OF nr(1) [of fl s]] by simp
      have "heap_inv ?t (rbs @ (a, [] @ (a + 32) # []) # [])"
        using ns(1) by (cases m') (simp add: heap_system_def)
      from contents_fresh [OF this free] have fresh: "contents s rbs (BLOCK_PTR (a + 32)) = None"
        using ns(2) by simp
      have "sz \<le> szb s' (a + 32)" using al(3) zu(1) by (simp add: word_le_nat_alt)
      moreover have "heap_alloc sz c (s, m) = Some (BLOCK_PTR (a + 32), s', m')"
        using def none(2) yes(1,3) hd al(1) by (simp add: Let_def)
      moreover have "heap_mapped (s, m) rbs \<longrightarrow> heap_mapped (s', m') (rbs @ [(a, bs')])"
        using new_region_mapped [OF sys' yes(2,1) gp(2), of fl] al(4) m by simp
      ultimately show ?thesis using nz fresh al(2,5) yes(4) unfolding z_def by auto
    qed
  qed
qed

lemma heap_alloc_step:
  assumes "heap_system (s, m) rbs" and "sz \<noteq> 0" and "unat sz + 4158 < 4294967296"
  shows "\<exists>ptr s' m'. heap_alloc sz c (s, m) = Some (ptr, s', m') \<and>
    (if ptr = 0 then s' = s \<and> (\<forall>(b, r) \<in> set (pairs rbs). \<not> block_fits s (ALIGN sz BLOCK_ALIGNMENT) c r b)
     else \<exists>rbs' k. heap_system (s', m') rbs' \<and> contents s rbs ptr = None \<and> sz \<le> k \<and>
       contents s' rbs' = (contents s rbs)(ptr \<mapsto> k))"
proof -
  from heap_alloc_cases [OF assms, of c] obtain ptr s' m' where r: "heap_alloc sz c (s, m) = Some (ptr, s', m')"
    and q: "if ptr = 0 then s' = s \<and> (\<forall>(b, r) \<in> set (pairs rbs). \<not> block_fits s (ALIGN sz BLOCK_ALIGNMENT) c r b) \<and>
       (c \<noteq> 0 \<longrightarrow> \<not> run_room (unat (grow_pages (ALIGN sz BLOCK_ALIGNMENT))) m \<and> vmm_refused m m')
     else \<exists>rbs' k. heap_system (s', m') rbs' \<and> contents s rbs ptr = None \<and> sz \<le> k \<and>
       contents s' rbs' = (contents s rbs)(ptr \<mapsto> k) \<and>
       (heap_mapped (s, m) rbs \<longrightarrow> heap_mapped (s', m') rbs') \<and>
       (m' = m \<or> (c \<noteq> 0 \<longrightarrow> run_taken (unat (grow_pages (ALIGN sz BLOCK_ALIGNMENT))) m m'))"
    by blast
  show ?thesis using q by (intro exI [of _ ptr] exI [of _ s'] exI [of _ m'] conjI r) (cases "ptr = 0", simp, simp, blast)
qed

section \<open>Release\<close>

lemma heap_inv_ok: "heap_inv s rbs \<Longrightarrow> (r, bs) \<in> set rbs \<Longrightarrow> region_ok s r bs"
  by (auto simp: heap_inv_def)

lemma heap_inv_remove:
  assumes inv: "heap_inv s (xs @ (r, bs) # ys)"
  shows "heap_inv (region_remove r s) (xs @ ys)"
proof -
  let ?t = "region_remove r s"
  have size: "hr_size (heap_regions ?t x) = hr_size (heap_regions s x)" for x by (simp add: region_remove_frame)
  have ok: "region_ok ?t x zs \<longleftrightarrow> region_ok s x zs" for x zs
    by (rule region_ok_cong) (simp_all add: region_remove_frame)
  have "dll 0 (nxr ?t) (pvr ?t) (heap_head ?t) (heap_tail ?t) (map fst xs @ map fst ys)"
    using inv by (intro region_list.remove_list) (simp_all add: heap_inv_def)
  then show ?thesis using inv ok by (auto simp: heap_inv_def apart_def size)
qed

lemma single_block:
  assumes "region_ok s r ws" and "hr_head (heap_regions s r) = hr_tail (heap_regions s r)"
  shows "\<exists>c. ws = [c]"
proof (cases ws)
  case Nil
  then show ?thesis using assms(1) by (simp add: region_ok_def)
next
  case (Cons c cs)
  have "first ws 0 = final 0 ws" "distinct ws" using assms by (auto simp: region_ok_def dll_def)
  then show ?thesis using Cons last_in_set [of cs] by (auto simp: final_def split: if_splits)
qed

lemma heap_inv_apart:
  assumes "heap_inv s (xs @ (r, bs) # ys)" and "(r', bs') \<in> set (xs @ ys)"
  shows "apart s r r'"
proof -
  have "r' \<noteq> r" using heap_inv_distinct [OF assms(1)] assms(2) by force
  moreover have "r \<in> set (map fst (xs @ (r, bs) # ys))" "r' \<in> set (map fst (xs @ (r, bs) # ys))"
    using assms(2) by force+
  ultimately show ?thesis using assms(1) unfolding heap_inv_def by metis
qed

lemma other_pages:
  assumes shape: "vmm_shape v" and ap: "apart s r r'" and ok: "region_ok s r bs" "region_ok s r' bs'"
    and r: "r = vaddr v n" "n + unat (TO_PAGE (hr_size (heap_regions s r))) \<le> unat (vmm_total_pages v)"
      "0 < unat (TO_PAGE (hr_size (heap_regions s r)))"
    and r': "r' = vaddr v m" "m + unat (TO_PAGE (hr_size (heap_regions s r'))) \<le> unat (vmm_total_pages v)"
      "0 < unat (TO_PAGE (hr_size (heap_regions s r')))"
  shows "{n ..< n + unat (TO_PAGE (hr_size (heap_regions s r)))} \<inter>
    {m ..< m + unat (TO_PAGE (hr_size (heap_regions s r')))} = {}"
proof -
  have u: "unat r = unat (vmm_base v) + n * 4096" "unat r' = unat (vmm_base v) + m * 4096"
    using unat_vaddr [OF shape] r r' by auto
  have sz: "unat (hr_size (heap_regions s r)) = unat (TO_PAGE (hr_size (heap_regions s r))) * 4096"
    "unat (hr_size (heap_regions s r')) = unat (TO_PAGE (hr_size (heap_regions s r'))) * 4096"
    using ok by (auto simp: region_ok_def intro!: aligned_pages)
  have "n + unat (TO_PAGE (hr_size (heap_regions s r))) \<le> m \<or> m + unat (TO_PAGE (hr_size (heap_regions s r'))) \<le> n"
    using ap unfolding apart_def u sz by linarith
  then show ?thesis by auto
qed

lemma release_region:
  assumes sys: "heap_system (s, m) (xs @ (r, bs) # ys)"
  shows "\<exists>m'. vmm_free r (TO_PAGE (hr_size (heap_regions s r))) m = Some m' \<and>
    heap_system (region_remove r s, m') (xs @ ys) \<and>
    (heap_mapped (s, m) (xs @ (r, bs) # ys) \<longrightarrow> heap_mapped (region_remove r s, m') (xs @ ys))"
proof -
  obtain v p g where m: "m = (v, p, g)" by (cases m)
  have inv: "heap_inv s (xs @ (r, bs) # ys)" and vm: "vmm_inv v" "pmm_inv p" "pg_wf g" and shape: "vmm_shape v"
    and res: "\<And>r' bs'. (r', bs') \<in> set (xs @ (r, bs) # ys) \<Longrightarrow> region_reserved v s r'"
    using sys by (auto simp: heap_system_def m vmm_inv_def)
  let ?c = "TO_PAGE (hr_size (heap_regions s r))"
  obtain n where n: "r = vaddr v n" "n + unat ?c \<le> unat (vmm_total_pages v)" "0 < unat ?c"
      "{n ..< n + unat ?c} \<inter> vfree v = {}"
    using res [of r bs] by (auto simp: region_reserved_def)
  have ok: "region_ok s r bs" using inv by (simp add: heap_inv_def)
  then have "r \<noteq> 0" by (simp add: region_ok_def)
  moreover have "?c \<noteq> 0" using n(3) by auto
  ultimately obtain w where w: "vmm_unreserve r ?c v = Some w" "vmm_inv w" "same_range v w"
      "vfree w = vfree v \<union> {n ..< n + unat ?c}"
    using vmm_unreserve_step [OF vm(1) _ n(2,4)] n(1) by auto
  have rn: "unat r div 4096 = vpage v + n" using vaddr_page(3) [OF shape, of n] n by simp
  then have lim: "unat r div 4096 + unat ?c \<le> 0xFFC00" using vmm_total(2) [OF shape] n(2) by simp
  have al: "page_aligned r" using ok by (simp add: region_ok_def)
  have free: "vmm_free r ?c m = Some (w, p, pg_unmap r ?c g)"
    unfolding m by (rule vmm_free_keeps_frames [OF vm(3) lim al w(1)])
  have other: "region_reserved w (region_remove r s) r' \<and>
      (region_mapped g s r' \<longrightarrow> region_mapped (pg_unmap r ?c g) (region_remove r s) r')"
    if r': "(r', bs') \<in> set (xs @ ys)" for r' bs'
  proof -
    have "(r', bs') \<in> set (xs @ (r, bs) # ys)" using r' by auto
    then have ok': "region_ok s r' bs'" and rs: "region_reserved v s r'"
      by (rule heap_inv_ok [OF inv], rule res)
    let ?k = "unat (TO_PAGE (hr_size (heap_regions s r')))"
    obtain k where k: "r' = vaddr v k" "k + ?k \<le> unat (vmm_total_pages v)" "0 < ?k" "{k ..< k + ?k} \<inter> vfree v = {}"
      using rs by (auto simp: region_reserved_def)
    have ap: "{n ..< n + unat ?c} \<inter> {k ..< k + ?k} = {}"
      by (rule other_pages [OF shape heap_inv_apart [OF inv r'] ok ok' n(1-3) k(1-3)])
    then have "{k ..< k + ?k} \<inter> vfree w = {}" using k(4) w(4) by auto
    then have "region_reserved w (region_remove r s) r'"
      using k same_range_vaddr [OF w(3)] w(3) unfolding region_reserved_def
      by (intro exI [of _ k]) (auto simp: region_remove_frame same_range_def)
    moreover have "pg_abs (pg_unmap r ?c g) (vpage v + k + i) = pg_abs g (vpage v + k + i)" if "i < ?k" for i
    proof -
      have "k + i \<notin> {n ..< n + unat ?c}" using ap that by (auto simp: disjoint_iff)
      then show ?thesis using pg_unmap_abs(2) [OF vm(3) lim] rn by auto
    qed
    then have "region_mapped g s r' \<longrightarrow> region_mapped (pg_unmap r ?c g) (region_remove r s) r'"
      using vaddr_page(3) [OF shape, of k] k(1-3) by (simp add: region_mapped_def mapped_run_def region_remove_frame)
    ultimately show ?thesis by blast
  qed
  have "heap_mapped (s, m) (xs @ (r, bs) # ys) \<longrightarrow> heap_mapped (region_remove r s, w, p, pg_unmap r ?c g) (xs @ ys)"
  proof (unfold m heap_mapped_def prod.case, intro impI ballI)
    fix x assume a: "\<forall>r \<in> fst ` set (xs @ (r, bs) # ys). region_mapped g s r" and x: "x \<in> fst ` set (xs @ ys)"
    from x obtain bs' where r': "(x, bs') \<in> set (xs @ ys)" by force
    then have "region_mapped g s x" using a by force
    with other [OF r'] show "region_mapped (pg_unmap r ?c g) (region_remove r s) x" by blast
  qed
  moreover have "heap_system (region_remove r s, w, p, pg_unmap r ?c g) (xs @ ys)"
    using other heap_inv_remove [OF inv] w(2) vm(2) pg_unmap_abs(1) [OF vm(3) lim] by (auto simp: heap_system_def)
  ultimately show ?thesis using free by blast
qed

lemma heap_shrink_step:
  assumes sys: "heap_system (s, m) (xs @ (r, us @ b # vs) # ys)" and used: "usedb s b"
    and s1: "s1 = upd_block b (\<lambda>x. x\<lparr>hb_flags := hb_flags x AND NOT BLOCK_USED\<rparr>) s"
  shows "\<exists>s' m' rbs'. heap_shrink r b (s1, m) = Some (s', m') \<and> heap_system (s', m') rbs' \<and>
    (heap_mapped (s, m) (xs @ (r, us @ b # vs) # ys) \<longrightarrow> heap_mapped (s', m') rbs') \<and>
    contents s' rbs' = (contents s (xs @ (r, us @ b # vs) # ys))(BLOCK_PTR b := None)"
proof -
  have inv: "heap_inv s (xs @ (r, us @ b # vs) # ys)" using sys by (cases m) (simp add: heap_system_def)
  then have ok: "region_ok s r (us @ b # vs)" by (simp add: heap_inv_def)
  define s2 where "s2 = block_free r b s1"
  obtain c s3 where s3: "(c, s3) = (if pvb s2 b \<noteq> 0 \<and> \<not> usedb s2 (pvb s2 b)
      then (pvb s2 b, block_free r (pvb s2 b) s2) else (b, s2))"
    by (metis surj_pair)
  obtain ws where ws: "region_ok s3 r ws" "frame_region r s s3" "c \<in> set ws" "\<not> usedb s3 c"
      "\<forall>y. y \<in> set ws \<and> usedb s3 y \<and> y \<noteq> b \<longrightarrow> y \<in> set (us @ b # vs) \<and> usedb s y \<and> szb s3 y = szb s y"
      "\<forall>y. y \<in> set (us @ b # vs) \<and> usedb s y \<and> y \<noteq> b \<longrightarrow> y \<in> set ws \<and> usedb s3 y" "\<not> usedb s3 b"
    using merge_both [OF ok used s1 s2_def s3] by blast
  have sys3: "heap_system (s3, m) (xs @ (r, ws) # ys)" by (rule heap_system_update [OF sys ws(2,1)])
  have map3: "heap_mapped (s3, m) (xs @ (r, ws) # ys) = heap_mapped (s, m) (xs @ (r, us @ b # vs) # ys)"
    by (rule heap_mapped_cong [OF frame_region_size [OF ws(2)]]) simp
  have "contents s3 (xs @ (r, ws) # ys) = (contents s (xs @ (r, us @ b # vs) # ys))
      (b + 16 := (if b \<in> set ws \<and> usedb s3 b then Some (szb s3 b) else None))"
  proof (rule contents_update [OF inv ws(2)])
    show "b \<in> set (us @ b # vs)" by simp
  qed (rule ws(5) [rule_format], blast, rule ws(6) [rule_format], blast)
  then have con: "contents s3 (xs @ (r, ws) # ys) = (contents s (xs @ (r, us @ b # vs) # ys))(BLOCK_PTR b := None)"
    using ws(7) by (simp add: BLOCK_PTR_def)
  let ?x = "heap_regions s3 r"
  have def: "heap_shrink r b (s1, m) =
      (if hr_head ?x = hr_tail ?x \<and> hr_head ?x = c \<and> \<not> usedb s3 c
       then do { m \<leftarrow> vmm_free r (TO_PAGE (hr_size ?x)) m; Some (region_remove r s3, m) } else Some (s3, m))"
    unfolding heap_shrink_def prod.case s2_def [symmetric] Let_def s3 [symmetric] by simp
  show ?thesis
  proof (cases "hr_head ?x = hr_tail ?x \<and> hr_head ?x = c")
    case False
    then have "heap_shrink r b (s1, m) = Some (s3, m)" using def by auto
    with sys3 con map3 show ?thesis by blast
  next
    case True
    then obtain d where "ws = [d]" using single_block [OF ws(1)] by blast
    then have wc: "ws = [c]" using ws(3) by simp
    obtain m' where m': "vmm_free r (TO_PAGE (hr_size ?x)) m = Some m'" "heap_system (region_remove r s3, m') (xs @ ys)"
        "heap_mapped (s3, m) (xs @ (r, ws) # ys) \<longrightarrow> heap_mapped (region_remove r s3, m') (xs @ ys)"
      using release_region [OF sys3] by blast
    have "contents (region_remove r s3) (xs @ ys) = contents s3 (xs @ (r, ws) # ys)"
    proof
      fix ptr :: u32
      define q where "q = ptr - 16"
      show "contents (region_remove r s3) (xs @ ys) ptr = contents s3 (xs @ (r, ws) # ys) ptr"
        unfolding contents_def q_def [symmetric] region_remove_frame(1) wc using ws(4) by auto
    qed
    moreover have "heap_shrink r b (s1, m) = Some (region_remove r s3, m')" using def True ws(4) m'(1) by auto
    ultimately show ?thesis using m'(2,3) con map3 by metis
  qed
qed

lemma heap_free_step:
  assumes sys: "heap_system (s, m) rbs" and live: "contents s rbs ptr = Some k"
  shows "\<exists>s' m' rbs'. heap_free ptr (s, m) = Some (s', m') \<and> heap_system (s', m') rbs' \<and>
    (heap_mapped (s, m) rbs \<longrightarrow> heap_mapped (s', m') rbs') \<and> contents s' rbs' = (contents s rbs)(ptr := None)"
proof -
  have inv: "heap_inv s rbs" using sys by (cases m) (simp add: heap_system_def)
  have q: "ptr - 16 \<in> all_blocks rbs" "usedb s (ptr - 16)" using live by (auto simp: contents_def split: if_splits)
  then obtain r0 bs0 where r0: "(r0, bs0) \<in> set rbs" "ptr - 16 \<in> set bs0" by (auto simp: all_blocks_def)
  then have ok0: "region_ok s r0 bs0" using inv by (auto simp: heap_inv_def)
  have nz: "ptr \<noteq> 0" using block_ptr_nonzero [OF ok0 r0(2)] by (simp add: BLOCK_PTR_def)
  have "(ptr - 16, r0) \<in> set (pairs rbs)" using r0 by (auto simp: set_pairs)
  then have "\<not> (\<forall>(b, r) \<in> set (pairs rbs). BLOCK_PTR b \<noteq> ptr)" by (force simp: BLOCK_PTR_def)
  with find_cases [OF inv, of "\<lambda>(b, r). BLOCK_PTR b = ptr"] obtain b r xs ys us vs where
    b: "found (find (\<lambda>(b, r). BLOCK_PTR b = ptr) (pairs rbs)) = (b, r)" "BLOCK_PTR b = ptr" "b \<noteq> 0"
      "rbs = xs @ (r, us @ b # vs) # ys"
    by (simp only: prod.case) blast
  have used: "usedb s b" using q(2) b(2) by (auto simp: BLOCK_PTR_def)
  show ?thesis
    using heap_shrink_step [OF sys [unfolded b(4)] used refl] nz b used
    by (simp add: heap_free_def block_find_eq [OF inv])
qed

lemma heap_free_invalid:
  assumes sys: "heap_system (s, m) rbs" and dead: "contents s rbs ptr = None"
  shows "heap_free ptr (s, m) = Some (s, m)"
proof -
  have inv: "heap_inv s rbs" using sys by (cases m) (simp add: heap_system_def)
  from find_cases [OF inv, of "\<lambda>(b, r). BLOCK_PTR b = ptr"] consider
    "found (find (\<lambda>(b, r). BLOCK_PTR b = ptr) (pairs rbs)) = (0, 0)"
    | b r xs ys us vs where "found (find (\<lambda>(b, r). BLOCK_PTR b = ptr) (pairs rbs)) = (b, r)" "BLOCK_PTR b = ptr"
      "rbs = xs @ (r, us @ b # vs) # ys"
    by auto
  then show ?thesis
  proof cases
    case 1
    then show ?thesis by (simp add: heap_free_def block_find_eq [OF inv])
  next
    case 2
    then have "\<not> usedb s b" using dead by (auto simp: contents_def BLOCK_PTR_def)
    then show ?thesis using 2 by (simp add: heap_free_def block_find_eq [OF inv])
  qed
qed

lemma contents_block:
  assumes "heap_inv s rbs" and "contents s rbs ptr = Some k"
  obtains r bs where "(r, bs) \<in> set rbs" "ptr - 16 \<in> set bs" "k = szb s (ptr - 16)"
    "unat ptr = unat (ptr - 16) + 16" "region_ok s r bs"
proof -
  have q: "ptr - 16 \<in> all_blocks rbs" "k = szb s (ptr - 16)"
    using assms(2) by (auto simp: contents_def split: if_splits)
  then obtain r bs where r: "(r, bs) \<in> set rbs" "ptr - 16 \<in> set bs" by (auto simp: all_blocks_def)
  have ok: "region_ok s r bs" by (rule heap_inv_ok [OF assms(1) r(1)])
  have "unat (ptr - 16 + 16) = unat (ptr - 16) + 16"
    using region_ok_block(2) [OF ok r(2)] ok by (subst unat_add_u32) (auto simp: region_ok_def)
  then show thesis using that r q(2) ok by simp
qed

lemma live_bound:
  assumes "heap_inv s rbs" and "contents s rbs ptr = Some k"
  shows "unat ptr + unat k < 4294967296"
proof -
  obtain r bs where r: "(r, bs) \<in> set rbs" "ptr - 16 \<in> set bs" "k = szb s (ptr - 16)"
      "unat ptr = unat (ptr - 16) + 16" "region_ok s r bs"
    using contents_block [OF assms] .
  have "unat r + unat (hr_size (heap_regions s r)) < 4294967296" using r(5) by (simp add: region_ok_def)
  then show ?thesis using region_ok_block(2) [OF r(5,2)] r(4) unfolding r(3) by linarith
qed

lemma live_apart:
  assumes inv: "heap_inv s rbs" and p: "contents s rbs p = Some k" and q: "contents s rbs q = Some l" and ne: "p \<noteq> q"
  shows "unat p + unat k \<le> unat q \<or> unat q + unat l \<le> unat p"
proof -
  obtain r bs where r: "(r, bs) \<in> set rbs" "p - 16 \<in> set bs" "k = szb s (p - 16)" "unat p = unat (p - 16) + 16" "region_ok s r bs"
    using contents_block [OF inv p] by blast
  obtain r' bs' where r': "(r', bs') \<in> set rbs" "q - 16 \<in> set bs'" "l = szb s (q - 16)" "unat q = unat (q - 16) + 16" "region_ok s r' bs'"
    using contents_block [OF inv q] by blast
  have nb: "p - 16 \<noteq> q - 16" using ne by simp
  show ?thesis
  proof (cases "r = r'")
    case True
    have "distinct (map fst rbs)" using inv by (simp add: heap_inv_def dll_def)
    then have "bs = bs'" using r(1) r'(1) True by (metis eq_key_imp_eq_value)
    moreover have "tile (szb s) (unat r + 32) bs (unat r + unat (hr_size (heap_regions s r)))"
      using r(5) by (simp add: region_ok_def)
    ultimately show ?thesis
      using tile_disjoint [of "szb s" _ bs _ "p - 16" "q - 16"] r(2-4) r'(2-4) nb by fastforce
  next
    case False
    have "r \<in> set (map fst rbs)" "r' \<in> set (map fst rbs)" using r(1) r'(1) by force+
    then have "apart s r r'" using inv False unfolding heap_inv_def by blast
    then show ?thesis
      using region_ok_block(1,2) [OF r(5,2)] region_ok_block(1,2) [OF r'(5,2)] r(3,4) r'(3,4)
      by (auto simp: apart_def)
  qed
qed

lemma mapped_run_address:
  assumes "mapped_run (unat r div 4096) c g" and "unat r mod 4096 = 0" and "unat r \<le> unat a" and "unat a < unat r + c * 4096"
    and "a < 0xFFC00000"
  shows "pg_virt2phys a g \<noteq> 0"
proof -
  let ?i = "unat a div 4096 - unat r div 4096"
  have le: "unat r div 4096 \<le> unat a div 4096" using assms(3) by (rule div_le_mono)
  have "unat a < (unat r div 4096 + c) * 4096"
    using assms(2,4) div_mult_mod_eq [of "unat r" 4096] by (simp add: add_mult_distrib)
  then have "unat a div 4096 < unat r div 4096 + c" by (simp add: div_less_iff_less_mult)
  then have "?i < c" using le by linarith
  then obtain x where "pg_abs g (unat r div 4096 + ?i) = Some x" "x \<noteq> 0" using assms(1) unfolding mapped_run_def by blast
  moreover from this(2) have "y OR x \<noteq> 0" for y :: u32 by (metis or_eq_0_iff)
  ultimately show ?thesis using le by (simp add: pg_virt2phys_abs [OF assms(5)])
qed

lemma live_mapped:
  assumes sys: "heap_system (s, v, p, g) rbs" and m: "heap_mapped (s, v, p, g) rbs" and live: "contents s rbs ptr = Some k"
    and a: "unat ptr \<le> unat a" "unat a < unat ptr + unat k"
  shows "pg_virt2phys a g \<noteq> 0"
proof -
  have inv: "heap_inv s rbs" and shape: "vmm_shape v" using sys by (auto simp: heap_system_def vmm_inv_def)
  obtain r bs where r: "(r, bs) \<in> set rbs" "ptr - 16 \<in> set bs" "k = szb s (ptr - 16)"
      "unat ptr = unat (ptr - 16) + 16" "region_ok s r bs"
    using contents_block [OF inv live] .
  let ?c = "unat (TO_PAGE (hr_size (heap_regions s r)))"
  have size: "unat (hr_size (heap_regions s r)) = ?c * 4096"
    using r(5) by (intro aligned_pages) (simp add: region_ok_def)
  have in_region: "unat r \<le> unat a" "unat a < unat r + ?c * 4096"
    using region_ok_block(1,2) [OF r(5,2)] r(4) a [unfolded r(3)] size by linarith+
  obtain n where n: "r = vaddr v n" "n + ?c \<le> unat (vmm_total_pages v)" "0 < ?c"
    using sys r(1) by (auto simp: heap_system_def region_reserved_def)
  have ur: "unat r div 4096 = vpage v + n" using vaddr_page(3) [OF shape, of n] n by simp
  have r0: "unat r mod 4096 = 0" using r(5) by (simp add: region_ok_def page_aligned_def)
  have "unat r = (vpage v + n) * 4096" using r0 ur div_mult_mod_eq [of "unat r" 4096] by simp
  then have "unat a < (vpage v + (n + ?c)) * 4096" using in_region(2) by (simp add: add_mult_distrib)
  also have "\<dots> \<le> 0xFFC00 * 4096" using vmm_total(2) [OF shape] n(2) by (intro mult_le_mono1) linarith
  finally have "a < 0xFFC00000" by (simp add: word_less_nat_alt)
  moreover have "mapped_run (unat r div 4096) ?c g" using m r(1) by (force simp: heap_mapped_def region_mapped_def)
  ultimately show ?thesis using mapped_run_address [OF _ r0 in_region] by blast
qed

section \<open>Sequences of calls\<close>

text \<open>
  What the kernel does with its heap: a sequence of \<^verbatim>\<open>kmalloc\<close> and \<^verbatim>\<open>kfree\<close>, each with any argument. The
  list records the pointers handed out and not yet freed, with the sizes that were asked for; a pointer that
  is handed out twice is in it twice.
\<close>

datatype heap_call = Kmalloc u32 | Kfree u32

fun heap_step :: "heap_call \<Rightarrow> (u32 \<times> u32) list \<times> heap \<times> mm \<Rightarrow> ((u32 \<times> u32) list \<times> heap \<times> mm) option" where
  "heap_step (Kmalloc sz) (live, st) = do {
     (ptr, st) \<leftarrow> kmalloc sz st;
     Some (if ptr = 0 then live else (ptr, sz) # live, st)
   }"
| "heap_step (Kfree ptr) (live, st) = do {
     st \<leftarrow> kfree ptr st;
     Some (filter (\<lambda>x. fst x \<noteq> ptr) live, st)
   }"

fun heap_calls :: "heap_call list \<Rightarrow> (u32 \<times> u32) list \<times> heap \<times> mm \<Rightarrow> ((u32 \<times> u32) list \<times> heap \<times> mm) option" where
  "heap_calls [] x = Some x"
| "heap_calls (c # cs) x = do { x \<leftarrow> heap_step c x; heap_calls cs x }"

definition call_fits :: "heap_call \<Rightarrow> bool" where
  "call_fits c \<longleftrightarrow> (case c of Kmalloc sz \<Rightarrow> unat sz + 4158 < 4294967296 | Kfree ptr \<Rightarrow> True)"

text \<open>Two ranges of bytes that do not overlap, and a range whose bytes all translate.\<close>

definition ranges_apart :: "u32 \<times> u32 \<Rightarrow> u32 \<times> u32 \<Rightarrow> bool" where
  "ranges_apart x y \<longleftrightarrow>
     unat (fst x) + unat (snd x) \<le> unat (fst y) \<or> unat (fst y) + unat (snd y) \<le> unat (fst x)"

definition range_mapped :: "paging \<Rightarrow> u32 \<times> u32 \<Rightarrow> bool" where
  "range_mapped g x \<longleftrightarrow> unat (fst x) + unat (snd x) < 4294967296 \<and>
     (\<forall>a. unat (fst x) \<le> unat a \<longrightarrow> unat a < unat (fst x) + unat (snd x) \<longrightarrow> pg_virt2phys a g \<noteq> 0)"

text \<open>The pointers of the list are exactly those in use, and their blocks have the room.\<close>

definition heap_serves :: "(u32 \<times> u32) list \<Rightarrow> heap \<times> mm \<Rightarrow> bool" where
  "heap_serves live st \<longleftrightarrow> (\<exists>rbs. heap_system st rbs \<and> heap_mapped st rbs \<and> distinct (map fst live) \<and>
     dom (contents (fst st) rbs) = fst ` set live \<and>
     (\<forall>x \<in> set live. \<exists>k. contents (fst st) rbs (fst x) = Some k \<and> snd x \<le> k))"

lemma heap_system_refused:
  assumes "heap_system (s, m) rbs" and "vmm_refused m m'"
  shows "heap_system (s, m') rbs" and "heap_mapped (s, m') rbs = heap_mapped (s, m) rbs"
proof -
  obtain v p g w q h where m: "m = (v, p, g)" "m' = (w, q, h)" by (cases m, cases m')
  have w: "vmm_inv w" "same_range v w" "vfree w \<subseteq> vfree v" "pmm_inv q" "h = g"
    using assms(2) by (simp_all add: vmm_refused_def m)
  have "region_reserved w s r" if "region_reserved v s r" for r
    using that w(2,3) same_range_vaddr [OF w(2)] unfolding region_reserved_def same_range_def by fastforce
  then show "heap_system (s, m') rbs" using assms(1) w by (auto simp: heap_system_def m)
  show "heap_mapped (s, m') rbs = heap_mapped (s, m) rbs" using w(5) by (simp add: heap_mapped_def m)
qed

lemma heap_serves_malloc:
  assumes "heap_serves live (s, m)" and "call_fits (Kmalloc sz)"
  shows "\<exists>ptr s' m'. kmalloc sz (s, m) = Some (ptr, s', m') \<and>
    (if ptr = 0 then heap_serves live (s', m') \<and> (sz \<noteq> 0 \<longrightarrow> \<not> run_room (unat (grow_pages (ALIGN sz BLOCK_ALIGNMENT))) m)
     else heap_serves ((ptr, sz) # live) (s', m') \<and>
       (m' = m \<or> run_taken (unat (grow_pages (ALIGN sz BLOCK_ALIGNMENT))) m m'))"
proof (cases "sz = 0")
  case True
  then show ?thesis using assms(1) by (simp add: kmalloc_def heap_alloc_def)
next
  case False
  obtain rbs where r: "heap_system (s, m) rbs" "heap_mapped (s, m) rbs" "distinct (map fst live)"
      "dom (contents s rbs) = fst ` set live" "\<forall>x \<in> set live. \<exists>k. contents s rbs (fst x) = Some k \<and> snd x \<le> k"
    using assms(1) by (auto simp: heap_serves_def)
  have fit: "unat sz + 4158 < 4294967296" using assms(2) by (simp add: call_fits_def)
  obtain ptr s' m' where a: "kmalloc sz (s, m) = Some (ptr, s', m')"
    and q0: "if ptr = 0 then s' = s \<and> (\<forall>(b, r) \<in> set (pairs rbs). \<not> block_fits s (ALIGN sz BLOCK_ALIGNMENT) 1 r b) \<and>
       ((1 :: u32) \<noteq> 0 \<longrightarrow> \<not> run_room (unat (grow_pages (ALIGN sz BLOCK_ALIGNMENT))) m \<and> vmm_refused m m')
     else \<exists>rbs' k. heap_system (s', m') rbs' \<and> contents s rbs ptr = None \<and> sz \<le> k \<and>
       contents s' rbs' = (contents s rbs)(ptr \<mapsto> k) \<and>
       (heap_mapped (s, m) rbs \<longrightarrow> heap_mapped (s', m') rbs') \<and>
       (m' = m \<or> ((1 :: u32) \<noteq> 0 \<longrightarrow> run_taken (unat (grow_pages (ALIGN sz BLOCK_ALIGNMENT))) m m'))"
    using heap_alloc_cases [OF r(1) False fit, of 1] unfolding kmalloc_def by blast
  have q: "if ptr = 0 then s' = s \<and> \<not> run_room (unat (grow_pages (ALIGN sz BLOCK_ALIGNMENT))) m \<and> vmm_refused m m'
     else \<exists>rbs' k. heap_system (s', m') rbs' \<and> contents s rbs ptr = None \<and> sz \<le> k \<and>
       contents s' rbs' = (contents s rbs)(ptr \<mapsto> k) \<and> heap_mapped (s', m') rbs' \<and>
       (m' = m \<or> run_taken (unat (grow_pages (ALIGN sz BLOCK_ALIGNMENT))) m m')"
    using q0 r(2) by (cases "ptr = 0") simp_all
  show ?thesis
  proof (cases "ptr = 0")
    case True
    then have "s' = s" "vmm_refused m m'" using q by simp_all
    then have "heap_system (s', m') rbs" "heap_mapped (s', m') rbs"
      using heap_system_refused [OF r(1)] r(2) by simp_all
    then have "heap_serves live (s', m')" using r(3-5) \<open>s' = s\<close> unfolding heap_serves_def fst_conv by blast
    then show ?thesis using a q True by auto
  next
    case False
    then obtain rbs' k where b: "heap_system (s', m') rbs'" "contents s rbs ptr = None" "sz \<le> k"
        "contents s' rbs' = (contents s rbs)(ptr \<mapsto> k)" "heap_mapped (s', m') rbs'"
        "m' = m \<or> run_taken (unat (grow_pages (ALIGN sz BLOCK_ALIGNMENT))) m m'"
      using q by auto
    have new: "ptr \<notin> fst ` set live" using b(2) r(4) by (metis domIff)
    then have "fst x \<noteq> ptr" if "x \<in> set live" for x using that by force
    then have "\<forall>x \<in> set ((ptr, sz) # live). \<exists>k. contents s' rbs' (fst x) = Some k \<and> snd x \<le> k"
      using r(5) b(3) by (simp add: b(4))
    moreover have "dom (contents s' rbs') = fst ` set ((ptr, sz) # live)" by (simp add: b(4) r(4))
    moreover have "distinct (map fst ((ptr, sz) # live))" using r(3) new by simp
    ultimately have "heap_serves ((ptr, sz) # live) (s', m')"
      unfolding heap_serves_def fst_conv using b(1,5) by blast
    then show ?thesis using a b(6) False by auto
  qed
qed

lemma heap_serves_free:
  assumes "heap_serves live (s, m)"
  shows "\<exists>s' m'. kfree ptr (s, m) = Some (s', m') \<and> heap_serves (filter (\<lambda>x. fst x \<noteq> ptr) live) (s', m')"
proof -
  obtain rbs where r: "heap_system (s, m) rbs" "heap_mapped (s, m) rbs" "distinct (map fst live)"
      "dom (contents s rbs) = fst ` set live" "\<forall>x \<in> set live. \<exists>k. contents s rbs (fst x) = Some k \<and> snd x \<le> k"
    using assms by (auto simp: heap_serves_def)
  have dist: "distinct (map fst (filter (\<lambda>x. fst x \<noteq> ptr) live))" using r(3) by (rule distinct_map_filter)
  show ?thesis
  proof (cases "contents s rbs ptr")
    case None
    then have "ptr \<notin> fst ` set live" using r(4) by (metis domIff)
    then have "filter (\<lambda>x. fst x \<noteq> ptr) live = live" by (intro filter_True) force
    then show ?thesis using heap_free_invalid [OF r(1) None] assms by (simp add: kfree_def)
  next
    case (Some k)
    obtain s' m' rbs' where f: "heap_free ptr (s, m) = Some (s', m')" "heap_system (s', m') rbs'"
        "heap_mapped (s', m') rbs'" "contents s' rbs' = (contents s rbs)(ptr := None)"
      using heap_free_step [OF r(1) Some] r(2) by blast
    have "dom (contents s' rbs') = fst ` set (filter (\<lambda>x. fst x \<noteq> ptr) live)"
      unfolding f(4) dom_fun_upd r(4) by auto
    moreover have "\<forall>x \<in> set (filter (\<lambda>x. fst x \<noteq> ptr) live). \<exists>k. contents s' rbs' (fst x) = Some k \<and> snd x \<le> k"
      using r(5) by (simp add: f(4))
    ultimately have "heap_serves (filter (\<lambda>x. fst x \<noteq> ptr) live) (s', m')"
      unfolding heap_serves_def fst_conv using f(2,3) dist by blast
    then show ?thesis using f(1) by (simp add: kfree_def)
  qed
qed

lemma heap_serves_call:
  assumes "heap_serves live st" and "call_fits c"
  shows "\<exists>live' st'. heap_step c (live, st) = Some (live', st') \<and> heap_serves live' st'"
proof -
  obtain s m where st: "st = (s, m)" by (cases st)
  show ?thesis
  proof (cases c)
    case (Kmalloc sz)
    then obtain ptr s' m' where "kmalloc sz (s, m) = Some (ptr, s', m')"
        "heap_serves (if ptr = 0 then live else (ptr, sz) # live) (s', m')"
      using heap_serves_malloc [OF assms(1) [unfolded st] assms(2) [unfolded Kmalloc]] by (auto split: if_splits)
    then show ?thesis by (simp add: Kmalloc st)
  next
    case (Kfree ptr)
    then show ?thesis using heap_serves_free [of live s m ptr] assms(1) by (auto simp: st)
  qed
qed

lemma heap_serves_calls:
  "\<lbrakk>heap_serves live st; \<forall>c \<in> set cs. call_fits c\<rbrakk> \<Longrightarrow>
   \<exists>live' st'. heap_calls cs (live, st) = Some (live', st') \<and> heap_serves live' st'"
proof (induction cs arbitrary: live st)
  case Nil
  then show ?case by simp
next
  case (Cons c cs)
  then obtain live' st' where "heap_step c (live, st) = Some (live', st')" "heap_serves live' st'"
    using heap_serves_call by (metis list.set_intros(1))
  with Cons show ?case by simp
qed

lemma heap_serves_apart:
  assumes "heap_serves live (s, v, p, g)"
  shows "sorted_wrt ranges_apart live" and "list_all (range_mapped g) live"
proof -
  obtain rbs where r: "heap_system (s, v, p, g) rbs" "heap_mapped (s, v, p, g) rbs" "distinct (map fst live)"
      "\<forall>x \<in> set live. \<exists>k. contents s rbs (fst x) = Some k \<and> snd x \<le> k"
    using assms by (auto simp: heap_serves_def)
  have inv: "heap_inv s rbs" using r(1) by (simp add: heap_system_def)
  have ap: "ranges_apart (live ! i) (live ! j)" if "i < j" "j < length live" for i j
  proof -
    have "fst (live ! i) \<noteq> fst (live ! j)" using r(3) that by (simp add: distinct_conv_nth)
    moreover have "live ! i \<in> set live" "live ! j \<in> set live" using that by simp_all
    then obtain k l where kl: "contents s rbs (fst (live ! i)) = Some k" "snd (live ! i) \<le> k"
        "contents s rbs (fst (live ! j)) = Some l" "snd (live ! j) \<le> l"
      using r(4) by metis
    ultimately have "unat (fst (live ! i)) + unat k \<le> unat (fst (live ! j)) \<or>
        unat (fst (live ! j)) + unat l \<le> unat (fst (live ! i))" by (intro live_apart [OF inv kl(1,3)])
    then show ?thesis using kl(2,4) by (auto simp: ranges_apart_def word_le_nat_alt)
  qed
  show "sorted_wrt ranges_apart live" by (simp add: sorted_wrt_iff_nth_less ap)
  have "range_mapped g x" if x: "x \<in> set live" for x
  proof -
    obtain k where k: "contents s rbs (fst x) = Some k" "unat (snd x) \<le> unat k"
      using bspec [OF r(4) x] by (auto simp: word_le_nat_alt)
    show ?thesis
      using live_bound [OF inv k(1)] live_mapped [OF r(1,2) k(1)] k(2) unfolding range_mapped_def by simp
  qed
  then show "list_all (range_mapped g) live" by (simp add: list_all_iff)
qed

lemma heap_serves_init: "\<lbrakk>vmm_inv v; pmm_inv p; pg_wf g\<rbrakk> \<Longrightarrow> heap_serves [] (heap_init s, v, p, g)"
  unfolding heap_serves_def
  by (rule exI [of _ "[]"])
    (auto simp: heap_system_def heap_mapped_def heap_inv_def heap_init_def dll_def contents_def all_blocks_def)

section \<open>The properties\<close>

text \<open>A heap with one region of two pages, a used block of 256 bytes and a free one, for the witnesses.\<close>

definition small_heap :: heap where
  "small_heap = \<lparr>heap_head = 0xC0000000, heap_tail = 0xC0000000,
     heap_blocks = (\<lambda>b. if b = 0xC0000020 then \<lparr>hb_size = 0x100, hb_flags = 1, hb_next = 0xC0000130, hb_prev = 0\<rparr>
        else \<lparr>hb_size = 0x1EC0, hb_flags = 0, hb_next = 0, hb_prev = 0xC0000020\<rparr>),
     heap_regions = (\<lambda>r. \<lparr>hr_size = 0x2000, hr_flags = 2, hr_next = 0, hr_prev = 0, hr_head = 0xC0000020,
        hr_tail = 0xC0000130\<rparr>)\<rparr>"

lemma small_heap_inv: "heap_inv small_heap [(0xC0000000, [0xC0000020, 0xC0000130])]"
  by (simp add: heap_inv_def region_ok_def dll_def small_heap_def page_aligned_def block_used_def BLOCK_USED_def)

lemma small_heap_system:
  "heap_system (small_heap, eight_pages, six_pages, pg_empty 0x300000) [(0xC0000000, [0xC0000020, 0xC0000130])]"
proof -
  have "region_reserved eight_pages small_heap 0xC0000000"
    unfolding region_reserved_def eight_pages_free
    by (rule exI [of _ 0]) (simp add: vaddr_def eight_pages_def small_heap_def TO_ADDR_def TO_PAGE_def)
  then show ?thesis
    by (simp add: heap_system_def small_heap_inv eight_pages_inv six_pages_inv pg_wf_empty)
qed

lemma small_heap_contents:
  "contents small_heap [(0xC0000000, [0xC0000020, 0xC0000130])] 0xC0000030 = Some 0x100"
  "contents small_heap [(0xC0000000, [0xC0000020, 0xC0000130])] 0xC0000140 = None"
  by (simp_all add: contents_def small_heap_def block_used_def BLOCK_USED_def)

text \<open>
  C2: \<^verbatim>\<open>heap_alloc\<close> of a size that does not wrap around when it is aligned always returns. A
  nonzero result is a pointer that was not in use before, its block holds at least \<^verbatim>\<open>size\<close> bytes,
  every other pointer in use keeps its block, and the invariant of heap and memory managers holds.
  The result is \<^verbatim>\<open>NULL\<close> only if no free block of the wanted kind was large enough, and then the
  heap is unchanged.
\<close>

theorem heap_alloc_correct:
  assumes "heap_system (s, m) rbs" and "sz \<noteq> 0" and "unat sz + 4158 < 4294967296"
  shows "\<exists>ptr s' m'. heap_alloc sz c (s, m) = Some (ptr, s', m') \<and>
    (if ptr = 0 then s' = s \<and> (\<forall>(b, r) \<in> set (pairs rbs). \<not> block_fits s (ALIGN sz BLOCK_ALIGNMENT) c r b)
     else \<exists>rbs' k. heap_system (s', m') rbs' \<and> contents s rbs ptr = None \<and> sz \<le> k \<and>
       contents s' rbs' = (contents s rbs)(ptr \<mapsto> k))"
  by (rule heap_alloc_step [OF assms])

theorem heap_alloc_correct_witness:
  "\<exists>ptr s' m'. heap_alloc 100 1 (small_heap, eight_pages, six_pages, pg_empty 0x300000) = Some (ptr, s', m') \<and> ptr \<noteq> 0"
proof -
  have "block_fits small_heap (ALIGN 100 BLOCK_ALIGNMENT) 1 0xC0000000 0xC0000130"
    by (simp add: block_fits_def small_heap_def block_used_def BLOCK_USED_def REGION_CONTIGUOUS_def ALIGN_def BLOCK_ALIGNMENT_def)
  then show ?thesis
    using heap_alloc_correct [OF small_heap_system, of 100 1] by (auto split: if_splits)
qed

text \<open>
  C1: \<^verbatim>\<open>heap_free\<close> of a pointer in use removes exactly that pointer from the heap's contents: every
  other pointer keeps its block and its size, free neighbours are merged, a region that is free as
  a whole goes back to the virtual memory manager, and the invariant holds.
\<close>

theorem heap_free_correct:
  assumes "heap_system (s, m) rbs" and "contents s rbs ptr = Some k"
  shows "\<exists>s' m' rbs'. heap_free ptr (s, m) = Some (s', m') \<and> heap_system (s', m') rbs' \<and>
    contents s' rbs' = (contents s rbs)(ptr := None)"
  using heap_free_step [OF assms] by blast

theorem heap_free_correct_witness:
  "\<exists>s' m' rbs'. heap_free 0xC0000030 (small_heap, eight_pages, six_pages, pg_empty 0x300000) = Some (s', m') \<and>
     heap_system (s', m') rbs' \<and> contents s' rbs' 0xC0000030 = None"
  using heap_free_correct [OF small_heap_system small_heap_contents(1)] by (metis fun_upd_same)

text \<open>
  \<^verbatim>\<open>heap_free\<close> of a pointer that is not in use (\<^verbatim>\<open>NULL\<close>, a pointer into the middle of a block, a
  block freed before) changes nothing.
\<close>

theorem heap_free_unknown_pointer:
  assumes "heap_system (s, m) rbs" and "contents s rbs ptr = None"
  shows "heap_free ptr (s, m) = Some (s, m)"
  by (rule heap_free_invalid [OF assms])

theorem heap_free_unknown_pointer_witness:
  "heap_free 0xC0000140 (small_heap, eight_pages, six_pages, pg_empty 0x300000) =
     Some (small_heap, eight_pages, six_pages, pg_empty 0x300000)"
  using heap_free_unknown_pointer [OF small_heap_system small_heap_contents(2)] .

text \<open>
  C5: a pointer returned by \<^verbatim>\<open>heap_alloc\<close> and then freed leaves the contents of the heap as they were.
\<close>

theorem heap_alloc_free:
  assumes "heap_system (s, m) rbs" and "sz \<noteq> 0" and "unat sz + 4158 < 4294967296"
    and "heap_alloc sz c (s, m) = Some (ptr, s1, m1)" and "ptr \<noteq> 0"
  shows "\<exists>s2 m2 rbs2. heap_free ptr (s1, m1) = Some (s2, m2) \<and> heap_system (s2, m2) rbs2 \<and>
    contents s2 rbs2 = contents s rbs"
proof -
  obtain rbs1 k where r: "heap_system (s1, m1) rbs1" "contents s rbs ptr = None"
      "contents s1 rbs1 = (contents s rbs)(ptr \<mapsto> k)"
    using heap_alloc_step [OF assms(1-3), of c] assms(4,5) by auto
  then have "contents s1 rbs1 ptr = Some k" by simp
  from heap_free_step [OF r(1) this] show ?thesis using r(2,3) by (auto simp: fun_upd_idem)
qed

theorem heap_alloc_free_witness:
  "\<exists>ptr s1 m1 s2 m2 rbs2. heap_alloc 100 1 (small_heap, eight_pages, six_pages, pg_empty 0x300000) = Some (ptr, s1, m1) \<and>
     heap_free ptr (s1, m1) = Some (s2, m2) \<and>
     contents s2 rbs2 = contents small_heap [(0xC0000000, [0xC0000020, 0xC0000130])]"
proof -
  have fits: "block_fits small_heap (ALIGN 100 BLOCK_ALIGNMENT) 1 0xC0000000 0xC0000130"
    by (simp add: block_fits_def small_heap_def block_used_def BLOCK_USED_def REGION_CONTIGUOUS_def ALIGN_def BLOCK_ALIGNMENT_def)
  obtain ptr s1 m1 where a: "heap_alloc 100 1 (small_heap, eight_pages, six_pages, pg_empty 0x300000) = Some (ptr, s1, m1)" "ptr \<noteq> 0"
    using heap_alloc_step [OF small_heap_system, of 100 1] fits by (auto split: if_splits)
  from heap_alloc_free [OF small_heap_system _ _ a] a(1) show ?thesis by auto
qed

text \<open>Managers of 64 pages with the first reserved, for the witness: there is room for two regions.\<close>

definition sixty_four_pages :: vmm where
  "sixty_four_pages = \<lparr>vmm_bitmap_ptr = 0xC0200000, vmm_bitmap = [1, 0], vmm_bitmap_size = 8, vmm_total_pages = 64,
     vmm_usable_pages = 64, vmm_free_pages = 63, vmm_used_pages = 1, vmm_largest_run = 0,
     vmm_base = 0xC0000000, vmm_end = 0xC0040000\<rparr>"

definition sixty_four_frames :: pmm where
  "sixty_four_frames = \<lparr>pmm_bitmap_ptr = 0xC0200000, pmm_bitmap = [1, 0], pmm_bitmap_size = 8,
     pmm_total_pages = 64, pmm_usable_pages = 64, pmm_free_pages = 63, pmm_used_pages = 1,
     pmm_hint = 0, pmm_largest_run = 0, pmm_memory_end = 0x40000\<rparr>"

lemma sixty_four_pages_inv: "vmm_inv sixty_four_pages" and sixty_four_pages_free: "vfree sixty_four_pages = {1 ..< 64}"
proof -
  have "filter (\<lambda>n. \<not> used [1, 0] n) [0 ..< 64] = [1 ..< 64]" by code_simp
  moreover have "vfree sixty_four_pages = set (filter (\<lambda>n. \<not> used [1, 0] n) [0 ..< 64])"
    unfolding vfree_exec by (simp only: sixty_four_pages_def vmm.simps) simp
  ultimately show free: "vfree sixty_four_pages = {1 ..< 64}" by (simp only: set_upt)
  have "vmm_shape sixty_four_pages"
    by (simp add: vmm_shape_def sixty_four_pages_def page_aligned_def KVIRT_END_def TO_PAGE_def)
  with free show "vmm_inv sixty_four_pages" by (simp add: vmm_inv_def sixty_four_pages_def)
qed

lemma sixty_four_frames_inv: "pmm_inv sixty_four_frames" and sixty_four_frames_free: "free_set sixty_four_frames = {1 ..< 64}"
proof -
  have "filter (\<lambda>n. \<not> used [1, 0] n) [0 ..< 64] = [1 ..< 64]" by code_simp
  moreover have "free_set sixty_four_frames = set (filter (\<lambda>n. \<not> used [1, 0] n) [0 ..< 64])"
    unfolding free_set_exec by (simp only: sixty_four_frames_def pmm.simps) simp
  ultimately show free: "free_set sixty_four_frames = {1 ..< 64}" by (simp only: set_upt)
  have "pmm_shape sixty_four_frames" by (simp add: pmm_shape_exec sixty_four_frames_def)
  with free show "pmm_inv sixty_four_frames" by (simp add: pmm_inv_def pmm_wf_def sixty_four_frames_def)
qed

lemma two_small_blocks:
  "\<exists>p q st. heap_calls [Kmalloc 100, Kmalloc 200] ([], heap_init small_heap, sixty_four_pages, sixty_four_frames, pg_empty 0x300000) =
     Some ([(q, 200), (p, 100)], st)"
proof -
  let ?m = "(sixty_four_pages, sixty_four_frames, pg_empty 0x300000)"
  have "{1 ..< 1 + (2 * 16 + 16)} \<subseteq> {1 ..< 64 :: nat}" by auto
  then have room: "run_room (2 * 16 + 16) ?m"
    unfolding run_room_def prod.case sixty_four_pages_free sixty_four_frames_free by blast
  have gp: "unat (grow_pages (ALIGN 100 BLOCK_ALIGNMENT)) = 16" "unat (grow_pages (ALIGN 200 BLOCK_ALIGNMENT)) = 16" by code_simp+
  obtain p s m where a: "kmalloc 100 (heap_init small_heap, ?m) = Some (p, s, m)" "p \<noteq> 0" "heap_serves [(p, 100)] (s, m)"
      "m = ?m \<or> run_taken 16 ?m m"
    using heap_serves_malloc [OF heap_serves_init [OF sixty_four_pages_inv sixty_four_frames_inv pg_wf_empty], of 100 small_heap "0x300000"]
      run_room_less [OF room, of 16] unfolding gp by (auto simp: call_fits_def split: if_splits)
  have "run_room 16 m" using a(4) run_room_less [OF room, of 16] run_room_taken [OF room, of m] by auto
  then obtain q st where "kmalloc 200 (s, m) = Some (q, st)" "q \<noteq> 0"
    using heap_serves_malloc [OF a(3), of 200] unfolding gp by (auto simp: call_fits_def split: if_splits)
  then show ?thesis using a(1,2) by (intro exI [of _ p] exI [of _ q] exI [of _ st]) simp
qed

text \<open>
  C8: from a fresh heap on consistent managers, after any sequence of \<^verbatim>\<open>kmalloc\<close> and \<^verbatim>\<open>kfree\<close> (of sizes that do
  not wrap around; of any pointers, also \<^verbatim>\<open>NULL\<close>, unknown and freed ones), through failed allocations too: every call
  returns, and the pointers handed out and not yet freed own what was asked for. Their ranges do not overlap one
  another, none wraps around the address space, and every byte of them translates to a frame.
\<close>

theorem heap_live_blocks_disjoint:
  assumes "vmm_inv v" and "pmm_inv p" and "pg_wf g" and "\<forall>c \<in> set cs. call_fits c"
  shows "\<exists>live s' v' p' g'. heap_calls cs ([], heap_init s, v, p, g) = Some (live, s', v', p', g') \<and>
    sorted_wrt ranges_apart live \<and> list_all (range_mapped g') live"
proof -
  obtain live st where "heap_calls cs ([], heap_init s, v, p, g) = Some (live, st)" "heap_serves live st"
    using heap_serves_calls [OF heap_serves_init [OF assms(1-3)] assms(4)] by blast
  then show ?thesis using heap_serves_apart by (cases st) blast
qed

theorem heap_live_blocks_disjoint_witness:
  "\<exists>p q. p \<noteq> q \<and> (unat p + 100 \<le> unat q \<or> unat q + 200 \<le> unat p) \<and>
     (\<exists>st. heap_calls [Kmalloc 100, Kmalloc 200] ([], heap_init small_heap, sixty_four_pages, sixty_four_frames, pg_empty 0x300000) =
       Some ([(q, 200), (p, 100)], st))"
proof -
  obtain p q st where c: "heap_calls [Kmalloc 100, Kmalloc 200] ([], heap_init small_heap, sixty_four_pages, sixty_four_frames, pg_empty 0x300000) =
      Some ([(q, 200), (p, 100)], st)" using two_small_blocks by blast
  have "sorted_wrt ranges_apart [(q, 200), (p, 100)]"
    using heap_live_blocks_disjoint [OF sixty_four_pages_inv sixty_four_frames_inv pg_wf_empty, of "[Kmalloc 100, Kmalloc 200]" small_heap "0x300000"] c
    by (auto simp: call_fits_def)
  then have d: "unat p + 100 \<le> unat q \<or> unat q + 200 \<le> unat p" by (auto simp: ranges_apart_def)
  then have "p \<noteq> q" by auto
  then show ?thesis using c d by blast
qed

text \<open>
  C7: the memory of the heap can be accessed. Every byte of a block in use translates to a frame, and every
  successful \<^verbatim>\<open>heap_alloc\<close> and every \<^verbatim>\<open>heap_free\<close> of a pointer in use keep it so, for the new block too.
\<close>

theorem heap_memory_mapped:
  assumes "heap_system (s, v, p, g) rbs" and "heap_mapped (s, v, p, g) rbs"
  shows "(\<forall>ptr k a. contents s rbs ptr = Some k \<longrightarrow> unat ptr \<le> unat a \<longrightarrow> unat a < unat ptr + unat k \<longrightarrow>
      pg_virt2phys a g \<noteq> 0) \<and>
    (\<forall>sz c ptr s' m'. sz \<noteq> 0 \<longrightarrow> unat sz + 4158 < 4294967296 \<longrightarrow> heap_alloc sz c (s, v, p, g) = Some (ptr, s', m') \<longrightarrow>
      ptr \<noteq> 0 \<longrightarrow> (\<exists>rbs' k. heap_system (s', m') rbs' \<and> heap_mapped (s', m') rbs' \<and> sz \<le> k \<and>
        contents s' rbs' = (contents s rbs)(ptr \<mapsto> k))) \<and>
    (\<forall>ptr k s' m'. contents s rbs ptr = Some k \<longrightarrow> heap_free ptr (s, v, p, g) = Some (s', m') \<longrightarrow>
      (\<exists>rbs'. heap_system (s', m') rbs' \<and> heap_mapped (s', m') rbs' \<and> contents s' rbs' = (contents s rbs)(ptr := None)))"
proof (intro conjI allI impI)
  fix ptr k a :: u32 assume "contents s rbs ptr = Some k" "unat ptr \<le> unat a" "unat a < unat ptr + unat k"
  then show "pg_virt2phys a g \<noteq> 0" by (rule live_mapped [OF assms])
next
  fix sz c ptr s' m' assume a: "sz \<noteq> 0" "unat sz + 4158 < 4294967296" "heap_alloc sz c (s, v, p, g) = Some (ptr, s', m')" "ptr \<noteq> 0"
  from heap_alloc_cases [OF assms(1) a(1,2), of c] a(3,4) assms(2)
  show "\<exists>rbs' k. heap_system (s', m') rbs' \<and> heap_mapped (s', m') rbs' \<and> sz \<le> k \<and> contents s' rbs' = (contents s rbs)(ptr \<mapsto> k)"
    by (simp, blast)
next
  fix ptr k s' m' assume a: "contents s rbs ptr = Some k" "heap_free ptr (s, v, p, g) = Some (s', m')"
  from heap_free_step [OF assms(1) a(1)] a(2) assms(2)
  show "\<exists>rbs'. heap_system (s', m') rbs' \<and> heap_mapped (s', m') rbs' \<and> contents s' rbs' = (contents s rbs)(ptr := None)"
    by auto
qed

theorem heap_memory_mapped_witness:
  "pg_virt2phys 0xC000012F (pg_map 0xC0000000 0x4000 PTE_RW 2 (pg_empty 0x300000)) \<noteq> 0 \<and>
   contents small_heap [(0xC0000000, [0xC0000020, 0xC0000130])] 0xC0000030 = Some 0x100"
proof -
  let ?g = "pg_map 0xC0000000 0x4000 PTE_RW 2 (pg_empty 0x300000)"
  note m = pg_map_abs [OF pg_wf_empty, of "0xC0000000" 2 "0x4000" PTE_RW]
  have sys: "heap_system (small_heap, eight_pages, six_pages, ?g) [(0xC0000000, [0xC0000020, 0xC0000130])]"
    using small_heap_system m(1) by (simp add: heap_system_def)
  have "mapped_run (unat (0xC0000000 :: u32) div 4096) 2 ?g"
    unfolding mapped_run_def
  proof (intro allI impI)
    fix i :: nat assume "i < 2"
    then consider "i = 0" | "i = 1" by linarith
    then show "\<exists>x. pg_abs ?g (unat (0xC0000000 :: u32) div 4096 + i) = Some x \<and> x \<noteq> 0"
      by cases (simp_all add: m(2) PAGE_SIZE_def)
  qed
  moreover have "unat (TO_PAGE (hr_size (heap_regions small_heap 0xC0000000))) = 2" by (simp add: small_heap_def TO_PAGE_def)
  ultimately have "heap_mapped (small_heap, eight_pages, six_pages, ?g) [(0xC0000000, [0xC0000020, 0xC0000130])]"
    by (simp add: heap_mapped_def region_mapped_def)
  from heap_memory_mapped [OF sys this, THEN conjunct1, rule_format, OF small_heap_contents(1), of "0xC000012F"]
  show ?thesis using small_heap_contents(1) by simp
qed

text \<open>
  a size above \<^verbatim>\<open>0xFFFFFFF0\<close> is aligned to 0, and \<^verbatim>\<open>heap_alloc\<close> then hands out a block that is
  smaller than what was asked for, if a free block of the wanted kind exists.
\<close>

theorem heap_alloc_size_wraps:
  assumes "heap_system (s, m) rbs" and "0xFFFFFFF0 < sz" and "(b, r) \<in> set (pairs rbs)" and "\<not> usedb s b"
    and "(c \<noteq> 0) = (hr_flags (heap_regions s r) AND REGION_CONTIGUOUS \<noteq> 0)"
  shows "\<exists>ptr s' rbs' k. heap_alloc sz c (s, m) = Some (ptr, s', m) \<and> ptr \<noteq> 0 \<and>
    contents s' rbs' ptr = Some k \<and> k < sz"
proof -
  have "unat (sz + 15) < 16"
  proof -
    have "4294967280 < unat sz" using assms(2) by (simp add: word_less_nat_alt)
    moreover have "unat (sz + 15) = (unat sz + 15) mod 4294967296" by (simp add: unat_mod_add_u32)
    moreover have "\<dots> = (unat sz + 15 - 4294967296) mod 4294967296"
      using calculation(1) by (intro le_mod_geq) simp
    moreover have "unat sz + 15 - 4294967296 < 4294967296" using unat_less_u32 [of sz] by linarith
    ultimately have "unat (sz + 15) = unat sz - 4294967281" by simp
    then show ?thesis using unat_less_u32 [of sz] by linarith
  qed
  moreover have "ALIGN sz 16 = push_bit 4 (drop_bit 4 (sz + 15))"
    using and_not_mask_u32 [of "sz + 15" 4] by (simp add: ALIGN_def mask_eq_exp_minus_1)
  ultimately have z: "ALIGN sz BLOCK_ALIGNMENT = 0"
    by (simp add: BLOCK_ALIGNMENT_def word_unat_eq_iff unat_push_bit_u32 unat_drop_bit_u32)
  have inv: "heap_inv s rbs" using assms(1) by (cases m) (simp add: heap_system_def)
  have "block_fits s 0 c r b" using assms(4,5) by (simp add: block_fits_def)
  with find_cases [OF inv, of "\<lambda>(b, r). block_fits s 0 c r b"] assms(3) obtain b' r' xs ys us vs where
    f: "found (find (\<lambda>(b, r). block_fits s 0 c r b) (pairs rbs)) = (b', r')" "block_fits s 0 c r' b'" "b' \<noteq> 0"
      "rbs = xs @ (r', us @ b' # vs) # ys"
    by (simp only: prod.case) fast
  have free: "\<not> usedb s b'" using f(2) by (simp add: block_fits_def)
  obtain s' bs' where a: "block_alloc r' b' 0 s = (True, s')" "heap_system (s', m) (xs @ (r', bs') # ys)"
      "contents s' (xs @ (r', bs') # ys) = (contents s rbs)(BLOCK_PTR b' \<mapsto> szb s' b')"
    using alloc_in_block [OF assms(1) [unfolded f(4)] free, of 0] f(4) by auto
  have inv': "heap_inv s' (xs @ (r', bs') # ys)" using a(2) by (cases m) (simp add: heap_system_def)
  have con: "contents s' (xs @ (r', bs') # ys) (BLOCK_PTR b') = Some (szb s' b')" using a(3) by simp
  then obtain r2 bs2 where r2: "BLOCK_PTR b' - 16 \<in> set bs2" "szb s' b' = szb s' (BLOCK_PTR b' - 16)" "region_ok s' r2 bs2"
    using contents_block [OF inv' con] by metis
  have "szb s' b' < sz"
    using region_ok_block(1,2) [OF r2(3,1)] r2(2,3) assms(2) by (auto simp: word_less_nat_alt region_ok_def)
  moreover have "BLOCK_PTR b' \<noteq> 0" using block_ptr_nonzero [OF r2(3,1)] by (simp add: BLOCK_PTR_def)
  moreover have "sz \<noteq> 0" using assms(2) by auto
  then have "heap_alloc sz c (s, m) = Some (BLOCK_PTR b', s', m)"
    using f(1,3) a(1) by (simp add: heap_alloc_def block_find_free_eq [OF inv] z)
  ultimately show ?thesis using con by blast
qed

theorem heap_alloc_size_wraps_witness:
  "\<exists>ptr s' rbs' k. heap_alloc 0xFFFFFFFF 1 (small_heap, eight_pages, six_pages, pg_empty 0x300000) =
     Some (ptr, s', eight_pages, six_pages, pg_empty 0x300000) \<and> ptr \<noteq> 0 \<and> contents s' rbs' ptr = Some k \<and> k < 0xFFFFFFFF"
  by (rule heap_alloc_size_wraps [OF small_heap_system, of _ "0xC0000130" "0xC0000000"])
    (simp_all add: small_heap_def block_used_def BLOCK_USED_def REGION_CONTIGUOUS_def)

end
