(* ===== verification/Disasm.thy ===== *)
theory Disasm
  imports Paging
begin

text \<open>
  \<^verbatim>\<open>src/disasm/i80386_mnem.c\<close>, first part: the state of the disassembler, the fetch functions, the
  token line and the operand of a Mod R/M byte. The disassembler reads code through the page tables
  of the kernel; the memory behind them is a byte for each virtual address.

  A function returns \<open>None\<close> when the C code would fault: a read from a page that is not present, or
  an index outside one of the name tables. A fetch that fails because \<^verbatim>\<open>pg_virt2phys\<close> says so is an
  ordinary result, as in the code.
\<close>

section \<open>State\<close>

datatype MNEM_TOKEN_TYPE =
    MNEM_TOKEN_MNEMONIC
  | MNEM_TOKEN_GENERAL_REGISTER
  | MNEM_TOKEN_CONTROL_REGISTER
  | MNEM_TOKEN_DEBUG_REGISTER
  | MNEM_TOKEN_TEST_REGISTER
  | MNEM_TOKEN_IMMEDIATE
  | MNEM_TOKEN_NUMBER
  | MNEM_TOKEN_MEMORY
  | MNEM_TOKEN_SEGMENT
  | MNEM_TOKEN_PREFIX
  | MNEM_TOKEN_OPERATOR
  | MNEM_TOKEN_RELATIVE_ADDRESS
  | MNEM_TOKEN_ABSOLUTE_ADDRESS

text \<open>The text is \<open>None\<close> where the C code passes \<^verbatim>\<open>NULL\<close>.\<close>

record MNEM_TOKEN =
  tok_text :: "string option"
  tok_type :: MNEM_TOKEN_TYPE
  tok_operand_size :: nat
  tok_len :: nat
  tok_number :: u32

definition I80386_MNEM_MAX_TOKENS :: nat where
  "I80386_MNEM_MAX_TOKENS = 32"

record I80386_EFFECTIVE_ADDRESS =
  ea_base :: u32
  ea_offset :: u32
  ea_segment_index :: u8
  ea_stack_address :: u8
  ea_valid :: u8

text \<open>
  The Mod R/M and SIB unions are their byte; the bit fields are functions. The line holds the first
  \<^verbatim>\<open>token_count\<close> tokens of the array, the only ones that are ever read.
\<close>

record I80386_MNEM =
  mn_counter :: u16
  mn_base :: u32
  mn_offset :: u32
  mn_opcode :: u8
  mn_segment_prefix :: u8
  mn_internal_flags :: u8
  mn_operand_size :: u8
  mn_addressing_size :: u8
  mn_modrm :: u8
  mn_sib :: u8
  mn_effective_address :: I80386_EFFECTIVE_ADDRESS
  mn_line :: "MNEM_TOKEN list"

definition modrm_rm :: "I80386_MNEM \<Rightarrow> u8" where
  "modrm_rm m = mn_modrm m AND 7"

definition modrm_reg :: "I80386_MNEM \<Rightarrow> u8" where
  "modrm_reg m = drop_bit 3 (mn_modrm m) AND 7"

definition modrm_mod :: "I80386_MNEM \<Rightarrow> u8" where
  "modrm_mod m = drop_bit 6 (mn_modrm m)"

definition sib_base :: "I80386_MNEM \<Rightarrow> u8" where
  "sib_base m = mn_sib m AND 7"

definition sib_index :: "I80386_MNEM \<Rightarrow> u8" where
  "sib_index m = drop_bit 3 (mn_sib m) AND 7"

definition sib_scale :: "I80386_MNEM \<Rightarrow> u8" where
  "sib_scale m = drop_bit 6 (mn_sib m)"

text \<open>The bits of the opcode that the macros of \<^verbatim>\<open>opcode_bits.h\<close> select.\<close>

definition OP_W :: "I80386_MNEM \<Rightarrow> bool" where
  "OP_W m \<longleftrightarrow> mn_opcode m AND 0x1 \<noteq> 0"

definition OP_WREG :: "I80386_MNEM \<Rightarrow> bool" where
  "OP_WREG m \<longleftrightarrow> mn_opcode m AND 0x8 \<noteq> 0"

definition OP_S :: "I80386_MNEM \<Rightarrow> bool" where
  "OP_S m \<longleftrightarrow> mn_opcode m AND 0x2 \<noteq> 0"

definition OP_SR :: "I80386_MNEM \<Rightarrow> u8" where
  "OP_SR m = drop_bit 3 (mn_opcode m) AND 0x3"

definition OP_ESR :: "I80386_MNEM \<Rightarrow> u8" where
  "OP_ESR m = drop_bit 3 (mn_opcode m) AND 0x7"

definition OP_VW :: "I80386_MNEM \<Rightarrow> bool" where
  "OP_VW m \<longleftrightarrow> mn_opcode m AND 0x2 \<noteq> 0"

definition OP_D :: "I80386_MNEM \<Rightarrow> bool" where
  "OP_D m \<longleftrightarrow> mn_opcode m AND 0x2 \<noteq> 0"

definition OP_CCCC :: "I80386_MNEM \<Rightarrow> u8" where
  "OP_CCCC m = mn_opcode m AND 0x0F"

definition F1 :: "I80386_MNEM \<Rightarrow> bool" where
  "F1 m \<longleftrightarrow> mn_internal_flags m AND 0x02 \<noteq> 0"

definition F1Z :: "I80386_MNEM \<Rightarrow> bool" where
  "F1Z m \<longleftrightarrow> mn_internal_flags m AND 0x01 \<noteq> 0"

definition EIP :: "I80386_MNEM \<Rightarrow> u32" where
  "EIP m = mn_offset m + ucast (mn_counter m)"

section \<open>Names\<close>

definition reg8_mnem :: "string list" where
  "reg8_mnem = [''al'', ''cl'', ''dl'', ''bl'', ''ah'', ''ch'', ''dh'', ''bh'']"

definition reg16_mnem :: "string list" where
  "reg16_mnem = [''ax'', ''cx'', ''dx'', ''bx'', ''sp'', ''bp'', ''si'', ''di'']"

definition reg32_mnem :: "string list" where
  "reg32_mnem = [''eax'', ''ecx'', ''edx'', ''ebx'', ''esp'', ''ebp'', ''esi'', ''edi'']"

definition cr_mnem :: "string list" where
  "cr_mnem = [''cr0'', ''cr1'', ''cr2'', ''cr3'', ''cr4'', ''cr5'', ''cr6'', ''cr7'']"

definition dr_mnem :: "string list" where
  "dr_mnem = [''dr0'', ''dr1'', ''dr2'', ''dr3'', ''dr4'', ''dr5'', ''dr6'', ''dr7'']"

definition tr_mnem :: "string list" where
  "tr_mnem = [''tr0'', ''tr1'', ''tr2'', ''tr3'', ''tr4'', ''tr5'', ''tr6'', ''tr7'']"

definition seg_mnem :: "string list" where
  "seg_mnem = [''es'', ''cs'', ''ss'', ''ds'', ''fs'', ''gs'']"

text \<open>An index outside a table is not a name.\<close>

definition name_at :: "string list \<Rightarrow> u8 \<Rightarrow> string option" where
  "name_at names i = (if unat i < length names then Some (names ! unat i) else None)"

section \<open>Fetching\<close>

definition sign_extend8_16 :: "u8 \<Rightarrow> u16" where
  "sign_extend8_16 v = (let s = ucast v in if v AND 0x80 \<noteq> 0 then s OR 0xFF00 else s)"

definition sign_extend8_32 :: "u8 \<Rightarrow> u32" where
  "sign_extend8_32 v = (let s = ucast v in if v AND 0x80 \<noteq> 0 then s OR 0xFFFFFF00 else s)"

definition sign_extend16_32 :: "u16 \<Rightarrow> u32" where
  "sign_extend16_32 v = (let s = ucast v in if v AND 0x8000 \<noteq> 0 then s OR 0xFFFF0000 else s)"

record code =
  code_pg :: paging
  code_mem :: "u32 \<Rightarrow> u8"

text \<open>A load faults unless the page is present; a wider load is little-endian.\<close>

definition load8 :: "code \<Rightarrow> u32 \<Rightarrow> u8 option" where
  "load8 c a =
    (if present (pg_win (code_pg c) (pg_loc_pde a)) \<and> present (pg_win (code_pg c) (pg_loc_pte a))
     then Some (code_mem c a) else None)"

definition load16 :: "code \<Rightarrow> u32 \<Rightarrow> u16 option" where
  "load16 c a = do { b0 \<leftarrow> load8 c a; b1 \<leftarrow> load8 c (a + 1); Some (ucast b0 OR push_bit 8 (ucast b1)) }"

definition load32 :: "code \<Rightarrow> u32 \<Rightarrow> u32 option" where
  "load32 c a = do {
     b0 \<leftarrow> load8 c a; b1 \<leftarrow> load8 c (a + 1); b2 \<leftarrow> load8 c (a + 2); b3 \<leftarrow> load8 c (a + 3);
     Some (ucast b0 OR push_bit 8 (ucast b1) OR push_bit 16 (ucast b2) OR push_bit 24 (ucast b3)) }"

text \<open>The inner \<open>None\<close> is the result 0 of a fetch at an address that is not mapped.\<close>

definition fetch_byte :: "code \<Rightarrow> I80386_MNEM \<Rightarrow> (u8 option \<times> I80386_MNEM) option" where
  "fetch_byte c m =
    (if pg_virt2phys (EIP m) (code_pg c) = 0 then Some (None, m)
     else do { v \<leftarrow> load8 c (EIP m); Some (Some v, m\<lparr>mn_counter := mn_counter m + 1\<rparr>) })"

definition fetch_word :: "code \<Rightarrow> I80386_MNEM \<Rightarrow> (u16 option \<times> I80386_MNEM) option" where
  "fetch_word c m =
    (if pg_virt2phys (EIP m) (code_pg c) = 0 then Some (None, m)
     else do { v \<leftarrow> load16 c (EIP m); Some (Some v, m\<lparr>mn_counter := mn_counter m + 2\<rparr>) })"

definition fetch_dword :: "code \<Rightarrow> I80386_MNEM \<Rightarrow> (u32 option \<times> I80386_MNEM) option" where
  "fetch_dword c m =
    (if pg_virt2phys (EIP m) (code_pg c) = 0 then Some (None, m)
     else do { v \<leftarrow> load32 c (EIP m); Some (Some v, m\<lparr>mn_counter := mn_counter m + 4\<rparr>) })"

definition sib_fetch :: "code \<Rightarrow> I80386_MNEM \<Rightarrow> (bool \<times> I80386_MNEM) option" where
  "sib_fetch c m = do {
     (v, m) \<leftarrow> fetch_byte c m;
     case v of None \<Rightarrow> Some (False, m) | Some b \<Rightarrow> Some (True, m\<lparr>mn_sib := b\<rparr>) }"

definition sib_check :: "code \<Rightarrow> I80386_MNEM \<Rightarrow> (bool \<times> I80386_MNEM) option" where
  "sib_check c m =
    (if mn_addressing_size m \<noteq> 0 \<and> modrm_mod m \<noteq> 3 \<and> modrm_rm m = 4 then sib_fetch c m
     else Some (True, m))"

definition fetch_modrm :: "code \<Rightarrow> I80386_MNEM \<Rightarrow> (bool \<times> I80386_MNEM) option" where
  "fetch_modrm c m = do {
     (v, m) \<leftarrow> fetch_byte c m;
     case v of None \<Rightarrow> Some (False, m) | Some b \<Rightarrow> sib_check c (m\<lparr>mn_modrm := b\<rparr>) }"

section \<open>Segments\<close>

definition REG_ESP :: u8 where "REG_ESP = 4"

definition REG_EBP :: u8 where "REG_EBP = 5"

definition SEG_SS :: u8 where "SEG_SS = 2"

definition SEG_DS :: u8 where "SEG_DS = 3"

definition get_seg_index :: "I80386_MNEM \<Rightarrow> u8" where
  "get_seg_index m =
    (if mn_segment_prefix m \<noteq> 0xFF then mn_segment_prefix m
     else if mn_addressing_size m \<noteq> 0 then
       (if modrm_rm m = 4 \<and> modrm_mod m = 0 \<and> sib_base m = 5 then SEG_DS
        else
          let base_reg = (if modrm_rm m = 4 then sib_base m else modrm_rm m) in
          if modrm_mod m = 0 \<and> modrm_rm m = 5 then SEG_DS
          else if base_reg = REG_EBP \<or> base_reg = REG_ESP then SEG_SS
          else SEG_DS)
     else if modrm_mod m = 0 \<and> modrm_rm m = 6 then SEG_DS
     else if modrm_rm m = 2 \<or> modrm_rm m = 3 \<or> modrm_rm m = 6 then SEG_SS
     else SEG_DS)"

section \<open>The line\<close>

definition add_token ::
  "MNEM_TOKEN_TYPE \<Rightarrow> string option \<Rightarrow> nat \<Rightarrow> u32 \<Rightarrow> nat \<Rightarrow> I80386_MNEM \<Rightarrow> I80386_MNEM" where
  "add_token ty text len number sz m =
    (if length (mn_line m) < I80386_MNEM_MAX_TOKENS
     then m\<lparr>mn_line := mn_line m @
            [\<lparr>tok_text = text, tok_type = ty, tok_operand_size = sz, tok_len = len, tok_number = number\<rparr>]\<rparr>
     else m)"

definition JCC_JO :: u8 where "JCC_JO = 0"
definition JCC_JNO :: u8 where "JCC_JNO = 1"
definition JCC_JC :: u8 where "JCC_JC = 2"
definition JCC_JNC :: u8 where "JCC_JNC = 3"
definition JCC_JZ :: u8 where "JCC_JZ = 4"
definition JCC_JNZ :: u8 where "JCC_JNZ = 5"
definition JCC_JBE :: u8 where "JCC_JBE = 6"
definition JCC_JA :: u8 where "JCC_JA = 7"
definition JCC_JS :: u8 where "JCC_JS = 8"
definition JCC_JNS :: u8 where "JCC_JNS = 9"
definition JCC_JPE :: u8 where "JCC_JPE = 10"
definition JCC_JPO :: u8 where "JCC_JPO = 11"
definition JCC_JL :: u8 where "JCC_JL = 12"
definition JCC_JGE :: u8 where "JCC_JGE = 13"
definition JCC_JLE :: u8 where "JCC_JLE = 14"
definition JCC_JG :: u8 where "JCC_JG = 15"

definition jump_condition_token :: "I80386_MNEM \<Rightarrow> I80386_MNEM" where
  "jump_condition_token m =
    (let cc = OP_CCCC m in
     if cc = JCC_JO then add_token MNEM_TOKEN_MNEMONIC (Some ''jo'') 2 0 0 m
     else if cc = JCC_JNO then add_token MNEM_TOKEN_MNEMONIC (Some ''jno'') 3 0 0 m
     else if cc = JCC_JC then add_token MNEM_TOKEN_MNEMONIC (Some ''jc'') 2 0 0 m
     else if cc = JCC_JNC then add_token MNEM_TOKEN_MNEMONIC (Some ''jnc'') 3 0 0 m
     else if cc = JCC_JZ then add_token MNEM_TOKEN_MNEMONIC (Some ''jz'') 2 0 0 m
     else if cc = JCC_JNZ then add_token MNEM_TOKEN_MNEMONIC (Some ''jnz'') 3 0 0 m
     else if cc = JCC_JBE then add_token MNEM_TOKEN_MNEMONIC (Some ''jbe'') 3 0 0 m
     else if cc = JCC_JA then add_token MNEM_TOKEN_MNEMONIC (Some ''ja'') 2 0 0 m
     else if cc = JCC_JS then add_token MNEM_TOKEN_MNEMONIC (Some ''js'') 2 0 0 m
     else if cc = JCC_JNS then add_token MNEM_TOKEN_MNEMONIC (Some ''jns'') 3 0 0 m
     else if cc = JCC_JPE then add_token MNEM_TOKEN_MNEMONIC (Some ''jp'') 2 0 0 m
     else if cc = JCC_JPO then add_token MNEM_TOKEN_MNEMONIC (Some ''jnp'') 3 0 0 m
     else if cc = JCC_JL then add_token MNEM_TOKEN_MNEMONIC (Some ''jl'') 2 0 0 m
     else if cc = JCC_JGE then add_token MNEM_TOKEN_MNEMONIC (Some ''jge'') 3 0 0 m
     else if cc = JCC_JLE then add_token MNEM_TOKEN_MNEMONIC (Some ''jle'') 3 0 0 m
     else if cc = JCC_JG then add_token MNEM_TOKEN_MNEMONIC (Some ''jg'') 2 0 0 m
     else m)"

text \<open>A general register, looked up by its number, and the tokens that most instructions add.\<close>

definition reg_token :: "string list \<Rightarrow> nat \<Rightarrow> nat \<Rightarrow> u8 \<Rightarrow> I80386_MNEM \<Rightarrow> I80386_MNEM option" where
  "reg_token names len sz i m = do {
     reg \<leftarrow> name_at names i;
     Some (add_token MNEM_TOKEN_GENERAL_REGISTER (Some reg) len (ucast i) sz m) }"

abbreviation operator_token :: "string \<Rightarrow> I80386_MNEM \<Rightarrow> I80386_MNEM" where
  "operator_token s m \<equiv> add_token MNEM_TOKEN_OPERATOR (Some s) 1 0 0 m"

abbreviation mnemonic_token :: "string \<Rightarrow> nat \<Rightarrow> I80386_MNEM \<Rightarrow> I80386_MNEM" where
  "mnemonic_token s len m \<equiv> add_token MNEM_TOKEN_MNEMONIC (Some s) len 0 0 m"

abbreviation immediate_token :: "u32 \<Rightarrow> nat \<Rightarrow> I80386_MNEM \<Rightarrow> I80386_MNEM" where
  "immediate_token n sz m \<equiv> add_token MNEM_TOKEN_IMMEDIATE None 0 n sz m"

section \<open>The operand of a Mod R/M byte\<close>

definition get_base_token :: "I80386_MNEM \<Rightarrow> I80386_MNEM option" where
  "get_base_token m =
    (let rm = modrm_rm m in
     if rm = 0 then do {
       m \<leftarrow> reg_token reg16_mnem 2 2 3 m;
       let m = operator_token ''+'' m;
       reg_token reg16_mnem 2 2 6 m
     } else if rm = 1 then do {
       m \<leftarrow> reg_token reg16_mnem 2 2 3 m;
       let m = operator_token ''+'' m;
       reg_token reg16_mnem 2 2 7 m
     } else if rm = 2 then do {
       m \<leftarrow> reg_token reg16_mnem 2 2 5 m;
       let m = operator_token ''+'' m;
       reg_token reg16_mnem 2 2 6 m
     } else if rm = 3 then do {
       m \<leftarrow> reg_token reg16_mnem 2 2 5 m;
       let m = operator_token ''+'' m;
       reg_token reg16_mnem 2 2 7 m
     } else if rm = 4 then reg_token reg16_mnem 2 2 6 m
     else if rm = 5 then reg_token reg16_mnem 2 2 7 m
     else if rm = 6 then reg_token reg16_mnem 2 2 5 m
     else if rm = 7 then reg_token reg16_mnem 2 2 3 m
     else Some m)"

text \<open>\<^verbatim>\<open>index * scale\<close> of a SIB byte.\<close>

definition sib_index_token :: "I80386_MNEM \<Rightarrow> I80386_MNEM option" where
  "sib_index_token m = do {
     m \<leftarrow> reg_token reg32_mnem 3 4 (sib_index m) m;
     let m = operator_token ''*'' m;
     Some (add_token MNEM_TOKEN_NUMBER None 0 (push_bit (unat (sib_scale m)) 1) 4 m) }"

text \<open>The three addressing modes with memory; \<open>False\<close> is the early \<^verbatim>\<open>return 0\<close>.\<close>

definition modrm_mode_0 :: "code \<Rightarrow> I80386_MNEM \<Rightarrow> (bool \<times> I80386_MNEM) option" where
  "modrm_mode_0 c m =
    (if mn_addressing_size m \<noteq> 0 then
       if modrm_rm m = 4 then
         if sib_index m = 4 then
           if sib_base m = 5 then do {
             (v, m) \<leftarrow> fetch_dword c m;
             case v of None \<Rightarrow> Some (False, m) | Some disp \<Rightarrow> Some (True, immediate_token disp 4 m) }
           else do { m \<leftarrow> reg_token reg32_mnem 3 4 (sib_base m) m; Some (True, m) }
         else
           if sib_base m = 5 then do {
             (v, m) \<leftarrow> fetch_dword c m;
             case v of None \<Rightarrow> Some (False, m)
             | Some disp \<Rightarrow> do {
                 m \<leftarrow> sib_index_token m;
                 let m = operator_token ''+'' m;
                 Some (True, immediate_token disp 4 m) } }
           else do {
             m \<leftarrow> reg_token reg32_mnem 3 4 (sib_base m) m;
             let m = operator_token ''+'' m;
             m \<leftarrow> sib_index_token m;
             Some (True, m) }
       else if modrm_rm m = 5 then do {
         (v, m) \<leftarrow> fetch_dword c m;
         case v of None \<Rightarrow> Some (False, m) | Some disp \<Rightarrow> Some (True, immediate_token disp 4 m) }
       else do { m \<leftarrow> reg_token reg32_mnem 3 4 (modrm_rm m) m; Some (True, m) }
     else if modrm_rm m = 6 then do {
       (v, m) \<leftarrow> fetch_word c m;
       case v of None \<Rightarrow> Some (False, m) | Some disp \<Rightarrow> Some (True, immediate_token (ucast disp) 2 m) }
     else do { m \<leftarrow> get_base_token m; Some (True, m) })"

definition modrm_mode_1 :: "code \<Rightarrow> I80386_MNEM \<Rightarrow> (bool \<times> I80386_MNEM) option" where
  "modrm_mode_1 c m = do {
     (v, m) \<leftarrow> fetch_byte c m;
     case v of None \<Rightarrow> Some (False, m)
     | Some disp \<Rightarrow>
         if mn_addressing_size m \<noteq> 0 then
           if modrm_rm m = 4 then do {
             m \<leftarrow> reg_token reg32_mnem 3 4 (sib_base m) m;
             m \<leftarrow> (if sib_index m = 4 then Some (operator_token ''+'' m)
                  else do { m \<leftarrow> sib_index_token m; Some (operator_token ''+'' m) });
             Some (True, immediate_token (scast disp) 1 m) }
           else do {
             m \<leftarrow> reg_token reg32_mnem 3 4 (modrm_rm m) m;
             let m = operator_token ''+'' m;
             Some (True, immediate_token (scast disp) 1 m) }
         else do {
           m \<leftarrow> get_base_token m;
           let m = operator_token ''+'' m;
           Some (True, immediate_token (scast disp) 1 m) } }"

definition modrm_mode_2 :: "code \<Rightarrow> I80386_MNEM \<Rightarrow> (bool \<times> I80386_MNEM) option" where
  "modrm_mode_2 c m =
    (if mn_addressing_size m \<noteq> 0 then do {
       (v, m) \<leftarrow> fetch_dword c m;
       case v of None \<Rightarrow> Some (False, m)
       | Some disp \<Rightarrow>
           if modrm_rm m = 4 then do {
             m \<leftarrow> reg_token reg32_mnem 3 4 (sib_base m) m;
             m \<leftarrow> (if sib_index m = 4 then Some (operator_token ''+'' m)
                  else do { m \<leftarrow> sib_index_token m; Some (operator_token ''+'' m) });
             Some (True, immediate_token disp 4 m) }
           else do {
             m \<leftarrow> reg_token reg32_mnem 3 4 (modrm_rm m) m;
             let m = operator_token ''+'' m;
             Some (True, immediate_token disp 4 m) } }
     else do {
       (v, m) \<leftarrow> fetch_word c m;
       case v of None \<Rightarrow> Some (False, m)
       | Some disp \<Rightarrow> do {
           m \<leftarrow> get_base_token m;
           let m = operator_token ''+'' m;
           Some (True, immediate_token (scast disp) 2 m) } })"

text \<open>The result of the C function is never looked at.\<close>

definition i80386_get_modrm_token :: "code \<Rightarrow> I80386_MNEM \<Rightarrow> I80386_MNEM option" where
  "i80386_get_modrm_token c m = do {
     let seg_index = get_seg_index m;
     seg \<leftarrow> name_at seg_mnem seg_index;
     let m = add_token MNEM_TOKEN_MEMORY (Some ''['') 1 0 0 m;
     let m = add_token MNEM_TOKEN_SEGMENT (Some seg) 2 (ucast seg_index) 2 m;
     let m = operator_token '':'' m;
     (r, m) \<leftarrow> (if modrm_mod m = 0 then modrm_mode_0 c m
               else if modrm_mod m = 1 then modrm_mode_1 c m
               else if modrm_mod m = 2 then modrm_mode_2 c m
               else Some (True, m));
     if r then Some (add_token MNEM_TOKEN_MEMORY (Some '']'') 1 0 0 m) else Some m }"

definition modrm_get_token32 :: "code \<Rightarrow> I80386_MNEM \<Rightarrow> I80386_MNEM option" where
  "modrm_get_token32 c m =
    (if modrm_mod m = 3 then reg_token reg32_mnem 3 4 (modrm_rm m) m else i80386_get_modrm_token c m)"

definition modrm_get_token16 :: "code \<Rightarrow> I80386_MNEM \<Rightarrow> I80386_MNEM option" where
  "modrm_get_token16 c m =
    (if modrm_mod m = 3 then reg_token reg16_mnem 2 2 (modrm_rm m) m else i80386_get_modrm_token c m)"

definition modrm_get_token8 :: "code \<Rightarrow> I80386_MNEM \<Rightarrow> I80386_MNEM option" where
  "modrm_get_token8 c m =
    (if modrm_mod m = 3 then reg_token reg8_mnem 2 1 (modrm_rm m) m else i80386_get_modrm_token c m)"

definition add_modrm_tokens :: "nat \<Rightarrow> code \<Rightarrow> I80386_MNEM \<Rightarrow> I80386_MNEM option" where
  "add_modrm_tokens sz c m =
    (if sz = 1 then modrm_get_token8 c m
     else if sz = 2 then modrm_get_token16 c m
     else if sz = 4 then modrm_get_token32 c m
     else Some m)"

end
