(* ===== verification/Disasm_Ops.thy ===== *)
theory Disasm_Ops
  imports Disasm
begin

text \<open>
  \<^verbatim>\<open>src/disasm/i80386_mnem.c\<close>, second part: one function per instruction, in the order of the C
  code. Each takes the code being read and the state, whose opcode and prefixes are set, fetches the
  operand bytes and adds the tokens of the instruction. A fetch that fails ends the function with
  the tokens added so far.
\<close>

section \<open>Opcode helpers\<close>

definition I80386_SEGMENT_COUNT :: u8 where "I80386_SEGMENT_COUNT = 6"

text \<open>The immediate of \<^verbatim>\<open>opcode_80\<close> with its size; \<open>None\<close> is the early return.\<close>

definition opcode_80_imm :: "code \<Rightarrow> I80386_MNEM \<Rightarrow> ((u32 \<times> nat) option \<times> I80386_MNEM) option" where
  "opcode_80_imm c m =
    (if OP_W m then
       if OP_S m then
         do {
           (v, m) \<leftarrow> fetch_byte c m;
           case v of None \<Rightarrow> Some (None, m)
           | Some imm8 \<Rightarrow>
               if mn_operand_size m \<noteq> 0 then Some (Some (sign_extend8_32 imm8, 4), m)
               else Some (Some (ucast (sign_extend8_16 imm8), 2), m) }
       else if mn_operand_size m \<noteq> 0 then
         do {
           (v, m) \<leftarrow> fetch_dword c m;
           case v of None \<Rightarrow> Some (None, m) | Some imm32 \<Rightarrow> Some (Some (imm32, 4), m) }
       else
         do {
           (v, m) \<leftarrow> fetch_word c m;
           case v of None \<Rightarrow> Some (None, m) | Some imm16 \<Rightarrow> Some (Some (ucast imm16, 2), m) }
     else
       do {
         (v, m) \<leftarrow> fetch_byte c m;
         case v of None \<Rightarrow> Some (None, m) | Some imm8 \<Rightarrow> Some (Some (ucast imm8, 1), m) })"

definition opcode_80 :: "string \<Rightarrow> code \<Rightarrow> I80386_MNEM \<Rightarrow> I80386_MNEM option" where
  "opcode_80 mnemonic c m =
    do {
      (v, m) \<leftarrow> opcode_80_imm c m;
      case v of None \<Rightarrow> Some m
      | Some (imm, sz) \<Rightarrow>
          do {
            let m = mnemonic_token mnemonic (length mnemonic) m;
            m \<leftarrow> add_modrm_tokens sz c m;
            let m = operator_token '','' m;
            Some (immediate_token imm sz m) } }"

definition opcode_rm_reg :: "string \<Rightarrow> code \<Rightarrow> I80386_MNEM \<Rightarrow> I80386_MNEM option" where
  "opcode_rm_reg mnemonic c m =
    do {
      (r, m) \<leftarrow> fetch_modrm c m;
      if \<not> r then Some m
      else
        do {
          let m = mnemonic_token mnemonic (length mnemonic) m;
          let (names, reg_size) =
            (if OP_W m then if mn_operand_size m \<noteq> 0 then (reg32_mnem, 4) else (reg16_mnem, 2)
             else (reg8_mnem, 1));
          reg \<leftarrow> name_at names (modrm_reg m);
          let m = mnemonic_token mnemonic (length mnemonic) m;
          if OP_D m then
            do {
              m \<leftarrow> add_modrm_tokens reg_size c m;
              let m = operator_token '','' m;
              Some (add_token MNEM_TOKEN_GENERAL_REGISTER (Some reg) (length reg) (ucast (modrm_reg m)) reg_size m) }
          else
            do {
              let m = add_token MNEM_TOKEN_GENERAL_REGISTER (Some reg) (length reg) (ucast (modrm_reg m)) reg_size m;
              let m = operator_token '','' m;
              add_modrm_tokens reg_size c m } } }"

text \<open>The local \<^verbatim>\<open>imm\<close> of \<^verbatim>\<open>opcode_accum_imm\<close> is a \<^verbatim>\<open>uint8_t\<close>, so a wider immediate is cut down to 8 bits.\<close>

definition accum_imm :: "code \<Rightarrow> I80386_MNEM \<Rightarrow> (u8 option \<times> I80386_MNEM) option" where
  "accum_imm c m =
    (if OP_W m then
       if mn_operand_size m \<noteq> 0 then
         do { (v, m) \<leftarrow> fetch_dword c m; Some (map_option ucast v, m) }
       else
         do { (v, m) \<leftarrow> fetch_word c m; Some (map_option ucast v, m) }
     else fetch_byte c m)"

definition opcode_accum_imm :: "string \<Rightarrow> code \<Rightarrow> I80386_MNEM \<Rightarrow> I80386_MNEM option" where
  "opcode_accum_imm mnemonic c m =
    do {
      let (reg, reg_size) =
        (if OP_W m then if mn_operand_size m \<noteq> 0 then (''eax'', 4) else (''ax'', 2) else (''al'', 1));
      (v, m) \<leftarrow> accum_imm c m;
      case v of None \<Rightarrow> Some m
      | Some imm \<Rightarrow>
          do {
            let m = mnemonic_token mnemonic (length mnemonic) m;
            let m = add_token MNEM_TOKEN_GENERAL_REGISTER (Some reg) (length reg) 0 reg_size m;
            let m = operator_token '','' m;
            Some (immediate_token (ucast imm) reg_size m) } }"

definition opcode_shift_rm_cl :: "string \<Rightarrow> code \<Rightarrow> I80386_MNEM \<Rightarrow> I80386_MNEM option" where
  "opcode_shift_rm_cl mnemonic c m =
    do {
      let reg_size = (if OP_W m then if mn_operand_size m \<noteq> 0 then 4 else 2 else 1);
      let m = mnemonic_token mnemonic (length mnemonic) m;
      m \<leftarrow> add_modrm_tokens reg_size c m;
      let m = operator_token '','' m;
      if OP_VW m then Some (mnemonic_token ''cl'' 2 m)
      else Some (add_token MNEM_TOKEN_NUMBER None 0 1 0 m) }"

definition opcode_shift_rm_imm :: "string \<Rightarrow> code \<Rightarrow> I80386_MNEM \<Rightarrow> I80386_MNEM option" where
  "opcode_shift_rm_imm mnemonic c m =
    do {
      (v, m) \<leftarrow> fetch_byte c m;
      case v of None \<Rightarrow> Some m
      | Some imm \<Rightarrow>
          do {
            let reg_size = (if OP_W m then if mn_operand_size m \<noteq> 0 then 4 else 2 else 1);
            let m = mnemonic_token mnemonic (length mnemonic) m;
            m \<leftarrow> add_modrm_tokens reg_size c m;
            let m = operator_token '','' m;
            Some (immediate_token (ucast imm) 1 m) } }"

section \<open>Arithmetic\<close>

definition add_rm_imm :: "code \<Rightarrow> I80386_MNEM \<Rightarrow> I80386_MNEM option" where
  "add_rm_imm c m =
    opcode_80 ''add'' c m"

definition add_rm_reg :: "code \<Rightarrow> I80386_MNEM \<Rightarrow> I80386_MNEM option" where
  "add_rm_reg c m =
    opcode_rm_reg ''add'' c m"

definition add_accum_imm :: "code \<Rightarrow> I80386_MNEM \<Rightarrow> I80386_MNEM option" where
  "add_accum_imm c m =
    opcode_accum_imm ''add'' c m"

definition or_rm_imm :: "code \<Rightarrow> I80386_MNEM \<Rightarrow> I80386_MNEM option" where
  "or_rm_imm c m =
    opcode_80 ''or'' c m"

definition or_rm_reg :: "code \<Rightarrow> I80386_MNEM \<Rightarrow> I80386_MNEM option" where
  "or_rm_reg c m =
    opcode_rm_reg ''or'' c m"

definition or_accum_imm :: "code \<Rightarrow> I80386_MNEM \<Rightarrow> I80386_MNEM option" where
  "or_accum_imm c m =
    opcode_accum_imm ''or'' c m"

definition adc_rm_imm :: "code \<Rightarrow> I80386_MNEM \<Rightarrow> I80386_MNEM option" where
  "adc_rm_imm c m =
    opcode_80 ''adc'' c m"

definition adc_rm_reg :: "code \<Rightarrow> I80386_MNEM \<Rightarrow> I80386_MNEM option" where
  "adc_rm_reg c m =
    opcode_rm_reg ''adc'' c m"

definition adc_accum_imm :: "code \<Rightarrow> I80386_MNEM \<Rightarrow> I80386_MNEM option" where
  "adc_accum_imm c m =
    opcode_accum_imm ''adc'' c m"

definition sbb_rm_imm :: "code \<Rightarrow> I80386_MNEM \<Rightarrow> I80386_MNEM option" where
  "sbb_rm_imm c m =
    opcode_80 ''sbb'' c m"

definition sbb_rm_reg :: "code \<Rightarrow> I80386_MNEM \<Rightarrow> I80386_MNEM option" where
  "sbb_rm_reg c m =
    opcode_rm_reg ''sbb'' c m"

definition sbb_accum_imm :: "code \<Rightarrow> I80386_MNEM \<Rightarrow> I80386_MNEM option" where
  "sbb_accum_imm c m =
    opcode_accum_imm ''sbb'' c m"

definition and_rm_imm :: "code \<Rightarrow> I80386_MNEM \<Rightarrow> I80386_MNEM option" where
  "and_rm_imm c m =
    opcode_80 ''and'' c m"

definition and_rm_reg :: "code \<Rightarrow> I80386_MNEM \<Rightarrow> I80386_MNEM option" where
  "and_rm_reg c m =
    opcode_rm_reg ''and'' c m"

definition and_accum_imm :: "code \<Rightarrow> I80386_MNEM \<Rightarrow> I80386_MNEM option" where
  "and_accum_imm c m =
    opcode_accum_imm ''and'' c m"

definition sub_rm_imm :: "code \<Rightarrow> I80386_MNEM \<Rightarrow> I80386_MNEM option" where
  "sub_rm_imm c m =
    opcode_80 ''sub'' c m"

definition sub_rm_reg :: "code \<Rightarrow> I80386_MNEM \<Rightarrow> I80386_MNEM option" where
  "sub_rm_reg c m =
    opcode_rm_reg ''sub'' c m"

definition sub_accum_imm :: "code \<Rightarrow> I80386_MNEM \<Rightarrow> I80386_MNEM option" where
  "sub_accum_imm c m =
    opcode_accum_imm ''sub'' c m"

definition xor_rm_imm :: "code \<Rightarrow> I80386_MNEM \<Rightarrow> I80386_MNEM option" where
  "xor_rm_imm c m =
    opcode_80 ''xor'' c m"

definition xor_rm_reg :: "code \<Rightarrow> I80386_MNEM \<Rightarrow> I80386_MNEM option" where
  "xor_rm_reg c m =
    opcode_rm_reg ''xor'' c m"

definition xor_accum_imm :: "code \<Rightarrow> I80386_MNEM \<Rightarrow> I80386_MNEM option" where
  "xor_accum_imm c m =
    opcode_accum_imm ''xor'' c m"

definition cmp_rm_imm :: "code \<Rightarrow> I80386_MNEM \<Rightarrow> I80386_MNEM option" where
  "cmp_rm_imm c m =
    opcode_80 ''cmp'' c m"

definition cmp_rm_reg :: "code \<Rightarrow> I80386_MNEM \<Rightarrow> I80386_MNEM option" where
  "cmp_rm_reg c m =
    opcode_rm_reg ''cmp'' c m"

definition cmp_accum_imm :: "code \<Rightarrow> I80386_MNEM \<Rightarrow> I80386_MNEM option" where
  "cmp_accum_imm c m =
    opcode_accum_imm ''cmp'' c m"

definition test_rm_imm :: "code \<Rightarrow> I80386_MNEM \<Rightarrow> I80386_MNEM option" where
  "test_rm_imm c m =
    do {
      let m = mnemonic_token ''test'' 4 m;
      if OP_W m then
        if mn_operand_size m \<noteq> 0 then
          do {
            (v, m) \<leftarrow> fetch_dword c m;
            case v of None \<Rightarrow> Some m
            | Some imm \<Rightarrow>
                do {
                  m \<leftarrow> modrm_get_token32 c m;
                  let m = operator_token '','' m;
                  Some (immediate_token imm 4 m) } }
        else
          do {
            (v, m) \<leftarrow> fetch_word c m;
            case v of None \<Rightarrow> Some m
            | Some imm \<Rightarrow>
                do {
                  m \<leftarrow> modrm_get_token16 c m;
                  let m = operator_token '','' m;
                  Some (immediate_token (ucast imm) 2 m) } }
      else
        do {
          (v, m) \<leftarrow> fetch_byte c m;
          case v of None \<Rightarrow> Some m
          | Some imm \<Rightarrow>
              do {
                m \<leftarrow> modrm_get_token8 c m;
                let m = operator_token '','' m;
                Some (immediate_token (ucast imm) 1 m) } } }"

definition test_rm_reg :: "code \<Rightarrow> I80386_MNEM \<Rightarrow> I80386_MNEM option" where
  "test_rm_reg c m =
    opcode_rm_reg ''test'' c m"

definition test_accum_imm :: "code \<Rightarrow> I80386_MNEM \<Rightarrow> I80386_MNEM option" where
  "test_accum_imm c m =
    opcode_accum_imm ''test'' c m"

definition daa :: "code \<Rightarrow> I80386_MNEM \<Rightarrow> I80386_MNEM option" where
  "daa c m =
    Some (mnemonic_token ''daa'' 3 m)"

definition das :: "code \<Rightarrow> I80386_MNEM \<Rightarrow> I80386_MNEM option" where
  "das c m =
    Some (mnemonic_token ''das'' 3 m)"

definition aaa :: "code \<Rightarrow> I80386_MNEM \<Rightarrow> I80386_MNEM option" where
  "aaa c m =
    Some (mnemonic_token ''aaa'' 3 m)"

definition aas :: "code \<Rightarrow> I80386_MNEM \<Rightarrow> I80386_MNEM option" where
  "aas c m =
    Some (mnemonic_token ''aas'' 3 m)"

definition aam :: "code \<Rightarrow> I80386_MNEM \<Rightarrow> I80386_MNEM option" where
  "aam c m =
    do {
      (v, m) \<leftarrow> fetch_byte c m;
      case v of None \<Rightarrow> Some m
      | Some divisor \<Rightarrow>
          do {
            let m = mnemonic_token ''aam'' 3 m;
            Some (immediate_token (ucast divisor) 1 m) } }"

definition aad :: "code \<Rightarrow> I80386_MNEM \<Rightarrow> I80386_MNEM option" where
  "aad c m =
    do {
      (v, m) \<leftarrow> fetch_byte c m;
      case v of None \<Rightarrow> Some m
      | Some divisor \<Rightarrow>
          do {
            let m = mnemonic_token ''aad'' 3 m;
            Some (immediate_token (ucast divisor) 1 m) } }"

definition salc :: "code \<Rightarrow> I80386_MNEM \<Rightarrow> I80386_MNEM option" where
  "salc c m =
    Some (mnemonic_token ''salc'' 4 m)"

section \<open>Stack\<close>

definition push_seg :: "code \<Rightarrow> I80386_MNEM \<Rightarrow> I80386_MNEM option" where
  "push_seg c m =
    do {
      let seg_index = OP_ESR m;
      let seg = (if seg_index < I80386_SEGMENT_COUNT then name_at seg_mnem seg_index else None);
      let m = mnemonic_token ''push'' 4 m;
      Some (add_token MNEM_TOKEN_SEGMENT seg 2 (ucast seg_index) 2 m) }"

definition pop_seg :: "code \<Rightarrow> I80386_MNEM \<Rightarrow> I80386_MNEM option" where
  "pop_seg c m =
    do {
      let seg_index = OP_ESR m;
      let seg = (if seg_index < I80386_SEGMENT_COUNT then name_at seg_mnem seg_index else None);
      let m = mnemonic_token ''pop'' 3 m;
      Some (add_token MNEM_TOKEN_SEGMENT seg 2 (ucast seg_index) 2 m) }"

definition push_reg :: "code \<Rightarrow> I80386_MNEM \<Rightarrow> I80386_MNEM option" where
  "push_reg c m =
    do {
      let m = mnemonic_token ''push'' 4 m;
      if mn_operand_size m \<noteq> 0 then
        reg_token reg32_mnem 3 4 (mn_opcode m AND 7) m
      else
        reg_token reg16_mnem 2 2 (mn_opcode m AND 7) m }"

definition pop_reg :: "code \<Rightarrow> I80386_MNEM \<Rightarrow> I80386_MNEM option" where
  "pop_reg c m =
    do {
      let m = mnemonic_token ''pop'' 3 m;
      if mn_operand_size m \<noteq> 0 then
        reg_token reg32_mnem 3 4 (mn_opcode m AND 7) m
      else
        reg_token reg16_mnem 2 2 (mn_opcode m AND 7) m }"

definition push_rm :: "code \<Rightarrow> I80386_MNEM \<Rightarrow> I80386_MNEM option" where
  "push_rm c m =
    do {
      let m = mnemonic_token ''push'' 4 m;
      if mn_operand_size m \<noteq> 0 then
        modrm_get_token32 c m
      else
        modrm_get_token16 c m }"

definition pop_rm :: "code \<Rightarrow> I80386_MNEM \<Rightarrow> I80386_MNEM option" where
  "pop_rm c m =
    do {
      (r, m) \<leftarrow> fetch_modrm c m;
      if \<not> r then Some m
      else
        do {
          let m = mnemonic_token ''pop'' 3 m;
          if mn_operand_size m \<noteq> 0 then
            modrm_get_token32 c m
          else
            modrm_get_token16 c m } }"

definition pushf :: "code \<Rightarrow> I80386_MNEM \<Rightarrow> I80386_MNEM option" where
  "pushf c m =
    Some (mnemonic_token ''pushf'' 5 m)"

definition popf :: "code \<Rightarrow> I80386_MNEM \<Rightarrow> I80386_MNEM option" where
  "popf c m =
    Some (mnemonic_token ''popf'' 4 m)"

definition pusha :: "code \<Rightarrow> I80386_MNEM \<Rightarrow> I80386_MNEM option" where
  "pusha c m =
    Some (mnemonic_token ''pusha'' 5 m)"

definition popa :: "code \<Rightarrow> I80386_MNEM \<Rightarrow> I80386_MNEM option" where
  "popa c m =
    Some (mnemonic_token ''popa'' 4 m)"

definition push_imm :: "code \<Rightarrow> I80386_MNEM \<Rightarrow> I80386_MNEM option" where
  "push_imm c m =
    do {
      let m = mnemonic_token ''push'' 4 m;
      if OP_S m then
        do {
          (v, m) \<leftarrow> fetch_byte c m;
          case v of None \<Rightarrow> Some m
          | Some imm \<Rightarrow>
              if mn_operand_size m \<noteq> 0 then
                do {
                  let se = sign_extend8_32 imm;
                  Some (immediate_token se 4 m) }
              else
                do {
                  let se = sign_extend8_16 imm;
                  Some (immediate_token (ucast se) 2 m) } }
      else
        if mn_operand_size m \<noteq> 0 then
          do {
            (v, m) \<leftarrow> fetch_dword c m;
            case v of None \<Rightarrow> Some m
            | Some imm \<Rightarrow>
                Some (immediate_token imm 4 m) }
        else
          do {
            (v, m) \<leftarrow> fetch_word c m;
            case v of None \<Rightarrow> Some m
            | Some imm \<Rightarrow>
                Some (immediate_token (ucast imm) 2 m) } }"

definition enter :: "code \<Rightarrow> I80386_MNEM \<Rightarrow> I80386_MNEM option" where
  "enter c m =
    do {
      (v, m) \<leftarrow> fetch_word c m;
      case v of None \<Rightarrow> Some m
      | Some op1 \<Rightarrow>
          do {
            (v, m) \<leftarrow> fetch_byte c m;
            case v of None \<Rightarrow> Some m
            | Some op2 \<Rightarrow>
                do {
                  let m = mnemonic_token ''enter'' 5 m;
                  let m = immediate_token (ucast op1) 2 m;
                  let m = operator_token '','' m;
                  Some (immediate_token (ucast op2) 1 m) } } }"

definition leave :: "code \<Rightarrow> I80386_MNEM \<Rightarrow> I80386_MNEM option" where
  "leave c m =
    Some (mnemonic_token ''leave'' 5 m)"

section \<open>Exchange, conversion and flags\<close>

definition nop :: "code \<Rightarrow> I80386_MNEM \<Rightarrow> I80386_MNEM option" where
  "nop c m =
    Some (mnemonic_token ''nop'' 3 m)"

definition xchg_accum_reg :: "code \<Rightarrow> I80386_MNEM \<Rightarrow> I80386_MNEM option" where
  "xchg_accum_reg c m =
    do {
      let m = mnemonic_token ''xchg'' 4 m;
      if mn_operand_size m \<noteq> 0 then
        do {
          m \<leftarrow> reg_token reg32_mnem 3 4 (mn_opcode m AND 7) m;
          let m = operator_token '','' m;
          reg_token reg32_mnem 3 4 0 m }
      else
        do {
          m \<leftarrow> reg_token reg16_mnem 2 2 (mn_opcode m AND 7) m;
          let m = operator_token '','' m;
          reg_token reg16_mnem 2 2 0 m } }"

definition xchg_rm_reg :: "code \<Rightarrow> I80386_MNEM \<Rightarrow> I80386_MNEM option" where
  "xchg_rm_reg c m =
    do {
      (r, m) \<leftarrow> fetch_modrm c m;
      if \<not> r then Some m
      else
        do {
          let m = mnemonic_token ''xchg'' 4 m;
          if OP_W m then
            if mn_operand_size m \<noteq> 0 then
              do {
                m \<leftarrow> reg_token reg32_mnem 3 4 (modrm_reg m) m;
                let m = operator_token '','' m;
                modrm_get_token32 c m }
            else
              do {
                m \<leftarrow> reg_token reg16_mnem 2 2 (modrm_reg m) m;
                let m = operator_token '','' m;
                modrm_get_token16 c m }
          else
            do {
              m \<leftarrow> reg_token reg8_mnem 2 1 (modrm_reg m) m;
              let m = operator_token '','' m;
              modrm_get_token8 c m } } }"

definition cbw :: "code \<Rightarrow> I80386_MNEM \<Rightarrow> I80386_MNEM option" where
  "cbw c m =
    Some (mnemonic_token ''cbw'' 3 m)"

definition cwd :: "code \<Rightarrow> I80386_MNEM \<Rightarrow> I80386_MNEM option" where
  "cwd c m =
    Some (mnemonic_token ''cwd'' 3 m)"

definition wait :: "code \<Rightarrow> I80386_MNEM \<Rightarrow> I80386_MNEM option" where
  "wait c m =
    Some (mnemonic_token ''wait'' 4 m)"

definition sahf :: "code \<Rightarrow> I80386_MNEM \<Rightarrow> I80386_MNEM option" where
  "sahf c m =
    Some (mnemonic_token ''sahf'' 4 m)"

definition lahf :: "code \<Rightarrow> I80386_MNEM \<Rightarrow> I80386_MNEM option" where
  "lahf c m =
    Some (mnemonic_token ''lahf'' 4 m)"

definition hlt :: "code \<Rightarrow> I80386_MNEM \<Rightarrow> I80386_MNEM option" where
  "hlt c m =
    Some (mnemonic_token ''hlt'' 3 m)"

definition cmc :: "code \<Rightarrow> I80386_MNEM \<Rightarrow> I80386_MNEM option" where
  "cmc c m =
    Some (mnemonic_token ''cmc'' 3 m)"

definition clc :: "code \<Rightarrow> I80386_MNEM \<Rightarrow> I80386_MNEM option" where
  "clc c m =
    Some (mnemonic_token ''clc'' 3 m)"

definition stc :: "code \<Rightarrow> I80386_MNEM \<Rightarrow> I80386_MNEM option" where
  "stc c m =
    Some (mnemonic_token ''stc'' 3 m)"

definition cli :: "code \<Rightarrow> I80386_MNEM \<Rightarrow> I80386_MNEM option" where
  "cli c m =
    Some (mnemonic_token ''cli'' 3 m)"

definition sti :: "code \<Rightarrow> I80386_MNEM \<Rightarrow> I80386_MNEM option" where
  "sti c m =
    Some (mnemonic_token ''sti'' 3 m)"

definition cld :: "code \<Rightarrow> I80386_MNEM \<Rightarrow> I80386_MNEM option" where
  "cld c m =
    Some (mnemonic_token ''cld'' 3 m)"

definition std :: "code \<Rightarrow> I80386_MNEM \<Rightarrow> I80386_MNEM option" where
  "std c m =
    Some (mnemonic_token ''std'' 3 m)"

section \<open>Increment and decrement\<close>

definition inc_reg :: "code \<Rightarrow> I80386_MNEM \<Rightarrow> I80386_MNEM option" where
  "inc_reg c m =
    do {
      let m = mnemonic_token ''inc'' 3 m;
      if mn_operand_size m \<noteq> 0 then
        reg_token reg32_mnem 3 4 (mn_opcode m AND 7) m
      else
        reg_token reg16_mnem 2 2 (mn_opcode m AND 7) m }"

definition dec_reg :: "code \<Rightarrow> I80386_MNEM \<Rightarrow> I80386_MNEM option" where
  "dec_reg c m =
    do {
      let m = mnemonic_token ''dec'' 3 m;
      if mn_operand_size m \<noteq> 0 then
        reg_token reg32_mnem 3 4 (mn_opcode m AND 7) m
      else
        reg_token reg16_mnem 2 2 (mn_opcode m AND 7) m }"

definition inc_rm :: "code \<Rightarrow> I80386_MNEM \<Rightarrow> I80386_MNEM option" where
  "inc_rm c m =
    do {
      let m = mnemonic_token ''inc'' 3 m;
      if OP_W m then
        if mn_operand_size m \<noteq> 0 then
          modrm_get_token32 c m
        else
          modrm_get_token16 c m
      else
        modrm_get_token8 c m }"

definition dec_rm :: "code \<Rightarrow> I80386_MNEM \<Rightarrow> I80386_MNEM option" where
  "dec_rm c m =
    do {
      let m = mnemonic_token ''dec'' 3 m;
      if OP_W m then
        if mn_operand_size m \<noteq> 0 then
          modrm_get_token32 c m
        else
          modrm_get_token16 c m
      else
        modrm_get_token8 c m }"

section \<open>Shifts\<close>

definition rol_rm_cl :: "code \<Rightarrow> I80386_MNEM \<Rightarrow> I80386_MNEM option" where
  "rol_rm_cl c m =
    opcode_shift_rm_cl ''rol'' c m"

definition ror_rm_cl :: "code \<Rightarrow> I80386_MNEM \<Rightarrow> I80386_MNEM option" where
  "ror_rm_cl c m =
    opcode_shift_rm_cl ''ror'' c m"

definition rcl_rm_cl :: "code \<Rightarrow> I80386_MNEM \<Rightarrow> I80386_MNEM option" where
  "rcl_rm_cl c m =
    opcode_shift_rm_cl ''rcl'' c m"

definition rcr_rm_cl :: "code \<Rightarrow> I80386_MNEM \<Rightarrow> I80386_MNEM option" where
  "rcr_rm_cl c m =
    opcode_shift_rm_cl ''rcr'' c m"

definition shl_rm_cl :: "code \<Rightarrow> I80386_MNEM \<Rightarrow> I80386_MNEM option" where
  "shl_rm_cl c m =
    opcode_shift_rm_cl ''shl'' c m"

definition shr_rm_cl :: "code \<Rightarrow> I80386_MNEM \<Rightarrow> I80386_MNEM option" where
  "shr_rm_cl c m =
    opcode_shift_rm_cl ''shr'' c m"

definition sal_rm_cl :: "code \<Rightarrow> I80386_MNEM \<Rightarrow> I80386_MNEM option" where
  "sal_rm_cl c m =
    opcode_shift_rm_cl ''sal'' c m"

definition sar_rm_cl :: "code \<Rightarrow> I80386_MNEM \<Rightarrow> I80386_MNEM option" where
  "sar_rm_cl c m =
    opcode_shift_rm_cl ''sar'' c m"

definition shld_rm_cl :: "code \<Rightarrow> I80386_MNEM \<Rightarrow> I80386_MNEM option" where
  "shld_rm_cl c m =
    do {
      let m = mnemonic_token ''shld'' 4 m;
      m \<leftarrow> (if OP_W m then
           do {
             m \<leftarrow> modrm_get_token32 c m;
             let m = operator_token '','' m;
             reg_token reg32_mnem 3 4 (modrm_reg m) m }
           else
           do {
             m \<leftarrow> modrm_get_token16 c m;
             let m = operator_token '','' m;
             reg_token reg16_mnem 2 2 (modrm_reg m) m });
      let m = operator_token '','' m;
      Some (mnemonic_token ''cl'' 2 m) }"

definition shrd_rm_cl :: "code \<Rightarrow> I80386_MNEM \<Rightarrow> I80386_MNEM option" where
  "shrd_rm_cl c m =
    do {
      let m = mnemonic_token ''shrd'' 4 m;
      m \<leftarrow> (if OP_W m then
           do {
             m \<leftarrow> modrm_get_token32 c m;
             let m = operator_token '','' m;
             reg_token reg32_mnem 3 4 (modrm_reg m) m }
           else
           do {
             m \<leftarrow> modrm_get_token16 c m;
             let m = operator_token '','' m;
             reg_token reg16_mnem 2 2 (modrm_reg m) m });
      let m = operator_token '','' m;
      Some (mnemonic_token ''cl'' 2 m) }"

definition rol_rm_imm :: "code \<Rightarrow> I80386_MNEM \<Rightarrow> I80386_MNEM option" where
  "rol_rm_imm c m =
    opcode_shift_rm_imm ''rol'' c m"

definition ror_rm_imm :: "code \<Rightarrow> I80386_MNEM \<Rightarrow> I80386_MNEM option" where
  "ror_rm_imm c m =
    opcode_shift_rm_imm ''ror'' c m"

definition rcl_rm_imm :: "code \<Rightarrow> I80386_MNEM \<Rightarrow> I80386_MNEM option" where
  "rcl_rm_imm c m =
    opcode_shift_rm_imm ''rcl'' c m"

definition rcr_rm_imm :: "code \<Rightarrow> I80386_MNEM \<Rightarrow> I80386_MNEM option" where
  "rcr_rm_imm c m =
    opcode_shift_rm_imm ''rcr'' c m"

definition shl_rm_imm :: "code \<Rightarrow> I80386_MNEM \<Rightarrow> I80386_MNEM option" where
  "shl_rm_imm c m =
    opcode_shift_rm_imm ''shl'' c m"

definition shr_rm_imm :: "code \<Rightarrow> I80386_MNEM \<Rightarrow> I80386_MNEM option" where
  "shr_rm_imm c m =
    opcode_shift_rm_imm ''shr'' c m"

definition sal_rm_imm :: "code \<Rightarrow> I80386_MNEM \<Rightarrow> I80386_MNEM option" where
  "sal_rm_imm c m =
    opcode_shift_rm_imm ''sal'' c m"

definition sar_rm_imm :: "code \<Rightarrow> I80386_MNEM \<Rightarrow> I80386_MNEM option" where
  "sar_rm_imm c m =
    opcode_shift_rm_imm ''sar'' c m"

definition shld_rm_imm :: "code \<Rightarrow> I80386_MNEM \<Rightarrow> I80386_MNEM option" where
  "shld_rm_imm c m =
    do {
      (r, m) \<leftarrow> fetch_modrm c m;
      if \<not> r then Some m
      else
        do {
          let m = mnemonic_token ''shld'' 4 m;
          m \<leftarrow> (if OP_W m then
               do {
                 m \<leftarrow> modrm_get_token32 c m;
                 let m = operator_token '','' m;
                 reg_token reg32_mnem 3 4 (modrm_reg m) m }
               else
               do {
                 m \<leftarrow> modrm_get_token16 c m;
                 let m = operator_token '','' m;
                 reg_token reg16_mnem 2 2 (modrm_reg m) m });
          let m = operator_token '','' m;
          (v, m) \<leftarrow> fetch_byte c m;
          case v of None \<Rightarrow> Some m
          | Some imm \<Rightarrow>
              Some (immediate_token (ucast imm) 1 m) } }"

definition shrd_rm_imm :: "code \<Rightarrow> I80386_MNEM \<Rightarrow> I80386_MNEM option" where
  "shrd_rm_imm c m =
    do {
      (r, m) \<leftarrow> fetch_modrm c m;
      if \<not> r then Some m
      else
        do {
          let m = mnemonic_token ''shrd'' 4 m;
          m \<leftarrow> (if OP_W m then
               do {
                 m \<leftarrow> modrm_get_token32 c m;
                 let m = operator_token '','' m;
                 reg_token reg32_mnem 3 4 (modrm_reg m) m }
               else
               do {
                 m \<leftarrow> modrm_get_token16 c m;
                 let m = operator_token '','' m;
                 reg_token reg16_mnem 2 2 (modrm_reg m) m });
          let m = operator_token '','' m;
          (v, m) \<leftarrow> fetch_byte c m;
          case v of None \<Rightarrow> Some m
          | Some imm \<Rightarrow>
              Some (immediate_token (ucast imm) 1 m) } }"

section \<open>Jumps, calls and returns\<close>

definition jcc_short :: "code \<Rightarrow> I80386_MNEM \<Rightarrow> I80386_MNEM option" where
  "jcc_short c m =
    do {
      (v, m) \<leftarrow> fetch_byte c m;
      case v of None \<Rightarrow> Some m
      | Some disp \<Rightarrow>
          do {
            let offset = sign_extend8_16 disp;
            let offset = offset + mn_counter m;
            let m = jump_condition_token m;
            Some (add_token MNEM_TOKEN_RELATIVE_ADDRESS None 0 (scast offset) 2 m) } }"

definition jcc_long :: "code \<Rightarrow> I80386_MNEM \<Rightarrow> I80386_MNEM option" where
  "jcc_long c m =
    do {
      (v, m) \<leftarrow> (if mn_operand_size m \<noteq> 0 then fetch_dword c m
                else do { (v, m) \<leftarrow> fetch_word c m; Some (map_option sign_extend16_32 v, m) });
      case v of None \<Rightarrow> Some m
      | Some offset \<Rightarrow>
          do {
            let offset = offset + ucast (mn_counter m);
            let m = jump_condition_token m;
            Some (add_token MNEM_TOKEN_RELATIVE_ADDRESS None 0 offset 4 m) } }"

definition jmp_intra_direct :: "code \<Rightarrow> I80386_MNEM \<Rightarrow> I80386_MNEM option" where
  "jmp_intra_direct c m =
    do {
      (v, m) \<leftarrow> fetch_word c m;
      case v of None \<Rightarrow> Some m
      | Some imm \<Rightarrow>
          do {
            let imm = imm + mn_counter m;
            let m = mnemonic_token ''jmp'' 3 m;
            Some (add_token MNEM_TOKEN_RELATIVE_ADDRESS None 0 (scast imm) 2 m) } }"

definition jmp_inter_direct :: "code \<Rightarrow> I80386_MNEM \<Rightarrow> I80386_MNEM option" where
  "jmp_inter_direct c m =
    do {
      let m = mnemonic_token ''jmpf'' 4 m;
      if mn_operand_size m \<noteq> 0 then
        do {
          (v, m) \<leftarrow> fetch_dword c m;
          case v of None \<Rightarrow> Some m
          | Some imm \<Rightarrow>
              do {
                (v, m) \<leftarrow> fetch_word c m;
                case v of None \<Rightarrow> Some m
                | Some imm2 \<Rightarrow>
                    do {
                      let m = immediate_token (ucast imm2) 2 m;
                      let m = operator_token '':'' m;
                      Some (immediate_token imm 4 m) } } }
      else
        do {
          (v, m) \<leftarrow> fetch_word c m;
          case v of None \<Rightarrow> Some m
          | Some imm \<Rightarrow>
              do {
                (v, m) \<leftarrow> fetch_word c m;
                case v of None \<Rightarrow> Some m
                | Some imm2 \<Rightarrow>
                    do {
                      let m = immediate_token (ucast imm2) 2 m;
                      let m = operator_token '':'' m;
                      Some (immediate_token (ucast imm) 2 m) } } } }"

definition jmp_intra_direct_short :: "code \<Rightarrow> I80386_MNEM \<Rightarrow> I80386_MNEM option" where
  "jmp_intra_direct_short c m =
    do {
      let m = mnemonic_token ''jmp'' 3 m;
      (v, m) \<leftarrow> fetch_byte c m;
      case v of None \<Rightarrow> Some m
      | Some imm \<Rightarrow>
          do {
            let se = sign_extend8_16 imm;
            let se = se + mn_counter m;
            Some (add_token MNEM_TOKEN_RELATIVE_ADDRESS None 0 (scast se) 2 m) } }"

definition jmp_intra_indirect :: "code \<Rightarrow> I80386_MNEM \<Rightarrow> I80386_MNEM option" where
  "jmp_intra_indirect c m =
    do {
      let m = mnemonic_token ''jmp'' 3 m;
      if mn_operand_size m \<noteq> 0 then
        modrm_get_token32 c m
      else
        modrm_get_token16 c m }"

definition jmp_inter_indirect :: "code \<Rightarrow> I80386_MNEM \<Rightarrow> I80386_MNEM option" where
  "jmp_inter_indirect c m =
    do {
      let seg_index = get_seg_index m;
      seg \<leftarrow> name_at seg_mnem seg_index;
      let m = mnemonic_token ''jmpf'' 4 m;
      let m = add_token MNEM_TOKEN_SEGMENT (Some seg) 2 (ucast seg_index) 2 m;
      let m = operator_token '':'' m;
      if mn_operand_size m \<noteq> 0 then
        modrm_get_token32 c m
      else
        modrm_get_token16 c m }"

definition call_intra_direct :: "code \<Rightarrow> I80386_MNEM \<Rightarrow> I80386_MNEM option" where
  "call_intra_direct c m =
    do {
      let m = mnemonic_token ''call'' 4 m;
      if mn_operand_size m \<noteq> 0 then
        do {
          (v, m) \<leftarrow> fetch_dword c m;
          case v of None \<Rightarrow> Some m
          | Some imm \<Rightarrow>
              do {
                let imm = imm + ucast (mn_counter m);
                Some (add_token MNEM_TOKEN_RELATIVE_ADDRESS None 0 imm 4 m) } }
      else
        do {
          (v, m) \<leftarrow> fetch_word c m;
          case v of None \<Rightarrow> Some m
          | Some imm \<Rightarrow>
              do {
                let imm = imm + mn_counter m;
                Some (add_token MNEM_TOKEN_RELATIVE_ADDRESS None 0 (scast imm) 2 m) } } }"

definition call_inter_direct :: "code \<Rightarrow> I80386_MNEM \<Rightarrow> I80386_MNEM option" where
  "call_inter_direct c m =
    do {
      let m = mnemonic_token ''callf'' 5 m;
      if mn_operand_size m \<noteq> 0 then
        do {
          (v, m) \<leftarrow> fetch_dword c m;
          case v of None \<Rightarrow> Some m
          | Some imm \<Rightarrow>
              do {
                (v, m) \<leftarrow> fetch_word c m;
                case v of None \<Rightarrow> Some m
                | Some imm2 \<Rightarrow>
                    do {
                      let m = immediate_token (ucast imm2) 2 m;
                      let m = operator_token '':'' m;
                      Some (immediate_token imm 4 m) } } }
      else
        do {
          (v, m) \<leftarrow> fetch_word c m;
          case v of None \<Rightarrow> Some m
          | Some imm \<Rightarrow>
              do {
                (v, m) \<leftarrow> fetch_word c m;
                case v of None \<Rightarrow> Some m
                | Some imm2 \<Rightarrow>
                    do {
                      let m = immediate_token (ucast imm2) 2 m;
                      let m = operator_token '':'' m;
                      Some (immediate_token (ucast imm) 2 m) } } } }"

definition call_intra_indirect :: "code \<Rightarrow> I80386_MNEM \<Rightarrow> I80386_MNEM option" where
  "call_intra_indirect c m =
    do {
      let m = mnemonic_token ''call'' 4 m;
      if mn_operand_size m \<noteq> 0 then
        modrm_get_token32 c m
      else
        modrm_get_token16 c m }"

definition call_inter_indirect :: "code \<Rightarrow> I80386_MNEM \<Rightarrow> I80386_MNEM option" where
  "call_inter_indirect c m =
    do {
      seg \<leftarrow> name_at seg_mnem (get_seg_index m);
      let m = mnemonic_token ''callf'' 5 m;
      let m = add_token MNEM_TOKEN_SEGMENT (Some seg) 2 0 2 m;
      let m = operator_token '':'' m;
      if mn_operand_size m \<noteq> 0 then
        modrm_get_token32 c m
      else
        modrm_get_token16 c m }"

definition ret_intra_add_imm :: "code \<Rightarrow> I80386_MNEM \<Rightarrow> I80386_MNEM option" where
  "ret_intra_add_imm c m =
    do {
      (v, m) \<leftarrow> fetch_word c m;
      case v of None \<Rightarrow> Some m
      | Some imm \<Rightarrow>
          if mn_operand_size m \<noteq> 0 then
            do {
              let m = mnemonic_token ''retd'' 4 m;
              Some (immediate_token (ucast imm) 2 m) }
          else
            do {
              let m = mnemonic_token ''ret'' 3 m;
              Some (immediate_token (ucast imm) 2 m) } }"

definition ret_intra :: "code \<Rightarrow> I80386_MNEM \<Rightarrow> I80386_MNEM option" where
  "ret_intra c m =
    (if mn_operand_size m \<noteq> 0 then
       Some (mnemonic_token ''retd'' 4 m)
     else
       Some (mnemonic_token ''ret'' 3 m))"

definition ret_inter_add_imm :: "code \<Rightarrow> I80386_MNEM \<Rightarrow> I80386_MNEM option" where
  "ret_inter_add_imm c m =
    do {
      (v, m) \<leftarrow> fetch_word c m;
      case v of None \<Rightarrow> Some m
      | Some imm \<Rightarrow>
          if mn_operand_size m \<noteq> 0 then
            do {
              let m = mnemonic_token ''retfd'' 5 m;
              Some (immediate_token (ucast imm) 2 m) }
          else
            do {
              let m = mnemonic_token ''retf'' 4 m;
              Some (immediate_token (ucast imm) 2 m) } }"

definition ret_inter :: "code \<Rightarrow> I80386_MNEM \<Rightarrow> I80386_MNEM option" where
  "ret_inter c m =
    (if mn_operand_size m \<noteq> 0 then
       Some (mnemonic_token ''retfd'' 5 m)
     else
       Some (mnemonic_token ''retf'' 4 m))"

section \<open>Moves\<close>

definition mov_rm_imm :: "code \<Rightarrow> I80386_MNEM \<Rightarrow> I80386_MNEM option" where
  "mov_rm_imm c m =
    do {
      (r, m) \<leftarrow> fetch_modrm c m;
      if \<not> r then Some m
      else
        do {
          let m = mnemonic_token ''mov'' 3 m;
          if OP_W m then
            if mn_operand_size m \<noteq> 0 then
              do {
                m \<leftarrow> modrm_get_token32 c m;
                let m = operator_token '','' m;
                (v, m) \<leftarrow> fetch_dword c m;
                case v of None \<Rightarrow> Some m
                | Some imm \<Rightarrow>
                    Some (immediate_token imm 4 m) }
            else
              do {
                m \<leftarrow> modrm_get_token32 c m;
                let m = operator_token '','' m;
                (v, m) \<leftarrow> fetch_word c m;
                case v of None \<Rightarrow> Some m
                | Some imm \<Rightarrow>
                    Some (immediate_token (ucast imm) 2 m) }
          else
            do {
              m \<leftarrow> modrm_get_token32 c m;
              let m = operator_token '','' m;
              (v, m) \<leftarrow> fetch_byte c m;
              case v of None \<Rightarrow> Some m
              | Some imm \<Rightarrow>
                  Some (immediate_token (ucast imm) 1 m) } } }"

definition mov_reg_imm :: "code \<Rightarrow> I80386_MNEM \<Rightarrow> I80386_MNEM option" where
  "mov_reg_imm c m =
    do {
      let m = mnemonic_token ''mov'' 3 m;
      if OP_WREG m then
        if mn_operand_size m \<noteq> 0 then
          do {
            (v, m) \<leftarrow> fetch_dword c m;
            case v of None \<Rightarrow> Some m
            | Some imm \<Rightarrow>
                do {
                  m \<leftarrow> reg_token reg32_mnem 3 4 (mn_opcode m AND 7) m;
                  let m = operator_token '','' m;
                  Some (immediate_token imm 4 m) } }
        else
          do {
            (v, m) \<leftarrow> fetch_word c m;
            case v of None \<Rightarrow> Some m
            | Some imm \<Rightarrow>
                do {
                  m \<leftarrow> reg_token reg16_mnem 2 2 (mn_opcode m AND 7) m;
                  let m = operator_token '','' m;
                  Some (immediate_token (ucast imm) 2 m) } }
      else
        do {
          (v, m) \<leftarrow> fetch_byte c m;
          case v of None \<Rightarrow> Some m
          | Some imm \<Rightarrow>
              do {
                m \<leftarrow> reg_token reg8_mnem 2 1 (mn_opcode m AND 7) m;
                let m = operator_token '','' m;
                Some (immediate_token (ucast imm) 1 m) } } }"

definition mov_rm_reg :: "code \<Rightarrow> I80386_MNEM \<Rightarrow> I80386_MNEM option" where
  "mov_rm_reg c m =
    do {
      (r, m) \<leftarrow> fetch_modrm c m;
      if \<not> r then Some m
      else
        do {
          let m = mnemonic_token ''mov'' 3 m;
          if OP_W m then
            if mn_operand_size m \<noteq> 0 then
              if OP_D m then
                do {
                  m \<leftarrow> reg_token reg32_mnem 3 4 (modrm_reg m) m;
                  let m = operator_token '','' m;
                  modrm_get_token32 c m }
              else
                do {
                  m \<leftarrow> modrm_get_token32 c m;
                  let m = operator_token '','' m;
                  reg_token reg32_mnem 3 4 (modrm_reg m) m }
            else
              if OP_D m then
                do {
                  m \<leftarrow> reg_token reg16_mnem 2 2 (modrm_reg m) m;
                  let m = operator_token '','' m;
                  modrm_get_token32 c m }
              else
                do {
                  m \<leftarrow> modrm_get_token32 c m;
                  let m = operator_token '','' m;
                  reg_token reg16_mnem 2 2 (modrm_reg m) m }
          else
            if OP_D m then
              do {
                m \<leftarrow> reg_token reg8_mnem 2 1 (modrm_reg m) m;
                let m = operator_token '','' m;
                modrm_get_token32 c m }
            else
              do {
                m \<leftarrow> modrm_get_token32 c m;
                let m = operator_token '','' m;
                reg_token reg8_mnem 2 1 (modrm_reg m) m } } }"

text \<open>The offset of \<^verbatim>\<open>mov_accum_mem\<close> with its size, and the tokens.\<close>

definition accum_mem_offset :: "code \<Rightarrow> I80386_MNEM \<Rightarrow> ((u32 \<times> nat) option \<times> I80386_MNEM) option" where
  "accum_mem_offset c m =
    (if mn_addressing_size m \<noteq> 0 then
       do {
         (v, m) \<leftarrow> fetch_dword c m;
         case v of None \<Rightarrow> Some (None, m) | Some offset \<Rightarrow> Some (Some (offset, 4), m) }
     else
       do {
         (v, m) \<leftarrow> fetch_word c m;
         case v of None \<Rightarrow> Some (None, m) | Some offset16 \<Rightarrow> Some (Some (ucast offset16, 2), m) })"

definition accum_mem_tokens :: "string \<Rightarrow> u32 \<Rightarrow> nat \<Rightarrow> string \<Rightarrow> nat \<Rightarrow> nat \<Rightarrow> I80386_MNEM \<Rightarrow> I80386_MNEM option" where
  "accum_mem_tokens seg offset offset_size reg reg_size reg_len m =
    do {
      let m = mnemonic_token ''mov'' 3 m;
      if OP_D m then
        do {
          let m = add_token MNEM_TOKEN_MEMORY (Some ''['') 1 0 0 m;
          let m = add_token MNEM_TOKEN_SEGMENT (Some seg) 2 0 2 m;
          let m = operator_token '':'' m;
          let m = immediate_token offset offset_size m;
          let m = add_token MNEM_TOKEN_MEMORY (Some '']'') 1 0 0 m;
          let m = operator_token '','' m;
          Some (add_token MNEM_TOKEN_GENERAL_REGISTER (Some reg) reg_len 0 reg_size m) }
      else
        do {
          let m = add_token MNEM_TOKEN_GENERAL_REGISTER (Some reg) reg_len 0 reg_size m;
          let m = operator_token '','' m;
          let m = add_token MNEM_TOKEN_MEMORY (Some ''['') 1 0 0 m;
          let m = add_token MNEM_TOKEN_SEGMENT (Some seg) 2 0 2 m;
          let m = operator_token '':'' m;
          let m = immediate_token offset offset_size m;
          Some (add_token MNEM_TOKEN_MEMORY (Some '']'') 1 0 0 m) } }"

definition mov_accum_mem :: "code \<Rightarrow> I80386_MNEM \<Rightarrow> I80386_MNEM option" where
  "mov_accum_mem c m =
    do {
      (v, m) \<leftarrow> accum_mem_offset c m;
      case v of None \<Rightarrow> Some m
      | Some (offset, offset_size) \<Rightarrow>
          do {
            seg \<leftarrow> name_at seg_mnem (get_seg_index m);
            let (names, reg_size, reg_len) =
              (if OP_W m then if mn_operand_size m \<noteq> 0 then (reg32_mnem, 4, 3) else (reg16_mnem, 2, 2)
               else (reg8_mnem, 1, 2));
            reg \<leftarrow> name_at names 0;
            accum_mem_tokens seg offset offset_size reg reg_size reg_len m } }"

definition mov_seg :: "code \<Rightarrow> I80386_MNEM \<Rightarrow> I80386_MNEM option" where
  "mov_seg c m =
    do {
      (r, m) \<leftarrow> fetch_modrm c m;
      if \<not> r then Some m
      else
        do {
          seg \<leftarrow> (if modrm_reg m < I80386_SEGMENT_COUNT then name_at seg_mnem (modrm_reg m) else Some ''bad:'');
          let m = mnemonic_token ''mov'' 3 m;
          if OP_D m then
            do {
              let m = add_token MNEM_TOKEN_SEGMENT (Some seg) 2 (ucast (modrm_reg m)) 2 m;
              let m = operator_token '','' m;
              modrm_get_token16 c m }
          else
            do {
              m \<leftarrow> modrm_get_token16 c m;
              let m = add_token MNEM_TOKEN_OPERATOR (Some '','') 1 (ucast (modrm_reg m)) 0 m;
              Some (add_token MNEM_TOKEN_SEGMENT (Some seg) 2 0 2 m) } } }"

definition mov_cr :: "code \<Rightarrow> I80386_MNEM \<Rightarrow> I80386_MNEM option" where
  "mov_cr c m =
    do {
      (r, m) \<leftarrow> fetch_modrm c m;
      if \<not> r then Some m
      else
        do {
          let m = mnemonic_token ''mov'' 3 m;
          if OP_D m then
            do {
              reg1 \<leftarrow> name_at cr_mnem (modrm_reg m);
              let m = add_token MNEM_TOKEN_CONTROL_REGISTER (Some reg1) 3 (ucast (modrm_reg m)) 4 m;
              let m = operator_token '','' m;
              reg_token reg32_mnem 3 4 (modrm_rm m) m }
          else
            do {
              m \<leftarrow> reg_token reg32_mnem 3 4 (modrm_rm m) m;
              let m = operator_token '','' m;
              reg1 \<leftarrow> name_at cr_mnem (modrm_reg m);
              Some (add_token MNEM_TOKEN_CONTROL_REGISTER (Some reg1) 3 (ucast (modrm_reg m)) 4 m) } } }"

definition mov_dr :: "code \<Rightarrow> I80386_MNEM \<Rightarrow> I80386_MNEM option" where
  "mov_dr c m =
    do {
      (r, m) \<leftarrow> fetch_modrm c m;
      if \<not> r then Some m
      else
        do {
          let m = mnemonic_token ''mov'' 3 m;
          if OP_D m then
            do {
              reg1 \<leftarrow> name_at dr_mnem (modrm_reg m);
              let m = add_token MNEM_TOKEN_DEBUG_REGISTER (Some reg1) 3 (ucast (modrm_reg m)) 4 m;
              let m = operator_token '','' m;
              reg_token reg32_mnem 3 4 (modrm_rm m) m }
          else
            do {
              m \<leftarrow> reg_token reg32_mnem 3 4 (modrm_rm m) m;
              let m = operator_token '','' m;
              reg1 \<leftarrow> name_at dr_mnem (modrm_reg m);
              Some (add_token MNEM_TOKEN_DEBUG_REGISTER (Some reg1) 3 (ucast (modrm_reg m)) 4 m) } } }"

definition mov_tr :: "code \<Rightarrow> I80386_MNEM \<Rightarrow> I80386_MNEM option" where
  "mov_tr c m =
    do {
      (r, m) \<leftarrow> fetch_modrm c m;
      if \<not> r then Some m
      else
        do {
          let m = mnemonic_token ''mov'' 3 m;
          if OP_D m then
            do {
              reg1 \<leftarrow> name_at tr_mnem (modrm_reg m);
              let m = add_token MNEM_TOKEN_TEST_REGISTER (Some reg1) 3 (ucast (modrm_reg m)) 4 m;
              let m = operator_token '','' m;
              reg_token reg32_mnem 3 4 (modrm_rm m) m }
          else
            do {
              m \<leftarrow> reg_token reg32_mnem 3 4 (modrm_rm m) m;
              let m = operator_token '','' m;
              reg1 \<leftarrow> name_at tr_mnem (modrm_reg m);
              Some (add_token MNEM_TOKEN_TEST_REGISTER (Some reg1) 3 (ucast (modrm_reg m)) 4 m) } } }"

definition movzx :: "code \<Rightarrow> I80386_MNEM \<Rightarrow> I80386_MNEM option" where
  "movzx c m =
    do {
      (r, m) \<leftarrow> fetch_modrm c m;
      if \<not> r then Some m
      else
        do {
          let m = mnemonic_token ''movzx'' 5 m;
          m \<leftarrow> (if mn_operand_size m \<noteq> 0 then
               reg_token reg32_mnem 3 4 (modrm_reg m) m
               else
               reg_token reg16_mnem 2 2 (modrm_reg m) m);
          let m = operator_token '','' m;
          if OP_W m then
            modrm_get_token16 c m
          else
            modrm_get_token8 c m } }"

definition movsx :: "code \<Rightarrow> I80386_MNEM \<Rightarrow> I80386_MNEM option" where
  "movsx c m =
    do {
      (r, m) \<leftarrow> fetch_modrm c m;
      if \<not> r then Some m
      else
        do {
          let m = mnemonic_token ''movsx'' 5 m;
          m \<leftarrow> (if mn_operand_size m \<noteq> 0 then
               reg_token reg32_mnem 3 4 (modrm_reg m) m
               else
               reg_token reg16_mnem 2 2 (modrm_reg m) m);
          let m = operator_token '','' m;
          if OP_W m then
            modrm_get_token16 c m
          else
            modrm_get_token8 c m } }"

definition lea :: "code \<Rightarrow> I80386_MNEM \<Rightarrow> I80386_MNEM option" where
  "lea c m =
    do {
      (r, m) \<leftarrow> fetch_modrm c m;
      if \<not> r then Some m
      else
        do {
          let m = mnemonic_token ''lea'' 3 m;
          if mn_operand_size m \<noteq> 0 then
            do {
              m \<leftarrow> reg_token reg32_mnem 3 4 (modrm_reg m) m;
              let m = operator_token '','' m;
              modrm_get_token32 c m }
          else
            do {
              m \<leftarrow> reg_token reg16_mnem 2 2 (modrm_reg m) m;
              let m = operator_token '','' m;
              modrm_get_token16 c m } } }"

section \<open>Unary operations, multiplication and division\<close>

definition not_rm :: "code \<Rightarrow> I80386_MNEM \<Rightarrow> I80386_MNEM option" where
  "not_rm c m =
    do {
      let m = mnemonic_token ''not'' 3 m;
      if OP_W m then
        if mn_operand_size m \<noteq> 0 then
          modrm_get_token32 c m
        else
          modrm_get_token16 c m
      else
        modrm_get_token8 c m }"

definition neg :: "code \<Rightarrow> I80386_MNEM \<Rightarrow> I80386_MNEM option" where
  "neg c m =
    do {
      let m = mnemonic_token ''neg'' 3 m;
      if OP_W m then
        if mn_operand_size m \<noteq> 0 then
          modrm_get_token32 c m
        else
          modrm_get_token16 c m
      else
        modrm_get_token8 c m }"

definition mul_accum_rm :: "code \<Rightarrow> I80386_MNEM \<Rightarrow> I80386_MNEM option" where
  "mul_accum_rm c m =
    do {
      let m = mnemonic_token ''mul'' 3 m;
      if OP_W m then
        if mn_operand_size m \<noteq> 0 then
          modrm_get_token32 c m
        else
          modrm_get_token16 c m
      else
        modrm_get_token8 c m }"

definition imul_accum_rm :: "code \<Rightarrow> I80386_MNEM \<Rightarrow> I80386_MNEM option" where
  "imul_accum_rm c m =
    do {
      let m = mnemonic_token ''imul'' 4 m;
      if OP_W m then
        if mn_operand_size m \<noteq> 0 then
          modrm_get_token32 c m
        else
          modrm_get_token16 c m
      else
        modrm_get_token8 c m }"

text \<open>The immediate of \<^verbatim>\<open>imul_reg_rm_imm\<close> with its size.\<close>

definition imul_imm :: "code \<Rightarrow> I80386_MNEM \<Rightarrow> ((u32 \<times> nat) option \<times> I80386_MNEM) option" where
  "imul_imm c m =
    (if OP_S m then
       do {
         (v, m) \<leftarrow> fetch_byte c m;
         case v of None \<Rightarrow> Some (None, m)
         | Some imm2 \<Rightarrow>
             if mn_operand_size m \<noteq> 0 then Some (Some (sign_extend8_32 imm2, 4), m)
             else Some (Some (ucast (sign_extend8_16 imm2), 2), m) }
     else if mn_operand_size m \<noteq> 0 then
       do {
         (v, m) \<leftarrow> fetch_dword c m;
         case v of None \<Rightarrow> Some (None, m) | Some disp \<Rightarrow> Some (Some (disp, 4), m) }
     else
       do {
         (v, m) \<leftarrow> fetch_word c m;
         case v of None \<Rightarrow> Some (None, m) | Some imm \<Rightarrow> Some (Some (ucast imm, 2), m) })"

definition imul_reg_rm_imm :: "code \<Rightarrow> I80386_MNEM \<Rightarrow> I80386_MNEM option" where
  "imul_reg_rm_imm c m =
    do {
      (r, m) \<leftarrow> fetch_modrm c m;
      if \<not> r then Some m
      else
        do {
          (v, m) \<leftarrow> imul_imm c m;
          case v of None \<Rightarrow> Some m
          | Some (disp, sz) \<Rightarrow>
              do {
                let m = mnemonic_token ''imul'' 4 m;
                m \<leftarrow> (if mn_operand_size m \<noteq> 0 then
                     do {
                       m \<leftarrow> reg_token reg32_mnem 3 4 (modrm_reg m) m;
                       let m = operator_token '','' m;
                       modrm_get_token32 c m }
                     else
                     do {
                       m \<leftarrow> reg_token reg16_mnem 2 2 (modrm_reg m) m;
                       let m = operator_token '','' m;
                       modrm_get_token16 c m });
                let m = operator_token '','' m;
                Some (immediate_token disp sz m) } } }"

definition imul_reg_rm :: "code \<Rightarrow> I80386_MNEM \<Rightarrow> I80386_MNEM option" where
  "imul_reg_rm c m =
    do {
      let m = mnemonic_token ''imul'' 4 m;
      if mn_operand_size m \<noteq> 0 then
        do {
          m \<leftarrow> reg_token reg32_mnem 3 4 (modrm_reg m) m;
          let m = operator_token '','' m;
          modrm_get_token32 c m }
      else
        do {
          m \<leftarrow> reg_token reg16_mnem 2 2 (modrm_reg m) m;
          let m = operator_token '','' m;
          modrm_get_token16 c m } }"

definition div_accum_rm :: "code \<Rightarrow> I80386_MNEM \<Rightarrow> I80386_MNEM option" where
  "div_accum_rm c m =
    do {
      let m = mnemonic_token ''div'' 3 m;
      if OP_W m then
        if mn_operand_size m \<noteq> 0 then
          modrm_get_token32 c m
        else
          modrm_get_token16 c m
      else
        modrm_get_token8 c m }"

definition idiv_accum_rm :: "code \<Rightarrow> I80386_MNEM \<Rightarrow> I80386_MNEM option" where
  "idiv_accum_rm c m =
    do {
      let m = mnemonic_token ''idiv'' 4 m;
      if OP_W m then
        if mn_operand_size m \<noteq> 0 then
          modrm_get_token32 c m
        else
          modrm_get_token16 c m
      else
        modrm_get_token8 c m }"

section \<open>String instructions\<close>

definition movs :: "code \<Rightarrow> I80386_MNEM \<Rightarrow> I80386_MNEM option" where
  "movs c m =
    do {
      m \<leftarrow> (if mn_segment_prefix m \<noteq> 0xFF \<and> mn_segment_prefix m \<noteq> SEG_DS then
           do {
             let seg_index = get_seg_index m;
             seg \<leftarrow> name_at seg_mnem seg_index;
             Some (add_token MNEM_TOKEN_SEGMENT (Some seg) 2 (ucast seg_index) 2 m) }
           else
           Some m);
      m \<leftarrow> (if F1 m then
           if F1Z m then
             Some (add_token MNEM_TOKEN_PREFIX (Some ''rep'') 3 0 0 m)
           else
             Some (add_token MNEM_TOKEN_PREFIX (Some ''repne'') 5 0 0 m)
           else
           Some m);
      if OP_W m then
        if mn_operand_size m \<noteq> 0 then
          Some (mnemonic_token ''movsd'' 5 m)
        else
          Some (mnemonic_token ''movsw'' 5 m)
      else
        Some (mnemonic_token ''movsb'' 5 m) }"

definition stos :: "code \<Rightarrow> I80386_MNEM \<Rightarrow> I80386_MNEM option" where
  "stos c m =
    do {
      m \<leftarrow> (if mn_segment_prefix m \<noteq> 0xFF then
           do {
             let seg_index = get_seg_index m;
             seg \<leftarrow> name_at seg_mnem seg_index;
             Some (add_token MNEM_TOKEN_SEGMENT (Some seg) 2 (ucast seg_index) 2 m) }
           else
           Some m);
      m \<leftarrow> (if F1 m then
           Some (add_token MNEM_TOKEN_PREFIX (Some ''rep'') 3 0 0 m)
           else
           Some m);
      if OP_W m then
        if mn_operand_size m \<noteq> 0 then
          Some (mnemonic_token ''stosd'' 5 m)
        else
          Some (mnemonic_token ''stosw'' 5 m)
      else
        Some (mnemonic_token ''stosb'' 5 m) }"

definition lods :: "code \<Rightarrow> I80386_MNEM \<Rightarrow> I80386_MNEM option" where
  "lods c m =
    do {
      m \<leftarrow> (if mn_segment_prefix m \<noteq> 0xFF then
           do {
             let seg_index = get_seg_index m;
             seg \<leftarrow> name_at seg_mnem seg_index;
             Some (add_token MNEM_TOKEN_SEGMENT (Some seg) 2 (ucast seg_index) 2 m) }
           else
           Some m);
      m \<leftarrow> (if F1 m then
           Some (add_token MNEM_TOKEN_PREFIX (Some ''rep'') 3 0 0 m)
           else
           Some m);
      if OP_W m then
        if mn_operand_size m \<noteq> 0 then
          Some (mnemonic_token ''lodsd'' 5 m)
        else
          Some (mnemonic_token ''lodsw'' 5 m)
      else
        Some (mnemonic_token ''lodsb'' 5 m) }"

definition cmps :: "code \<Rightarrow> I80386_MNEM \<Rightarrow> I80386_MNEM option" where
  "cmps c m =
    do {
      m \<leftarrow> (if mn_segment_prefix m \<noteq> 0xFF then
           do {
             let seg_index = get_seg_index m;
             seg \<leftarrow> name_at seg_mnem seg_index;
             Some (add_token MNEM_TOKEN_SEGMENT (Some seg) 2 (ucast seg_index) 2 m) }
           else
           Some m);
      m \<leftarrow> (if F1 m then
           if F1Z m then
             Some (add_token MNEM_TOKEN_PREFIX (Some ''repe'') 4 0 0 m)
           else
             Some (add_token MNEM_TOKEN_PREFIX (Some ''repne'') 5 0 0 m)
           else
           Some m);
      if OP_W m then
        if mn_operand_size m \<noteq> 0 then
          Some (mnemonic_token ''cmpsd'' 5 m)
        else
          Some (mnemonic_token ''cmpsw'' 5 m)
      else
        Some (mnemonic_token ''cmpsb'' 5 m) }"

definition scas :: "code \<Rightarrow> I80386_MNEM \<Rightarrow> I80386_MNEM option" where
  "scas c m =
    do {
      m \<leftarrow> (if F1 m then
           if F1Z m then
             Some (add_token MNEM_TOKEN_PREFIX (Some ''repe'') 4 0 0 m)
           else
             Some (add_token MNEM_TOKEN_PREFIX (Some ''repne'') 5 0 0 m)
           else
           Some m);
      if OP_W m then
        if mn_operand_size m \<noteq> 0 then
          Some (mnemonic_token ''scasd'' 5 m)
        else
          Some (mnemonic_token ''scasw'' 5 m)
      else
        Some (mnemonic_token ''scasb'' 5 m) }"

definition ins :: "code \<Rightarrow> I80386_MNEM \<Rightarrow> I80386_MNEM option" where
  "ins c m =
    do {
      m \<leftarrow> (if mn_segment_prefix m \<noteq> 0xFF then
           do {
             let seg_index = get_seg_index m;
             seg \<leftarrow> name_at seg_mnem seg_index;
             Some (add_token MNEM_TOKEN_SEGMENT (Some seg) 2 (ucast seg_index) 2 m) }
           else
           Some m);
      m \<leftarrow> (if F1 m then
           if F1Z m then
             Some (add_token MNEM_TOKEN_PREFIX (Some ''repe'') 4 0 0 m)
           else
             Some (add_token MNEM_TOKEN_PREFIX (Some ''repne'') 5 0 0 m)
           else
           Some m);
      if OP_W m then
        if mn_operand_size m \<noteq> 0 then
          Some (mnemonic_token ''insd'' 4 m)
        else
          Some (mnemonic_token ''insw'' 4 m)
      else
        Some (mnemonic_token ''insb'' 4 m) }"

definition outs :: "code \<Rightarrow> I80386_MNEM \<Rightarrow> I80386_MNEM option" where
  "outs c m =
    do {
      m \<leftarrow> (if mn_segment_prefix m \<noteq> 0xFF then
           do {
             let seg_index = get_seg_index m;
             seg \<leftarrow> name_at seg_mnem seg_index;
             Some (add_token MNEM_TOKEN_SEGMENT (Some seg) 2 (ucast seg_index) 2 m) }
           else
           Some m);
      m \<leftarrow> (if F1 m then
           if F1Z m then
             Some (add_token MNEM_TOKEN_PREFIX (Some ''repe'') 4 0 0 m)
           else
             Some (add_token MNEM_TOKEN_PREFIX (Some ''repne'') 5 0 0 m)
           else
           Some m);
      if OP_W m then
        if mn_operand_size m \<noteq> 0 then
          Some (mnemonic_token ''outsd'' 5 m)
        else
          Some (mnemonic_token ''outsw'' 5 m)
      else
        Some (mnemonic_token ''outsb'' 5 m) }"

section \<open>Far pointers\<close>

definition les :: "code \<Rightarrow> I80386_MNEM \<Rightarrow> I80386_MNEM option" where
  "les c m =
    do {
      (r, m) \<leftarrow> fetch_modrm c m;
      if \<not> r then Some m
      else
        do {
          let m = mnemonic_token ''les'' 3 m;
          if mn_operand_size m \<noteq> 0 then
            do {
              m \<leftarrow> reg_token reg32_mnem 3 4 (modrm_reg m) m;
              let m = operator_token '','' m;
              modrm_get_token32 c m }
          else
            do {
              m \<leftarrow> reg_token reg16_mnem 2 2 (modrm_reg m) m;
              let m = operator_token '','' m;
              modrm_get_token16 c m } } }"

definition lds :: "code \<Rightarrow> I80386_MNEM \<Rightarrow> I80386_MNEM option" where
  "lds c m =
    do {
      (r, m) \<leftarrow> fetch_modrm c m;
      if \<not> r then Some m
      else
        do {
          let m = mnemonic_token ''lds'' 3 m;
          if mn_operand_size m \<noteq> 0 then
            do {
              m \<leftarrow> reg_token reg32_mnem 3 4 (modrm_reg m) m;
              let m = operator_token '','' m;
              modrm_get_token32 c m }
          else
            do {
              m \<leftarrow> reg_token reg16_mnem 2 2 (modrm_reg m) m;
              let m = operator_token '','' m;
              modrm_get_token16 c m } } }"

definition lss :: "code \<Rightarrow> I80386_MNEM \<Rightarrow> I80386_MNEM option" where
  "lss c m =
    do {
      (r, m) \<leftarrow> fetch_modrm c m;
      if \<not> r then Some m
      else
        do {
          let m = mnemonic_token ''lss'' 3 m;
          if mn_operand_size m \<noteq> 0 then
            do {
              m \<leftarrow> reg_token reg32_mnem 3 4 (modrm_reg m) m;
              let m = operator_token '','' m;
              modrm_get_token32 c m }
          else
            do {
              m \<leftarrow> reg_token reg16_mnem 2 2 (modrm_reg m) m;
              let m = operator_token '','' m;
              modrm_get_token16 c m } } }"

definition lfs :: "code \<Rightarrow> I80386_MNEM \<Rightarrow> I80386_MNEM option" where
  "lfs c m =
    do {
      (r, m) \<leftarrow> fetch_modrm c m;
      if \<not> r then Some m
      else
        do {
          let m = mnemonic_token ''lfs'' 3 m;
          if mn_operand_size m \<noteq> 0 then
            do {
              m \<leftarrow> reg_token reg32_mnem 3 4 (modrm_reg m) m;
              let m = operator_token '','' m;
              modrm_get_token32 c m }
          else
            do {
              m \<leftarrow> reg_token reg16_mnem 2 2 (modrm_reg m) m;
              let m = operator_token '','' m;
              modrm_get_token16 c m } } }"

definition lgs :: "code \<Rightarrow> I80386_MNEM \<Rightarrow> I80386_MNEM option" where
  "lgs c m =
    do {
      (r, m) \<leftarrow> fetch_modrm c m;
      if \<not> r then Some m
      else
        do {
          let m = mnemonic_token ''lgs'' 3 m;
          if mn_operand_size m \<noteq> 0 then
            do {
              m \<leftarrow> reg_token reg32_mnem 3 4 (modrm_reg m) m;
              let m = operator_token '','' m;
              modrm_get_token32 c m }
          else
            do {
              m \<leftarrow> reg_token reg16_mnem 2 2 (modrm_reg m) m;
              let m = operator_token '','' m;
              modrm_get_token16 c m } } }"

definition xlat :: "code \<Rightarrow> I80386_MNEM \<Rightarrow> I80386_MNEM option" where
  "xlat c m =
    do {
      m \<leftarrow> (if mn_segment_prefix m \<noteq> 0xFF \<and> mn_segment_prefix m \<noteq> SEG_DS then
           do {
             let seg_index = get_seg_index m;
             seg \<leftarrow> name_at seg_mnem seg_index;
             Some (add_token MNEM_TOKEN_SEGMENT (Some seg) 2 (ucast seg_index) 2 m) }
           else
           Some m);
      Some (mnemonic_token ''xlatb'' 5 m) }"

definition esc :: "code \<Rightarrow> I80386_MNEM \<Rightarrow> I80386_MNEM option" where
  "esc c m =
    do {
      (r, m) \<leftarrow> fetch_modrm c m;
      if \<not> r then Some m
      else
        do {
          let m = mnemonic_token ''esc'' 3 m;
          modrm_get_token16 c m } }"

section \<open>Loops\<close>

definition loopnz :: "code \<Rightarrow> I80386_MNEM \<Rightarrow> I80386_MNEM option" where
  "loopnz c m =
    do {
      (v, m) \<leftarrow> fetch_byte c m;
      case v of None \<Rightarrow> Some m
      | Some disp \<Rightarrow>
          do {
            let se = sign_extend8_16 disp + mn_counter m;
            let m = mnemonic_token ''loopne'' 6 m;
            Some (immediate_token (scast se) 2 m) } }"

definition loopz :: "code \<Rightarrow> I80386_MNEM \<Rightarrow> I80386_MNEM option" where
  "loopz c m =
    do {
      (v, m) \<leftarrow> fetch_byte c m;
      case v of None \<Rightarrow> Some m
      | Some disp \<Rightarrow>
          do {
            let se = sign_extend8_16 disp + mn_counter m;
            let m = mnemonic_token ''loope'' 5 m;
            Some (immediate_token (scast se) 2 m) } }"

definition loop :: "code \<Rightarrow> I80386_MNEM \<Rightarrow> I80386_MNEM option" where
  "loop c m =
    do {
      (v, m) \<leftarrow> fetch_byte c m;
      case v of None \<Rightarrow> Some m
      | Some disp \<Rightarrow>
          do {
            let se = sign_extend8_16 disp + mn_counter m;
            let m = mnemonic_token ''loop'' 4 m;
            Some (immediate_token (scast se) 2 m) } }"

definition jcxz :: "code \<Rightarrow> I80386_MNEM \<Rightarrow> I80386_MNEM option" where
  "jcxz c m =
    do {
      (v, m) \<leftarrow> fetch_byte c m;
      case v of None \<Rightarrow> Some m
      | Some disp \<Rightarrow>
          do {
            let se = sign_extend8_16 disp + mn_counter m;
            let m = mnemonic_token ''jcxz'' 4 m;
            Some (immediate_token (scast se) 2 m) } }"

section \<open>Ports and interrupts\<close>

definition in_accum_imm :: "code \<Rightarrow> I80386_MNEM \<Rightarrow> I80386_MNEM option" where
  "in_accum_imm c m =
    do {
      (v, m) \<leftarrow> fetch_byte c m;
      case v of None \<Rightarrow> Some m
      | Some imm \<Rightarrow>
          do {
            let m = mnemonic_token ''in'' 2 m;
            m \<leftarrow> (if OP_W m then
                 if mn_operand_size m \<noteq> 0 then
                   Some (add_token MNEM_TOKEN_GENERAL_REGISTER (Some ''eax'') 3 0 4 m)
                 else
                   Some (add_token MNEM_TOKEN_GENERAL_REGISTER (Some ''ax'') 2 0 2 m)
                 else
                 Some (add_token MNEM_TOKEN_GENERAL_REGISTER (Some ''al'') 2 0 1 m));
            let m = operator_token '','' m;
            Some (immediate_token (ucast imm) 1 m) } }"

definition out_accum_imm :: "code \<Rightarrow> I80386_MNEM \<Rightarrow> I80386_MNEM option" where
  "out_accum_imm c m =
    do {
      (v, m) \<leftarrow> fetch_byte c m;
      case v of None \<Rightarrow> Some m
      | Some imm \<Rightarrow>
          do {
            let m = mnemonic_token ''out'' 3 m;
            let m = immediate_token (ucast imm) 1 m;
            let m = operator_token '','' m;
            if OP_W m then
              if mn_operand_size m \<noteq> 0 then
                Some (add_token MNEM_TOKEN_GENERAL_REGISTER (Some ''eax'') 3 0 4 m)
              else
                Some (add_token MNEM_TOKEN_GENERAL_REGISTER (Some ''ax'') 2 0 2 m)
            else
              Some (add_token MNEM_TOKEN_GENERAL_REGISTER (Some ''al'') 2 0 1 m) } }"

definition in_accum_dx :: "code \<Rightarrow> I80386_MNEM \<Rightarrow> I80386_MNEM option" where
  "in_accum_dx c m =
    do {
      let m = mnemonic_token ''in'' 2 m;
      m \<leftarrow> (if OP_W m then
           if mn_operand_size m \<noteq> 0 then
             Some (add_token MNEM_TOKEN_GENERAL_REGISTER (Some ''eax'') 3 0 4 m)
           else
             Some (add_token MNEM_TOKEN_GENERAL_REGISTER (Some ''ax'') 2 0 2 m)
           else
           Some (add_token MNEM_TOKEN_GENERAL_REGISTER (Some ''al'') 2 0 1 m));
      let m = operator_token '','' m;
      Some (add_token MNEM_TOKEN_GENERAL_REGISTER (Some ''dx'') 2 2 2 m) }"

definition out_accum_dx :: "code \<Rightarrow> I80386_MNEM \<Rightarrow> I80386_MNEM option" where
  "out_accum_dx c m =
    do {
      let m = mnemonic_token ''out'' 3 m;
      let m = add_token MNEM_TOKEN_GENERAL_REGISTER (Some ''dx'') 2 2 2 m;
      let m = operator_token '','' m;
      if OP_W m then
        if mn_operand_size m \<noteq> 0 then
          Some (add_token MNEM_TOKEN_GENERAL_REGISTER (Some ''eax'') 3 0 4 m)
        else
          Some (add_token MNEM_TOKEN_GENERAL_REGISTER (Some ''ax'') 2 0 2 m)
      else
        Some (add_token MNEM_TOKEN_GENERAL_REGISTER (Some ''al'') 2 0 1 m) }"

definition int_imm :: "code \<Rightarrow> I80386_MNEM \<Rightarrow> I80386_MNEM option" where
  "int_imm c m =
    do {
      (v, m) \<leftarrow> (if mn_opcode m AND 0x1 \<noteq> 0 then fetch_byte c m else Some (Some 0, m));
      case v of None \<Rightarrow> Some m
      | Some type \<Rightarrow>
          do {
            let m = mnemonic_token ''int'' 3 m;
            Some (add_token MNEM_TOKEN_NUMBER None 0 (ucast type) 1 m) } }"

definition int3 :: "code \<Rightarrow> I80386_MNEM \<Rightarrow> I80386_MNEM option" where
  "int3 c m =
    Some (mnemonic_token ''int3'' 4 m)"

definition into :: "code \<Rightarrow> I80386_MNEM \<Rightarrow> I80386_MNEM option" where
  "into c m =
    Some (mnemonic_token ''into'' 4 m)"

definition iret :: "code \<Rightarrow> I80386_MNEM \<Rightarrow> I80386_MNEM option" where
  "iret c m =
    Some (mnemonic_token ''iret'' 4 m)"

definition bound :: "code \<Rightarrow> I80386_MNEM \<Rightarrow> I80386_MNEM option" where
  "bound c m =
    Some (mnemonic_token ''bound'' 5 m)"

section \<open>System instructions\<close>

definition str :: "code \<Rightarrow> I80386_MNEM \<Rightarrow> I80386_MNEM option" where
  "str c m =
    Some (mnemonic_token ''str'' 3 m)"

definition ltr :: "code \<Rightarrow> I80386_MNEM \<Rightarrow> I80386_MNEM option" where
  "ltr c m =
    Some (mnemonic_token ''ltr'' 3 m)"

definition sldt :: "code \<Rightarrow> I80386_MNEM \<Rightarrow> I80386_MNEM option" where
  "sldt c m =
    do {
      let m = mnemonic_token ''sldt'' 4 m;
      i80386_get_modrm_token c m }"

definition lldt :: "code \<Rightarrow> I80386_MNEM \<Rightarrow> I80386_MNEM option" where
  "lldt c m =
    do {
      let m = mnemonic_token ''lldt'' 4 m;
      i80386_get_modrm_token c m }"

definition sgdt :: "code \<Rightarrow> I80386_MNEM \<Rightarrow> I80386_MNEM option" where
  "sgdt c m =
    do {
      let m = mnemonic_token ''sgdt'' 4 m;
      i80386_get_modrm_token c m }"

definition sidt :: "code \<Rightarrow> I80386_MNEM \<Rightarrow> I80386_MNEM option" where
  "sidt c m =
    do {
      let m = mnemonic_token ''sidt'' 4 m;
      i80386_get_modrm_token c m }"

definition lgdt :: "code \<Rightarrow> I80386_MNEM \<Rightarrow> I80386_MNEM option" where
  "lgdt c m =
    do {
      let m = mnemonic_token ''lgdt'' 4 m;
      i80386_get_modrm_token c m }"

definition lidt :: "code \<Rightarrow> I80386_MNEM \<Rightarrow> I80386_MNEM option" where
  "lidt c m =
    do {
      let m = mnemonic_token ''lidt'' 4 m;
      i80386_get_modrm_token c m }"

definition smsw :: "code \<Rightarrow> I80386_MNEM \<Rightarrow> I80386_MNEM option" where
  "smsw c m =
    Some (mnemonic_token ''smsw'' 4 m)"

definition lmsw :: "code \<Rightarrow> I80386_MNEM \<Rightarrow> I80386_MNEM option" where
  "lmsw c m =
    Some (mnemonic_token ''lmsw'' 4 m)"

definition verr :: "code \<Rightarrow> I80386_MNEM \<Rightarrow> I80386_MNEM option" where
  "verr c m =
    Some (mnemonic_token ''verr'' 4 m)"

definition verw :: "code \<Rightarrow> I80386_MNEM \<Rightarrow> I80386_MNEM option" where
  "verw c m =
    Some (mnemonic_token ''verw'' 4 m)"

definition lar :: "code \<Rightarrow> I80386_MNEM \<Rightarrow> I80386_MNEM option" where
  "lar c m =
    Some (mnemonic_token ''lar'' 3 m)"

definition lsl :: "code \<Rightarrow> I80386_MNEM \<Rightarrow> I80386_MNEM option" where
  "lsl c m =
    Some (mnemonic_token ''lsl'' 3 m)"

definition clts :: "code \<Rightarrow> I80386_MNEM \<Rightarrow> I80386_MNEM option" where
  "clts c m =
    Some (mnemonic_token ''clts'' 4 m)"

definition arpl :: "code \<Rightarrow> I80386_MNEM \<Rightarrow> I80386_MNEM option" where
  "arpl c m =
    Some (mnemonic_token ''arpl'' 4 m)"

definition loadall :: "code \<Rightarrow> I80386_MNEM \<Rightarrow> I80386_MNEM option" where
  "loadall c m =
    Some (mnemonic_token ''loadall'' 7 m)"

section \<open>Bit operations\<close>

definition setcc :: "code \<Rightarrow> I80386_MNEM \<Rightarrow> I80386_MNEM option" where
  "setcc c m =
    Some (mnemonic_token ''setcc'' 5 m)"

definition bt :: "code \<Rightarrow> I80386_MNEM \<Rightarrow> I80386_MNEM option" where
  "bt c m =
    do {
      (r, m) \<leftarrow> fetch_modrm c m;
      if \<not> r then Some m
      else
        do {
          let m = mnemonic_token ''bt'' 2 m;
          if mn_operand_size m \<noteq> 0 then
            do {
              m \<leftarrow> modrm_get_token32 c m;
              reg_token reg32_mnem 3 4 (modrm_reg m) m }
          else
            do {
              m \<leftarrow> modrm_get_token16 c m;
              reg_token reg16_mnem 2 2 (modrm_reg m) m } } }"

definition bts :: "code \<Rightarrow> I80386_MNEM \<Rightarrow> I80386_MNEM option" where
  "bts c m =
    do {
      (r, m) \<leftarrow> fetch_modrm c m;
      if \<not> r then Some m
      else
        do {
          let m = mnemonic_token ''bts'' 3 m;
          if mn_operand_size m \<noteq> 0 then
            do {
              m \<leftarrow> modrm_get_token32 c m;
              reg_token reg32_mnem 3 4 (modrm_reg m) m }
          else
            do {
              m \<leftarrow> modrm_get_token16 c m;
              reg_token reg16_mnem 2 2 (modrm_reg m) m } } }"

definition btr :: "code \<Rightarrow> I80386_MNEM \<Rightarrow> I80386_MNEM option" where
  "btr c m =
    do {
      (r, m) \<leftarrow> fetch_modrm c m;
      if \<not> r then Some m
      else
        do {
          let m = mnemonic_token ''btr'' 3 m;
          if mn_operand_size m \<noteq> 0 then
            do {
              m \<leftarrow> modrm_get_token32 c m;
              reg_token reg32_mnem 3 4 (modrm_reg m) m }
          else
            do {
              m \<leftarrow> modrm_get_token16 c m;
              reg_token reg16_mnem 2 2 (modrm_reg m) m } } }"

definition btc :: "code \<Rightarrow> I80386_MNEM \<Rightarrow> I80386_MNEM option" where
  "btc c m =
    do {
      (r, m) \<leftarrow> fetch_modrm c m;
      if \<not> r then Some m
      else
        do {
          let m = mnemonic_token ''btc'' 3 m;
          if mn_operand_size m \<noteq> 0 then
            do {
              m \<leftarrow> modrm_get_token32 c m;
              reg_token reg32_mnem 3 4 (modrm_reg m) m }
          else
            do {
              m \<leftarrow> modrm_get_token16 c m;
              reg_token reg16_mnem 2 2 (modrm_reg m) m } } }"

definition bsf :: "code \<Rightarrow> I80386_MNEM \<Rightarrow> I80386_MNEM option" where
  "bsf c m =
    do {
      (r, m) \<leftarrow> fetch_modrm c m;
      if \<not> r then Some m
      else
        do {
          let m = mnemonic_token ''bsf'' 3 m;
          if mn_operand_size m \<noteq> 0 then
            do {
              m \<leftarrow> modrm_get_token32 c m;
              reg_token reg32_mnem 3 4 (modrm_reg m) m }
          else
            do {
              m \<leftarrow> modrm_get_token16 c m;
              reg_token reg16_mnem 2 2 (modrm_reg m) m } } }"

definition bsr :: "code \<Rightarrow> I80386_MNEM \<Rightarrow> I80386_MNEM option" where
  "bsr c m =
    do {
      (r, m) \<leftarrow> fetch_modrm c m;
      if \<not> r then Some m
      else
        do {
          let m = mnemonic_token ''bsr'' 3 m;
          if mn_operand_size m \<noteq> 0 then
            do {
              m \<leftarrow> modrm_get_token32 c m;
              reg_token reg32_mnem 3 4 (modrm_reg m) m }
          else
            do {
              m \<leftarrow> modrm_get_token16 c m;
              reg_token reg16_mnem 2 2 (modrm_reg m) m } } }"

end
