(* ===== verification/Disasm_Decode.thy ===== *)
theory Disasm_Decode
  imports Disasm_Ops
begin

text \<open>
  \<^verbatim>\<open>src/disasm/i80386_mnem.c\<close>, third part: the prefixes, the opcode groups, the two opcode maps, the
  decode loop and the functions the kernel calls. The switch over the one-byte opcodes is cut into
  four functions, one for each quarter of the map.
\<close>

datatype decode_status = I80386_DECODE_OK | I80386_DECODE_REQ_CYCLE | I80386_DECODE_UNDEFINED

section \<open>Prefixes\<close>

text \<open>Every prefix ends with the fetch of the next opcode byte.\<close>

definition next_opcode :: "code \<Rightarrow> I80386_MNEM \<Rightarrow> (decode_status \<times> I80386_MNEM) option" where
  "next_opcode c m = do {
     (v, m) \<leftarrow> fetch_byte c m;
     case v of None \<Rightarrow> Some (I80386_DECODE_UNDEFINED, m)
     | Some b \<Rightarrow> Some (I80386_DECODE_REQ_CYCLE, m\<lparr>mn_opcode := b\<rparr>) }"

definition rep :: "code \<Rightarrow> I80386_MNEM \<Rightarrow> (decode_status \<times> I80386_MNEM) option" where
  "rep c m =
    next_opcode c (m\<lparr>mn_internal_flags :=
      ((mn_internal_flags m OR 0x02) AND NOT 0x01) OR (mn_opcode m AND 0x1)\<rparr>)"

definition segment_override :: "code \<Rightarrow> I80386_MNEM \<Rightarrow> (decode_status \<times> I80386_MNEM) option" where
  "segment_override c m = next_opcode c (m\<lparr>mn_segment_prefix := OP_SR m\<rparr>)"

definition segment_override_extended :: "code \<Rightarrow> I80386_MNEM \<Rightarrow> (decode_status \<times> I80386_MNEM) option" where
  "segment_override_extended c m = next_opcode c (m\<lparr>mn_segment_prefix := mn_opcode m AND 0x7\<rparr>)"

definition lock :: "code \<Rightarrow> I80386_MNEM \<Rightarrow> (decode_status \<times> I80386_MNEM) option" where
  "lock c m = next_opcode c (add_token MNEM_TOKEN_PREFIX (Some ''lock'') 4 0 0 m)"

definition operand_size :: "code \<Rightarrow> I80386_MNEM \<Rightarrow> (decode_status \<times> I80386_MNEM) option" where
  "operand_size c m = next_opcode c (m\<lparr>mn_operand_size := mn_operand_size m XOR 1\<rparr>)"

definition address_size :: "code \<Rightarrow> I80386_MNEM \<Rightarrow> (decode_status \<times> I80386_MNEM) option" where
  "address_size c m = next_opcode c (m\<lparr>mn_addressing_size := mn_addressing_size m XOR 1\<rparr>)"

section \<open>Opcode groups\<close>

definition i80386_decode_opcode_80 :: "code \<Rightarrow> I80386_MNEM \<Rightarrow> I80386_MNEM option" where
  "i80386_decode_opcode_80 c m =
    do {
      (r, m) \<leftarrow> fetch_modrm c m;
      if \<not> r then Some m
      else
        if modrm_reg m = 0 then add_rm_imm c m
        else if modrm_reg m = 1 then or_rm_imm c m
        else if modrm_reg m = 2 then adc_rm_imm c m
        else if modrm_reg m = 3 then sbb_rm_imm c m
        else if modrm_reg m = 4 then and_rm_imm c m
        else if modrm_reg m = 5 then sub_rm_imm c m
        else if modrm_reg m = 6 then xor_rm_imm c m
        else if modrm_reg m = 7 then cmp_rm_imm c m
        else Some m }"

definition i80386_decode_opcode_c0 :: "code \<Rightarrow> I80386_MNEM \<Rightarrow> I80386_MNEM option" where
  "i80386_decode_opcode_c0 c m =
    do {
      (r, m) \<leftarrow> fetch_modrm c m;
      if \<not> r then Some m
      else
        if modrm_reg m = 0 then rol_rm_imm c m
        else if modrm_reg m = 1 then ror_rm_imm c m
        else if modrm_reg m = 2 then rcl_rm_imm c m
        else if modrm_reg m = 3 then rcr_rm_imm c m
        else if modrm_reg m = 4 then shl_rm_imm c m
        else if modrm_reg m = 5 then shr_rm_imm c m
        else if modrm_reg m = 6 then sal_rm_imm c m
        else if modrm_reg m = 7 then sar_rm_imm c m
        else Some m }"

definition i80386_decode_opcode_d0 :: "code \<Rightarrow> I80386_MNEM \<Rightarrow> I80386_MNEM option" where
  "i80386_decode_opcode_d0 c m =
    do {
      (r, m) \<leftarrow> fetch_modrm c m;
      if \<not> r then Some m
      else
        if modrm_reg m = 0 then rol_rm_cl c m
        else if modrm_reg m = 1 then ror_rm_cl c m
        else if modrm_reg m = 2 then rcl_rm_cl c m
        else if modrm_reg m = 3 then rcr_rm_cl c m
        else if modrm_reg m = 4 then shl_rm_cl c m
        else if modrm_reg m = 5 then shr_rm_cl c m
        else if modrm_reg m = 6 then sal_rm_cl c m
        else if modrm_reg m = 7 then sar_rm_cl c m
        else Some m }"

definition i80386_decode_opcode_f6 :: "code \<Rightarrow> I80386_MNEM \<Rightarrow> I80386_MNEM option" where
  "i80386_decode_opcode_f6 c m =
    do {
      (r, m) \<leftarrow> fetch_modrm c m;
      if \<not> r then Some m
      else
        if modrm_reg m = 0 then test_rm_imm c m
        else if modrm_reg m = 2 then not_rm c m
        else if modrm_reg m = 3 then neg c m
        else if modrm_reg m = 4 then mul_accum_rm c m
        else if modrm_reg m = 5 then imul_accum_rm c m
        else if modrm_reg m = 6 then div_accum_rm c m
        else if modrm_reg m = 7 then idiv_accum_rm c m
        else Some m }"

definition i80386_decode_opcode_fe :: "code \<Rightarrow> I80386_MNEM \<Rightarrow> I80386_MNEM option" where
  "i80386_decode_opcode_fe c m =
    do {
      (r, m) \<leftarrow> fetch_modrm c m;
      if \<not> r then Some m
      else
        if modrm_reg m = 0 then inc_rm c m
        else if modrm_reg m = 1 then dec_rm c m
        else Some m }"

definition i80386_decode_opcode_ff :: "code \<Rightarrow> I80386_MNEM \<Rightarrow> I80386_MNEM option" where
  "i80386_decode_opcode_ff c m =
    do {
      (r, m) \<leftarrow> fetch_modrm c m;
      if \<not> r then Some m
      else
        if modrm_reg m = 0 then inc_rm c m
        else if modrm_reg m = 1 then dec_rm c m
        else if modrm_reg m = 2 then call_intra_indirect c m
        else if modrm_reg m = 3 then call_inter_indirect c m
        else if modrm_reg m = 4 then jmp_intra_indirect c m
        else if modrm_reg m = 5 then jmp_inter_indirect c m
        else if modrm_reg m = 6 then push_rm c m
        else Some m }"

definition i80386_decode_opcode_0f00 :: "code \<Rightarrow> I80386_MNEM \<Rightarrow> I80386_MNEM option" where
  "i80386_decode_opcode_0f00 c m =
    do {
      (r, m) \<leftarrow> fetch_modrm c m;
      if \<not> r then Some m
      else
        if modrm_reg m = 0 then sldt c m
        else if modrm_reg m = 1 then str c m
        else if modrm_reg m = 2 then lldt c m
        else if modrm_reg m = 3 then ltr c m
        else if modrm_reg m = 4 then verr c m
        else if modrm_reg m = 5 then verw c m
        else Some m }"

definition i80386_decode_opcode_0f01 :: "code \<Rightarrow> I80386_MNEM \<Rightarrow> I80386_MNEM option" where
  "i80386_decode_opcode_0f01 c m =
    do {
      (r, m) \<leftarrow> fetch_modrm c m;
      if \<not> r then Some m
      else
        if modrm_reg m = 0 then sgdt c m
        else if modrm_reg m = 1 then sidt c m
        else if modrm_reg m = 2 then lgdt c m
        else if modrm_reg m = 3 then lidt c m
        else if modrm_reg m = 4 then smsw c m
        else if modrm_reg m = 6 then lmsw c m
        else Some m }"

definition i80386_decode_opcode_0f :: "code \<Rightarrow> I80386_MNEM \<Rightarrow> I80386_MNEM option" where
  "i80386_decode_opcode_0f c m =
    do {
      (v, m) \<leftarrow> fetch_byte c m;
      case v of None \<Rightarrow> Some m
      | Some op \<Rightarrow>
          do {
            let m = m\<lparr>mn_opcode := op\<rparr>;
            if op = 0x00 then i80386_decode_opcode_0f00 c m
            else if op = 0x01 then i80386_decode_opcode_0f01 c m
            else if op = 0x02 then lar c m
            else if op = 0x03 then lsl c m
            else if op = 0x05 then loadall c m
            else if op = 0x06 then clts c m
            else if op = 0x20 then mov_cr c m
            else if op = 0x21 then mov_dr c m
            else if op = 0x22 then mov_cr c m
            else if op = 0x23 then mov_dr c m
            else if op = 0x24 then mov_tr c m
            else if op = 0x26 then mov_tr c m
            else if 0x80 \<le> op \<and> op \<le> 0x8F then jcc_long c m
            else if 0x90 \<le> op \<and> op \<le> 0x9F then setcc c m
            else if op = 0xA0 then push_seg c m
            else if op = 0xA1 then pop_seg c m
            else if op = 0xA3 then bt c m
            else if op = 0xA4 then shld_rm_imm c m
            else if op = 0xA5 then shld_rm_cl c m
            else if op = 0xA8 then push_seg c m
            else if op = 0xA9 then pop_seg c m
            else if op = 0xAB then bts c m
            else if op = 0xAC then shrd_rm_imm c m
            else if op = 0xAD then shrd_rm_cl c m
            else if op = 0xAF then imul_reg_rm c m
            else if op = 0xB2 then lss c m
            else if op = 0xB3 then btr c m
            else if op = 0xB4 then lfs c m
            else if op = 0xB5 then lgs c m
            else if op = 0xB6 \<or> op = 0xB7 then movzx c m
            else if op = 0xBB then btc c m
            else if op = 0xBC then bsf c m
            else if op = 0xBD then bsr c m
            else if op = 0xBE \<or> op = 0xBF then movsx c m
            else Some m } }"

section \<open>The one-byte opcode map\<close>

text \<open>\<^verbatim>\<open>break\<close> out of the switch: the instruction is complete.\<close>

definition decoded :: "I80386_MNEM option \<Rightarrow> (decode_status \<times> I80386_MNEM) option" where
  "decoded r = do { m \<leftarrow> r; Some (I80386_DECODE_OK, m) }"

definition decode_opcode_00_3f :: "code \<Rightarrow> I80386_MNEM \<Rightarrow> (decode_status \<times> I80386_MNEM) option" where
  "decode_opcode_00_3f c m =
    (let op = mn_opcode m in
     if 0x00 \<le> op \<and> op \<le> 0x03 then decoded (add_rm_reg c m)
     else if op = 0x04 \<or> op = 0x05 then decoded (add_accum_imm c m)
     else if op = 0x06 then decoded (push_seg c m)
     else if op = 0x07 then decoded (pop_seg c m)
     else if 0x08 \<le> op \<and> op \<le> 0x0B then decoded (or_rm_reg c m)
     else if op = 0x0C \<or> op = 0x0D then decoded (or_accum_imm c m)
     else if op = 0x0E then decoded (push_seg c m)
     else if op = 0x0F then decoded (i80386_decode_opcode_0f c m)
     else if 0x10 \<le> op \<and> op \<le> 0x13 then decoded (adc_rm_reg c m)
     else if op = 0x14 \<or> op = 0x15 then decoded (adc_accum_imm c m)
     else if op = 0x16 then decoded (push_seg c m)
     else if op = 0x17 then decoded (pop_seg c m)
     else if 0x18 \<le> op \<and> op \<le> 0x1B then decoded (sbb_rm_reg c m)
     else if op = 0x1C \<or> op = 0x1D then decoded (sbb_accum_imm c m)
     else if op = 0x1E then decoded (push_seg c m)
     else if op = 0x1F then decoded (pop_seg c m)
     else if 0x20 \<le> op \<and> op \<le> 0x23 then decoded (and_rm_reg c m)
     else if op = 0x24 \<or> op = 0x25 then decoded (and_accum_imm c m)
     else if op = 0x26 then segment_override c m
     else if op = 0x27 then decoded (daa c m)
     else if 0x28 \<le> op \<and> op \<le> 0x2B then decoded (sub_rm_reg c m)
     else if op = 0x2C \<or> op = 0x2D then decoded (sub_accum_imm c m)
     else if op = 0x2E then segment_override c m
     else if op = 0x2F then decoded (das c m)
     else if 0x30 \<le> op \<and> op \<le> 0x33 then decoded (xor_rm_reg c m)
     else if op = 0x34 \<or> op = 0x35 then decoded (xor_accum_imm c m)
     else if op = 0x36 then segment_override c m
     else if op = 0x37 then decoded (aaa c m)
     else if 0x38 \<le> op \<and> op \<le> 0x3B then decoded (cmp_rm_reg c m)
     else if op = 0x3C \<or> op = 0x3D then decoded (cmp_accum_imm c m)
     else if op = 0x3E then segment_override c m
     else if op = 0x3F then decoded (aas c m)
     else decoded (Some m))"

definition decode_opcode_40_7f :: "code \<Rightarrow> I80386_MNEM \<Rightarrow> (decode_status \<times> I80386_MNEM) option" where
  "decode_opcode_40_7f c m =
    (let op = mn_opcode m in
     if 0x40 \<le> op \<and> op \<le> 0x47 then decoded (inc_reg c m)
     else if 0x48 \<le> op \<and> op \<le> 0x4F then decoded (dec_reg c m)
     else if 0x50 \<le> op \<and> op \<le> 0x57 then decoded (push_reg c m)
     else if 0x58 \<le> op \<and> op \<le> 0x5F then decoded (pop_reg c m)
     else if op = 0x60 then decoded (pusha c m)
     else if op = 0x61 then decoded (popa c m)
     else if op = 0x62 then decoded (bound c m)
     else if op = 0x63 then decoded (arpl c m)
     else if op = 0x64 then segment_override_extended c m
     else if op = 0x65 then segment_override_extended c m
     else if op = 0x66 then operand_size c m
     else if op = 0x67 then address_size c m
     else if op = 0x68 then decoded (push_imm c m)
     else if op = 0x69 then decoded (imul_reg_rm_imm c m)
     else if op = 0x6A then decoded (push_imm c m)
     else if op = 0x6B then decoded (imul_reg_rm_imm c m)
     else if op = 0x6C \<or> op = 0x6D then decoded (ins c m)
     else if op = 0x6E \<or> op = 0x6F then decoded (outs c m)
     else if 0x70 \<le> op \<and> op \<le> 0x7F then decoded (jcc_short c m)
     else decoded (Some m))"

definition decode_opcode_80_bf :: "code \<Rightarrow> I80386_MNEM \<Rightarrow> (decode_status \<times> I80386_MNEM) option" where
  "decode_opcode_80_bf c m =
    (let op = mn_opcode m in
     if 0x80 \<le> op \<and> op \<le> 0x83 then decoded (i80386_decode_opcode_80 c m)
     else if op = 0x84 \<or> op = 0x85 then decoded (test_rm_reg c m)
     else if op = 0x86 \<or> op = 0x87 then decoded (xchg_rm_reg c m)
     else if 0x88 \<le> op \<and> op \<le> 0x8B then decoded (mov_rm_reg c m)
     else if op = 0x8C then decoded (mov_seg c m)
     else if op = 0x8D then decoded (lea c m)
     else if op = 0x8E then decoded (mov_seg c m)
     else if op = 0x8F then decoded (pop_rm c m)
     else if op = 0x90 then decoded (nop c m)
     else if 0x91 \<le> op \<and> op \<le> 0x97 then decoded (xchg_accum_reg c m)
     else if op = 0x98 then decoded (cbw c m)
     else if op = 0x99 then decoded (cwd c m)
     else if op = 0x9A then decoded (call_inter_direct c m)
     else if op = 0x9B then decoded (wait c m)
     else if op = 0x9C then decoded (pushf c m)
     else if op = 0x9D then decoded (popf c m)
     else if op = 0x9E then decoded (sahf c m)
     else if op = 0x9F then decoded (lahf c m)
     else if 0xA0 \<le> op \<and> op \<le> 0xA3 then decoded (mov_accum_mem c m)
     else if op = 0xA4 \<or> op = 0xA5 then decoded (movs c m)
     else if op = 0xA6 \<or> op = 0xA7 then decoded (cmps c m)
     else if op = 0xA8 \<or> op = 0xA9 then decoded (test_accum_imm c m)
     else if op = 0xAA \<or> op = 0xAB then decoded (stos c m)
     else if op = 0xAC \<or> op = 0xAD then decoded (lods c m)
     else if op = 0xAE \<or> op = 0xAF then decoded (scas c m)
     else if 0xB0 \<le> op \<and> op \<le> 0xBF then decoded (mov_reg_imm c m)
     else decoded (Some m))"

definition decode_opcode_c0_ff :: "code \<Rightarrow> I80386_MNEM \<Rightarrow> (decode_status \<times> I80386_MNEM) option" where
  "decode_opcode_c0_ff c m =
    (let op = mn_opcode m in
     if op = 0xC0 \<or> op = 0xC1 then decoded (i80386_decode_opcode_c0 c m)
     else if op = 0xC2 then decoded (ret_intra_add_imm c m)
     else if op = 0xC3 then decoded (ret_intra c m)
     else if op = 0xC4 then decoded (les c m)
     else if op = 0xC5 then decoded (lds c m)
     else if op = 0xC6 \<or> op = 0xC7 then decoded (mov_rm_imm c m)
     else if op = 0xC8 then decoded (enter c m)
     else if op = 0xC9 then decoded (leave c m)
     else if op = 0xCA then decoded (ret_inter_add_imm c m)
     else if op = 0xCB then decoded (ret_inter c m)
     else if op = 0xCC then decoded (int3 c m)
     else if op = 0xCD then decoded (int_imm c m)
     else if op = 0xCE then decoded (into c m)
     else if op = 0xCF then decoded (iret c m)
     else if 0xD0 \<le> op \<and> op \<le> 0xD3 then decoded (i80386_decode_opcode_d0 c m)
     else if op = 0xD4 then decoded (aam c m)
     else if op = 0xD5 then decoded (aad c m)
     else if op = 0xD6 then decoded (salc c m)
     else if op = 0xD7 then decoded (xlat c m)
     else if 0xD8 \<le> op \<and> op \<le> 0xDF then decoded (esc c m)
     else if op = 0xE0 then decoded (loopnz c m)
     else if op = 0xE1 then decoded (loopz c m)
     else if op = 0xE2 then decoded (loop c m)
     else if op = 0xE3 then decoded (jcxz c m)
     else if op = 0xE4 \<or> op = 0xE5 then decoded (in_accum_imm c m)
     else if op = 0xE6 \<or> op = 0xE7 then decoded (out_accum_imm c m)
     else if op = 0xE8 then decoded (call_intra_direct c m)
     else if op = 0xE9 then decoded (jmp_intra_direct c m)
     else if op = 0xEA then decoded (jmp_inter_direct c m)
     else if op = 0xEB then decoded (jmp_intra_direct_short c m)
     else if op = 0xEC \<or> op = 0xED then decoded (in_accum_dx c m)
     else if op = 0xEE \<or> op = 0xEF then decoded (out_accum_dx c m)
     else if op = 0xF0 \<or> op = 0xF1 then lock c m
     else if op = 0xF2 \<or> op = 0xF3 then rep c m
     else if op = 0xF4 then decoded (hlt c m)
     else if op = 0xF5 then decoded (cmc c m)
     else if op = 0xF6 \<or> op = 0xF7 then decoded (i80386_decode_opcode_f6 c m)
     else if op = 0xF8 then decoded (clc c m)
     else if op = 0xF9 then decoded (stc c m)
     else if op = 0xFA then decoded (cli c m)
     else if op = 0xFB then decoded (sti c m)
     else if op = 0xFC then decoded (cld c m)
     else if op = 0xFD then decoded (std c m)
     else if op = 0xFE then decoded (i80386_decode_opcode_fe c m)
     else if op = 0xFF then decoded (i80386_decode_opcode_ff c m)
     else decoded (Some m))"

definition i80386_decode_opcode :: "code \<Rightarrow> I80386_MNEM \<Rightarrow> (decode_status \<times> I80386_MNEM) option" where
  "i80386_decode_opcode c m =
    (let op = mn_opcode m in
     if op \<le> 0x3F then decode_opcode_00_3f c m
     else if op \<le> 0x7F then decode_opcode_40_7f c m
     else if op \<le> 0xBF then decode_opcode_80_bf c m
     else decode_opcode_c0_ff c m)"

section \<open>Decoding an instruction\<close>

text \<open>The \<^verbatim>\<open>do\<close> loop over the prefixes; \<open>None\<close> also when it never ends.\<close>

partial_function (option) i80386_decode_instruction ::
  "code \<Rightarrow> I80386_MNEM \<Rightarrow> (decode_status \<times> I80386_MNEM) option" where
  "i80386_decode_instruction c m = do {
     (r, m) \<leftarrow> i80386_decode_opcode c m;
     if r = I80386_DECODE_REQ_CYCLE then i80386_decode_instruction c m else Some (r, m) }"

definition i80386_next :: "u32 \<Rightarrow> I80386_MNEM \<Rightarrow> I80386_MNEM" where
  "i80386_next offset m = m\<lparr>mn_offset := offset, mn_counter := 0, mn_modrm := 0, mn_sib := 0,
     mn_segment_prefix := 0xFF, mn_internal_flags := 0, mn_operand_size := 1, mn_addressing_size := 1,
     mn_effective_address := \<lparr>ea_base = 0, ea_offset = 0, ea_segment_index = 0, ea_stack_address = 0, ea_valid = 0\<rparr>,
     mn_line := []\<rparr>"

definition i80386_fetch :: "code \<Rightarrow> u32 \<Rightarrow> I80386_MNEM \<Rightarrow> I80386_MNEM option" where
  "i80386_fetch c offset m = do {
     (v, m) \<leftarrow> fetch_byte c (i80386_next offset m);
     case v of None \<Rightarrow> Some m | Some b \<Rightarrow> Some (m\<lparr>mn_opcode := b\<rparr>) }"

definition i80386_mnem_decode :: "code \<Rightarrow> u32 \<Rightarrow> I80386_MNEM \<Rightarrow> (bool \<times> I80386_MNEM) option" where
  "i80386_mnem_decode c offset m = do {
     m \<leftarrow> i80386_fetch c offset m;
     (r, m) \<leftarrow> i80386_decode_instruction c m;
     Some (r = I80386_DECODE_OK, m) }"

text \<open>The zero-initialised state of \<^verbatim>\<open>i80386_mnem_get_tokens\<close>.\<close>

definition mnem_zero :: I80386_MNEM where
  "mnem_zero = \<lparr>mn_counter = 0, mn_base = 0, mn_offset = 0, mn_opcode = 0, mn_segment_prefix = 0,
     mn_internal_flags = 0, mn_operand_size = 0, mn_addressing_size = 0, mn_modrm = 0, mn_sib = 0,
     mn_effective_address = \<lparr>ea_base = 0, ea_offset = 0, ea_segment_index = 0, ea_stack_address = 0, ea_valid = 0\<rparr>,
     mn_line = []\<rparr>"

definition i80386_mnem_get_tokens :: "code \<Rightarrow> u32 \<Rightarrow> (bool \<times> MNEM_TOKEN list) option" where
  "i80386_mnem_get_tokens c offset = do {
     m \<leftarrow> i80386_fetch c offset mnem_zero;
     (r, m) \<leftarrow> i80386_decode_instruction c m;
     Some (r = I80386_DECODE_OK, mn_line m) }"

end
