(* ===== verification/Disasm_Correct.thy ===== *)
theory Disasm_Correct
  imports Disasm_Decode
begin

text \<open>
  Correctness of the disassembler. Every function of an instruction is shown once to stay within a
  budget of code bytes and tokens, to index the name tables inside their bounds, to add only tokens
  whose text is \<^verbatim>\<open>NULL\<close> exactly for numbers, and to depend on nothing but the bytes it may fetch.
  The statement is about two runs over two memories that agree on those bytes, and a small calculus
  of one rule per construct proves it for each function.
\<close>

section \<open>Two runs with the same result\<close>

text \<open>
  The first run has a result in \<open>Q\<close> whose counter is at least \<open>lo\<close>; if it is at most \<open>L\<close>, the second run has
  the same result. \<open>st\<close> is where the result holds the state. Counters only grow, which is what \<open>lo\<close> records, so
  that from a final counter of at most \<open>L\<close> follows that nothing behind it was read.
\<close>

definition same :: "('a \<Rightarrow> I80386_MNEM) \<Rightarrow> nat \<Rightarrow> nat \<Rightarrow> ('a \<Rightarrow> bool) \<Rightarrow> 'a option \<Rightarrow> 'a option \<Rightarrow> bool" where
  "same st L lo Q r r' \<longleftrightarrow> (\<exists>a. r = Some a \<and> Q a \<and> lo \<le> unat (mn_counter (st a)) \<and>
     (unat (mn_counter (st a)) \<le> L \<longrightarrow> r' = Some a))"

named_theorems runs_intros \<open>rules of the calculus that take a budget from the assumptions\<close>
named_theorems runs_split \<open>rules of the calculus that follow the control flow\<close>
named_theorems runs_red \<open>reductions between two steps of the calculus\<close>
named_theorems runs \<open>instruction functions that stay within the budget\<close>

lemma same_if [runs_split]:
  "\<lbrakk>b \<Longrightarrow> same st L lo Q x x'; \<not> b \<Longrightarrow> same st L lo Q y y'\<rbrakk> \<Longrightarrow> same st L lo Q (if b then x else y) (if b then x' else y')"
  by simp

lemma same_bind_if [runs_split]:
  "\<lbrakk>b \<Longrightarrow> same st L lo Q (Option.bind x f) (Option.bind x' f'); \<not> b \<Longrightarrow> same st L lo Q (Option.bind y f) (Option.bind y' f')\<rbrakk> \<Longrightarrow>
   same st L lo Q (Option.bind (if b then x else y) f) (Option.bind (if b then x' else y') f')"
  by simp

lemma same_bind:
  assumes "same st1 L lo P r r'"
    and "\<And>a lo'. P a \<Longrightarrow> lo' \<le> unat (mn_counter (st1 a)) \<Longrightarrow> same st L lo' Q (f a) (f' a)"
  shows "same st L lo Q (Option.bind r f) (Option.bind r' f')"
proof -
  obtain a where a: "r = Some a" "P a" "lo \<le> unat (mn_counter (st1 a))" "unat (mn_counter (st1 a)) \<le> L \<longrightarrow> r' = Some a"
    using assms(1) by (auto simp: same_def)
  from assms(2) [OF a(2) order_refl] obtain b where b: "f a = Some b" "Q b"
      "unat (mn_counter (st1 a)) \<le> unat (mn_counter (st b))" "unat (mn_counter (st b)) \<le> L \<longrightarrow> f' a = Some b"
    by (auto simp: same_def)
  then show ?thesis using a by (auto simp: same_def)
qed

lemma same_less: "\<lbrakk>same st L lo' Q r r'; lo \<le> lo'\<rbrakk> \<Longrightarrow> same st L lo Q r r'"
  by (auto simp: same_def)

lemma same_bind_Some [runs_split]: "same st L lo Q (f x) (f' x) \<Longrightarrow> same st L lo Q (Option.bind (Some x) f) (Option.bind (Some x) f')"
  by simp

lemma bind_Let [runs_red]: "Option.bind (Let x g) f = Let x (\<lambda>x. Option.bind (g x) f)"
  by (simp add: Let_def)

lemma case_if [runs_red]: "(case (if b then x else y) of (p, q) \<Rightarrow> f p q) = (if b then case x of (p, q) \<Rightarrow> f p q else case y of (p, q) \<Rightarrow> f p q)"
  by simp

lemmas [runs_red] = Option.bind_assoc prod.case option.case not_True_eq_False if_False if_True option.map

section \<open>The budget\<close>

definition mapped :: "code \<Rightarrow> u32 \<Rightarrow> bool" where
  "mapped c a \<longleftrightarrow> pg_virt2phys a (code_pg c) \<noteq> 0"

definition agree :: "code \<Rightarrow> code \<Rightarrow> u32 \<Rightarrow> bool" where
  "agree c c' a \<longleftrightarrow> mapped c a \<and> mapped c' a \<and> code_mem c a = code_mem c' a"

definition number_type :: "MNEM_TOKEN_TYPE \<Rightarrow> bool" where
  "number_type ty \<longleftrightarrow> ty \<in> {MNEM_TOKEN_IMMEDIATE, MNEM_TOKEN_NUMBER, MNEM_TOKEN_RELATIVE_ADDRESS,
     MNEM_TOKEN_ABSOLUTE_ADDRESS}"

definition token_ok :: "MNEM_TOKEN \<Rightarrow> bool" where
  "token_ok t \<longleftrightarrow> (tok_text t = None) = number_type (tok_type t)"

definition segment_ok :: "I80386_MNEM \<Rightarrow> bool" where
  "segment_ok m \<longleftrightarrow> mn_segment_prefix m < 6 \<or> mn_segment_prefix m = 0xFF"

text \<open>
  At least \<open>n\<close> more bytes may be fetched, up to the instruction length \<open>K\<close>, and \<open>t\<close> more tokens
  added, up to \<open>T\<close>; the first memory is mapped there, and the two agree on those of the bytes that lie in the
  first \<open>L\<close> of the instruction. The counter is at least \<open>lo\<close>.
\<close>

definition budget :: "code \<Rightarrow> code \<Rightarrow> nat \<Rightarrow> nat \<Rightarrow> nat \<Rightarrow> nat \<Rightarrow> nat \<Rightarrow> nat \<Rightarrow> I80386_MNEM \<Rightarrow> bool" where
  "budget c c' L lo K T n t m \<longleftrightarrow> segment_ok m \<and> list_all token_ok (mn_line m) \<and>
     length (mn_line m) \<le> I80386_MNEM_MAX_TOKENS \<and>
     length (mn_line m) + t \<le> T \<and> unat (mn_counter m) + n \<le> K \<and> K < 65536 \<and>
     lo \<le> unat (mn_counter m) \<and>
     (\<forall>k < n. mapped c (EIP m + of_nat k) \<and> (unat (mn_counter m) + k < L \<longrightarrow> agree c c' (EIP m + of_nat k)))"

lemma budget_lo:
  "\<lbrakk>budget c c' L lo K T n t m; lo' \<le> unat (mn_counter m)\<rbrakk> \<Longrightarrow> budget c c' L lo' K T n t m"
  by (simp add: budget_def)

lemma budget_zero: "budget c c' L lo K T n t m \<Longrightarrow> budget c c' L 0 K T n t m"
  by (simp add: budget_def)

lemma budget_mono: "\<lbrakk>budget c c' L lo K T n t m; n' \<le> n; t' \<le> t\<rbrakk> \<Longrightarrow> budget c c' L lo K T n' t' m"
  unfolding budget_def by auto

lemma mapped_load8: "mapped c a \<Longrightarrow> load8 c a = Some (code_mem c a)"
  by (auto simp: mapped_def load8_def pg_virt2phys_def present_def split: if_splits)

lemma virt2phys_mapped: "pg_virt2phys a (code_pg c) = 0 \<longleftrightarrow> \<not> mapped c a"
  by (simp add: mapped_def)

lemma unat_Suc_u16: "unat (w :: u16) + k < 65536 \<Longrightarrow> unat (w + of_nat k) = unat w + k"
  by (simp add: unat_word_ariths unat_of_nat take_bit_nat_eq_self)

lemma unat_ucast_u32: "unat (ucast (w :: u16) :: u32) = unat w"
  using unsigned_less [of w, where ?'a = nat] by (simp add: unsigned_ucast_eq take_bit_nat_eq_self)

lemma EIP_counter:
  assumes "unat (mn_counter m) + k < 65536"
  shows "EIP (m\<lparr>mn_counter := mn_counter m + of_nat k\<rparr>) = EIP m + of_nat k"
proof -
  have "ucast (mn_counter m + of_nat k) = (ucast (mn_counter m) + of_nat k :: u32)"
    using assms by (simp add: word_unat_eq_iff unat_ucast_u32 unat_Suc_u16 unat_word_ariths unat_of_nat take_bit_nat_eq_self)
  then show ?thesis by (simp add: EIP_def ac_simps)
qed

lemma budget_counter:
  assumes "budget c c' L lo K T n t m" and "k \<le> n"
  shows "budget c c' L (lo + k) K T (n - k) t (m\<lparr>mn_counter := mn_counter m + of_nat k\<rparr>)"
proof -
  have k: "unat (mn_counter m) + k < 65536" using assms by (auto simp: budget_def)
  have "mapped c (EIP m + of_nat k + of_nat j) \<and>
      (unat (mn_counter m) + k + j < L \<longrightarrow> agree c c' (EIP m + of_nat k + of_nat j))" if "j < n - k" for j
  proof -
    have "k + j < n" using that by simp
    then have "mapped c (EIP m + of_nat (k + j)) \<and>
        (unat (mn_counter m) + (k + j) < L \<longrightarrow> agree c c' (EIP m + of_nat (k + j)))"
      using assms(1) unfolding budget_def by blast
    then show ?thesis by (simp add: add.assoc)
  qed
  then show ?thesis
    using assms k by (auto simp: budget_def segment_ok_def EIP_counter unat_Suc_u16)
qed

lemma budget_agree:
  "\<lbrakk>budget c c' L lo K T n t m; k < n; unat (mn_counter m) + k < L\<rbrakk> \<Longrightarrow> agree c c' (EIP m + of_nat k)"
  by (simp add: budget_def)

lemma budget_mapped: "\<lbrakk>budget c c' L lo K T n t m; k < n\<rbrakk> \<Longrightarrow> mapped c (EIP m + of_nat k)"
  by (simp add: budget_def)

lemma budget_counter_eq:
  "\<lbrakk>budget c c' L lo K T n t m; k \<le> n\<rbrakk> \<Longrightarrow> unat (mn_counter m + of_nat k) = unat (mn_counter m) + k"
  by (intro unat_Suc_u16) (simp add: budget_def)

lemma budget_update [simp]:
  "budget c c' L lo K T n t (m\<lparr>mn_sib := b\<rparr>) = budget c c' L lo K T n t m"
  "budget c c' L lo K T n t (m\<lparr>mn_modrm := b\<rparr>) = budget c c' L lo K T n t m"
  "budget c c' L lo K T n t (m\<lparr>mn_opcode := b\<rparr>) = budget c c' L lo K T n t m"
  "budget c c' L lo K T n t (m\<lparr>mn_internal_flags := b\<rparr>) = budget c c' L lo K T n t m"
  "budget c c' L lo K T n t (m\<lparr>mn_operand_size := b\<rparr>) = budget c c' L lo K T n t m"
  "budget c c' L lo K T n t (m\<lparr>mn_addressing_size := b\<rparr>) = budget c c' L lo K T n t m"
  by (simp_all add: budget_def segment_ok_def EIP_def)

section \<open>Fetches\<close>

lemma fetch_byte_same:
  assumes "budget c c' L lo K T n t m" and "1 \<le> n"
  shows "same snd L lo (\<lambda>(v, m'). v \<noteq> None \<and> budget c c' L 0 K T (n - 1) t m') (fetch_byte c m) (fetch_byte c' m)"
proof -
  have m: "mapped c (EIP m)" using budget_mapped [OF assms(1), of 0] assms(2) by simp
  have a: "agree c c' (EIP m)" if "unat (mn_counter m) + 1 \<le> L" using budget_agree [OF assms(1), of 0] assms(2) that by simp
  have u: "unat (mn_counter m + 1) = unat (mn_counter m) + 1" using budget_counter_eq [OF assms] by simp
  have b: "budget c c' L 0 K T (n - 1) t (m\<lparr>mn_counter := mn_counter m + 1\<rparr>)"
    using budget_zero [OF budget_counter [OF assms]] by simp
  have lo: "lo \<le> unat (mn_counter m)" using assms(1) by (simp add: budget_def)
  show ?thesis
    using m a u b lo by (auto simp: same_def fetch_byte_def agree_def mapped_load8 virt2phys_mapped)
qed

lemma fetch_word_same:
  assumes "budget c c' L lo K T n t m" and "2 \<le> n"
  shows "same snd L lo (\<lambda>(v, m'). v \<noteq> None \<and> budget c c' L 0 K T (n - 2) t m') (fetch_word c m) (fetch_word c' m)"
proof -
  have m: "mapped c (EIP m)" "mapped c (EIP m + 1)"
    using budget_mapped [OF assms(1), of 0] budget_mapped [OF assms(1), of 1] assms(2) by simp_all
  have a: "agree c c' (EIP m) \<and> agree c c' (EIP m + 1)" if "unat (mn_counter m) + 2 \<le> L"
    using budget_agree [OF assms(1), of 0] budget_agree [OF assms(1), of 1] assms(2) that by simp
  have u: "unat (mn_counter m + 2) = unat (mn_counter m) + 2" using budget_counter_eq [OF assms] by simp
  have b: "budget c c' L 0 K T (n - 2) t (m\<lparr>mn_counter := mn_counter m + 2\<rparr>)"
    using budget_zero [OF budget_counter [OF assms]] by simp
  have lo: "lo \<le> unat (mn_counter m)" using assms(1) by (simp add: budget_def)
  show ?thesis
    using m a u b lo by (auto simp: same_def fetch_word_def load16_def agree_def mapped_load8 virt2phys_mapped)
qed

lemma fetch_dword_same:
  assumes "budget c c' L lo K T n t m" and "4 \<le> n"
  shows "same snd L lo (\<lambda>(v, m'). v \<noteq> None \<and> budget c c' L 0 K T (n - 4) t m') (fetch_dword c m) (fetch_dword c' m)"
proof -
  have m: "mapped c (EIP m)" "mapped c (EIP m + 1)" "mapped c (EIP m + 2)" "mapped c (EIP m + 3)"
    using budget_mapped [OF assms(1), of 0] budget_mapped [OF assms(1), of 1]
      budget_mapped [OF assms(1), of 2] budget_mapped [OF assms(1), of 3] assms(2) by simp_all
  have a: "agree c c' (EIP m) \<and> agree c c' (EIP m + 1) \<and> agree c c' (EIP m + 2) \<and> agree c c' (EIP m + 3)"
    if "unat (mn_counter m) + 4 \<le> L"
    using budget_agree [OF assms(1), of 0] budget_agree [OF assms(1), of 1]
      budget_agree [OF assms(1), of 2] budget_agree [OF assms(1), of 3] assms(2) that by simp
  have u: "unat (mn_counter m + 4) = unat (mn_counter m) + 4" using budget_counter_eq [OF assms] by simp
  have b: "budget c c' L 0 K T (n - 4) t (m\<lparr>mn_counter := mn_counter m + 4\<rparr>)"
    using budget_zero [OF budget_counter [OF assms]] by simp
  have lo: "lo \<le> unat (mn_counter m)" using assms(1) by (simp add: budget_def)
  show ?thesis
    using m a u b lo by (auto simp: same_def fetch_dword_def load32_def agree_def mapped_load8 virt2phys_mapped)
qed

lemma sib_check_same:
  assumes "budget c c' L lo K T n t m" and "1 \<le> n"
  shows "same snd L lo (\<lambda>(r, m'). r \<and> budget c c' L 0 K T (n - 1) t m') (sib_check c m) (sib_check c' m)"
  using fetch_byte_same [OF assms] budget_zero [OF budget_mono [OF assms(1), of "n - 1" t]] assms(1)
  by (auto simp: sib_check_def sib_fetch_def same_def budget_def [of c c' L lo])

lemma fetch_modrm_same:
  assumes "budget c c' L lo K T n t m" and "2 \<le> n"
  shows "same snd L lo (\<lambda>(r, m'). r \<and> budget c c' L 0 K T (n - 2) t m') (fetch_modrm c m) (fetch_modrm c' m)"
  unfolding fetch_modrm_def
proof (rule same_bind)
  show "same snd L lo (\<lambda>(v, m'). v \<noteq> None \<and> budget c c' L 0 K T (n - 1) t m') (fetch_byte c m) (fetch_byte c' m)"
    using assms by (intro fetch_byte_same) simp_all
  fix a :: "u8 option \<times> I80386_MNEM" and lo'
  assume a: "case a of (v, m') \<Rightarrow> v \<noteq> None \<and> budget c c' L 0 K T (n - 1) t m'" "lo' \<le> unat (mn_counter (snd a))"
  then obtain v m1 where m1: "a = (Some v, m1)" "budget c c' L 0 K T (n - 1) t m1" by auto
  have "budget c c' L lo' K T (n - 1) t (m1\<lparr>mn_modrm := v\<rparr>)" using budget_lo [OF m1(2)] a(2) m1(1) by simp
  then have "same snd L lo' (\<lambda>(r, m'). r \<and> budget c c' L 0 K T (n - 1 - 1) t m')
      (sib_check c (m1\<lparr>mn_modrm := v\<rparr>)) (sib_check c' (m1\<lparr>mn_modrm := v\<rparr>))"
    using assms(2) by (intro sib_check_same) auto
  then show "same snd L lo' (\<lambda>(r, m'). r \<and> budget c c' L 0 K T (n - 2) t m')
      (case a of (opt, m) \<Rightarrow> case opt of None \<Rightarrow> Some (False, m) | Some v \<Rightarrow> sib_check c (m\<lparr>mn_modrm := v\<rparr>))
      (case a of (opt, m) \<Rightarrow> case opt of None \<Rightarrow> Some (False, m) | Some v \<Rightarrow> sib_check c' (m\<lparr>mn_modrm := v\<rparr>))"
    by (simp add: m1(1) numeral_2_eq_2)
qed

text \<open>The continuation runs from any lower bound of the counter.\<close>

lemma fetched_bind:
  fixes r r' :: "('v option \<times> I80386_MNEM) option"
  assumes "same snd L lo (\<lambda>(v, m'). v \<noteq> None \<and> budget c c' L 0 K T n t m') r r'"
    and "\<And>v m' lo'. budget c c' L lo' K T n t m' \<Longrightarrow> same st L lo' Q (f (Some v, m')) (f' (Some v, m'))"
  shows "same st L lo Q (Option.bind r f) (Option.bind r' f')"
proof (rule same_bind [OF assms(1)])
  fix a :: "'v option \<times> I80386_MNEM" and lo'
  assume a: "case a of (v, m') \<Rightarrow> v \<noteq> None \<and> budget c c' L 0 K T n t m'" "lo' \<le> unat (mn_counter (snd a))"
  then obtain v m' where m': "a = (Some v, m')" "budget c c' L 0 K T n t m'" by auto
  show "same st L lo' Q (f a) (f' a)" unfolding m'(1) by (rule assms(2) [OF budget_lo [OF m'(2)]]) (use a(2) m'(1) in simp)
qed

lemma flagged_bind:
  assumes "same snd L lo (\<lambda>(b, m'). b \<and> budget c c' L 0 K T n t m') r r'"
    and "\<And>m' lo'. budget c c' L lo' K T n t m' \<Longrightarrow> same st L lo' Q (f (True, m')) (f' (True, m'))"
  shows "same st L lo Q (Option.bind r f) (Option.bind r' f')"
proof (rule same_bind [OF assms(1)])
  fix a lo'
  assume a: "case a of (b, m') \<Rightarrow> b \<and> budget c c' L 0 K T n t m'" "lo' \<le> unat (mn_counter (snd a))"
  then obtain m' where m': "a = (True, m')" "budget c c' L 0 K T n t m'" by auto
  show "same st L lo' Q (f a) (f' a)" unfolding m'(1) by (rule assms(2) [OF budget_lo [OF m'(2)]]) (use a(2) m'(1) in simp)
qed

lemma budget_bind:
  assumes "same id L lo (budget c c' L 0 K T n t) r r'"
    and "\<And>m' lo'. budget c c' L lo' K T n t m' \<Longrightarrow> same st L lo' Q (f m') (f' m')"
  shows "same st L lo Q (Option.bind r f) (Option.bind r' f')"
  by (rule same_bind [OF assms(1)], rule assms(2), erule budget_lo, simp)

lemma fetch_bind [runs_intros]:
  "\<lbrakk>budget c c' L lo K T n t m; 1 \<le> n; \<And>v m' lo'. budget c c' L lo' K T (n - 1) t m' \<Longrightarrow> same st L lo' Q (f (Some v, m')) (f' (Some v, m'))\<rbrakk> \<Longrightarrow>
   same st L lo Q (Option.bind (fetch_byte c m) f) (Option.bind (fetch_byte c' m) f')"
  "\<lbrakk>budget c c' L lo K T n t m; 2 \<le> n; \<And>v m' lo'. budget c c' L lo' K T (n - 2) t m' \<Longrightarrow> same st L lo' Q (g (Some v, m')) (g' (Some v, m'))\<rbrakk> \<Longrightarrow>
   same st L lo Q (Option.bind (fetch_word c m) g) (Option.bind (fetch_word c' m) g')"
  "\<lbrakk>budget c c' L lo K T n t m; 4 \<le> n; \<And>v m' lo'. budget c c' L lo' K T (n - 4) t m' \<Longrightarrow> same st L lo' Q (h (Some v, m')) (h' (Some v, m'))\<rbrakk> \<Longrightarrow>
   same st L lo Q (Option.bind (fetch_dword c m) h) (Option.bind (fetch_dword c' m) h')"
  "\<lbrakk>budget c c' L lo K T n t m; 2 \<le> n; \<And>m' lo'. budget c c' L lo' K T (n - 2) t m' \<Longrightarrow> same st L lo' Q (k (True, m')) (k' (True, m'))\<rbrakk> \<Longrightarrow>
   same st L lo Q (Option.bind (fetch_modrm c m) k) (Option.bind (fetch_modrm c' m) k')"
     apply (rule fetched_bind [OF fetch_byte_same]; assumption)
    apply (rule fetched_bind [OF fetch_word_same]; assumption)
   apply (rule fetched_bind [OF fetch_dword_same]; assumption)
  apply (rule flagged_bind [OF fetch_modrm_same]; assumption)
  done

section \<open>Tokens\<close>

lemma budget_add_token:
  assumes "budget c c' L lo K T n t m" and "1 \<le> t" and "(text = None) = number_type ty"
  shows "budget c c' L lo K T n (t - 1) (add_token ty text len number sz m)"
  using assms by (auto simp: budget_def add_token_def token_ok_def segment_ok_def EIP_def)

lemma token_Let [runs_intros]:
  "\<lbrakk>budget c c' L lo K T n t m; 1 \<le> t; (text = None) = number_type ty;
    \<And>m' lo'. budget c c' L lo' K T n (t - 1) m' \<Longrightarrow> same st L lo' Q (f m') (f' m')\<rbrakk> \<Longrightarrow>
   same st L lo Q (Let (add_token ty text len number sz m) f) (Let (add_token ty text len number sz m) f')"
  using budget_add_token by (simp add: Let_def)

lemma token_bind [runs_intros]:
  "\<lbrakk>budget c c' L lo K T n t m; 1 \<le> t; (text = None) = number_type ty;
    \<And>m' lo'. budget c c' L lo' K T n (t - 1) m' \<Longrightarrow> same st L lo' Q (f m') (f' m')\<rbrakk> \<Longrightarrow>
   same st L lo Q (Option.bind (Some (add_token ty text len number sz m)) f) (Option.bind (Some (add_token ty text len number sz m)) f')"
  using budget_add_token by simp

lemma same_Some [runs_intros]:
  "\<lbrakk>budget c c' L lo K T n t m; n' \<le> n; t' \<le> t\<rbrakk> \<Longrightarrow> same id L lo (budget c c' L 0 K T n' t') (Some m) (Some m)"
  by (auto simp: same_def intro: budget_mono budget_zero) (simp add: budget_def)

lemma token_Some [runs_intros]:
  "\<lbrakk>budget c c' L lo K T n t m; 1 \<le> t; (text = None) = number_type ty; n' \<le> n; t' \<le> t - 1\<rbrakk> \<Longrightarrow>
   same id L lo (budget c c' L 0 K T n' t') (Some (add_token ty text len number sz m)) (Some (add_token ty text len number sz m))"
  by (rule same_Some [OF budget_add_token]; assumption)

lemma budget_jump_condition [runs_intros]:
  "\<lbrakk>budget c c' L lo K T n t m; 1 \<le> t; \<And>m' lo'. budget c c' L lo' K T n (t - 1) m' \<Longrightarrow> same st L lo' Q (f m') (f' m')\<rbrakk> \<Longrightarrow>
   same st L lo Q (Let (jump_condition_token m) f) (Let (jump_condition_token m) f')"
  using budget_add_token [of c c' L lo K T n t m] budget_mono [of c c' L lo K T n t m n "t - 1"]
  by (simp add: Let_def jump_condition_token_def number_type_def)

lemma name_bounds [simp]:
  "length reg8_mnem = 8" "length reg16_mnem = 8" "length reg32_mnem = 8" "length seg_mnem = 6"
  "length cr_mnem = 8" "length dr_mnem = 8" "length tr_mnem = 8"
  by (simp_all add: reg8_mnem_def reg16_mnem_def reg32_mnem_def seg_mnem_def cr_mnem_def dr_mnem_def tr_mnem_def)

lemma unat_and_7: "unat ((w :: u8) AND 7) < 8"
proof -
  have "w AND 7 \<le> 7" by (rule word_and_le1)
  then show ?thesis by (simp add: word_le_nat_alt)
qed

lemma field_bounds [simp]:
  "unat (modrm_reg m) < 8" "unat (modrm_rm m) < 8" "unat (sib_base m) < 8" "unat (sib_index m) < 8"
  "unat (mn_opcode m AND 7) < 8"
  by (simp_all add: modrm_reg_def modrm_rm_def sib_base_def sib_index_def unat_and_7)

lemma if_in: "\<lbrakk>b \<Longrightarrow> x \<in> A; \<not> b \<Longrightarrow> y \<in> A\<rbrakk> \<Longrightarrow> (if b then x else y) \<in> A"
  by simp

lemma get_seg_index_cases:
  "get_seg_index m \<in> {s. s = mn_segment_prefix m \<and> s \<noteq> 0xFF} \<union> {SEG_SS, SEG_DS}"
  unfolding get_seg_index_def Let_def by (intro if_in) simp_all

lemma budget_segment:
  assumes "budget c c' L lo K T n t m"
  shows "unat (get_seg_index m) < 6"
proof -
  have "mn_segment_prefix m < 6 \<or> mn_segment_prefix m = 0xFF"
    using assms by (simp add: budget_def segment_ok_def)
  then have "get_seg_index m < 6"
    using get_seg_index_cases [of m] by (auto simp: SEG_SS_def SEG_DS_def)
  then show ?thesis by (simp add: word_less_nat_alt)
qed

lemma seg_name_bind [runs_intros]:
  "\<lbrakk>budget c c' L lo K T n t m; \<And>s lo'. budget c c' L lo' K T n t m \<Longrightarrow> same st L lo' Q (f s) (f' s)\<rbrakk> \<Longrightarrow>
   same st L lo Q (Option.bind (name_at seg_mnem (get_seg_index m)) f) (Option.bind (name_at seg_mnem (get_seg_index m)) f')"
  using budget_segment by (simp add: name_at_def)

lemma name_bind [runs_split]:
  "\<lbrakk>unat i < length names; \<And>s. same st L lo Q (f s) (f' s)\<rbrakk> \<Longrightarrow>
   same st L lo Q (Option.bind (name_at names i) f) (Option.bind (name_at names i) f')"
  by (simp add: name_at_def)

lemma reg_token_bind [runs_intros]:
  "\<lbrakk>budget c c' L lo K T n t m; 1 \<le> t; unat i < length names; \<And>m' lo'. budget c c' L lo' K T n (t - 1) m' \<Longrightarrow> same st L lo' Q (f m') (f' m')\<rbrakk> \<Longrightarrow>
   same st L lo Q (Option.bind (reg_token names len sz i m) f) (Option.bind (reg_token names len sz i m) f')"
  using budget_add_token by (simp add: reg_token_def name_at_def number_type_def)

lemma reg_token_same [runs_intros]:
  "\<lbrakk>budget c c' L lo K T n t m; 1 \<le> t; unat i < length names; n' \<le> n; t' \<le> t - 1\<rbrakk> \<Longrightarrow>
   same id L lo (budget c c' L 0 K T n' t') (reg_token names len sz i m) (reg_token names len sz i m)"
  by (simp add: reg_token_def name_at_def) (erule token_Some; simp add: number_type_def)

lemma let_same [runs_split]: "same st L lo Q (f x) (f' x) \<Longrightarrow> same st L lo Q (Let x f) (Let x f')"
  by simp

section \<open>The operand of a Mod R/M byte\<close>

lemma get_base_token_same:
  assumes "budget c c' L lo K T n t m" and "3 \<le> t"
  shows "same id L lo (budget c c' L 0 K T n (t - 3)) (get_base_token m) (get_base_token m)"
  using assms unfolding get_base_token_def
  by - (erule runs_intros | rule runs_split | simp only: runs_red | simp add: number_type_def)+

lemma sib_index_token_same:
  assumes "budget c c' L lo K T n t m" and "3 \<le> t"
  shows "same id L lo (budget c c' L 0 K T n (t - 3)) (sib_index_token m) (sib_index_token m)"
  using assms unfolding sib_index_token_def
  by - (erule runs_intros | rule runs_split | simp only: runs_red | simp add: number_type_def)+

lemma base_bind [runs_intros]:
  "\<lbrakk>budget c c' L lo K T n t m; 3 \<le> t; \<And>m' lo'. budget c c' L lo' K T n (t - 3) m' \<Longrightarrow> same st L lo' Q (f m') (f' m')\<rbrakk> \<Longrightarrow>
   same st L lo Q (Option.bind (get_base_token m) f) (Option.bind (get_base_token m) f')"
  "\<lbrakk>budget c c' L lo K T n t m; 3 \<le> t; \<And>m' lo'. budget c c' L lo' K T n (t - 3) m' \<Longrightarrow> same st L lo' Q (g m') (g' m')\<rbrakk> \<Longrightarrow>
   same st L lo Q (Option.bind (sib_index_token m) g) (Option.bind (sib_index_token m) g')"
  by (rule budget_bind [OF get_base_token_same]; assumption)
    (rule budget_bind [OF sib_index_token_same]; assumption)

text \<open>The addressing modes return a flag with the state.\<close>

lemma same_pair:
  "same id L lo (budget c c' L 0 K T n t) (Some m) (Some m) \<Longrightarrow>
   same snd L lo (\<lambda>(r, m'). r \<and> budget c c' L 0 K T n t m') (Some (True, m)) (Some (True, m))"
  by (simp add: same_def)

lemma pair_Some [runs_intros]:
  "\<lbrakk>budget c c' L lo K T n t m; 1 \<le> t; (text = None) = number_type ty; n' \<le> n; t' \<le> t - 1\<rbrakk> \<Longrightarrow>
   same snd L lo (\<lambda>(r, m'). r \<and> budget c c' L 0 K T n' t' m')
     (Some (True, add_token ty text len number sz m)) (Some (True, add_token ty text len number sz m))"
  "\<lbrakk>budget c c' L lo K T n t m; n' \<le> n; t' \<le> t\<rbrakk> \<Longrightarrow>
   same snd L lo (\<lambda>(r, m'). r \<and> budget c c' L 0 K T n' t' m') (Some (True, m)) (Some (True, m))"
  by (rule same_pair, rule token_Some; assumption) (rule same_pair, rule same_Some; assumption)

lemma modrm_mode_same:
  assumes "budget c c' L lo K T n t m" and "4 \<le> n" and "6 \<le> t"
  shows "same snd L lo (\<lambda>(r, m'). r \<and> budget c c' L 0 K T (n - 4) (t - 6) m') (modrm_mode_0 c m) (modrm_mode_0 c' m)"
    and "same snd L lo (\<lambda>(r, m'). r \<and> budget c c' L 0 K T (n - 4) (t - 6) m') (modrm_mode_1 c m) (modrm_mode_1 c' m)"
    and "same snd L lo (\<lambda>(r, m'). r \<and> budget c c' L 0 K T (n - 4) (t - 6) m') (modrm_mode_2 c m) (modrm_mode_2 c' m)"
  using assms unfolding modrm_mode_0_def modrm_mode_1_def modrm_mode_2_def
  by - ((erule runs_intros | rule runs_split | simp only: runs_red | simp add: number_type_def)+)

lemma modrm_mode_bind [runs_intros]:
  "\<lbrakk>budget c c' L lo K T n t m; 4 \<le> n; 6 \<le> t; \<And>m' lo'. budget c c' L lo' K T (n - 4) (t - 6) m' \<Longrightarrow> same st L lo' Q (f (True, m')) (f' (True, m'))\<rbrakk> \<Longrightarrow>
   same st L lo Q (Option.bind (modrm_mode_0 c m) f) (Option.bind (modrm_mode_0 c' m) f')"
  "\<lbrakk>budget c c' L lo K T n t m; 4 \<le> n; 6 \<le> t; \<And>m' lo'. budget c c' L lo' K T (n - 4) (t - 6) m' \<Longrightarrow> same st L lo' Q (f (True, m')) (f' (True, m'))\<rbrakk> \<Longrightarrow>
   same st L lo Q (Option.bind (modrm_mode_1 c m) f) (Option.bind (modrm_mode_1 c' m) f')"
  "\<lbrakk>budget c c' L lo K T n t m; 4 \<le> n; 6 \<le> t; \<And>m' lo'. budget c c' L lo' K T (n - 4) (t - 6) m' \<Longrightarrow> same st L lo' Q (f (True, m')) (f' (True, m'))\<rbrakk> \<Longrightarrow>
   same st L lo Q (Option.bind (modrm_mode_2 c m) f) (Option.bind (modrm_mode_2 c' m) f')"
    apply (rule flagged_bind [OF modrm_mode_same(1)]; assumption)
   apply (rule flagged_bind [OF modrm_mode_same(2)]; assumption)
  apply (rule flagged_bind [OF modrm_mode_same(3)]; assumption)
  done

lemma get_modrm_token_same:
  assumes "budget c c' L lo K T n t m" and "4 \<le> n" and "10 \<le> t"
  shows "same id L lo (budget c c' L 0 K T (n - 4) (t - 10)) (i80386_get_modrm_token c m) (i80386_get_modrm_token c' m)"
  using assms unfolding i80386_get_modrm_token_def
  by - ((erule runs_intros | rule runs_split | simp only: runs_red | simp add: number_type_def)+)

lemma modrm_token_same:
  assumes "budget c c' L lo K T n t m" and "4 \<le> n" and "10 \<le> t"
  shows "same id L lo (budget c c' L 0 K T (n - 4) (t - 10)) (modrm_get_token32 c m) (modrm_get_token32 c' m)"
    and "same id L lo (budget c c' L 0 K T (n - 4) (t - 10)) (modrm_get_token16 c m) (modrm_get_token16 c' m)"
    and "same id L lo (budget c c' L 0 K T (n - 4) (t - 10)) (modrm_get_token8 c m) (modrm_get_token8 c' m)"
    and "same id L lo (budget c c' L 0 K T (n - 4) (t - 10)) (add_modrm_tokens s c m) (add_modrm_tokens s c' m)"
  using assms get_modrm_token_same [OF assms]
  unfolding add_modrm_tokens_def modrm_get_token32_def modrm_get_token16_def modrm_get_token8_def
  by - (rule runs_split | assumption | erule runs_intros | simp)+

lemma same_mono: "\<lbrakk>same st L lo P r r'; \<And>a. P a \<Longrightarrow> Q a\<rbrakk> \<Longrightarrow> same st L lo Q r r'"
  by (auto simp: same_def)

lemmas modrm_all_same = modrm_token_same get_modrm_token_same

lemma modrm_bind [runs_intros]:
  "\<lbrakk>budget c c' L lo K T n t m; 4 \<le> n; 10 \<le> t; \<And>m' lo'. budget c c' L lo' K T (n - 4) (t - 10) m' \<Longrightarrow> same st L lo' Q (f m') (f' m')\<rbrakk> \<Longrightarrow>
   same st L lo Q (Option.bind (modrm_get_token32 c m) f) (Option.bind (modrm_get_token32 c' m) f')"
  "\<lbrakk>budget c c' L lo K T n t m; 4 \<le> n; 10 \<le> t; \<And>m' lo'. budget c c' L lo' K T (n - 4) (t - 10) m' \<Longrightarrow> same st L lo' Q (f m') (f' m')\<rbrakk> \<Longrightarrow>
   same st L lo Q (Option.bind (modrm_get_token16 c m) f) (Option.bind (modrm_get_token16 c' m) f')"
  "\<lbrakk>budget c c' L lo K T n t m; 4 \<le> n; 10 \<le> t; \<And>m' lo'. budget c c' L lo' K T (n - 4) (t - 10) m' \<Longrightarrow> same st L lo' Q (f m') (f' m')\<rbrakk> \<Longrightarrow>
   same st L lo Q (Option.bind (modrm_get_token8 c m) f) (Option.bind (modrm_get_token8 c' m) f')"
  "\<lbrakk>budget c c' L lo K T n t m; 4 \<le> n; 10 \<le> t; \<And>m' lo'. budget c c' L lo' K T (n - 4) (t - 10) m' \<Longrightarrow> same st L lo' Q (f m') (f' m')\<rbrakk> \<Longrightarrow>
   same st L lo Q (Option.bind (add_modrm_tokens s c m) f) (Option.bind (add_modrm_tokens s c' m) f')"
  "\<lbrakk>budget c c' L lo K T n t m; 4 \<le> n; 10 \<le> t; \<And>m' lo'. budget c c' L lo' K T (n - 4) (t - 10) m' \<Longrightarrow> same st L lo' Q (f m') (f' m')\<rbrakk> \<Longrightarrow>
   same st L lo Q (Option.bind (i80386_get_modrm_token c m) f) (Option.bind (i80386_get_modrm_token c' m) f')"
  by (rule budget_bind, (rule modrm_all_same; assumption), assumption)+

lemma modrm_tail [runs_intros]:
  "\<lbrakk>budget c c' L lo K T n t m; 4 \<le> n; 10 \<le> t; n' \<le> n - 4; t' \<le> t - 10\<rbrakk> \<Longrightarrow>
   same id L lo (budget c c' L 0 K T n' t') (modrm_get_token32 c m) (modrm_get_token32 c' m)"
  "\<lbrakk>budget c c' L lo K T n t m; 4 \<le> n; 10 \<le> t; n' \<le> n - 4; t' \<le> t - 10\<rbrakk> \<Longrightarrow>
   same id L lo (budget c c' L 0 K T n' t') (modrm_get_token16 c m) (modrm_get_token16 c' m)"
  "\<lbrakk>budget c c' L lo K T n t m; 4 \<le> n; 10 \<le> t; n' \<le> n - 4; t' \<le> t - 10\<rbrakk> \<Longrightarrow>
   same id L lo (budget c c' L 0 K T n' t') (modrm_get_token8 c m) (modrm_get_token8 c' m)"
  "\<lbrakk>budget c c' L lo K T n t m; 4 \<le> n; 10 \<le> t; n' \<le> n - 4; t' \<le> t - 10\<rbrakk> \<Longrightarrow>
   same id L lo (budget c c' L 0 K T n' t') (add_modrm_tokens s c m) (add_modrm_tokens s c' m)"
  "\<lbrakk>budget c c' L lo K T n t m; 4 \<le> n; 10 \<le> t; n' \<le> n - 4; t' \<le> t - 10\<rbrakk> \<Longrightarrow>
   same id L lo (budget c c' L 0 K T n' t') (i80386_get_modrm_token c m) (i80386_get_modrm_token c' m)"
  by (rule same_mono, (erule (2) modrm_all_same), (erule (2) budget_mono))+

section \<open>Instructions\<close>

text \<open>The instruction needs at most \<open>n\<close> bytes and 15 tokens.\<close>

definition runs_in :: "nat \<Rightarrow> (code \<Rightarrow> I80386_MNEM \<Rightarrow> I80386_MNEM option) \<Rightarrow> bool" where
  "runs_in n f \<longleftrightarrow> (\<forall>c c' L lo K T m. budget c c' L lo K T n 15 m \<longrightarrow> same id L lo (budget c c' L 0 K T 0 0) (f c m) (f c' m))"

lemma runs_inI:
  "(\<And>c c' L lo K T m. budget c c' L lo K T n 15 m \<Longrightarrow> same id L lo (budget c c' L 0 K T 0 0) (f c m) (f c' m)) \<Longrightarrow> runs_in n f"
  by (simp add: runs_in_def)

lemma runs_inD: "\<lbrakk>runs_in n f; budget c c' L lo K T n 15 m\<rbrakk> \<Longrightarrow> same id L lo (budget c c' L 0 K T 0 0) (f c m) (f c' m)"
  by (simp add: runs_in_def)

lemma runs_opcode_80 [runs]: "runs_in 8 (opcode_80 s)"
  by (rule runs_inI, unfold opcode_80_def opcode_80_imm_def, (erule runs_intros | rule runs_split | simp only: runs_red | simp add: number_type_def)+)

lemma runs_opcode_shift_rm_cl [runs]: "runs_in 8 (opcode_shift_rm_cl s)"
  by (rule runs_inI, unfold opcode_shift_rm_cl_def , (erule runs_intros | rule runs_split | simp only: runs_red | simp add: number_type_def)+)

lemma runs_opcode_shift_rm_imm [runs]: "runs_in 8 (opcode_shift_rm_imm s)"
  by (rule runs_inI, unfold opcode_shift_rm_imm_def , (erule runs_intros | rule runs_split | simp only: runs_red | simp add: number_type_def)+)

lemma runs_opcode_rm_reg [runs]: "runs_in 10 (opcode_rm_reg s)"
  by (rule runs_inI, unfold opcode_rm_reg_def , (erule runs_intros | rule runs_split | simp only: runs_red | simp add: number_type_def)+)

lemma runs_opcode_accum_imm [runs]: "runs_in 10 (opcode_accum_imm s)"
  by (rule runs_inI, unfold opcode_accum_imm_def accum_imm_def, (erule runs_intros | rule runs_split | simp only: runs_red | simp add: number_type_def)+)

lemmas [runs_intros] = runs_opcode_80 [THEN runs_inD] runs_opcode_shift_rm_cl [THEN runs_inD]
  runs_opcode_shift_rm_imm [THEN runs_inD] runs_opcode_rm_reg [THEN runs_inD] runs_opcode_accum_imm [THEN runs_inD]

lemma runs_arith1 [runs]:
  "runs_in 8 add_rm_imm" "runs_in 10 add_rm_reg" "runs_in 10 add_accum_imm" "runs_in 8 or_rm_imm"
  "runs_in 10 or_rm_reg" "runs_in 10 or_accum_imm" "runs_in 8 adc_rm_imm" "runs_in 10 adc_rm_reg"
  by (unfold add_rm_imm_def add_rm_reg_def add_accum_imm_def or_rm_imm_def or_rm_reg_def or_accum_imm_def
        adc_rm_imm_def adc_rm_reg_def,
      (rule runs_inI, ((erule runs_intros | rule runs_split | simp only: runs_red | simp add: number_type_def)+)[1])+)

lemma runs_arith2 [runs]:
  "runs_in 10 adc_accum_imm" "runs_in 8 sbb_rm_imm" "runs_in 10 sbb_rm_reg" "runs_in 10 sbb_accum_imm"
  "runs_in 8 and_rm_imm" "runs_in 10 and_rm_reg" "runs_in 10 and_accum_imm" "runs_in 8 sub_rm_imm"
  by (unfold adc_accum_imm_def sbb_rm_imm_def sbb_rm_reg_def sbb_accum_imm_def and_rm_imm_def and_rm_reg_def
        and_accum_imm_def sub_rm_imm_def,
      (rule runs_inI, ((erule runs_intros | rule runs_split | simp only: runs_red | simp add: number_type_def)+)[1])+)

lemma runs_arith3 [runs]:
  "runs_in 10 sub_rm_reg" "runs_in 10 sub_accum_imm" "runs_in 8 xor_rm_imm" "runs_in 10 xor_rm_reg"
  "runs_in 10 xor_accum_imm" "runs_in 8 cmp_rm_imm" "runs_in 10 cmp_rm_reg" "runs_in 10 cmp_accum_imm"
  by (unfold sub_rm_reg_def sub_accum_imm_def xor_rm_imm_def xor_rm_reg_def xor_accum_imm_def cmp_rm_imm_def
        cmp_rm_reg_def cmp_accum_imm_def,
      (rule runs_inI, ((erule runs_intros | rule runs_split | simp only: runs_red | simp add: number_type_def)+)[1])+)

lemma runs_arith4 [runs]:
  "runs_in 8 test_rm_imm" "runs_in 10 test_rm_reg" "runs_in 10 test_accum_imm" "runs_in 10 daa"
  "runs_in 10 das" "runs_in 10 aaa" "runs_in 10 aas" "runs_in 10 aam"
  by (unfold test_rm_imm_def test_rm_reg_def test_accum_imm_def daa_def das_def aaa_def aas_def aam_def,
      (rule runs_inI, ((erule runs_intros | rule runs_split | simp only: runs_red | simp add: number_type_def)+)[1])+)

lemma runs_arith5 [runs]:
  "runs_in 10 aad" "runs_in 10 salc"
  by (unfold aad_def salc_def,
      (rule runs_inI, ((erule runs_intros | rule runs_split | simp only: runs_red | simp add: number_type_def)+)[1])+)

lemma runs_stack1 [runs]:
  "runs_in 10 push_reg" "runs_in 10 pop_reg" "runs_in 8 push_rm" "runs_in 10 pop_rm" "runs_in 10 pushf"
  "runs_in 10 popf" "runs_in 10 pusha" "runs_in 10 popa"
  by (unfold push_reg_def pop_reg_def push_rm_def pop_rm_def pushf_def popf_def pusha_def popa_def,
      (rule runs_inI, ((erule runs_intros | rule runs_split | simp only: runs_red | simp add: number_type_def)+)[1])+)

lemma runs_stack2 [runs]:
  "runs_in 10 push_imm" "runs_in 10 enter" "runs_in 10 leave"
  by (unfold push_imm_def enter_def leave_def,
      (rule runs_inI, ((erule runs_intros | rule runs_split | simp only: runs_red | simp add: number_type_def)+)[1])+)

lemma runs_flags1 [runs]:
  "runs_in 10 nop" "runs_in 10 xchg_accum_reg" "runs_in 10 xchg_rm_reg" "runs_in 10 cbw" "runs_in 10 cwd"
  "runs_in 10 wait" "runs_in 10 sahf" "runs_in 10 lahf"
  by (unfold nop_def xchg_accum_reg_def xchg_rm_reg_def cbw_def cwd_def wait_def sahf_def lahf_def,
      (rule runs_inI, ((erule runs_intros | rule runs_split | simp only: runs_red | simp add: number_type_def)+)[1])+)

lemma runs_flags2 [runs]:
  "runs_in 10 hlt" "runs_in 10 cmc" "runs_in 10 clc" "runs_in 10 stc" "runs_in 10 cli" "runs_in 10 sti"
  "runs_in 10 cld" "runs_in 10 std"
  by (unfold hlt_def cmc_def clc_def stc_def cli_def sti_def cld_def std_def,
      (rule runs_inI, ((erule runs_intros | rule runs_split | simp only: runs_red | simp add: number_type_def)+)[1])+)

lemma runs_inc [runs]:
  "runs_in 10 inc_reg" "runs_in 10 dec_reg" "runs_in 8 inc_rm" "runs_in 8 dec_rm"
  by (unfold inc_reg_def dec_reg_def inc_rm_def dec_rm_def,
      (rule runs_inI, ((erule runs_intros | rule runs_split | simp only: runs_red | simp add: number_type_def)+)[1])+)

lemma runs_shift1 [runs]:
  "runs_in 8 rol_rm_cl" "runs_in 8 ror_rm_cl" "runs_in 8 rcl_rm_cl" "runs_in 8 rcr_rm_cl"
  "runs_in 8 shl_rm_cl" "runs_in 8 shr_rm_cl" "runs_in 8 sal_rm_cl" "runs_in 8 sar_rm_cl"
  by (unfold rol_rm_cl_def ror_rm_cl_def rcl_rm_cl_def rcr_rm_cl_def shl_rm_cl_def shr_rm_cl_def
        sal_rm_cl_def sar_rm_cl_def,
      (rule runs_inI, ((erule runs_intros | rule runs_split | simp only: runs_red | simp add: number_type_def)+)[1])+)

lemma runs_shift2 [runs]:
  "runs_in 10 shld_rm_cl" "runs_in 10 shrd_rm_cl" "runs_in 8 rol_rm_imm" "runs_in 8 ror_rm_imm"
  "runs_in 8 rcl_rm_imm" "runs_in 8 rcr_rm_imm" "runs_in 8 shl_rm_imm" "runs_in 8 shr_rm_imm"
  by (unfold shld_rm_cl_def shrd_rm_cl_def rol_rm_imm_def ror_rm_imm_def rcl_rm_imm_def rcr_rm_imm_def
        shl_rm_imm_def shr_rm_imm_def,
      (rule runs_inI, ((erule runs_intros | rule runs_split | simp only: runs_red | simp add: number_type_def)+)[1])+)

lemma runs_shift3 [runs]:
  "runs_in 8 sal_rm_imm" "runs_in 8 sar_rm_imm" "runs_in 10 shld_rm_imm" "runs_in 10 shrd_rm_imm"
  by (unfold sal_rm_imm_def sar_rm_imm_def shld_rm_imm_def shrd_rm_imm_def,
      (rule runs_inI, ((erule runs_intros | rule runs_split | simp only: runs_red | simp add: number_type_def)+)[1])+)

lemma runs_jump1 [runs]:
  "runs_in 10 jcc_short" "runs_in 10 jcc_long" "runs_in 10 jmp_intra_direct"
  "runs_in 10 jmp_inter_direct" "runs_in 10 jmp_intra_direct_short" "runs_in 8 jmp_intra_indirect"
  "runs_in 8 jmp_inter_indirect" "runs_in 10 call_intra_direct"
  by (unfold jcc_short_def jcc_long_def jmp_intra_direct_def jmp_inter_direct_def jmp_intra_direct_short_def
        jmp_intra_indirect_def jmp_inter_indirect_def call_intra_direct_def,
      (rule runs_inI, ((erule runs_intros | rule runs_split | simp only: runs_red | simp add: number_type_def)+)[1])+)

lemma runs_jump2 [runs]:
  "runs_in 10 call_inter_direct" "runs_in 8 call_intra_indirect" "runs_in 8 call_inter_indirect"
  "runs_in 10 ret_intra_add_imm" "runs_in 10 ret_intra" "runs_in 10 ret_inter_add_imm"
  "runs_in 10 ret_inter"
  by (unfold call_inter_direct_def call_intra_indirect_def call_inter_indirect_def ret_intra_add_imm_def
        ret_intra_def ret_inter_add_imm_def ret_inter_def,
      (rule runs_inI, ((erule runs_intros | rule runs_split | simp only: runs_red | simp add: number_type_def)+)[1])+)

lemma runs_move1 [runs]:
  "runs_in 10 mov_rm_imm" "runs_in 10 mov_reg_imm" "runs_in 10 mov_rm_reg" "runs_in 10 mov_cr"
  "runs_in 10 mov_dr" "runs_in 10 mov_tr" "runs_in 10 movzx" "runs_in 10 movsx"
  by (unfold mov_rm_imm_def mov_reg_imm_def mov_rm_reg_def mov_cr_def mov_dr_def mov_tr_def movzx_def
        movsx_def,
      (rule runs_inI, ((erule runs_intros | rule runs_split | simp only: runs_red | simp add: number_type_def)+)[1])+)

lemma runs_move2 [runs]:
  "runs_in 10 lea"
  by (unfold lea_def,
      (rule runs_inI, ((erule runs_intros | rule runs_split | simp only: runs_red | simp add: number_type_def)+)[1])+)

lemma runs_unary [runs]:
  "runs_in 8 not_rm" "runs_in 8 neg" "runs_in 8 mul_accum_rm" "runs_in 8 imul_accum_rm"
  "runs_in 10 imul_reg_rm_imm" "runs_in 10 imul_reg_rm" "runs_in 8 div_accum_rm"
  "runs_in 8 idiv_accum_rm"
  by (unfold not_rm_def neg_def mul_accum_rm_def imul_accum_rm_def imul_reg_rm_imm_def imul_reg_rm_def
        div_accum_rm_def idiv_accum_rm_def imul_imm_def,
      (rule runs_inI, ((erule runs_intros | rule runs_split | simp only: runs_red | simp add: number_type_def)+)[1])+)

lemma runs_string [runs]:
  "runs_in 10 movs" "runs_in 10 stos" "runs_in 10 lods" "runs_in 10 cmps" "runs_in 10 scas"
  "runs_in 10 ins" "runs_in 10 outs"
  by (unfold movs_def stos_def lods_def cmps_def scas_def ins_def outs_def,
      (rule runs_inI, ((erule runs_intros | rule runs_split | simp only: runs_red | simp add: number_type_def)+)[1])+)

lemma runs_pointer [runs]:
  "runs_in 10 les" "runs_in 10 lds" "runs_in 10 lss" "runs_in 10 lfs" "runs_in 10 lgs" "runs_in 10 xlat"
  "runs_in 10 esc"
  by (unfold les_def lds_def lss_def lfs_def lgs_def xlat_def esc_def,
      (rule runs_inI, ((erule runs_intros | rule runs_split | simp only: runs_red | simp add: number_type_def)+)[1])+)

lemma runs_loop [runs]:
  "runs_in 10 loopnz" "runs_in 10 loopz" "runs_in 10 loop" "runs_in 10 jcxz"
  by (unfold loopnz_def loopz_def loop_def jcxz_def,
      (rule runs_inI, ((erule runs_intros | rule runs_split | simp only: runs_red | simp add: number_type_def)+)[1])+)

lemma runs_port1 [runs]:
  "runs_in 10 in_accum_imm" "runs_in 10 out_accum_imm" "runs_in 10 in_accum_dx" "runs_in 10 out_accum_dx"
  "runs_in 10 int_imm" "runs_in 10 int3" "runs_in 10 into" "runs_in 10 iret"
  by (unfold in_accum_imm_def out_accum_imm_def in_accum_dx_def out_accum_dx_def int_imm_def int3_def
        into_def iret_def,
      (rule runs_inI, ((erule runs_intros | rule runs_split | simp only: runs_red | simp add: number_type_def)+)[1])+)

lemma runs_port2 [runs]:
  "runs_in 10 bound"
  by (unfold bound_def,
      (rule runs_inI, ((erule runs_intros | rule runs_split | simp only: runs_red | simp add: number_type_def)+)[1])+)

lemma runs_system1 [runs]:
  "runs_in 8 str" "runs_in 8 ltr" "runs_in 8 sldt" "runs_in 8 lldt" "runs_in 8 sgdt" "runs_in 8 sidt"
  "runs_in 8 lgdt" "runs_in 8 lidt"
  by (unfold str_def ltr_def sldt_def lldt_def sgdt_def sidt_def lgdt_def lidt_def,
      (rule runs_inI, ((erule runs_intros | rule runs_split | simp only: runs_red | simp add: number_type_def)+)[1])+)

lemma runs_system2 [runs]:
  "runs_in 8 smsw" "runs_in 8 lmsw" "runs_in 8 verr" "runs_in 8 verw" "runs_in 10 lar" "runs_in 10 lsl"
  "runs_in 10 clts" "runs_in 10 arpl"
  by (unfold smsw_def lmsw_def verr_def verw_def lar_def lsl_def clts_def arpl_def,
      (rule runs_inI, ((erule runs_intros | rule runs_split | simp only: runs_red | simp add: number_type_def)+)[1])+)

lemma runs_system3 [runs]:
  "runs_in 10 loadall"
  by (unfold loadall_def,
      (rule runs_inI, ((erule runs_intros | rule runs_split | simp only: runs_red | simp add: number_type_def)+)[1])+)

lemma runs_bits [runs]:
  "runs_in 10 setcc" "runs_in 10 bt" "runs_in 10 bts" "runs_in 10 btr" "runs_in 10 btc" "runs_in 10 bsf"
  "runs_in 10 bsr"
  by (unfold setcc_def bt_def bts_def btr_def btc_def bsf_def bsr_def,
      (rule runs_inI, ((erule runs_intros | rule runs_split | simp only: runs_red | simp add: number_type_def)+)[1])+)


lemma accum_mem_tokens_same [runs_intros]:
  assumes "budget c c' L lo K T n t m" and "8 \<le> t"
  shows "same id L lo (budget c c' L 0 K T 0 0) (accum_mem_tokens seg off osz reg rsz rlen m) (accum_mem_tokens seg off osz reg rsz rlen m)"
  using assms unfolding accum_mem_tokens_def
  by - ((erule runs_intros | rule runs_split | simp only: runs_red | simp add: number_type_def)+)

lemma runs_mov_accum_mem [runs]: "runs_in 10 mov_accum_mem"
  by (unfold mov_accum_mem_def accum_mem_offset_def, rule runs_inI, ((erule runs_intros | rule runs_split | simp only: runs_red | simp add: number_type_def)+))

lemma runs_mov_seg [runs]: "runs_in 10 mov_seg"
  by (unfold mov_seg_def I80386_SEGMENT_COUNT_def word_less_nat_alt, rule runs_inI, ((erule runs_intros | rule runs_split | simp only: runs_red | simp add: number_type_def)+))

text \<open>The segment number of a push or pop is in the table for the opcodes that reach it.\<close>

lemma push_seg_same:
  assumes "budget c c' L lo K T 10 15 m" and "OP_ESR m < 6"
  shows "same id L lo (budget c c' L 0 K T 0 0) (push_seg c m) (push_seg c' m)"
    and "same id L lo (budget c c' L 0 K T 0 0) (pop_seg c m) (pop_seg c' m)"
proof -
  have "unat (OP_ESR m) < 6" using assms(2) by (simp add: word_less_nat_alt)
  then have n: "(if OP_ESR m < I80386_SEGMENT_COUNT then name_at seg_mnem (OP_ESR m) else None) = Some (seg_mnem ! unat (OP_ESR m))"
    using assms(2) by (simp add: name_at_def I80386_SEGMENT_COUNT_def)
  show "same id L lo (budget c c' L 0 K T 0 0) (push_seg c m) (push_seg c' m)"
    and "same id L lo (budget c c' L 0 K T 0 0) (pop_seg c m) (pop_seg c' m)"
    using assms(1) unfolding push_seg_def pop_seg_def Let_def [of "OP_ESR m"] n
    by - ((erule runs_intros | rule runs_split | simp only: runs_red | simp add: number_type_def)+)
qed

end
