(* ===== verification/Disasm_Total.thy ===== *)
theory Disasm_Total
  imports Disasm_Correct
begin

text \<open>
  The decode loop of the disassembler: the opcode maps and the prefixes stay within the budget, the
  loop ends when the prefixes end, the result depends only on the bytes of the instruction, and the
  loop never ends on 64 KiB of prefix bytes.
\<close>

section \<open>The opcode maps\<close>

lemma runs_in_if: "\<lbrakk>runs_in n f; runs_in n g\<rbrakk> \<Longrightarrow> runs_in n (\<lambda>c m. if P m then f c m else g c m)"
  by (simp add: runs_in_def)

lemma runs_in_Some: "runs_in n (\<lambda>c. Some)"
  by (auto simp: runs_in_def intro: same_Some)

lemma runs_in_mono: "\<lbrakk>runs_in n f; n \<le> n'\<rbrakk> \<Longrightarrow> runs_in n' f"
  unfolding runs_in_def by (metis budget_mono order_refl)

lemma group_runs:
  assumes "\<And>c m. f c m = Option.bind (fetch_modrm c m) (\<lambda>(r, m). if \<not> r then Some m else g c m)"
    and "runs_in 8 g"
  shows "runs_in 10 f"
proof (rule runs_inI)
  fix c c' L lo K T m assume b: "budget c c' L lo K T 10 15 m"
  have "same snd L lo (\<lambda>(r, m'). r \<and> budget c c' L 0 K T 8 15 m') (fetch_modrm c m) (fetch_modrm c' m)"
    using fetch_modrm_same [OF b] by simp
  then show "same id L lo (budget c c' L 0 K T 0 0) (f c m) (f c' m)"
    unfolding assms(1) by (rule flagged_bind) (simp add: runs_inD [OF assms(2)])
qed

lemma runs_groups [runs]:
  "runs_in 10 i80386_decode_opcode_80" "runs_in 10 i80386_decode_opcode_c0" "runs_in 10 i80386_decode_opcode_d0"
  "runs_in 10 i80386_decode_opcode_f6" "runs_in 10 i80386_decode_opcode_fe" "runs_in 10 i80386_decode_opcode_ff"
  "runs_in 10 i80386_decode_opcode_0f00" "runs_in 10 i80386_decode_opcode_0f01"
  by (rule group_runs,
      rule i80386_decode_opcode_80_def i80386_decode_opcode_c0_def i80386_decode_opcode_d0_def
        i80386_decode_opcode_f6_def i80386_decode_opcode_fe_def i80386_decode_opcode_ff_def
        i80386_decode_opcode_0f00_def i80386_decode_opcode_0f01_def,
      (intro runs_in_if runs runs_in_Some)[1])+

lemma runs_0f [runs]: "runs_in 11 i80386_decode_opcode_0f"
proof (rule runs_inI)
  fix c c' L lo K T m assume b: "budget c c' L lo K T 11 15 m"
  have f: "same snd L lo (\<lambda>(v, m'). v \<noteq> None \<and> budget c c' L 0 K T 10 15 m') (fetch_byte c m) (fetch_byte c' m)"
    using fetch_byte_same [OF b] by simp
  show "same id L lo (budget c c' L 0 K T 0 0) (i80386_decode_opcode_0f c m) (i80386_decode_opcode_0f c' m)"
    unfolding i80386_decode_opcode_0f_def
  proof (rule fetched_bind [OF f], goal_cases)
    case (1 op m' lo')
    then have b: "budget c c' L lo' K T 10 15 (m'\<lparr>mn_opcode := op\<rparr>)" by simp
    show ?case
      unfolding Let_def prod.case option.case
      by (intro same_if runs [THEN runs_inD] push_seg_same same_Some [OF b] b) (simp_all add: OP_ESR_def)
  qed
qed

section \<open>The one-byte map\<close>

definition is_prefix :: "u8 \<Rightarrow> bool" where
  "is_prefix op \<longleftrightarrow> op \<in> {0x26, 0x2E, 0x36, 0x3E, 0x64, 0x65, 0x66, 0x67, 0xF0, 0xF1, 0xF2, 0xF3}"

lemma decoded_same:
  "same id L lo (budget c c' L 0 K T 0 0) r r' \<Longrightarrow>
   same snd L lo (\<lambda>(s, m'). s = I80386_DECODE_OK \<and> budget c c' L 0 K T 0 0 m') (decoded r) (decoded r')"
  by (auto simp: same_def decoded_def)

lemma decode_parts_same:
  assumes b: "budget c c' L lo K T 11 15 m" and np: "\<not> is_prefix (mn_opcode m)"
  shows "same snd L lo (\<lambda>(s, m'). s = I80386_DECODE_OK \<and> budget c c' L 0 K T 0 0 m') (decode_opcode_00_3f c m) (decode_opcode_00_3f c' m)"
    and "same snd L lo (\<lambda>(s, m'). s = I80386_DECODE_OK \<and> budget c c' L 0 K T 0 0 m') (decode_opcode_40_7f c m) (decode_opcode_40_7f c' m)"
    and "same snd L lo (\<lambda>(s, m'). s = I80386_DECODE_OK \<and> budget c c' L 0 K T 0 0 m') (decode_opcode_80_bf c m) (decode_opcode_80_bf c' m)"
    and "same snd L lo (\<lambda>(s, m'). s = I80386_DECODE_OK \<and> budget c c' L 0 K T 0 0 m') (decode_opcode_c0_ff c m) (decode_opcode_c0_ff c' m)"
proof -
  have b10: "budget c c' L lo K T 10 15 m" using b by (rule budget_mono) simp_all
  note rules = same_if decoded_same runs [THEN runs_inD] push_seg_same same_Some [OF b] b b10
  show "same snd L lo (\<lambda>(s, m'). s = I80386_DECODE_OK \<and> budget c c' L 0 K T 0 0 m') (decode_opcode_00_3f c m) (decode_opcode_00_3f c' m)"
    unfolding decode_opcode_00_3f_def Let_def by (intro rules) (use np in \<open>simp_all add: OP_ESR_def is_prefix_def\<close>)
  show "same snd L lo (\<lambda>(s, m'). s = I80386_DECODE_OK \<and> budget c c' L 0 K T 0 0 m') (decode_opcode_40_7f c m) (decode_opcode_40_7f c' m)"
    unfolding decode_opcode_40_7f_def Let_def by (intro rules) (use np in \<open>simp_all add: is_prefix_def\<close>)
  show "same snd L lo (\<lambda>(s, m'). s = I80386_DECODE_OK \<and> budget c c' L 0 K T 0 0 m') (decode_opcode_80_bf c m) (decode_opcode_80_bf c' m)"
    unfolding decode_opcode_80_bf_def Let_def by (intro rules) simp_all
  show "same snd L lo (\<lambda>(s, m'). s = I80386_DECODE_OK \<and> budget c c' L 0 K T 0 0 m') (decode_opcode_c0_ff c m) (decode_opcode_c0_ff c' m)"
    unfolding decode_opcode_c0_ff_def Let_def by (intro rules) (use np in \<open>simp_all add: is_prefix_def\<close>)
qed

lemma decode_opcode_same:
  assumes "budget c c' L lo K T 11 15 m" and "\<not> is_prefix (mn_opcode m)"
  shows "same snd L lo (\<lambda>(s, m'). s = I80386_DECODE_OK \<and> budget c c' L 0 K T 0 0 m') (i80386_decode_opcode c m) (i80386_decode_opcode c' m)"
  unfolding i80386_decode_opcode_def Let_def by (intro same_if decode_parts_same [OF assms])

section \<open>Prefixes\<close>

lemma next_opcode_same:
  assumes "budget c c' L lo K T n t m" and "1 \<le> n"
  shows "same snd L lo (\<lambda>(r, m'). r = I80386_DECODE_REQ_CYCLE \<and> budget c c' L 0 K T (n - 1) t m' \<and>
      mn_opcode m' = code_mem c (EIP m) \<and> EIP m' = EIP m + 1) (next_opcode c m) (next_opcode c' m)"
proof -
  have p: "mapped c (EIP m)" using budget_mapped [OF assms(1), of 0] assms(2) by simp
  have a: "agree c c' (EIP m)" if "unat (mn_counter m) + 1 \<le> L" using budget_agree [OF assms(1), of 0] assms(2) that by simp
  have u: "unat (mn_counter m + 1) = unat (mn_counter m) + 1" using budget_counter_eq [OF assms] by simp
  have "unat (mn_counter m) + 1 < 65536" using assms by (auto simp: budget_def)
  then have e: "EIP (m\<lparr>mn_counter := mn_counter m + 1\<rparr>) = EIP m + 1" using EIP_counter [of m 1] by simp
  have b: "budget c c' L 0 K T (n - 1) t (m\<lparr>mn_counter := mn_counter m + 1\<rparr>)"
    using budget_zero [OF budget_counter [OF assms(1), of 1]] assms(2) by simp
  have lo: "lo \<le> unat (mn_counter m)" using assms(1) by (simp add: budget_def)
  have "EIP (m\<lparr>mn_opcode := v\<rparr>) = EIP m" for m :: I80386_MNEM and v by (simp add: EIP_def)
  then show ?thesis
    using p a u b e lo by (auto simp: same_def next_opcode_def fetch_byte_def agree_def mapped_load8 virt2phys_mapped)
qed

lemma prefix_state:
  assumes "budget c c' L lo K T n t m" and "1 \<le> t"
  shows "budget c c' L lo K T n (t - 1) (m\<lparr>mn_segment_prefix := OP_SR m\<rparr>)"
    and "mn_opcode m = 0x64 \<or> mn_opcode m = 0x65 \<Longrightarrow> budget c c' L lo K T n (t - 1) (m\<lparr>mn_segment_prefix := mn_opcode m AND 0x7\<rparr>)"
    and "budget c c' L lo K T n (t - 1) (add_token MNEM_TOKEN_PREFIX (Some ''lock'') 4 0 0 m)"
proof -
  have m: "budget c c' L lo K T n (t - 1) m" using assms(1) by (rule budget_mono) simp_all
  have e: "EIP (m\<lparr>mn_segment_prefix := v\<rparr>) = EIP m" for v by (simp add: EIP_def)
  have "drop_bit 3 (mn_opcode m) AND 3 \<le> (3 :: u8)" by (rule word_and_le1)
  then have "OP_SR m < 6" unfolding OP_SR_def by (rule order_le_less_trans) simp
  then show "budget c c' L lo K T n (t - 1) (m\<lparr>mn_segment_prefix := OP_SR m\<rparr>)"
    using m by (simp add: budget_def segment_ok_def e)
  show "budget c c' L lo K T n (t - 1) (m\<lparr>mn_segment_prefix := mn_opcode m AND 0x7\<rparr>)" if "mn_opcode m = 0x64 \<or> mn_opcode m = 0x65"
    using m that by (auto simp: budget_def segment_ok_def e)
  show "budget c c' L lo K T n (t - 1) (add_token MNEM_TOKEN_PREFIX (Some ''lock'') 4 0 0 m)"
    using budget_add_token [OF assms] by (simp add: number_type_def)
qed

lemma EIP_prefix [simp]:
  "EIP (m\<lparr>mn_segment_prefix := v\<rparr>) = EIP m" "EIP (m\<lparr>mn_internal_flags := v\<rparr>) = EIP m"
  "EIP (m\<lparr>mn_operand_size := v\<rparr>) = EIP m" "EIP (m\<lparr>mn_addressing_size := v\<rparr>) = EIP m"
  "EIP (add_token ty text len number sz m) = EIP m"
  by (simp_all add: EIP_def add_token_def)

lemma decode_opcode_prefix:
  "mn_opcode m \<in> {0x26, 0x2E, 0x36, 0x3E} \<Longrightarrow> i80386_decode_opcode c m = segment_override c m"
  "mn_opcode m \<in> {0x64, 0x65} \<Longrightarrow> i80386_decode_opcode c m = segment_override_extended c m"
  "mn_opcode m = 0x66 \<Longrightarrow> i80386_decode_opcode c m = operand_size c m"
  "mn_opcode m = 0x67 \<Longrightarrow> i80386_decode_opcode c m = address_size c m"
  "mn_opcode m \<in> {0xF0, 0xF1} \<Longrightarrow> i80386_decode_opcode c m = lock c m"
  "mn_opcode m \<in> {0xF2, 0xF3} \<Longrightarrow> i80386_decode_opcode c m = rep c m"
  by ((elim insertE emptyE)?; simp add: i80386_decode_opcode_def decode_opcode_00_3f_def decode_opcode_40_7f_def
      decode_opcode_c0_ff_def Let_def)+

lemma is_prefix_cases:
  assumes "is_prefix op"
  obtains "op \<in> {0x26, 0x2E, 0x36, 0x3E}" | "op \<in> {0x64, 0x65}" | "op = 0x66" | "op = 0x67"
    | "op \<in> {0xF0, 0xF1}" | "op \<in> {0xF2, 0xF3}"
  using assms unfolding is_prefix_def by blast

lemma decode_prefix_same:
  assumes b: "budget c c' L lo K T n t m" and "1 \<le> n" and "1 \<le> t" and "is_prefix (mn_opcode m)"
  shows "same snd L lo (\<lambda>(r, m'). r = I80386_DECODE_REQ_CYCLE \<and> budget c c' L 0 K T (n - 1) (t - 1) m' \<and>
      mn_opcode m' = code_mem c (EIP m) \<and> EIP m' = EIP m + 1) (i80386_decode_opcode c m) (i80386_decode_opcode c' m)"
proof -
  have m: "budget c c' L lo K T n (t - 1) m" using b by (rule budget_mono) simp_all
  note st = prefix_state [OF b assms(3)]
  note nx = next_opcode_same [OF _ assms(2), of c c' L lo K T "t - 1"]
  from assms(4) show ?thesis
  proof (cases rule: is_prefix_cases)
    case 1
    then show ?thesis using nx [OF st(1)] by (simp add: decode_opcode_prefix segment_override_def)
  next
    case 2
    then show ?thesis using nx [OF st(2)] by (simp add: decode_opcode_prefix segment_override_extended_def)
  next
    case 3
    then show ?thesis using nx [of "m\<lparr>mn_operand_size := mn_operand_size m XOR 1\<rparr>"] m
      by (simp add: decode_opcode_prefix operand_size_def)
  next
    case 4
    then show ?thesis using nx [of "m\<lparr>mn_addressing_size := mn_addressing_size m XOR 1\<rparr>"] m
      by (simp add: decode_opcode_prefix address_size_def)
  next
    case 5
    then show ?thesis using nx [OF st(3)] by (simp add: decode_opcode_prefix lock_def)
  next
    case 6
    then show ?thesis
      using nx [of "m\<lparr>mn_internal_flags := ((mn_internal_flags m OR 0x02) AND NOT 0x01) OR (mn_opcode m AND 0x1)\<rparr>"] m
      by (simp only: decode_opcode_prefix rep_def budget_update EIP_prefix)
  qed
qed

section \<open>The decode loop\<close>

text \<open>The opcode bytes that the loop sees, one after the other.\<close>

definition opcode_seq :: "code \<Rightarrow> I80386_MNEM \<Rightarrow> nat \<Rightarrow> u8" where
  "opcode_seq c m i = (case i of 0 \<Rightarrow> mn_opcode m | Suc k \<Rightarrow> code_mem c (EIP m + of_nat k))"

lemma opcode_seq_step:
  "\<lbrakk>mn_opcode m' = code_mem c (EIP m); EIP m' = EIP m + 1\<rbrakk> \<Longrightarrow> opcode_seq c m' i = opcode_seq c m (Suc i)"
  by (cases i) (simp_all add: opcode_seq_def ac_simps)

lemma decode_instruction_same:
  assumes "budget c c' L lo K T (n + 11) (n + 15) m"
    and "\<And>i. i < n \<Longrightarrow> is_prefix (opcode_seq c m i)" and "\<not> is_prefix (opcode_seq c m n)"
  shows "same snd L lo (\<lambda>(s, m'). s = I80386_DECODE_OK \<and> budget c c' L 0 K T 0 0 m')
    (i80386_decode_instruction c m) (i80386_decode_instruction c' m)"
  using assms
proof (induction n arbitrary: m lo)
  case 0
  then have "same snd L lo (\<lambda>(s, m'). s = I80386_DECODE_OK \<and> budget c c' L 0 K T 0 0 m') (i80386_decode_opcode c m) (i80386_decode_opcode c' m)"
    by (intro decode_opcode_same) (simp_all add: opcode_seq_def)
  then show ?case by (auto simp: same_def i80386_decode_instruction.simps [of _ m])
next
  case (Suc n)
  have p: "is_prefix (mn_opcode m)" using Suc.prems(2) [of 0] by (simp add: opcode_seq_def)
  have d: "same snd L lo (\<lambda>(r, m'). r = I80386_DECODE_REQ_CYCLE \<and> budget c c' L 0 K T (n + 11) (n + 15) m' \<and>
      mn_opcode m' = code_mem c (EIP m) \<and> EIP m' = EIP m + 1) (i80386_decode_opcode c m) (i80386_decode_opcode c' m)"
    using decode_prefix_same [OF Suc.prems(1) _ _ p] by (simp add: ac_simps)
  show ?case
    unfolding i80386_decode_instruction.simps [of _ m]
  proof (rule same_bind [OF d])
    fix a :: "decode_status \<times> I80386_MNEM" and lo'
    assume a: "case a of (r, m') \<Rightarrow> r = I80386_DECODE_REQ_CYCLE \<and> budget c c' L 0 K T (n + 11) (n + 15) m' \<and>
        mn_opcode m' = code_mem c (EIP m) \<and> EIP m' = EIP m + 1" "lo' \<le> unat (mn_counter (snd a))"
    then obtain m' where m': "a = (I80386_DECODE_REQ_CYCLE, m')" "budget c c' L 0 K T (n + 11) (n + 15) m'"
        "mn_opcode m' = code_mem c (EIP m)" "EIP m' = EIP m + 1" by auto
    note q = opcode_seq_step [OF m'(3,4)]
    have "budget c c' L lo' K T (n + 11) (n + 15) m'" using budget_lo [OF m'(2)] a(2) m'(1) by simp
    then have "same snd L lo' (\<lambda>(s, m'). s = I80386_DECODE_OK \<and> budget c c' L 0 K T 0 0 m')
        (i80386_decode_instruction c m') (i80386_decode_instruction c' m')"
      using Suc.prems(2,3) by (intro Suc.IH) (simp_all add: q)
    then show "same snd L lo' (\<lambda>(s, m'). s = I80386_DECODE_OK \<and> budget c c' L 0 K T 0 0 m')
        (case a of (r, m) \<Rightarrow> if r = I80386_DECODE_REQ_CYCLE then i80386_decode_instruction c m else Some (r, m))
        (case a of (r, m) \<Rightarrow> if r = I80386_DECODE_REQ_CYCLE then i80386_decode_instruction c' m else Some (r, m))"
      by (simp add: m'(1))
  qed
qed

text \<open>
  The whole decoding: the first memory is mapped on the prefixes and the 12 bytes behind them, the second one
  agrees with it on the first \<open>L\<close> bytes.
\<close>

lemma fetch_start:
  assumes "\<And>k. k < n + 12 \<Longrightarrow> mapped c (offset + of_nat k)" and "n + 12 < 65536"
    and "\<And>k. k < n + 12 \<Longrightarrow> k < L \<Longrightarrow> agree c c' (offset + of_nat k)"
  obtains m' where "i80386_fetch c offset m = Some m'" "1 \<le> L \<Longrightarrow> i80386_fetch c' offset m = Some m'"
    "budget c c' L 1 (n + 12) (n + 15) (n + 11) (n + 15) m'"
    "\<And>i. opcode_seq c m' i = code_mem c (offset + of_nat i)"
proof -
  let ?m = "i80386_next offset m"
  let ?m' = "?m\<lparr>mn_counter := 1, mn_opcode := code_mem c offset\<rparr>"
  have e: "EIP ?m = offset" "EIP (?m\<lparr>mn_counter := 1\<rparr>) = offset + 1" by (simp_all add: EIP_def i80386_next_def)
  have z: "mn_counter ?m = 0" by (simp add: i80386_next_def)
  have b: "budget c c' L 0 (n + 12) (n + 15) (n + 12) (n + 15) ?m"
    using assms by (simp add: budget_def e segment_ok_def z) (simp add: i80386_next_def)
  have p: "mapped c offset" and a: "1 \<le> L \<Longrightarrow> agree c c' offset" using assms(1,3) [of 0] by simp_all
  have "budget c c' L 1 (n + 12) (n + 15) (n + 11) (n + 15) ?m'"
    using budget_counter [OF b, of 1] z by (simp add: ac_simps)
  moreover have "i80386_fetch c offset m = Some ?m'"
    using p z by (simp add: i80386_fetch_def fetch_byte_def e mapped_load8 virt2phys_mapped)
  moreover have "i80386_fetch c' offset m = Some ?m'" if "1 \<le> L"
    using a [OF that] z by (simp add: i80386_fetch_def fetch_byte_def e agree_def mapped_load8 virt2phys_mapped)
  moreover have "EIP ?m' = offset + 1" using e(2) by (simp add: EIP_def)
  then have "opcode_seq c ?m' i = code_mem c (offset + of_nat i)" for i
    by (cases i) (simp_all add: opcode_seq_def ac_simps)
  ultimately show thesis using that by blast
qed

lemma decode_same:
  assumes "\<And>k. k < n + 12 \<Longrightarrow> mapped c (offset + of_nat k)" and "n + 12 < 65536"
    and "\<And>k. k < n + 12 \<Longrightarrow> k < L \<Longrightarrow> agree c c' (offset + of_nat k)"
    and "\<And>k. k < n \<Longrightarrow> is_prefix (code_mem c (offset + of_nat k))" and "\<not> is_prefix (code_mem c (offset + of_nat n))"
  shows "\<exists>m'. i80386_mnem_decode c offset m = Some (True, m') \<and> budget c c' L 1 (n + 12) (n + 15) 0 0 m' \<and>
    (unat (mn_counter m') \<le> L \<longrightarrow> i80386_mnem_decode c' offset m = Some (True, m'))"
proof -
  from fetch_start [of n c offset L c' m] assms(1-3) obtain m1 where
    m1: "i80386_fetch c offset m = Some m1" "1 \<le> L \<Longrightarrow> i80386_fetch c' offset m = Some m1"
      "budget c c' L 1 (n + 12) (n + 15) (n + 11) (n + 15) m1"
      "\<And>i. opcode_seq c m1 i = code_mem c (offset + of_nat i)"
    by metis
  have "same snd L 1 (\<lambda>(s, m'). s = I80386_DECODE_OK \<and> budget c c' L 0 (n + 12) (n + 15) 0 0 m')
      (i80386_decode_instruction c m1) (i80386_decode_instruction c' m1)"
    using assms(4,5) by (intro decode_instruction_same [OF m1(3)]) (simp_all add: m1(4))
  then obtain m' where m': "i80386_decode_instruction c m1 = Some (I80386_DECODE_OK, m')"
      "budget c c' L 0 (n + 12) (n + 15) 0 0 m'" "1 \<le> unat (mn_counter m')"
      "unat (mn_counter m') \<le> L \<longrightarrow> i80386_decode_instruction c' m1 = Some (I80386_DECODE_OK, m')"
    by (auto simp: same_def)
  then show ?thesis using budget_lo [OF m'(2,3)] m1(1,2) by (auto simp: i80386_mnem_decode_def)
qed

text \<open>One prefix byte, whatever the counter.\<close>

lemma offset_add_token [simp]: "mn_offset (add_token ty text len number sz m) = mn_offset m"
  by (simp add: add_token_def)

lemma prefix_step:
  assumes "is_prefix (mn_opcode m)" and "mapped c (EIP m)"
  shows "\<exists>m'. i80386_decode_opcode c m = Some (I80386_DECODE_REQ_CYCLE, m') \<and> mn_offset m' = mn_offset m \<and>
    mn_opcode m' = code_mem c (EIP m)"
proof -
  have nx: "next_opcode c m1 = Some (I80386_DECODE_REQ_CYCLE,
      m1\<lparr>mn_counter := mn_counter m1 + 1, mn_opcode := code_mem c (EIP m)\<rparr>)" if "EIP m1 = EIP m" for m1
    using that assms(2) by (simp add: next_opcode_def fetch_byte_def mapped_load8 mapped_def [symmetric])
  from assms(1) show ?thesis
    by (cases rule: is_prefix_cases)
      (simp_all add: decode_opcode_prefix segment_override_def segment_override_extended_def operand_size_def
        address_size_def lock_def rep_def nx offset_add_token)
qed

definition only_prefixes :: "code \<Rightarrow> u32 \<Rightarrow> bool" where
  "only_prefixes c offset \<longleftrightarrow>
     (\<forall>k :: u16. mapped c (offset + ucast k) \<and> is_prefix (code_mem c (offset + ucast k)))"

lemma decode_instruction_not_ends:
  assumes "i80386_decode_instruction c m = Some r"
  shows "\<not> (only_prefixes c (mn_offset m) \<and> is_prefix (mn_opcode m))"
proof (rule i80386_decode_instruction.raw_induct [OF _ assms, where P = "\<lambda>c m r. \<not> (only_prefixes c (mn_offset m) \<and> is_prefix (mn_opcode m))"],
    rule notI)
  fix dec c m r
  assume IH: "\<And>c m r. dec c m = Some r \<Longrightarrow> \<not> (only_prefixes c (mn_offset m) \<and> is_prefix (mn_opcode m))"
    and run: "i80386_decode_opcode c m \<bind> (\<lambda>(r, m). if r = I80386_DECODE_REQ_CYCLE then dec c m else Some (r, m)) = Some r"
    and p: "only_prefixes c (mn_offset m) \<and> is_prefix (mn_opcode m)"
  then have "mapped c (EIP m)" "is_prefix (code_mem c (EIP m))" by (simp_all add: only_prefixes_def EIP_def)
  with prefix_step [of m c] run p obtain m' where
    "dec c m' = Some r" "mn_offset m' = mn_offset m" "is_prefix (mn_opcode m')" by auto
  with IH [of c m' r] p show False by simp
qed

section \<open>Properties\<close>

text \<open>Memory that is mapped everywhere and holds given bytes from an address on, for the witnesses.\<close>

definition code_at :: "u32 \<Rightarrow> u8 list \<Rightarrow> code" where
  "code_at a bs = \<lparr>code_pg = \<lparr>pg_win = \<lambda>_. 0x1001, pg_pt_phys = 0\<rparr>,
     code_mem = \<lambda>x. if unat (x - a) < length bs then bs ! unat (x - a) else 0x90\<rparr>"

lemma code_at_mapped [simp]: "mapped (code_at a bs) x"
proof -
  have "bit ((x AND 0xFFF) OR (0x1000 :: u32)) 12" by (simp add: bit_or_iff)
  then have "(x AND 0xFFF) OR (0x1000 :: u32) \<noteq> 0" by (metis bit_0_eq bot_apply bot_bool_def)
  then show ?thesis by (simp add: mapped_def code_at_def pg_virt2phys_def PTE_P_def PAGE_SIZE_def)
qed

text \<open>
  C34: when the bytes at an address are mapped and hold \<open>n\<close> prefix bytes and then another opcode, the
  disassembler ends without a fault and reports success. It consumes at most 11 bytes behind the
  opcode, all its table lookups are in bounds, the line never holds more than 32 tokens nor more than
  15 besides the prefixes, and a token has no text exactly when it is a number, so that printing a
  token never dereferences \<^verbatim>\<open>NULL\<close>.
\<close>

theorem i80386_decode_total:
  assumes "\<And>k. k < n + 12 \<Longrightarrow> mapped c (offset + of_nat k)" and "n + 12 < 65536"
    and "\<And>k. k < n \<Longrightarrow> is_prefix (code_mem c (offset + of_nat k))" and "\<not> is_prefix (code_mem c (offset + of_nat n))"
  shows "\<exists>m'. i80386_mnem_decode c offset m = Some (True, m') \<and> unat (mn_counter m') \<le> n + 12 \<and>
    length (mn_line m') \<le> min 32 (n + 15) \<and> list_all token_ok (mn_line m')"
proof -
  from decode_same [where L = 0 and c = c and c' = c and m = m, OF assms(1,2) _ assms(3,4)] show ?thesis
    by (auto simp: budget_def I80386_MNEM_MAX_TOKENS_def)
qed

theorem i80386_decode_total_witness:
  "\<exists>m'. i80386_mnem_decode (code_at 0x1000 [0xF3, 0xA5]) 0x1000 mnem_zero = Some (True, m') \<and>
     unat (mn_counter m') \<le> 13 \<and> length (mn_line m') \<le> min 32 16 \<and> list_all token_ok (mn_line m')"
proof -
  have "is_prefix (code_mem (code_at 0x1000 [0xF3, 0xA5]) 0x1000)" "\<not> is_prefix (code_mem (code_at 0x1000 [0xF3, 0xA5]) 0x1001)"
    by (simp_all add: code_at_def is_prefix_def)
  then show ?thesis
    using i80386_decode_total [where n = 1 and c = "code_at 0x1000 [0xF3, 0xA5]" and offset = "0x1000" and m = mnem_zero]
    by simp
qed

lemma get_tokens_decode:
  "i80386_mnem_get_tokens c offset = map_option (\<lambda>(ok, m). (ok, mn_line m)) (i80386_mnem_decode c offset mnem_zero)"
  by (simp add: i80386_mnem_get_tokens_def i80386_mnem_decode_def map_option_bind case_prod_unfold comp_def)

text \<open>
  C35: what the disassembler prints depends on nothing but the bytes of the instruction. If an instruction of \<open>n\<close>
  prefix bytes is decoded in one memory (which is mapped on the 12 bytes behind the prefixes, so that no fetch can
  fail) and turns out to be as long as the final counter says, then every memory that is mapped on exactly these bytes
  and holds the same there gives the same tokens and the same length, whatever it holds behind them, and even if that
  is not mapped.
\<close>

theorem i80386_tokens_local:
  assumes "\<And>k. k < n + 12 \<Longrightarrow> mapped c (offset + of_nat k)" and "n + 12 < 65536"
    and "\<And>k. k < n \<Longrightarrow> is_prefix (code_mem c (offset + of_nat k))" and "\<not> is_prefix (code_mem c (offset + of_nat n))"
    and "i80386_mnem_decode c offset mnem_zero = Some (True, m')"
    and "\<And>k. k < unat (mn_counter m') \<Longrightarrow>
      mapped c' (offset + of_nat k) \<and> code_mem c' (offset + of_nat k) = code_mem c (offset + of_nat k)"
  shows "i80386_mnem_get_tokens c offset = Some (True, mn_line m') \<and>
    i80386_mnem_get_tokens c' offset = Some (True, mn_line m') \<and> i80386_mnem_decode c' offset mnem_zero = Some (True, m')"
proof -
  have "agree c c' (offset + of_nat k)" if "k < n + 12" "k < unat (mn_counter m')" for k
    using assms(1) [OF that(1)] assms(6) [OF that(2)] by (simp add: agree_def)
  from decode_same [OF assms(1,2) this assms(3,4), where m = mnem_zero] assms(5) show ?thesis
    by (auto simp: get_tokens_decode)
qed

theorem i80386_tokens_local_witness:
  "\<exists>ts. i80386_mnem_get_tokens (code_at 0x1000 [0xF4, 0x66]) 0x1000 = Some (True, ts) \<and>
     i80386_mnem_get_tokens (code_at 0x1000 [0xF4, 0x0F, 0x22]) 0x1000 = Some (True, ts)"
proof -
  let ?c = "code_at 0x1000 [0xF4, 0x66]"
  let ?m1 = "(i80386_next 0x1000 mnem_zero)\<lparr>mn_counter := 1, mn_opcode := 0xF4\<rparr>"
  have op: "code_mem ?c 0x1000 = 0xF4" by (simp add: code_at_def)
  have f: "i80386_fetch ?c 0x1000 mnem_zero = Some ?m1"
    by (simp add: i80386_fetch_def fetch_byte_def EIP_def i80386_next_def mapped_load8 virt2phys_mapped op)
  have "i80386_decode_opcode ?c ?m1 = decoded (hlt ?c ?m1)"
    by (simp add: i80386_decode_opcode_def decode_opcode_c0_ff_def)
  then obtain m' where d: "i80386_mnem_decode ?c 0x1000 mnem_zero = Some (True, m')" "unat (mn_counter m') = 1"
    by (simp add: i80386_mnem_decode_def f i80386_decode_instruction.simps [of _ ?m1] decoded_def hlt_def add_token_def)
  have other: "code_mem (code_at 0x1000 [0xF4, 0x0F, 0x22]) 0x1000 = 0xF4" by (simp add: code_at_def)
  have np: "\<not> is_prefix (code_mem ?c 0x1000)" by (simp add: op is_prefix_def)
  have "i80386_mnem_get_tokens ?c 0x1000 = Some (True, mn_line m') \<and>
      i80386_mnem_get_tokens (code_at 0x1000 [0xF4, 0x0F, 0x22]) 0x1000 = Some (True, mn_line m') \<and>
      i80386_mnem_decode (code_at 0x1000 [0xF4, 0x0F, 0x22]) 0x1000 mnem_zero = Some (True, m')"
    using np d(2) op other by (intro i80386_tokens_local [OF _ _ _ _ d(1), where n = 0]) simp_all
  then show ?thesis by blast
qed

text \<open>
  on 64 KiB of mapped prefix bytes the decode loop never ends: the 16-bit counter wraps around and
  the loop reads the same bytes again. Every fetch succeeds, so the missing result is the endless loop.
\<close>

theorem i80386_prefixes_never_end:
  assumes "only_prefixes c offset"
  shows "i80386_mnem_get_tokens c offset = None"
proof -
  have z: "mapped c offset" "is_prefix (code_mem c offset)" using assms by (auto simp: only_prefixes_def dest: spec [of _ 0])
  have e: "EIP (i80386_next offset mnem_zero) = offset" by (simp add: EIP_def i80386_next_def)
  obtain m where m: "i80386_fetch c offset mnem_zero = Some m" "mn_offset m = offset" "is_prefix (mn_opcode m)"
  proof
    let ?m = "(i80386_next offset mnem_zero)\<lparr>mn_counter := mn_counter (i80386_next offset mnem_zero) + 1, mn_opcode := code_mem c offset\<rparr>"
    show "i80386_fetch c offset mnem_zero = Some ?m"
      using z by (simp add: i80386_fetch_def fetch_byte_def e mapped_load8 virt2phys_mapped)
    show "mn_offset ?m = offset" "is_prefix (mn_opcode ?m)" using z(2) by (simp_all add: i80386_next_def)
  qed
  then have "i80386_decode_instruction c m = None"
    using decode_instruction_not_ends [of c m] assms by (cases "i80386_decode_instruction c m") auto
  then show ?thesis by (simp add: i80386_mnem_get_tokens_def m(1))
qed

theorem i80386_prefixes_never_end_witness:
  "i80386_mnem_get_tokens (code_at 0x1000 []\<lparr>code_mem := \<lambda>_. 0x66\<rparr>) 0x1000 = None"
proof -
  have "mapped (code_at 0x1000 []\<lparr>code_mem := \<lambda>_. 0x66\<rparr>) x" for x
    using code_at_mapped [of "0x1000" "[]" x] by (simp add: mapped_def)
  then show ?thesis by (intro i80386_prefixes_never_end) (simp add: only_prefixes_def is_prefix_def)
qed

text \<open>
  At an address that is not mapped \<^verbatim>\<open>i80386_mnem_get_tokens\<close> reports success with an empty line: the
  failed fetch is ignored and the zero opcode is decoded.
\<close>

theorem i80386_unmapped_reports_success:
  assumes "\<not> mapped c offset"
  shows "i80386_mnem_get_tokens c offset = Some (True, [])"
proof -
  let ?m = "i80386_next offset mnem_zero"
  have e: "EIP ?m = offset" and o: "mn_opcode ?m = 0" and l: "mn_line ?m = []"
    by (simp_all add: EIP_def i80386_next_def mnem_zero_def)
  have f: "fetch_byte c ?m = Some (None, ?m)" using assms by (simp add: fetch_byte_def e virt2phys_mapped)
  have "i80386_decode_opcode c ?m = Some (I80386_DECODE_OK, ?m)"
    using o by (simp add: i80386_decode_opcode_def decode_opcode_00_3f_def decoded_def add_rm_reg_def
        opcode_rm_reg_def fetch_modrm_def f)
  then show ?thesis
    by (simp add: i80386_mnem_get_tokens_def i80386_fetch_def f i80386_decode_instruction.simps [of _ ?m] l)
qed

theorem i80386_unmapped_reports_success_witness:
  "i80386_mnem_get_tokens \<lparr>code_pg = pg_empty 0, code_mem = \<lambda>_. 0x90\<rparr> 0x1000 = Some (True, [])"
  by (rule i80386_unmapped_reports_success) (simp add: mapped_def pg_virt2phys_def pg_empty_def)

definition mnemonic_tok :: "string \<Rightarrow> MNEM_TOKEN" where
  "mnemonic_tok s = \<lparr>tok_text = Some s, tok_type = MNEM_TOKEN_MNEMONIC, tok_operand_size = 0, tok_len = length s, tok_number = 0\<rparr>"

definition reg32_tok :: "u8 \<Rightarrow> MNEM_TOKEN" where
  "reg32_tok i = \<lparr>tok_text = Some (reg32_mnem ! unat i), tok_type = MNEM_TOKEN_GENERAL_REGISTER, tok_operand_size = 4,
     tok_len = 3, tok_number = ucast i\<rparr>"

definition comma_tok :: MNEM_TOKEN where
  "comma_tok = \<lparr>tok_text = Some '','', tok_type = MNEM_TOKEN_OPERATOR, tok_operand_size = 0, tok_len = 1, tok_number = 0\<rparr>"

lemma u8_less_8: "(d :: u8) < 8 \<Longrightarrow> d \<in> {0, 1, 2, 3, 4, 5, 6, 7}"
proof -
  assume "d < 8"
  then have "unat d < 8" by (simp add: word_less_nat_alt)
  then have "unat d \<in> {0, 1, 2, 3, 4, 5, 6, 7}" by auto
  then show ?thesis by (auto simp: word_unat_eq_iff)
qed

lemma modrm_byte_fields:
  assumes "d < 8" and "r < 8"
  shows "drop_bit 6 (0xC0 + (8 * d + r) :: u8) = 3" "drop_bit 3 (0xC0 + (8 * d + r) :: u8) AND 7 = d"
    "(0xC0 + (8 * d + r) :: u8) AND 7 = r"
  using u8_less_8 [OF assms(1)] u8_less_8 [OF assms(2)]
  by (elim insertE emptyE; simp)+

lemma length_reg32: "r < 8 \<Longrightarrow> length (reg32_mnem ! unat (r :: u8)) = 3"
  by (drule u8_less_8) (elim insertE emptyE; simp add: reg32_mnem_def)

text \<open>
  The register form of a two-operand instruction. For \<^verbatim>\<open>mov r32, r/m32\<close> (8B) the destination comes
  first; for \<^verbatim>\<open>add r32, r/m32\<close> (03), which goes through \<^verbatim>\<open>opcode_rm_reg\<close>, the two registers come out in
  the opposite order and the mnemonic twice.
\<close>

theorem i80386_operand_order:
  assumes "mapped c offset" and "mapped c (offset + 1)" and "code_mem c (offset + 1) = 0xC0 + (8 * d + r)"
    and "d < 8" and "r < 8" and "code_mem c offset = 0x8B \<or> code_mem c offset = 0x03"
  shows "i80386_mnem_get_tokens c offset = Some (True,
      if code_mem c offset = 0x8B then [mnemonic_tok ''mov'', reg32_tok d, comma_tok, reg32_tok r]
      else [mnemonic_tok ''add'', mnemonic_tok ''add'', reg32_tok r, comma_tok, reg32_tok d])"
proof -
  define m1 where "m1 = (i80386_next offset mnem_zero)\<lparr>mn_counter := 1, mn_opcode := code_mem c offset\<rparr>"
  define m2 where "m2 = m1\<lparr>mn_counter := 2, mn_modrm := 0xC0 + (8 * d + r)\<rparr>"
  have f1: "i80386_fetch c offset mnem_zero = Some m1"
    using assms(1) by (simp add: m1_def i80386_fetch_def fetch_byte_def EIP_def i80386_next_def mapped_load8 virt2phys_mapped)
  have "EIP m1 = offset + 1" by (simp add: m1_def EIP_def i80386_next_def)
  then have f2: "fetch_byte c m1 = Some (Some (0xC0 + (8 * d + r)), m1\<lparr>mn_counter := 2\<rparr>)"
    using assms(2,3) by (simp add: fetch_byte_def mapped_load8 virt2phys_mapped m1_def)
  have fields: "modrm_mod m2 = 3" "modrm_reg m2 = d" "modrm_rm m2 = r" "mn_line m2 = []" "mn_operand_size m2 = 1"
      "mn_opcode m2 = code_mem c offset"
    using modrm_byte_fields [OF assms(4,5)]
    by (simp_all add: m2_def m1_def modrm_mod_def modrm_reg_def modrm_rm_def i80386_next_def)
  have f3: "fetch_modrm c m1 = Some (True, m2)"
    using fields(1) by (simp add: fetch_modrm_def f2 sib_check_def m2_def modrm_mod_def)
  have n: "name_at reg32_mnem d = Some (reg32_mnem ! unat d)" "name_at reg32_mnem r = Some (reg32_mnem ! unat r)"
    using assms(4,5) by (simp_all add: name_at_def word_less_nat_alt)
  have o: "mn_opcode m1 = code_mem c offset" by (simp add: m1_def)
  have mem: "mn_opcode (add_token ty tx l nu sz m) = mn_opcode m" "mn_operand_size (add_token ty tx l nu sz m) = mn_operand_size m"
    "modrm_reg (add_token ty tx l nu sz m) = modrm_reg m" "modrm_rm (add_token ty tx l nu sz m) = modrm_rm m"
    "modrm_mod (add_token ty tx l nu sz m) = modrm_mod m" for ty tx l nu sz m
    by (simp_all add: add_token_def modrm_reg_def modrm_rm_def modrm_mod_def)
  have line: "mn_line (add_token ty tx l nu sz m) = mn_line m @ [\<lparr>tok_text = tx, tok_type = ty, tok_operand_size = sz, tok_len = l, tok_number = nu\<rparr>]"
    if "length (mn_line m) < 32" for ty tx l nu sz m
    using that by (simp add: add_token_def I80386_MNEM_MAX_TOKENS_def)
  consider "code_mem c offset = 0x8B" | "code_mem c offset = 0x03" using assms(6) by blast
  then show ?thesis
  proof cases
    case 1
    then show ?thesis
      by (simp add: i80386_mnem_get_tokens_def f1 i80386_decode_instruction.simps [of _ m1] i80386_decode_opcode_def
          decode_opcode_80_bf_def o decoded_def mov_rm_reg_def f3 OP_W_def OP_D_def Let_def mem fields reg_token_def n
          modrm_get_token32_def line mnemonic_tok_def reg32_tok_def comma_tok_def)
  next
    case 2
    then show ?thesis
      by (simp add: i80386_mnem_get_tokens_def f1 i80386_decode_instruction.simps [of _ m1] i80386_decode_opcode_def
          decode_opcode_00_3f_def o decoded_def add_rm_reg_def opcode_rm_reg_def f3 OP_W_def OP_D_def Let_def mem fields reg_token_def n
          add_modrm_tokens_def modrm_get_token32_def line mnemonic_tok_def reg32_tok_def comma_tok_def length_reg32 assms(4,5))
  qed
qed

theorem i80386_operand_order_witness:
  "i80386_mnem_get_tokens (code_at 0x1000 [0x03, 0xC1]) 0x1000 = Some (True,
     [mnemonic_tok ''add'', mnemonic_tok ''add'', reg32_tok 1, comma_tok, reg32_tok 0])"
proof -
  have "code_mem (code_at 0x1000 [0x03, 0xC1]) 0x1000 = 0x03" "code_mem (code_at 0x1000 [0x03, 0xC1]) (0x1000 + 1) = 0xC0 + (8 * 0 + 1)"
    by (simp_all add: code_at_def)
  then show ?thesis
    using i80386_operand_order [of "code_at 0x1000 [0x03, 0xC1]" "0x1000" 0 1] by simp
qed

end
