(* ===== verification/Mman.thy ===== *)
theory Mman
  imports Vmm_Correct
begin

text \<open>
  \<^verbatim>\<open>src/mm/mman.c\<close> and \<^verbatim>\<open>src/mm/paging.c\<close>: mapping a physical range at addresses of the kernel's
  virtual memory manager, and page directories for new address spaces. Physical memory is a store
  of 32-bit words by physical address; the code reaches it through the page tables, and a word whose
  page is not mapped is a page fault.
\<close>

section \<open>Operations\<close>

definition mmap :: "u32 \<Rightarrow> u32 \<Rightarrow> u32 \<Rightarrow> u32 \<Rightarrow> mm \<Rightarrow> (u32 \<times> mm) option" where
  "mmap virt_addr phys_addr len flags st = (case st of (v, p, g) \<Rightarrow>
    (let count = TO_PAGE (len + (PAGE_SIZE - 1)) in do {
     (virt, v) \<leftarrow> vmm_reserve count v;
     if virt = 0 then Some (0, v, p, g)
     else Some (virt, v, p, pg_map virt phys_addr flags count g) }))"

definition munmap :: "u32 \<Rightarrow> u32 \<Rightarrow> mm \<Rightarrow> mm option" where
  "munmap virt len st = (case st of (v, p, g) \<Rightarrow>
    (let count = TO_PAGE (len + (PAGE_SIZE - 1)) in
     if virt = 0 then Some (v, p, g)
     else let g = pg_unmap virt count g in do {
       v \<leftarrow> vmm_unreserve virt count v;
       Some (v, p, g) }))"

text \<open>The assignment \<^verbatim>\<open>*virt = x\<close>.\<close>

definition store_dword :: "paging \<Rightarrow> u32 \<Rightarrow> u32 \<Rightarrow> (u32 \<Rightarrow> u32) \<Rightarrow> (u32 \<Rightarrow> u32) option" where
  "store_dword g virt x ram =
    (let phys = pg_virt2phys virt g in if phys = 0 then None else Some (ram(phys := x)))"

text \<open>The words \<^verbatim>\<open>((uint32_t*)0xFFFFF000)[i]\<close> of the directory in use are behind the window.\<close>

definition copy_pde :: "paging \<Rightarrow> u32 \<Rightarrow> nat \<Rightarrow> (u32 \<Rightarrow> u32) \<Rightarrow> (u32 \<Rightarrow> u32) option" where
  "copy_pde g pd_virt i = store_dword g (pd_virt + of_nat i * 4) (pg_win g (0xFFFFF000 + of_nat i * 4))"

definition pgd_create_pd :: "mm \<times> (u32 \<Rightarrow> u32) \<Rightarrow> (u32 \<times> mm \<times> (u32 \<Rightarrow> u32)) option" where
  "pgd_create_pd st = (case st of ((v, p, g), ram) \<Rightarrow> do {
     (pd_phys, p) \<leftarrow> pmm_alloc 1 p;
     if pd_phys = 0 then Some (0, (v, p, g), ram)
     else do {
       (pd_virt, v, p, g) \<leftarrow> mmap 0 pd_phys 0x1000 PTE_RW (v, p, g);
       if pd_virt = 0 then do { p \<leftarrow> pmm_free pd_phys 1 p; Some (0, (v, p, g), ram) }
       else do {
         ram \<leftarrow> for_each [unat (PD_IDX KVIRT) ..< unat (PD_IDX KVIRT_END)] (copy_pde g pd_virt) ram;
         ram \<leftarrow> store_dword g (pd_virt + 1023 * 4) (pd_phys OR PTE_RW OR PTE_P) ram;
         m \<leftarrow> munmap pd_virt 0x1000 (v, p, g);
         Some (pd_phys, m, ram)
       }
     }
   })"

definition pgd_destroy_pd :: "u32 \<Rightarrow> pmm \<Rightarrow> pmm option" where
  "pgd_destroy_pd pd p = pmm_free pd 1 p"

section \<open>Mapping\<close>

lemma mmap_one_page: "TO_PAGE (0x1000 + (PAGE_SIZE - 1)) = 1"
  by (simp add: TO_PAGE_def PAGE_SIZE_def)

lemma virt2phys_offset:
  assumes v: "vmm_shape v" "n < unat (vmm_total_pages v)" and g: "pg_abs g (vpage v + n) = Some f"
    and f: "page_aligned f" and i: "i < 1024"
  shows "pg_virt2phys (vaddr v n + of_nat i * 4) g = f + of_nat i * 4"
proof -
  let ?a = "vaddr v n" and ?o = "of_nat i * 4 :: u32"
  have o: "unat ?o = 4 * i" using i by (simp add: unat_word_ariths unat_of_nat_u32)
  have lt: "unat ?a < 4290772992" and al: "unat ?a mod 4096 = 0"
    using vaddr_page(4,5) [OF v] by (simp_all add: word_less_nat_alt page_aligned_def)
  then have sum: "unat (?a + ?o) = unat ?a + 4 * i" using o i by (subst unat_add_u32) simp_all
  obtain k where k: "unat ?a = k * 4096" using al by (metis dvd_div_mult_self mod_0_imp_dvd)
  have off: "unat (?a + ?o) mod 4096 = 4 * i" unfolding sum k using i by simp
  have "unat (?a + ?o) div 4096 = k" unfolding sum k using i by simp
  then have page: "unat (?a + ?o) div 4096 = vpage v + n" using vaddr_page(3) [OF v] k by simp
  have "(?a + ?o) AND 0xFFF = ?o" by (simp add: word_unat_eq_iff unat_and_fff off o)
  moreover have "?a + ?o < 0xFFC00000"
    using page vmm_total(2) [OF v(1)] v(2) by (simp add: word_less_nat_alt div_less_iff_less_mult)
  ultimately show ?thesis
    using g page offset_or_frame [OF f, of "?a + ?o"] by (simp add: pg_virt2phys_abs add.commute)
qed

lemma page_aligned_room: "page_aligned f \<Longrightarrow> unat f + 4096 \<le> 4294967296"
proof -
  assume "page_aligned f"
  then obtain k where "unat f = k * 4096" unfolding page_aligned_def by (metis dvd_div_mult_self mod_0_imp_dvd)
  then show ?thesis using unat_less_u32 [of f] by simp
qed

text \<open>A run of stores to the words of one frame.\<close>

lemma word_index_inj: "\<lbrakk>i < 1024; j < 1024; (f :: u32) + of_nat i * 4 = f + of_nat j * 4\<rbrakk> \<Longrightarrow> i = j"
proof -
  assume ij: "i < 1024" "j < 1024" and "f + of_nat i * 4 = f + of_nat j * 4"
  then have "unat (of_nat i * 4 :: u32) = unat (of_nat j * 4 :: u32)" by simp
  then show "i = j" using ij by (simp add: unat_word_ariths unat_of_nat_u32)
qed

lemma store_words:
  assumes v: "vmm_shape v" "n < unat (vmm_total_pages v)" and g: "pg_abs g (vpage v + n) = Some f"
    and f: "page_aligned f" "f \<noteq> 0" and "\<forall>i \<in> set is. i < 1024" and "distinct is"
  shows "\<exists>ram'. for_each is (\<lambda>i. store_dword g (vaddr v n + of_nat i * 4) (x i)) ram = Some ram' \<and>
    (\<forall>i \<in> set is. ram' (f + of_nat i * 4) = x i) \<and>
    (\<forall>a. (\<forall>i \<in> set is. a \<noteq> f + of_nat i * 4) \<longrightarrow> ram' a = ram a)"
  using assms(6,7)
proof (induction "is" arbitrary: ram)
  case (Cons i "is")
  let ?ram = "ram(f + of_nat i * 4 := x i)"
  have "unat (of_nat i * 4 :: u32) = 4 * i" using Cons.prems by (simp add: unat_word_ariths unat_of_nat_u32)
  then have "unat (f + of_nat i * 4) = unat f + 4 * i"
    using page_aligned_room [OF f(1)] Cons.prems by (subst unat_add_u32) simp_all
  then have ne: "f + of_nat i * 4 \<noteq> 0" using f(2) by (auto simp: word_unat_eq_iff)
  have rest: "\<forall>i \<in> set is. i < 1024" "distinct is" using Cons.prems by simp_all
  obtain ram' where r: "for_each is (\<lambda>i. store_dword g (vaddr v n + of_nat i * 4) (x i)) ?ram = Some ram'"
      "\<forall>i \<in> set is. ram' (f + of_nat i * 4) = x i"
      "\<forall>a. (\<forall>i \<in> set is. a \<noteq> f + of_nat i * 4) \<longrightarrow> ram' a = ?ram a"
    using Cons.IH [OF rest, of ?ram] by blast
  have apart: "f + of_nat i * 4 \<noteq> f + of_nat j * 4" if "j \<in> set is" for j
    using word_index_inj [of i j f] that Cons.prems by (metis distinct.simps(2) list.set_intros)
  have "store_dword g (vaddr v n + of_nat i * 4) (x i) ram = Some ?ram"
    using ne Cons.prems virt2phys_offset [OF v g f(1), of i] by (simp add: store_dword_def)
  then have run: "for_each (i # is) (\<lambda>i. store_dword g (vaddr v n + of_nat i * 4) (x i)) ram = Some ram'"
    using r(1) by simp
  have "ram' (f + of_nat i * 4) = x i" using r(3) apart by (metis fun_upd_same)
  with r(2) have "\<forall>j \<in> set (i # is). ram' (f + of_nat j * 4) = x j" by simp
  moreover have "\<forall>a. (\<forall>j \<in> set (i # is). a \<noteq> f + of_nat j * 4) \<longrightarrow> ram' a = ram a"
    using r(3) by (metis fun_upd_other list.set_intros)
  ultimately show ?case using run by blast
qed simp

section \<open>A new page directory\<close>

text \<open>Directory entry \<open>i\<close> of the address space in use.\<close>

definition pde :: "paging \<Rightarrow> nat \<Rightarrow> u32" where
  "pde g i = pg_win g (0xFFFFF000 + of_nat i * 4)"

lemma kernel_indices: "unat (PD_IDX KVIRT) = 768" "unat (PD_IDX KVIRT_END) = 1023"
  by (simp_all add: PD_IDX_def KVIRT_def KVIRT_END_def)

lemma pde_unmap_page:
  assumes "a < 0xFFC00000" and "i < 1024"
  shows "pde (unmap_page a g) i = pde g i"
proof -
  have "unat (of_nat i * 4 :: u32) = 4 * i" using assms(2) by (simp add: unat_word_ariths unat_of_nat_u32)
  then have "unat (0xFFFFF000 + of_nat i * 4 :: u32) = 4294963200 + 4 * i"
    using assms(2) by (subst unat_add_u32) simp_all
  moreover have "unat (pg_loc_pte a) < 4294963200"
    using assms(1) by (simp add: unat_pg_loc_pte word_less_nat_alt div_less_iff_less_mult)
  ultimately have "unat (0xFFFFF000 + of_nat i * 4 :: u32) \<noteq> unat (pg_loc_pte a)" by linarith
  then have "0xFFFFF000 + of_nat i * 4 \<noteq> pg_loc_pte a" by metis
  then show ?thesis by (simp add: pde_def unmap_page_def)
qed

lemma pde_unmap_one: "a < 0xFFC00000 \<Longrightarrow> i < 1024 \<Longrightarrow> pde (pg_unmap a 1 g) i = pde g i"
  by (simp add: pg_unmap_def pde_unmap_page)

lemma num1023: "(1023 :: nat) < 1024" "(768 :: nat) \<le> 1023" by simp_all

lemma fill_directory:
  assumes v: "vmm_shape v" "n < unat (vmm_total_pages v)" and g: "pg_abs g (vpage v + n) = Some f"
    and f: "page_aligned f" "f \<noteq> 0"
  shows "\<exists>ram1 ram'. for_each [768 ..< 1023] (copy_pde g (vaddr v n)) ram = Some ram1 \<and>
    store_dword g (vaddr v n + 1023 * 4) x ram1 = Some ram' \<and>
    (\<forall>i. 768 \<le> i \<and> i < 1023 \<longrightarrow> ram' (f + of_nat i * 4) = pde g i) \<and> ram' (f + 1023 * 4) = x \<and>
    (\<forall>a. (\<forall>i. 768 \<le> i \<and> i < 1024 \<longrightarrow> a \<noteq> f + of_nat i * 4) \<longrightarrow> ram' a = ram a)"
proof -
  have copy: "copy_pde g (vaddr v n) = (\<lambda>i. store_dword g (vaddr v n + of_nat i * 4) (pde g i))"
    by (simp add: fun_eq_iff copy_pde_def pde_def)
  have in_dir: "\<forall>i \<in> set [768 ..< 1023]. i < (1024 :: nat)" unfolding set_upt by simp
  obtain ram1 where r1: "for_each [768 ..< 1023] (copy_pde g (vaddr v n)) ram = Some ram1"
      "\<forall>i \<in> set [768 ..< 1023]. ram1 (f + of_nat i * 4) = pde g i"
      "\<forall>a. (\<forall>i \<in> set [768 ..< 1023]. a \<noteq> f + of_nat i * 4) \<longrightarrow> ram1 a = ram a"
    using store_words [OF v g f in_dir distinct_upt, of "pde g" ram] unfolding copy by blast
  obtain ram' where r2: "store_dword g (vaddr v n + of_nat 1023 * 4) x ram1 = Some ram'"
      "ram' (f + of_nat 1023 * 4) = x" "\<forall>a. a \<noteq> f + of_nat 1023 * 4 \<longrightarrow> ram' a = ram1 a"
    using store_words [OF v g f, of "[1023]" "\<lambda>_. x" ram1]
    by (auto simp del: of_nat_numeral split: bind_splits)
  have "ram' (f + of_nat i * 4) = pde g i" if i: "768 \<le> i" "i < 1023" for i
  proof -
    have "i \<noteq> 1023" "i < 1024" using i by simp_all
    then have "f + of_nat i * 4 \<noteq> f + of_nat 1023 * 4" using word_index_inj [of i 1023 f] num1023(1) by blast
    then have "ram' (f + of_nat i * 4) = ram1 (f + of_nat i * 4)" using r2(3) by blast
    also have "\<dots> = pde g i" using r1(2) i unfolding set_upt atLeastLessThan_iff Ball_def by blast
    finally show ?thesis .
  qed
  moreover have "ram' a = ram a" if out: "\<forall>i. 768 \<le> i \<and> i < 1024 \<longrightarrow> a \<noteq> f + of_nat i * 4" for a
  proof -
    have "ram' a = ram1 a" using out r2(3) num1023 by blast
    also have "\<forall>i \<in> set [768 ..< 1023]. a \<noteq> f + of_nat i * 4"
      unfolding set_upt using out num1023(1) by (meson atLeastLessThan_iff less_trans)
    then have "ram1 a = ram a" using r1(3) by blast
    finally show ?thesis .
  qed
  ultimately show ?thesis using r1(1) r2(1,2) by (intro exI [of _ ram1] exI [of _ ram']) simp
qed

lemma one_page: "{n ..< n + unat (1 :: u32)} = {n}"
  by auto

lemma one_run: "(\<exists>s. {s} \<subseteq> F) \<longleftrightarrow> F \<noteq> {}"
  by auto

text \<open>One page mapped at a free page of the range, and taken away again.\<close>

lemma map_unmap_page:
  assumes v: "vmm_inv v" and w: "vmm_inv w" "same_range v w" and s: "s \<in> vfree v"
    and fw: "vfree w = vfree v - {s}" and g: "pg_wf g" and a: "vaddr v s \<noteq> 0" and f: "page_aligned f"
  shows "pg_wf (pg_map (vaddr v s) f fl 1 g)" "pg_abs (pg_map (vaddr v s) f fl 1 g) (vpage w + s) = Some f"
    and "\<exists>v' g'. munmap (vaddr v s) 0x1000 (w, p, pg_map (vaddr v s) f fl 1 g) = Some (v', p, g') \<and>
      vmm_inv v' \<and> same_range v v' \<and> vfree v' = vfree v \<and> pg_wf g' \<and>
      (\<forall>i < 1024. pde g' i = pde (pg_map (vaddr v s) f fl 1 g) i) \<and>
      (\<forall>k. pg_abs g' k = (if k = vpage v + s then None else pg_abs g k))"
proof -
  let ?g = "pg_map (vaddr v s) f fl 1 g"
  have shape: "vmm_shape v" and st: "s < unat (vmm_total_pages v)" using v s by (simp_all add: vmm_inv_def vfree_def)
  have page: "unat (vaddr v s) div 4096 = vpage v + s" using vaddr_page(3) [OF shape st] .
  then have fit: "unat (vaddr v s) div 4096 + unat (1 :: u32) \<le> 0xFFC00" using vmm_total(2) [OF shape] st by simp
  note m = pg_map_abs [OF g fit, of f fl]
  show wf: "pg_wf ?g" by (rule m(1))
  show "pg_abs ?g (vpage w + s) = Some f"
    using m(2) page same_range_vaddr [OF w(2)] f by (simp add: frame_aligned)
  note u = pg_unmap_abs [OF wf fit]
  have sr: "vaddr w s = vaddr v s" using same_range_vaddr [OF w(2)] by simp
  have "\<exists>v'. vmm_unreserve (vaddr w s) 1 w = Some v' \<and> vmm_inv v' \<and> same_range w v' \<and>
      vfree v' = vfree w \<union> {s ..< s + unat (1 :: u32)} \<and> vmm_used_pages v' = vmm_used_pages w - 1"
    by (rule vmm_unreserve_step [OF w(1)]) (use st fw w(2) a sr in \<open>simp_all add: same_range_def\<close>)
  then obtain v' where v': "vmm_unreserve (vaddr v s) 1 w = Some v'" "vmm_inv v'" "same_range w v'"
      "vfree v' = vfree w \<union> {s}"
    by (auto simp: sr)
  have "same_range v v'" using w(2) v'(3) by (simp add: same_range_def)
  moreover have "vfree v' = vfree v" using v'(4) fw s by auto
  moreover have "munmap (vaddr v s) 0x1000 (w, p, ?g) = Some (v', p, pg_unmap (vaddr v s) 1 ?g)"
    using a v'(1) by (simp only: munmap_def mmap_one_page Let_def prod.case if_False bind.bind_lunit)
  moreover have "\<forall>i < 1024. pde (pg_unmap (vaddr v s) 1 ?g) i = pde ?g i"
    using pde_unmap_one [OF vaddr_page(4) [OF shape st]] by blast
  moreover have "\<forall>k. pg_abs (pg_unmap (vaddr v s) 1 ?g) k = (if k = vpage v + s then None else pg_abs g k)"
    using u(2) m(2) page by auto
  ultimately show "\<exists>v' g'. munmap (vaddr v s) 0x1000 (w, p, ?g) = Some (v', p, g') \<and>
      vmm_inv v' \<and> same_range v v' \<and> vfree v' = vfree v \<and> pg_wf g' \<and>
      (\<forall>i < 1024. pde g' i = pde ?g i) \<and> (\<forall>k. pg_abs g' k = (if k = vpage v + s then None else pg_abs g k))"
    using v'(2) u(1) by blast
qed

text \<open>
  C22: \<^verbatim>\<open>pgd_create_pd\<close> always returns. With a free frame and a free kernel page it returns a frame
  that holds the directory entries of the kernel's range and an entry for itself, and the frame is
  the only one taken; the kernel's own map is as before, except that the page used for access is
  not mapped. The other words of the frame, so all directory entries below the kernel's range, are
  not written. Without a free frame or page it returns 0 and nothing is taken.
\<close>

theorem pgd_create_pd_correct:
  assumes "vmm_inv v" and "pmm_inv p" and "pg_wf g"
  shows "\<exists>pd v' p' g' ram'. pgd_create_pd ((v, p, g), ram) = Some (pd, (v', p', g'), ram') \<and>
    vmm_inv v' \<and> same_range v v' \<and> vfree v' = vfree v \<and> pmm_inv p' \<and> pg_wf g' \<and>
    (if free_set p = {} \<or> vfree v = {} then pd = 0 \<and> free_set p' = free_set p \<and> g' = g \<and> ram' = ram
     else pd \<noteq> 0 \<and> page_aligned pd \<and> unat (TO_PAGE pd) \<in> free_set p \<and>
       free_set p' = free_set p - {unat (TO_PAGE pd)} \<and>
       (\<forall>i. 768 \<le> i \<and> i < 1023 \<longrightarrow> ram' (pd + of_nat i * 4) = pde g' i) \<and>
       ram' (pd + 1023 * 4) = pd OR PTE_RW OR PTE_P \<and>
       (\<forall>a. (\<forall>i. 768 \<le> i \<and> i < 1024 \<longrightarrow> a \<noteq> pd + of_nat i * 4) \<longrightarrow> ram' a = ram a) \<and>
       (\<exists>s \<in> vfree v. \<forall>k. pg_abs g' k = (if k = vpage v + s then None else pg_abs g k)))"
proof -
  obtain pd p1 where pd: "pmm_alloc 1 p = Some (pd, p1)" "pmm_inv p1" "pmm_total_pages p1 = pmm_total_pages p"
    "if free_set p \<noteq> {} then pd \<noteq> 0 \<and> page_aligned pd \<and> unat (TO_PAGE pd) \<in> free_set p \<and>
       free_set p1 = free_set p - {unat (TO_PAGE pd)} else pd = 0 \<and> free_set p1 = free_set p"
    using pmm_alloc_step [OF assms(2), of 1] unfolding one_page one_run by (cases "free_set p = {}") auto
  obtain a w where w: "vmm_reserve 1 v = Some (a, w)" "vmm_inv w" "same_range v w"
    "if vfree v \<noteq> {} then \<exists>s. a = vaddr v s \<and> a \<noteq> 0 \<and> s \<in> vfree v \<and> vfree w = vfree v - {s}
     else a = 0 \<and> vfree w = vfree v"
    using vmm_reserve_step [OF assms(1), of 1] unfolding one_page one_run by (cases "vfree v = {}") auto
  consider "free_set p = {}" | "free_set p \<noteq> {}" "vfree v = {}" | "free_set p \<noteq> {}" "vfree v \<noteq> {}" by blast
  then show ?thesis
  proof cases
    case 1
    then have "pgd_create_pd ((v, p, g), ram) = Some (0, (v, p1, g), ram)" using pd by (simp add: pgd_create_pd_def)
    then show ?thesis using 1 pd assms by (auto simp: same_range_def)
  next
    case 2
    then have pd': "pd \<noteq> 0" "page_aligned pd" "unat (TO_PAGE pd) \<in> free_set p" "free_set p1 = free_set p - {unat (TO_PAGE pd)}"
      using pd(4) by simp_all
    have lt: "TO_PAGE pd < pmm_total_pages p1" using pd'(3) pd(3) by (simp add: free_set_def word_less_nat_alt)
    obtain p2 where p2: "pmm_free pd 1 p1 = Some p2" "pmm_inv p2" "free_set p2 = free_set p"
      using pmm_free_one [OF pd(2) lt pd'(2,1)] pd'(3,4) by (auto simp: insert_absorb)
    have "pgd_create_pd ((v, p, g), ram) = Some (0, (w, p2, g), ram)"
      using 2 pd(1) pd'(1) w(1,4) p2(1) by (simp add: pgd_create_pd_def mmap_def mmap_one_page [simplified] Let_def)
    then show ?thesis using 2 p2 w assms by auto
  next
    case 3
    then have pd': "pd \<noteq> 0" "page_aligned pd" "unat (TO_PAGE pd) \<in> free_set p" "free_set p1 = free_set p - {unat (TO_PAGE pd)}"
      using pd(4) by simp_all
    obtain s where s: "a = vaddr v s" "vaddr v s \<noteq> 0" "s \<in> vfree v" "vfree w = vfree v - {s}" using w(4) 3 by auto
    let ?g = "pg_map (vaddr v s) pd PTE_RW 1 g"
    note m = map_unmap_page [OF assms(1) w(2,3) s(3,4) assms(3) s(2) pd'(2), where fl = PTE_RW]
    have shape: "vmm_shape w" and st: "s < unat (vmm_total_pages w)" and sr: "vaddr w s = vaddr v s"
      using w(2,3) s(3) same_range_vaddr [OF w(3)] by (simp_all add: vmm_inv_def same_range_def vfree_def)
    obtain ram1 ram' where r: "for_each [768 ..< 1023] (copy_pde ?g (vaddr v s)) ram = Some ram1"
        "store_dword ?g (vaddr v s + 1023 * 4) (pd OR PTE_RW OR PTE_P) ram1 = Some ram'"
        "\<forall>i. 768 \<le> i \<and> i < 1023 \<longrightarrow> ram' (pd + of_nat i * 4) = pde ?g i" "ram' (pd + 1023 * 4) = pd OR PTE_RW OR PTE_P"
        "\<forall>a. (\<forall>i. 768 \<le> i \<and> i < 1024 \<longrightarrow> a \<noteq> pd + of_nat i * 4) \<longrightarrow> ram' a = ram a"
      using fill_directory [OF shape st m(2) pd'(2,1), of ram "pd OR PTE_RW OR PTE_P"] unfolding sr by blast
    obtain v' g' where u: "munmap (vaddr v s) 0x1000 (w, p1, ?g) = Some (v', p1, g')" "vmm_inv v'" "same_range v v'"
        "vfree v' = vfree v" "pg_wf g'" "\<forall>i < 1024. pde g' i = pde ?g i"
        "\<forall>k. pg_abs g' k = (if k = vpage v + s then None else pg_abs g k)"
      using m(3) by blast
    have run: "pgd_create_pd ((v, p, g), ram) = Some (pd, (v', p1, g'), ram')"
      using pd(1) pd'(1) w(1) s(1,2) r(1,2) u(1)
      by (simp only: pgd_create_pd_def mmap_def mmap_one_page kernel_indices Let_def prod.case bind.bind_lunit if_False)
    have dir: "\<forall>i. 768 \<le> i \<and> i < 1023 \<longrightarrow> ram' (pd + of_nat i * 4) = pde g' i"
      using r(3) u(6) num1023(1) by (metis less_trans)
    show ?thesis
      by (rule exI [of _ pd], rule exI [of _ v'], rule exI [of _ p1], rule exI [of _ g'], rule exI [of _ ram'])
        (use run u dir r(4,5) pd(2) pd' 3 s(3) in \<open>simp only: if_False simp_thms, blast\<close>)
  qed
qed

theorem pgd_create_pd_correct_witness:
  "\<exists>pd m ram. pgd_create_pd ((eight_pages, six_pages, pg_empty 0x300000), \<lambda>_. 0) = Some (pd, m, ram) \<and>
     pd \<noteq> 0 \<and> ram (pd + 1023 * 4) = pd OR PTE_RW OR PTE_P"
proof -
  have "free_set six_pages \<noteq> {}" "vfree eight_pages \<noteq> {}" unfolding six_pages_free eight_pages_free by auto
  then show ?thesis
    using pgd_create_pd_correct [OF eight_pages_inv six_pages_inv pg_wf_empty, of "0x300000" "\<lambda>_. 0"] by auto
qed

end
