(* ===== verification/Process.thy ===== *)
theory Process
  imports Mman Kheap_Ops
begin

text \<open>
  \<^verbatim>\<open>src/scheduler/process.c\<close> and \<^verbatim>\<open>src/scheduler/include/process.h\<close>: the process structure, its
  creation on the kernel heap and its time slice; and the state of the kernel that the scheduler
  works on. A pointer to a process is the address of its heap block; the store maps it to the
  fields. As for the heap headers, the store is total, since the code follows pointers that it got
  from its own lists.
\<close>

section \<open>Data\<close>

record context_t =
  cx_cr3 :: u32
  cx_gs :: u32
  cx_fs :: u32
  cx_ds :: u32
  cx_ss :: u32
  cx_es :: u32
  cx_edi :: u32
  cx_esi :: u32
  cx_ebp :: u32
  cx_esp :: u32
  cx_ebx :: u32
  cx_edx :: u32
  cx_ecx :: u32
  cx_eax :: u32

record interrupt_frame_t =
  fr_eip :: u32
  fr_cs :: u32
  fr_eflags :: u32

record process_t =
  pr_context :: context_t
  pr_frame :: interrupt_frame_t
  pr_id :: u32
  pr_entry :: u32
  pr_flags :: u32
  pr_path :: u32
  pr_vmm :: vmm
  pr_heap :: heap
  pr_exe :: u32
  pr_exe_size :: u32
  pr_stack :: u32
  pr_ticks :: u32
  pr_next :: u32
  pr_prev :: u32

record procman_t =
  pm_head :: u32
  pm_tail :: u32
  pm_current :: u32
  pm_count :: u32

definition PROC_FLAG_KERNEL :: u32 where
  "PROC_FLAG_KERNEL = 0x01"

definition PROC_FLAG_USER :: u32 where
  "PROC_FLAG_USER = 0x03"

definition PROC_FLAG_STACK :: u32 where
  "PROC_FLAG_STACK = 0x04"

definition PROC_FLAG_HEAP :: u32 where
  "PROC_FLAG_HEAP = 0x08"

definition PROC_SHARED_ADDR_SPACE :: u32 where
  "PROC_SHARED_ADDR_SPACE = 0x10"

definition PROC_FLAG_TYPE_MASK :: u32 where
  "PROC_FLAG_TYPE_MASK = 0x03"

definition PROC_FLAG_CREATE :: u32 where
  "PROC_FLAG_CREATE = 0x20000000"

definition PROC_FLAG_KILL :: u32 where
  "PROC_FLAG_KILL = 0x40000000"

definition PROC_FLAG_SERVICE_MASK :: u32 where
  "PROC_FLAG_SERVICE_MASK = 0xC0000000"

lemmas PROC_FLAGS = PROC_FLAG_KERNEL_def PROC_FLAG_USER_def PROC_FLAG_STACK_def PROC_FLAG_HEAP_def
  PROC_SHARED_ADDR_SPACE_def PROC_FLAG_TYPE_MASK_def PROC_FLAG_CREATE_def PROC_FLAG_KILL_def
  PROC_FLAG_SERVICE_MASK_def

text \<open>
  \<^verbatim>\<open>sizeof(process_t)\<close>: 14 registers, the 3 words of the frame, 4 words up to \<^verbatim>\<open>path\<close>, the 9 words of
  \<^verbatim>\<open>vmm_t\<close>, the 3 of \<^verbatim>\<open>heap_t\<close> and the last 6.
\<close>

definition process_size :: u32 where
  "process_size = 156"

text \<open>
  The kernel as the scheduler sees it: the two process lists, the processes, the kernel heap with
  the memory managers, and physical memory.
\<close>

record scheduler_t =
  sc_active :: procman_t
  sc_inactive :: procman_t

record kernel =
  k_sched :: scheduler_t
  k_procs :: "u32 \<Rightarrow> process_t"
  k_heap :: heap
  k_mm :: mm
  k_ram :: "u32 \<Rightarrow> u32"

definition upd_proc :: "u32 \<Rightarrow> (process_t \<Rightarrow> process_t) \<Rightarrow> kernel \<Rightarrow> kernel" where
  "upd_proc proc f k = k\<lparr>k_procs := (k_procs k)(proc := f (k_procs k proc))\<rparr>"

text \<open>Calls into the kernel heap.\<close>

definition k_malloc :: "u32 \<Rightarrow> kernel \<Rightarrow> (u32 \<times> kernel) option" where
  "k_malloc sz k = do {
     (ptr, h, m) \<leftarrow> kmalloc sz (k_heap k, k_mm k);
     Some (ptr, k\<lparr>k_heap := h, k_mm := m\<rparr>) }"

definition k_free :: "u32 \<Rightarrow> kernel \<Rightarrow> kernel option" where
  "k_free ptr k = do {
     (h, m) \<leftarrow> kfree ptr (k_heap k, k_mm k);
     Some (k\<lparr>k_heap := h, k_mm := m\<rparr>) }"

section \<open>Operations\<close>

text \<open>\<^verbatim>\<open>memset(*proc, 0, sizeof(process_t))\<close>.\<close>

definition zero_context :: context_t where
  "zero_context = \<lparr>cx_cr3 = 0, cx_gs = 0, cx_fs = 0, cx_ds = 0, cx_ss = 0, cx_es = 0, cx_edi = 0, cx_esi = 0,
     cx_ebp = 0, cx_esp = 0, cx_ebx = 0, cx_edx = 0, cx_ecx = 0, cx_eax = 0\<rparr>"

definition zero_vmm :: vmm where
  "zero_vmm = \<lparr>vmm_bitmap_ptr = 0, vmm_bitmap = [], vmm_bitmap_size = 0, vmm_total_pages = 0, vmm_usable_pages = 0,
     vmm_free_pages = 0, vmm_used_pages = 0, vmm_largest_run = 0, vmm_base = 0, vmm_end = 0\<rparr>"

definition zero_process :: "process_t \<Rightarrow> process_t" where
  "zero_process x = \<lparr>pr_context = zero_context, pr_frame = \<lparr>fr_eip = 0, fr_cs = 0, fr_eflags = 0\<rparr>, pr_id = 0,
     pr_entry = 0, pr_flags = 0, pr_path = 0, pr_vmm = zero_vmm, pr_heap = (pr_heap x)\<lparr>heap_head := 0, heap_tail := 0\<rparr>,
     pr_exe = 0, pr_exe_size = 0, pr_stack = 0, pr_ticks = 0, pr_next = 0, pr_prev = 0\<rparr>"

text \<open>The pointer that \<^verbatim>\<open>process_create\<close> stores through its argument; 0 is the failure.\<close>

definition process_create :: "kernel \<Rightarrow> (u32 \<times> kernel) option" where
  "process_create k = do {
     (proc, k) \<leftarrow> k_malloc process_size k;
     if proc = 0 then Some (0, k) else Some (proc, upd_proc proc zero_process k) }"

definition process_destroy :: "u32 \<Rightarrow> kernel \<Rightarrow> kernel option" where
  "process_destroy proc k = (if proc = 0 then Some k else k_free proc k)"

definition process_update :: "u32 \<Rightarrow> kernel \<Rightarrow> bool \<times> kernel" where
  "process_update proc k =
    (if proc = 0 then (True, k)
     else
       let k = upd_proc proc (\<lambda>x. x\<lparr>pr_ticks := pr_ticks x + 1\<rparr>) k in
       if pr_ticks (k_procs k proc) < 2 then (False, k)
       else (True, upd_proc proc (\<lambda>x. x\<lparr>pr_ticks := 0\<rparr>) k))"

lemma upd_proc_simps [simp]:
  "k_sched (upd_proc p f k) = k_sched k" "k_heap (upd_proc p f k) = k_heap k"
  "k_mm (upd_proc p f k) = k_mm k" "k_ram (upd_proc p f k) = k_ram k"
  "k_procs (upd_proc p f k) q = (if q = p then f (k_procs k p) else k_procs k q)"
  by (simp_all add: upd_proc_def)

end
