(* ===== verification/Scheduler.thy ===== *)
theory Scheduler
  imports Process
begin

text \<open>
  \<^verbatim>\<open>src/scheduler/scheduler.c\<close>: the pre-emptive round robin scheduler. Processes are in one of two
  doubly linked lists: \<^verbatim>\<open>active\<close>, which the timer interrupt walks, and \<^verbatim>\<open>inactive\<close>, where a process
  waits for the scheduler process to create or destroy it. The list operations run with interrupts
  disabled (\<^verbatim>\<open>critsec_enter\<close>), so each of them is one step of the machine.

  The addresses that the linker and the assembler files fix (the selectors of \<^verbatim>\<open>gdt.asm\<close>, the static
  page directory, the entry of the trampoline) are an argument. Debug output and the set-up of the
  timer have no effect on the state of the model.
\<close>

section \<open>Lists of processes\<close>

text \<open>The operations on one list: the manager and the processes.\<close>

definition upd_ps :: "u32 \<Rightarrow> (process_t \<Rightarrow> process_t) \<Rightarrow> (u32 \<Rightarrow> process_t) \<Rightarrow> u32 \<Rightarrow> process_t" where
  "upd_ps p f ps = ps(p := f (ps p))"

definition procman_append :: "u32 \<Rightarrow> procman_t \<times> (u32 \<Rightarrow> process_t) \<Rightarrow> procman_t \<times> (u32 \<Rightarrow> process_t)" where
  "procman_append proc st = (case st of (pm, ps) \<Rightarrow>
    (let ps = upd_ps proc (\<lambda>x. x\<lparr>pr_next := 0, pr_prev := pm_tail pm\<rparr>) ps;
         (pm, ps) = (if pm_tail pm \<noteq> 0 then (pm, upd_ps (pm_tail pm) (\<lambda>x. x\<lparr>pr_next := proc\<rparr>) ps)
                     else (pm\<lparr>pm_head := proc\<rparr>, ps))
     in (pm\<lparr>pm_tail := proc\<rparr>, ps)))"

definition procman_remove :: "u32 \<Rightarrow> procman_t \<times> (u32 \<Rightarrow> process_t) \<Rightarrow> procman_t \<times> (u32 \<Rightarrow> process_t)" where
  "procman_remove proc st = (case st of (pm, ps) \<Rightarrow>
    (let (pm, ps) = (if pr_prev (ps proc) \<noteq> 0
                     then (pm, upd_ps (pr_prev (ps proc)) (\<lambda>x. x\<lparr>pr_next := pr_next (ps proc)\<rparr>) ps)
                     else (pm\<lparr>pm_head := pr_next (ps proc)\<rparr>, ps));
         (pm, ps) = (if pr_next (ps proc) \<noteq> 0
                     then (pm, upd_ps (pr_next (ps proc)) (\<lambda>x. x\<lparr>pr_prev := pr_prev (ps proc)\<rparr>) ps)
                     else (pm\<lparr>pm_tail := pr_prev (ps proc)\<rparr>, ps));
         ps = upd_ps proc (\<lambda>x. x\<lparr>pr_next := 0, pr_prev := 0\<rparr>) ps
     in (if pm_current pm = proc then pm\<lparr>pm_current := 0\<rparr> else pm, ps)))"

text \<open>The two lists of the kernel.\<close>

definition on_active :: "(procman_t \<times> (u32 \<Rightarrow> process_t) \<Rightarrow> procman_t \<times> (u32 \<Rightarrow> process_t)) \<Rightarrow> kernel \<Rightarrow> kernel" where
  "on_active f k = (case f (sc_active (k_sched k), k_procs k) of (pm, ps) \<Rightarrow>
     k\<lparr>k_sched := (k_sched k)\<lparr>sc_active := pm\<rparr>, k_procs := ps\<rparr>)"

definition on_inactive :: "(procman_t \<times> (u32 \<Rightarrow> process_t) \<Rightarrow> procman_t \<times> (u32 \<Rightarrow> process_t)) \<Rightarrow> kernel \<Rightarrow> kernel" where
  "on_inactive f k = (case f (sc_inactive (k_sched k), k_procs k) of (pm, ps) \<Rightarrow>
     k\<lparr>k_sched := (k_sched k)\<lparr>sc_inactive := pm\<rparr>, k_procs := ps\<rparr>)"

section \<open>Switching\<close>

definition scheduler_current :: "kernel \<Rightarrow> u32" where
  "scheduler_current k = pm_current (sc_active (k_sched k))"

definition scheduler_head :: "kernel \<Rightarrow> u32" where
  "scheduler_head k = pm_head (sc_active (k_sched k))"

definition scheduler_tail :: "kernel \<Rightarrow> u32" where
  "scheduler_tail k = pm_tail (sc_active (k_sched k))"

definition set_current :: "u32 \<Rightarrow> kernel \<Rightarrow> kernel" where
  "set_current p k = k\<lparr>k_sched := (k_sched k)\<lparr>sc_active := (sc_active (k_sched k))\<lparr>pm_current := p\<rparr>\<rparr>\<rparr>"

text \<open>
  The result, and what the variables behind \<^verbatim>\<open>current\<close> and \<^verbatim>\<open>next\<close> hold afterwards, given what they
  held before.
\<close>

definition scheduler_switch :: "u32 \<times> u32 \<Rightarrow> kernel \<Rightarrow> bool \<times> (u32 \<times> u32) \<times> kernel" where
  "scheduler_switch out k =
    (if scheduler_current k = 0 \<and> scheduler_head k = 0 then (False, out, k)
     else
       let k = (if scheduler_current k = 0 then set_current (scheduler_head k) k else k);
           (due, k) = process_update (scheduler_current k) k
       in if \<not> due then (False, (0, 0), k)
          else
            let current = scheduler_current k;
                nxt = (if pr_next (k_procs k current) \<noteq> 0 then pr_next (k_procs k current) else scheduler_head k)
            in (nxt \<noteq> current, (current, nxt), set_current nxt k))"

section \<open>Registering and deregistering\<close>

definition proc_register :: "u32 \<Rightarrow> u32 \<Rightarrow> u32 \<Rightarrow> kernel \<Rightarrow> (u32 \<times> kernel) option" where
  "proc_register path entry flags k = do {
     (proc, k) \<leftarrow> process_create k;
     if proc = 0 then Some (0, k)
     else
       let k = upd_proc proc (\<lambda>x. x\<lparr>pr_entry := entry, pr_path := path, pr_flags := flags OR PROC_FLAG_CREATE\<rparr>) k
       in Some (proc, on_inactive (procman_append proc) k) }"

definition proc_deregister :: "u32 \<Rightarrow> kernel \<Rightarrow> kernel" where
  "proc_deregister proc k =
    (if proc = 0 then k
     else if pr_flags (k_procs k proc) AND PROC_FLAG_KILL \<noteq> 0 then k
     else
       let k = on_active (procman_remove proc) k;
           k = on_inactive (procman_append proc) k
       in upd_proc proc (\<lambda>x. x\<lparr>pr_flags := pr_flags x OR PROC_FLAG_KILL\<rparr>) k)"

definition scheduler_load_kprocess :: "u32 \<Rightarrow> u32 \<Rightarrow> kernel \<Rightarrow> (u32 \<times> kernel) option" where
  "scheduler_load_kprocess path entry =
     proc_register path entry (PROC_FLAG_KERNEL OR PROC_FLAG_STACK OR PROC_FLAG_HEAP)"

definition scheduler_load_uprocess :: "u32 \<Rightarrow> u32 \<Rightarrow> kernel \<Rightarrow> (u32 \<times> kernel) option" where
  "scheduler_load_uprocess path entry =
     proc_register path entry (PROC_FLAG_USER OR PROC_FLAG_STACK OR PROC_FLAG_HEAP)"

definition scheduler_unload_process :: "u32 \<Rightarrow> kernel \<Rightarrow> kernel" where
  "scheduler_unload_process proc = proc_deregister proc"

definition scheduler_unload_current_process :: "kernel \<Rightarrow> kernel" where
  "scheduler_unload_current_process k = proc_deregister (scheduler_current k) k"

section \<open>Creating and destroying\<close>

definition DEFAULT_STACK :: u32 where
  "DEFAULT_STACK = 1 * 1024 * 1024"

definition UVIRT :: u32 where
  "UVIRT = 0x00001000"

definition UVIRT_END :: u32 where
  "UVIRT_END = KVIRT"

record kimage =
  ki_kcode :: u32
  ki_kdata :: u32
  ki_kstack :: u32
  ki_ucode :: u32
  ki_udata :: u32
  ki_ustack :: u32
  ki_pg_pd :: u32
  ki_startup_proc :: u32
  ki_idle_proc :: u32
  ki_scheduler_proc :: u32

text \<open>\<^verbatim>\<open>#define KCODE (((uint32_t)&gdt_selector_ke_code) & 0xFFF8)\<close> and the like.\<close>

definition selector :: "u32 \<Rightarrow> u32" where
  "selector a = a AND 0xFFF8"

text \<open>The selectors by the type bits of the flags: code, stack and data; 0 for an unknown type.\<close>

definition proc_selectors :: "kimage \<Rightarrow> u32 \<Rightarrow> u32 \<times> u32 \<times> u32" where
  "proc_selectors ki flags =
    (if flags AND PROC_FLAG_TYPE_MASK = PROC_FLAG_KERNEL
     then (selector (ki_kcode ki), selector (ki_kstack ki), selector (ki_kdata ki))
     else if flags AND PROC_FLAG_TYPE_MASK = PROC_FLAG_USER
     then (selector (ki_ucode ki) OR 3, selector (ki_ustack ki) OR 3, selector (ki_udata ki) OR 3)
     else (0, 0, 0))"

definition proc_has_alloc :: "u32 \<Rightarrow> bool" where
  "proc_has_alloc flags \<longleftrightarrow> flags AND PROC_FLAG_TYPE_MASK = PROC_FLAG_KERNEL \<or>
     flags AND PROC_FLAG_TYPE_MASK = PROC_FLAG_USER"

text \<open>
  The stack of a new process, false when there is no memory for it. The allocator is \<^verbatim>\<open>kmalloc\<close> for
  both types; for any other type it is \<^verbatim>\<open>NULL\<close>, and calling it is a fault.
\<close>

definition setup_stack :: "u32 \<Rightarrow> kernel \<Rightarrow> (bool \<times> kernel) option" where
  "setup_stack proc k =
    (if pr_flags (k_procs k proc) AND PROC_FLAG_STACK = 0
     then Some (True, upd_proc proc (\<lambda>x. x\<lparr>pr_context := (pr_context x)\<lparr>cx_esp := 0, cx_ebp := 0\<rparr>, pr_stack := 0\<rparr>) k)
     else do {
       assert (proc_has_alloc (pr_flags (k_procs k proc)));
       (stack, k) \<leftarrow> k_malloc DEFAULT_STACK k;
       let k = upd_proc proc (\<lambda>x. x\<lparr>pr_stack := stack\<rparr>) k in
       if stack = 0 then Some (False, k)
       else
         let sp = stack + DEFAULT_STACK - 4 in do {
         ram \<leftarrow> store_dword (snd (snd (k_mm k))) sp proc (k_ram k);
         let sp = sp - 4 in do {
         ram \<leftarrow> store_dword (snd (snd (k_mm k))) sp 0 ram;
         Some (True, upd_proc proc (\<lambda>x. x\<lparr>pr_context := (pr_context x)\<lparr>cx_esp := sp, cx_ebp := sp\<rparr>\<rparr>)
                       (k\<lparr>k_ram := ram\<rparr>)) } } })"

definition setup_address_space :: "kimage \<Rightarrow> u32 \<Rightarrow> kernel \<Rightarrow> kernel option" where
  "setup_address_space ki proc k =
    (if pr_flags (k_procs k proc) AND PROC_SHARED_ADDR_SPACE \<noteq> 0
     then Some (upd_proc proc (\<lambda>x. x\<lparr>pr_context := (pr_context x)\<lparr>cx_cr3 := V2P (ki_pg_pd ki)\<rparr>\<rparr>) k)
     else do {
       (pd, m, ram) \<leftarrow> pgd_create_pd (k_mm k, k_ram k);
       Some (upd_proc proc (\<lambda>x. x\<lparr>pr_context := (pr_context x)\<lparr>cx_cr3 := pd\<rparr>\<rparr>) (k\<lparr>k_mm := m, k_ram := ram\<rparr>)) })"

definition setup_heap :: "u32 \<Rightarrow> kernel \<Rightarrow> kernel option" where
  "setup_heap proc k =
    (if pr_flags (k_procs k proc) AND PROC_FLAG_HEAP = 0 then Some k
     else do {
       (v, k) \<leftarrow> vmm_init UVIRT UVIRT_END k_malloc (pr_vmm (k_procs k proc)) k;
       Some (upd_proc proc (\<lambda>x. x\<lparr>pr_vmm := v, pr_heap := heap_init (pr_heap x)\<rparr>) k) })"

definition create_proc :: "kimage \<Rightarrow> u32 \<Rightarrow> kernel \<Rightarrow> (u32 \<times> kernel) option" where
  "create_proc ki proc k =
    (let k = upd_proc proc (\<lambda>x. x\<lparr>pr_flags := pr_flags x AND NOT PROC_FLAG_CREATE\<rparr>) k;
         (code, stack, data) = proc_selectors ki (pr_flags (k_procs k proc));
         k = upd_proc proc (\<lambda>x. x\<lparr>pr_context := (pr_context x)\<lparr>cx_es := data, cx_ds := data, cx_fs := data,
               cx_gs := data, cx_ss := stack\<rparr>\<rparr>) k in do {
     (ok, k) \<leftarrow> setup_stack proc k;
     if \<not> ok then Some (0, k)
     else
       let n = pm_count (sc_active (k_sched k));
           k = upd_proc proc (\<lambda>x. x\<lparr>pr_frame := \<lparr>fr_eip = ki_startup_proc ki, fr_cs = code, fr_eflags = 0x202\<rparr>, pr_id := n\<rparr>) k;
           k = k\<lparr>k_sched := (k_sched k)\<lparr>sc_active := (sc_active (k_sched k))\<lparr>pm_count := n + 1\<rparr>\<rparr>\<rparr> in do {
       k \<leftarrow> setup_address_space ki proc k;
       k \<leftarrow> setup_heap proc k;
       let nxt = pr_next (k_procs k proc);
           k = on_inactive (procman_remove proc) k;
           k = on_active (procman_append proc) k in
       Some (nxt, k) } })"

definition destroy_heap :: "u32 \<Rightarrow> kernel \<Rightarrow> kernel option" where
  "destroy_heap proc k =
    (if pr_flags (k_procs k proc) AND PROC_FLAG_HEAP = 0 then Some k
     else
       let k = upd_proc proc (\<lambda>x. x\<lparr>pr_heap := heap_destroy (pr_heap x)\<rparr>) k;
           (kv, p, g) = k_mm k in do {
       ((v, p, g), h, kv) \<leftarrow> vmm_destroy
         (\<lambda>ptr ((h, kv), p, g). do { (h, kv, p, g) \<leftarrow> kfree ptr (h, kv, p, g); Some ((h, kv), p, g) })
         ((pr_vmm (k_procs k proc), p, g), k_heap k, kv);
       Some (upd_proc proc (\<lambda>x. x\<lparr>pr_vmm := v\<rparr>) (k\<lparr>k_heap := h, k_mm := (kv, p, g)\<rparr>)) })"

definition destroy_stack :: "u32 \<Rightarrow> kernel \<Rightarrow> kernel option" where
  "destroy_stack proc k =
    (if pr_flags (k_procs k proc) AND PROC_FLAG_STACK \<noteq> 0 \<and> pr_stack (k_procs k proc) \<noteq> 0
     then do {
       assert (proc_has_alloc (pr_flags (k_procs k proc)));
       k \<leftarrow> k_free (pr_stack (k_procs k proc)) k;
       Some (upd_proc proc (\<lambda>x. x\<lparr>pr_stack := 0\<rparr>) k) }
     else Some k)"

definition destroy_address_space :: "u32 \<Rightarrow> kernel \<Rightarrow> kernel option" where
  "destroy_address_space proc k =
    (if pr_flags (k_procs k proc) AND PROC_SHARED_ADDR_SPACE = 0
     then (case k_mm k of (v, p, g) \<Rightarrow> do {
       p \<leftarrow> pgd_destroy_pd (cx_cr3 (pr_context (k_procs k proc))) p;
       Some (k\<lparr>k_mm := (v, p, g)\<rparr>) })
     else Some k)"

definition destroy_exe :: "u32 \<Rightarrow> kernel \<Rightarrow> kernel option" where
  "destroy_exe proc k =
    (if pr_exe (k_procs k proc) \<noteq> 0
     then do {
       assert (proc_has_alloc (pr_flags (k_procs k proc)));
       k \<leftarrow> k_free (pr_exe (k_procs k proc)) k;
       Some (upd_proc proc (\<lambda>x. x\<lparr>pr_exe := 0, pr_exe_size := 0\<rparr>) k) }
     else Some k)"

definition destroy_proc :: "u32 \<Rightarrow> kernel \<Rightarrow> (u32 \<times> kernel) option" where
  "destroy_proc proc k =
    (if proc = 0 then Some (0, k)
     else
       let nxt = pr_next (k_procs k proc);
           k = on_inactive (procman_remove proc) k in do {
       k \<leftarrow> destroy_heap proc k;
       k \<leftarrow> destroy_stack proc k;
       k \<leftarrow> destroy_address_space proc k;
       k \<leftarrow> destroy_exe proc k;
       k \<leftarrow> process_destroy proc k;
       Some (nxt, k) })"

section \<open>The scheduler process\<close>

text \<open>One turn of the inner loop, at a process that is not \<^verbatim>\<open>NULL\<close>.\<close>

definition service_proc :: "kimage \<Rightarrow> u32 \<Rightarrow> kernel \<Rightarrow> (u32 \<times> kernel) option" where
  "service_proc ki proc k =
    (if pr_flags (k_procs k proc) AND PROC_FLAG_CREATE \<noteq> 0 then create_proc ki proc k
     else if pr_flags (k_procs k proc) AND PROC_FLAG_SERVICE_MASK \<noteq> 0 then destroy_proc proc k
     else Some (pr_prev (k_procs k proc), k))"

partial_function (option) service_list :: "kimage \<Rightarrow> u32 \<Rightarrow> kernel \<Rightarrow> kernel option" where
  "service_list ki proc k =
    (if proc = 0 then Some k
     else do { (proc, k) \<leftarrow> service_proc ki proc k; service_list ki proc k })"

text \<open>One turn of the endless loop of \<^verbatim>\<open>scheduler_proc\<close>.\<close>

definition scheduler_proc_turn :: "kimage \<Rightarrow> kernel \<Rightarrow> kernel option" where
  "scheduler_proc_turn ki k = service_list ki (pm_tail (sc_inactive (k_sched k))) k"

text \<open>The trampoline; \<open>run\<close> is what the process's own code does to the kernel until it returns.\<close>

definition startup_proc :: "(u32 \<Rightarrow> kernel \<Rightarrow> kernel option) \<Rightarrow> u32 \<Rightarrow> kernel \<Rightarrow> kernel option" where
  "startup_proc run proc k = do {
     k \<leftarrow> run (pr_entry (k_procs k proc)) k;
     Some (scheduler_unload_process proc k) }"

section \<open>Initialisation\<close>

definition procman_empty :: procman_t where
  "procman_empty = \<lparr>pm_head = 0, pm_tail = 0, pm_current = 0, pm_count = 0\<rparr>"

definition scheduler_init :: "kimage \<Rightarrow> u32 \<times> u32 \<times> u32 \<Rightarrow> kernel \<Rightarrow> kernel option" where
  "scheduler_init ki names k = (case names of (s_kinit, s_idle, s_sched) \<Rightarrow>
    (let k = k\<lparr>k_sched := \<lparr>sc_active = procman_empty, sc_inactive = procman_empty\<rparr>\<rparr> in do {
     (kinit, k) \<leftarrow> proc_register s_kinit 0 (PROC_FLAG_KERNEL OR PROC_SHARED_ADDR_SPACE) k;
     if kinit = 0 then Some k
     else do {
     (_, k) \<leftarrow> create_proc ki kinit k;
     (idle, k) \<leftarrow> proc_register s_idle (ki_idle_proc ki)
                    (PROC_FLAG_KERNEL OR PROC_SHARED_ADDR_SPACE OR PROC_FLAG_STACK) k;
     if idle = 0 then Some k
     else do {
     (_, k) \<leftarrow> create_proc ki idle k;
     (sched, k) \<leftarrow> proc_register s_sched (ki_scheduler_proc ki)
                    (PROC_FLAG_KERNEL OR PROC_SHARED_ADDR_SPACE OR PROC_FLAG_STACK OR PROC_FLAG_HEAP) k;
     if sched = 0 then Some k
     else do {
     (_, k) \<leftarrow> create_proc ki sched k;
     Some (set_current kinit k) } } } }))"

end
