(* ===== verification/Sched_Lists.thy ===== *)
theory Sched_Lists
  imports Scheduler
begin

text \<open>
  The process lists hold what they should: the interpretation of the list interfaces on the code of
  \<^verbatim>\<open>procman_append\<close> and \<^verbatim>\<open>procman_remove\<close>, the invariant of the two lists together, and its
  preservation by every operation on them.
\<close>

section \<open>One list\<close>

type_synonym plist_state = "procman_t \<times> (u32 \<Rightarrow> process_t)"

definition pl_next :: "plist_state \<Rightarrow> u32 \<Rightarrow> u32" where
  "pl_next st x = pr_next (snd st x)"

definition pl_prev :: "plist_state \<Rightarrow> u32 \<Rightarrow> u32" where
  "pl_prev st x = pr_prev (snd st x)"

definition pl_head :: "plist_state \<Rightarrow> u32" where
  "pl_head st = pm_head (fst st)"

definition pl_tail :: "plist_state \<Rightarrow> u32" where
  "pl_tail st = pm_tail (fst st)"

lemmas pl_defs = pl_next_def pl_prev_def pl_head_def pl_tail_def

definition plist :: "plist_state \<Rightarrow> u32 list \<Rightarrow> bool" where
  "plist st xs \<longleftrightarrow> dll 0 (pl_next st) (pl_prev st) (pl_head st) (pl_tail st) xs"

interpretation procman: dll_list 0 True pl_next pl_prev pl_head pl_tail procman_append procman_remove
  by unfold_locales
    (auto simp: pl_defs procman_append_def procman_remove_def upd_ps_def Let_def split: prod.splits if_splits)

lemma plist_nonzero: "plist st xs \<Longrightarrow> x \<in> set xs \<Longrightarrow> x \<noteq> 0"
  and plist_distinct: "plist st xs \<Longrightarrow> distinct xs"
  by (auto simp: plist_def dll_def)

lemma plist_append: "plist st xs \<Longrightarrow> x \<noteq> 0 \<Longrightarrow> x \<notin> set xs \<Longrightarrow> plist (procman_append x st) (xs @ [x])"
  unfolding plist_def by (rule procman.append_list) simp_all

lemma plist_remove: "plist st (us @ x # vs) \<Longrightarrow> plist (procman_remove x st) (us @ vs)"
  unfolding plist_def by (rule procman.remove_list) simp_all

text \<open>The neighbours of an element, and the ends.\<close>

lemma plist_at:
  assumes "plist st (us @ x # vs)"
  shows "pr_next (snd st x) = first vs 0" "pr_prev (snd st x) = final 0 us"
  using assms by (simp_all add: plist_def dll_def pl_defs)

lemma plist_ends: "plist st xs \<Longrightarrow> pm_head (fst st) = first xs 0 \<and> pm_tail (fst st) = final 0 xs"
  by (simp add: plist_def dll_def pl_defs)

text \<open>Outside the list no link changes.\<close>

definition same_links :: "process_t \<Rightarrow> process_t \<Rightarrow> bool" where
  "same_links x y \<longleftrightarrow> pr_next y = pr_next x \<and> pr_prev y = pr_prev x"

lemma append_frame:
  assumes "plist st xs" and "y \<notin> set xs" and "y \<noteq> x"
  shows "snd (procman_append x st) y = snd st y"
proof -
  obtain pm ps where st: "st = (pm, ps)" by (cases st)
  have tail: "y \<noteq> pm_tail pm" if "pm_tail pm \<noteq> 0"
    using plist_ends [OF assms(1)] final_in [of 0 xs] assms(2) that by (auto simp: st)
  show ?thesis
  proof (cases "pm_tail pm = 0")
    case True
    then show ?thesis using assms(3) by (simp add: st procman_append_def Let_def upd_ps_def)
  next
    case False
    then show ?thesis using assms(3) tail by (simp add: st procman_append_def Let_def upd_ps_def)
  qed
qed

lemma remove_frame:
  assumes "plist st (us @ x # vs)" and "y \<notin> set (us @ x # vs)"
  shows "snd (procman_remove x st) y = snd st y"
proof -
  obtain pm ps where st: "st = (pm, ps)" by (cases st)
  let ?n = "pr_next (ps x)" and ?p = "pr_prev (ps x)"
  have n: "?n = first vs 0" "?p = final 0 us" using plist_at [OF assms(1)] by (simp_all add: st)
  then have "?n \<noteq> 0 \<Longrightarrow> ?n \<in> set vs" "?p \<noteq> 0 \<Longrightarrow> ?p \<in> set us"
    using first_in [of vs 0] final_in [of 0 us] by auto
  moreover have "x \<notin> set us" "x \<notin> set vs" using assms(1) by (auto simp: plist_def dll_def)
  ultimately have ne: "y \<noteq> x" "?n \<noteq> 0 \<Longrightarrow> ?n \<noteq> y" "?p \<noteq> 0 \<Longrightarrow> ?p \<noteq> y" "?p \<noteq> 0 \<Longrightarrow> ?p \<noteq> x"
    using assms(2) by auto
  define ps1 where "ps1 = (if ?p \<noteq> 0 then upd_ps ?p (\<lambda>z. z\<lparr>pr_next := ?n\<rparr>) ps else ps)"
  have ps1: "ps1 x = ps x" "ps1 y = ps y" using ne by (auto simp: ps1_def upd_ps_def)
  have "snd (procman_remove x (pm, ps)) = upd_ps x (\<lambda>z. z\<lparr>pr_next := 0, pr_prev := 0\<rparr>)
      (if ?n \<noteq> 0 then upd_ps ?n (\<lambda>z. z\<lparr>pr_prev := ?p\<rparr>) ps1 else ps1)"
  proof (cases "?p = 0")
    case False
    then have "upd_ps ?p f ps x = ps x" for f using ne(4) by (simp add: upd_ps_def)
    then show ?thesis using False by (simp add: procman_remove_def Let_def ps1_def)
  qed (simp add: procman_remove_def Let_def ps1_def)
  then show ?thesis using ne(1,2) ps1(2) by (cases "?n = 0") (auto simp: st upd_ps_def)
qed

text \<open>Fields other than the links are not written by the list operations.\<close>

definition unlinked :: "process_t \<Rightarrow> process_t" where
  "unlinked x = x\<lparr>pr_next := 0, pr_prev := 0\<rparr>"

lemma unlinked_simps [simp]:
  "unlinked (x\<lparr>pr_next := a\<rparr>) = unlinked x" "unlinked (x\<lparr>pr_prev := b\<rparr>) = unlinked x"
  by (simp_all add: unlinked_def)

lemma unlinked_upd_ps [simp]: "(\<And>x. unlinked (f x) = unlinked x) \<Longrightarrow> unlinked (upd_ps p f ps y) = unlinked (ps y)"
  by (simp add: upd_ps_def)

lemma append_fields: "unlinked (snd (procman_append x st) y) = unlinked (snd st y)"
  by (cases st) (simp add: procman_append_def Let_def)

lemma remove_fields: "unlinked (snd (procman_remove x st) y) = unlinked (snd st y)"
  by (cases st) (simp add: procman_remove_def Let_def)

lemma unlinked_eq:
  "unlinked y = unlinked x \<Longrightarrow> pr_flags y = pr_flags x \<and> pr_ticks y = pr_ticks x \<and> pr_id y = pr_id x \<and>
     pr_context y = pr_context x \<and> pr_frame y = pr_frame x \<and> pr_stack y = pr_stack x"
  unfolding unlinked_def by (cases x, cases y) simp

lemma append_current [simp]: "pm_current (fst (procman_append x st)) = pm_current (fst st)"
  and append_count [simp]: "pm_count (fst (procman_append x st)) = pm_count (fst st)"
  by (cases st, simp add: procman_append_def Let_def)+

lemma remove_current [simp]:
  "pm_current (fst (procman_remove x st)) = (if pm_current (fst st) = x then 0 else pm_current (fst st))"
  and remove_count [simp]: "pm_count (fst (procman_remove x st)) = pm_count (fst st)"
  by (cases st, simp add: procman_remove_def Let_def)+

lemma plist_cong:
  assumes "\<And>x. x \<in> set xs \<Longrightarrow> same_links (snd st x) (snd st' x)" and "pl_head st' = pl_head st" "pl_tail st' = pl_tail st"
  shows "plist st xs \<longleftrightarrow> plist st' xs"
  using dll_cong [of xs "pl_next st" "pl_next st'" "pl_prev st" "pl_prev st'" 0 "pl_head st" "pl_tail st"] assms
  by (auto simp: plist_def pl_next_def pl_prev_def same_links_def)

section \<open>Both lists\<close>

abbreviation active_state :: "kernel \<Rightarrow> plist_state" where
  "active_state k \<equiv> (sc_active (k_sched k), k_procs k)"

abbreviation inactive_state :: "kernel \<Rightarrow> plist_state" where
  "inactive_state k \<equiv> (sc_inactive (k_sched k), k_procs k)"

definition sched_lists :: "kernel \<Rightarrow> u32 list \<Rightarrow> u32 list \<Rightarrow> bool" where
  "sched_lists k xs ys \<longleftrightarrow> plist (active_state k) xs \<and> plist (inactive_state k) ys \<and> set xs \<inter> set ys = {} \<and>
     (scheduler_current k = 0 \<or> scheduler_current k \<in> set xs)"

lemma on_active_simps [simp]:
  "k_procs (on_active f k) = snd (f (active_state k))" "sc_active (k_sched (on_active f k)) = fst (f (active_state k))"
  "sc_inactive (k_sched (on_active f k)) = sc_inactive (k_sched k)"
  "k_heap (on_active f k) = k_heap k" "k_mm (on_active f k) = k_mm k" "k_ram (on_active f k) = k_ram k"
  by (simp_all add: on_active_def split: prod.splits)

lemma on_inactive_simps [simp]:
  "k_procs (on_inactive f k) = snd (f (inactive_state k))" "sc_inactive (k_sched (on_inactive f k)) = fst (f (inactive_state k))"
  "sc_active (k_sched (on_inactive f k)) = sc_active (k_sched k)"
  "k_heap (on_inactive f k) = k_heap k" "k_mm (on_inactive f k) = k_mm k" "k_ram (on_inactive f k) = k_ram k"
  by (simp_all add: on_inactive_def split: prod.splits)

lemma plist_other:
  assumes "plist (pm, ps) xs" and "\<And>x. x \<in> set xs \<Longrightarrow> ps' x = ps x"
  shows "plist (pm, ps') xs"
  using assms plist_cong [of xs "(pm, ps)" "(pm, ps')"] by (simp add: same_links_def pl_defs)

lemma active_append:
  assumes "sched_lists k xs ys" and "p \<noteq> 0" "p \<notin> set xs" "p \<notin> set ys"
  shows "sched_lists (on_active (procman_append p) k) (xs @ [p]) ys"
proof -
  have x: "plist (active_state k) xs" and y: "plist (inactive_state k) ys" and d: "set xs \<inter> set ys = {}"
    using assms(1) by (simp_all add: sched_lists_def)
  have "plist (sc_inactive (k_sched k), snd (procman_append p (active_state k))) ys"
    by (rule plist_other [OF y], rule append_frame [OF x, simplified]) (use assms(4) d in auto)
  then show ?thesis
    using plist_append [OF x assms(2,3)] assms by (auto simp: sched_lists_def scheduler_current_def)
qed

lemma inactive_append:
  assumes "sched_lists k xs ys" and "p \<noteq> 0" "p \<notin> set xs" "p \<notin> set ys"
  shows "sched_lists (on_inactive (procman_append p) k) xs (ys @ [p])"
proof -
  have x: "plist (active_state k) xs" and y: "plist (inactive_state k) ys" and d: "set xs \<inter> set ys = {}"
    using assms(1) by (simp_all add: sched_lists_def)
  have "plist (sc_active (k_sched k), snd (procman_append p (inactive_state k))) xs"
    by (rule plist_other [OF x], rule append_frame [OF y, simplified]) (use assms(3) d in auto)
  then show ?thesis
    using plist_append [OF y assms(2,4)] assms by (auto simp: sched_lists_def scheduler_current_def)
qed

lemma active_remove:
  assumes "sched_lists k (us @ p # vs) ys"
  shows "sched_lists (on_active (procman_remove p) k) (us @ vs) ys"
proof -
  have x: "plist (active_state k) (us @ p # vs)" and y: "plist (inactive_state k) ys"
    and d: "set (us @ p # vs) \<inter> set ys = {}"
    using assms by (simp_all add: sched_lists_def)
  have "plist (sc_inactive (k_sched k), snd (procman_remove p (active_state k))) ys"
    by (rule plist_other [OF y], rule remove_frame [OF x, unfolded snd_conv]) (use d in auto)
  then show ?thesis
    using plist_remove [OF x] assms by (auto simp: sched_lists_def scheduler_current_def)
qed

lemma inactive_remove:
  assumes "sched_lists k xs (us @ p # vs)"
  shows "sched_lists (on_inactive (procman_remove p) k) xs (us @ vs)"
proof -
  have x: "plist (active_state k) xs" and y: "plist (inactive_state k) (us @ p # vs)"
    and d: "set xs \<inter> set (us @ p # vs) = {}"
    using assms by (simp_all add: sched_lists_def)
  have "plist (sc_active (k_sched k), snd (procman_remove p (inactive_state k))) xs"
    by (rule plist_other [OF x], rule remove_frame [OF y, unfolded snd_conv]) (use d in auto)
  then show ?thesis
    using plist_remove [OF y] assms by (auto simp: sched_lists_def scheduler_current_def)
qed

end
