(* ===== verification/Sched_Switch.thy ===== *)
theory Sched_Switch
  imports Sched_Lists
begin

text \<open>
  \<^verbatim>\<open>scheduler_switch\<close> is a round robin: the abstract scheduler is a queue of processes with the running
  one in front and the number of ticks each has had. A tick adds to the front process, and after
  the second tick moves it behind all others. The timer interrupt of the code refines it.
\<close>

section \<open>The abstract scheduler\<close>

type_synonym rr = "u32 list \<times> (u32 \<Rightarrow> u32)"

definition rr_tick :: "rr \<Rightarrow> rr" where
  "rr_tick s = (case s of (q, t) \<Rightarrow> (case q of [] \<Rightarrow> s
     | p # ps \<Rightarrow> if t p + 1 < 2 then (q, t(p := t p + 1)) else (ps @ [p], t(p := 0))))"

text \<open>A list turned so that \<open>c\<close> is in front.\<close>

definition turned :: "u32 list \<Rightarrow> u32 \<Rightarrow> u32 list" where
  "turned xs c = dropWhile (\<lambda>x. x \<noteq> c) xs @ takeWhile (\<lambda>x. x \<noteq> c) xs"

lemma turned_split: "c \<notin> set us \<Longrightarrow> turned (us @ c # vs) c = c # vs @ us"
proof -
  assume "c \<notin> set us"
  then have "\<And>x. x \<in> set us \<Longrightarrow> x \<noteq> c" by blast
  then have "takeWhile (\<lambda>x. x \<noteq> c) (us @ c # vs) = us" "dropWhile (\<lambda>x. x \<noteq> c) (us @ c # vs) = c # vs"
    by (simp_all add: takeWhile_append2 dropWhile_append2)
  then show ?thesis by (simp add: turned_def)
qed

lemma turned_length [simp]: "length (turned xs c) = length xs"
proof -
  have "length (takeWhile (\<lambda>x. x \<noteq> c) xs @ dropWhile (\<lambda>x. x \<noteq> c) xs) = length xs"
    by (simp only: takeWhile_dropWhile_id)
  then show ?thesis by (simp only: turned_def length_append add.commute)
qed

lemma turned_set [simp]: "set (turned xs c) = set xs"
proof -
  have "set (takeWhile (\<lambda>x. x \<noteq> c) xs @ dropWhile (\<lambda>x. x \<noteq> c) xs) = set xs"
    by (simp only: takeWhile_dropWhile_id)
  then show ?thesis by (simp only: turned_def set_append Un_commute)
qed

text \<open>The process that follows in the list, back at the front behind the last one.\<close>

lemma turned_next:
  assumes "distinct (us @ c # vs)"
  shows "turned (us @ c # vs) (if vs = [] then first (us @ [c]) 0 else hd vs) = vs @ us @ [c]"
proof (cases vs)
  case Nil
  then show ?thesis using turned_split [of "hd us" "[]" "tl us @ [c]"] turned_split [of c "[]" "[]"] by (cases us) simp_all
next
  case (Cons v ws)
  then have "v \<notin> set (us @ [c])" using assms by auto
  from turned_split [OF this, of ws] show ?thesis using Cons by simp
qed

section \<open>The representation\<close>

text \<open>The process that a tick counts for: the current one, or the first one if there is none.\<close>

definition running :: "kernel \<Rightarrow> u32" where
  "running k = (if scheduler_current k = 0 then scheduler_head k else scheduler_current k)"

definition rr_abs :: "kernel \<Rightarrow> u32 list \<Rightarrow> rr" where
  "rr_abs k xs = (turned xs (running k), \<lambda>p. pr_ticks (k_procs k p))"

lemma set_current_simps [simp]:
  "scheduler_current (set_current p k) = p" "scheduler_head (set_current p k) = scheduler_head k"
  "k_procs (set_current p k) = k_procs k" "sc_inactive (k_sched (set_current p k)) = sc_inactive (k_sched k)"
  "k_heap (set_current p k) = k_heap k" "k_mm (set_current p k) = k_mm k" "k_ram (set_current p k) = k_ram k"
  by (simp_all add: set_current_def scheduler_current_def scheduler_head_def)

lemma upd_proc_current [simp]:
  "scheduler_current (upd_proc p f k) = scheduler_current k" "scheduler_head (upd_proc p f k) = scheduler_head k"
  by (simp_all add: scheduler_current_def scheduler_head_def)

lemma sched_lists_head: "sched_lists k xs ys \<Longrightarrow> scheduler_head k = first xs 0"
  using plist_ends [of "active_state k" xs] by (simp add: sched_lists_def scheduler_head_def)

lemma sched_lists_active:
  "sched_lists k xs ys \<Longrightarrow> distinct xs" "sched_lists k xs ys \<Longrightarrow> p \<in> set xs \<Longrightarrow> p \<noteq> 0"
  using plist_distinct plist_nonzero unfolding sched_lists_def by blast+

text \<open>Writing fields other than the links, and moving \<^verbatim>\<open>current\<close>, keeps the lists.\<close>

lemma sched_lists_upd:
  assumes "sched_lists k xs ys" and "\<And>x. pr_next (f x) = pr_next x \<and> pr_prev (f x) = pr_prev x"
  shows "sched_lists (upd_proc p f k) xs ys"
proof -
  have "plist (pm, k_procs (upd_proc p f k)) zs \<longleftrightarrow> plist (pm, k_procs k) zs" for pm zs
    by (rule plist_cong) (simp_all add: same_links_def pl_defs assms(2))
  then show ?thesis using assms(1) by (simp add: sched_lists_def)
qed

lemma sched_lists_current:
  assumes "sched_lists k xs ys" and "c = 0 \<or> c \<in> set xs"
  shows "sched_lists (set_current c k) xs ys"
proof -
  have "plist (active_state (set_current c k)) xs \<longleftrightarrow> plist (active_state k) xs"
    by (rule plist_cong) (simp_all add: same_links_def pl_defs set_current_def)
  then show ?thesis using assms by (simp add: sched_lists_def)
qed

lemma running_in: "sched_lists k xs ys \<Longrightarrow> xs \<noteq> [] \<Longrightarrow> running k \<in> set xs"
  using sched_lists_head [of k xs ys] by (auto simp: running_def sched_lists_def first_def)

section \<open>One tick\<close>

lemma process_update_eq:
  assumes "p \<noteq> 0"
  shows "process_update p k = (if pr_ticks (k_procs k p) + 1 < 2
    then (False, upd_proc p (\<lambda>x. x\<lparr>pr_ticks := pr_ticks x + 1\<rparr>) k)
    else (True, upd_proc p (\<lambda>x. x\<lparr>pr_ticks := 0\<rparr>) k))"
  using assms by (simp add: process_update_def Let_def upd_proc_def)

text \<open>The tick in terms of the running process and the one that follows it.\<close>

lemma scheduler_switch_eq:
  assumes "sched_lists k (us @ c # vs) ys" and "c = running k"
  shows "scheduler_switch out k = (if pr_ticks (k_procs k c) + 1 < 2
    then (False, (0, 0), set_current c (upd_proc c (\<lambda>x. x\<lparr>pr_ticks := pr_ticks x + 1\<rparr>) k))
    else let n = (if vs = [] then first (us @ [c]) 0 else hd vs) in
      (n \<noteq> c, (c, n), set_current n (upd_proc c (\<lambda>x. x\<lparr>pr_ticks := 0\<rparr>) k)))"
proof -
  have l: "plist (active_state k) (us @ c # vs)" using assms(1) by (simp add: sched_lists_def)
  have c: "c \<noteq> 0" and nv: "0 \<notin> set vs" using l by (auto simp: plist_def dll_def)
  have head: "scheduler_head k = first (us @ [c]) 0" using sched_lists_head [OF assms(1)] by simp
  have hne: "scheduler_head k \<noteq> 0" using plist_nonzero [OF l] unfolding head by (cases us) auto
  have nxt: "pr_next (k_procs k c) = first vs 0" using plist_at(1) [OF l] by simp
  define n where "n = (if vs = [] then first (us @ [c]) 0 else hd vs)"
  have next_eq: "first vs 0 \<noteq> 0 \<Longrightarrow> first vs 0 = n" "first vs 0 = 0 \<Longrightarrow> scheduler_head k = n"
    using nv head by (cases vs; force simp: n_def)+
  define k1 where "k1 = set_current c k"
  have k1: "(if scheduler_current k = 0 then set_current (scheduler_head k) k else k) = k1"
    using assms(2) by (auto simp: k1_def running_def set_current_def scheduler_current_def)
  have sc: "set_current m (set_current c k') = set_current m k'" for m k'
    by (simp add: set_current_def)
  have cur: "upd_proc c f k1 = set_current c (upd_proc c f k)" for f
    by (simp add: k1_def set_current_def upd_proc_def)
  have pc: "scheduler_current k1 = c" "k_procs k1 = k_procs k" "scheduler_head k1 = scheduler_head k"
    by (simp_all add: k1_def)
  have "scheduler_switch out k = (if pr_ticks (k_procs k c) + 1 < 2
    then (False, (0, 0), set_current c (upd_proc c (\<lambda>x. x\<lparr>pr_ticks := pr_ticks x + 1\<rparr>) k))
    else (n \<noteq> c, (c, n), set_current n (upd_proc c (\<lambda>x. x\<lparr>pr_ticks := 0\<rparr>) k)))"
    using hne by (cases "pr_ticks (k_procs k c) + 1 < 2")
      (simp_all add: scheduler_switch_def k1 Let_def pc process_update_eq [OF c] cur sc nxt next_eq)
  then show ?thesis by (simp only: n_def Let_def)
qed

section \<open>The timer tick\<close>

text \<open>What the timer interrupt does to the kernel.\<close>

definition tick :: "kernel \<Rightarrow> kernel" where
  "tick k = snd (snd (scheduler_switch (0, 0) k))"

lemma switch_empty: "sched_lists k [] ys \<Longrightarrow> scheduler_switch out k = (False, out, k)"
  using sched_lists_head [of k "[]" ys] by (simp add: scheduler_switch_def sched_lists_def)

lemma running_split:
  assumes "sched_lists k xs ys" and "xs \<noteq> []"
  obtains us vs where "xs = us @ running k # vs" and "running k \<notin> set us" and "running k \<noteq> 0"
  using split_list_first [OF running_in [OF assms]] sched_lists_active(2) [OF assms(1) running_in [OF assms]] by blast

lemma rr_abs_set_current:
  assumes "c \<noteq> 0"
  shows "rr_abs (set_current c k) xs = (turned xs c, \<lambda>p. pr_ticks (k_procs k p))"
  using assms by (simp add: rr_abs_def running_def)

lemma ticks_upd: "(\<lambda>q. pr_ticks (k_procs (upd_proc p f k) q)) = (\<lambda>q. pr_ticks (k_procs k q))(p := pr_ticks (f (k_procs k p)))"
  by (simp add: fun_eq_iff)

lemma switch_refines:
  assumes "sched_lists k xs ys" and "scheduler_switch out k = (sw, (cur, nxt), k')"
  shows "sched_lists k' xs ys \<and> rr_abs k' xs = rr_tick (rr_abs k xs) \<and>
    (sw \<longrightarrow> cur = hd (fst (rr_abs k xs)) \<and> nxt = hd (fst (rr_abs k' xs)) \<and> cur \<noteq> nxt) \<and>
    (\<not> sw \<longrightarrow> fst (rr_abs k' xs) = fst (rr_abs k xs)) \<and> (xs \<noteq> [] \<longrightarrow> scheduler_current k' \<noteq> 0)"
proof (cases "xs = []")
  case True
  then show ?thesis using assms switch_empty [of k ys out] by (simp add: rr_tick_def rr_abs_def turned_def)
next
  case False
  obtain us vs where xs: "xs = us @ running k # vs" and us: "running k \<notin> set us" and c0: "running k \<noteq> 0"
    using running_split [OF assms(1) False] .
  define c where "c = running k"
  define n where "n = (if vs = [] then first (us @ [c]) 0 else hd vs)"
  have sl: "sched_lists k (us @ c # vs) ys" using assms(1) xs by (simp add: c_def)
  note sw = scheduler_switch_eq [OF sl c_def, of out]
  have q: "rr_abs k xs = (c # vs @ us, \<lambda>p. pr_ticks (k_procs k p))"
    unfolding rr_abs_def using us turned_split xs by (simp add: c_def)
  have dist: "distinct (us @ c # vs)" using sched_lists_active(1) [OF sl] .
  have nin: "n \<in> set xs" unfolding xs n_def c_def by (cases us; cases vs) auto
  have n0: "n \<noteq> 0" using sched_lists_active(2) [OF assms(1) nin] .
  have l: "sched_lists (set_current m (upd_proc c f k)) xs ys"
    if "m \<in> set xs" "\<And>x. pr_next (f x) = pr_next x \<and> pr_prev (f x) = pr_prev x" for m f
    using that by (intro sched_lists_current sched_lists_upd assms(1)) auto
  show ?thesis
  proof (cases "pr_ticks (k_procs k c) + 1 < 2")
    case True
    then have k': "k' = set_current c (upd_proc c (\<lambda>x. x\<lparr>pr_ticks := pr_ticks x + 1\<rparr>) k)" and "\<not> sw"
      using sw assms(2) by simp_all
    moreover have "turned xs c = c # vs @ us" using q by (simp add: rr_abs_def c_def)
    ultimately show ?thesis
      using True c0 l [of c] q unfolding k' rr_abs_set_current [OF c0 [folded c_def]] ticks_upd
      by (simp add: rr_tick_def c_def [symmetric]) (simp add: xs c_def)
  next
    case False
    then have k': "k' = set_current n (upd_proc c (\<lambda>x. x\<lparr>pr_ticks := 0\<rparr>) k)" and r: "sw = (n \<noteq> c)" "cur = c" "nxt = n"
      using sw assms(2) by (simp_all add: n_def Let_def)
    have t: "turned xs n = vs @ us @ [c]" using turned_next [OF dist] by (simp add: xs c_def n_def)
    have hd: "hd (vs @ us @ [c]) = n" by (cases vs; cases us) (simp_all add: n_def)
    have same: "vs @ us @ [c] = c # vs @ us" if "n = c"
    proof -
      have "vs = []" using that dist by (cases vs) (auto simp: n_def)
      moreover have "us = []" using that dist \<open>vs = []\<close> by (cases us) (auto simp: n_def)
      ultimately show ?thesis by simp
    qed
    show ?thesis
      using False n0 l [OF nin] hd same
      unfolding k' r rr_abs_set_current [OF n0] ticks_upd q t by (auto simp: rr_tick_def)
  qed
qed

lemma tick_refines:
  assumes "sched_lists k xs ys"
  shows "sched_lists (tick k) xs ys" "rr_abs (tick k) xs = rr_tick (rr_abs k xs)"
    "xs \<noteq> [] \<Longrightarrow> scheduler_current (tick k) \<noteq> 0"
  using switch_refines [OF assms] by (cases "scheduler_switch (0, 0) k"; force simp: tick_def)+

interpretation tick: refinement tick rr_tick "\<lambda>k. sched_lists k xs ys" "\<lambda>k. rr_abs k xs" for xs ys
  by unfold_locales (simp_all add: tick_refines)

section \<open>Every process runs\<close>

lemma less_two: "(x :: u32) < 2 \<longleftrightarrow> x = 0 \<or> x = 1"
  by (auto simp: word_less_nat_alt word_unat_eq_iff)

text \<open>One or two ticks take the front process away.\<close>

lemma rr_turn:
  assumes "t p < 2"
  shows "\<exists>n \<le> 2. (rr_tick ^^ n) (p # ps, t) = (ps @ [p], t(p := 0))"
proof (cases "t p = 0")
  case True
  then have "(rr_tick ^^ 2) (p # ps, t) = (ps @ [p], t(p := 0))" by (simp add: numeral_2_eq_2 rr_tick_def)
  then show ?thesis by blast
next
  case False
  then have "t p = 1" using assms by (simp add: less_two)
  then have "(rr_tick ^^ 1) (p # ps, t) = (ps @ [p], t(p := 0))" by (simp add: rr_tick_def)
  then show ?thesis by (intro exI [of _ 1]) simp
qed

lemma rr_reaches:
  assumes "\<forall>q \<in> set ps. t q < 2" and "i < length ps"
  shows "\<exists>n \<le> 2 * i. hd (fst ((rr_tick ^^ n) (ps, t))) = ps ! i"
  using assms
proof (induction i arbitrary: ps t)
  case 0
  then show ?case by (intro exI [of _ 0]) (simp add: hd_conv_nth)
next
  case (Suc i)
  then obtain p qs where ps: "ps = p # qs" by (cases ps) auto
  obtain m where m: "m \<le> 2" "(rr_tick ^^ m) (ps, t) = (qs @ [p], t(p := 0))"
    using rr_turn [of t p qs] Suc.prems(1) ps by auto
  have "\<forall>q \<in> set (qs @ [p]). (t(p := 0)) q < 2" "i < length (qs @ [p])" using Suc.prems ps by auto
  from Suc.IH [OF this] obtain n where n: "n \<le> 2 * i" "hd (fst ((rr_tick ^^ n) (qs @ [p], t(p := 0)))) = (qs @ [p]) ! i"
    by blast
  have "(rr_tick ^^ (n + m)) (ps, t) = (rr_tick ^^ n) (qs @ [p], t(p := 0))" using m(2) by (simp add: funpow_add)
  moreover have "(qs @ [p]) ! i = ps ! Suc i" using Suc.prems(2) ps by (simp add: nth_append)
  ultimately show ?case using m(1) n by (intro exI [of _ "n + m"]) simp
qed

lemma current_in_front:
  assumes "sched_lists k xs ys" and "scheduler_current k \<noteq> 0"
  shows "hd (fst (rr_abs k xs)) = scheduler_current k"
proof -
  have "scheduler_current k \<in> set xs" using assms by (simp add: sched_lists_def)
  then obtain us vs where "xs = us @ scheduler_current k # vs" "scheduler_current k \<notin> set us"
    using split_list_first by metis
  then show ?thesis using assms(2) turned_split by (simp add: rr_abs_def running_def)
qed

lemma current_stays:
  assumes "sched_lists k xs ys" and "scheduler_current k \<noteq> 0"
  shows "scheduler_current ((tick ^^ n) k) \<noteq> 0"
proof (cases n)
  case (Suc m)
  have "xs \<noteq> []" using assms by (auto simp: sched_lists_def)
  then show ?thesis using Suc tick_refines(3) [OF tick.keeps_steps [OF assms(1)]] by simp
qed (simp add: assms(2))

section \<open>Properties\<close>

text \<open>A small kernel: three active processes, one of them current, and one inactive.\<close>

definition plain_process :: "u32 \<Rightarrow> u32 \<Rightarrow> u32 \<Rightarrow> u32 \<Rightarrow> process_t" where
  "plain_process flags ticks nxt prv = \<lparr>pr_context = zero_context, pr_frame = \<lparr>fr_eip = 0, fr_cs = 0, fr_eflags = 0\<rparr>,
     pr_id = 0, pr_entry = 0, pr_flags = flags, pr_path = 0, pr_vmm = zero_vmm, pr_heap = small_heap, pr_exe = 0,
     pr_exe_size = 0, pr_stack = 0, pr_ticks = ticks, pr_next = nxt, pr_prev = prv\<rparr>"

definition demo_kernel :: kernel where
  "demo_kernel = \<lparr>
     k_sched = \<lparr>sc_active = \<lparr>pm_head = 0x100, pm_tail = 0x300, pm_current = 0x200, pm_count = 3\<rparr>,
                sc_inactive = \<lparr>pm_head = 0x400, pm_tail = 0x400, pm_current = 0, pm_count = 0\<rparr>\<rparr>,
     k_procs = (\<lambda>_. plain_process 1 0 0 0)
       (0x100 := plain_process 1 0 0x200 0, 0x200 := plain_process 1 1 0x300 0x100,
        0x300 := plain_process 1 0 0 0x200, 0x400 := plain_process (0x11 OR PROC_FLAG_CREATE) 0 0 0),
     k_heap = small_heap, k_mm = (eight_pages, six_pages, pg_empty 0x300000), k_ram = (\<lambda>_. 0)\<rparr>"

lemma demo_lists: "sched_lists demo_kernel [0x100, 0x200, 0x300] [0x400]"
  by (simp add: sched_lists_def plist_def dll_def pl_defs demo_kernel_def plain_process_def scheduler_current_def)

text \<open>
  C16: the timer interrupt refines a round robin queue. With the process lists well formed,
  \<^verbatim>\<open>scheduler_switch\<close> keeps them, and takes the queue of active processes, turned so that the running
  one is in front, to the queue after one tick of the abstract scheduler. It asks for a switch exactly
  when another process comes to the front, and then reports the two.
\<close>

theorem scheduler_switch_round_robin:
  assumes "sched_lists k xs ys" and "scheduler_switch out k = (sw, (cur, nxt), k')"
  shows "sched_lists k' xs ys \<and> rr_abs k' xs = rr_tick (rr_abs k xs) \<and>
    (sw \<longrightarrow> cur = hd (fst (rr_abs k xs)) \<and> nxt = hd (fst (rr_abs k' xs)) \<and> cur \<noteq> nxt) \<and>
    (\<not> sw \<longrightarrow> fst (rr_abs k' xs) = fst (rr_abs k xs))"
  using switch_refines [OF assms] by blast

theorem scheduler_switch_round_robin_witness:
  "\<exists>sw out k'. scheduler_switch (0, 0) demo_kernel = (sw, out, k') \<and>
     fst (rr_abs k' [0x100, 0x200, 0x300]) = [0x300, 0x100, 0x200]"
proof -
  obtain sw cur nxt k' where r: "scheduler_switch (0, 0) demo_kernel = (sw, (cur, nxt), k')"
    by (metis prod.collapse)
  moreover have "rr_abs demo_kernel [0x100, 0x200, 0x300] = ([0x200, 0x300, 0x100], \<lambda>p. pr_ticks (k_procs demo_kernel p))"
    by (simp add: rr_abs_def running_def turned_def demo_kernel_def scheduler_current_def)
  moreover have "pr_ticks (k_procs demo_kernel 0x200) = 1" by (simp add: demo_kernel_def plain_process_def)
  ultimately show ?thesis
    using scheduler_switch_round_robin [OF demo_lists r] by (auto simp: rr_tick_def)
qed

text \<open>
  C18: no active process waits for ever: as long as the lists do not change, every one of them is the
  current process after at most two ticks for each of the others.
\<close>

theorem scheduler_switch_fair:
  assumes "sched_lists k xs ys" and "scheduler_current k \<noteq> 0" and "\<forall>q \<in> set xs. pr_ticks (k_procs k q) < 2"
    and "p \<in> set xs"
  shows "\<exists>n \<le> 2 * (length xs - 1). scheduler_current ((tick ^^ n) k) = p"
proof -
  let ?q = "turned xs (running k)" and ?t = "\<lambda>p. pr_ticks (k_procs k p)"
  obtain i where i: "i < length xs" "?q ! i = p" using assms(4) by (metis in_set_conv_nth turned_length turned_set)
  then obtain n where n: "n \<le> 2 * i" "hd (fst ((rr_tick ^^ n) (?q, ?t))) = p"
    using rr_reaches [of ?q ?t i] assms(3) by auto
  have "hd (fst (rr_abs ((tick ^^ n) k) xs)) = p"
    using tick.commutes_steps [OF assms(1), of n] n(2) by (simp add: rr_abs_def)
  then have "scheduler_current ((tick ^^ n) k) = p"
    using current_in_front [OF tick.keeps_steps [OF assms(1)] current_stays [OF assms(1,2)]] by metis
  then show ?thesis using n(1) i(1) by (intro exI [of _ n]) simp
qed

theorem scheduler_switch_fair_witness:
  "\<exists>n \<le> 4. scheduler_current ((tick ^^ n) demo_kernel) = 0x100"
proof -
  have "scheduler_current demo_kernel \<noteq> 0" "\<forall>q \<in> set [0x100, 0x200, 0x300]. pr_ticks (k_procs demo_kernel q) < 2"
    by (simp_all add: demo_kernel_def plain_process_def scheduler_current_def)
  from scheduler_switch_fair [OF demo_lists this, of "0x100"] show ?thesis by simp
qed

end
