(* ===== verification/Sched_Steps.thy ===== *)
theory Sched_Steps
  imports Sched_Switch
begin

text \<open>
  The scheduler under interrupts. The list operations run with interrupts disabled, and everything
  between them can be interrupted by the timer and by other processes. So the handlers of
  \<^verbatim>\<open>scheduler.c\<close> are cut into the parts between which another process can run, and the machine runs the
  parts of any number of handlers in any order, with timer ticks and other work in between. The state
  records for each process that a handler works on how far the handler is, and which processes exist.

  Two things are left to the callers, because the code does not see to them: a handler is started only on a
  process that no other handler works on, and only active processes are unloaded. \<^verbatim>\<open>proc_deregister\<close> checks
  the kill flag before its critical sections and sets it after them, so without the first two handlers can
  unload one process; what happens then is \<open>unload_inactive_process_loses_active\<close> in \<open>Sched_Correct\<close>.
\<close>

section \<open>Lists and work beside them\<close>

text \<open>A process is on a list if the \<^verbatim>\<open>next\<close> pointers lead to it from the head.\<close>

inductive follows :: "(u32 \<Rightarrow> process_t) \<Rightarrow> u32 \<Rightarrow> u32 \<Rightarrow> bool" for ps h where
  follows_head: "h \<noteq> 0 \<Longrightarrow> follows ps h h"
| follows_next: "follows ps h p \<Longrightarrow> pr_next (ps p) \<noteq> 0 \<Longrightarrow> follows ps h (pr_next (ps p))"

definition on_list :: "plist_state \<Rightarrow> u32 \<Rightarrow> bool" where
  "on_list st p \<longleftrightarrow> follows (snd st) (pm_head (fst st)) p"

text \<open>Work beside the lists: their ends, the current process and all links stay.\<close>

definition same_procman :: "procman_t \<Rightarrow> procman_t \<Rightarrow> bool" where
  "same_procman a b \<longleftrightarrow> pm_head b = pm_head a \<and> pm_tail b = pm_tail a \<and> pm_current b = pm_current a"

definition quiet :: "kernel \<Rightarrow> kernel \<Rightarrow> bool" where
  "quiet k k' \<longleftrightarrow> same_procman (sc_active (k_sched k)) (sc_active (k_sched k')) \<and>
     same_procman (sc_inactive (k_sched k)) (sc_inactive (k_sched k')) \<and>
     (\<forall>p. same_links (k_procs k p) (k_procs k' p))"

lemma follows_iff:
  assumes "plist st xs"
  shows "follows (snd st) (pm_head (fst st)) p \<longleftrightarrow> p \<in> set xs"
proof
  have head: "pm_head (fst st) = first xs 0" using plist_ends [OF assms] by simp
  show "p \<in> set xs" if "follows (snd st) (pm_head (fst st)) p"
    using that
  proof induction
    case follows_head
    then show ?case using head first_in [of xs 0] by simp
  next
    case (follows_next p)
    then obtain us vs where xs: "xs = us @ p # vs" using split_list by metis
    then show ?case using plist_at(1) [of st us p vs] assms follows_next.hyps first_in [of vs 0] by auto
  qed
  show "follows (snd st) (pm_head (fst st)) p" if "p \<in> set xs"
  proof -
    have "follows (snd st) (pm_head (fst st)) p" if "xs = us @ p # vs" for us vs p
      using that
    proof (induction us arbitrary: p vs rule: rev_induct)
      case Nil
      then show ?case using head plist_nonzero [OF assms, of p] by (auto intro: follows_head)
    next
      case (snoc q us)
      then have "follows (snd st) (pm_head (fst st)) q" by simp
      moreover have "pr_next (snd st q) = p" using plist_at(1) [of st us q "p # vs"] assms snoc.prems by simp
      moreover have "p \<noteq> 0" using plist_nonzero [OF assms, of p] snoc.prems by simp
      ultimately show ?case using follows_next by metis
    qed
    then show ?thesis using split_list [OF that] by blast
  qed
qed

lemma on_list_iff: "plist st xs \<Longrightarrow> on_list st p \<longleftrightarrow> p \<in> set xs"
  using follows_iff by (simp add: on_list_def)

lemma sched_lists_on:
  assumes "sched_lists k xs ys"
  shows "on_list (active_state k) p \<longleftrightarrow> p \<in> set xs" "on_list (inactive_state k) p \<longleftrightarrow> p \<in> set ys"
  using assms on_list_iff by (auto simp: sched_lists_def)

lemma sched_lists_quiet:
  assumes "sched_lists k xs ys" and "quiet k k'"
  shows "sched_lists k' xs ys"
proof -
  have "plist (active_state k) xs \<longleftrightarrow> plist (active_state k') xs" "plist (inactive_state k) ys \<longleftrightarrow> plist (inactive_state k') ys"
    using assms(2) by (intro plist_cong; simp add: quiet_def same_procman_def pl_defs)+
  moreover have "scheduler_current k' = scheduler_current k"
    using assms(2) by (simp add: quiet_def same_procman_def scheduler_current_def)
  ultimately show ?thesis using assms(1) by (simp add: sched_lists_def)
qed

text \<open>A process that is on no list can be rewritten freely.\<close>

lemma sched_lists_upd_other:
  assumes "sched_lists k xs ys" and "p \<notin> set xs" "p \<notin> set ys"
  shows "sched_lists (upd_proc p f k) xs ys"
proof -
  have "plist (pm, k_procs k) zs \<Longrightarrow> plist (pm, k_procs (upd_proc p f k)) zs" if "p \<notin> set zs" for pm zs
    using that by (elim plist_other) auto
  then show ?thesis using assms by (simp add: sched_lists_def)
qed

lemma quiet_refl [simp]: "quiet k k"
  by (simp add: quiet_def same_procman_def same_links_def)

lemma quiet_trans: "quiet k k' \<Longrightarrow> quiet k' k'' \<Longrightarrow> quiet k k''"
  by (simp add: quiet_def same_procman_def same_links_def)

lemma quiet_upd [intro]: "(\<And>x. pr_next (f x) = pr_next x \<and> pr_prev (f x) = pr_prev x) \<Longrightarrow> quiet k (upd_proc p f k)"
  by (simp add: quiet_def same_procman_def same_links_def)

text \<open>A change of memory and of fields that are not links.\<close>

definition tame :: "kernel \<Rightarrow> kernel \<Rightarrow> bool" where
  "tame k k' \<longleftrightarrow> k_sched k' = k_sched k \<and> (\<forall>p. same_links (k_procs k p) (k_procs k' p) \<and>
     pr_flags (k_procs k' p) = pr_flags (k_procs k p) \<and> pr_id (k_procs k' p) = pr_id (k_procs k p) \<and>
     pr_frame (k_procs k' p) = pr_frame (k_procs k p))"

lemma tame_quiet: "tame k k' \<Longrightarrow> quiet k k'"
  by (simp add: tame_def quiet_def same_procman_def)

lemma tame_refl [simp]: "tame k k"
  by (simp add: tame_def same_links_def)

lemma tame_trans: "tame k k' \<Longrightarrow> tame k' k'' \<Longrightarrow> tame k k''"
  by (simp add: tame_def same_links_def)

lemma tame_upd [intro]:
  "(\<And>x. same_links x (f x) \<and> pr_flags (f x) = pr_flags x \<and> pr_id (f x) = pr_id x \<and> pr_frame (f x) = pr_frame x) \<Longrightarrow>
   tame k (upd_proc p f k)"
  by (simp add: tame_def same_links_def)

lemma tame_mem [simp]: "tame k (k\<lparr>k_heap := h, k_mm := m\<rparr>)" "tame k (k\<lparr>k_ram := r\<rparr>)"
    "tame k (k\<lparr>k_mm := m, k_ram := r\<rparr>)" "tame k (k\<lparr>k_mm := m\<rparr>)"
  by (simp_all add: tame_def same_links_def)

lemma tame_malloc: "k_malloc sz k = Some (ptr, k') \<Longrightarrow> tame k k'"
  by (auto simp: k_malloc_def split: bind_splits)

lemma tame_free: "k_free ptr k = Some k' \<Longrightarrow> tame k k'"
  by (auto simp: k_free_def split: bind_splits)

lemma tame_setup_stack: "setup_stack p k = Some (ok, k') \<Longrightarrow> tame k k'"
proof (cases "pr_flags (k_procs k p) AND PROC_FLAG_STACK = 0")
  case True
  moreover assume "setup_stack p k = Some (ok, k')"
  ultimately show ?thesis by (auto simp: setup_stack_def same_links_def)
next
  case False
  assume "setup_stack p k = Some (ok, k')"
  then obtain stack k1 where m: "k_malloc DEFAULT_STACK k = Some (stack, k1)"
    and r: "tame k1 k'"
    using False by (auto simp: setup_stack_def Let_def tame_def same_links_def split: bind_splits if_splits)
  then show ?thesis using tame_trans [OF tame_malloc [OF m]] by blast
qed

lemma tame_setup_address_space: "setup_address_space ki p k = Some k' \<Longrightarrow> tame k k'"
  by (auto simp: setup_address_space_def same_links_def tame_def split: bind_splits if_splits)

lemma tame_vmm_init:
  assumes "vmm_init base lim k_malloc v k = Some (w, k')" and "base \<noteq> 0"
  shows "tame k k'"
  using assms by (auto simp: vmm_init_def Let_def split: bind_splits intro: tame_malloc)

lemma tame_setup_heap: "setup_heap p k = Some k' \<Longrightarrow> tame k k'"
  using tame_trans [OF tame_vmm_init] tame_upd
  by (auto simp: setup_heap_def UVIRT_def same_links_def split: bind_splits if_splits)

lemma tame_destroy_heap: "destroy_heap p k = Some k' \<Longrightarrow> tame k k'"
  by (auto simp: destroy_heap_def Let_def tame_def same_links_def split: bind_splits if_splits prod.splits)

lemma tame_destroy_stack: "destroy_stack p k = Some k' \<Longrightarrow> tame k k'"
  using tame_trans [OF tame_free] tame_upd
  by (auto simp: destroy_stack_def same_links_def split: bind_splits if_splits)

lemma tame_destroy_address_space: "destroy_address_space p k = Some k' \<Longrightarrow> tame k k'"
  by (auto simp: destroy_address_space_def split: bind_splits if_splits prod.splits)

lemma tame_destroy_exe: "destroy_exe p k = Some k' \<Longrightarrow> tame k k'"
  using tame_trans [OF tame_free] tame_upd
  by (auto simp: destroy_exe_def same_links_def split: bind_splits if_splits)

lemma tame_process_destroy: "process_destroy p k = Some k' \<Longrightarrow> tame k k'"
  by (auto simp: process_destroy_def split: if_splits intro: tame_free)

lemmas tame_handlers = tame_setup_stack tame_setup_address_space tame_setup_heap tame_destroy_heap
  tame_destroy_stack tame_destroy_address_space tame_destroy_exe tame_process_destroy

section \<open>The parts of the handlers\<close>

text \<open>\<^verbatim>\<open>create_proc\<close> up to its first list operation, false if there is no memory for the stack.\<close>

definition create_prepare :: "kimage \<Rightarrow> u32 \<Rightarrow> kernel \<Rightarrow> (bool \<times> kernel) option" where
  "create_prepare ki proc k =
    (let k = upd_proc proc (\<lambda>x. x\<lparr>pr_flags := pr_flags x AND NOT PROC_FLAG_CREATE\<rparr>) k;
         (code, stack, data) = proc_selectors ki (pr_flags (k_procs k proc));
         k = upd_proc proc (\<lambda>x. x\<lparr>pr_context := (pr_context x)\<lparr>cx_es := data, cx_ds := data, cx_fs := data,
               cx_gs := data, cx_ss := stack\<rparr>\<rparr>) k in do {
     (ok, k) \<leftarrow> setup_stack proc k;
     if \<not> ok then Some (False, k)
     else
       let n = pm_count (sc_active (k_sched k));
           k = upd_proc proc (\<lambda>x. x\<lparr>pr_frame := \<lparr>fr_eip = ki_startup_proc ki, fr_cs = code, fr_eflags = 0x202\<rparr>, pr_id := n\<rparr>) k;
           k = k\<lparr>k_sched := (k_sched k)\<lparr>sc_active := (sc_active (k_sched k))\<lparr>pm_count := n + 1\<rparr>\<rparr>\<rparr> in do {
       k \<leftarrow> setup_address_space ki proc k;
       k \<leftarrow> setup_heap proc k;
       Some (True, k) } })"

lemma create_proc_split:
  "create_proc ki p k = do {
     (ok, k) \<leftarrow> create_prepare ki p k;
     if ok then Some (pr_next (k_procs k p), on_active (procman_append p) (on_inactive (procman_remove p) k))
     else Some (0, k)
   }"
  unfolding create_proc_def create_prepare_def Let_def
  by (auto split: prod.splits Option.bind_splits intro!: Option.bind_cong simp: Option.bind_assoc)

text \<open>\<^verbatim>\<open>destroy_proc\<close> after its list operation.\<close>

definition destroy_release :: "u32 \<Rightarrow> kernel \<Rightarrow> kernel option" where
  "destroy_release proc k = do {
     k \<leftarrow> destroy_heap proc k;
     k \<leftarrow> destroy_stack proc k;
     k \<leftarrow> destroy_address_space proc k;
     k \<leftarrow> destroy_exe proc k;
     process_destroy proc k
   }"

lemma destroy_proc_split:
  assumes "p \<noteq> 0"
  shows "destroy_proc p k = do {
     k' \<leftarrow> destroy_release p (on_inactive (procman_remove p) k);
     Some (pr_next (k_procs k p), k')
   }"
  using assms by (simp add: destroy_proc_def destroy_release_def Let_def Option.bind_assoc)

text \<open>Whether \<^verbatim>\<open>create_proc\<close> finds no memory for the stack that the process asks for.\<close>

definition no_stack_memory :: "u32 \<Rightarrow> kernel \<Rightarrow> bool" where
  "no_stack_memory p k \<longleftrightarrow> pr_flags (k_procs k p) AND PROC_FLAG_STACK \<noteq> 0 \<and>
     map_option fst (k_malloc DEFAULT_STACK k) = Some 0"

lemma k_malloc_cong:
  "\<lbrakk>k_heap k' = k_heap k; k_mm k' = k_mm k\<rbrakk> \<Longrightarrow> map_option fst (k_malloc sz k') = map_option fst (k_malloc sz k)"
  by (auto simp: k_malloc_def split: Option.bind_splits)

lemma setup_stack_fails:
  "setup_stack p k = Some (ok, k') \<Longrightarrow> \<not> ok \<longleftrightarrow> no_stack_memory p k"
  by (auto simp: setup_stack_def no_stack_memory_def Let_def split: Option.bind_splits if_splits)

lemma create_prepare_cases:
  assumes "create_prepare ki p k = Some (ok, k')"
  shows "quiet k k'" "pr_flags (k_procs k' p) = pr_flags (k_procs k p) AND NOT PROC_FLAG_CREATE"
    "\<not> ok \<longleftrightarrow> no_stack_memory p k"
    "ok \<Longrightarrow> pr_id (k_procs k' p) = pm_count (sc_active (k_sched k)) \<and>
      pm_count (sc_active (k_sched k')) = pm_count (sc_active (k_sched k)) + 1 \<and>
      fr_eip (pr_frame (k_procs k' p)) = ki_startup_proc ki"
proof -
  obtain code stack data where sel: "proc_selectors ki (pr_flags (k_procs k p) AND NOT PROC_FLAG_CREATE) = (code, stack, data)"
    by (cases "proc_selectors ki (pr_flags (k_procs k p) AND NOT PROC_FLAG_CREATE)")
  define k1 where "k1 = upd_proc p (\<lambda>x. x\<lparr>pr_context := (pr_context x)\<lparr>cx_es := data, cx_ds := data, cx_fs := data,
      cx_gs := data, cx_ss := stack\<rparr>\<rparr>) (upd_proc p (\<lambda>x. x\<lparr>pr_flags := pr_flags x AND NOT PROC_FLAG_CREATE\<rparr>) k)"
  have k1: "quiet k k1" "pr_flags (k_procs k1 p) = pr_flags (k_procs k p) AND NOT PROC_FLAG_CREATE" "k_sched k1 = k_sched k"
    "k_heap k1 = k_heap k" "k_mm k1 = k_mm k"
    unfolding k1_def by (auto intro!: quiet_trans [OF quiet_upd quiet_upd])
  let ?k3 = "\<lambda>k2 n. (upd_proc p (\<lambda>x. x\<lparr>pr_frame := \<lparr>fr_eip = ki_startup_proc ki, fr_cs = code, fr_eflags = 0x202\<rparr>, pr_id := n\<rparr>) k2)
      \<lparr>k_sched := (k_sched k2)\<lparr>sc_active := (sc_active (k_sched k2))\<lparr>pm_count := n + 1\<rparr>\<rparr>\<rparr>"
  obtain done' k2 where s: "setup_stack p k1 = Some (done', k2)"
    using assms sel by (auto simp: create_prepare_def Let_def k1_def split: bind_splits)
  have k2: "quiet k k2" "pr_flags (k_procs k2 p) = pr_flags (k_procs k p) AND NOT PROC_FLAG_CREATE" "k_sched k2 = k_sched k"
    using tame_setup_stack [OF s] k1 quiet_trans [OF k1(1) tame_quiet] by (simp_all add: tame_def)
  have "pr_flags (k_procs k1 p) AND PROC_FLAG_STACK = pr_flags (k_procs k p) AND PROC_FLAG_STACK"
    unfolding k1(2) by (simp add: and.assoc PROC_FLAGS)
  then have same: "no_stack_memory p k1 = no_stack_memory p k"
    unfolding no_stack_memory_def k_malloc_cong [OF k1(4,5)] by simp
  have "quiet k k' \<and> pr_flags (k_procs k' p) = pr_flags (k_procs k p) AND NOT PROC_FLAG_CREATE \<and> ok = done' \<and>
    (ok \<longrightarrow> pr_id (k_procs k' p) = pm_count (sc_active (k_sched k)) \<and>
      pm_count (sc_active (k_sched k')) = pm_count (sc_active (k_sched k)) + 1 \<and>
      fr_eip (pr_frame (k_procs k' p)) = ki_startup_proc ki)"
  proof (cases done')
    case False
    then have "\<not> ok" "k' = k2" using assms sel s by (simp_all add: create_prepare_def Let_def k1_def)
    then show ?thesis using k2 False by blast
  next
    case True
    define k3 where "k3 = ?k3 k2 (pm_count (sc_active (k_sched k2)))"
    have k3: "quiet k k3" "pr_flags (k_procs k3 p) = pr_flags (k_procs k p) AND NOT PROC_FLAG_CREATE"
      "pr_id (k_procs k3 p) = pm_count (sc_active (k_sched k))" "fr_eip (pr_frame (k_procs k3 p)) = ki_startup_proc ki"
      "pm_count (sc_active (k_sched k3)) = pm_count (sc_active (k_sched k)) + 1"
      using k2 by (simp_all add: k3_def quiet_def same_procman_def same_links_def)
    obtain k4 where r: "setup_address_space ki p k3 = Some k4" "setup_heap p k4 = Some k'" "ok"
      using assms sel s True by (auto simp: create_prepare_def Let_def k1_def k3_def split: bind_splits)
    have t: "tame k3 k'" using tame_trans tame_setup_address_space [OF r(1)] tame_setup_heap [OF r(2)] by blast
    then show ?thesis using quiet_trans [OF k3(1) tame_quiet [OF t]] k3 r(3) True by (simp add: tame_def)
  qed
  then show "quiet k k'" "pr_flags (k_procs k' p) = pr_flags (k_procs k p) AND NOT PROC_FLAG_CREATE"
    "\<not> ok \<longleftrightarrow> no_stack_memory p k"
    "ok \<Longrightarrow> pr_id (k_procs k' p) = pm_count (sc_active (k_sched k)) \<and>
      pm_count (sc_active (k_sched k')) = pm_count (sc_active (k_sched k)) + 1 \<and>
      fr_eip (pr_frame (k_procs k' p)) = ki_startup_proc ki"
    using setup_stack_fails [OF s] same by blast+
qed

lemma destroy_release_tame: "destroy_release p k = Some k' \<Longrightarrow> tame k k'"
  using tame_handlers tame_trans unfolding destroy_release_def by (auto split: bind_splits) (metis (full_types))

section \<open>The machine\<close>

text \<open>
  How far the handler of a process is: registered and not yet on a list; about to be unloaded, taken from the
  active list, put on the inactive one and not yet marked; prepared for its creation, taken from the inactive
  list; taken from the inactive list for its destruction.
\<close>

datatype phase = Registering | Unloading | Unlinked | Marking | Creating | Created | Destroying

type_synonym sched_machine = "kernel \<times> (u32 \<rightharpoonup> phase) \<times> u32 set"

inductive handler_step :: "kimage \<Rightarrow> sched_machine \<Rightarrow> sched_machine \<Rightarrow> bool" for ki where
  register_create: "\<lbrakk>process_create k = Some (p, k1); p \<noteq> 0; w p = None; p \<notin> P;
      k2 = upd_proc p (\<lambda>x. x\<lparr>pr_entry := entry, pr_path := path, pr_flags := flags OR PROC_FLAG_CREATE\<rparr>) k1\<rbrakk> \<Longrightarrow>
    handler_step ki (k, w, P) (k2, w(p \<mapsto> Registering), insert p P)"
| register_append: "w p = Some Registering \<Longrightarrow>
    handler_step ki (k, w, P) (on_inactive (procman_append p) k, w(p := None), P)"
| unload_check: "\<lbrakk>w p = None; on_list (active_state k) p; pr_flags (k_procs k p) AND PROC_FLAG_KILL = 0\<rbrakk> \<Longrightarrow>
    handler_step ki (k, w, P) (k, w(p \<mapsto> Unloading), P)"
| unload_remove: "w p = Some Unloading \<Longrightarrow>
    handler_step ki (k, w, P) (on_active (procman_remove p) k, w(p \<mapsto> Unlinked), P)"
| unload_append: "w p = Some Unlinked \<Longrightarrow>
    handler_step ki (k, w, P) (on_inactive (procman_append p) k, w(p \<mapsto> Marking), P)"
| unload_mark: "w p = Some Marking \<Longrightarrow>
    handler_step ki (k, w, P) (upd_proc p (\<lambda>x. x\<lparr>pr_flags := pr_flags x OR PROC_FLAG_KILL\<rparr>) k, w(p := None), P)"
| create_prepare: "\<lbrakk>w p = None; on_list (inactive_state k) p; pr_flags (k_procs k p) AND PROC_FLAG_CREATE \<noteq> 0;
      create_prepare ki p k = Some (ok, k1)\<rbrakk> \<Longrightarrow>
    handler_step ki (k, w, P) (k1, if ok then w(p \<mapsto> Creating) else w, P)"
| create_remove: "w p = Some Creating \<Longrightarrow>
    handler_step ki (k, w, P) (on_inactive (procman_remove p) k, w(p \<mapsto> Created), P)"
| create_append: "w p = Some Created \<Longrightarrow>
    handler_step ki (k, w, P) (on_active (procman_append p) k, w(p := None), P)"
| destroy_remove: "\<lbrakk>w p = None; on_list (inactive_state k) p; pr_flags (k_procs k p) AND PROC_FLAG_CREATE = 0;
      pr_flags (k_procs k p) AND PROC_FLAG_SERVICE_MASK \<noteq> 0\<rbrakk> \<Longrightarrow>
    handler_step ki (k, w, P) (on_inactive (procman_remove p) k, w(p \<mapsto> Destroying), P - {p})"
| destroy_release: "\<lbrakk>w p = Some Destroying; destroy_release p k = Some k1\<rbrakk> \<Longrightarrow>
    handler_step ki (k, w, P) (k1, w(p := None), P)"

text \<open>Besides the handlers: the timer, and any work that leaves the lists alone.\<close>

inductive sched_step :: "kimage \<Rightarrow> sched_machine \<Rightarrow> sched_machine \<Rightarrow> bool" for ki where
  step_handler: "handler_step ki s s' \<Longrightarrow> sched_step ki s s'"
| step_tick: "sched_step ki (k, w, P) (tick k, w, P)"
| step_other: "quiet k k' \<Longrightarrow> sched_step ki (k, w, P) (k', w, P)"

section \<open>The invariant\<close>

text \<open>Where a process is: on one of the lists if no handler works on it, and else where the handler has put it.\<close>

definition in_place :: "(u32 \<rightharpoonup> phase) \<Rightarrow> u32 list \<Rightarrow> u32 list \<Rightarrow> u32 set \<Rightarrow> u32 \<Rightarrow> bool" where
  "in_place w xs ys P p \<longleftrightarrow> (case w p of
     None \<Rightarrow> p \<in> P \<longleftrightarrow> p \<in> set xs \<union> set ys
   | Some Unloading \<Rightarrow> p \<in> P \<and> p \<in> set xs
   | Some Marking \<Rightarrow> p \<in> P \<and> p \<in> set ys
   | Some Creating \<Rightarrow> p \<in> P \<and> p \<in> set ys
   | Some Destroying \<Rightarrow> p \<notin> P \<and> p \<notin> set xs \<union> set ys
   | Some _ \<Rightarrow> p \<in> P \<and> p \<notin> set xs \<union> set ys)"

definition machine_ok :: "sched_machine \<Rightarrow> bool" where
  "machine_ok s \<longleftrightarrow> (case s of (k, w, P) \<Rightarrow>
     \<exists>xs ys. sched_lists k xs ys \<and> 0 \<notin> P \<and> (\<forall>p. in_place w xs ys P p))"

text \<open>A step changes the place of one process.\<close>

lemma machine_ok_at:
  assumes "sched_lists k xs' ys'" and "0 \<notin> P'" and "\<forall>q. in_place w xs ys P q" and "in_place w' xs' ys' P' p"
    and "\<And>q. q \<noteq> p \<Longrightarrow> w' q = w q" and "insert p (set xs') = insert p (set xs)"
    and "insert p (set ys') = insert p (set ys)" and "insert p P' = insert p P"
  shows "machine_ok (k, w', P')"
proof -
  have "in_place w' xs' ys' P' q" for q
  proof (cases "q = p")
    case False
    then have "q \<in> set xs' \<longleftrightarrow> q \<in> set xs" "q \<in> set ys' \<longleftrightarrow> q \<in> set ys" "q \<in> P' \<longleftrightarrow> q \<in> P"
      using assms(6-8) by blast+
    then have "in_place w' xs' ys' P' q = in_place w xs ys P q"
      using assms(5) [OF False] by (simp add: in_place_def split: option.splits phase.splits)
    then show ?thesis using assms(3) by simp
  qed (use assms(4) in simp)
  then show ?thesis using assms(1,2) by (auto simp: machine_ok_def)
qed

lemma machine_okE:
  assumes "machine_ok (k, w, P)"
  obtains xs ys where "sched_lists k xs ys" "0 \<notin> P" "\<forall>p. in_place w xs ys P p" "0 \<notin> set xs" "0 \<notin> set ys"
    "distinct xs" "distinct ys" "set xs \<inter> set ys = {}"
  using assms plist_nonzero plist_distinct unfolding machine_ok_def sched_lists_def prod.case by metis

text \<open>The steps on one process, each from a state in which it is in place.\<close>

lemma handler_step_ok: "handler_step ki s s' \<Longrightarrow> machine_ok s \<Longrightarrow> machine_ok s'"
proof (induction rule: handler_step.induct)
  case (register_create k p k1 w P k2 entry path flags)
  obtain xs ys where s: "sched_lists k xs ys" "0 \<notin> P" "\<forall>p. in_place w xs ys P p" using register_create.prems by (rule machine_okE)
  have out: "p \<notin> set xs" "p \<notin> set ys" using s(3) [rule_format, of p] register_create.hyps(3,4) by (auto simp: in_place_def)
  obtain k0 where k0: "k_malloc process_size k = Some (p, k0)" "k1 = upd_proc p zero_process k0"
    using register_create.hyps(1,2) by (auto simp: process_create_def split: bind_splits if_splits)
  have "sched_lists k0 xs ys" using sched_lists_quiet [OF s(1) tame_quiet [OF tame_malloc [OF k0(1)]]] .
  then have l: "sched_lists k2 xs ys"
    unfolding register_create.hyps(5) k0(2) by (intro sched_lists_upd_other out)
  show ?case
    by (rule machine_ok_at [OF l _ s(3), where p = p]) (use out s(2) register_create.hyps(2) in \<open>auto simp: in_place_def\<close>)
next
  case (register_append w p k P)
  obtain xs ys where s: "sched_lists k xs ys" "0 \<notin> P" "\<forall>p. in_place w xs ys P p" using register_append.prems by (rule machine_okE)
  have p: "p \<in> P" "p \<notin> set xs" "p \<notin> set ys" using s(3) [rule_format, of p] register_append.hyps by (auto simp: in_place_def)
  then have "p \<noteq> 0" using s(2) by blast
  then have l: "sched_lists (on_inactive (procman_append p) k) xs (ys @ [p])" using s(1) p by (intro inactive_append) auto
  show ?case by (rule machine_ok_at [OF l s(2,3), where p = p]) (use p in \<open>auto simp: in_place_def\<close>)
next
  case (unload_check w p k P)
  obtain xs ys where s: "sched_lists k xs ys" "0 \<notin> P" "\<forall>p. in_place w xs ys P p" using unload_check.prems by (rule machine_okE)
  have p: "p \<in> set xs" using sched_lists_on(1) [OF s(1)] unload_check.hyps(2) by blast
  moreover have "p \<in> P" using s(3) [rule_format, of p] unload_check.hyps(1) p by (auto simp: in_place_def)
  ultimately show ?case by (intro machine_ok_at [OF s, where p = p]) (auto simp: in_place_def)
next
  case (unload_remove w p k P)
  obtain xs ys where s: "sched_lists k xs ys" "0 \<notin> P" "\<forall>p. in_place w xs ys P p" "distinct xs" "set xs \<inter> set ys = {}"
    using unload_remove.prems by (rule machine_okE)
  have p: "p \<in> P" "p \<in> set xs" using s(3) [rule_format, of p] unload_remove.hyps by (auto simp: in_place_def)
  then obtain us vs where xs: "xs = us @ p # vs" using split_list by metis
  have l: "sched_lists (on_active (procman_remove p) k) (us @ vs) ys" using active_remove s(1) xs by blast
  show ?case by (rule machine_ok_at [OF l s(2,3), where p = p]) (use p s(4,5) in \<open>auto simp: in_place_def xs\<close>)
next
  case (unload_append w p k P)
  obtain xs ys where s: "sched_lists k xs ys" "0 \<notin> P" "\<forall>p. in_place w xs ys P p" using unload_append.prems by (rule machine_okE)
  have p: "p \<in> P" "p \<notin> set xs" "p \<notin> set ys" using s(3) [rule_format, of p] unload_append.hyps by (auto simp: in_place_def)
  then have "p \<noteq> 0" using s(2) by blast
  then have l: "sched_lists (on_inactive (procman_append p) k) xs (ys @ [p])" using s(1) p by (intro inactive_append) auto
  show ?case by (rule machine_ok_at [OF l s(2,3), where p = p]) (use p in \<open>auto simp: in_place_def\<close>)
next
  case (unload_mark w p k P)
  obtain xs ys where s: "sched_lists k xs ys" "0 \<notin> P" "\<forall>p. in_place w xs ys P p" using unload_mark.prems by (rule machine_okE)
  have p: "p \<in> P" "p \<in> set ys" using s(3) [rule_format, of p] unload_mark.hyps by (auto simp: in_place_def)
  have l: "sched_lists (upd_proc p (\<lambda>x. x\<lparr>pr_flags := pr_flags x OR PROC_FLAG_KILL\<rparr>) k) xs ys"
    using sched_lists_quiet [OF s(1) quiet_upd] by simp
  show ?case by (rule machine_ok_at [OF l s(2,3), where p = p]) (use p in \<open>auto simp: in_place_def\<close>)
next
  case (create_prepare w p k ok k1 P)
  obtain xs ys where s: "sched_lists k xs ys" "0 \<notin> P" "\<forall>p. in_place w xs ys P p" using create_prepare.prems by (rule machine_okE)
  have p: "p \<in> set ys" using sched_lists_on(2) [OF s(1)] create_prepare.hyps(2) by blast
  moreover have "p \<in> P" using s(3) [rule_format, of p] create_prepare.hyps(1) p by (auto simp: in_place_def)
  moreover have l: "sched_lists k1 xs ys" using sched_lists_quiet [OF s(1) create_prepare_cases(1) [OF create_prepare.hyps(4)]] .
  ultimately show ?case
    using s(3) by (intro machine_ok_at [OF l s(2,3), where p = p]) (auto simp: in_place_def)
next
  case (create_remove w p k P)
  obtain xs ys where s: "sched_lists k xs ys" "0 \<notin> P" "\<forall>p. in_place w xs ys P p" "distinct ys" "set xs \<inter> set ys = {}"
    using create_remove.prems by (rule machine_okE)
  have p: "p \<in> P" "p \<in> set ys" using s(3) [rule_format, of p] create_remove.hyps by (auto simp: in_place_def)
  then obtain us vs where ys: "ys = us @ p # vs" using split_list by metis
  have l: "sched_lists (on_inactive (procman_remove p) k) xs (us @ vs)" using inactive_remove s(1) ys by blast
  show ?case by (rule machine_ok_at [OF l s(2,3), where p = p]) (use p s(4,5) in \<open>auto simp: in_place_def ys\<close>)
next
  case (create_append w p k P)
  obtain xs ys where s: "sched_lists k xs ys" "0 \<notin> P" "\<forall>p. in_place w xs ys P p" using create_append.prems by (rule machine_okE)
  have p: "p \<in> P" "p \<notin> set xs" "p \<notin> set ys" using s(3) [rule_format, of p] create_append.hyps by (auto simp: in_place_def)
  then have "p \<noteq> 0" using s(2) by blast
  then have l: "sched_lists (on_active (procman_append p) k) (xs @ [p]) ys" using s(1) p by (intro active_append) auto
  show ?case by (rule machine_ok_at [OF l s(2,3), where p = p]) (use p in \<open>auto simp: in_place_def\<close>)
next
  case (destroy_remove w p k P)
  obtain xs ys where s: "sched_lists k xs ys" "0 \<notin> P" "\<forall>p. in_place w xs ys P p" "distinct ys" "set xs \<inter> set ys = {}"
    using destroy_remove.prems by (rule machine_okE)
  have p: "p \<in> set ys" using sched_lists_on(2) [OF s(1)] destroy_remove.hyps(2) by blast
  then obtain us vs where ys: "ys = us @ p # vs" using split_list by metis
  have l: "sched_lists (on_inactive (procman_remove p) k) xs (us @ vs)" using inactive_remove s(1) ys by blast
  show ?case by (rule machine_ok_at [OF l _ s(3), where p = p]) (use p s(2,4,5) in \<open>auto simp: in_place_def ys\<close>)
next
  case (destroy_release w p k k1 P)
  obtain xs ys where s: "sched_lists k xs ys" "0 \<notin> P" "\<forall>p. in_place w xs ys P p" using destroy_release.prems by (rule machine_okE)
  have p: "p \<notin> P" "p \<notin> set xs \<union> set ys" using s(3) [rule_format, of p] destroy_release.hyps(1) by (auto simp: in_place_def)
  have l: "sched_lists k1 xs ys" using sched_lists_quiet [OF s(1) tame_quiet [OF destroy_release_tame [OF destroy_release.hyps(2)]]] .
  show ?case by (rule machine_ok_at [OF l s(2,3), where p = p]) (use p in \<open>auto simp: in_place_def\<close>)
qed

lemma sched_step_ok: "sched_step ki s s' \<Longrightarrow> machine_ok s \<Longrightarrow> machine_ok s'"
proof (induction rule: sched_step.induct)
  case (step_handler s s')
  then show ?case using handler_step_ok by blast
next
  case (step_tick k w P)
  then show ?case using tick_refines(1) unfolding machine_ok_def prod.case by blast
next
  case (step_other k k' w P)
  then show ?case using sched_lists_quiet unfolding machine_ok_def prod.case by blast
qed

lemma sched_steps_ok: "(sched_step ki)\<^sup>*\<^sup>* s s' \<Longrightarrow> machine_ok s \<Longrightarrow> machine_ok s'"
  by (induction rule: rtranclp_induct) (auto intro: sched_step_ok)

lemma machine_ok_start: "sched_lists k xs ys \<Longrightarrow> machine_ok (k, Map.empty, set xs \<union> set ys)"
proof -
  assume l: "sched_lists k xs ys"
  then have "0 \<notin> set xs \<union> set ys" using plist_nonzero unfolding sched_lists_def by blast
  moreover have "in_place Map.empty xs ys (set xs \<union> set ys) p" for p by (simp add: in_place_def)
  ultimately show ?thesis using l unfolding machine_ok_def prod.case by blast
qed

section \<open>The handlers are sequences of their parts\<close>

lemma follows_nonzero: "follows ps h p \<Longrightarrow> p \<noteq> 0"
  by (induction rule: follows.induct) auto

lemma on_list_nonzero: "on_list st p \<Longrightarrow> p \<noteq> 0"
  by (simp add: on_list_def follows_nonzero)

lemma steps2: "R a b \<Longrightarrow> R b c \<Longrightarrow> R\<^sup>*\<^sup>* a c"
  and steps3: "R a b \<Longrightarrow> R b c \<Longrightarrow> R c d \<Longrightarrow> R\<^sup>*\<^sup>* a d"
  and steps4: "R a b \<Longrightarrow> R b c \<Longrightarrow> R c d \<Longrightarrow> R d e \<Longrightarrow> R\<^sup>*\<^sup>* a e"
  by (meson rtranclp.rtrancl_into_rtrancl r_into_rtranclp)+

lemma deregister_steps:
  assumes "w p = None" and "on_list (active_state k) p"
  shows "(handler_step ki)\<^sup>*\<^sup>* (k, w, P) (proc_deregister p k, w, P)"
proof (cases "pr_flags (k_procs k p) AND PROC_FLAG_KILL = 0")
  case True
  let ?k1 = "on_active (procman_remove p) k"
  let ?k2 = "on_inactive (procman_append p) ?k1"
  let ?k3 = "upd_proc p (\<lambda>x. x\<lparr>pr_flags := pr_flags x OR PROC_FLAG_KILL\<rparr>) ?k2"
  have "handler_step ki (k, w, P) (k, w(p \<mapsto> Unloading), P)" using assms True by (rule unload_check)
  moreover have "handler_step ki (k, w(p \<mapsto> Unloading), P) (?k1, w(p \<mapsto> Unlinked), P)"
    using unload_remove [of "w(p \<mapsto> Unloading)" p] by simp
  moreover have "handler_step ki (?k1, w(p \<mapsto> Unlinked), P) (?k2, w(p \<mapsto> Marking), P)"
    using unload_append [of "w(p \<mapsto> Unlinked)" p] by simp
  moreover have "handler_step ki (?k2, w(p \<mapsto> Marking), P) (?k3, w, P)"
    using unload_mark [of "w(p \<mapsto> Marking)" p] assms(1) by (simp add: fun_upd_idem)
  ultimately have "(handler_step ki)\<^sup>*\<^sup>* (k, w, P) (?k3, w, P)" by (rule steps4)
  moreover have "proc_deregister p k = ?k3"
    using on_list_nonzero [OF assms(2)] True by (simp add: proc_deregister_def Let_def)
  ultimately show ?thesis by simp
next
  case False
  then show ?thesis by (simp add: proc_deregister_def)
qed

lemma create_steps:
  assumes "w p = None" and "on_list (inactive_state k) p" and "pr_flags (k_procs k p) AND PROC_FLAG_CREATE \<noteq> 0"
    and c: "create_proc ki p k = Some (n, k')"
  shows "(handler_step ki)\<^sup>*\<^sup>* (k, w, P) (k', w, P)"
proof -
  obtain ok k1 where r: "create_prepare ki p k = Some (ok, k1)"
    and k': "k' = (if ok then on_active (procman_append p) (on_inactive (procman_remove p) k1) else k1)"
    using c by (auto simp: create_proc_split split: bind_splits if_splits)
  have prep: "handler_step ki (k, w, P) (k1, if ok then w(p \<mapsto> Creating) else w, P)"
    using assms(1-3) r by (rule create_prepare)
  show ?thesis
  proof (cases ok)
    case False
    then show ?thesis using prep k' by auto
  next
    case True
    let ?k2 = "on_inactive (procman_remove p) k1"
    have "handler_step ki (k, w, P) (k1, w(p \<mapsto> Creating), P)" using prep True by simp
    moreover have "handler_step ki (k1, w(p \<mapsto> Creating), P) (?k2, w(p \<mapsto> Created), P)"
      using create_remove [of "w(p \<mapsto> Creating)" p] by simp
    moreover have "handler_step ki (?k2, w(p \<mapsto> Created), P) (on_active (procman_append p) ?k2, w, P)"
      using create_append [of "w(p \<mapsto> Created)" p] assms(1) by (simp add: fun_upd_idem)
    ultimately have "(handler_step ki)\<^sup>*\<^sup>* (k, w, P) (on_active (procman_append p) ?k2, w, P)" by (rule steps3)
    then show ?thesis using k' True by simp
  qed
qed

lemma destroy_steps:
  assumes "w p = None" and "on_list (inactive_state k) p" and "pr_flags (k_procs k p) AND PROC_FLAG_CREATE = 0"
    and "pr_flags (k_procs k p) AND PROC_FLAG_SERVICE_MASK \<noteq> 0" and d: "destroy_proc p k = Some (n, k')"
  shows "(handler_step ki)\<^sup>*\<^sup>* (k, w, P) (k', w, P - {p})"
proof -
  let ?k = "on_inactive (procman_remove p) k"
  have r: "destroy_release p ?k = Some k'"
    using d unfolding destroy_proc_split [OF on_list_nonzero [OF assms(2)]] by (auto split: bind_splits)
  have "handler_step ki (k, w, P) (?k, w(p \<mapsto> Destroying), P - {p})" using assms(1-4) by (rule destroy_remove)
  moreover have "handler_step ki (?k, w(p \<mapsto> Destroying), P - {p}) (k', w, P - {p})"
    using destroy_release [of "w(p \<mapsto> Destroying)" p ?k k'] r assms(1) by (simp add: fun_upd_idem)
  ultimately show ?thesis by (rule steps2)
qed

lemma register_steps:
  assumes r: "proc_register path entry flags k = Some (p, k')" and p: "p \<noteq> 0" "w p = None" "p \<notin> P"
  shows "(handler_step ki)\<^sup>*\<^sup>* (k, w, P) (k', w, insert p P)"
proof -
  obtain k1 where c: "process_create k = Some (p, k1)"
    and k': "k' = on_inactive (procman_append p)
      (upd_proc p (\<lambda>x. x\<lparr>pr_entry := entry, pr_path := path, pr_flags := flags OR PROC_FLAG_CREATE\<rparr>) k1)"
    using r p(1) by (auto simp: proc_register_def Let_def split: bind_splits if_splits)
  let ?k2 = "upd_proc p (\<lambda>x. x\<lparr>pr_entry := entry, pr_path := path, pr_flags := flags OR PROC_FLAG_CREATE\<rparr>) k1"
  have "handler_step ki (k, w, P) (?k2, w(p \<mapsto> Registering), insert p P)" using c p refl by (rule register_create)
  moreover have "handler_step ki (?k2, w(p \<mapsto> Registering), insert p P) (k', w, insert p P)"
    using register_append [of "w(p \<mapsto> Registering)" p] p(2) by (simp add: k' fun_upd_idem)
  ultimately show ?thesis by (rule steps2)
qed

section \<open>Properties\<close>

text \<open>
  C17: handlers that register, unload, create and destroy processes, cut at their critical sections, interleaved with
  one another in any number and any order, with timer ticks and with any work that leaves the links alone: as long as a
  handler starts on a process that no other handler works on, and only active processes are unloaded, the two lists
  stay well formed, no process is on both or twice, the current process is on the active list or there is none, and
  every process is exactly where the handler that works on it has put it. When no handler is under way, no process is
  lost: those on the lists are those that were there or were registered, less those destroyed.
\<close>

theorem scheduler_interleavings_keep_lists:
  assumes "sched_lists k xs ys" and "(sched_step ki)\<^sup>*\<^sup>* (k, Map.empty, set xs \<union> set ys) (k', w, P)"
  shows "\<exists>xs' ys'. plist (active_state k') xs' \<and> plist (inactive_state k') ys' \<and> distinct (xs' @ ys') \<and>
    (scheduler_current k' = 0 \<or> scheduler_current k' \<in> set xs') \<and>
    (\<forall>p. in_place w xs' ys' P p) \<and> (w = Map.empty \<longrightarrow> set (xs' @ ys') = P)"
proof -
  obtain xs' ys' where s: "sched_lists k' xs' ys'" "\<forall>p. in_place w xs' ys' P p" "distinct xs'" "distinct ys'" "set xs' \<inter> set ys' = {}"
    using sched_steps_ok [OF assms(2) machine_ok_start [OF assms(1)]] by (rule machine_okE)
  moreover have "set (xs' @ ys') = P" if "w = Map.empty" using s(2) that by (auto simp: in_place_def)
  ultimately show ?thesis by (intro exI [of _ xs'] exI [of _ ys']) (simp add: sched_lists_def)
qed

text \<open>The unloading of one process, interrupted between its two list operations by a tick and another registration.\<close>

lemma interrupted_unload:
  "(sched_step ki)\<^sup>*\<^sup>* (demo_kernel, Map.empty, {0x100, 0x200, 0x300} \<union> {0x400})
     (tick (on_active (procman_remove 0x200) (tick demo_kernel)), [0x200 \<mapsto> Unlinked], {0x100, 0x200, 0x300} \<union> {0x400})"
proof -
  let ?P = "{0x100, 0x200, 0x300} \<union> {0x400} :: u32 set" and ?k = "on_active (procman_remove 0x200) (tick demo_kernel)"
  have "on_list (active_state demo_kernel) 0x200" using sched_lists_on(1) [OF demo_lists] by simp
  moreover have "pr_flags (k_procs demo_kernel 0x200) AND PROC_FLAG_KILL = 0"
    by (simp add: demo_kernel_def plain_process_def PROC_FLAGS)
  ultimately have "sched_step ki (demo_kernel, Map.empty, ?P) (demo_kernel, [0x200 \<mapsto> Unloading], ?P)"
    using step_handler [OF unload_check [of Map.empty]] by simp
  moreover have "sched_step ki (demo_kernel, [0x200 \<mapsto> Unloading], ?P) (tick demo_kernel, [0x200 \<mapsto> Unloading], ?P)"
    by (rule step_tick)
  moreover have "sched_step ki (tick demo_kernel, [0x200 \<mapsto> Unloading], ?P) (?k, [0x200 \<mapsto> Unlinked], ?P)"
    using step_handler [OF unload_remove [of "[0x200 \<mapsto> Unloading]" "0x200"]] by simp
  moreover have "sched_step ki (?k, [0x200 \<mapsto> Unlinked], ?P) (tick ?k, [0x200 \<mapsto> Unlinked], ?P)" by (rule step_tick)
  ultimately show ?thesis by (rule steps4)
qed

theorem scheduler_interleavings_keep_lists_witness:
  "\<exists>xs ys. plist (active_state (tick (on_active (procman_remove 0x200) (tick demo_kernel)))) xs \<and>
     plist (inactive_state (tick (on_active (procman_remove 0x200) (tick demo_kernel)))) ys \<and>
     set xs \<union> set ys = {0x100, 0x300, 0x400}"
proof -
  let ?k = "tick (on_active (procman_remove 0x200) (tick demo_kernel))"
  have "(sched_step ki)\<^sup>*\<^sup>* (demo_kernel, Map.empty, set [0x100, 0x200, 0x300] \<union> set [0x400])
      (?k, [0x200 \<mapsto> Unlinked], {0x100, 0x200, 0x300} \<union> {0x400})" for ki
    using interrupted_unload by simp
  from scheduler_interleavings_keep_lists [OF demo_lists this] obtain xs ys where
    l: "plist (active_state ?k) xs" "plist (inactive_state ?k) ys"
      "\<forall>p. in_place [0x200 \<mapsto> Unlinked] xs ys ({0x100, 0x200, 0x300} \<union> {0x400}) p" by blast
  have "p \<in> set xs \<union> set ys \<longleftrightarrow> p \<in> {0x100, 0x300, 0x400}" for p
    using l(3) [rule_format, of p] by (cases "p = 0x200") (auto simp: in_place_def)
  then show ?thesis using l(1,2) by blast
qed



end
