(* ===== verification/Sched_Correct.thy ===== *)
theory Sched_Correct
  imports Sched_Steps
begin

text \<open>
  What registering, creating and servicing a process does to the lists, the composition with the
  kernel heap, and two uses of the interface after which the scheduler no longer works.
\<close>

section \<open>Creation\<close>

lemma create_proc_lists:
  assumes l: "sched_lists k xs (us @ p # vs)" and q: "quiet k k4"
    and k': "k' = on_active (procman_append p) (on_inactive (procman_remove p) k4)"
  shows "sched_lists k' (xs @ [p]) (us @ vs)" "pr_next (k_procs k4 p) = first vs 0"
    "unlinked (k_procs k' p) = unlinked (k_procs k4 p)"
    "pm_count (sc_active (k_sched k')) = pm_count (sc_active (k_sched k4))"
proof -
  note l4 = sched_lists_quiet [OF l q]
  have i: "plist (inactive_state k4) (us @ p # vs)" using l4 by (simp add: sched_lists_def)
  show "pr_next (k_procs k4 p) = first vs 0" using plist_at(1) [OF i] by simp
  have "p \<noteq> 0" "p \<notin> set (us @ vs)" using plist_nonzero [OF i, of p] plist_distinct [OF i] by auto
  moreover have "p \<notin> set xs" using l by (auto simp: sched_lists_def)
  ultimately show "sched_lists k' (xs @ [p]) (us @ vs)"
    unfolding k' using active_append [OF inactive_remove [OF l4]] by simp
  show "unlinked (k_procs k' p) = unlinked (k_procs k4 p)"
    by (simp add: k' append_fields remove_fields)
  show "pm_count (sc_active (k_sched k')) = pm_count (sc_active (k_sched k4))" by (simp add: k')
qed

text \<open>What \<^verbatim>\<open>create_proc\<close> does, apart from memory: it stops for want of a stack, or moves the process.\<close>

lemma create_proc_cases:
  assumes "create_proc ki p k = Some (n, k')"
  obtains (no_stack) "no_stack_memory p k" "n = 0" "quiet k k'"
      "pr_flags (k_procs k' p) = pr_flags (k_procs k p) AND NOT PROC_FLAG_CREATE"
  | (created) k4 where "quiet k k4" "n = pr_next (k_procs k4 p)"
      "k' = on_active (procman_append p) (on_inactive (procman_remove p) k4)"
      "pr_flags (k_procs k4 p) = pr_flags (k_procs k p) AND NOT PROC_FLAG_CREATE"
      "pr_id (k_procs k4 p) = pm_count (sc_active (k_sched k))"
      "pm_count (sc_active (k_sched k4)) = pm_count (sc_active (k_sched k)) + 1"
      "fr_eip (pr_frame (k_procs k4 p)) = ki_startup_proc ki" "\<not> no_stack_memory p k"
proof -
  obtain ok k4 where r: "create_prepare ki p k = Some (ok, k4)"
    and k': "(n, k') = (if ok then (pr_next (k_procs k4 p), on_active (procman_append p) (on_inactive (procman_remove p) k4)) else (0, k4))"
    using assms by (auto simp: create_proc_split split: bind_splits if_splits)
  note c = create_prepare_cases [OF r]
  show thesis
  proof (cases ok)
    case True
    then show thesis using created [of k4] c k' by simp
  next
    case False
    then show thesis using no_stack c k' by simp
  qed
qed

text \<open>
  C20: \<^verbatim>\<open>create_proc\<close> of an inactive process that returns: if the process asks for a stack and \<^verbatim>\<open>kmalloc\<close> has no memory
  for one, the process stays where it is and the result is \<^verbatim>\<open>NULL\<close>; in every other case the process is put behind the
  active processes, with the next identifier and the trampoline as its entry, and the result is the process that was
  behind it in the inactive list. In both cases the flag that asks for its creation is cleared, so that after a failure
  no later turn takes it up again.
\<close>

theorem create_proc_moves:
  assumes "sched_lists k xs (us @ p # vs)" and "create_proc ki p k = Some (n, k')"
  shows "pr_flags (k_procs k' p) = pr_flags (k_procs k p) AND NOT PROC_FLAG_CREATE \<and>
    (if pr_flags (k_procs k p) AND PROC_FLAG_STACK \<noteq> 0 \<and> map_option fst (k_malloc DEFAULT_STACK k) = Some 0
     then sched_lists k' xs (us @ p # vs) \<and> n = 0
     else sched_lists k' (xs @ [p]) (us @ vs) \<and> n = first vs 0 \<and>
       pr_id (k_procs k' p) = pm_count (sc_active (k_sched k)) \<and>
       pm_count (sc_active (k_sched k')) = pm_count (sc_active (k_sched k)) + 1 \<and>
       fr_eip (pr_frame (k_procs k' p)) = ki_startup_proc ki)"
  using assms(2)
proof (cases rule: create_proc_cases)
  case no_stack
  have "sched_lists k' xs (us @ p # vs)" by (rule sched_lists_quiet [OF assms(1) no_stack(3)])
  then show ?thesis using no_stack(1,2,4) by (simp add: no_stack_memory_def)
next
  case (created k4)
  show ?thesis
    unfolding if_not_P [OF created(8) [unfolded no_stack_memory_def]]
    using create_proc_lists [OF assms(1) created(1,3)] unlinked_eq [of "k_procs k' p" "k_procs k4 p"] created(2,4-7) by simp
qed

definition demo_image :: kimage where
  "demo_image = \<lparr>ki_kcode = 8, ki_kdata = 16, ki_kstack = 24, ki_ucode = 35, ki_udata = 43, ki_ustack = 51,
     ki_pg_pd = 0xC0200000, ki_startup_proc = 0xC0100000, ki_idle_proc = 0xC0100100, ki_scheduler_proc = 0xC0100200\<rparr>"

theorem create_proc_moves_witness:
  "\<exists>n k'. create_proc demo_image 0x400 demo_kernel = Some (n, k') \<and> sched_lists k' [0x100, 0x200, 0x300, 0x400] []"
proof -
  obtain n k' where r: "create_proc demo_image 0x400 demo_kernel = Some (n, k')"
    by (simp add: create_proc_def Let_def demo_kernel_def plain_process_def setup_stack_def setup_address_space_def
        setup_heap_def proc_selectors_def PROC_FLAGS upd_proc_def on_active_def on_inactive_def procman_append_def
        procman_remove_def upd_ps_def)
  have l: "sched_lists demo_kernel [0x100, 0x200, 0x300] ([] @ 0x400 # [])" using demo_lists by simp
  have "pr_flags (k_procs demo_kernel 0x400) AND PROC_FLAG_STACK = 0"
    by (simp add: demo_kernel_def plain_process_def PROC_FLAGS)
  then show ?thesis using create_proc_moves [OF l r] r by auto
qed

section \<open>Service\<close>

text \<open>
  C21: one turn of the scheduler process takes up exactly one request, the newest: when the last
  process of the inactive list waits for its creation or destruction, that is carried out, and the
  turn ends, since the process has no successor. Older requests wait until the newer ones are done.
\<close>

theorem scheduler_turn_services_newest:
  assumes "sched_lists k xs (ys @ [p])"
    and "pr_flags (k_procs k p) AND (PROC_FLAG_CREATE OR PROC_FLAG_SERVICE_MASK) \<noteq> 0"
  shows "scheduler_proc_turn ki k = map_option snd (service_proc ki p k)"
proof -
  have i: "plist (inactive_state k) (ys @ [p])" using assms(1) by (simp add: sched_lists_def)
  have p: "p \<noteq> 0" and tail: "pm_tail (sc_inactive (k_sched k)) = p" and nxt: "pr_next (k_procs k p) = 0"
    using plist_nonzero [OF i, of p] plist_ends [OF i] plist_at(1) [OF i] by simp_all
  have ends: "n = 0" if r: "service_proc ki p k = Some (n, k')" for n k'
  proof (cases "pr_flags (k_procs k p) AND PROC_FLAG_CREATE \<noteq> 0")
    case True
    then have "create_proc ki p k = Some (n, k')" using r by (simp add: service_proc_def)
    then show ?thesis
    proof (cases rule: create_proc_cases)
      case (created k4)
      then show ?thesis using create_proc_lists(2) [OF assms(1) created(1,3)] by simp
    qed
  next
    case False
    then have "pr_flags (k_procs k p) AND PROC_FLAG_SERVICE_MASK \<noteq> 0"
      using assms(2) by (simp add: bit.conj_disj_distrib)
    then have "destroy_proc p k = Some (n, k')" using r False by (simp add: service_proc_def)
    then show ?thesis using nxt unfolding destroy_proc_split [OF p] by (auto split: bind_splits)
  qed
  have "service_list ki p k = do { (proc, k) \<leftarrow> service_proc ki p k; service_list ki proc k }"
    using p by (subst service_list.simps) simp
  also have "\<dots> = map_option snd (service_proc ki p k)"
    using ends by (cases "service_proc ki p k") (auto simp: service_list.simps)
  finally show ?thesis by (simp add: scheduler_proc_turn_def tail)
qed

theorem scheduler_turn_services_newest_witness:
  "scheduler_proc_turn demo_image demo_kernel = map_option snd (service_proc demo_image 0x400 demo_kernel)"
  by (rule scheduler_turn_services_newest [of _ "[0x100, 0x200, 0x300]" "[]"])
    (use demo_lists in \<open>simp_all add: demo_kernel_def plain_process_def PROC_FLAGS\<close>)

section \<open>Registration and the kernel heap\<close>

text \<open>The processes on the lists are blocks in use of the kernel heap.\<close>

definition procs_live :: "kernel \<Rightarrow> (u32 \<times> u32 list) list \<Rightarrow> u32 set \<Rightarrow> bool" where
  "procs_live k rbs P \<longleftrightarrow> heap_system (k_heap k, k_mm k) rbs \<and> (\<forall>p \<in> P. contents (k_heap k) rbs p \<noteq> None)"

lemma kmalloc_step:
  assumes "heap_system (s, m) rbs" and "sz \<noteq> 0" "unat sz + 4158 < 4294967296"
  shows "\<exists>ptr s' m'. kmalloc sz (s, m) = Some (ptr, s', m') \<and> (ptr \<noteq> 0 \<longrightarrow> (\<exists>rbs' n. heap_system (s', m') rbs' \<and>
    contents s rbs ptr = None \<and> contents s' rbs' = (contents s rbs)(ptr \<mapsto> n)))"
proof -
  from heap_alloc_step [OF assms, of 1] obtain ptr s' m' where r: "heap_alloc sz 1 (s, m) = Some (ptr, s', m')"
    "if ptr = 0 then s' = s \<and> (\<forall>(b, r) \<in> set (pairs rbs). \<not> block_fits s (ALIGN sz BLOCK_ALIGNMENT) 1 r b)
     else \<exists>rbs' k. heap_system (s', m') rbs' \<and> contents s rbs ptr = None \<and> sz \<le> k \<and>
       contents s' rbs' = (contents s rbs)(ptr \<mapsto> k)"
    by blast
  from r(2) have "ptr \<noteq> 0 \<longrightarrow> (\<exists>rbs' n. heap_system (s', m') rbs' \<and>
      contents s rbs ptr = None \<and> contents s' rbs' = (contents s rbs)(ptr \<mapsto> n))"
    by (cases "ptr = 0") (simp_all, blast)
  then show ?thesis using r(1) unfolding kmalloc_def by blast
qed

lemma k_malloc_memory: "k_malloc sz k = Some (ptr, k') \<Longrightarrow> k' = k\<lparr>k_heap := k_heap k', k_mm := k_mm k'\<rparr>"
  by (auto simp: k_malloc_def split: bind_splits)

text \<open>Registration, once there is memory for the process.\<close>

lemma proc_register_some:
  assumes l: "sched_lists k xs ys" and m: "k_malloc process_size k = Some (p, k1)" and p: "p \<noteq> 0" "p \<notin> set xs \<union> set ys"
  shows "\<exists>k'. proc_register path entry flags k = Some (p, k') \<and> sched_lists k' xs (ys @ [p]) \<and>
    k_heap k' = k_heap k1 \<and> k_mm k' = k_mm k1 \<and> scheduler_current k' = scheduler_current k \<and>
    pm_count (sc_active (k_sched k')) = pm_count (sc_active (k_sched k)) \<and>
    pr_flags (k_procs k' p) = flags OR PROC_FLAG_CREATE \<and> pr_entry (k_procs k' p) = entry \<and> pr_path (k_procs k' p) = path \<and>
    (\<forall>q. q \<noteq> p \<longrightarrow> unlinked (k_procs k' q) = unlinked (k_procs k q))"
proof -
  have k1: "k_procs k1 = k_procs k" "k_sched k1 = k_sched k" by (subst k_malloc_memory [OF m], simp)+
  have l1: "sched_lists k1 xs ys" using sched_lists_quiet [OF l tame_quiet [OF tame_malloc [OF m]]] .
  define k2 where "k2 = upd_proc p (\<lambda>x. x\<lparr>pr_entry := entry, pr_path := path, pr_flags := flags OR PROC_FLAG_CREATE\<rparr>)
      (upd_proc p zero_process k1)"
  define k' where "k' = on_inactive (procman_append p) k2"
  have run: "proc_register path entry flags k = Some (p, k')"
    using m p(1) by (simp add: proc_register_def process_create_def k2_def k'_def Let_def)
  have l2: "sched_lists k2 xs ys"
    unfolding k2_def using p(2) by (intro sched_lists_upd sched_lists_upd_other l1) auto
  then have l': "sched_lists k' xs (ys @ [p])" unfolding k'_def using p by (intro inactive_append) auto
  have u: "unlinked (k_procs k' q) = unlinked (k_procs k2 q)" for q by (simp add: k'_def append_fields)
  have f: "pr_flags (k_procs k' p) = flags OR PROC_FLAG_CREATE" "pr_entry (k_procs k' p) = entry" "pr_path (k_procs k' p) = path"
    using arg_cong [OF u, of pr_flags p] arg_cong [OF u, of pr_entry p] arg_cong [OF u, of pr_path p]
    by (simp_all add: unlinked_def k2_def)
  have "\<forall>q. q \<noteq> p \<longrightarrow> unlinked (k_procs k' q) = unlinked (k_procs k q)" by (simp add: u k2_def k1)
  moreover have "k_heap k' = k_heap k1" "k_mm k' = k_mm k1" "scheduler_current k' = scheduler_current k"
    "pm_count (sc_active (k_sched k')) = pm_count (sc_active (k_sched k))"
    by (simp_all add: k'_def k2_def k1 scheduler_current_def)
  ultimately show ?thesis using run l' f by blast
qed

text \<open>
  registering a process composes with the kernel heap: as long as every listed process is a block in
  use, \<^verbatim>\<open>proc_register\<close> returns. The new process is a block that no listed process uses, it is the
  last of the inactive list and waits for its creation, and again every listed process is a block in
  use; or there is no memory and the lists are as before.
\<close>

theorem proc_register_fresh:
  assumes "sched_lists k xs ys" and "procs_live k rbs (set xs \<union> set ys)"
  shows "\<exists>p k'. proc_register path entry flags k = Some (p, k') \<and>
    (if p = 0 then sched_lists k' xs ys
     else p \<notin> set xs \<union> set ys \<and> sched_lists k' xs (ys @ [p]) \<and>
       pr_flags (k_procs k' p) = flags OR PROC_FLAG_CREATE \<and> pr_entry (k_procs k' p) = entry \<and>
       (\<exists>rbs'. procs_live k' rbs' (set xs \<union> set (ys @ [p]))))"
proof -
  have sys: "heap_system (k_heap k, k_mm k) rbs" using assms(2) by (simp add: procs_live_def)
  have size: "process_size \<noteq> 0" "unat process_size + 4158 < 4294967296" by (simp_all add: process_size_def)
  obtain p h m where a: "kmalloc process_size (k_heap k, k_mm k) = Some (p, h, m)"
      "p \<noteq> 0 \<Longrightarrow> \<exists>rbs' n. heap_system (h, m) rbs' \<and> contents (k_heap k) rbs p = None \<and>
         contents h rbs' = (contents (k_heap k) rbs)(p \<mapsto> n)"
    using kmalloc_step [OF sys size] by blast
  let ?k = "k\<lparr>k_heap := h, k_mm := m\<rparr>"
  have l: "sched_lists ?k xs ys" using sched_lists_quiet [OF assms(1) tame_quiet [OF tame_mem(1)]] .
  have m: "k_malloc process_size k = Some (p, ?k)" using a(1) by (simp add: k_malloc_def)
  show ?thesis
  proof (cases "p = 0")
    case True
    then have "proc_register path entry flags k = Some (0, ?k)" using m by (simp add: proc_register_def process_create_def)
    then show ?thesis using l by auto
  next
    case False
    then obtain rbs' n where c: "heap_system (h, m) rbs'" "contents (k_heap k) rbs p = None"
        "contents h rbs' = (contents (k_heap k) rbs)(p \<mapsto> n)"
      using a(2) by blast
    have out: "p \<notin> set xs \<union> set ys" using assms(2) c(2) unfolding procs_live_def by blast
    from proc_register_some [OF assms(1) m False out, of path entry flags] obtain k' where
      k': "proc_register path entry flags k = Some (p, k')" "sched_lists k' xs (ys @ [p])" "k_heap k' = h" "k_mm k' = m"
        "pr_flags (k_procs k' p) = flags OR PROC_FLAG_CREATE" "pr_entry (k_procs k' p) = entry"
      by auto
    have "procs_live k' rbs' (set xs \<union> set (ys @ [p]))"
      using assms(2) c(1,3) k'(3,4) by (auto simp: procs_live_def)
    then show ?thesis using k' False out by auto
  qed
qed

text \<open>A kernel with one process, in the used block of the small heap.\<close>

definition heap_kernel :: kernel where
  "heap_kernel = \<lparr>
     k_sched = \<lparr>sc_active = \<lparr>pm_head = 0xC0000030, pm_tail = 0xC0000030, pm_current = 0xC0000030, pm_count = 1\<rparr>,
                sc_inactive = procman_empty\<rparr>,
     k_procs = (\<lambda>_. plain_process 1 0 0 0),
     k_heap = small_heap, k_mm = (eight_pages, six_pages, pg_empty 0x300000), k_ram = (\<lambda>_. 0)\<rparr>"

theorem proc_register_fresh_witness:
  "\<exists>p k'. proc_register 0 0xC0100300 1 heap_kernel = Some (p, k') \<and>
     (p \<noteq> 0 \<longrightarrow> p \<noteq> 0xC0000030 \<and> sched_lists k' [0xC0000030] [p])"
proof -
  have l: "sched_lists heap_kernel [0xC0000030] []"
    by (simp add: sched_lists_def plist_def dll_def pl_defs heap_kernel_def plain_process_def scheduler_current_def procman_empty_def)
  have "procs_live heap_kernel [(0xC0000000, [0xC0000020, 0xC0000130])] (set [0xC0000030] \<union> set [])"
    using small_heap_system small_heap_contents(1) by (simp add: procs_live_def heap_kernel_def)
  from proc_register_fresh [OF l this, of 0 "0xC0100300" 1] show ?thesis by (auto split: if_splits)
qed

section \<open>Uses that break the scheduler\<close>

text \<open>
  unloading the running process leaves no current process, and the next switch reports the head of
  the active list as the process that was running, although it was not: the handler then saves the
  registers of the unloaded process over those of the head.
\<close>

theorem unload_running_process_mislabels:
  assumes "sched_lists k (us @ c # vs) ys" and "scheduler_current k = c" and "us @ vs \<noteq> []"
    and "pr_flags (k_procs k c) AND PROC_FLAG_KILL = 0"
    and "pr_ticks (k_procs k (hd (us @ vs))) = 1"
  shows "\<exists>sw nxt k'. scheduler_switch out (scheduler_unload_current_process k) = (sw, (hd (us @ vs), nxt), k') \<and>
    hd (us @ vs) \<noteq> c"
proof -
  let ?h = "hd (us @ vs)"
  define k1 where "k1 = on_inactive (procman_append c) (on_active (procman_remove c) k)"
  define k2 where "k2 = upd_proc c (\<lambda>x. x\<lparr>pr_flags := pr_flags x OR PROC_FLAG_KILL\<rparr>) k1"
  have c: "c \<noteq> 0" and dist: "distinct (us @ c # vs)" using sched_lists_active [OF assms(1)] by auto
  have h: "?h \<in> set (us @ vs)" using assms(3) by (rule hd_in_set)
  then have hc: "?h \<noteq> c" using dist by auto
  have "c \<notin> set (us @ vs)" "c \<notin> set ys" using dist assms(1) by (auto simp: sched_lists_def)
  then have l1: "sched_lists k1 (us @ vs) (ys @ [c])"
    unfolding k1_def using inactive_append [OF active_remove [OF assms(1)] c] by simp
  then have l2: "sched_lists k2 ([] @ ?h # tl (us @ vs)) (ys @ [c])"
    unfolding k2_def using assms(3) by (intro sched_lists_upd) auto
  have k2: "scheduler_unload_current_process k = k2"
    using assms(2,4) c by (simp add: scheduler_unload_current_process_def proc_deregister_def Let_def k1_def k2_def)
  have "scheduler_current k1 = 0" using assms(2) by (simp add: k1_def scheduler_current_def)
  then have run: "running k2 = ?h" using sched_lists_head [OF l2] by (simp add: running_def k2_def)
  have u: "unlinked (k_procs k1 ?h) = unlinked (k_procs k ?h)" by (simp add: k1_def append_fields remove_fields)
  have "pr_ticks (k_procs k2 ?h) = 1" using unlinked_eq [OF u] assms(5) hc by (simp add: k2_def)
  then show ?thesis using scheduler_switch_eq [OF l2 run [symmetric], of out] hc by (simp add: k2 Let_def)
qed

theorem unload_running_process_mislabels_witness:
  "\<exists>sw nxt k'. scheduler_switch (0, 0) (scheduler_unload_current_process (set_current 0x100 demo_kernel)) = (sw, (0x200, nxt), k')"
proof -
  have "sched_lists (set_current 0x100 demo_kernel) ([] @ 0x100 # [0x200, 0x300]) [0x400]"
    using sched_lists_current [OF demo_lists, of "0x100"] by simp
  from unload_running_process_mislabels [OF this, of "(0, 0)"] show ?thesis
    by (simp add: demo_kernel_def plain_process_def PROC_FLAGS)
qed

text \<open>
  unloading a process that is registered and not yet created unlinks it from the wrong list: when
  it is the only inactive process, the active list is empty afterwards, although processes were
  active, and the process is its own successor in the inactive list.
\<close>

theorem unload_inactive_process_loses_active:
  assumes "sched_lists k xs [p]" and "pr_flags (k_procs k p) AND PROC_FLAG_KILL = 0"
  shows "scheduler_head (scheduler_unload_process p k) = 0 \<and> scheduler_tail (scheduler_unload_process p k) = 0 \<and>
    (\<forall>q. \<not> on_list (active_state (scheduler_unload_process p k)) q) \<and>
    pr_next (k_procs (scheduler_unload_process p k) p) = p"
proof -
  let ?k = "scheduler_unload_process p k"
  have i: "plist (inactive_state k) [p]" using assms(1) by (simp add: sched_lists_def)
  have p: "p \<noteq> 0" "pr_next (k_procs k p) = 0" "pr_prev (k_procs k p) = 0" "pm_tail (sc_inactive (k_sched k)) = p"
    using plist_nonzero [OF i, of p] plist_at [of "inactive_state k" "[]" p "[]"] plist_ends [OF i] i by simp_all
  have ends: "scheduler_head ?k = 0" "scheduler_tail ?k = 0" "pr_next (k_procs ?k p) = p"
    using p assms(2)
    by (simp_all add: scheduler_unload_process_def proc_deregister_def Let_def scheduler_head_def scheduler_tail_def
        procman_remove_def procman_append_def upd_ps_def)
  have "\<not> follows ps 0 q" for ps q
    by (rule notI, induction rule: follows.induct) simp_all
  then show ?thesis using ends by (simp add: on_list_def scheduler_head_def)
qed

theorem unload_inactive_process_loses_active_witness:
  "on_list (active_state demo_kernel) 0x200 \<and> \<not> on_list (active_state (scheduler_unload_process 0x400 demo_kernel)) 0x200"
  using unload_inactive_process_loses_active [OF demo_lists] sched_lists_on(1) [OF demo_lists]
  by (simp add: demo_kernel_def plain_process_def PROC_FLAGS)

end
