(* ===== verification/Libc_String.thy ===== *)
theory Libc_String
  imports Tomk_Prelude
begin

text \<open>
  \<^verbatim>\<open>src/libc/string\<close>: the memory and string functions of the C library, over a memory of bytes and
  pointers into it. A loop that looks for the terminating zero byte may run forever, so these
  functions are partial; the theorems say that they return on strings.
\<close>

type_synonym memory = "u32 \<Rightarrow> u8"

section \<open>Memory functions\<close>

text \<open>The loops that copy forwards and backwards; the number is what is left to do.\<close>

primrec memcpy_up :: "nat \<Rightarrow> u32 \<Rightarrow> u32 \<Rightarrow> u32 \<Rightarrow> memory \<Rightarrow> memory" where
  "memcpy_up 0 i dest src mem = mem"
| "memcpy_up (Suc n) i dest src mem = memcpy_up n (i + 1) dest src (mem(dest + i := mem (src + i)))"

primrec memcpy_down :: "nat \<Rightarrow> u32 \<Rightarrow> u32 \<Rightarrow> memory \<Rightarrow> memory" where
  "memcpy_down 0 dest src mem = mem"
| "memcpy_down (Suc n) dest src mem = memcpy_down n dest src (mem(dest + of_nat n := mem (src + of_nat n)))"

definition memcpy :: "u32 \<Rightarrow> u32 \<Rightarrow> u32 \<Rightarrow> memory \<Rightarrow> memory" where
  "memcpy dest src count mem =
    (if dest < src then memcpy_down (unat count) dest src mem else memcpy_up (unat count) 0 dest src mem)"

primrec memset_loop :: "nat \<Rightarrow> u32 \<Rightarrow> u32 \<Rightarrow> u8 \<Rightarrow> memory \<Rightarrow> memory" where
  "memset_loop 0 i dest ch mem = mem"
| "memset_loop (Suc n) i dest ch mem = memset_loop n (i + 1) dest ch (mem(dest + i := ch))"

definition memset :: "u32 \<Rightarrow> u32 \<Rightarrow> u32 \<Rightarrow> memory \<Rightarrow> u32 \<times> memory" where
  "memset dest ch count mem = (dest, memset_loop (unat count) 0 dest (ucast ch) mem)"

primrec memcmp_loop :: "nat \<Rightarrow> u32 \<Rightarrow> memory \<Rightarrow> u32 \<Rightarrow> u32 \<Rightarrow> int" where
  "memcmp_loop 0 i mem lhs rhs = 0"
| "memcmp_loop (Suc n) i mem lhs rhs =
    (if mem (lhs + i) \<noteq> mem (rhs + i) then 1 else memcmp_loop n (i + 1) mem lhs rhs)"

definition memcmp :: "memory \<Rightarrow> u32 \<Rightarrow> u32 \<Rightarrow> u32 \<Rightarrow> int" where
  "memcmp mem lhs rhs count = memcmp_loop (unat count) 0 mem lhs rhs"

section \<open>String functions\<close>

partial_function (option) strlen_loop :: "memory \<Rightarrow> u32 \<Rightarrow> u32 \<Rightarrow> u32 option" where
  "strlen_loop mem str len = (if mem str \<noteq> 0 then strlen_loop mem (str + 1) (len + 1) else Some len)"

definition strlen :: "memory \<Rightarrow> u32 \<Rightarrow> u32 option" where
  "strlen mem str = strlen_loop mem str 0"

text \<open>\<^verbatim>\<open>strcpy\<close> copies up to the terminator and does not write one.\<close>

partial_function (option) strcpy_loop :: "u32 \<Rightarrow> u32 \<Rightarrow> memory \<Rightarrow> memory option" where
  "strcpy_loop dest src mem =
    (if mem src \<noteq> 0 then strcpy_loop (dest + 1) (src + 1) (mem(dest := mem src)) else Some mem)"

definition strcpy :: "u32 \<Rightarrow> u32 \<Rightarrow> memory \<Rightarrow> (u32 \<times> memory) option" where
  "strcpy dest src mem = map_option (\<lambda>mem. (dest, mem)) (strcpy_loop dest src mem)"

definition upper :: "u8 \<Rightarrow> u8" where
  "upper c = (if 0x61 \<le> c \<and> c \<le> 0x7A then c - 0x20 else c)"

partial_function (option) strcmp :: "memory \<Rightarrow> u32 \<Rightarrow> u32 \<Rightarrow> int option" where
  "strcmp mem s1 s2 =
    (let c1 = mem s1; c2 = mem s2 in
     if c1 \<noteq> c2 then Some (if c1 < c2 then -1 else 1)
     else if c1 = 0 then Some 0
     else strcmp mem (s1 + 1) (s2 + 1))"

partial_function (option) stricmp :: "memory \<Rightarrow> u32 \<Rightarrow> u32 \<Rightarrow> int option" where
  "stricmp mem s1 s2 =
    (let c1 = upper (mem s1); c2 = upper (mem s2) in
     if c1 \<noteq> c2 then Some (if c1 < c2 then -1 else 1)
     else if c1 = 0 then Some 0
     else stricmp mem (s1 + 1) (s2 + 1))"

primrec strncmp_loop :: "nat \<Rightarrow> u32 \<Rightarrow> memory \<Rightarrow> u32 \<Rightarrow> u32 \<Rightarrow> int" where
  "strncmp_loop 0 i mem s1 s2 = 0"
| "strncmp_loop (Suc n) i mem s1 s2 =
    (let c1 = mem (s1 + i); c2 = mem (s2 + i) in
     if c1 \<noteq> c2 then (if c1 < c2 then -1 else 1)
     else if c1 = 0 then 0
     else strncmp_loop n (i + 1) mem s1 s2)"

definition strncmp :: "memory \<Rightarrow> u32 \<Rightarrow> u32 \<Rightarrow> u32 \<Rightarrow> int" where
  "strncmp mem s1 s2 sz = strncmp_loop (unat sz) 0 mem s1 s2"

primrec strincmp_loop :: "nat \<Rightarrow> u32 \<Rightarrow> memory \<Rightarrow> u32 \<Rightarrow> u32 \<Rightarrow> int" where
  "strincmp_loop 0 i mem s1 s2 = 0"
| "strincmp_loop (Suc n) i mem s1 s2 =
    (let c1 = upper (mem (s1 + i)); c2 = upper (mem (s2 + i)) in
     if c1 \<noteq> c2 then (if c1 < c2 then -1 else 1)
     else if c1 = 0 then 0
     else strincmp_loop n (i + 1) mem s1 s2)"

definition strincmp :: "memory \<Rightarrow> u32 \<Rightarrow> u32 \<Rightarrow> u32 \<Rightarrow> int" where
  "strincmp mem s1 s2 sz = strincmp_loop (unat sz) 0 mem s1 s2"

text \<open>The inner loop of \<^verbatim>\<open>strspn\<close> and \<^verbatim>\<open>strcspn\<close>: where \<open>c\<close> is in the set, or its end.\<close>

partial_function (option) set_index :: "memory \<Rightarrow> u8 \<Rightarrow> u32 \<Rightarrow> u32 \<Rightarrow> u32 option" where
  "set_index mem c src j =
    (if mem (src + j) \<noteq> 0 then if mem (src + j) = c then Some j else set_index mem c src (j + 1) else Some j)"

partial_function (option) strspn_loop :: "memory \<Rightarrow> u32 \<Rightarrow> u32 \<Rightarrow> u32 \<Rightarrow> u32 option" where
  "strspn_loop mem dest src i =
    (if mem (dest + i) \<noteq> 0
     then do {
       j \<leftarrow> set_index mem (mem (dest + i)) src 0;
       if mem (src + j) = 0 then Some i else strspn_loop mem dest src (i + 1) }
     else Some i)"

definition strspn :: "memory \<Rightarrow> u32 \<Rightarrow> u32 \<Rightarrow> u32 option" where
  "strspn mem dest src = (if dest = 0 \<or> src = 0 then Some 0 else strspn_loop mem dest src 0)"

partial_function (option) strcspn_loop :: "memory \<Rightarrow> u32 \<Rightarrow> u32 \<Rightarrow> u32 \<Rightarrow> u32 option" where
  "strcspn_loop mem dest src i =
    (if mem (dest + i) \<noteq> 0
     then do {
       j \<leftarrow> set_index mem (mem (dest + i)) src 0;
       if mem (src + j) \<noteq> 0 then Some i else strcspn_loop mem dest src (i + 1) }
     else Some i)"

definition strcspn :: "memory \<Rightarrow> u32 \<Rightarrow> u32 \<Rightarrow> u32 option" where
  "strcspn mem dest src = (if dest = 0 \<or> src = 0 then Some 0 else strcspn_loop mem dest src 0)"

section \<open>Strings in memory\<close>

text \<open>The bytes at \<open>p\<close> up to the terminator; addresses wrap around.\<close>

primrec cstr :: "memory \<Rightarrow> u32 \<Rightarrow> u8 list \<Rightarrow> bool" where
  "cstr mem p [] \<longleftrightarrow> mem p = 0"
| "cstr mem p (c # cs) \<longleftrightarrow> mem p = c \<and> c \<noteq> 0 \<and> cstr mem (p + 1) cs"

lemma cstr_hd: "cstr mem p s \<Longrightarrow> mem p = (case s of [] \<Rightarrow> 0 | c # _ \<Rightarrow> c)"
  by (cases s) simp_all

lemma strlen_loop_cstr: "cstr mem p s \<Longrightarrow> strlen_loop mem p n = Some (n + of_nat (length s))"
proof (induction s arbitrary: p n)
  case (Cons c s)
  then show ?case by (subst strlen_loop.simps) (simp add: algebra_simps)
qed (subst strlen_loop.simps, simp)

lemma strlen_cstr: "cstr mem p s \<Longrightarrow> strlen mem p = Some (of_nat (length s))"
  by (simp add: strlen_def strlen_loop_cstr)

text \<open>The order of strings by their bytes.\<close>

fun order :: "u8 list \<Rightarrow> u8 list \<Rightarrow> int" where
  "order [] [] = 0"
| "order [] (d # ds) = -1"
| "order (c # cs) [] = 1"
| "order (c # cs) (d # ds) = (if c < d then -1 else if d < c then 1 else order cs ds)"

lemma zero_less: "c \<noteq> 0 \<Longrightarrow> (0 :: u8) < c"
  by (simp add: word_gt_0)

lemma strcmp_order: "cstr mem p s \<Longrightarrow> cstr mem q t \<Longrightarrow> strcmp mem p q = Some (order s t)"
proof (induction s t arbitrary: p q rule: order.induct)
  case 1
  then show ?case by (subst strcmp.simps) simp
next
  case (2 d ds)
  then show ?case by (subst strcmp.simps) (simp add: zero_less)
next
  case (3 c cs)
  then show ?case by (subst strcmp.simps) (simp add: zero_less)
next
  case (4 c cs d ds)
  then show ?case by (subst strcmp.simps) (auto simp: not_less)
qed

lemma upper_zero [simp]: "upper c = 0 \<longleftrightarrow> c = 0"
proof (cases "0x61 \<le> c \<and> c \<le> 0x7A")
  case True
  then show ?thesis by (auto simp: upper_def word_le_nat_alt)
qed (auto simp: upper_def)

lemma upper_0 [simp]: "upper 0 = 0"
  by (simp add: upper_def)

lemma stricmp_order: "cstr mem p s \<Longrightarrow> cstr mem q t \<Longrightarrow> stricmp mem p q = Some (order (map upper s) (map upper t))"
proof (induction s arbitrary: p q t)
  case Nil
  then show ?case by (cases t; subst stricmp.simps) (auto simp: zero_less Let_def)
next
  case (Cons c s)
  show ?case
  proof (cases t)
    case Nil
    then show ?thesis using Cons.prems by (subst stricmp.simps) (auto simp: zero_less Let_def)
  next
    case (Cons d ds)
    then have "stricmp mem (p + 1) (q + 1) = Some (order (map upper s) (map upper ds))"
      using Cons.IH Cons.prems by simp
    then show ?thesis using Cons Cons.prems by (subst stricmp.simps) (auto simp: Let_def)
  qed
qed

section \<open>Copying\<close>

lemma offset_inj: "\<lbrakk>i < n; j < n; n \<le> 4294967296; (p :: u32) + of_nat i = p + of_nat j\<rbrakk> \<Longrightarrow> i = j"
proof -
  assume n: "i < n" "j < n" "n \<le> 4294967296" and "p + of_nat i = p + of_nat j"
  then have "unat (of_nat i :: u32) = unat (of_nat j :: u32)" by simp
  then show "i = j" using n by (simp add: unat_of_nat_u32)
qed

text \<open>What a copy of \<open>n\<close> bytes between ranges that do not overlap does.\<close>

definition copied :: "nat \<Rightarrow> u32 \<Rightarrow> u32 \<Rightarrow> memory \<Rightarrow> memory \<Rightarrow> bool" where
  "copied n dest src mem mem' \<longleftrightarrow> (\<forall>i < n. mem' (dest + of_nat i) = mem (src + of_nat i)) \<and>
     (\<forall>a. (\<forall>i < n. a \<noteq> dest + of_nat i) \<longrightarrow> mem' a = mem a)"

lemma memcpy_up_copies:
  assumes "\<And>i j. \<lbrakk>i < n; j < n\<rbrakk> \<Longrightarrow> dest + of_nat i \<noteq> src + of_nat j" and "n \<le> 4294967296" and "k \<le> n"
    and "copied k dest src mem0 mem"
  shows "copied n dest src mem0 (memcpy_up (n - k) (of_nat k) dest src mem)"
  using assms(3,4)
proof (induction "n - k" arbitrary: k mem)
  case 0
  then show ?case by simp
next
  case (Suc m)
  let ?mem = "mem(dest + of_nat k := mem (src + of_nat k))"
  have k: "k < n" using Suc.hyps(2) by simp
  have src: "mem (src + of_nat k) = mem0 (src + of_nat k)"
  proof -
    have "\<forall>i < k. src + of_nat k \<noteq> dest + of_nat i" using assms(1) [of _ k] k by (metis less_trans)
    then show ?thesis using Suc.prems(2) by (simp add: copied_def)
  qed
  have "?mem (dest + of_nat i) = mem0 (src + of_nat i)" if "i < Suc k" for i
  proof (cases "i = k")
    case False
    then have "dest + of_nat i \<noteq> dest + of_nat k" using offset_inj [of i n k dest] that k assms(2) by auto
    then show ?thesis using Suc.prems(2) that False by (simp add: copied_def)
  qed (simp add: src)
  moreover have "?mem a = mem0 a" if "\<forall>i < Suc k. a \<noteq> dest + of_nat i" for a
    using Suc.prems(2) that by (simp add: copied_def)
  ultimately have "copied (Suc k) dest src mem0 ?mem" unfolding copied_def by blast
  from Suc.hyps(1) [OF _ _ this] k Suc.hyps(2)
  have "copied n dest src mem0 (memcpy_up m (of_nat (Suc k)) dest src ?mem)" by (metis Suc_leI diff_Suc diff_Suc_Suc diff_Suc_1 Suc_diff_Suc)
  then show ?case using Suc.hyps(2) [symmetric] by (simp add: add.commute)
qed

lemma memcpy_down_copies:
  assumes "\<And>i j. \<lbrakk>i < n; j < n\<rbrakk> \<Longrightarrow> dest + of_nat i \<noteq> src + of_nat j" and "n \<le> 4294967296"
  shows "copied n dest src mem (memcpy_down n dest src mem)"
  using assms
proof (induction n arbitrary: mem)
  case 0
  then show ?case by (simp add: copied_def)
next
  case (Suc n)
  let ?mem = "mem(dest + of_nat n := mem (src + of_nat n))"
  let ?r = "memcpy_down n dest src ?mem"
  have c: "copied n dest src ?mem ?r" by (rule Suc.IH) (use Suc.prems in auto)
  have apart: "src + of_nat i \<noteq> dest + of_nat n" if "i < n" for i
    using Suc.prems(1) [of n i] that by simp
  have "?r (dest + of_nat i) = mem (src + of_nat i)" if "i < Suc n" for i
  proof (cases "i = n")
    case True
    have "\<forall>j < n. dest + of_nat n \<noteq> dest + of_nat j"
      using offset_inj [of n "Suc n" _ dest, OF lessI _ Suc.prems(2)] less_SucI less_irrefl by metis
    then show ?thesis using c True by (simp add: copied_def)
  next
    case False
    then have i: "i < n" using that by simp
    then have "?r (dest + of_nat i) = ?mem (src + of_nat i)" using c unfolding copied_def by blast
    then show ?thesis using apart [OF i] by simp
  qed
  moreover have "?r a = mem a" if "\<forall>i < Suc n. a \<noteq> dest + of_nat i" for a
    using c that unfolding copied_def by (metis fun_upd_other less_Suc_eq)
  ultimately show ?case unfolding copied_def by simp
qed

lemma memset_loop_fills:
  "n + k \<le> 4294967296 \<Longrightarrow> memset_loop n (of_nat k) dest ch mem a =
     (if \<exists>i. k \<le> i \<and> i < k + n \<and> a = dest + of_nat i then ch else mem a)"
proof (induction n arbitrary: k mem)
  case (Suc n)
  have "memset_loop (Suc n) (of_nat k) dest ch mem a = memset_loop n (of_nat (Suc k)) dest ch (mem(dest + of_nat k := ch)) a"
    by (simp add: add.commute)
  also have "\<dots> = (if \<exists>i. Suc k \<le> i \<and> i < Suc k + n \<and> a = dest + of_nat i then ch else (mem(dest + of_nat k := ch)) a)"
    by (rule Suc.IH) (use Suc.prems in simp)
  finally have "memset_loop (Suc n) (of_nat k) dest ch mem a =
      (if \<exists>i. Suc k \<le> i \<and> i < Suc k + n \<and> a = dest + of_nat i then ch else (mem(dest + of_nat k := ch)) a)" .
  moreover have "(\<exists>i. k \<le> i \<and> i < k + Suc n \<and> a = dest + of_nat i) \<longleftrightarrow>
      a = dest + of_nat k \<or> (\<exists>i. Suc k \<le> i \<and> i < Suc k + n \<and> a = dest + of_nat i)"
    by (metis Suc_le_eq add_Suc add_Suc_right le_add1 le_eq_less_or_eq less_Suc_eq_le order_refl)
  ultimately show ?case by auto
qed auto

text \<open>
  \<^verbatim>\<open>memcpy\<close> between ranges that do not overlap copies every byte and changes nothing else, whichever
  of its two loops it takes.
\<close>

theorem memcpy_copies:
  assumes "\<And>i j. \<lbrakk>i < unat count; j < unat count\<rbrakk> \<Longrightarrow> dest + of_nat i \<noteq> src + of_nat j"
  shows "copied (unat count) dest src mem (memcpy dest src count mem)"
proof (cases "dest < src")
  case True
  then show ?thesis using memcpy_down_copies [of "unat count", OF assms] unat_less_u32 [of count] by (simp add: memcpy_def)
next
  case False
  have "copied 0 dest src mem mem" by (simp add: copied_def)
  then show ?thesis
    using memcpy_up_copies [of "unat count" dest src 0 mem mem, OF assms] False unat_less_u32 [of count] by (simp add: memcpy_def)
qed

theorem memcpy_copies_witness:
  "memcpy 0x100 0x200 3 (\<lambda>a. ucast a) 0x102 = 2 \<and> copied 3 0x100 0x200 (\<lambda>a. ucast a) (memcpy 0x100 0x200 3 (\<lambda>a. ucast a))"
proof -
  have "i < 3 \<Longrightarrow> j < 3 \<Longrightarrow> (0x100 :: u32) + of_nat i \<noteq> 0x200 + of_nat j" for i j :: nat
    by (auto simp: numeral_3_eq_3 less_Suc_eq)
  then have c: "copied 3 0x100 0x200 (\<lambda>a. ucast a) (memcpy 0x100 0x200 3 (\<lambda>a. ucast a))"
    using memcpy_copies [of 3 "0x100" "0x200" "\<lambda>a. ucast a"] by simp
  then have "\<forall>i < 3. memcpy 0x100 0x200 3 (\<lambda>a. ucast a) (0x100 + of_nat i) = (ucast (0x200 + of_nat i :: u32) :: u8)"
    by (simp add: copied_def)
  from this [rule_format, of 2] have "memcpy 0x100 0x200 3 (\<lambda>a. ucast a) 0x102 = (2 :: u8)" by simp
  then show ?thesis using c by simp
qed

text \<open>
  the comparison functions return on strings and agree with the lexicographic order of their bytes,
  which for \<^verbatim>\<open>stricmp\<close> are taken as capital letters; \<^verbatim>\<open>strlen\<close> is the number of bytes.
\<close>

theorem string_functions_order:
  assumes "cstr mem p s" and "cstr mem q t"
  shows "strcmp mem p q = Some (order s t) \<and> stricmp mem p q = Some (order (map upper s) (map upper t)) \<and>
    strlen mem p = Some (of_nat (length s))"
  using strcmp_order [OF assms] stricmp_order [OF assms] strlen_cstr [OF assms(1)] by simp

theorem string_functions_order_witness:
  "strcmp (\<lambda>a. if a = 8 then 0x61 else if a = 16 then 0x42 else 0) 8 16 = Some 1 \<and>
   stricmp (\<lambda>a. if a = 8 then 0x61 else if a = 16 then 0x42 else 0) 8 16 = Some (-1)"
  using string_functions_order [of "\<lambda>a. if a = 8 then 0x61 else if a = 16 then 0x42 else 0" 8 "[0x61]" 16 "[0x42]"]
  by (simp add: upper_def)

end
