(* ===== verification/Tty.thy ===== *)
theory Tty
  imports Libc_String
begin

text \<open>
  \<^verbatim>\<open>src/video/tty.c\<close> and \<^verbatim>\<open>vga.h\<close>: the text terminal on the VGA buffer. The state holds the static
  variables of the file, the memory that holds the VGA buffer, and the bytes written to the ports of
  the display controller, in order. \<^verbatim>\<open>char\<close> is signed on the target, so that the cast in \<^verbatim>\<open>vga_entry\<close>
  extends the sign.
\<close>

section \<open>Data\<close>

definition VGA_COLOR_BLACK :: u8 where "VGA_COLOR_BLACK = 0"

definition VGA_COLOR_LIGHT_GREY :: u8 where "VGA_COLOR_LIGHT_GREY = 7"

definition VGA_WIDTH :: u32 where "VGA_WIDTH = 80"

definition VGA_HEIGHT :: u32 where "VGA_HEIGHT = 25"

definition VGA_MEMORY :: u32 where "VGA_MEMORY = 0xC00B8000"

definition vga_entry_color :: "u8 \<Rightarrow> u8 \<Rightarrow> u8" where
  "vga_entry_color fg bg = fg OR push_bit 4 bg"

definition vga_entry :: "u8 \<Rightarrow> u8 \<Rightarrow> u16" where
  "vga_entry uc color = scast uc OR push_bit 8 (ucast color)"

record tty =
  tty_row :: u32
  tty_column :: u32
  tty_color :: u8
  tty_memory :: memory
  tty_ports :: "(u16 \<times> u8) list"

text \<open>The store \<^verbatim>\<open>((uint16_t*)VGA_MEMORY)[index] = entry\<close>, little endian.\<close>

definition vga_address :: "u32 \<Rightarrow> u32" where
  "vga_address index = VGA_MEMORY + 2 * index"

definition vga_store :: "u32 \<Rightarrow> u16 \<Rightarrow> tty \<Rightarrow> tty" where
  "vga_store index e t =
     t\<lparr>tty_memory := (tty_memory t)(vga_address index := ucast e, vga_address index + 1 := ucast (drop_bit 8 e))\<rparr>"

definition outb :: "u16 \<Rightarrow> u8 \<Rightarrow> tty \<Rightarrow> tty" where
  "outb port v t = t\<lparr>tty_ports := tty_ports t @ [(port, v)]\<rparr>"

section \<open>Operations\<close>

definition cursor_move :: "u32 \<Rightarrow> u32 \<Rightarrow> tty \<Rightarrow> tty" where
  "cursor_move x y t =
    (let pos = y * VGA_WIDTH + x;
         t = outb 0x3D4 0x0F t;
         t = outb 0x3D5 (ucast (pos AND 0xFF)) t;
         t = outb 0x3D4 0x0E t
     in outb 0x3D5 (ucast (drop_bit 8 pos AND 0xFF)) t)"

text \<open>The byte that the controller returns for \<^verbatim>\<open>inb(0x3D5)\<close> is the argument.\<close>

definition cursor_enable :: "u8 \<Rightarrow> tty \<Rightarrow> tty" where
  "cursor_enable start t =
    (let t = outb 0x3D4 0x0A t;
         start = start AND 0x1F;
         start = start AND NOT (push_bit 5 1);
         t = outb 0x3D4 0x0A t;
         t = outb 0x3D5 start t;
         t = outb 0x3D4 0x0B t
     in outb 0x3D5 0x0F t)"

definition tty_pute :: "u8 \<Rightarrow> u8 \<Rightarrow> u32 \<Rightarrow> u32 \<Rightarrow> tty \<Rightarrow> tty" where
  "tty_pute c color x y t = vga_store (y * VGA_WIDTH + x) (vga_entry c color) t"

text \<open>The rows and columns of the loop of \<^verbatim>\<open>tty_clear_screen\<close>.\<close>

definition clear_row :: "nat \<Rightarrow> tty \<Rightarrow> tty" where
  "clear_row y t = fold (\<lambda>x t. vga_store (of_nat y * VGA_WIDTH + of_nat x) (vga_entry 0x20 (tty_color t)) t) [0 ..< 80] t"

definition tty_clear_screen :: "tty \<Rightarrow> tty" where
  "tty_clear_screen t =
    (let t = fold clear_row [0 ..< 25] t
     in cursor_move 0 0 (t\<lparr>tty_row := 0, tty_column := 0\<rparr>))"

definition tty_init :: "u8 \<Rightarrow> tty \<Rightarrow> tty" where
  "tty_init start t =
     tty_clear_screen (cursor_enable start (t\<lparr>tty_color := vga_entry_color VGA_COLOR_LIGHT_GREY VGA_COLOR_BLACK\<rparr>))"

definition tty_clear_line :: "u32 \<Rightarrow> u32 \<Rightarrow> tty \<Rightarrow> tty" where
  "tty_clear_line x y t =
     fold (\<lambda>i t. tty_pute 0x20 (tty_color t) (of_nat i) y t) [unat x ..< unat VGA_WIDTH] t"

definition tty_set_position :: "u32 \<Rightarrow> u32 \<Rightarrow> tty \<Rightarrow> tty" where
  "tty_set_position x y t =
    (let row = (if VGA_HEIGHT \<le> y then VGA_HEIGHT - 1 else y);
         column = (if VGA_WIDTH \<le> x then VGA_WIDTH - 1 else x)
     in cursor_move column row (t\<lparr>tty_row := row, tty_column := column\<rparr>))"

definition tty_get_position :: "tty \<Rightarrow> u32 \<times> u32" where
  "tty_get_position t = (tty_column t, tty_row t)"

definition tty_set_color :: "u8 \<Rightarrow> tty \<Rightarrow> tty" where
  "tty_set_color color t = t\<lparr>tty_color := color AND 0xF\<rparr>"

definition tty_putc :: "u8 \<Rightarrow> tty \<Rightarrow> tty" where
  "tty_putc c t =
    (let r = c = 0x0D \<or> c = 0x0A \<or> c = 0x09 \<or> c = 0x08;
         t = (if \<not> r then tty_pute c (tty_color t) (tty_column t) (tty_row t) t else t);
         (t, u) =
           (if c = 0x0A \<and> tty_column t < VGA_WIDTH then (tty_clear_line (tty_column t) (tty_row t) t, True)
            else if c = 0x0A then (t, True)
            else let t = t\<lparr>tty_column := tty_column t + 1\<rparr> in (t, VGA_WIDTH \<le> tty_column t));
         t = (if u then
                let t = t\<lparr>tty_column := 0, tty_row := tty_row t + 1\<rparr>
                in if VGA_HEIGHT \<le> tty_row t then t\<lparr>tty_row := 0\<rparr> else t
              else t)
     in cursor_move (tty_column t) (tty_row t) t)"

section \<open>The screen\<close>

text \<open>
  What the terminal promises: a grid of 25 rows of 80 cells and a position in it. \<open>screen_putc\<close> is the
  specification of \<^verbatim>\<open>tty_putc\<close> on natural numbers.
\<close>

record screen =
  cells :: "nat \<Rightarrow> nat \<Rightarrow> u16"
  pos_x :: nat
  pos_y :: nat
  color :: u8

definition put_cell :: "nat \<Rightarrow> nat \<Rightarrow> u16 \<Rightarrow> screen \<Rightarrow> screen" where
  "put_cell x y e s = s\<lparr>cells := (cells s)(y := (cells s y)(x := e))\<rparr>"

definition next_line :: "screen \<Rightarrow> screen" where
  "next_line s = s\<lparr>pos_x := 0, pos_y := (pos_y s + 1) mod 25\<rparr>"

definition screen_putc :: "u8 \<Rightarrow> screen \<Rightarrow> screen" where
  "screen_putc c s =
    (if c = 0x0A then
       next_line (s\<lparr>cells := (cells s)(pos_y s := \<lambda>x. if pos_x s \<le> x \<and> x < 80 then vga_entry 0x20 (color s) else cells s (pos_y s) x)\<rparr>)
     else
       let s = (if c \<in> {0x0D, 0x09, 0x08} then s else put_cell (pos_x s) (pos_y s) (vga_entry c (color s)) s)
       in if pos_x s = 79 then next_line s else s\<lparr>pos_x := pos_x s + 1\<rparr>)"

text \<open>The cell of the VGA buffer, and the screen that the terminal shows.\<close>

definition vga_cell :: "memory \<Rightarrow> nat \<Rightarrow> nat \<Rightarrow> u16" where
  "vga_cell mem y x = (if y < 25 \<and> x < 80 then
     let a = vga_address (of_nat (80 * y + x)) in ucast (mem a) OR push_bit 8 (ucast (mem (a + 1))) else 0)"

definition screen_of :: "tty \<Rightarrow> screen" where
  "screen_of t = \<lparr>cells = vga_cell (tty_memory t), pos_x = unat (tty_column t), pos_y = unat (tty_row t), color = tty_color t\<rparr>"

definition tty_ok :: "tty \<Rightarrow> bool" where
  "tty_ok t \<longleftrightarrow> tty_row t < VGA_HEIGHT \<and> tty_column t < VGA_WIDTH \<and> tty_color t < 16"

text \<open>Memory that differs in the VGA buffer only.\<close>

definition only_screen :: "memory \<Rightarrow> memory \<Rightarrow> bool" where
  "only_screen mem mem' \<longleftrightarrow> (\<forall>a. \<not> (VGA_MEMORY \<le> a \<and> a < VGA_MEMORY + 4000) \<longrightarrow> mem' a = mem a)"

section \<open>The buffer\<close>

lemma unat_vga_address: "k < 2000 \<Longrightarrow> unat (vga_address (of_nat k)) = 0xC00B8000 + 2 * k"
  by (simp add: vga_address_def VGA_MEMORY_def unat_word_ariths unat_of_nat take_bit_nat_eq_self)

lemma unat_vga_address_1: "k < 2000 \<Longrightarrow> unat (vga_address (of_nat k) + 1) = 0xC00B8000 + 2 * k + 1"
  using unat_vga_address [of k] by (simp add: unat_word_ariths)

lemma join_bytes: "ucast (ucast e :: u8) OR push_bit 8 (ucast (ucast (drop_bit 8 e) :: u8)) = (e :: u16)"
  by (rule bit_word_eqI) (auto simp: bit_simps)

lemma cell_index:
  "\<lbrakk>x < 80; x' < 80\<rbrakk> \<Longrightarrow> 80 * y + x = 80 * y' + x' \<longleftrightarrow> y = y' \<and> x = (x' :: nat)"
  by (cases y y' rule: linorder_cases) auto

lemma vga_cell_store:
  assumes "x < 80" and "y < 25"
  shows "vga_cell (tty_memory (vga_store (of_nat (80 * y + x)) e t)) =
    (vga_cell (tty_memory t))(y := (vga_cell (tty_memory t) y)(x := e))"
proof (intro ext)
  fix y' x'
  show "vga_cell (tty_memory (vga_store (of_nat (80 * y + x)) e t)) y' x' =
      ((vga_cell (tty_memory t))(y := (vga_cell (tty_memory t) y)(x := e))) y' x'"
  proof (cases "y' < 25 \<and> x' < 80")
    case True
    let ?k = "80 * y + x" and ?l = "80 * y' + x'"
    have k: "?k < 2000" "?l < 2000" using assms True by linarith+
    have inj: "?l = ?k \<longleftrightarrow> y' = y \<and> x' = x" using cell_index True assms(1) by blast
    have parity: "2 * i + 1 \<noteq> 2 * j" for i j :: nat by presburger
    have eq: "vga_address (of_nat ?l) = vga_address (of_nat ?k) \<longleftrightarrow> ?l = ?k"
      "vga_address (of_nat ?l) + 1 = vga_address (of_nat ?k) + 1 \<longleftrightarrow> ?l = ?k"
      "vga_address (of_nat ?l) \<noteq> vga_address (of_nat ?k) + 1" "vga_address (of_nat ?l) + 1 \<noteq> vga_address (of_nat ?k)"
      unfolding word_unat_eq_iff unat_vga_address [OF k(1)] unat_vga_address [OF k(2)] unat_vga_address_1 [OF k(1)]
        unat_vga_address_1 [OF k(2)] using parity [of ?k ?l] parity [of ?l ?k] by (simp_all only: add_left_cancel add_right_cancel add.assoc) auto
    then show ?thesis
      using True eq inj assms by (auto simp: vga_cell_def vga_store_def Let_def join_bytes)
  qed (use assms in \<open>auto simp: vga_cell_def\<close>)
qed

lemma only_screen_store:
  assumes "x < 80" and "y < 25"
  shows "only_screen (tty_memory t) (tty_memory (vga_store (of_nat (80 * y + x)) e t))"
proof -
  have k: "80 * y + x < 2000" using assms by linarith
  have "VGA_MEMORY \<le> a \<and> a < VGA_MEMORY + 4000"
    if "a = vga_address (of_nat (80 * y + x)) \<or> a = vga_address (of_nat (80 * y + x)) + 1" for a
    using that unat_vga_address [OF k] unat_vga_address_1 [OF k] k by (auto simp: word_le_nat_alt word_less_nat_alt VGA_MEMORY_def)
  then show ?thesis by (auto simp: only_screen_def vga_store_def)
qed

lemma only_screen_refl [simp]: "only_screen mem mem"
  by (simp add: only_screen_def)

lemma only_screen_trans: "\<lbrakk>only_screen a b; only_screen b c\<rbrakk> \<Longrightarrow> only_screen a c"
  by (auto simp: only_screen_def)

lemma tty_pute_store:
  assumes "unat x < 80" and "unat y < 25"
  shows "tty_pute c col x y t = vga_store (of_nat (80 * unat y + unat x)) (vga_entry c col) t"
  using assms by (simp add: tty_pute_def VGA_WIDTH_def mult.commute)

lemma vga_store_simps [simp]:
  "tty_row (vga_store i e t) = tty_row t" "tty_column (vga_store i e t) = tty_column t"
  "tty_color (vga_store i e t) = tty_color t" "tty_ports (vga_store i e t) = tty_ports t"
  by (simp_all add: vga_store_def)

lemma cursor_move_simps [simp]:
  "tty_row (cursor_move x y t) = tty_row t" "tty_column (cursor_move x y t) = tty_column t"
  "tty_color (cursor_move x y t) = tty_color t" "tty_memory (cursor_move x y t) = tty_memory t"
  by (simp_all add: cursor_move_def outb_def Let_def)

text \<open>Clearing cells from one column on, in steps.\<close>

definition clear_cell :: "nat \<Rightarrow> nat \<Rightarrow> tty \<Rightarrow> tty" where
  "clear_cell y x t = vga_store (of_nat (80 * y + x)) (vga_entry 0x20 (tty_color t)) t"

definition blank_from :: "nat \<Rightarrow> nat \<Rightarrow> u8 \<Rightarrow> (nat \<Rightarrow> u16) \<Rightarrow> nat \<Rightarrow> u16" where
  "blank_from m n col row = (\<lambda>x. if m \<le> x \<and> x < n then vga_entry 0x20 col else row x)"

lemma clear_cells:
  assumes "y < 25" and "m \<le> n"
  shows "n \<le> 80 \<Longrightarrow> (let t' = fold (clear_cell y) [m ..< n] t in
     vga_cell (tty_memory t') = (vga_cell (tty_memory t))(y := blank_from m n (tty_color t) (vga_cell (tty_memory t) y)) \<and>
     only_screen (tty_memory t) (tty_memory t') \<and>
     tty_row t' = tty_row t \<and> tty_column t' = tty_column t \<and> tty_color t' = tty_color t \<and>
     tty_ports t' = tty_ports t)"
  using assms(2)
proof (induction rule: dec_induct)
  case base
  have "blank_from m m c row = row" for c row by (auto simp: blank_from_def fun_eq_iff)
  then show ?case by simp
next
  case (step n)
  define t1 where "t1 = fold (clear_cell y) [m ..< n] t"
  have "n \<le> 80" using step.prems by simp
  note IH' = step.IH [OF this, unfolded Let_def, folded t1_def]
  have IH: "vga_cell (tty_memory t1) = (vga_cell (tty_memory t))(y := blank_from m n (tty_color t) (vga_cell (tty_memory t) y))"
    "only_screen (tty_memory t) (tty_memory t1)" "tty_row t1 = tty_row t" "tty_column t1 = tty_column t" "tty_color t1 = tty_color t"
    "tty_ports t1 = tty_ports t" using IH' by blast+
  have n: "n < 80" using step.prems by simp
  have t': "fold (clear_cell y) [m ..< Suc n] t = vga_store (of_nat (80 * y + n)) (vga_entry 0x20 (tty_color t)) t1"
    using step.hyps IH(5) by (simp add: t1_def clear_cell_def)
  have "(blank_from m n (tty_color t) row)(n := vga_entry 0x20 (tty_color t)) = blank_from m (Suc n) (tty_color t) row" for row
    using step.hyps by (auto simp: blank_from_def)
  then show ?case
    unfolding t' Let_def vga_cell_store [OF n assms(1)]
    using only_screen_trans [OF IH(2) only_screen_store [OF n assms(1)]] IH by simp
qed

lemma tty_clear_line_cells:
  assumes "x < VGA_WIDTH" and "y < VGA_HEIGHT"
  shows "tty_clear_line x y t = fold (clear_cell (unat y)) [unat x ..< 80] t"
proof -
  have y: "unat y < 25" using assms(2) by (simp add: word_less_nat_alt VGA_HEIGHT_def)
  have "fold (\<lambda>i t. tty_pute 0x20 (tty_color t) (of_nat i) y t) [unat x ..< 80] t = fold (clear_cell (unat y)) [unat x ..< 80] t"
  proof (rule fold_cong)
    fix i
    assume "i \<in> set [unat x ..< 80]"
    then have "unat (of_nat i :: u32) = i" "i < 80" by (simp_all add: unat_of_nat take_bit_nat_eq_self)
    then show "(\<lambda>t. tty_pute 0x20 (tty_color t) (of_nat i) y t) = clear_cell (unat y) i"
      using y by (simp add: fun_eq_iff tty_pute_store clear_cell_def)
  qed simp_all
  then show ?thesis by (simp add: tty_clear_line_def VGA_WIDTH_def)
qed

section \<open>The terminal implements the screen\<close>

text \<open>The bytes that move the cursor to a position.\<close>

definition cursor_bytes :: "nat \<Rightarrow> nat \<Rightarrow> (u16 \<times> u8) list" where
  "cursor_bytes x y = [(0x3D4, 0x0F), (0x3D5, of_nat ((80 * y + x) mod 256)), (0x3D4, 0x0E), (0x3D5, of_nat ((80 * y + x) div 256))]"

lemma and_ff: "unat ((w :: u32) AND 0xFF) = unat w mod 256"
  using unat_and_mask_u32 [of w 8] by (simp add: mask_eq_exp_minus_1)

lemma same_row: "tty_row t = r \<Longrightarrow> t\<lparr>tty_column := x, tty_row := r\<rparr> = t\<lparr>tty_column := x\<rparr>"
  by (cases t) simp

lemma cursor_move_ports:
  assumes "x < VGA_WIDTH" and "y < VGA_HEIGHT"
  shows "tty_ports (cursor_move x y t) = tty_ports t @ cursor_bytes (unat x) (unat y)"
proof -
  define k where "k = 80 * unat y + unat x"
  have "unat x < 80" "unat y < 25" using assms by (simp_all add: word_less_nat_alt VGA_WIDTH_def VGA_HEIGHT_def)
  then have k: "k < 2000" by (simp add: k_def)
  have pos: "y * VGA_WIDTH + x = of_nat k" by (simp add: k_def VGA_WIDTH_def mult.commute)
  have u: "unat (of_nat k :: u32) = k" using k by (simp add: unat_of_nat take_bit_nat_eq_self)
  have lo: "ucast ((of_nat k :: u32) AND 0xFF) = (of_nat (k mod 256) :: u8)"
    using k by (simp add: word_unat_eq_iff unsigned_ucast_eq and_ff u unat_of_nat take_bit_nat_def)
  have hi: "ucast (drop_bit 8 (of_nat k :: u32) AND 0xFF) = (of_nat (k div 256) :: u8)"
    using k by (simp add: word_unat_eq_iff unsigned_ucast_eq and_ff unat_drop_bit_u32 u unat_of_nat take_bit_nat_def)
  show ?thesis using lo hi by (simp add: cursor_move_def outb_def Let_def pos cursor_bytes_def k_def [symmetric])
qed

lemma next_row: "r < VGA_HEIGHT \<Longrightarrow> (if VGA_HEIGHT \<le> r + 1 then 0 else r + 1) = (if r = 24 then 0 else r + 1)"
  by (auto simp: VGA_HEIGHT_def word_le_nat_alt word_less_nat_alt unat_word_ariths word_unat_eq_iff)

lemma next_column: "x < VGA_WIDTH \<Longrightarrow> VGA_WIDTH \<le> x + 1 \<longleftrightarrow> x = 79"
  by (auto simp: VGA_WIDTH_def word_le_nat_alt word_less_nat_alt unat_word_ariths word_unat_eq_iff)

lemma tty_putc_newline:
  assumes "tty_ok t"
  shows "tty_putc 0x0A t =
    (let row = (if tty_row t = 24 then 0 else tty_row t + 1) in
     cursor_move 0 row ((fold (clear_cell (unat (tty_row t))) [unat (tty_column t) ..< 80] t)\<lparr>tty_column := 0, tty_row := row\<rparr>))"
proof -
  let ?t = "fold (clear_cell (unat (tty_row t))) [unat (tty_column t) ..< 80] t"
  have y: "unat (tty_row t) < 25" "unat (tty_column t) \<le> 80"
    using assms by (auto simp: tty_ok_def VGA_HEIGHT_def VGA_WIDTH_def word_less_nat_alt)
  have row: "tty_row ?t = tty_row t" using clear_cells [OF y order_refl, of t] by (simp add: Let_def)
  have "tty_putc 0x0A t = (let t' = ?t\<lparr>tty_column := 0, tty_row := tty_row ?t + 1\<rparr>;
      t' = (if VGA_HEIGHT \<le> tty_row t' then t'\<lparr>tty_row := 0\<rparr> else t') in cursor_move (tty_column t') (tty_row t') t')"
    using assms unfolding tty_putc_def Let_def tty_ok_def by (simp add: tty_clear_line_cells)
  then show ?thesis
    using next_row [of "tty_row t"] assms by (auto simp: Let_def row tty_ok_def split: if_splits)
qed

lemma tty_putc_other:
  assumes "tty_ok t" and "c \<noteq> 0x0A"
  shows "tty_putc c t =
    (let t = (if c \<in> {0x0D, 0x09, 0x08} then t
              else vga_store (of_nat (80 * unat (tty_row t) + unat (tty_column t))) (vga_entry c (tty_color t)) t);
         (column, row) =
           (if tty_column t = 79 then (0, if tty_row t = 24 then 0 else tty_row t + 1) else (tty_column t + 1, tty_row t)) in
     cursor_move column row (t\<lparr>tty_column := column, tty_row := row\<rparr>))"
proof -
  have xy: "unat (tty_column t) < 80" "unat (tty_row t) < 25"
    using assms by (auto simp: tty_ok_def VGA_HEIGHT_def VGA_WIDTH_def word_less_nat_alt)
  define t1 where "t1 = (if c \<in> {0x0D, 0x09, 0x08} then t
      else vga_store (of_nat (80 * unat (tty_row t) + unat (tty_column t))) (vga_entry c (tty_color t)) t)"
  have t1: "tty_row t1 = tty_row t" "tty_column t1 = tty_column t" by (simp_all add: t1_def)
  have "(if \<not> (c = 0x0D \<or> c = 0x0A \<or> c = 0x09 \<or> c = 0x08) then tty_pute c (tty_color t) (tty_column t) (tty_row t) t else t) = t1"
    using assms(2) by (simp add: t1_def tty_pute_store [OF xy])
  then have "tty_putc c t =
      (let t' = t1\<lparr>tty_column := tty_column t + 1\<rparr>;
           t' = (if VGA_WIDTH \<le> tty_column t + 1
                 then let t' = t'\<lparr>tty_column := 0, tty_row := tty_row t + 1\<rparr> in if VGA_HEIGHT \<le> tty_row t' then t'\<lparr>tty_row := 0\<rparr> else t'
                 else t') in cursor_move (tty_column t') (tty_row t') t')"
    using assms(2) t1 unfolding tty_putc_def Let_def by simp
  then show ?thesis
    unfolding t1_def [symmetric] using next_row [of "tty_row t"] next_column [of "tty_column t"] assms t1
    by (auto simp: Let_def tty_ok_def same_row split: if_splits)
qed

lemma unat_row: "r < VGA_HEIGHT \<Longrightarrow> unat (if r = 24 then 0 else r + 1) = (unat r + 1) mod 25 \<and> (if r = 24 then 0 else r + 1) < VGA_HEIGHT"
  by (auto simp: VGA_HEIGHT_def word_less_nat_alt unat_word_ariths word_unat_eq_iff)

lemma unat_column: "\<lbrakk>x < VGA_WIDTH; x \<noteq> 79\<rbrakk> \<Longrightarrow> unat (x + 1) = unat x + 1 \<and> x + 1 < VGA_WIDTH"
  by (auto simp: VGA_WIDTH_def word_less_nat_alt unat_word_ariths word_unat_eq_iff)

definition cursor_at :: "screen \<Rightarrow> (u16 \<times> u8) list" where
  "cursor_at s = cursor_bytes (pos_x s) (pos_y s)"

lemma tty_putc_facts:
  assumes "tty_ok t"
  shows "screen_of (tty_putc c t) = screen_putc c (screen_of t) \<and> tty_ok (tty_putc c t) \<and>
    only_screen (tty_memory t) (tty_memory (tty_putc c t)) \<and>
    tty_ports (tty_putc c t) = tty_ports t @ cursor_at (screen_putc c (screen_of t))"
proof -
  have xy: "unat (tty_column t) < 80" "unat (tty_row t) < 25" "tty_column t < VGA_WIDTH" "tty_row t < VGA_HEIGHT" "tty_color t < 16"
    using assms by (auto simp: tty_ok_def VGA_HEIGHT_def VGA_WIDTH_def word_less_nat_alt)
  define row where "row = (if tty_row t = 24 then 0 else tty_row t + 1)"
  have row: "unat row = (unat (tty_row t) + 1) mod 25" "row < VGA_HEIGHT" using unat_row [OF xy(4)] by (simp_all add: row_def)
  have w: "0 < VGA_WIDTH" by (simp add: VGA_WIDTH_def)
  show ?thesis
  proof (cases "c = 0x0A")
    case True
    define t1 where "t1 = fold (clear_cell (unat (tty_row t))) [unat (tty_column t) ..< 80] t"
    note t1 = clear_cells [OF xy(2) less_imp_le [OF xy(1)] order_refl, of t, unfolded Let_def, folded t1_def]
    have "tty_putc c t = cursor_move 0 row (t1\<lparr>tty_column := 0, tty_row := row\<rparr>)"
      unfolding True tty_putc_newline [OF assms] Let_def t1_def row_def by (rule refl)
    then show ?thesis
      using t1 True row w cursor_move_ports [OF w row(2)] xy
      by (simp add: screen_of_def screen_putc_def next_line_def blank_from_def tty_ok_def cursor_at_def cong: if_cong)
  next
    case False
    define t1 where "t1 = (if c \<in> {0x0D, 0x09, 0x08} then t
        else vga_store (of_nat (80 * unat (tty_row t) + unat (tty_column t))) (vga_entry c (tty_color t)) t)"
    define s1 where "s1 = (if c \<in> {0x0D, 0x09, 0x08} then screen_of t
        else put_cell (unat (tty_column t)) (unat (tty_row t)) (vga_entry c (tty_color t)) (screen_of t))"
    have t1: "tty_row t1 = tty_row t" "tty_column t1 = tty_column t" "tty_color t1 = tty_color t" "tty_ports t1 = tty_ports t"
      "only_screen (tty_memory t) (tty_memory t1)" "screen_of t1 = s1"
      using only_screen_store [OF xy(1,2), of t] vga_cell_store [OF xy(1,2)]
      by (auto simp: t1_def s1_def screen_of_def put_cell_def)
    have s1: "screen_putc c (screen_of t) = (if pos_x s1 = 79 then next_line s1 else s1\<lparr>pos_x := pos_x s1 + 1\<rparr>)"
      using False by (simp add: screen_putc_def s1_def screen_of_def Let_def)
    have pos: "s1 = \<lparr>cells = vga_cell (tty_memory t1), pos_x = unat (tty_column t), pos_y = unat (tty_row t), color = tty_color t\<rparr>"
      using t1(1-3) unfolding t1(6) [symmetric] by (simp add: screen_of_def)
    have eq79: "unat (tty_column t) = 79 \<longleftrightarrow> tty_column t = 79" by (simp add: word_unat_eq_iff)
    show ?thesis
    proof (cases "tty_column t = 79")
      case True
      then have "tty_putc c t = cursor_move 0 row (t1\<lparr>tty_column := 0, tty_row := row\<rparr>)"
        unfolding tty_putc_other [OF assms False] t1_def [symmetric] row_def by (simp add: Let_def t1(1,2))
      then show ?thesis
        unfolding s1 pos using True row w cursor_move_ports [OF w row(2)] xy t1(1-5)
        by (simp add: eq79 screen_of_def next_line_def tty_ok_def cursor_at_def)
    next
      case False': False
      have col: "unat (tty_column t + 1) = unat (tty_column t) + 1" "tty_column t + 1 < VGA_WIDTH"
        using unat_column [OF xy(3) False'] by simp_all
      have "tty_putc c t = cursor_move (tty_column t + 1) (tty_row t) (t1\<lparr>tty_column := tty_column t + 1\<rparr>)"
        unfolding tty_putc_other [OF assms False] t1_def [symmetric] using False' by (simp add: Let_def t1(1,2) same_row)
      then show ?thesis
        unfolding s1 pos using False' col cursor_move_ports [OF col(2) xy(4)] xy t1(1-5)
        by (simp add: eq79 screen_of_def tty_ok_def cursor_at_def)
    qed
  qed
qed

interpretation terminal: event_refinement tty_putc screen_putc tty_ok screen_of
  by unfold_locales (simp_all add: tty_putc_facts)

text \<open>
  C24: on a terminal whose position is on the screen \<^verbatim>\<open>tty_putc\<close> does what the screen model says for
  every character, leaves the position on the screen, writes to the 4000 bytes of the VGA buffer only,
  and ends by sending the new position to the display controller.
\<close>

theorem tty_putc_refines:
  assumes "tty_ok t"
  shows "screen_of (tty_putc c t) = screen_putc c (screen_of t) \<and> tty_ok (tty_putc c t) \<and>
    only_screen (tty_memory t) (tty_memory (tty_putc c t)) \<and>
    tty_ports (tty_putc c t) = tty_ports t @ cursor_at (screen_putc c (screen_of t))"
  by (rule tty_putc_facts [OF assms])

text \<open>A terminal that shows an empty screen, one cell before its last one.\<close>

definition sample_tty :: tty where
  "sample_tty = \<lparr>tty_row = 24, tty_column = 79, tty_color = 7, tty_memory = \<lambda>_. 0, tty_ports = []\<rparr>"

theorem tty_putc_refines_witness:
  "tty_ok sample_tty \<and> tty_ok (tty_putc 0x41 sample_tty) \<and>
   cells (screen_of (tty_putc 0x41 sample_tty)) 24 79 = 0x0741 \<and> pos_y (screen_of (tty_putc 0x41 sample_tty)) = 0 \<and>
   tty_ports (tty_putc 0x41 sample_tty) = [(0x3D4, 0x0F), (0x3D5, 0), (0x3D4, 0x0E), (0x3D5, 0)]"
proof -
  have ok: "tty_ok sample_tty" by code_simp
  have s: "cells (screen_putc 0x41 (screen_of sample_tty)) 24 79 = 0x0741" "pos_y (screen_putc 0x41 (screen_of sample_tty)) = 0"
    "cursor_at (screen_putc 0x41 (screen_of sample_tty)) = [(0x3D4, 0x0F), (0x3D5, 0), (0x3D4, 0x0E), (0x3D5, 0)]"
    by code_simp+
  show ?thesis using tty_putc_refines [OF ok, of "0x41"] ok s by (simp add: sample_tty_def)
qed

section \<open>Setting up and moving\<close>

lemma vga_clear_row: "y < 25 \<Longrightarrow> clear_row y t = fold (clear_cell y) [0 ..< 80] t"
  by (simp add: clear_row_def clear_cell_def [abs_def] VGA_WIDTH_def mult.commute)

lemma clear_rows:
  "n \<le> 25 \<Longrightarrow> (let t' = fold clear_row [0 ..< n] t in
     (\<forall>y < n. \<forall>x < 80. vga_cell (tty_memory t') y x = vga_entry 0x20 (tty_color t)) \<and>
     only_screen (tty_memory t) (tty_memory t') \<and> tty_color t' = tty_color t)"
proof (induction n)
  case (Suc n)
  define t1 where "t1 = fold clear_row [0 ..< n] t"
  have IH: "\<forall>y < n. \<forall>x < 80. vga_cell (tty_memory t1) y x = vga_entry 0x20 (tty_color t)"
    "only_screen (tty_memory t) (tty_memory t1)" "tty_color t1 = tty_color t"
    using Suc by (simp_all add: Let_def t1_def)
  have n: "n < 25" using Suc.prems by simp
  have t': "fold clear_row [0 ..< Suc n] t = fold (clear_cell n) [0 ..< 80] t1"
    using vga_clear_row [OF n, of t1] by (simp add: t1_def)
  show ?case
    unfolding t' Let_def using clear_cells [OF n zero_le order_refl, of t1] IH
    by (auto simp: Let_def less_Suc_eq blank_from_def intro: only_screen_trans)
qed simp

text \<open>Whatever the registers held, the terminal starts with a blank screen and its position in the corner.\<close>

lemma tty_init_blank:
  "tty_ok (tty_init start t) \<and> only_screen (tty_memory t) (tty_memory (tty_init start t)) \<and>
   screen_of (tty_init start t) =
     \<lparr>cells = \<lambda>y x. if y < 25 \<and> x < 80 then vga_entry 0x20 7 else 0, pos_x = 0, pos_y = 0, color = 7\<rparr>"
proof -
  define t0 where "t0 = cursor_enable start (t\<lparr>tty_color := vga_entry_color VGA_COLOR_LIGHT_GREY VGA_COLOR_BLACK\<rparr>)"
  have t0: "tty_memory t0 = tty_memory t" "tty_color t0 = 7"
    by (simp_all add: t0_def cursor_enable_def outb_def Let_def vga_entry_color_def VGA_COLOR_LIGHT_GREY_def VGA_COLOR_BLACK_def)
  have init: "tty_init start t = cursor_move 0 0 ((fold clear_row [0 ..< 25] t0)\<lparr>tty_row := 0, tty_column := 0\<rparr>)"
    by (simp add: tty_init_def tty_clear_screen_def t0_def [symmetric] Let_def)
  note c = clear_rows [of 25 t0, OF order_refl, unfolded Let_def]
  have "vga_cell mem y x = 0" if "\<not> (y < 25 \<and> x < 80)" for mem y x unfolding vga_cell_def using that by (rule if_not_P)
  then show ?thesis
    unfolding init screen_of_def tty_ok_def using c t0
    by (auto simp: fun_eq_iff VGA_WIDTH_def VGA_HEIGHT_def)
qed

lemma tty_set_position_ok:
  "tty_color t < 16 \<Longrightarrow> tty_ok (tty_set_position x y t) \<and> tty_memory (tty_set_position x y t) = tty_memory t \<and>
    pos_x (screen_of (tty_set_position x y t)) = min (unat x) 79 \<and> pos_y (screen_of (tty_set_position x y t)) = min (unat y) 24"
  by (auto simp: tty_set_position_def tty_ok_def VGA_WIDTH_def VGA_HEIGHT_def screen_of_def Let_def word_le_nat_alt word_less_nat_alt)

lemma tty_set_color_ok: "tty_ok t \<Longrightarrow> tty_ok (tty_set_color c t)"
  using and_mask_less_size [of 4 c] by (simp add: tty_ok_def tty_set_color_def word_size mask_eq_exp_minus_1)

lemma tty_clear_screen_ok:
  "tty_color t < 16 \<Longrightarrow> tty_ok (tty_clear_screen t) \<and> only_screen (tty_memory t) (tty_memory (tty_clear_screen t))"
  using clear_rows [of 25 t] by (simp add: tty_clear_screen_def tty_ok_def VGA_WIDTH_def VGA_HEIGHT_def Let_def)

text \<open>
  All operations of the file that write: to the terminal's variables, its ports or the memory. \<^verbatim>\<open>tty_pute\<close> and
  \<^verbatim>\<open>tty_clear_line\<close> take a cell from the caller and check nothing (\<^verbatim>\<open>proctest.c\<close> calls the first with its own
  coordinates); \<open>on_screen\<close> is what they leave to the caller.
\<close>

datatype tty_op =
  Putc u8 | Set_Position u32 u32 | Set_Color u8 | Clear_Screen | Pute u8 u8 u32 u32 | Clear_Line u32 u32

primrec tty_run :: "tty_op \<Rightarrow> tty \<Rightarrow> tty" where
  "tty_run (Putc c) t = tty_putc c t"
| "tty_run (Set_Position x y) t = tty_set_position x y t"
| "tty_run (Set_Color c) t = tty_set_color c t"
| "tty_run Clear_Screen t = tty_clear_screen t"
| "tty_run (Pute c col x y) t = tty_pute c col x y t"
| "tty_run (Clear_Line x y) t = tty_clear_line x y t"

definition on_screen :: "tty_op \<Rightarrow> bool" where
  "on_screen op \<longleftrightarrow> (case op of Pute c col x y \<Rightarrow> y * VGA_WIDTH + x < 2000
     | Clear_Line x y \<Rightarrow> y < VGA_HEIGHT \<or> VGA_WIDTH \<le> x | _ \<Rightarrow> True)"

lemma tty_putc_ok: "tty_ok t \<Longrightarrow> tty_ok (tty_putc c t) \<and> only_screen (tty_memory t) (tty_memory (tty_putc c t))"
  by (simp add: tty_putc_facts)

lemma tty_pute_ok:
  assumes "tty_ok t" and "y * VGA_WIDTH + x < 2000"
  shows "tty_ok (tty_pute c col x y t) \<and> only_screen (tty_memory t) (tty_memory (tty_pute c col x y t))"
proof -
  let ?k = "unat (y * VGA_WIDTH + x)"
  have "?k div 80 < 25" using assms(2) by (simp add: word_less_nat_alt div_less_iff_less_mult)
  moreover have "(of_nat (80 * (?k div 80) + ?k mod 80) :: u32) = y * VGA_WIDTH + x"
    unfolding mult_div_mod_eq by simp
  ultimately show ?thesis
    using only_screen_store [of "?k mod 80" "?k div 80" t] assms(1) by (simp add: tty_pute_def tty_ok_def)
qed

lemma tty_clear_line_ok:
  assumes "tty_ok t" and "y < VGA_HEIGHT \<or> VGA_WIDTH \<le> x"
  shows "tty_ok (tty_clear_line x y t) \<and> only_screen (tty_memory t) (tty_memory (tty_clear_line x y t))"
proof (cases "x < VGA_WIDTH")
  case True
  then have xy: "unat y < 25" "unat x \<le> 80" "y < VGA_HEIGHT"
    using assms(2) by (auto simp: VGA_HEIGHT_def VGA_WIDTH_def word_less_nat_alt word_le_nat_alt)
  show ?thesis
    using clear_cells [OF xy(1,2) order_refl, of t] assms(1) unfolding tty_clear_line_cells [OF True xy(3)]
    by (simp add: Let_def tty_ok_def)
next
  case False
  then have "[unat x ..< unat VGA_WIDTH] = []" by (simp add: word_less_nat_alt upt_conv_Nil)
  then have "tty_clear_line x y t = t" by (simp only: tty_clear_line_def fold_simps id_apply)
  then show ?thesis using assms(1) by simp
qed

lemma tty_run_ok:
  assumes "tty_ok t" and "on_screen op"
  shows "tty_ok (tty_run op t) \<and> only_screen (tty_memory t) (tty_memory (tty_run op t))"
proof -
  have "tty_color t < 16" using assms(1) by (simp add: tty_ok_def)
  then show ?thesis
    using assms tty_putc_ok tty_clear_screen_ok tty_set_position_ok tty_set_color_ok [OF assms(1)] tty_pute_ok tty_clear_line_ok
    by (cases op) (auto simp: on_screen_def tty_set_color_def)
qed

lemma tty_runs_ok:
  "\<lbrakk>tty_ok t; \<forall>op \<in> set ops. on_screen op\<rbrakk> \<Longrightarrow>
   tty_ok (fold tty_run ops t) \<and> only_screen (tty_memory t) (tty_memory (fold tty_run ops t))"
proof (induction ops arbitrary: t)
  case (Cons op ops)
  then show ?case using tty_run_ok [OF Cons.prems(1), of op] by (auto intro: only_screen_trans)
qed simp

text \<open>Without the check of the caller \<^verbatim>\<open>tty_pute\<close> writes behind the buffer: row 25 begins where the buffer ends.\<close>

lemma tty_pute_unchecked: "tty_memory (tty_pute 0x41 7 0 25 t) (VGA_MEMORY + 4000) = 0x41"
proof -
  have "vga_address 2000 = VGA_MEMORY + 4000" "VGA_MEMORY + 4000 \<noteq> VGA_MEMORY + 4000 + 1" by (simp_all add: vga_address_def VGA_MEMORY_def)
  moreover have "ucast (vga_entry 0x41 7) = (0x41 :: u8)" by code_simp
  ultimately show ?thesis by (simp add: tty_pute_def vga_store_def VGA_WIDTH_def)
qed

text \<open>
  C25: from its initialisation on, through every sequence of the operations of the terminal that write (characters,
  positions, colours, clearings, single cells, rests of lines), the row, the column and the colour stay in their
  ranges (25 rows, 80 columns, 16 colours) and no memory outside the VGA buffer is written. Characters, positions and
  colours may be any; for a single cell (\<^verbatim>\<open>tty_pute\<close>) and for the rest of a line (\<^verbatim>\<open>tty_clear_line\<close>), which check
  nothing, the caller has to name a cell of the screen, as \<open>on_screen\<close> says.
\<close>

theorem tty_stays_on_screen:
  assumes "\<forall>op \<in> set ops. on_screen op"
  shows "let t' = fold tty_run ops (tty_init start t) in
   tty_row t' < 25 \<and> tty_column t' < 80 \<and> tty_color t' < 16 \<and>
   (\<forall>a. VGA_MEMORY \<le> a \<and> a < VGA_MEMORY + 4000 \<or> tty_memory t' a = tty_memory t a)"
proof -
  have "tty_ok (tty_init start t)" "only_screen (tty_memory t) (tty_memory (tty_init start t))"
    using tty_init_blank [of start t] by simp_all
  with tty_runs_ok [OF this(1) assms] show ?thesis
    by (auto simp: Let_def tty_ok_def VGA_WIDTH_def VGA_HEIGHT_def only_screen_def)
qed

theorem tty_stays_on_screen_witness:
  "tty_memory (fold tty_run [Set_Position 200 99, Putc 0x41, Putc 0x0A, Pute 0x42 7 79 24, Clear_Line 3 24, Set_Color 0xFF]
     (tty_init 0 \<lparr>tty_row = 0, tty_column = 0, tty_color = 0, tty_memory = (\<lambda>a. 5), tty_ports = []\<rparr>)) 0xC00B8FA0 = 5"
proof -
  let ?ops = "[Set_Position 200 99, Putc 0x41, Putc 0x0A, Pute 0x42 7 79 24, Clear_Line 3 24, Set_Color 0xFF]"
  have "\<forall>op \<in> set ?ops. on_screen op" by (simp add: on_screen_def VGA_WIDTH_def VGA_HEIGHT_def)
  from tty_stays_on_screen [OF this, of 0 "\<lparr>tty_row = 0, tty_column = 0, tty_color = 0, tty_memory = (\<lambda>a. 5), tty_ports = []\<rparr>"]
  have "VGA_MEMORY \<le> 0xC00B8FA0 \<and> 0xC00B8FA0 < VGA_MEMORY + 4000 \<or>
      tty_memory (fold tty_run ?ops (tty_init 0 \<lparr>tty_row = 0, tty_column = 0, tty_color = 0, tty_memory = (\<lambda>a. 5), tty_ports = []\<rparr>)) 0xC00B8FA0 = 5"
    unfolding Let_def tty.simps by blast
  then show ?thesis by (simp add: VGA_MEMORY_def)
qed

end
