(* ===== verification/Keyboard.thy ===== *)
theory Keyboard
  imports Tomk_Prelude
begin

text \<open>
  \<^verbatim>\<open>src/driver/ps2/ps2.asm\<close>: the keyboard. The interrupt handler puts scan codes of pressed keys into
  a ring buffer of 32 bytes that keeps the newest ones; the shell takes them out. The byte from
  port 0x60 is an argument of the handler. The table of characters has 88 entries while scan codes go
  up to 127; what stands behind the table is an argument of \<^verbatim>\<open>ps2_sc2ch\<close>.

  The handler and the readers are single steps here. In the code the handler runs with interrupts disabled, but
  \<^verbatim>\<open>ps2_getscancode\<close> does not disable them: an interrupt between its instructions that finds the
  buffer full overwrites the oldest code, which is about to be read, and moves the head once more. The
  statements hold for executions in which no key arrives during a call of the reader.
\<close>

section \<open>The driver\<close>

definition KB_BUF_SIZE :: u32 where "KB_BUF_SIZE = 32"

record keyboard =
  kb_buff :: "u8 list"
  kb_head :: u32
  kb_tail :: u32
  kb_count :: u32

definition ps2_init :: "keyboard \<Rightarrow> keyboard" where
  "ps2_init k = k\<lparr>kb_head := 0, kb_tail := 0, kb_count := 0\<rparr>"

definition ps2_int_handler :: "u8 \<Rightarrow> keyboard \<Rightarrow> keyboard" where
  "ps2_int_handler al k =
    (if al = 0xE0 then k
     else if al AND 0x80 \<noteq> 0 then k
     else
       let k = k\<lparr>kb_buff := (kb_buff k)[unat (kb_tail k) := al]\<rparr>;
           k = k\<lparr>kb_tail := (kb_tail k + 1) AND (KB_BUF_SIZE - 1)\<rparr>
       in if sint KB_BUF_SIZE \<le> sint (kb_count k)
          then k\<lparr>kb_head := (kb_head k + 1) AND (KB_BUF_SIZE - 1)\<rparr>
          else k\<lparr>kb_count := kb_count k + 1\<rparr>)"

definition ps2_getscancode :: "keyboard \<Rightarrow> u32 \<times> keyboard" where
  "ps2_getscancode k =
    (if kb_count k = 0 then (0, k)
     else (ucast (kb_buff k ! unat (kb_head k)),
           k\<lparr>kb_head := (kb_head k + 1) AND (KB_BUF_SIZE - 1), kb_count := kb_count k - 1\<rparr>))"

definition sc_ch :: "u8 list" where
  "sc_ch =
    [0, 0x1B, 0x31, 0x32, 0x33, 0x34, 0x35, 0x36, 0x37, 0x38, 0x39, 0x30, 0x2D, 0x3D, 0x08, 0,
     0x51, 0x57, 0x45, 0x52, 0x54, 0x59, 0x55, 0x49, 0x4F, 0x50, 0x5B, 0x5D, 0x0D, 0, 0x41, 0x53,
     0x44, 0x46, 0x47, 0x48, 0x4A, 0x4B, 0x4C, 0x3B, 0, 0x60, 0, 0, 0x5A, 0x58, 0x43, 0x56,
     0x42, 0x4E, 0x4D, 0x2C, 0x2E, 0x2F, 0, 0x2A, 0, 0x20, 0, 0, 0, 0, 0, 0,
     0, 0, 0, 0, 0, 0, 0, 0, 0, 0, 0x2D, 0, 0, 0, 0x2B, 0,
     0, 0, 0, 0, 0, 0, 0, 0]"

definition ps2_sc2ch :: "(u32 \<Rightarrow> u8) \<Rightarrow> u32 \<Rightarrow> u32" where
  "ps2_sc2ch beyond sc = ucast (if unat sc < length sc_ch then sc_ch ! unat sc else beyond sc)"

definition ps2_getchar :: "(u32 \<Rightarrow> u8) \<Rightarrow> keyboard \<Rightarrow> u32 \<times> keyboard" where
  "ps2_getchar beyond k =
    (let (sc, k) = ps2_getscancode k in if sc = 0 then (0, k) else (ps2_sc2ch beyond sc, k))"

section \<open>The queue of scan codes\<close>

definition keyboard_ok :: "keyboard \<Rightarrow> bool" where
  "keyboard_ok k \<longleftrightarrow> length (kb_buff k) = 32 \<and> unat (kb_head k) < 32 \<and> unat (kb_count k) \<le> 32 \<and>
     unat (kb_tail k) = (unat (kb_head k) + unat (kb_count k)) mod 32"

text \<open>The scan codes in the buffer, oldest first.\<close>

definition kb_queue :: "keyboard \<Rightarrow> u8 list" where
  "kb_queue k = map (\<lambda>i. kb_buff k ! ((unat (kb_head k) + i) mod 32)) [0 ..< unat (kb_count k)]"

lemma ring_succ: "unat r < 32 \<Longrightarrow> unat ((r + 1) AND (KB_BUF_SIZE - 1)) = (unat r + 1) mod 32"
  using unat_and_mask_u32 [of "r + 1" 5] by (simp add: KB_BUF_SIZE_def mask_eq_exp_minus_1 unat_word_ariths)

lemma mod_add_other:
  assumes "(h :: nat) < 32" and "i < 32" and "j < 32" and "i \<noteq> j"
  shows "(h + i) mod 32 \<noteq> (h + j) mod 32"
  using assms by (auto simp: mod_if split: if_splits)

lemma count_signed: "unat (c :: u32) \<le> 32 \<Longrightarrow> sint KB_BUF_SIZE \<le> sint c \<longleftrightarrow> unat c = 32"
proof -
  assume c: "unat c \<le> 32"
  have "int (unat c) = uint c" by simp
  then have u: "uint c \<le> 32" using c by linarith
  have "- (2 ^ 31) \<le> uint c" by (rule order_trans [of _ 0]) simp_all
  with u have "sint c = uint c" unfolding sint_uint by (intro signed_take_bit_int_eq_self) simp_all
  moreover have "sint KB_BUF_SIZE = 32" by (simp add: KB_BUF_SIZE_def)
  ultimately show ?thesis using c \<open>int (unat c) = uint c\<close> by linarith
qed

text \<open>Storing at the place that follows the queue, while there is room and when it is full.\<close>

lemma ring_append:
  assumes "length b = 32" and "h < 32" and "n < 32"
  shows "map (\<lambda>i. b[(h + n) mod 32 := v] ! ((h + i) mod 32)) [0 ..< Suc n] = map (\<lambda>i. b ! ((h + i) mod 32)) [0 ..< n] @ [v]"
proof -
  have "b[(h + n) mod 32 := v] ! ((h + i) mod 32) = b ! ((h + i) mod 32)" if "i < n" for i
    using mod_add_other [OF assms(2), of n i] that assms(3) by simp
  moreover have "b[(h + n) mod 32 := v] ! ((h + n) mod 32) = v" using assms(1) by simp
  ultimately show ?thesis by simp
qed

lemma ring_overwrite:
  assumes "length b = 32" and "h < 32"
  shows "map (\<lambda>i. b[h := v] ! (((h + 1) mod 32 + i) mod 32)) [0 ..< 32] = tl (map (\<lambda>i. b ! ((h + i) mod 32)) [0 ..< 32]) @ [v]"
proof (rule nth_equalityI)
  fix i
  assume "i < length (map (\<lambda>i. b[h := v] ! (((h + 1) mod 32 + i) mod 32)) [0 ..< 32])"
  then have i: "i < 32" by simp
  have e: "((h + 1) mod 32 + i) mod 32 = (h + Suc i) mod 32" by (simp add: mod_add_left_eq)
  show "map (\<lambda>i. b[h := v] ! (((h + 1) mod 32 + i) mod 32)) [0 ..< 32] ! i = (tl (map (\<lambda>i. b ! ((h + i) mod 32)) [0 ..< 32]) @ [v]) ! i"
  proof (cases "i = 31")
    case True
    then show ?thesis using assms e by (simp add: nth_append del: upt_rec_numeral)
  next
    case False
    have "(h + Suc i) mod 32 \<noteq> h" using mod_add_other [OF assms(2), of "Suc i" 0] i False assms(2) by simp
    then show ?thesis using i False e by (simp add: nth_append nth_tl del: upt_rec_numeral)
  qed
qed simp

text \<open>What the driver promises: a queue of at most 32 scan codes that drops the oldest one when it is full.\<close>

definition queue_put :: "u8 \<Rightarrow> u8 list \<Rightarrow> u8 list" where
  "queue_put v q = (if length q = 32 then tl q else q) @ [v]"

lemma kb_queue_length: "length (kb_queue k) = unat (kb_count k)"
  by (simp add: kb_queue_def)

lemma handler_queue:
  assumes "keyboard_ok k" and "al AND 0x80 = 0"
  shows "keyboard_ok (ps2_int_handler al k) \<and> kb_queue (ps2_int_handler al k) = queue_put al (kb_queue k)"
proof -
  have ok: "length (kb_buff k) = 32" "unat (kb_head k) < 32" "unat (kb_count k) \<le> 32"
    and tail: "unat (kb_tail k) = (unat (kb_head k) + unat (kb_count k)) mod 32"
    using assms(1) by (simp_all add: keyboard_ok_def)
  have al: "al \<noteq> 0xE0" using assms(2) by auto
  have "unat (kb_tail k) < 32" using tail by simp
  note succ = ring_succ [OF this] ring_succ [OF ok(2)]
  show ?thesis
  proof (cases "unat (kb_count k) = 32")
    case True
    have t: "unat (kb_tail k) = unat (kb_head k)" using tail True ok(2) by simp
    have k': "ps2_int_handler al k = k\<lparr>kb_buff := (kb_buff k)[unat (kb_head k) := al],
        kb_tail := (kb_tail k + 1) AND (KB_BUF_SIZE - 1), kb_head := (kb_head k + 1) AND (KB_BUF_SIZE - 1)\<rparr>"
      using assms(2) al True ok(3) t by (simp add: ps2_int_handler_def Let_def count_signed)
    show ?thesis
      using ring_overwrite [OF ok(1,2), of al] ok succ True t
      unfolding k' by (simp add: keyboard_ok_def kb_queue_def queue_put_def del: upt_rec_numeral)
  next
    case False
    then have c: "unat (kb_count k) < 32" using ok(3) by simp
    then have c1: "unat (kb_count k + 1) = Suc (unat (kb_count k))" by (simp add: unat_word_ariths)
    have k': "ps2_int_handler al k = k\<lparr>kb_buff := (kb_buff k)[unat (kb_tail k) := al],
        kb_tail := (kb_tail k + 1) AND (KB_BUF_SIZE - 1), kb_count := kb_count k + 1\<rparr>"
      using assms(2) al False ok(3) by (simp add: ps2_int_handler_def Let_def count_signed)
    show ?thesis
      using ring_append [OF ok(1,2) c, of al] ok succ c c1 tail False
      unfolding k' by (simp add: keyboard_ok_def kb_queue_def queue_put_def mod_Suc_eq del: upt_Suc)
  qed
qed

lemma getscancode_queue:
  assumes "keyboard_ok k"
  shows "case kb_queue k of
      [] \<Rightarrow> ps2_getscancode k = (0, k)
    | sc # q \<Rightarrow> \<exists>k'. ps2_getscancode k = (ucast sc, k') \<and> keyboard_ok k' \<and> kb_queue k' = q"
proof (cases "kb_count k = 0")
  case True
  then show ?thesis by (simp add: kb_queue_def ps2_getscancode_def)
next
  case False
  have ok: "length (kb_buff k) = 32" "unat (kb_head k) < 32" "unat (kb_count k) \<le> 32"
    and tail: "unat (kb_tail k) = (unat (kb_head k) + unat (kb_count k)) mod 32"
    using assms(1) by (simp_all add: keyboard_ok_def)
  obtain n where n: "unat (kb_count k) = Suc n" using False by (metis gr0_implies_Suc unat_gt_0)
  then have n': "unat (kb_count k - 1) = n" using unat_minus_one [OF False] by simp
  have q: "kb_queue k = kb_buff k ! unat (kb_head k) # map (\<lambda>i. kb_buff k ! ((unat (kb_head k) + Suc i) mod 32)) [0 ..< n]"
    using ok(2) by (simp add: kb_queue_def n upt_conv_Cons map_Suc_upt [symmetric] del: upt_Suc map_Suc_upt)
  show ?thesis
    unfolding q list.case
    using False ring_succ [OF ok(2)] ok n n' tail
    by (auto simp: ps2_getscancode_def keyboard_ok_def kb_queue_def mod_add_left_eq)
qed

text \<open>Any sequence of bytes from the keyboard.\<close>

definition queue_event :: "u8 \<Rightarrow> u8 list \<Rightarrow> u8 list" where
  "queue_event al q = (if al AND 0x80 = 0 then queue_put al q else q)"

lemma handler_event:
  assumes "keyboard_ok k"
  shows "keyboard_ok (ps2_int_handler al k) \<and> kb_queue (ps2_int_handler al k) = queue_event al (kb_queue k)"
  using handler_queue [OF assms, of al] assms by (cases "al AND 0x80 = 0") (simp_all add: queue_event_def ps2_int_handler_def)

interpretation keys: event_refinement ps2_int_handler queue_event keyboard_ok kb_queue
  by unfold_locales (simp_all add: handler_event)

text \<open>
  C33: the ring buffer is a queue. A key press goes to the end and drops the oldest code only when 32
  are waiting, releases and prefix bytes change nothing, and reading returns the oldest code and takes
  it away, or 0 when there is none. (No key arrives while a code is being read.)
\<close>

theorem keyboard_queue_refines:
  assumes "keyboard_ok k"
  shows "keyboard_ok (fold ps2_int_handler als k) \<and>
    kb_queue (fold ps2_int_handler als k) = fold queue_event als (kb_queue k) \<and>
    (case kb_queue k of
      [] \<Rightarrow> ps2_getscancode k = (0, k)
    | sc # q \<Rightarrow> \<exists>k'. ps2_getscancode k = (ucast sc, k') \<and> keyboard_ok k' \<and> kb_queue k' = q)"
  using keys.keeps_events [OF assms] keys.commutes_events [OF assms] getscancode_queue [OF assms] by simp

text \<open>A buffer that wraps around its end, with two codes.\<close>

definition sample_keyboard :: keyboard where
  "sample_keyboard = \<lparr>kb_buff = (replicate 32 0)[31 := 0x1E, 0 := 0x30], kb_head = 31, kb_tail = 1, kb_count = 2\<rparr>"

theorem keyboard_queue_refines_witness:
  "keyboard_ok sample_keyboard \<and> kb_queue (ps2_int_handler 0x2E sample_keyboard) = [0x1E, 0x30, 0x2E] \<and>
   fst (ps2_getscancode sample_keyboard) = 0x1E"
proof -
  have ok: "keyboard_ok sample_keyboard" and q: "kb_queue sample_keyboard = [0x1E, 0x30]" by code_simp+
  show ?thesis using keyboard_queue_refines [OF ok, of "[0x2E]"] ok by (auto simp: q queue_event_def queue_put_def)
qed

end
