(* ===== verification/Libc_Runtime.thy ===== *)
theory Libc_Runtime
  imports Tomk_Prelude
begin

text \<open>
  \<^verbatim>\<open>src/libc/runtime\<close>: the 64-bit unsigned division that the compiler calls on the 32-bit target,
  by shift and subtract, one bit of the numerator at a time. It computes \<open>div\<close> and \<open>mod\<close>.
\<close>

definition udivmod_step :: "u64 \<Rightarrow> u64 \<Rightarrow> nat \<Rightarrow> u64 \<times> u64 \<Rightarrow> u64 \<times> u64" where
  "udivmod_step numerator denominator i qr = (case qr of (q, r) \<Rightarrow>
     (let r = push_bit 1 r;
          r = r OR (drop_bit i numerator AND 1)
      in if denominator \<le> r then (q OR push_bit i 1, r - denominator) else (q, r)))"

text \<open>\<^verbatim>\<open>for (i = 63; i >= 0; i--)\<close>: the argument is the number of iterations left.\<close>

primrec udivmod_loop :: "u64 \<Rightarrow> u64 \<Rightarrow> nat \<Rightarrow> u64 \<times> u64 \<Rightarrow> u64 \<times> u64" where
  "udivmod_loop numerator denominator 0 qr = qr"
| "udivmod_loop numerator denominator (Suc i) qr =
     udivmod_loop numerator denominator i (udivmod_step numerator denominator i qr)"

text \<open>
  The remainder is written through a pointer; the second result is what the caller's variable holds
  afterwards, given what it held before. A caller that passes \<^verbatim>\<open>NULL\<close> has no such variable.
\<close>

definition udivmoddi4 :: "u64 \<Rightarrow> u64 \<Rightarrow> u64 option \<Rightarrow> u64 \<times> u64 option" where
  "udivmoddi4 numerator denominator remainder =
    (if denominator = 0 then (0, remainder)
     else case udivmod_loop numerator denominator 64 (0, 0) of (q, r) \<Rightarrow>
       (q, map_option (\<lambda>_. r) remainder))"

definition udivdi3 :: "u64 \<Rightarrow> u64 \<Rightarrow> u64" where
  "udivdi3 numerator denominator = fst (udivmoddi4 numerator denominator None)"

definition umoddi3 :: "u64 \<Rightarrow> u64 \<Rightarrow> u64" where
  "umoddi3 numerator denominator = the (snd (udivmoddi4 numerator denominator (Some 0)))"

section \<open>Long division\<close>

lemma unat_less_u64: "unat (x :: u64) < 18446744073709551616"
  using unsigned_less [of x, where ?'a = nat] by simp

lemma unat_drop_bit_u64: "unat (drop_bit n (x :: u64)) = unat x div 2 ^ n"
  by (simp only: unat_drop_bit_eq drop_bit_nat_def)

lemma unat_bit_u64: "unat (drop_bit i (x :: u64) AND 1) = unat x div 2 ^ i mod 2"
proof -
  have "drop_bit i x AND 1 = drop_bit i x AND mask 1" by (simp add: mask_eq_exp_minus_1)
  then show ?thesis
    by (simp only: take_bit_eq_mask [symmetric] unsigned_take_bit_eq take_bit_nat_def unat_drop_bit_u64) simp
qed

text \<open>The next remainder before the subtraction: the doubling does not overflow.\<close>

lemma unat_shift_in:
  assumes "unat (r :: u64) < 2 ^ 63"
  shows "unat (push_bit 1 r OR (drop_bit i n AND 1)) = 2 * unat r + unat n div 2 ^ i mod 2"
proof -
  have "push_bit 1 r AND (drop_bit i n AND 1) = 0"
    by (rule bit_word_eqI) (simp only: bit_and_iff bit_push_bit_iff bit_1_iff bit_0_eq, auto)
  then have "push_bit 1 r OR (drop_bit i n AND 1) = push_bit 1 r + (drop_bit i n AND 1)"
    by (simp add: disjunctive_add_eq_or)
  moreover have "unat (push_bit 1 r) = 2 * unat r"
    using assms by (simp add: unat_word_ariths)
  ultimately show ?thesis
    using assms unat_bit_u64 [of i n] by (simp add: unat_word_ariths)
qed

lemma div_mult_self: "(s :: nat) < D \<Longrightarrow> (k * D + s) div D = k \<and> (k * D + s) mod D = s"
  by simp

lemma div_Suc_power: "(n :: nat) div 2 ^ i = 2 * (n div 2 ^ Suc i) + n div 2 ^ i mod 2"
proof -
  have "n div 2 ^ Suc i = n div 2 ^ i div 2" by (simp only: power_Suc2 div_mult2_eq)
  then show ?thesis by simp
qed

text \<open>
  Before the iteration for bit \<open>i\<close> the remainder and the quotient are those of the numerator without
  its low \<open>i + 1\<close> bits.
\<close>

definition divided :: "u64 \<Rightarrow> u64 \<Rightarrow> nat \<Rightarrow> u64 \<times> u64 \<Rightarrow> bool" where
  "divided n d i qr \<longleftrightarrow> unat (snd qr) = unat n div 2 ^ i mod unat d \<and>
     unat (fst qr) = 2 ^ i * (unat n div 2 ^ i div unat d)"

lemma divided_step:
  assumes "divided n d (Suc i) (q, r)" and "d \<noteq> 0" and "i < 64"
  shows "divided n d i (udivmod_step n d i (q, r))"
proof -
  let ?N = "unat n" and ?D = "unat d"
  have D: "0 < ?D" using assms(2) by (simp add: unat_gt_0)
  define x where "x = ?N div 2 ^ Suc i"
  define b where "b = ?N div 2 ^ i mod 2"
  have b: "b < 2" and x': "?N div 2 ^ i = 2 * x + b" using div_Suc_power [of ?N i] by (simp_all add: b_def x_def)
  have r: "unat r = x mod ?D" and q: "unat q = 2 ^ Suc i * (x div ?D)"
    using assms(1) by (simp_all add: divided_def x_def)
  have "x \<le> ?N div 2" unfolding x_def using div_le_mono2 [of 2 "2 ^ Suc i" ?N] by simp
  then have "x < 2 ^ 63" using unat_less_u64 [of n] by simp
  then have "unat r < 2 ^ 63" using r by (simp add: order_le_less_trans [OF mod_less_eq_dividend])
  then have r1: "unat (push_bit 1 r OR (drop_bit i n AND 1)) = 2 * (x mod ?D) + b"
    using unat_shift_in [of r i n] r by (simp add: b_def)
  have split: "2 * x + b = 2 * (x div ?D) * ?D + (2 * (x mod ?D) + b)"
    unfolding mult.assoc using div_mult_mod_eq [of x ?D] by linarith
  have less: "2 * (x mod ?D) + b < 2 * ?D" using mod_less_divisor [OF D, of x] b by linarith
  show ?thesis
  proof (cases "?D \<le> 2 * (x mod ?D) + b")
    case True
    have eq: "2 * x + b = (2 * (x div ?D) + 1) * ?D + (2 * (x mod ?D) + b - ?D)"
      using split True by (simp add: algebra_simps)
    have "2 * (x mod ?D) + b - ?D < ?D" using less True by linarith
    from div_mult_self [OF this, of "2 * (x div ?D) + 1", folded eq]
    have dm: "(2 * x + b) div ?D = 2 * (x div ?D) + 1" "(2 * x + b) mod ?D = 2 * (x mod ?D) + b - ?D"
      by (rule conjunct1, rule conjunct2)
    have "unat q + 2 ^ i = 2 ^ i * ((2 * x + b) div ?D)" using q dm(1) by (simp add: algebra_simps)
    also have "\<dots> \<le> 2 ^ i * (?N div 2 ^ i)" unfolding x' by simp
    also have "\<dots> \<le> ?N" by simp
    finally have le: "unat q + 2 ^ i < 18446744073709551616" using unat_less_u64 [of n] by linarith
    have "unat q div 2 ^ i = 2 * (x div ?D)" using q by simp
    then have "\<not> bit (unat q) i" by (simp add: bit_iff_odd)
    then have "\<not> bit q i" using assms(3) by (simp add: bit_unsigned_iff)
    then have "q AND push_bit i 1 = 0" by (simp add: push_bit_of_1 and_exp_eq_0_iff_not_bit)
    then have "q OR push_bit i 1 = q + push_bit i 1" by (simp add: disjunctive_add_eq_or)
    moreover have "unat (push_bit i 1 :: u64) = 2 ^ i"
      using power_strict_increasing [OF assms(3), of "2 :: nat"]
      by (simp only: unsigned_push_bit_eq push_bit_nat_def unsigned_1 take_bit_nat_def) simp
    ultimately have q': "unat (q OR push_bit i 1) = unat q + 2 ^ i" using le by (simp add: unat_word_ariths)
    let ?r = "push_bit 1 r OR (drop_bit i n AND 1)"
    have le_r: "d \<le> ?r" unfolding word_le_nat_alt r1 by (rule True)
    then have step: "udivmod_step n d i (q, r) = (q OR push_bit i 1, ?r - d)"
      unfolding udivmod_step_def Let_def prod.case by (rule if_P)
    have "unat (?r - d) = 2 * (x mod ?D) + b - ?D" unfolding unat_sub [OF le_r] r1 by (rule refl)
    then show ?thesis
      unfolding divided_def step x' dm fst_conv snd_conv q' q power_Suc by (simp only: add_mult_distrib2 mult_1_right mult.assoc mult.left_commute [of 2] simp_thms)
  next
    case False
    then have dm: "(2 * x + b) div ?D = 2 * (x div ?D)" "(2 * x + b) mod ?D = 2 * (x mod ?D) + b"
      using D by (simp_all add: split)
    let ?r = "push_bit 1 r OR (drop_bit i n AND 1)"
    have "\<not> d \<le> ?r" unfolding word_le_nat_alt r1 by (rule False)
    then have step: "udivmod_step n d i (q, r) = (q, ?r)"
      unfolding udivmod_step_def Let_def prod.case by (rule if_not_P)
    show ?thesis
      unfolding divided_def step x' dm fst_conv snd_conv q r1 power_Suc by (simp only: mult.assoc mult.left_commute [of 2] simp_thms)
  qed
qed

lemma divided_loop: "\<lbrakk>divided n d i qr; d \<noteq> 0; i \<le> 64\<rbrakk> \<Longrightarrow> divided n d 0 (udivmod_loop n d i qr)"
proof (induction i arbitrary: qr)
  case (Suc i)
  then show ?case using divided_step [of n d i "fst qr" "snd qr"] by simp
qed simp

lemma udivmod_loop_eq: "d \<noteq> 0 \<Longrightarrow> udivmod_loop n d 64 (0, 0) = (n div d, n mod d)"
proof -
  assume "d \<noteq> 0"
  moreover have "divided n d 64 (0, 0)" using unat_less_u64 [of n] by (simp add: divided_def)
  ultimately have "divided n d 0 (udivmod_loop n d 64 (0, 0))" using divided_loop by blast
  then show ?thesis
    by (cases "udivmod_loop n d 64 (0, 0)") (simp add: divided_def word_unat_eq_iff unat_div unat_mod)
qed

text \<open>
  C23: the runtime division is the division of 64-bit words. With a denominator of 0 it returns 0 and
  leaves the remainder variable alone, so that \<^verbatim>\<open>__umoddi3\<close> is 0.
\<close>

theorem udivmoddi4_divides:
  "udivmoddi4 n d (Some r) = (if d = 0 then (0, Some r) else (n div d, Some (n mod d))) \<and>
   udivdi3 n d = (if d = 0 then 0 else n div d) \<and> umoddi3 n d = (if d = 0 then 0 else n mod d)"
  by (simp add: udivmoddi4_def udivdi3_def umoddi3_def udivmod_loop_eq)

end
