(* ===== verification/Libc_Strtoul.thy ===== *)
theory Libc_Strtoul
  imports Libc_String
begin

text \<open>
  \<^verbatim>\<open>src/libc/stdlib/strtoul.c\<close>: reading numbers. The four functions have the same shape; the parts
  they share in the source text (the prefix that chooses the radix, the value of a digit, the loop
  over the digits) are shared here, with the width of the value as a type.

  The variable behind \<^verbatim>\<open>end_ptr\<close> is an optional argument with the value it held before, and a
  result; \<open>None\<close> is a \<^verbatim>\<open>NULL\<close> argument. The signed functions compute on two's complement words: the
  arithmetic of the target wraps where the C standard leaves an overflow undefined.
\<close>

section \<open>Shared parts\<close>

definition digit_value :: "u8 \<Rightarrow> int option" where
  "digit_value c =
    (if 0x30 \<le> c \<and> c \<le> 0x39 then Some (uint c - 0x30)
     else if 0x61 \<le> c \<and> c \<le> 0x7A then Some (uint c - 0x61 + 10)
     else if 0x41 \<le> c \<and> c \<le> 0x5A then Some (uint c - 0x41 + 10)
     else None)"

text \<open>The radix and where the digits begin; \<open>None\<close> is the early return behind a lone \<^verbatim>\<open>0\<close>.\<close>

definition strto_prefix :: "memory \<Rightarrow> u32 \<Rightarrow> int \<Rightarrow> (u32 \<times> int) option" where
  "strto_prefix mem p radix =
    (if radix \<noteq> 0 then Some (p, radix)
     else if mem p = 0x30 then
       let p = p + 1 in
       if mem p = 0 then None
       else if mem p = 0x78 \<or> mem p = 0x58 then Some (p + 1, 16)
       else if mem p = 0x62 \<or> mem p = 0x42 then Some (p + 1, 2)
       else Some (p, 8)
     else Some (p, 10))"

partial_function (option) strto_digits :: "memory \<Rightarrow> int \<Rightarrow> u32 \<Rightarrow> 'a :: len word \<Rightarrow> ('a word \<times> u32) option" where
  "strto_digits mem radix p value =
    (if mem p = 0 then Some (value, p)
     else case digit_value (mem p) of
       None \<Rightarrow> Some (value, p)
     | Some d \<Rightarrow> if radix \<le> d then Some (value, p)
                 else strto_digits mem radix (p + 1) (value * of_int radix + of_int d))"

section \<open>The functions\<close>

definition strtoul :: "memory \<Rightarrow> u32 \<Rightarrow> u32 option \<Rightarrow> int \<Rightarrow> (u32 \<times> u32 option) option" where
  "strtoul mem str end_ptr radix =
    (if str = 0 then Some (0, end_ptr)
     else if mem str = 0 then Some (0, end_ptr)
     else case strto_prefix mem str radix of
       None \<Rightarrow> Some (0, end_ptr)
     | Some (p, radix) \<Rightarrow>
         if radix < 2 \<or> 36 < radix then Some (0, end_ptr)
         else do { (value, p) \<leftarrow> strto_digits mem radix p 0; Some (value, map_option (\<lambda>_. p) end_ptr) })"

definition strtoull :: "memory \<Rightarrow> u32 \<Rightarrow> u32 option \<Rightarrow> int \<Rightarrow> (u64 \<times> u32 option) option" where
  "strtoull mem str end_ptr radix =
    (if str = 0 then Some (0, end_ptr)
     else if mem str = 0 then Some (0, end_ptr)
     else case strto_prefix mem str radix of
       None \<Rightarrow> Some (0, end_ptr)
     | Some (p, radix) \<Rightarrow>
         if radix < 2 \<or> 36 < radix then Some (0, end_ptr)
         else do { (value, p) \<leftarrow> strto_digits mem radix p 0; Some (value, map_option (\<lambda>_. p) end_ptr) })"

definition strtol :: "memory \<Rightarrow> u32 \<Rightarrow> u32 option \<Rightarrow> int \<Rightarrow> (u32 \<times> u32 option) option" where
  "strtol mem str end_ptr radix =
    (if str = 0 then Some (0, end_ptr)
     else if mem str = 0 then Some (0, end_ptr)
     else
       let sign = mem str = 0x2B \<or> mem str = 0x2D;
           negative = mem str = 0x2D;
           p = (if sign then str + 1 else str) in
       if sign \<and> mem p = 0 then Some (0, map_option (\<lambda>_. str) end_ptr)
       else case strto_prefix mem p radix of
         None \<Rightarrow> Some (0, end_ptr)
       | Some (p, radix) \<Rightarrow>
           if radix < 2 \<or> 36 < radix then Some (0, end_ptr)
           else do {
             (value, p) \<leftarrow> strto_digits mem radix p 0;
             Some (if negative then - value else value, map_option (\<lambda>_. p) end_ptr) })"

definition strtoll :: "memory \<Rightarrow> u32 \<Rightarrow> u32 option \<Rightarrow> int \<Rightarrow> (u64 \<times> u32 option) option" where
  "strtoll mem str end_ptr radix =
    (if str = 0 then Some (0, end_ptr)
     else if mem str = 0 then Some (0, end_ptr)
     else
       let sign = mem str = 0x2B \<or> mem str = 0x2D;
           negative = mem str = 0x2D;
           p = (if sign then str + 1 else str) in
       if sign \<and> mem p = 0 then Some (0, map_option (\<lambda>_. str) end_ptr)
       else case strto_prefix mem p radix of
         None \<Rightarrow> Some (0, end_ptr)
       | Some (p, radix) \<Rightarrow>
           if radix < 2 \<or> 36 < radix then Some (0, end_ptr)
           else do {
             (value, p) \<leftarrow> strto_digits mem radix p 0;
             Some (if negative then - value else value, map_option (\<lambda>_. p) end_ptr) })"

definition atoi :: "memory \<Rightarrow> u32 \<Rightarrow> u32 option" where
  "atoi mem str = map_option fst (strtol mem str None 10)"

definition atol :: "memory \<Rightarrow> u32 \<Rightarrow> u32 option" where
  "atol mem str = map_option fst (strtol mem str None 10)"

definition atoll :: "memory \<Rightarrow> u32 \<Rightarrow> u64 option" where
  "atoll mem str = map_option fst (strtoll mem str None 10)"

section \<open>The value of a run of digits\<close>

definition horner :: "nat \<Rightarrow> nat list \<Rightarrow> nat" where
  "horner b ds = foldl (\<lambda>v d. v * b + d) 0 ds"

lemma horner_simps [simp]: "horner b [] = 0" "horner b (ds @ [d]) = horner b ds * b + d"
  by (simp_all add: horner_def)

text \<open>A byte that is a digit of the base, and its value.\<close>

definition is_digit :: "nat \<Rightarrow> u8 \<Rightarrow> nat \<Rightarrow> bool" where
  "is_digit b c d \<longleftrightarrow> digit_value c = Some (int d) \<and> d < b"

lemma digit_nonzero: "is_digit b c d \<Longrightarrow> c \<noteq> 0"
  by (auto simp: is_digit_def digit_value_def)

lemma strto_digits_cstr:
  assumes "cstr mem p cs" and "list_all2 (is_digit b) cs ds"
  shows "strto_digits mem (int b) p v =
    Some (foldl (\<lambda>v d. v * of_nat b + of_nat d) v ds, p + of_nat (length cs))"
  using assms(2,1)
proof (induction arbitrary: p v rule: list_all2_induct)
  case Nil
  then show ?case by (subst strto_digits.simps) simp
next
  case (Cons c cs d ds)
  have d: "digit_value c = Some (int d)" "d < b" using Cons.hyps(1) by (simp_all add: is_digit_def)
  have "strto_digits mem (int b) p v = strto_digits mem (int b) (p + 1) (v * of_nat b + of_nat d)"
    using d Cons.prems by (subst strto_digits.simps) simp
  then show ?case using Cons.IH Cons.prems by (simp add: algebra_simps)
qed

lemma foldl_word: "foldl (\<lambda>v d. v * of_nat b + of_nat d) (of_nat v) ds = (of_nat (foldl (\<lambda>v d. v * b + d) v ds) :: 'a :: len word)"
  by (induction ds arbitrary: v) (simp_all flip: of_nat_mult of_nat_add)

lemma strto_digits_value:
  assumes "cstr mem p cs" and "list_all2 (is_digit b) cs ds"
  shows "strto_digits mem (int b) p 0 = Some (of_nat (horner b ds) :: 'a :: len word, p + of_nat (length cs))"
  using strto_digits_cstr [OF assms, of "0 :: 'a word"] foldl_word [of b 0 ds, where ?'a = 'a] by (simp add: horner_def)

text \<open>With an explicit radix the unsigned functions read such a run completely.\<close>

lemma strtoull_digits:
  assumes "cstr mem p cs" and "list_all2 (is_digit b) cs ds" and "cs \<noteq> []" and "p \<noteq> 0" and "2 \<le> b" "b \<le> 36"
  shows "strtoull mem p e (int b) = Some (of_nat (horner b ds), map_option (\<lambda>_. p + of_nat (length cs)) e)"
proof -
  have "mem p \<noteq> 0" using assms(1,3) by (cases cs) auto
  then show ?thesis
    using strto_digits_value [OF assms(1,2), where ?'a = 64] assms(4-6) by (simp add: strtoull_def strto_prefix_def)
qed

lemma strtoul_digits:
  assumes "cstr mem p cs" and "list_all2 (is_digit b) cs ds" and "cs \<noteq> []" and "p \<noteq> 0" and "2 \<le> b" "b \<le> 36"
  shows "strtoul mem p e (int b) = Some (of_nat (horner b ds), map_option (\<lambda>_. p + of_nat (length cs)) e)"
proof -
  have "mem p \<noteq> 0" using assms(1,3) by (cases cs) auto
  then show ?thesis
    using strto_digits_value [OF assms(1,2), where ?'a = 32] assms(4-6) by (simp add: strtoul_def strto_prefix_def)
qed

lemma strtoll_minus:
  assumes "cstr mem (p + 1) cs" and "mem p = 0x2D" and "list_all2 (is_digit b) cs ds" and "cs \<noteq> []" and "p \<noteq> 0"
    and "2 \<le> b" "b \<le> 36"
  shows "strtoll mem p e (int b) = Some (- of_nat (horner b ds), map_option (\<lambda>_. p + 1 + of_nat (length cs)) e)"
proof -
  have "mem (p + 1) \<noteq> 0" using assms(1,4) by (cases cs) auto
  then show ?thesis
    using strto_digits_value [OF assms(1,3), where ?'a = 64] assms(2,5-7) by (simp add: strtoll_def strto_prefix_def Let_def)
qed

lemma strtoll_digits:
  assumes "cstr mem p cs" and "list_all2 (is_digit b) cs ds" and "cs \<noteq> []" and "p \<noteq> 0" and "2 \<le> b" "b \<le> 36"
  shows "strtoll mem p e (int b) = Some (of_nat (horner b ds), map_option (\<lambda>_. p + of_nat (length cs)) e)"
proof -
  obtain c d where "mem p = c" "is_digit b c d" using assms(1-3) by (cases cs) (auto simp: list_all2_Cons1)
  then have "mem p \<noteq> 0" "mem p \<noteq> 0x2B" "mem p \<noteq> 0x2D" by (auto simp: is_digit_def digit_value_def)
  then show ?thesis
    using strto_digits_value [OF assms(1,2), where ?'a = 64] assms(4-6) by (simp add: strtoll_def strto_prefix_def Let_def)
qed

text \<open>A terminated string is always read to an end, whatever it holds.\<close>

lemma strto_digits_returns:
  "cstr mem p cs \<Longrightarrow> \<exists>v' n. strto_digits mem radix p v = Some (v', p + of_nat n) \<and> n \<le> length cs"
proof (induction cs arbitrary: p v)
  case Nil
  then show ?case by (subst strto_digits.simps) (auto intro: exI [of _ 0])
next
  case (Cons c cs)
  show ?case
  proof (cases "\<exists>d. digit_value c = Some d \<and> d < radix")
    case True
    then obtain d where d: "digit_value c = Some d" "d < radix" by blast
    obtain v' n where "strto_digits mem radix (p + 1) (v * of_int radix + of_int d) = Some (v', p + 1 + of_nat n)" "n \<le> length cs"
      using Cons.IH [of "p + 1" "v * of_int radix + of_int d"] Cons.prems by auto
    then show ?thesis
      using d Cons.prems by (subst strto_digits.simps) (auto intro!: exI [of _ "Suc n"] simp: algebra_simps)
  next
    case False
    then have "strto_digits mem radix p v = Some (v, p)"
      using Cons.prems by (subst strto_digits.simps) (auto split: option.splits)
    then show ?thesis by (auto intro: exI [of _ 0])
  qed
qed

end
