(* ===== verification/Libc_Printf.thy ===== *)
theory Libc_Printf
  imports Libc_Runtime Libc_Strtoul
begin

text \<open>
  \<^verbatim>\<open>src/libc/stdio/printf.c\<close>: formatted output. The formatting functions pass one character after
  another to \<^verbatim>\<open>output_char\<close> and never read back what they wrote, so their effect is the list of the
  characters so far; \<^verbatim>\<open>out->count\<close> is its length as a 32-bit number. What becomes of the characters
  is up to the destination (\<^verbatim>\<open>putc\<close>), a function that is folded over the list.

  The arguments are the 32-bit slots behind the format on the stack, two for a 64-bit argument;
  to take one that is not there is undefined (\<open>None\<close>). The format and the strings are read from memory
  as it is at the call, as the \<^verbatim>\<open>restrict\<close> qualifiers promise. The static buffer of \<^verbatim>\<open>pr_number\<close> is
  written before it is read and is a local list here. Arithmetic on \<^verbatim>\<open>int\<close> wraps at 32 bits.
\<close>

section \<open>Numbers\<close>

definition MAX_BUFFER_SIZE :: nat where
  "MAX_BUFFER_SIZE = 64"

definition s32 :: "int \<Rightarrow> int" where
  "s32 x = signed_take_bit 31 x"

definition hex_digits_u :: "u8 list" where
  "hex_digits_u = [0x30, 0x31, 0x32, 0x33, 0x34, 0x35, 0x36, 0x37, 0x38, 0x39, 0x41, 0x42, 0x43, 0x44, 0x45, 0x46]"

definition hex_digits_l :: "u8 list" where
  "hex_digits_l = [0x30, 0x31, 0x32, 0x33, 0x34, 0x35, 0x36, 0x37, 0x38, 0x39, 0x61, 0x62, 0x63, 0x64, 0x65, 0x66]"

definition output_char :: "u8 list \<Rightarrow> u8 \<Rightarrow> u8 list" where
  "output_char out c = out @ [c]"

text \<open>A loop that outputs the given characters.\<close>

primrec output_all :: "u8 list \<Rightarrow> u8 list \<Rightarrow> u8 list" where
  "output_all [] out = out"
| "output_all (c # cs) out = output_all cs (output_char out c)"

text \<open>
  The digit loops \<^verbatim>\<open>while (j && i < MAX_BUFFER_SIZE)\<close>, lowest digit first; the number is the room left
  in the buffer. The division of 64-bit numbers is a call into the runtime.
\<close>

primrec digit_loop :: "nat \<Rightarrow> (u64 \<Rightarrow> u64) \<Rightarrow> (u64 \<Rightarrow> u64) \<Rightarrow> u8 list \<Rightarrow> u64 \<Rightarrow> u8 list" where
  "digit_loop 0 low rest digits j = []"
| "digit_loop (Suc n) low rest digits j =
    (if j = 0 then [] else digits ! unat (low j) # digit_loop n low rest digits (rest j))"

definition number_digits :: "int \<Rightarrow> u8 list \<Rightarrow> u64 \<Rightarrow> u8 list" where
  "number_digits base digits number =
    (if number = 0 then [0x30]
     else if base = 2 then digit_loop MAX_BUFFER_SIZE (\<lambda>j. j AND 1) (drop_bit 1) digits number
     else if base = 8 then digit_loop MAX_BUFFER_SIZE (\<lambda>j. j AND 7) (drop_bit 3) digits number
     else if base = 16 then digit_loop MAX_BUFFER_SIZE (\<lambda>j. j AND 0xF) (drop_bit 4) digits number
     else digit_loop MAX_BUFFER_SIZE (\<lambda>j. umoddi3 j (of_int base)) (\<lambda>j. udivdi3 j (of_int base)) digits number)"

definition pr_number ::
  "u8 list \<Rightarrow> u64 \<Rightarrow> bool \<Rightarrow> int \<Rightarrow> bool \<Rightarrow> int \<Rightarrow> int \<Rightarrow> u8 \<Rightarrow> bool \<Rightarrow> u8 list" where
  "pr_number out number is_signed base lower width precision pad left =
    (let hex_digits = (if lower then hex_digits_l else hex_digits_u);
         base = (if base \<noteq> 2 \<and> base \<noteq> 8 \<and> base \<noteq> 10 \<and> base \<noteq> 16 then 10 else base);
         negative = is_signed \<and> sint number < 0;
         number = (if negative then - (number + 1) + 1 else number);
         buffer = number_digits base hex_digits number;
         digits = (if precision = 0 \<and> number = 0 then 0 else int (length buffer));
         neg = (if negative then 1 else 0);
         (zeros, spaces) =
           (if 0 \<le> precision then
              let zeros = max (s32 (precision - digits)) 0
              in (zeros, max (s32 (width - digits - zeros - neg)) 0)
            else if pad = 0x30 then (max (s32 (width - digits - neg)) 0, 0)
            else (0, max (s32 (width - digits - neg)) 0));
         out = (if \<not> left then output_all (replicate (nat spaces) 0x20) out else out);
         out = (if negative then output_char out 0x2D else out);
         out = output_all (replicate (nat zeros) 0x30) out;
         out = output_all (rev (take (nat digits) buffer)) out
     in if left then output_all (replicate (nat spaces) 0x20) out else out)"

definition pr_uint :: "u8 list \<Rightarrow> u64 \<Rightarrow> int \<Rightarrow> bool \<Rightarrow> int \<Rightarrow> int \<Rightarrow> u8 \<Rightarrow> bool \<Rightarrow> u8 list" where
  "pr_uint out number base lower width precision pad left =
     pr_number out number False base lower width precision pad left"

definition pr_int :: "u8 list \<Rightarrow> u64 \<Rightarrow> int \<Rightarrow> int \<Rightarrow> u8 \<Rightarrow> bool \<Rightarrow> u8 list" where
  "pr_int out number width precision pad left = pr_number out number True 10 False width precision pad left"

section \<open>Strings\<close>

definition null_text :: "u8 list" where
  "null_text = [0x28, 0x6E, 0x75, 0x6C, 0x6C, 0x29]"

text \<open>The characters of a string argument, found by \<^verbatim>\<open>strlen\<close>.\<close>

definition string_arg :: "memory \<Rightarrow> u32 \<Rightarrow> u8 list option" where
  "string_arg mem s =
    (if s = 0 then Some null_text
     else do { len \<leftarrow> strlen mem s; Some (map (\<lambda>i. mem (s + of_nat i)) [0 ..< unat len]) })"

definition pr_string :: "memory \<Rightarrow> u8 list \<Rightarrow> u32 \<Rightarrow> int \<Rightarrow> int \<Rightarrow> bool \<Rightarrow> u8 list option" where
  "pr_string mem out s width precision left = do {
     cs \<leftarrow> string_arg mem s;
     let len = length cs;
         len = (if 0 \<le> precision \<and> unat (of_int precision :: u32) < len then unat (of_int precision :: u32) else len);
         fill = replicate (unat (of_int width :: u32) - len) 0x20;
         out = (if \<not> left then output_all fill out else out);
         out = output_all (take len cs) out in
     Some (if left then output_all fill out else out) }"

section \<open>Formats\<close>

partial_function (option) parse_number :: "memory \<Rightarrow> u32 \<Rightarrow> int \<Rightarrow> (int \<times> u32) option" where
  "parse_number mem fmt number =
    (if 0x30 \<le> mem fmt \<and> mem fmt \<le> 0x39
     then parse_number mem (fmt + 1) (s32 (number * 10 + (uint (mem fmt) - 0x30)))
     else Some (number, fmt))"

record format_spec =
  fs_left :: bool
  fs_pad :: u8
  fs_width :: int
  fs_precision :: int
  fs_long_long :: bool

text \<open>What stands between the percent sign and the conversion letter.\<close>

definition parse_spec :: "memory \<Rightarrow> u32 \<Rightarrow> (format_spec \<times> u32) option" where
  "parse_spec mem fmt = (
     let (left, pad, fmt) =
       (if mem fmt = 0x2D then (True, 0x20, fmt + 1)
        else if mem fmt = 0x30 then (False, 0x30, fmt + 1)
        else (False, 0x20, fmt)) in do {
     (width, fmt) \<leftarrow> parse_number mem fmt 0;
     (precision, pad, fmt) \<leftarrow>
       (if mem fmt = 0x2E then do { (precision, fmt) \<leftarrow> parse_number mem (fmt + 1) 0; Some (precision, 0x20, fmt) }
        else Some (-1, pad, fmt));
     let (long_long, fmt) =
       (if mem fmt = 0x6C then if mem (fmt + 1) = 0x6C then (True, fmt + 2) else (False, fmt + 1)
        else (False, fmt)) in
     Some (\<lparr>fs_left = left, fs_pad = pad, fs_width = width, fs_precision = precision, fs_long_long = long_long\<rparr>, fmt) })"

text \<open>\<^verbatim>\<open>va_arg\<close> for 32-bit and 64-bit types.\<close>

definition va_u32 :: "u32 list \<Rightarrow> (u32 \<times> u32 list) option" where
  "va_u32 args = (case args of [] \<Rightarrow> None | a # args \<Rightarrow> Some (a, args))"

definition va_u64 :: "u32 list \<Rightarrow> (u64 \<times> u32 list) option" where
  "va_u64 args = do {
     (lo, args) \<leftarrow> va_u32 args;
     (hi, args) \<leftarrow> va_u32 args;
     Some (push_bit 32 (ucast hi) OR ucast lo, args) }"

text \<open>An integer argument, zero-extended or sign-extended to 64 bits.\<close>

definition va_unsigned :: "bool \<Rightarrow> u32 list \<Rightarrow> (u64 \<times> u32 list) option" where
  "va_unsigned long_long args =
    (if long_long then va_u64 args else do { (v, args) \<leftarrow> va_u32 args; Some (ucast v, args) })"

definition va_signed :: "bool \<Rightarrow> u32 list \<Rightarrow> (u64 \<times> u32 list) option" where
  "va_signed long_long args =
    (if long_long then va_u64 args else do { (v, args) \<leftarrow> va_u32 args; Some (scast v, args) })"

definition unsigned_conversion :: "int \<Rightarrow> bool \<Rightarrow> format_spec \<Rightarrow> u32 list \<Rightarrow> u8 list \<Rightarrow> (u32 list \<times> u8 list) option" where
  "unsigned_conversion base lower f args out = do {
     (v, args) \<leftarrow> va_unsigned (fs_long_long f) args;
     Some (args, pr_uint out v base lower (fs_width f) (fs_precision f) (fs_pad f) (fs_left f)) }"

text \<open>The \<^verbatim>\<open>switch\<close> over the conversion letter.\<close>

definition conversion :: "memory \<Rightarrow> u8 \<Rightarrow> format_spec \<Rightarrow> u32 list \<Rightarrow> u8 list \<Rightarrow> (u32 list \<times> u8 list) option" where
  "conversion mem c f args out =
    (let lower = (c = 0x78) in
     if c = 0x63 then do { (v, args) \<leftarrow> va_u32 args; Some (args, output_char out (ucast v)) }
     else if c = 0x73 then do {
       (s, args) \<leftarrow> va_u32 args;
       out \<leftarrow> pr_string mem out s (fs_width f) (fs_precision f) (fs_left f);
       Some (args, out) }
     else if c = 0x64 \<or> c = 0x69 then do {
       (v, args) \<leftarrow> va_signed (fs_long_long f) args;
       Some (args, pr_int out v (fs_width f) (fs_precision f) (fs_pad f) (fs_left f)) }
     else if c = 0x75 then unsigned_conversion 10 lower f args out
     else if c = 0x78 \<or> c = 0x58 then unsigned_conversion 16 lower f args out
     else if c = 0x6F then unsigned_conversion 8 lower f args out
     else if c = 0x62 then unsigned_conversion 2 lower f args out
     else if c = 0x25 then Some (args, output_char out 0x25)
     else Some (args, output_char (output_char out 0x25) c))"

partial_function (option) vformat_loop :: "memory \<Rightarrow> u32 \<Rightarrow> u32 list \<Rightarrow> u8 list \<Rightarrow> u8 list option" where
  "vformat_loop mem fmt args out =
    (if mem fmt = 0 then Some out
     else if mem fmt \<noteq> 0x25 then vformat_loop mem (fmt + 1) args (output_char out (mem fmt))
     else do {
       (f, fmt) \<leftarrow> parse_spec mem (fmt + 1);
       (args, out) \<leftarrow> conversion mem (mem fmt) f args out;
       vformat_loop mem (fmt + 1) args out })"

definition vformat :: "memory \<Rightarrow> u32 \<Rightarrow> u32 list \<Rightarrow> u8 list option" where
  "vformat mem fmt args = vformat_loop mem fmt args []"

section \<open>Output to a buffer\<close>

record string_output_t =
  so_buffer :: u32
  so_length :: u32
  so_count :: u32

definition string_output :: "u8 \<Rightarrow> string_output_t \<times> memory \<Rightarrow> string_output_t \<times> memory" where
  "string_output c st = (case st of (so, mem) \<Rightarrow>
    (so\<lparr>so_count := so_count so + 1\<rparr>, if so_count so < so_length so then mem(so_buffer so + so_count so := c) else mem))"

definition vsprintf :: "u32 \<Rightarrow> u32 \<Rightarrow> u32 list \<Rightarrow> memory \<Rightarrow> (u32 \<times> memory) option" where
  "vsprintf s fmt args mem = do {
     out \<leftarrow> vformat mem fmt args;
     let (str, mem) = fold string_output out (\<lparr>so_buffer = s, so_length = 0xFFFFFFFF, so_count = 0\<rparr>, mem);
         count = of_nat (length out) in
     Some (count, mem(s + count := 0)) }"

text \<open>What \<^verbatim>\<open>vsnprintf\<close> stores: the characters as they are passed to \<^verbatim>\<open>string_output\<close>, and the terminator.\<close>

definition store_text :: "u32 \<Rightarrow> u32 \<Rightarrow> u8 list \<Rightarrow> memory \<Rightarrow> memory" where
  "store_text s len out mem =
    (let (str, mem) = fold string_output out (\<lparr>so_buffer = s, so_length = len, so_count = 0\<rparr>, mem);
         count = of_nat (length out)
     in if len \<noteq> 0 then if count < len then mem(s + count := 0) else mem(s + (len - 1) := 0) else mem)"

definition vsnprintf :: "u32 \<Rightarrow> u32 \<Rightarrow> u32 \<Rightarrow> u32 list \<Rightarrow> memory \<Rightarrow> (u32 \<times> memory) option" where
  "vsnprintf s len fmt args mem = do {
     out \<leftarrow> vformat mem fmt args;
     Some (of_nat (length out), store_text s len out mem) }"

definition sprintf :: "u32 \<Rightarrow> u32 \<Rightarrow> u32 list \<Rightarrow> memory \<Rightarrow> (u32 \<times> memory) option" where
  "sprintf buffer fmt args mem = vsprintf buffer fmt args mem"

definition snprintf :: "u32 \<Rightarrow> u32 \<Rightarrow> u32 \<Rightarrow> u32 list \<Rightarrow> memory \<Rightarrow> (u32 \<times> memory) option" where
  "snprintf buffer buffer_size fmt args mem = vsnprintf buffer buffer_size fmt args mem"

end
