(* ===== verification/Libc_Print_Correct.thy ===== *)
theory Libc_Print_Correct
  imports Libc_Printf
begin

text \<open>
  Correctness of the formatted output: \<^verbatim>\<open>vsnprintf\<close> keeps to its buffer, and \<^verbatim>\<open>strtoull\<close> reads back
  what the number printer writes.
\<close>

section \<open>Digits\<close>

lemma output_all_append [simp]: "output_all cs out = out @ cs"
  by (induction cs arbitrary: out) (simp_all add: output_char_def)

lemma hex_digits_values:
  "list_all2 (is_digit 16) hex_digits_l [0 ..< 16]" "list_all2 (is_digit 16) hex_digits_u [0 ..< 16]"
  by code_simp+

lemma is_digit_hex:
  assumes "d < b" and "b \<le> 16"
  shows "is_digit b (hex_digits_l ! d) d" and "is_digit b (hex_digits_u ! d) d"
  using hex_digits_values [THEN list_all2_nthD2, of d] assms by (auto simp: is_digit_def)

lemma digit_loop_value:
  assumes low: "\<And>j. unat (low j) = unat j mod b" and rest: "\<And>j. unat (rest j) = unat j div b"
    and digits: "\<And>d. d < b \<Longrightarrow> is_digit b (digits ! d) d" and b: "2 \<le> b"
  shows "unat j < b ^ n \<Longrightarrow>
    \<exists>ds. list_all2 (is_digit b) (rev (digit_loop n low rest digits j)) ds \<and> horner b ds = unat j"
proof (induction n arbitrary: j)
  case (Suc n)
  show ?case
  proof (cases "j = 0")
    case False
    have "unat (rest j) < b ^ n"
      using Suc.prems b by (simp add: rest less_mult_imp_div_less mult.commute)
    then obtain ds where ds: "list_all2 (is_digit b) (rev (digit_loop n low rest digits (rest j))) ds"
      "horner b ds = unat (rest j)" using Suc.IH by blast
    have "is_digit b (digits ! unat (low j)) (unat j mod b)" using digits [of "unat j mod b"] b by (simp add: low)
    then show ?thesis
      using False ds by (auto intro!: exI [of _ "ds @ [unat j mod b]"] list_all2_appendI simp: rest)
  qed simp
qed auto

lemma unat_and_mask_u64: "unat ((j :: u64) AND mask k) = unat j mod 2 ^ k"
  by (simp only: take_bit_eq_mask [symmetric] unsigned_take_bit_eq take_bit_nat_def)

lemma digit_loop_mask:
  assumes "\<And>d. d < 2 ^ k \<Longrightarrow> is_digit (2 ^ k) (digits ! d) d" and "0 < k"
  shows "\<exists>ds. list_all2 (is_digit (2 ^ k)) (rev (digit_loop 64 (\<lambda>j. j AND mask k) (drop_bit k) digits n)) ds \<and>
    horner (2 ^ k) ds = unat n"
proof (rule digit_loop_value [OF unat_and_mask_u64 unat_drop_bit_u64])
  have "(2 :: nat) ^ 1 \<le> 2 ^ k" by (rule power_increasing) (use assms(2) in simp_all)
  then show "(2 :: nat) \<le> 2 ^ k" by simp
  have "unat n < 2 ^ 64" using unsigned_less [of n, where ?'a = nat] by simp
  also have "(2 :: nat) ^ 64 \<le> (2 ^ k) ^ 64" by (rule power_mono) (use \<open>2 \<le> 2 ^ k\<close> in simp_all)
  finally show "unat n < (2 ^ k) ^ 64" .
qed (use assms(1) in blast)

lemma digit_loop_ten:
  assumes "\<And>d. d < 10 \<Longrightarrow> is_digit 10 (digits ! d) d"
  shows "\<exists>ds. list_all2 (is_digit 10) (rev (digit_loop 64 (\<lambda>j. umoddi3 j 10) (\<lambda>j. udivdi3 j 10) digits n)) ds \<and>
    horner 10 ds = unat n"
proof (rule digit_loop_value)
  show "unat (umoddi3 j 10) = unat j mod 10" "unat (udivdi3 j 10) = unat j div 10" for j
    by (simp_all add: umoddi3_def udivdi3_def udivmoddi4_def udivmod_loop_eq unat_div unat_mod)
  have "unat n < 2 ^ 64" using unsigned_less [of n, where ?'a = nat] by simp
  also have "\<dots> \<le> 10 ^ 64" by (rule power_mono) simp_all
  finally show "unat n < 10 ^ 64" .
qed (use assms in simp_all)

lemma number_digits_value:
  assumes "base \<in> {2, 8, 10, 16}" and digits: "\<And>d. d < nat base \<Longrightarrow> is_digit (nat base) (digits ! d) d"
  shows "\<exists>ds. list_all2 (is_digit (nat base)) (rev (number_digits base digits n)) ds \<and> horner (nat base) ds = unat n"
proof (cases "n = 0")
  case True
  have "is_digit (nat base) 0x30 0" using assms(1) by (auto simp: is_digit_def digit_value_def)
  then show ?thesis using True by (auto intro!: exI [of _ "[0]"] simp: number_digits_def horner_def)
next
  case False
  consider "base = 2" | "base = 8" | "base = 10" | "base = 16" using assms(1) by blast
  then show ?thesis
  proof cases
    case 1
    then show ?thesis using digit_loop_mask [of 1 digits n] digits False
      by (simp add: number_digits_def MAX_BUFFER_SIZE_def mask_eq_exp_minus_1)
  next
    case 2
    then show ?thesis using digit_loop_mask [of 3 digits n] digits False
      by (simp add: number_digits_def MAX_BUFFER_SIZE_def mask_eq_exp_minus_1)
  next
    case 3
    then show ?thesis using digit_loop_ten [of digits n] digits False
      by (simp add: number_digits_def MAX_BUFFER_SIZE_def)
  next
    case 4
    then show ?thesis using digit_loop_mask [of 4 digits n] digits False
      by (simp add: number_digits_def MAX_BUFFER_SIZE_def mask_eq_exp_minus_1)
  qed
qed

section \<open>Formats\<close>

text \<open>
  A format is a sequence of literal characters and conversions. \<open>item_text\<close> is how an item is written,
  \<open>item_spec\<close> what \<^verbatim>\<open>vformat\<close> is to make of its flag, width, precision and length, and \<open>item_output\<close>
  the characters it stands for, which use up its own argument slots.
\<close>

datatype flag = No_Flag | Minus_Flag | Zero_Flag

record conversion_item =
  it_flag :: flag
  it_width :: "u8 list"
  it_precision :: "u8 list option"
  it_longs :: nat
  it_letter :: u8
  it_args :: "u32 list"

datatype item = Literal u8 | Conversion conversion_item

definition is_decimal :: "u8 \<Rightarrow> bool" where
  "is_decimal c \<longleftrightarrow> 0x30 \<le> c \<and> c \<le> 0x39"

definition decimal :: "u8 list \<Rightarrow> int" where
  "decimal ds = foldl (\<lambda>n d. s32 (n * 10 + (uint d - 0x30))) 0 ds"

definition precision_text :: "u8 list option \<Rightarrow> u8 list" where
  "precision_text prec = (case prec of None \<Rightarrow> [] | Some ds \<Rightarrow> 0x2E # ds)"

definition flag_text :: "flag \<Rightarrow> u8 list" where
  "flag_text f = (case f of No_Flag \<Rightarrow> [] | Minus_Flag \<Rightarrow> [0x2D] | Zero_Flag \<Rightarrow> [0x30])"

definition conversion_text :: "conversion_item \<Rightarrow> u8 list" where
  "conversion_text it = flag_text (it_flag it) @ it_width it @ precision_text (it_precision it) @
     replicate (it_longs it) 0x6C @ [it_letter it]"

primrec item_text :: "item \<Rightarrow> u8 list" where
  "item_text (Literal c) = [c]"
| "item_text (Conversion it) = 0x25 # conversion_text it"

primrec item_args :: "item \<Rightarrow> u32 list" where
  "item_args (Literal c) = []"
| "item_args (Conversion it) = it_args it"

definition item_spec :: "conversion_item \<Rightarrow> format_spec" where
  "item_spec it = \<lparr>fs_left = (it_flag it = Minus_Flag),
     fs_pad = (if it_precision it = None \<and> it_flag it = Zero_Flag then 0x30 else 0x20),
     fs_width = decimal (it_width it),
     fs_precision = (case it_precision it of None \<Rightarrow> -1 | Some ds \<Rightarrow> decimal ds),
     fs_long_long = (it_longs it = 2)\<rparr>"

primrec item_output :: "memory \<Rightarrow> item \<Rightarrow> u8 list option" where
  "item_output mem (Literal c) = Some [c]"
| "item_output mem (Conversion it) =
    (case conversion mem (it_letter it) (item_spec it) (it_args it) [] of
       Some ([], out) \<Rightarrow> Some out | _ \<Rightarrow> None)"

definition letters :: "u8 list" where
  "letters = [0x63, 0x73, 0x64, 0x69, 0x75, 0x78, 0x58, 0x6F, 0x62, 0x25]"

primrec item_ok :: "item \<Rightarrow> bool" where
  "item_ok (Literal c) \<longleftrightarrow> c \<noteq> 0 \<and> c \<noteq> 0x25"
| "item_ok (Conversion it) \<longleftrightarrow> list_all is_decimal (it_width it) \<and>
    (it_flag it = No_Flag \<longrightarrow> it_width it = [] \<or> hd (it_width it) \<noteq> 0x30) \<and>
    (case it_precision it of None \<Rightarrow> True | Some ds \<Rightarrow> list_all is_decimal ds) \<and>
    it_longs it \<le> 2 \<and> it_letter it \<in> set letters"

lemma cstr_append: "cstr mem p (xs @ ys) \<Longrightarrow> cstr mem (p + of_nat (length xs)) ys"
  by (induction xs arbitrary: p) (simp_all flip: add.assoc)

lemma cstr_nth: "cstr mem p (xs @ y # ys) \<Longrightarrow> mem (p + of_nat (length xs)) = y"
  using cstr_append [of mem p xs "y # ys"] by simp

lemma parse_number_decimal:
  "\<lbrakk>cstr mem p (ds @ c # cs); list_all is_decimal ds; \<not> is_decimal c\<rbrakk> \<Longrightarrow>
    parse_number mem p n = Some (foldl (\<lambda>n d. s32 (n * 10 + (uint d - 0x30))) n ds, p + of_nat (length ds))"
proof (induction ds arbitrary: p n)
  case Nil
  then show ?case by (subst parse_number.simps) (auto simp: is_decimal_def)
next
  case (Cons d ds)
  then have "parse_number mem p n = parse_number mem (p + 1) (s32 (n * 10 + (uint d - 0x30)))"
    by (subst parse_number.simps) (auto simp: is_decimal_def)
  then show ?case using Cons by (simp add: algebra_simps)
qed

text \<open>The parts of a conversion as \<^verbatim>\<open>vformat\<close> takes them off the format, one after another.\<close>

definition after_precision :: "conversion_item \<Rightarrow> u8 list" where
  "after_precision it = replicate (it_longs it) 0x6C @ [it_letter it]"

definition after_width :: "conversion_item \<Rightarrow> u8 list" where
  "after_width it = precision_text (it_precision it) @ after_precision it"

lemma conversion_text_parts: "conversion_text it = flag_text (it_flag it) @ it_width it @ after_width it"
  by (simp add: conversion_text_def after_width_def after_precision_def)

lemma letter_facts:
  assumes "c \<in> set letters"
  shows "\<not> is_decimal c" "c \<noteq> 0x2E" "c \<noteq> 0x6C" "c \<noteq> 0x2D" "c \<noteq> 0x30" "c \<noteq> 0"
  using assms by (auto simp: letters_def is_decimal_def)

lemma after_precision_hd:
  "it_letter it \<in> set letters \<Longrightarrow>
    \<exists>c cs. after_precision it = c # cs \<and> \<not> is_decimal c \<and> c \<noteq> 0x2E \<and> c \<noteq> 0x2D \<and> c \<noteq> 0x30"
  using letter_facts [of "it_letter it"] by (cases "it_longs it") (auto simp: after_precision_def is_decimal_def)

lemma after_width_hd:
  "it_letter it \<in> set letters \<Longrightarrow>
    \<exists>c cs. after_width it = c # cs \<and> \<not> is_decimal c \<and> c \<noteq> 0x2D \<and> c \<noteq> 0x30 \<and> (it_precision it = None \<longrightarrow> c \<noteq> 0x2E)"
  using after_precision_hd [of it]
  by (cases "it_precision it :: u8 list option") (auto simp: after_width_def precision_text_def is_decimal_def)

lemma parse_flag:
  assumes "cstr mem p (conversion_text it @ cs)" and "item_ok (Conversion it)"
  shows "(if mem p = 0x2D then (True, 0x20, p + 1) else if mem p = 0x30 then (False, 0x30, p + 1) else (False, 0x20, p)) =
    (it_flag it = Minus_Flag, if it_flag it = Zero_Flag then 0x30 else 0x20 :: u8, p + of_nat (length (flag_text (it_flag it))))"
proof (cases "it_flag it")
  case No_Flag
  obtain c ds where a: "after_width it = c # ds" "c \<noteq> 0x2D" "c \<noteq> 0x30"
    using after_width_hd [of it] assms(2) unfolding item_ok.simps by blast
  have "mem p \<noteq> 0x2D \<and> mem p \<noteq> 0x30"
    using assms No_Flag a by (cases "it_width it") (auto simp: conversion_text_parts flag_text_def is_decimal_def)
  then show ?thesis using No_Flag by (simp add: flag_text_def)
qed (use assms(1) in \<open>simp_all add: conversion_text_parts flag_text_def\<close>)

lemma parse_precision:
  assumes "cstr mem p (after_width it @ cs)" and "item_ok (Conversion it)"
  shows "(if mem p = 0x2E then do { (precision, fmt) \<leftarrow> parse_number mem (p + 1) 0; Some (precision, 0x20, fmt) }
      else Some (-1, pad, p)) =
    Some (case it_precision it of None \<Rightarrow> -1 | Some ds \<Rightarrow> decimal ds, if it_precision it = None then pad else 0x20,
      p + of_nat (length (precision_text (it_precision it))))"
proof (cases "it_precision it")
  case None
  obtain c ds where "after_width it = c # ds" "c \<noteq> 0x2E" using after_width_hd [of it] assms(2) None unfolding item_ok.simps by blast
  then show ?thesis using assms(1) None by (simp add: precision_text_def)
next
  case (Some ds)
  obtain c es where "after_precision it = c # es" "\<not> is_decimal c" using after_precision_hd [of it] assms(2) unfolding item_ok.simps by blast
  then have "parse_number mem (p + 1) 0 = Some (decimal ds, p + 1 + of_nat (length ds))"
    using parse_number_decimal [of mem "p + 1" ds c "es @ cs" 0] assms Some
    by (simp add: after_width_def precision_text_def decimal_def)
  moreover have "mem p = 0x2E" using assms(1) Some by (simp add: after_width_def precision_text_def)
  ultimately show ?thesis using Some by (simp add: precision_text_def add.assoc)
qed

lemma parse_longs:
  assumes "cstr mem p (after_precision it @ cs)" and "item_ok (Conversion it)"
  shows "(if mem p = 0x6C then if mem (p + 1) = 0x6C then (True, p + 2) else (False, p + 1) else (False, p)) =
      (it_longs it = 2, p + of_nat (it_longs it)) \<and>
    mem (p + of_nat (it_longs it)) = it_letter it \<and> cstr mem (p + of_nat (it_longs it) + 1) cs"
proof -
  have "it_longs it \<in> {0, 1, 2}" "it_letter it \<noteq> 0x6C" using assms(2) letter_facts(3) by auto
  then show ?thesis using assms(1) by (auto simp: after_precision_def eval_nat_numeral add.assoc)
qed

lemma parse_spec_item:
  assumes "cstr mem p (conversion_text it @ cs)" and "item_ok (Conversion it)"
  shows "\<exists>p'. parse_spec mem p = Some (item_spec it, p') \<and> mem p' = it_letter it \<and> cstr mem (p' + 1) cs"
proof -
  define p1 where "p1 = p + of_nat (length (flag_text (it_flag it)))"
  define p2 where "p2 = p1 + of_nat (length (it_width it))"
  define p3 where "p3 = p2 + of_nat (length (precision_text (it_precision it)))"
  have 1: "cstr mem p1 (it_width it @ after_width it @ cs)"
    unfolding p1_def by (rule cstr_append) (use assms(1) in \<open>simp add: conversion_text_parts\<close>)
  have 2: "cstr mem p2 (after_width it @ cs)" unfolding p2_def by (rule cstr_append [OF 1])
  have 3: "cstr mem p3 (after_precision it @ cs)"
    unfolding p3_def by (rule cstr_append) (use 2 in \<open>simp add: after_width_def\<close>)
  obtain c ds where "after_width it = c # ds" "\<not> is_decimal c"
    using after_width_hd [of it] assms(2) unfolding item_ok.simps by blast
  then have width: "parse_number mem p1 0 = Some (decimal (it_width it), p2)"
    using parse_number_decimal [of mem p1 "it_width it" c "ds @ cs" 0] 1 assms(2) by (simp add: decimal_def p2_def)
  show ?thesis
    unfolding parse_spec_def parse_flag [OF assms] Let_def prod.case p1_def [symmetric] width
      Option.bind.simps parse_precision [OF 2 assms(2)] p3_def [symmetric]
      conjunct1 [OF parse_longs [OF 3 assms(2)]]
    using parse_longs [OF 3 assms(2)] by (auto simp: item_spec_def)
qed

lemma pr_number_append:
  "pr_number out n is_signed base lower width precision pad left =
    out @ pr_number [] n is_signed base lower width precision pad left"
proof -
  define negative where "negative = (is_signed \<and> sint n < 0)"
  show ?thesis
    unfolding pr_number_def Let_def output_all_append output_char_def case_prod_beta negative_def [symmetric]
    by (cases left; cases negative)
      (simp_all only: if_True if_False append_assoc append_Nil not_True_eq_False not_False_eq_True)
qed

lemma pr_string_append: "pr_string mem out s width precision left = map_option ((@) out) (pr_string mem [] s width precision left)"
  unfolding pr_string_def Let_def output_all_append by (cases "string_arg mem s") simp_all

text \<open>A conversion uses its own arguments and appends to what was printed.\<close>

lemma va_args_append:
  "va_u32 args = Some (v, args') \<Longrightarrow> va_u32 (args @ rest) = Some (v, args' @ rest)"
  "va_unsigned long_long args = Some (n, args') \<Longrightarrow> va_unsigned long_long (args @ rest) = Some (n, args' @ rest)"
  "va_signed long_long args = Some (n, args') \<Longrightarrow> va_signed long_long (args @ rest) = Some (n, args' @ rest)"
  by (auto simp: va_u32_def va_u64_def va_unsigned_def va_signed_def split: list.splits if_splits)

lemma unsigned_conversion_append:
  "unsigned_conversion base lower f args [] = Some (args', o') \<Longrightarrow>
    unsigned_conversion base lower f (args @ rest) out = Some (args' @ rest, out @ o')"
  using va_args_append(2) [of "fs_long_long f" args _ _ rest] pr_number_append [of out]
  by (auto simp: unsigned_conversion_def pr_uint_def bind_eq_Some_conv)

lemma conversion_append:
  assumes "conversion mem c f args [] = Some (args', o')"
  shows "conversion mem c f (args @ rest) out = Some (args' @ rest, out @ o')"
proof -
  consider "c = 0x63" | "c = 0x73" | "c = 0x64 \<or> c = 0x69" | "c = 0x75" | "c = 0x78" | "c = 0x58" | "c = 0x6F" | "c = 0x62"
    | "c = 0x25" | "c \<notin> set letters" by (auto simp: letters_def)
  then show ?thesis
  proof cases
    case 1
    then show ?thesis using assms by (auto simp: conversion_def output_char_def bind_eq_Some_conv va_args_append(1))
  next
    case 2
    then show ?thesis
      using assms va_args_append(1) [of args _ _ rest] pr_string_append [of mem out]
      by (auto simp: conversion_def bind_eq_Some_conv)
  next
    case 3
    then show ?thesis
      using assms va_args_append(3) [of "fs_long_long f" args _ _ rest] pr_number_append [of out]
      by (auto simp: conversion_def pr_int_def bind_eq_Some_conv)
  qed (use assms unsigned_conversion_append [of _ _ f args args' o' rest out]
    in \<open>simp_all add: conversion_def output_char_def letters_def\<close>)
qed

lemma vformat_loop_end: "mem fmt = 0 \<Longrightarrow> vformat_loop mem fmt args out = Some out"
  by (subst vformat_loop.simps) simp

lemma vformat_loop_literal:
  "\<lbrakk>mem fmt \<noteq> 0; mem fmt \<noteq> 0x25\<rbrakk> \<Longrightarrow> vformat_loop mem fmt args out = vformat_loop mem (fmt + 1) args (out @ [mem fmt])"
  by (subst vformat_loop.simps) (simp add: output_char_def)

lemma vformat_loop_conversion:
  "\<lbrakk>mem fmt = 0x25; parse_spec mem (fmt + 1) = Some (f, p); conversion mem (mem p) f args out = Some (args', out')\<rbrakk> \<Longrightarrow>
    vformat_loop mem fmt args out = vformat_loop mem (p + 1) args' out'"
  by (subst vformat_loop.simps) simp

lemma vformat_loop_items:
  "\<lbrakk>cstr mem fmt (concat (map item_text items)); list_all item_ok items;
    list_all2 (\<lambda>it o'. item_output mem it = Some o') items outs\<rbrakk> \<Longrightarrow>
   vformat_loop mem fmt (concat (map item_args items) @ rest) out = Some (out @ concat outs)"
proof (induction items arbitrary: fmt out outs)
  case Nil
  then show ?case by (simp add: vformat_loop_end)
next
  case (Cons it items)
  obtain o' outs' where outs: "outs = o' # outs'" "item_output mem it = Some o'"
    "list_all2 (\<lambda>it o'. item_output mem it = Some o') items outs'"
    using Cons.prems(3) by (auto simp: list_all2_Cons1)
  show ?case
  proof (cases it)
    case (Literal c)
    then show ?thesis
      using Cons.prems(1,2) outs Cons.IH [of "fmt + 1" outs' "out @ [c]"] by (auto simp: vformat_loop_literal)
  next
    case (Conversion ci)
    have conv: "cstr mem (fmt + 1) (conversion_text ci @ concat (map item_text items))" "mem fmt = 0x25"
      using Cons.prems(1) Conversion by simp_all
    obtain p where p: "parse_spec mem (fmt + 1) = Some (item_spec ci, p)" "mem p = it_letter ci"
      "cstr mem (p + 1) (concat (map item_text items))"
      using parse_spec_item [OF conv(1)] Cons.prems(2) Conversion by auto
    have "conversion mem (it_letter ci) (item_spec ci) (it_args ci) [] = Some ([], o')"
      using outs(2) Conversion by (auto split: option.splits list.splits)
    from conversion_append [OF this, of "concat (map item_args items) @ rest" out]
    have "vformat_loop mem fmt (concat (map item_args (it # items)) @ rest) out =
        vformat_loop mem (p + 1) (concat (map item_args items) @ rest) (out @ o')"
      using vformat_loop_conversion [OF conv(2) p(1)] p(2) Conversion by simp
    then show ?thesis using Cons.IH [OF p(3) _ outs(3)] Cons.prems(2) outs(1) by simp
  qed
qed

text \<open>
  C29: a format that is built from literal characters and complete conversions (an optional flag,
  a width, a precision, up to two length letters, a conversion letter) is printed item by item: every
  conversion is read as it was written, uses up its own arguments, and the output is the
  concatenation of the outputs of the items. The formatter returns on every such format.
\<close>

theorem vformat_renders:
  assumes "cstr mem fmt (concat (map item_text items))" and "list_all item_ok items"
    and "list_all2 (\<lambda>it out. item_output mem it = Some out) items outs"
  shows "vformat mem fmt (concat (map item_args items) @ rest) = Some (concat outs)"
  using vformat_loop_items [OF assms, of rest "[]"] by (simp add: vformat_def)

section \<open>Printing and reading a number\<close>

lemma length_digit_loop: "length (digit_loop n low rest digits j) \<le> n"
  by (induction n arbitrary: j) simp_all

lemma digit_loop_nonempty: "\<lbrakk>0 < n; j \<noteq> 0\<rbrakk> \<Longrightarrow> digit_loop n low rest digits j \<noteq> []"
  by (cases n) simp_all

lemma length_number_digits: "length (number_digits base digits n) \<le> 64"
  using length_digit_loop [of 64] by (simp add: number_digits_def MAX_BUFFER_SIZE_def)

lemma number_digits_nonempty: "number_digits base digits n \<noteq> []"
  using digit_loop_nonempty [of 64 n] by (simp add: number_digits_def MAX_BUFFER_SIZE_def)

lemma s32_small: "\<lbrakk>- (2 ^ 31) \<le> x; x < 2 ^ 31\<rbrakk> \<Longrightarrow> s32 x = x"
  by (simp add: s32_def signed_take_bit_int_eq_self)

text \<open>Without a precision, and with no width or with zeros as padding, zeros are all that is added.\<close>

definition sign_text :: "bool \<Rightarrow> u8 list" where
  "sign_text negative = (if negative then [0x2D] else [])"

lemma pr_number_zeros:
  fixes number :: u64 and is_signed :: bool
  assumes "base \<in> {2, 8, 10, 16}" and "pad = 0x30 \<or> width = 0"
  defines "negative \<equiv> is_signed \<and> sint number < 0"
  shows "\<exists>z. pr_number out number is_signed base lower width (-1) pad left =
    out @ sign_text negative @ replicate z 0x30 @
      rev (number_digits base (if lower then hex_digits_l else hex_digits_u) (if negative then - number else number))"
proof -
  let ?ds = "number_digits base (if lower then hex_digits_l else hex_digits_u) (if negative then - number else number)"
  have "s32 (0 - int (length ?ds) - (if negative then 1 else 0)) \<le> 0"
    using length_number_digits [of base "if lower then hex_digits_l else hex_digits_u" "if negative then - number else number"]
    by (subst s32_small) auto
  then have w: "width = 0 \<Longrightarrow> nat (max (s32 (width - int (length ?ds) - (if negative then 1 else 0))) 0) = 0" by simp
  have n: "(if negative then - (number + 1) + 1 else number) = (if negative then - number else number)" by simp
  have b: "(if base \<noteq> 2 \<and> base \<noteq> 8 \<and> base \<noteq> 10 \<and> base \<noteq> 16 then 10 else base) = base" using assms(1) by auto
  show ?thesis
  proof (cases "pad = 0x30")
    case True
    show ?thesis
      unfolding pr_number_def Let_def negative_def [symmetric] n b using True
      by (simp add: output_char_def sign_text_def)
  next
    case False
    then have "width = 0" using assms(2) by simp
    from w [OF this] show ?thesis
      unfolding pr_number_def Let_def negative_def [symmetric] n b using False \<open>width = 0\<close>
      by (simp add: output_char_def sign_text_def)
  qed
qed

lemma horner_zeros: "horner b (replicate z 0 @ ds) = horner b ds"
proof (induction ds rule: rev_induct)
  case Nil
  show ?case by (induction z) (simp_all add: replicate_append_same [symmetric] del: replicate_append_same replicate_Suc, simp_all add: horner_def)
next
  case (snoc d ds)
  then show ?case by (simp flip: append_assoc)
qed

text \<open>The digits that are printed, and that they have the number as their value.\<close>

lemma printed_digits:
  assumes "base \<in> {2, 8, 10, 16}"
  shows "\<exists>ds. list_all2 (is_digit (nat base))
      (replicate z 0x30 @ rev (number_digits base (if lower then hex_digits_l else hex_digits_u) n)) ds \<and>
    horner (nat base) ds = unat n"
proof -
  let ?hex = "if lower then hex_digits_l else hex_digits_u"
  have b: "0 < nat base" "nat base \<le> 16" using assms by auto
  have "is_digit (nat base) (?hex ! d) d" if "d < nat base" for d
    using is_digit_hex [OF that b(2)] by simp
  from number_digits_value [OF assms this]
  obtain ds where ds: "list_all2 (is_digit (nat base)) (rev (number_digits base ?hex n)) ds" "horner (nat base) ds = unat n" by blast
  have "list_all2 (is_digit (nat base)) (replicate z 0x30) (replicate z 0)"
    using b by (simp add: list_all2_conv_all_nth is_digit_def digit_value_def)
  then show ?thesis using ds by (auto intro!: exI [of _ "replicate z 0 @ ds"] list_all2_appendI simp: horner_zeros)
qed

lemma strtoull_pr_uint:
  assumes base: "base \<in> {2, 8, 10, 16}" and "pad = 0x30 \<or> width = 0" and "p \<noteq> 0"
    and printed: "cstr mem p (pr_uint [] n base lower width (-1) pad left)"
  shows "strtoull mem p (Some e) base = Some (n, Some (p + of_nat (length (pr_uint [] n base lower width (-1) pad left))))"
proof -
  let ?cs = "pr_uint [] n base lower width (-1) pad left"
  let ?ds = "number_digits base (if lower then hex_digits_l else hex_digits_u) n"
  obtain z where cs: "?cs = replicate z 0x30 @ rev ?ds"
    using pr_number_zeros [OF assms(1,2), of "[]" n False lower left] by (auto simp: pr_uint_def sign_text_def)
  obtain ds where ds: "list_all2 (is_digit (nat base)) ?cs ds" "horner (nat base) ds = unat n"
    using printed_digits [OF base, of z lower n] cs by auto
  have b: "2 \<le> nat base" "nat base \<le> 36" "int (nat base) = base" using base by auto
  have "?cs \<noteq> []" using cs by (simp add: number_digits_nonempty)
  from strtoull_digits [OF printed ds(1) this assms(3) b(1,2), of "Some e"] show ?thesis using ds(2) b(3) by simp
qed

lemma strtoll_pr_int:
  assumes "pad = 0x30 \<or> width = 0" and p: "p \<noteq> 0" and printed: "cstr mem p (pr_int [] n width (-1) pad left)"
  shows "strtoll mem p (Some e) 10 = Some (n, Some (p + of_nat (length (pr_int [] n width (-1) pad left))))"
proof -
  let ?cs = "pr_int [] n width (-1) pad left" and ?m = "if sint n < 0 then - n else n"
  obtain z where cs: "?cs = sign_text (sint n < 0) @ replicate z 0x30 @ rev (number_digits 10 hex_digits_u ?m)"
    using pr_number_zeros [OF _ assms(1), of 10 "[]" n True False left] by (auto simp: pr_int_def)
  define body where "body = replicate z 0x30 @ rev (number_digits 10 hex_digits_u ?m)"
  obtain ds where ds: "list_all2 (is_digit 10) body ds" "horner 10 ds = unat ?m"
    using printed_digits [of 10 z False ?m] by (auto simp: body_def)
  have body: "body \<noteq> []" by (simp add: body_def number_digits_nonempty)
  show ?thesis
  proof (cases "sint n < 0")
    case True
    then have "?cs = 0x2D # body" using cs by (simp add: sign_text_def body_def)
    moreover from this printed have "mem p = 0x2D" "cstr mem (p + 1) body" by simp_all
    ultimately show ?thesis
      using strtoll_minus [of mem p body 10 ds "Some e"] ds body p True by simp
  next
    case False
    then have "?cs = body" using cs by (simp add: sign_text_def body_def)
    then show ?thesis using strtoll_digits [of mem p body 10 ds "Some e"] printed ds body p False by simp
  qed
qed

text \<open>
  C31: \<^verbatim>\<open>strtoull\<close> reads back what \<^verbatim>\<open>pr_uint\<close> prints in the bases 2, 8, 10 and 16, and \<^verbatim>\<open>strtoll\<close> what
  \<^verbatim>\<open>pr_int\<close> prints, for every 64-bit number, with or without leading zeros, and they stop at the end of
  the text.
\<close>

theorem print_parse_roundtrip:
  assumes "base \<in> {2, 8, 10, 16}" and "pad = 0x30 \<or> width = 0" and "p \<noteq> 0" and "q \<noteq> 0"
    and "cstr mem p (pr_uint [] n base lower width (-1) pad left)"
    and "cstr mem q (pr_int [] n width (-1) pad left)"
  shows "strtoull mem p (Some e) base = Some (n, Some (p + of_nat (length (pr_uint [] n base lower width (-1) pad left)))) \<and>
    strtoll mem q (Some e) 10 = Some (n, Some (q + of_nat (length (pr_int [] n width (-1) pad left))))"
  using strtoull_pr_uint [OF assms(1,2,3,5)] strtoll_pr_int [OF assms(2,4,6)] by simp

text \<open>The number -1 as 64 ones and as a signed decimal number.\<close>

definition sample_text :: memory where
  "sample_text a = (if 0x100 \<le> a \<and> a < 0x110 then 0x46 else if a = 0x200 then 0x2D else if a = 0x201 then 0x31 else 0)"

theorem print_parse_roundtrip_witness:
  "strtoull sample_text 0x100 (Some 0) 16 = Some (-1, Some (0x100 + 16)) \<and>
   strtoll sample_text 0x200 (Some 0) 10 = Some (-1, Some (0x200 + 2))"
proof -
  have t: "pr_uint [] (-1) 16 False 0 (-1) 0x20 False = replicate 16 0x46" "pr_int [] (-1) 0 (-1) 0x20 False = [0x2D, 0x31]"
    by code_simp+
  have "cstr sample_text 0x100 (replicate 16 0x46)" "cstr sample_text 0x200 [0x2D, 0x31]" by code_simp+
  then show ?thesis
    using print_parse_roundtrip [where base = 16 and pad = "0x20" and width = 0 and p = "0x100" and q = "0x200" and mem = sample_text
      and n = "-1" and lower = False and left = False and e = 0] unfolding t by simp
qed

section \<open>The buffer of \<^verbatim>\<open>vsnprintf\<close>\<close>

text \<open>The characters at their places, as long as they are inside the buffer.\<close>

lemma fold_string_output_outside:
  "len \<le> a - s \<Longrightarrow> snd (fold string_output out (\<lparr>so_buffer = s, so_length = len, so_count = c\<rparr>, mem)) a = mem a"
  by (induction out arbitrary: c mem) (auto simp: string_output_def)

lemma fold_string_output_inside:
  "unat c + length out < 2 ^ 32 \<Longrightarrow>
    snd (fold string_output out (\<lparr>so_buffer = s, so_length = len, so_count = c\<rparr>, mem)) a =
      (if unat c \<le> unat (a - s) \<and> unat (a - s) < unat c + length out \<and> a - s < len
       then out ! (unat (a - s) - unat c) else mem a)"
proof (induction out arbitrary: c mem)
  case (Cons x xs)
  have c: "unat (c + 1) = unat c + 1" using Cons.prems by (simp add: unat_word_ariths)
  have a: "a = s + c \<longleftrightarrow> unat (a - s) = unat c" by (simp add: word_unat_eq_iff [symmetric] diff_eq_eq add.commute)
  show ?case
    using Cons.IH [of "c + 1"] Cons.prems c a
    by (auto simp: string_output_def nth_Cons' word_less_nat_alt)
qed auto

lemma store_text_bounded:
  "(\<forall>a. len \<le> a - s \<longrightarrow> store_text s len out mem a = mem a) \<and>
    (len \<noteq> 0 \<and> length out < 2 ^ 32 \<longrightarrow>
      (let n = min (length out) (unat len - 1) in
       (\<forall>i < n. store_text s len out mem (s + of_nat i) = out ! i) \<and> store_text s len out mem (s + of_nat n) = 0))"
proof -
  define mem1 where
    "mem1 = snd (fold string_output out (\<lparr>so_buffer = s, so_length = len, so_count = 0\<rparr>, mem))"
  define n where "n = min (length out) (unat len - 1)"
  define mem' where
    "mem' = (if len \<noteq> 0 then if of_nat (length out) < len then mem1(s + of_nat (length out) := 0) else mem1(s + (len - 1) := 0) else mem1)"
  have store: "store_text s len out mem = mem'"
    by (simp add: store_text_def mem'_def mem1_def Let_def split: prod.split)
  have "mem' a = mem a" if "len \<le> a - s" for a
  proof -
    have "mem1 a = mem a" unfolding mem1_def by (rule fold_string_output_outside [OF that])
    moreover have "a \<noteq> s + (len - 1)" if "len \<noteq> 0"
      using \<open>len \<le> a - s\<close> that unat_minus_one [of len] by (auto simp: word_le_nat_alt unat_gt_0 [symmetric])
    moreover have "a \<noteq> s + of_nat (length out)" if "of_nat (length out) < len"
      using \<open>len \<le> a - s\<close> that by auto
    ultimately show ?thesis by (auto simp: mem'_def)
  qed
  moreover have "(\<forall>i < n. mem' (s + of_nat i) = out ! i) \<and> mem' (s + of_nat n) = 0" if "len \<noteq> 0" "length out < 2 ^ 32"
  proof -
    have len: "0 < unat len" "unat len < 2 ^ 32" using that(1) unsigned_less [of len, where ?'a = nat] by (simp_all add: unat_gt_0)
    have l: "unat (of_nat (length out) :: u32) = length out" using that(2) by (simp add: unat_of_nat)
    have mem': "mem' = mem1(s + of_nat n := 0)"
      using that(1) len l by (auto simp: mem'_def n_def min_def word_less_nat_alt of_nat_diff)
    have "mem' (s + of_nat i) = out ! i" if "i < n" for i
    proof -
      have i: "i < unat len" "i < length out" "i < 2 ^ 32" "n < 2 ^ 32"
        using that \<open>length out < 2 ^ 32\<close> unfolding n_def by linarith+
      then have "(of_nat i :: u32) \<noteq> of_nat n" using that by (simp add: unat_of_nat word_unat_eq_iff)
      moreover have "mem1 (s + of_nat i) = out ! i"
        unfolding mem1_def using \<open>length out < 2 ^ 32\<close> i by (subst fold_string_output_inside) (simp_all add: unat_of_nat word_less_nat_alt)
      ultimately show ?thesis by (simp add: mem')
    qed
    then show ?thesis by (simp add: mem')
  qed
  ultimately show ?thesis by (auto simp: store n_def Let_def)
qed

text \<open>
  C30: whatever is printed, \<^verbatim>\<open>vsnprintf\<close> writes only to the given buffer, returns the length of the
  complete text, and leaves the beginning of the text in the buffer with a terminating zero inside it.
\<close>

theorem vsnprintf_bounded:
  assumes "vformat mem fmt args = Some out"
  shows "\<exists>mem'. vsnprintf s len fmt args mem = Some (of_nat (length out), mem') \<and>
    (\<forall>a. len \<le> a - s \<longrightarrow> mem' a = mem a) \<and>
    (len \<noteq> 0 \<and> length out < 2 ^ 32 \<longrightarrow>
      (let n = min (length out) (unat len - 1) in (\<forall>i < n. mem' (s + of_nat i) = out ! i) \<and> mem' (s + of_nat n) = 0))"
  using assms store_text_bounded [of len s out mem] by (simp add: vsnprintf_def)

text \<open>The text \<open>%d!\<close> with the argument 5, in a buffer for two characters.\<close>

definition sample_format :: memory where
  "sample_format a = (if a = 0x10 then 0x25 else if a = 0x11 then 0x64 else if a = 0x12 then 0x21 else 0)"

definition sample_items :: "item list" where
  "sample_items = [Conversion \<lparr>it_flag = No_Flag, it_width = [], it_precision = None, it_longs = 0, it_letter = 0x64,
     it_args = [5]\<rparr>, Literal 0x21]"

lemma sample_items_facts:
  "cstr sample_format 0x10 (concat (map item_text sample_items))" "list_all item_ok sample_items"
  "list_all2 (\<lambda>it out. item_output sample_format it = Some out) sample_items [[0x35], [0x21]]"
  "concat (map item_args sample_items) = [5]"
  by code_simp+

theorem vformat_renders_witness: "vformat sample_format 0x10 [5] = Some [0x35, 0x21]"
  using vformat_renders [OF sample_items_facts(1-3), of "[]"] by (simp add: sample_items_facts(4))

theorem vsnprintf_bounded_witness:
  "vformat sample_format 0x10 [5] = Some [0x35, 0x21] \<and>
   (\<exists>mem'. vsnprintf 0x40 2 0x10 [5] sample_format = Some (2, mem') \<and> mem' 0x40 = 0x35 \<and> mem' 0x41 = 0 \<and> mem' 0x42 = 0)"
proof -
  have out: "vformat sample_format 0x10 [5] = Some [0x35, 0x21]"
    using vformat_loop_items [OF sample_items_facts(1-3), of "[]" "[]"] by (simp add: vformat_def sample_items_facts(4))
  show ?thesis using vsnprintf_bounded [OF out, of "0x40" 2] out by (auto simp: Let_def sample_format_def)
qed

end
