(* ===== verification/Console.thy ===== *)
theory Console
  imports Tty Keyboard Libc_Print_Correct
begin

text \<open>
  The console: the end of \<^verbatim>\<open>src/libc/stdio/printf.c\<close>, \<^verbatim>\<open>putchar.c\<close>, \<^verbatim>\<open>puts.c\<close> and \<^verbatim>\<open>getchar.c\<close>, the serial
  line of \<^verbatim>\<open>src/kd/uart.asm\<close>, \<^verbatim>\<open>src/kd/kdprint.c\<close> and \<^verbatim>\<open>src/ke/kpanic.c\<close>. Text goes to the terminal, to the
  serial line, or to both.

  The bytes that the ports of the serial line return are a parameter: \<open>uart n\<close> is the result of the
  n-th read. The bytes written are kept in order. On the target \<^verbatim>\<open>va_list\<close> is a pointer that is passed by
  value, so that \<^verbatim>\<open>kprintf\<close> prints the same arguments twice. \<^verbatim>\<open>kpanic\<close> does not return; its
  definition is the console when it stops.
\<close>

section \<open>The serial line\<close>

definition COM1 :: u16 where "COM1 = 0x3F8"

definition UART_DR :: u8 where "UART_DR = 0x01"

definition UART_THRE :: u8 where "UART_THRE = 0x20"

record serial =
  sl_reads :: nat
  sl_writes :: "(u16 \<times> u8) list"

definition inb_serial :: "(nat \<Rightarrow> u8) \<Rightarrow> serial \<Rightarrow> u8 \<times> serial" where
  "inb_serial uart s = (uart (sl_reads s), s\<lparr>sl_reads := sl_reads s + 1\<rparr>)"

text \<open>The loop of \<^verbatim>\<open>serial_write\<close>; the number is the count of tries left.\<close>

primrec serial_wait :: "nat \<Rightarrow> (nat \<Rightarrow> u8) \<Rightarrow> serial \<Rightarrow> bool \<times> serial" where
  "serial_wait 0 uart s = (False, s)"
| "serial_wait (Suc n) uart s =
    (let (al, s) = inb_serial uart s in if al AND UART_THRE \<noteq> 0 then (True, s) else serial_wait n uart s)"

definition serial_write :: "(nat \<Rightarrow> u8) \<Rightarrow> u16 \<Rightarrow> u8 \<Rightarrow> serial \<Rightarrow> serial" where
  "serial_write uart com_port b s =
    (let (ready, s) = serial_wait 0xFFFF uart s
     in if ready then s\<lparr>sl_writes := sl_writes s @ [(com_port, b)]\<rparr> else s)"

definition serial_read :: "(nat \<Rightarrow> u8) \<Rightarrow> serial \<Rightarrow> u32 \<times> serial" where
  "serial_read uart s =
    (let (al, s) = inb_serial uart s in
     if al AND UART_DR = 0 then (0, s) else let (al, s) = inb_serial uart s in (ucast al, s))"

section \<open>Printing\<close>

record console =
  con_tty :: tty
  con_serial :: serial
  con_keyboard :: keyboard

definition tty_output :: "u8 \<Rightarrow> console \<Rightarrow> console" where
  "tty_output c con = con\<lparr>con_tty := tty_putc c (con_tty con)\<rparr>"

definition serial_output :: "(nat \<Rightarrow> u8) \<Rightarrow> u8 \<Rightarrow> console \<Rightarrow> console" where
  "serial_output uart c con = con\<lparr>con_serial := serial_write uart COM1 c (con_serial con)\<rparr>"

definition con_memory :: "console \<Rightarrow> memory" where
  "con_memory con = tty_memory (con_tty con)"

definition vprintf :: "u32 \<Rightarrow> u32 list \<Rightarrow> console \<Rightarrow> (u32 \<times> console) option" where
  "vprintf fmt args con = do {
     out \<leftarrow> vformat (con_memory con) fmt args;
     Some (of_nat (length out), fold tty_output out con) }"

definition printf :: "u32 \<Rightarrow> u32 list \<Rightarrow> console \<Rightarrow> (u32 \<times> console) option" where
  "printf fmt args con = vprintf fmt args con"

definition STDIO :: u32 where "STDIO = 0"

definition SERIAL :: u32 where "SERIAL = 1"

definition vfprintf :: "(nat \<Rightarrow> u8) \<Rightarrow> u32 \<Rightarrow> u32 \<Rightarrow> u32 list \<Rightarrow> console \<Rightarrow> (u32 \<times> console) option" where
  "vfprintf uart stream fmt args con =
    (if stream = STDIO then do {
       out \<leftarrow> vformat (con_memory con) fmt args;
       Some (of_nat (length out), fold tty_output out con) }
     else if stream = SERIAL then do {
       out \<leftarrow> vformat (con_memory con) fmt args;
       Some (of_nat (length out), fold (serial_output uart) out con) }
     else Some (-1, con))"

definition fprintf :: "(nat \<Rightarrow> u8) \<Rightarrow> u32 \<Rightarrow> u32 \<Rightarrow> u32 list \<Rightarrow> console \<Rightarrow> (u32 \<times> console) option" where
  "fprintf uart stream fmt args con = vfprintf uart stream fmt args con"

definition kprintf :: "(nat \<Rightarrow> u8) \<Rightarrow> u32 \<Rightarrow> u32 list \<Rightarrow> console \<Rightarrow> console option" where
  "kprintf uart fmt args con = do {
     (_, con) \<leftarrow> vfprintf uart STDIO fmt args con;
     (_, con) \<leftarrow> vfprintf uart SERIAL fmt args con;
     Some con }"

definition kdprintf :: "(nat \<Rightarrow> u8) \<Rightarrow> u32 \<Rightarrow> u32 list \<Rightarrow> console \<Rightarrow> console option" where
  "kdprintf uart fmt args con = do { (_, con) \<leftarrow> vfprintf uart SERIAL fmt args con; Some con }"

text \<open>\<open>panic_str\<close> is the address of the string that \<^verbatim>\<open>kpanic\<close> prints first.\<close>

definition kpanic :: "(nat \<Rightarrow> u8) \<Rightarrow> u32 \<Rightarrow> u32 \<Rightarrow> u32 list \<Rightarrow> console \<Rightarrow> console option" where
  "kpanic uart panic_str fmt args con = do {
     (_, con) \<leftarrow> fprintf uart STDIO panic_str [] con;
     (_, con) \<leftarrow> vfprintf uart STDIO fmt args con;
     (_, con) \<leftarrow> fprintf uart SERIAL panic_str [] con;
     (_, con) \<leftarrow> vfprintf uart SERIAL fmt args con;
     Some con }"

definition putchar :: "u32 \<Rightarrow> console \<Rightarrow> u32 \<times> console" where
  "putchar ch con = (ch, tty_output (ucast ch) con)"

partial_function (option) puts_loop :: "u32 \<Rightarrow> console \<Rightarrow> console option" where
  "puts_loop s con =
    (if con_memory con s = 0 then Some con else puts_loop (s + 1) (tty_output (con_memory con s) con))"

definition EOF :: u32 where "EOF = 0"

definition puts :: "u32 \<Rightarrow> console \<Rightarrow> (u32 \<times> console) option" where
  "puts s con = (if s = 0 then Some (EOF, con) else do { con \<leftarrow> puts_loop s con; Some (1, con) })"

definition getchar :: "(nat \<Rightarrow> u8) \<Rightarrow> (u32 \<Rightarrow> u8) \<Rightarrow> console \<Rightarrow> u32 \<times> console" where
  "getchar uart beyond con =
    (let (ch, k) = ps2_getchar beyond (con_keyboard con);
         con = con\<lparr>con_keyboard := k\<rparr>;
         (ch, con) =
           (if ch = 0 then let (ch, s) = serial_read uart (con_serial con) in (ch, con\<lparr>con_serial := s\<rparr>) else (ch, con))
     in if ch = 0 then (EOF, con) else (ch, con))"

section \<open>What is printed\<close>

lemma fold_tty_output: "fold tty_output out con = con\<lparr>con_tty := fold tty_putc out (con_tty con)\<rparr>"
  by (induction out arbitrary: con) (simp_all add: tty_output_def)

lemma fold_tty_putc:
  "tty_ok t \<Longrightarrow> tty_ok (fold tty_putc out t) \<and> screen_of (fold tty_putc out t) = fold screen_putc out (screen_of t) \<and>
    only_screen (tty_memory t) (tty_memory (fold tty_putc out t))"
proof -
  assume ok: "tty_ok t"
  have "only_screen (tty_memory t) (tty_memory (fold tty_putc out t))"
    using ok
  proof (induction out arbitrary: t)
    case (Cons c out)
    then show ?case using tty_putc_facts [OF Cons.prems, of c] by (auto intro: only_screen_trans)
  qed simp
  then show ?thesis using terminal.keeps_events [OF ok] terminal.commutes_events [OF ok] by simp
qed

lemma serial_wait_ready: "uart (sl_reads s) AND UART_THRE \<noteq> 0 \<Longrightarrow> serial_wait (Suc n) uart s = (True, s\<lparr>sl_reads := sl_reads s + 1\<rparr>)"
  by (simp add: inb_serial_def)

lemma serial_write_ready:
  "uart (sl_reads s) AND UART_THRE \<noteq> 0 \<Longrightarrow>
    serial_write uart p b s = s\<lparr>sl_reads := sl_reads s + 1, sl_writes := sl_writes s @ [(p, b)]\<rparr>"
  using serial_wait_ready [of uart s 65534] by (simp add: serial_write_def Let_def)

lemma fold_serial_output:
  assumes "\<And>n. uart n AND UART_THRE \<noteq> 0"
  shows "con_tty (fold (serial_output uart) out con) = con_tty con \<and>
    con_keyboard (fold (serial_output uart) out con) = con_keyboard con \<and>
    sl_writes (con_serial (fold (serial_output uart) out con)) = sl_writes (con_serial con) @ map (Pair COM1) out"
proof (induction out arbitrary: con)
  case (Cons c out)
  have "con_tty (serial_output uart c con) = con_tty con" "con_keyboard (serial_output uart c con) = con_keyboard con"
    "sl_writes (con_serial (serial_output uart c con)) = sl_writes (con_serial con) @ [(COM1, c)]"
    using serial_write_ready [of uart, OF assms] by (simp_all add: serial_output_def)
  then show ?case by (simp add: Cons)
qed simp

text \<open>A line that is never ready: every byte is dropped after 65535 tries.\<close>

lemma serial_wait_never:
  "(\<And>n. uart n AND UART_THRE = 0) \<Longrightarrow> serial_wait n uart s = (False, s\<lparr>sl_reads := sl_reads s + n\<rparr>)"
  by (induction n arbitrary: s) (simp_all add: inb_serial_def)

lemma serial_write_never:
  "(\<And>n. uart n AND UART_THRE = 0) \<Longrightarrow> sl_writes (serial_write uart p b s) = sl_writes s"
  using serial_wait_never [of uart "0xFFFF" s] by (simp add: serial_write_def Let_def)

text \<open>
  C32: \<^verbatim>\<open>kprintf\<close> shows the formatted text on the terminal and sends the same text over the serial line,
  when the format and its strings are not in the VGA buffer itself and the line is ready.
\<close>

theorem kprintf_prints:
  assumes "tty_ok (con_tty con)" and "\<And>n. uart n AND UART_THRE \<noteq> 0"
    and "\<And>mem. only_screen (con_memory con) mem \<Longrightarrow> vformat mem fmt args = Some out"
  shows "\<exists>con'. kprintf uart fmt args con = Some con' \<and> tty_ok (con_tty con') \<and>
    screen_of (con_tty con') = fold screen_putc out (screen_of (con_tty con)) \<and>
    sl_writes (con_serial con') = sl_writes (con_serial con) @ map (Pair COM1) out \<and>
    con_keyboard con' = con_keyboard con \<and> only_screen (con_memory con) (con_memory con')"
proof -
  define con1 where "con1 = fold tty_output out con"
  have tty: "con_tty con1 = fold tty_putc out (con_tty con)" "con_serial con1 = con_serial con" "con_keyboard con1 = con_keyboard con"
    by (simp_all add: con1_def fold_tty_output)
  note screen = fold_tty_putc [OF assms(1), of out]
  have v: "vformat (con_memory con) fmt args = Some out" "vformat (con_memory con1) fmt args = Some out"
    using assms(3) screen by (simp_all add: con_memory_def tty)
  have "kprintf uart fmt args con = Some (fold (serial_output uart) out con1)"
    by (simp add: kprintf_def vfprintf_def STDIO_def SERIAL_def v con1_def [symmetric])
  then show ?thesis
    using fold_serial_output [where uart = uart and out = out and con = con1, OF assms(2)] screen
    by (simp add: tty con_memory_def)
qed

text \<open>The format \<open>%d!\<close> at an address outside the VGA buffer, with the argument 5.\<close>

definition sample_console :: console where
  "sample_console = \<lparr>con_tty = \<lparr>tty_row = 0, tty_column = 0, tty_color = 7, tty_memory = sample_format, tty_ports = []\<rparr>,
     con_serial = \<lparr>sl_reads = 0, sl_writes = []\<rparr>, con_keyboard = \<lparr>kb_buff = replicate 32 0, kb_head = 0, kb_tail = 0, kb_count = 0\<rparr>\<rparr>"

theorem kprintf_prints_witness:
  "\<exists>con'. kprintf (\<lambda>_. 0x20) 0x10 [5] sample_console = Some con' \<and>
     cells (screen_of (con_tty con')) 0 0 = 0x0735 \<and> cells (screen_of (con_tty con')) 0 1 = 0x0721 \<and>
     sl_writes (con_serial con') = [(0x3F8, 0x35), (0x3F8, 0x21)]"
proof -
  have ok: "tty_ok (con_tty sample_console)" by code_simp
  have printed: "va_signed False [5] = Some (5, [])" "pr_int [] 5 0 (-1) 0x20 False = [0x35]" by code_simp+
  have v: "vformat mem 0x10 [5] = Some [0x35, 0x21]" if "only_screen (con_memory sample_console) mem" for mem
  proof -
    have "mem a = sample_format a" if "a < 0x20" for a
    proof -
      have "a < 0xC00B8000" using that by (rule order_less_trans) simp
      then show ?thesis
        using \<open>only_screen (con_memory sample_console) mem\<close>
        by (auto simp: only_screen_def con_memory_def sample_console_def VGA_MEMORY_def not_le)
    qed
    then have "cstr mem 0x10 [0x25, 0x64, 0x21]" by (simp add: sample_format_def)
    then have c: "cstr mem 0x10 (concat (map item_text sample_items))" by (simp add: sample_items_def conversion_text_def flag_text_def precision_text_def)
    have outs: "list_all2 (\<lambda>it out. item_output mem it = Some out) sample_items [[0x35], [0x21]]"
      by (simp add: sample_items_def) (simp add: item_spec_def decimal_def conversion_def printed)
    show ?thesis using vformat_loop_items [OF c sample_items_facts(2) outs, of "[]" "[]"]
      by (simp add: vformat_def sample_items_facts(4))
  qed
  have s: "fold screen_putc [0x35, 0x21] (screen_of (con_tty sample_console)) = s' \<Longrightarrow> cells s' 0 0 = 0x0735 \<and> cells s' 0 1 = 0x0721" for s'
    by (erule subst) code_simp
  obtain con' where c: "kprintf (\<lambda>_. 0x20) 0x10 [5] sample_console = Some con'"
    "screen_of (con_tty con') = fold screen_putc [0x35, 0x21] (screen_of (con_tty sample_console))"
    "sl_writes (con_serial con') = sl_writes (con_serial sample_console) @ map (Pair COM1) [0x35, 0x21]"
    using kprintf_prints [where uart = "\<lambda>_. 0x20" and fmt = "0x10" and args = "[5]", OF ok _ v] by (auto simp: UART_THRE_def)
  then show ?thesis using s [OF c(2) [symmetric]] by (simp add: sample_console_def COM1_def)
qed

end
