(* ===== verification/Elf.thy ===== *)
theory Elf
  imports Libc_String Kheap
begin

text \<open>
  \<^verbatim>\<open>src/elf/elf.c\<close>: the loader for relocatable ELF files. A file is a range of memory that the loader
  relocates in place, so every header is read from memory where the code reads it, again after every
  store. The structures are records that are read at an address; the offsets of the fields are those of
  the C structures. \<^verbatim>\<open>lookup_symbol\<close> is not part of the sources and is a parameter, a function of the
  memory and the address of the name. Messages are left out. A division by an entry size of 0 stops the
  kernel (\<open>None\<close>).
\<close>

section \<open>Structures\<close>

definition read16 :: "memory \<Rightarrow> u32 \<Rightarrow> u16" where
  "read16 mem a = ucast (mem a) OR push_bit 8 (ucast (mem (a + 1)))"

definition read32 :: "memory \<Rightarrow> u32 \<Rightarrow> u32" where
  "read32 mem a = ucast (mem a) OR push_bit 8 (ucast (mem (a + 1))) OR push_bit 16 (ucast (mem (a + 2))) OR
     push_bit 24 (ucast (mem (a + 3)))"

definition write32 :: "u32 \<Rightarrow> u32 \<Rightarrow> memory \<Rightarrow> memory" where
  "write32 a v mem =
     mem(a := ucast v, a + 1 := ucast (drop_bit 8 v), a + 2 := ucast (drop_bit 16 v), a + 3 := ucast (drop_bit 24 v))"

record Elf32_Ehdr =
  e_ident :: "u8 list"
  e_type :: u16
  e_machine :: u16
  e_entry :: u32
  e_shoff :: u32
  e_shnum :: u16

definition read_ehdr :: "memory \<Rightarrow> u32 \<Rightarrow> Elf32_Ehdr" where
  "read_ehdr mem a = \<lparr>e_ident = map (\<lambda>i. mem (a + of_nat i)) [0 ..< 16], e_type = read16 mem (a + 16),
     e_machine = read16 mem (a + 18), e_entry = read32 mem (a + 24), e_shoff = read32 mem (a + 32),
     e_shnum = read16 mem (a + 48)\<rparr>"

record Elf32_Shdr =
  sh_type :: u32
  sh_flags :: u32
  sh_offset :: u32
  sh_size :: u32
  sh_link :: u32
  sh_info :: u32
  sh_entsize :: u32

definition read_shdr :: "memory \<Rightarrow> u32 \<Rightarrow> Elf32_Shdr" where
  "read_shdr mem a = \<lparr>sh_type = read32 mem (a + 4), sh_flags = read32 mem (a + 8), sh_offset = read32 mem (a + 16),
     sh_size = read32 mem (a + 20), sh_link = read32 mem (a + 24), sh_info = read32 mem (a + 28),
     sh_entsize = read32 mem (a + 36)\<rparr>"

record Elf32_Sym =
  st_name :: u32
  st_value :: u32
  st_info :: u8
  st_shndx :: u16

definition read_sym :: "memory \<Rightarrow> u32 \<Rightarrow> Elf32_Sym" where
  "read_sym mem a = \<lparr>st_name = read32 mem a, st_value = read32 mem (a + 4), st_info = mem (a + 12),
     st_shndx = read16 mem (a + 14)\<rparr>"

record Elf32_Rel =
  r_offset :: u32
  r_info :: u32

definition read_rel :: "memory \<Rightarrow> u32 \<Rightarrow> Elf32_Rel" where
  "read_rel mem a = \<lparr>r_offset = read32 mem a, r_info = read32 mem (a + 4)\<rparr>"

definition ET_REL :: u16 where "ET_REL = 1"

definition ET_EXEC :: u16 where "ET_EXEC = 2"

definition EM_386 :: u16 where "EM_386 = 3"

definition SHN_UNDEF :: u32 where "SHN_UNDEF = 0"

definition SHN_ABS :: u16 where "SHN_ABS = 0xFFF1"

definition SHT_NOBITS :: u32 where "SHT_NOBITS = 8"

definition SHT_REL :: u32 where "SHT_REL = 9"

definition SHF_ALLOC :: u32 where "SHF_ALLOC = 2"

definition STB_WEAK :: u8 where "STB_WEAK = 2"

definition ELF32_ST_BIND :: "u8 \<Rightarrow> u8" where "ELF32_ST_BIND x = drop_bit 4 x"

definition ELF32_R_SYM :: "u32 \<Rightarrow> u32" where "ELF32_R_SYM x = drop_bit 8 x"

definition ELF32_R_TYPE :: "u32 \<Rightarrow> u8" where "ELF32_R_TYPE x = ucast x"

definition DO_386_32 :: "u32 \<Rightarrow> u32 \<Rightarrow> u32" where "DO_386_32 s a = s + a"

definition DO_386_PC32 :: "u32 \<Rightarrow> u32 \<Rightarrow> u32 \<Rightarrow> u32" where "DO_386_PC32 s a p = s + a - p"

text \<open>The address of a section header: \<^verbatim>\<open>section(x,i)\<close>.\<close>

definition elf_section :: "memory \<Rightarrow> u32 \<Rightarrow> u32 \<Rightarrow> u32" where
  "elf_section mem ehdr i = ehdr + e_shoff (read_ehdr mem ehdr) + 40 * i"

section \<open>Operations\<close>

definition check_supported :: "memory \<Rightarrow> u32 \<Rightarrow> bool" where
  "check_supported mem ehdr =
    (let h = read_ehdr mem ehdr in
     if e_ident h ! 0 \<noteq> 0x7F then False
     else if e_ident h ! 1 \<noteq> 0x45 then False
     else if e_ident h ! 2 \<noteq> 0x4C then False
     else if e_ident h ! 3 \<noteq> 0x46 then False
     else if e_ident h ! 4 \<noteq> 1 then False
     else if e_ident h ! 5 \<noteq> 1 then False
     else if e_machine h \<noteq> EM_386 then False
     else if e_ident h ! 6 \<noteq> 1 then False
     else if e_type h \<noteq> ET_REL \<and> e_type h \<noteq> ET_EXEC then False
     else True)"

definition get_symval :: "(memory \<Rightarrow> u32 \<Rightarrow> u32) \<Rightarrow> memory \<Rightarrow> u32 \<Rightarrow> u32 \<Rightarrow> u32 \<Rightarrow> u32 option" where
  "get_symval lookup_symbol mem ehdr table i =
    (if table = SHN_UNDEF \<or> i = SHN_UNDEF then Some 0
     else
       let symtab = read_shdr mem (elf_section mem ehdr table) in
       if sh_entsize symtab = 0 then None
       else if sh_size symtab div sh_entsize symtab \<le> i then Some 0
       else
         let symbol = read_sym mem (ehdr + sh_offset symtab + 16 * i) in
         if ucast (st_shndx symbol) = SHN_UNDEF then
           let strtab = read_shdr mem (elf_section mem ehdr (sh_link symtab));
               name = ehdr + sh_offset strtab + st_name symbol;
               target = lookup_symbol mem name
           in if target = 0 then
                if ELF32_ST_BIND (st_info symbol) AND STB_WEAK \<noteq> 0 then Some 0 else Some 0
              else Some target
         else if st_shndx symbol = SHN_ABS then Some (st_value symbol)
         else
           let target = read_shdr mem (elf_section mem ehdr (ucast (st_shndx symbol)))
           in Some (ehdr + st_value symbol + sh_offset target))"

text \<open>The result and the memory after the relocation.\<close>

definition do_reloc ::
  "(memory \<Rightarrow> u32 \<Rightarrow> u32) \<Rightarrow> memory \<Rightarrow> u32 \<Rightarrow> u32 \<Rightarrow> u32 \<Rightarrow> (u32 \<times> memory) option" where
  "do_reloc lookup_symbol mem ehdr rel reltab =
    (let target = read_shdr mem (elf_section mem ehdr (sh_info (read_shdr mem reltab)));
         r = read_rel mem rel;
         ref = ehdr + sh_offset target + r_offset r
     in do {
       symval \<leftarrow>
         (if ELF32_R_SYM (r_info r) \<noteq> SHN_UNDEF
          then get_symval lookup_symbol mem ehdr (sh_link (read_shdr mem reltab)) (ELF32_R_SYM (r_info r))
          else Some 0);
       if ELF32_R_SYM (r_info r) \<noteq> SHN_UNDEF \<and> symval = 0 then Some (0, mem)
       else if ELF32_R_TYPE (r_info r) = 0 then Some (symval, mem)
       else if ELF32_R_TYPE (r_info r) = 1 then Some (symval, write32 ref (DO_386_32 symval (read32 mem ref)) mem)
       else if ELF32_R_TYPE (r_info r) = 2 then Some (symval, write32 ref (DO_386_PC32 symval (read32 mem ref) ref) mem)
       else Some (0, mem) })"

lemma unat_Suc_less: "(i :: 'a :: len word) < n \<Longrightarrow> unat (i + 1) = unat i + 1"
proof -
  assume "i < n"
  then have "unat i + 1 < 2 ^ LENGTH('a)"
    using unsigned_less [of n, where ?'a = nat] unfolding word_less_nat_alt by linarith
  then show ?thesis by (simp add: unat_word_ariths)
qed

lemma room_left: "(i :: 'a :: len word) < n \<Longrightarrow> 2 ^ LENGTH('a) - unat (i + 1) < 2 ^ LENGTH('a) - unat i"
  using unsigned_less [of i, where ?'a = nat] unat_Suc_less [of i n] by linarith

text \<open>
  The loop over the entries of a relocation section; \<open>False\<close> is the early return of the loader. The bound
  is read again in every iteration.
\<close>

function reloc_section ::
  "(memory \<Rightarrow> u32 \<Rightarrow> u32) \<Rightarrow> u32 \<Rightarrow> u32 \<Rightarrow> u32 \<Rightarrow> memory \<Rightarrow> (bool \<times> memory) option" where
  "reloc_section lookup_symbol ehdr sec idx mem =
    (let s = read_shdr mem sec in
     if sh_entsize s = 0 then None
     else if idx < sh_size s div sh_entsize s then
       (case do_reloc lookup_symbol mem ehdr (ehdr + sh_offset s + 8 * idx) sec of
          None \<Rightarrow> None
        | Some (ok, mem) \<Rightarrow>
            if ok = 0 then Some (False, mem) else reloc_section lookup_symbol ehdr sec (idx + 1) mem)
     else Some (True, mem))"
  by pat_completeness auto
termination
  by (relation "measure (\<lambda>(_, _, _, idx, _). 2 ^ 32 - unat idx)") (auto dest: room_left)

declare reloc_section.simps [simp del]

type_synonym elf_state = "memory \<times> heap \<times> mm"

text \<open>A section without contents in the file gets memory from the heap (\<^verbatim>\<open>malloc\<close> is \<^verbatim>\<open>kmalloc\<close>).\<close>

definition alloc_section :: "u32 \<Rightarrow> u32 \<Rightarrow> elf_state \<Rightarrow> elf_state option" where
  "alloc_section ehdr sec st = (case st of (mem, hm) \<Rightarrow>
    (let s = read_shdr mem sec in
     if sh_size s = 0 then Some (mem, hm)
     else if sh_flags s AND SHF_ALLOC \<noteq> 0 then do {
       (p, hm) \<leftarrow> kmalloc (sh_size s) hm;
       let mem = snd (memset p 0 (sh_size s) mem) in
       Some (write32 (sec + 16) (p - ehdr) mem, hm) }
     else Some (mem, hm)))"

function load_sections :: "(memory \<Rightarrow> u32 \<Rightarrow> u32) \<Rightarrow> u32 \<Rightarrow> u32 \<Rightarrow> u16 \<Rightarrow> elf_state \<Rightarrow> (bool \<times> elf_state) option" where
  "load_sections lookup_symbol ehdr shdr i (mem, hm) =
    (if i < e_shnum (read_ehdr mem ehdr) then
       let sec = shdr + 40 * ucast i; typ = sh_type (read_shdr mem sec) in
       if typ = SHT_REL then
         (case reloc_section lookup_symbol ehdr sec 0 mem of
            None \<Rightarrow> None
          | Some (ok, mem) \<Rightarrow>
              if ok then load_sections lookup_symbol ehdr shdr (i + 1) (mem, hm) else Some (False, mem, hm))
       else if typ = SHT_NOBITS then
         (case alloc_section ehdr sec (mem, hm) of
            None \<Rightarrow> None
          | Some st \<Rightarrow> load_sections lookup_symbol ehdr shdr (i + 1) st)
       else load_sections lookup_symbol ehdr shdr (i + 1) (mem, hm)
     else Some (True, mem, hm))"
  by pat_completeness auto
termination
  by (relation "measure (\<lambda>(_, _, _, i, _). 2 ^ 16 - unat i)") (auto dest: room_left)

declare load_sections.simps [simp del]

definition load_rel :: "(memory \<Rightarrow> u32 \<Rightarrow> u32) \<Rightarrow> u32 \<Rightarrow> elf_state \<Rightarrow> (u32 \<times> elf_state) option" where
  "load_rel lookup_symbol ehdr st = do {
     (ok, mem, hm) \<leftarrow> load_sections lookup_symbol ehdr (ehdr + e_shoff (read_ehdr (fst st) ehdr)) 0 st;
     Some (if ok then e_entry (read_ehdr mem ehdr) else 0, mem, hm) }"

definition elf_load_file :: "(memory \<Rightarrow> u32 \<Rightarrow> u32) \<Rightarrow> u32 \<Rightarrow> elf_state \<Rightarrow> (u32 \<times> elf_state) option" where
  "elf_load_file lookup_symbol file st =
    (if file = 0 then Some (0, st)
     else if \<not> check_supported (fst st) file then Some (0, st)
     else if e_type (read_ehdr (fst st) file) = ET_REL then load_rel lookup_symbol file st
     else Some (0, st))"

end
