(* ===== verification/Elf_Correct.thy ===== *)
theory Elf_Correct
  imports Elf
begin

text \<open>
  Correctness of the ELF loader: a file whose relocations do not touch its own headers is relocated
  as the ABI says, every entry once, and files that are not supported are refused without a change.
\<close>

section \<open>Reading and writing words\<close>

definition covers :: "u32 set \<Rightarrow> u32 \<Rightarrow> nat \<Rightarrow> bool" where
  "covers D a n \<longleftrightarrow> (\<forall>i < n. a + of_nat i \<in> D)"

definition agree_on :: "u32 set \<Rightarrow> memory \<Rightarrow> memory \<Rightarrow> bool" where
  "agree_on D mem mem' \<longleftrightarrow> (\<forall>a \<in> D. mem' a = mem a)"

lemma agree_refl [simp]: "agree_on D mem mem"
  by (simp add: agree_on_def)

lemma agree_at: "\<lbrakk>agree_on D mem mem'; covers D a n; i < n\<rbrakk> \<Longrightarrow> mem' (a + of_nat i) = mem (a + of_nat i)"
  by (simp add: agree_on_def covers_def)

lemma agree_read8: "\<lbrakk>agree_on D mem mem'; covers D a n; k < n\<rbrakk> \<Longrightarrow> mem' (a + of_nat k) = mem (a + of_nat k)"
  by (rule agree_at)

lemma agree_read16:
  assumes "agree_on D mem mem'" and "covers D a n" and "k + 1 < n"
  shows "read16 mem' (a + of_nat k) = read16 mem (a + of_nat k)"
  using agree_at [OF assms(1,2), of k] agree_at [OF assms(1,2), of "k + 1"] assms(3)
  by (simp add: read16_def add.assoc add.commute [of 1])

lemma agree_read32:
  assumes "agree_on D mem mem'" and "covers D a n" and "k + 3 < n"
  shows "read32 mem' (a + of_nat k) = read32 mem (a + of_nat k)"
proof -
  have "mem' (a + of_nat k + of_nat j) = mem (a + of_nat k + of_nat j)" if "j < 4" for j
    using agree_at [OF assms(1,2), of "k + j"] assms(3) that by (simp add: add.assoc)
  from this [of 0] this [of 1] this [of 2] this [of 3] show ?thesis by (simp add: read32_def)
qed

lemma read_shdr_agree: "\<lbrakk>agree_on D mem mem'; covers D a 40\<rbrakk> \<Longrightarrow> read_shdr mem' a = read_shdr mem a"
  using agree_read32 [of D mem mem' a 40 4] agree_read32 [of D mem mem' a 40 8] agree_read32 [of D mem mem' a 40 16]
    agree_read32 [of D mem mem' a 40 20] agree_read32 [of D mem mem' a 40 24] agree_read32 [of D mem mem' a 40 28]
    agree_read32 [of D mem mem' a 40 36]
  by (simp add: read_shdr_def)

lemma read_sym_agree: "\<lbrakk>agree_on D mem mem'; covers D a 16\<rbrakk> \<Longrightarrow> read_sym mem' a = read_sym mem a"
  using agree_read32 [of D mem mem' a 16 0] agree_read32 [of D mem mem' a 16 4] agree_at [of D mem mem' a 16 12]
    agree_read16 [of D mem mem' a 16 14]
  by (simp add: read_sym_def)

lemma read_rel_agree: "\<lbrakk>agree_on D mem mem'; covers D a 8\<rbrakk> \<Longrightarrow> read_rel mem' a = read_rel mem a"
  using agree_read32 [of D mem mem' a 8 0] agree_read32 [of D mem mem' a 8 4] by (simp add: read_rel_def)

lemma read_ehdr_agree: "\<lbrakk>agree_on D mem mem'; covers D a 52\<rbrakk> \<Longrightarrow> read_ehdr mem' a = read_ehdr mem a"
  using agree_read32 [of D mem mem' a 52 24] agree_read32 [of D mem mem' a 52 32] agree_read16 [of D mem mem' a 52 16]
    agree_read16 [of D mem mem' a 52 18] agree_read16 [of D mem mem' a 52 48] agree_at [of D mem mem' a 52]
  by (simp add: read_ehdr_def del: upt_rec_numeral)

lemma join_bytes32:
  "ucast (ucast v :: u8) OR push_bit 8 (ucast (ucast (drop_bit 8 v) :: u8)) OR push_bit 16 (ucast (ucast (drop_bit 16 v) :: u8)) OR
    push_bit 24 (ucast (ucast (drop_bit 24 v) :: u8)) = (v :: u32)"
proof (rule bit_word_eqI)
  fix n
  assume n: "n < LENGTH(32)"
  consider "n < 8" | "8 \<le> n" "n < 16" | "16 \<le> n" "n < 24" | "24 \<le> n" by linarith
  then show "bit (ucast (ucast v :: u8) OR push_bit 8 (ucast (ucast (drop_bit 8 v) :: u8)) OR
      push_bit 16 (ucast (ucast (drop_bit 16 v) :: u8)) OR push_bit 24 (ucast (ucast (drop_bit 24 v) :: u8)) :: u32) n = bit v n"
    by cases (use n in \<open>auto simp: bit_simps\<close>)
qed

lemma read32_write32 [simp]: "read32 (write32 a v mem) a = v"
proof -
  have "read32 (write32 a v mem) a = ucast (ucast v :: u8) OR push_bit 8 (ucast (ucast (drop_bit 8 v) :: u8)) OR
      push_bit 16 (ucast (ucast (drop_bit 16 v) :: u8)) OR push_bit 24 (ucast (ucast (drop_bit 24 v) :: u8))"
    by (simp add: read32_def write32_def)
  then show ?thesis by (simp only: join_bytes32)
qed

lemma write32_other: "\<not> (\<exists>i < 4. b = a + of_nat i) \<Longrightarrow> write32 a v mem b = mem b"
proof -
  assume "\<not> (\<exists>i < 4. b = a + of_nat i)"
  then have n: "b \<noteq> a + of_nat i" if "i < 4" for i using that by blast
  from n [of 0] n [of 1] n [of 2] n [of 3] show ?thesis by (simp add: write32_def)
qed

lemma agree_write: "\<lbrakk>agree_on D mem mem'; \<forall>i < 4. a + of_nat i \<notin> D\<rbrakk> \<Longrightarrow> agree_on D mem (write32 a v mem')"
  unfolding agree_on_def by (metis write32_other)

section \<open>What relocation means\<close>

text \<open>
  A relocation entry is known by its own address and that of its section header. Its word, its symbol
  and its type are computed from the file as it was before loading.
\<close>

type_synonym reloc = "u32 \<times> u32"

definition reloc_ref :: "memory \<Rightarrow> u32 \<Rightarrow> reloc \<Rightarrow> u32" where
  "reloc_ref mem ehdr r =
     ehdr + sh_offset (read_shdr mem (elf_section mem ehdr (sh_info (read_shdr mem (snd r))))) + r_offset (read_rel mem (fst r))"

definition reloc_type :: "memory \<Rightarrow> reloc \<Rightarrow> u8" where
  "reloc_type mem r = ELF32_R_TYPE (r_info (read_rel mem (fst r)))"

definition reloc_symbol :: "memory \<Rightarrow> reloc \<Rightarrow> u32" where
  "reloc_symbol mem r = ELF32_R_SYM (r_info (read_rel mem (fst r)))"

definition reloc_value :: "(memory \<Rightarrow> u32 \<Rightarrow> u32) \<Rightarrow> memory \<Rightarrow> u32 \<Rightarrow> reloc \<Rightarrow> u32 option" where
  "reloc_value lookup mem ehdr r = get_symval lookup mem ehdr (sh_link (read_shdr mem (snd r))) (reloc_symbol mem r)"

text \<open>The relocated word: S + A for type 1, S + A - P for type 2, with the symbol S, the word A and its place P.\<close>

definition relocated :: "(memory \<Rightarrow> u32 \<Rightarrow> u32) \<Rightarrow> memory \<Rightarrow> u32 \<Rightarrow> reloc \<Rightarrow> u32 \<Rightarrow> u32" where
  "relocated lookup mem ehdr r a =
    (let s = the (reloc_value lookup mem ehdr r) in
     if reloc_type mem r = 1 then s + a else if reloc_type mem r = 2 then s + a - reloc_ref mem ehdr r else a)"

definition apply_reloc :: "(memory \<Rightarrow> u32 \<Rightarrow> u32) \<Rightarrow> memory \<Rightarrow> u32 \<Rightarrow> reloc \<Rightarrow> memory \<Rightarrow> memory" where
  "apply_reloc lookup mem ehdr r mem' =
    (if reloc_type mem r = 0 then mem'
     else write32 (reloc_ref mem ehdr r) (relocated lookup mem ehdr r (read32 mem' (reloc_ref mem ehdr r))) mem')"

text \<open>The headers that are read for an entry lie in a set of addresses.\<close>

definition reloc_headers :: "u32 set \<Rightarrow> memory \<Rightarrow> u32 \<Rightarrow> reloc \<Rightarrow> bool" where
  "reloc_headers D mem ehdr r \<longleftrightarrow>
    (let sec = read_shdr mem (snd r);
         symtab = read_shdr mem (elf_section mem ehdr (sh_link sec));
         sym = ehdr + sh_offset symtab + 16 * reloc_symbol mem r in
     covers D (fst r) 8 \<and> covers D (snd r) 40 \<and> covers D (elf_section mem ehdr (sh_info sec)) 40 \<and>
     covers D (elf_section mem ehdr (sh_link sec)) 40 \<and> covers D sym 16 \<and>
     covers D (elf_section mem ehdr (sh_link symtab)) 40 \<and>
     (st_shndx (read_sym mem sym) \<noteq> SHN_ABS \<longrightarrow> covers D (elf_section mem ehdr (ucast (st_shndx (read_sym mem sym)))) 40))"

definition reloc_good :: "(memory \<Rightarrow> u32 \<Rightarrow> u32) \<Rightarrow> u32 set \<Rightarrow> memory \<Rightarrow> u32 \<Rightarrow> reloc \<Rightarrow> bool" where
  "reloc_good lookup D mem ehdr r \<longleftrightarrow> reloc_headers D mem ehdr r \<and> reloc_symbol mem r \<noteq> 0 \<and>
     (case reloc_value lookup mem ehdr r of None \<Rightarrow> False | Some s \<Rightarrow> s \<noteq> 0) \<and> reloc_type mem r \<le> 2 \<and>
     (\<forall>i < 4. reloc_ref mem ehdr r + of_nat i \<notin> D)"

text \<open>The loader's view of the file is fixed: the ELF header is protected and the names of symbols are, too.\<close>

definition stable :: "(memory \<Rightarrow> u32 \<Rightarrow> u32) \<Rightarrow> u32 set \<Rightarrow> memory \<Rightarrow> u32 \<Rightarrow> bool" where
  "stable lookup D mem ehdr \<longleftrightarrow> covers D ehdr 52 \<and> (\<forall>mem' n. agree_on D mem mem' \<longrightarrow> lookup mem' n = lookup mem n)"

lemma elf_section_agree: "\<lbrakk>agree_on D mem mem'; covers D ehdr 52\<rbrakk> \<Longrightarrow> elf_section mem' ehdr i = elf_section mem ehdr i"
  by (simp add: elf_section_def read_ehdr_agree)

lemma do_reloc_good:
  assumes "agree_on D mem mem'" and "stable lookup D mem ehdr" and "reloc_good lookup D mem ehdr r"
  shows "\<exists>s. s \<noteq> 0 \<and> do_reloc lookup mem' ehdr (fst r) (snd r) = Some (s, apply_reloc lookup mem ehdr r mem') \<and>
    agree_on D mem (apply_reloc lookup mem ehdr r mem')"
proof -
  define sec where "sec = read_shdr mem (snd r)"
  have c: "covers D ehdr 52" using assms(2) by (simp add: stable_def)
  have h: "covers D (fst r) 8" "covers D (snd r) 40" "covers D (elf_section mem ehdr (sh_info sec)) 40"
    "covers D (elf_section mem ehdr (sh_link sec)) 40"
    "covers D (ehdr + sh_offset (read_shdr mem (elf_section mem ehdr (sh_link sec))) + 16 * reloc_symbol mem r) 16"
    "covers D (elf_section mem ehdr (sh_link (read_shdr mem (elf_section mem ehdr (sh_link sec))))) 40"
    "st_shndx (read_sym mem (ehdr + sh_offset (read_shdr mem (elf_section mem ehdr (sh_link sec))) + 16 * reloc_symbol mem r)) \<noteq> SHN_ABS \<longrightarrow>
      covers D (elf_section mem ehdr (ucast (st_shndx (read_sym mem
        (ehdr + sh_offset (read_shdr mem (elf_section mem ehdr (sh_link sec))) + 16 * reloc_symbol mem r))))) 40"
    using assms(3) by (simp_all add: reloc_good_def reloc_headers_def Let_def sec_def)
  have rel: "read_rel mem' (fst r) = read_rel mem (fst r)" by (rule read_rel_agree [OF assms(1) h(1)])
  have shdr: "read_shdr mem' a = read_shdr mem a" if "covers D a 40" for a by (rule read_shdr_agree [OF assms(1) that])
  have sect: "elf_section mem' ehdr i = elf_section mem ehdr i" for i by (rule elf_section_agree [OF assms(1) c])
  have look: "lookup mem' n = lookup mem n" for n using assms(1,2) unfolding stable_def by blast
  obtain s where s: "reloc_value lookup mem ehdr r = Some s" "s \<noteq> 0"
    using assms(3) by (auto simp: reloc_good_def split: option.splits)
  have "get_symval lookup mem' ehdr (sh_link sec) (reloc_symbol mem r) = reloc_value lookup mem ehdr r"
    using shdr h(7)
    unfolding get_symval_def reloc_value_def sect Let_def look shdr [OF h(4)] read_sym_agree [OF assms(1) h(5)] shdr [OF h(6)]
      sec_def [symmetric] by auto
  then have v: "get_symval lookup mem' ehdr (sh_link sec) (reloc_symbol mem r) = Some s" using s by simp
  have t: "reloc_type mem r = 0 \<or> reloc_type mem r = 1 \<or> reloc_type mem r = 2"
    using assms(3) by (auto simp: reloc_good_def word_le_nat_alt word_unat_eq_iff)
  have sym: "reloc_symbol mem r \<noteq> 0" using assms(3) by (simp add: reloc_good_def)
  have d: "do_reloc lookup mem' ehdr (fst r) (snd r) = Some (s, apply_reloc lookup mem ehdr r mem')"
    using t s sym v
    unfolding do_reloc_def Let_def shdr [OF h(2)] sec_def [symmetric] sect shdr [OF h(3)] rel
      reloc_symbol_def [symmetric] reloc_type_def [symmetric] SHN_UNDEF_def
    by (auto simp: apply_reloc_def relocated_def DO_386_32_def DO_386_PC32_def reloc_ref_def sec_def Let_def)
  have "agree_on D mem (apply_reloc lookup mem ehdr r mem')"
    unfolding apply_reloc_def using assms(1,3) agree_write [OF assms(1)] by (simp add: reloc_good_def)
  then show ?thesis using d s(2) by blast
qed

section \<open>Loading a file\<close>

definition section_relocs :: "memory \<Rightarrow> u32 \<Rightarrow> u32 \<Rightarrow> reloc list" where
  "section_relocs mem ehdr sec =
    (let s = read_shdr mem sec in
     map (\<lambda>i. (ehdr + sh_offset s + 8 * of_nat i, sec)) [0 ..< unat (sh_size s div sh_entsize s)])"

definition is_rel :: "memory \<Rightarrow> u32 \<Rightarrow> nat \<Rightarrow> bool" where
  "is_rel mem ehdr i \<longleftrightarrow> sh_type (read_shdr mem (elf_section mem ehdr (of_nat i))) = SHT_REL"

definition relocs_of :: "memory \<Rightarrow> u32 \<Rightarrow> nat \<Rightarrow> reloc list" where
  "relocs_of mem ehdr i = (if is_rel mem ehdr i then section_relocs mem ehdr (elf_section mem ehdr (of_nat i)) else [])"

text \<open>All relocation entries of the file, in the order of the sections.\<close>

definition all_relocs :: "memory \<Rightarrow> u32 \<Rightarrow> reloc list" where
  "all_relocs mem ehdr = concat (map (relocs_of mem ehdr) [0 ..< unat (e_shnum (read_ehdr mem ehdr))])"

definition section_good :: "u32 set \<Rightarrow> memory \<Rightarrow> u32 \<Rightarrow> nat \<Rightarrow> bool" where
  "section_good D mem ehdr i \<longleftrightarrow>
    (let a = elf_section mem ehdr (of_nat i); s = read_shdr mem a in
     covers D a 40 \<and> (sh_type s = SHT_REL \<longrightarrow> sh_entsize s \<noteq> 0) \<and>
     (sh_type s = SHT_NOBITS \<longrightarrow> sh_size s = 0 \<or> sh_flags s AND SHF_ALLOC = 0))"

lemma reloc_section_good:
  assumes "stable lookup D mem ehdr" and "covers D sec 40" and "sh_entsize (read_shdr mem sec) \<noteq> 0"
    and "\<forall>r \<in> set (section_relocs mem ehdr sec). reloc_good lookup D mem ehdr r"
  shows "\<lbrakk>agree_on D mem mem'; k \<le> length (section_relocs mem ehdr sec)\<rbrakk> \<Longrightarrow>
    \<exists>mem''. reloc_section lookup ehdr sec (of_nat k) mem' = Some (True, mem'') \<and> agree_on D mem mem'' \<and>
      mem'' = fold (apply_reloc lookup mem ehdr) (drop k (section_relocs mem ehdr sec)) mem'"
proof (induction "length (section_relocs mem ehdr sec) - k" arbitrary: k mem')
  case (0 k mem')
  define s where "s = read_shdr mem sec"
  have s: "read_shdr mem' sec = s" using read_shdr_agree [OF 0(2) assms(2)] by (simp add: s_def)
  have n: "k = unat (sh_size s div sh_entsize s)" using 0 by (simp add: section_relocs_def Let_def s_def)
  then have "\<not> of_nat k < sh_size s div sh_entsize s" by simp
  then have "reloc_section lookup ehdr sec (of_nat k) mem' = Some (True, mem')"
    using assms(3) by (subst reloc_section.simps) (simp add: s Let_def s_def [symmetric])
  then show ?case using 0 by simp
next
  case (Suc m k mem')
  define s where "s = read_shdr mem sec"
  define rs where "rs = section_relocs mem ehdr sec"
  have s: "read_shdr mem' sec = s" using read_shdr_agree [OF Suc(3) assms(2)] by (simp add: s_def)
  have k: "k < length rs" using Suc(2) by (simp add: rs_def)
  have len: "length rs = unat (sh_size s div sh_entsize s)" by (simp add: rs_def section_relocs_def Let_def s_def)
  have "k < 4294967296" using k len unat_less_u32 [of "sh_size s div sh_entsize s"] by linarith
  then have less: "of_nat k < sh_size s div sh_entsize s" using k len by (simp add: word_less_nat_alt unat_of_nat_u32)
  have r: "rs ! k = (ehdr + sh_offset s + 8 * of_nat k, sec)"
    using k by (simp add: rs_def section_relocs_def Let_def s_def)
  have "reloc_good lookup D mem ehdr (rs ! k)" using assms(4) k by (simp add: rs_def)
  from do_reloc_good [OF Suc(3) assms(1) this]
  obtain v where v: "v \<noteq> 0" "do_reloc lookup mem' ehdr (ehdr + sh_offset s + 8 * of_nat k) sec = Some (v, apply_reloc lookup mem ehdr (rs ! k) mem')"
    and a: "agree_on D mem (apply_reloc lookup mem ehdr (rs ! k) mem')" by (auto simp: r)
  have step: "reloc_section lookup ehdr sec (of_nat k) mem' = reloc_section lookup ehdr sec (of_nat (Suc k)) (apply_reloc lookup mem ehdr (rs ! k) mem')"
    using assms(3) less v by (subst reloc_section.simps) (simp add: s Let_def s_def [symmetric] add.commute)
  have d: "drop k rs = rs ! k # drop (Suc k) rs" using k by (rule Cons_nth_drop_Suc [symmetric])
  show ?case
    unfolding step rs_def [symmetric] d using Suc(1) [of "Suc k", OF _ a] Suc(2) k by (simp add: rs_def [symmetric])
qed

lemma load_sections_good:
  assumes "stable lookup D mem ehdr" and "\<forall>i < unat (e_shnum (read_ehdr mem ehdr)). section_good D mem ehdr i"
    and "\<forall>r \<in> set (all_relocs mem ehdr). reloc_good lookup D mem ehdr r"
  defines "n \<equiv> unat (e_shnum (read_ehdr mem ehdr))"
  shows "\<lbrakk>agree_on D mem mem'; i \<le> n\<rbrakk> \<Longrightarrow>
    \<exists>mem''. load_sections lookup ehdr (ehdr + e_shoff (read_ehdr mem ehdr)) (of_nat i) (mem', hm) = Some (True, mem'', hm) \<and>
      agree_on D mem mem'' \<and> mem'' = fold (apply_reloc lookup mem ehdr) (concat (map (relocs_of mem ehdr) [i ..< n])) mem'"
proof (induction "n - i" arbitrary: i mem')
  case (0 i mem')
  have c: "covers D ehdr 52" using assms(1) by (simp add: stable_def)
  have "i = n" using 0 by simp
  then have "load_sections lookup ehdr (ehdr + e_shoff (read_ehdr mem ehdr)) (of_nat i) (mem', hm) = Some (True, mem', hm)"
    using read_ehdr_agree [OF 0(2) c] by (subst load_sections.simps) (simp add: n_def)
  then show ?case using 0 by simp
next
  case (Suc m i mem')
  have c: "covers D ehdr 52" using assms(1) by (simp add: stable_def)
  have i: "i < n" using Suc(2) by simp
  have n: "n < 65536" unfolding n_def using unsigned_less [of "e_shnum (read_ehdr mem ehdr)", where ?'a = nat] by simp
  have less: "of_nat i < e_shnum (read_ehdr mem' ehdr)"
    using i n read_ehdr_agree [OF Suc(3) c] by (simp add: n_def word_less_nat_alt unat_of_nat take_bit_nat_eq_self)
  define sec where "sec = elf_section mem ehdr (of_nat i)"
  have sec: "ehdr + e_shoff (read_ehdr mem ehdr) + 40 * ucast (of_nat i :: u16) = sec"
    using i n by (simp add: sec_def elf_section_def unsigned_of_nat take_bit_nat_eq_self)
  have good: "covers D sec 40" "sh_type (read_shdr mem sec) = SHT_REL \<longrightarrow> sh_entsize (read_shdr mem sec) \<noteq> 0"
    "sh_type (read_shdr mem sec) = SHT_NOBITS \<longrightarrow> sh_size (read_shdr mem sec) = 0 \<or> sh_flags (read_shdr mem sec) AND SHF_ALLOC = 0"
    using assms(2) i by (simp_all add: section_good_def Let_def sec_def n_def)
  have sh: "read_shdr mem' sec = read_shdr mem sec" by (rule read_shdr_agree [OF Suc(3) good(1)])
  have split: "concat (map (relocs_of mem ehdr) [i ..< n]) = relocs_of mem ehdr i @ concat (map (relocs_of mem ehdr) [Suc i ..< n])"
    using i by (simp add: upt_conv_Cons)
  note IH = Suc(1) [of "Suc i"]
  show ?case
  proof (cases "is_rel mem ehdr i")
    case True
    then have t: "sh_type (read_shdr mem sec) = SHT_REL" by (simp add: is_rel_def sec_def)
    have "\<forall>r \<in> set (section_relocs mem ehdr sec). reloc_good lookup D mem ehdr r"
      using assms(3) i True by (auto simp: all_relocs_def relocs_of_def sec_def n_def)
    from reloc_section_good [OF assms(1) good(1) _ this Suc(3), of 0] t good(2)
    obtain mem1 where m: "reloc_section lookup ehdr sec 0 mem' = Some (True, mem1)" "agree_on D mem mem1"
      "mem1 = fold (apply_reloc lookup mem ehdr) (relocs_of mem ehdr i) mem'"
      using True by (auto simp: relocs_of_def sec_def)
    have "load_sections lookup ehdr (ehdr + e_shoff (read_ehdr mem ehdr)) (of_nat i) (mem', hm) =
        load_sections lookup ehdr (ehdr + e_shoff (read_ehdr mem ehdr)) (of_nat (Suc i)) (mem1, hm)"
      by (subst load_sections.simps) (simp add: less sec sh t m(1) Let_def add.commute)
    then show ?thesis using IH [OF _ m(2)] Suc(2) i unfolding split by (simp add: m(3))
  next
    case False
    then have t: "sh_type (read_shdr mem sec) \<noteq> SHT_REL" by (simp add: is_rel_def sec_def)
    have "load_sections lookup ehdr (ehdr + e_shoff (read_ehdr mem ehdr)) (of_nat i) (mem', hm) =
        load_sections lookup ehdr (ehdr + e_shoff (read_ehdr mem ehdr)) (of_nat (Suc i)) (mem', hm)"
      using good(3) t
      by (subst load_sections.simps) (auto simp: less sec sh alloc_section_def Let_def add.commute)
    then show ?thesis using IH [OF _ Suc(3)] Suc(2) i False unfolding split by (simp add: relocs_of_def)
  qed
qed

text \<open>Words that do not overlap are relocated independently.\<close>

definition words_apart :: "u32 \<Rightarrow> u32 \<Rightarrow> bool" where
  "words_apart a b \<longleftrightarrow> (\<forall>i < 4. \<forall>j < 4. a + of_nat i \<noteq> b + of_nat j)"

lemma read32_cong: "(\<And>i. i < 4 \<Longrightarrow> mem (a + of_nat i) = mem' (a + of_nat i)) \<Longrightarrow> read32 mem a = read32 mem' a"
proof -
  assume m: "\<And>i. i < 4 \<Longrightarrow> mem (a + of_nat i) = mem' (a + of_nat i)"
  from m [of 0] m [of 1] m [of 2] m [of 3] show ?thesis by (simp add: read32_def)
qed

definition ref_bytes :: "memory \<Rightarrow> u32 \<Rightarrow> reloc \<Rightarrow> u32 \<Rightarrow> bool" where
  "ref_bytes mem ehdr r a \<longleftrightarrow> (\<exists>i < 4. a = reloc_ref mem ehdr r + of_nat i)"

lemma apply_reloc_other: "\<not> ref_bytes mem ehdr r a \<Longrightarrow> apply_reloc lookup mem ehdr r mem' a = mem' a"
  unfolding ref_bytes_def apply_reloc_def using write32_other by simp

lemma apply_reloc_here:
  "read32 (apply_reloc lookup mem ehdr r mem') (reloc_ref mem ehdr r) = relocated lookup mem ehdr r (read32 mem' (reloc_ref mem ehdr r))"
  by (simp add: apply_reloc_def relocated_def Let_def)

lemma apart_bytes: "\<lbrakk>words_apart (reloc_ref mem ehdr s) (reloc_ref mem ehdr r); i < 4\<rbrakk> \<Longrightarrow> \<not> ref_bytes mem ehdr r (reloc_ref mem ehdr s + of_nat i)"
  unfolding ref_bytes_def words_apart_def by blast

lemma fold_apply_reloc:
  "\<lbrakk>distinct rs; \<forall>r \<in> set rs. \<forall>s \<in> set rs. r \<noteq> s \<longrightarrow> words_apart (reloc_ref mem ehdr r) (reloc_ref mem ehdr s)\<rbrakk> \<Longrightarrow>
   (\<forall>r \<in> set rs. read32 (fold (apply_reloc lookup mem ehdr) rs mem') (reloc_ref mem ehdr r) =
      relocated lookup mem ehdr r (read32 mem' (reloc_ref mem ehdr r))) \<and>
   (\<forall>a. (\<forall>r \<in> set rs. \<not> ref_bytes mem ehdr r a) \<longrightarrow> fold (apply_reloc lookup mem ehdr) rs mem' a = mem' a)"
proof (induction rs arbitrary: mem')
  case (Cons r rs)
  define m1 where "m1 = apply_reloc lookup mem ehdr r mem'"
  define m2 where "m2 = fold (apply_reloc lookup mem ehdr) rs m1"
  have IH: "\<forall>s \<in> set rs. read32 m2 (reloc_ref mem ehdr s) = relocated lookup mem ehdr s (read32 m1 (reloc_ref mem ehdr s))"
    "\<forall>a. (\<forall>s \<in> set rs. \<not> ref_bytes mem ehdr s a) \<longrightarrow> m2 a = m1 a"
    unfolding m2_def using Cons.IH [of m1] Cons.prems by auto
  have ap: "words_apart (reloc_ref mem ehdr r) (reloc_ref mem ehdr s)" "words_apart (reloc_ref mem ehdr s) (reloc_ref mem ehdr r)" if "s \<in> set rs" for s
    using Cons.prems that by auto
  have "read32 m2 (reloc_ref mem ehdr r) = read32 m1 (reloc_ref mem ehdr r)"
    by (rule read32_cong) (use IH(2) ap(1) apart_bytes in blast)
  then have 1: "read32 m2 (reloc_ref mem ehdr r) = relocated lookup mem ehdr r (read32 mem' (reloc_ref mem ehdr r))"
    by (simp add: m1_def apply_reloc_here)
  have 2: "read32 m1 (reloc_ref mem ehdr s) = read32 mem' (reloc_ref mem ehdr s)" if "s \<in> set rs" for s
    by (rule read32_cong) (use ap(2) [OF that] apart_bytes in \<open>simp add: m1_def apply_reloc_other\<close>)
  have 3: "m2 a = mem' a" if "\<forall>s \<in> set (r # rs). \<not> ref_bytes mem ehdr s a" for a
    using IH(2) that by (simp add: m1_def apply_reloc_other)
  show ?case using 1 2 3 IH(1) by (simp add: m1_def [symmetric] m2_def [symmetric])
qed simp

text \<open>
  C27: a supported relocatable file, whose relocations have known symbols and supported types and touch
  neither each other nor the headers, and which has no sections to allocate, is loaded: every word that
  an entry refers to holds S + A or S + A - P, computed from the file as it was, nothing else is
  changed, and the result is the entry point.
\<close>

theorem elf_load_relocates:
  assumes "file \<noteq> 0" and "check_supported mem file" and "e_type (read_ehdr mem file) = ET_REL"
    and "stable lookup D mem file" and "\<forall>i < unat (e_shnum (read_ehdr mem file)). section_good D mem file i"
    and "\<forall>r \<in> set (all_relocs mem file). reloc_good lookup D mem file r" and "distinct (all_relocs mem file)"
    and "\<forall>r \<in> set (all_relocs mem file). \<forall>s \<in> set (all_relocs mem file). r \<noteq> s \<longrightarrow> words_apart (reloc_ref mem file r) (reloc_ref mem file s)"
  shows "\<exists>mem'. elf_load_file lookup file (mem, hm) = Some (e_entry (read_ehdr mem file), mem', hm) \<and>
    (\<forall>r \<in> set (all_relocs mem file).
       read32 mem' (reloc_ref mem file r) = relocated lookup mem file r (read32 mem (reloc_ref mem file r))) \<and>
    (\<forall>a. (\<forall>r \<in> set (all_relocs mem file). \<not> ref_bytes mem file r a) \<longrightarrow> mem' a = mem a)"
proof -
  define mem' where "mem' = fold (apply_reloc lookup mem file) (all_relocs mem file) mem"
  have c: "covers D file 52" using assms(4) by (simp add: stable_def)
  have l: "load_sections lookup file (file + e_shoff (read_ehdr mem file)) 0 (mem, hm) = Some (True, mem', hm)" "agree_on D mem mem'"
    using load_sections_good [OF assms(4-6) agree_refl, of 0 hm] by (auto simp: mem'_def all_relocs_def)
  have "elf_load_file lookup file (mem, hm) = Some (e_entry (read_ehdr mem file), mem', hm)"
    using assms(1-3) l read_ehdr_agree [OF l(2) c] by (simp add: elf_load_file_def load_rel_def)
  then show ?thesis using fold_apply_reloc [OF assms(7,8), of lookup mem] unfolding mem'_def by blast
qed

text \<open>A file at address 0x1000 with a target section, a symbol table and one relocation against an absolute symbol.\<close>

definition sample_elf_bytes :: "(u32 \<times> u8) list" where
  "sample_elf_bytes =
    [(0x1000, 0x7F), (0x1001, 0x45), (0x1002, 0x4C), (0x1003, 0x46), (0x1004, 0x01), (0x1005, 0x01), (0x1006,
     0x01), (0x1010, 0x01), (0x1012, 0x03), (0x1019, 0x20), (0x1020, 0x34), (0x1030, 0x03), (0x1038, 0x01),
     (0x1044, 0xD4), (0x1048, 0x04), (0x1060, 0x02), (0x106C, 0xAC), (0x1070, 0x20), (0x1080, 0x10), (0x1088,
     0x09), (0x1094, 0xCC), (0x1098, 0x08), (0x109C, 0x01), (0x10A8, 0x08), (0x10C0, 0x34), (0x10C1, 0x12),
     (0x10CA, 0xF1), (0x10CB, 0xFF), (0x10D0, 0x01), (0x10D1, 0x01), (0x10D4, 0x05)]"

definition sample_elf :: memory where
  "sample_elf a = (case map_of sample_elf_bytes a of None \<Rightarrow> 0 | Some v \<Rightarrow> v)"

definition sample_headers :: "u32 set" where
  "sample_headers = {a. 0x1000 \<le> a \<and> a < 0x10D4}"

lemma sample_upt: "[0 ..< 16] = [0, 1, 2, 3, 4, 5, 6, 7, 8, 9, 10, 11, 12, 13, 14, 15 :: nat]" "[0 ..< 3] = [0, 1, 2 :: nat]"
  by code_simp+

lemmas sample_read = read16_def read32_def sample_elf_def sample_elf_bytes_def

lemma sample_ehdr: "read_ehdr sample_elf 0x1000 = \<lparr>e_ident = [0x7F, 0x45, 0x4C, 0x46, 1, 1, 1, 0, 0, 0, 0, 0, 0, 0, 0, 0],
    e_type = 1, e_machine = 3, e_entry = 0x2000, e_shoff = 52, e_shnum = 3\<rparr>"
  by (simp add: read_ehdr_def sample_read sample_upt)

lemma sample_section: "elf_section sample_elf 0x1000 i = 0x1034 + 40 * i"
  by (simp add: elf_section_def sample_ehdr)

lemma sample_shdrs:
  "read_shdr sample_elf 0x1034 = \<lparr>sh_type = 1, sh_flags = 0, sh_offset = 212, sh_size = 4, sh_link = 0, sh_info = 0, sh_entsize = 0\<rparr>"
  "read_shdr sample_elf 0x105C = \<lparr>sh_type = 2, sh_flags = 0, sh_offset = 172, sh_size = 32, sh_link = 0, sh_info = 0, sh_entsize = 16\<rparr>"
  "read_shdr sample_elf 0x1084 = \<lparr>sh_type = 9, sh_flags = 0, sh_offset = 204, sh_size = 8, sh_link = 1, sh_info = 0, sh_entsize = 8\<rparr>"
  by (simp_all add: read_shdr_def sample_read)

lemma sample_entries:
  "read_rel sample_elf 0x10CC = \<lparr>r_offset = 0, r_info = 0x101\<rparr>"
  "read_sym sample_elf 0x10BC = \<lparr>st_name = 0, st_value = 0x1234, st_info = 0, st_shndx = 0xFFF1\<rparr>"
  "read32 sample_elf 0x10D4 = 5"
  by (simp_all add: read_rel_def read_sym_def sample_read)

lemmas sample_file = sample_ehdr sample_section sample_shdrs sample_entries

lemma sample_reloc:
  "all_relocs sample_elf 0x1000 = [(0x10CC, 0x1084)]" "reloc_symbol sample_elf (0x10CC, 0x1084) = 1"
  "reloc_type sample_elf (0x10CC, 0x1084) = 1" "reloc_ref sample_elf 0x1000 (0x10CC, 0x1084) = 0x10D4"
  by (simp_all add: all_relocs_def sample_upt relocs_of_def is_rel_def section_relocs_def sample_file SHT_REL_def
    reloc_symbol_def reloc_type_def reloc_ref_def ELF32_R_SYM_def ELF32_R_TYPE_def Let_def)

lemma sample_value: "reloc_value (\<lambda>_ _. 0) sample_elf 0x1000 (0x10CC, 0x1084) = Some 0x1234"
  by (simp add: reloc_value_def sample_file sample_reloc get_symval_def SHN_UNDEF_def SHN_ABS_def Let_def word_le_nat_alt)

lemma covers_range: "\<lbrakk>0x1000 \<le> a; unat a + n \<le> 0x10D4\<rbrakk> \<Longrightarrow> covers sample_headers a n"
proof -
  assume a: "0x1000 \<le> a" "unat a + n \<le> 0x10D4"
  have "unat (a + of_nat i) = unat a + i" if "i < n" for i
    using a(2) that by (subst unat_add_u32) (simp_all add: unat_of_nat_u32)
  then show ?thesis using a by (auto simp: covers_def sample_headers_def word_le_nat_alt word_less_nat_alt)
qed

lemma sample_elf_good:
  "check_supported sample_elf 0x1000"
  "i < 3 \<Longrightarrow> section_good sample_headers sample_elf 0x1000 i"
  "reloc_good (\<lambda>_ _. 0) sample_headers sample_elf 0x1000 (0x10CC, 0x1084)"
proof -
  show "check_supported sample_elf 0x1000"
    by (simp add: check_supported_def sample_file EM_386_def ET_REL_def)
  have "section_good sample_headers sample_elf 0x1000 0" "section_good sample_headers sample_elf 0x1000 1"
    "section_good sample_headers sample_elf 0x1000 2"
    by (simp_all add: section_good_def sample_file covers_range SHT_REL_def SHT_NOBITS_def)
  moreover assume "i < 3"
  then have "i = 0 \<or> i = 1 \<or> i = 2" by linarith
  ultimately show "section_good sample_headers sample_elf 0x1000 i" by blast
next
  have "i < 4 \<Longrightarrow> 0x10D4 + of_nat i \<notin> sample_headers" for i
  proof -
    assume "i < 4"
    then have "i = 0 \<or> i = 1 \<or> i = 2 \<or> i = 3" by linarith
    then show ?thesis by (auto simp: sample_headers_def)
  qed
  then show "reloc_good (\<lambda>_ _. 0) sample_headers sample_elf 0x1000 (0x10CC, 0x1084)"
    by (simp add: reloc_good_def reloc_headers_def sample_reloc sample_value sample_file covers_range SHN_ABS_def)
qed

theorem elf_load_relocates_witness:
  "\<exists>mem'. elf_load_file (\<lambda>_ _. 0) 0x1000 (sample_elf, undefined) = Some (0x2000, mem', undefined) \<and> read32 mem' 0x10D4 = 0x1239"
  using elf_load_relocates [of "0x1000" sample_elf "\<lambda>_ _. 0" sample_headers undefined] sample_elf_good covers_range [of "0x1000" 52]
  by (auto simp: sample_reloc sample_value sample_file stable_def ET_REL_def relocated_def)

section \<open>Failures\<close>

text \<open>
  the loader returns \<^verbatim>\<open>NULL\<close> and changes neither memory nor heap for a \<^verbatim>\<open>NULL\<close> pointer, for a file without
  the magic number, class, byte order, version and machine it expects, and for a file that is not
  relocatable, executables included.
\<close>

theorem elf_load_refuses:
  assumes "file = 0 \<or> mem file \<noteq> 0x7F \<or> mem (file + 1) \<noteq> 0x45 \<or> mem (file + 2) \<noteq> 0x4C \<or> mem (file + 3) \<noteq> 0x46 \<or>
      mem (file + 4) \<noteq> 1 \<or> mem (file + 5) \<noteq> 1 \<or> mem (file + 6) \<noteq> 1 \<or> read16 mem (file + 18) \<noteq> EM_386 \<or> read16 mem (file + 16) \<noteq> ET_REL"
  shows "elf_load_file lookup file (mem, hm) = Some (0, mem, hm)"
  using assms by (auto simp: elf_load_file_def check_supported_def read_ehdr_def Let_def sample_upt)

theorem elf_load_refuses_witness: "elf_load_file (\<lambda>_ _. 0) 0x1000 (\<lambda>_. 0, undefined) = Some (0, \<lambda>_. 0, undefined)"
  using elf_load_refuses [of "0x1000" "\<lambda>_. 0" "\<lambda>_ _. 0" undefined] by simp

text \<open>
  An entry without a symbol is carried out, but the value 0 of its symbol is the result, which the loader
  takes for a failure.
\<close>

lemma reloc_without_symbol_fails:
  assumes "reloc_symbol mem (rel, sec) = 0"
  shows "\<exists>mem'. do_reloc lookup mem ehdr rel sec = Some (0, mem')"
  using assms by (simp add: do_reloc_def reloc_symbol_def SHN_UNDEF_def Let_def)

end
