(* ===== verification/Disasm_Print.thy ===== *)
theory Disasm_Print
  imports Disasm_Total Libc_Print_Correct
begin

text \<open>
  \<^verbatim>\<open>i80386_mnem_get_str\<close> of \<^verbatim>\<open>src/disasm/i80386_mnem.c\<close>: printing the tokens of an instruction into a buffer.
  The texts of the tokens are string constants, so a call of \<^verbatim>\<open>snprintf\<close> is given by the characters that
  its format and argument stand for; that the formatter makes these characters of them is shown below.
\<close>

definition string_bytes :: "string \<Rightarrow> u8 list" where
  "string_bytes s = map of_char s"

definition text_bytes :: "string option \<Rightarrow> u8 list" where
  "text_bytes t = (case t of None \<Rightarrow> null_text | Some s \<Rightarrow> string_bytes s)"

text \<open>The characters of the formats \<open>%s\<close>, \<open>%d\<close>, \<open>0x%02X\<close> and \<open>%s\<close> with a blank, by the type of the token.\<close>

definition token_output :: "MNEM_TOKEN \<Rightarrow> u8 list" where
  "token_output t = (case tok_type t of
     MNEM_TOKEN_GENERAL_REGISTER \<Rightarrow> text_bytes (tok_text t)
   | MNEM_TOKEN_CONTROL_REGISTER \<Rightarrow> text_bytes (tok_text t)
   | MNEM_TOKEN_DEBUG_REGISTER \<Rightarrow> text_bytes (tok_text t)
   | MNEM_TOKEN_TEST_REGISTER \<Rightarrow> text_bytes (tok_text t)
   | MNEM_TOKEN_SEGMENT \<Rightarrow> text_bytes (tok_text t)
   | MNEM_TOKEN_OPERATOR \<Rightarrow> text_bytes (tok_text t)
   | MNEM_TOKEN_MEMORY \<Rightarrow> text_bytes (tok_text t)
   | MNEM_TOKEN_NUMBER \<Rightarrow> pr_int [] (scast (tok_number t)) 0 (-1) 0x20 False
   | MNEM_TOKEN_IMMEDIATE \<Rightarrow> [0x30, 0x78] @ pr_uint [] (ucast (tok_number t)) 16 False 2 (-1) 0x30 False
   | MNEM_TOKEN_RELATIVE_ADDRESS \<Rightarrow> [0x30, 0x78] @ pr_uint [] (ucast (tok_number t)) 16 False 2 (-1) 0x30 False
   | MNEM_TOKEN_ABSOLUTE_ADDRESS \<Rightarrow> [0x30, 0x78] @ pr_uint [] (ucast (tok_number t)) 16 False 2 (-1) 0x30 False
   | MNEM_TOKEN_PREFIX \<Rightarrow> text_bytes (tok_text t) @ [0x20]
   | MNEM_TOKEN_MNEMONIC \<Rightarrow> text_bytes (tok_text t) @ [0x20])"

text \<open>The loop over the tokens. Every call of \<^verbatim>\<open>snprintf\<close> is given the size of the whole buffer.\<close>

primrec print_tokens :: "MNEM_TOKEN list \<Rightarrow> u32 \<Rightarrow> u32 \<Rightarrow> u32 \<Rightarrow> memory \<Rightarrow> memory" where
  "print_tokens [] buffer sz count mem = mem"
| "print_tokens (t # ts) buffer sz count mem =
     print_tokens ts buffer sz (count + of_nat (length (token_output t))) (store_text (buffer + count) sz (token_output t) mem)"

definition i80386_mnem_get_str :: "code \<Rightarrow> u32 \<Rightarrow> u32 \<Rightarrow> u32 \<Rightarrow> memory \<Rightarrow> (u32 \<times> memory) option" where
  "i80386_mnem_get_str c address buffer sz mem = do {
     (ok, tokens) \<leftarrow> i80386_mnem_get_tokens c address;
     if \<not> ok then Some (0, mem) else Some (1, print_tokens tokens buffer sz 0 mem) }"

section \<open>The characters of the formats\<close>

lemma map_cstr: "cstr mem p s \<Longrightarrow> map (\<lambda>i. mem (p + of_nat i)) [0 ..< length s] = s"
proof (induction s arbitrary: p)
  case (Cons c s)
  then have "map (\<lambda>i. mem (p + of_nat i)) [0 ..< length (c # s)] = mem p # map (\<lambda>i. mem (p + 1 + of_nat i)) [0 ..< length s]"
    by (simp add: upt_conv_Cons map_Suc_upt [symmetric] add.assoc del: upt_Suc)
  then show ?case using Cons by simp
qed simp

lemma string_arg_cstr: "\<lbrakk>cstr mem p s; p \<noteq> 0; length s < 2 ^ 32\<rbrakk> \<Longrightarrow> string_arg mem p = Some s"
  by (simp add: string_arg_def strlen_cstr unat_of_nat_u32 map_cstr)

definition simple_item :: "flag \<Rightarrow> u8 list \<Rightarrow> u8 \<Rightarrow> u32 \<Rightarrow> item" where
  "simple_item fl width c a =
     Conversion \<lparr>it_flag = fl, it_width = width, it_precision = None, it_longs = 0, it_letter = c, it_args = [a]\<rparr>"

lemma pr_string_plain: "string_arg mem p = Some s \<Longrightarrow> pr_string mem [] p 0 (-1) False = Some s"
  by (simp add: pr_string_def Let_def)

lemma simple_items:
  "\<lbrakk>cstr mem p s; p \<noteq> 0; length s < 2 ^ 32\<rbrakk> \<Longrightarrow> item_output mem (simple_item No_Flag [] 0x73 p) = Some s"
  "item_output mem (simple_item No_Flag [] 0x64 a) = Some (pr_int [] (scast a) 0 (-1) 0x20 False)"
  "item_output mem (simple_item Zero_Flag [0x32] 0x58 a) = Some (pr_uint [] (ucast a) 16 False 2 (-1) 0x30 False)"
  by (simp_all add: simple_item_def conversion_def unsigned_conversion_def item_spec_def va_u32_def va_signed_def va_unsigned_def decimal_def
      s32_def pr_string_plain [OF string_arg_cstr])

text \<open>
  The formats of \<^verbatim>\<open>i80386_mnem_get_str\<close> in memory, with a text at \<open>p\<close> or a number as argument, are formatted to
  the characters of \<open>token_output\<close>.
\<close>

lemma token_formats:
  "\<lbrakk>cstr mem fmt [0x25, 0x73]; cstr mem p s; p \<noteq> 0; length s < 2 ^ 32\<rbrakk> \<Longrightarrow> vformat mem fmt [p] = Some s"
  "\<lbrakk>cstr mem fmt [0x25, 0x73, 0x20]; cstr mem p s; p \<noteq> 0; length s < 2 ^ 32\<rbrakk> \<Longrightarrow> vformat mem fmt [p] = Some (s @ [0x20])"
  "cstr mem fmt [0x25, 0x64] \<Longrightarrow> vformat mem fmt [a] = Some (pr_int [] (scast a) 0 (-1) 0x20 False)"
  "cstr mem fmt [0x30, 0x78, 0x25, 0x30, 0x32, 0x58] \<Longrightarrow>
    vformat mem fmt [a] = Some ([0x30, 0x78] @ pr_uint [] (ucast a) 16 False 2 (-1) 0x30 False)"
  using vformat_loop_items [of mem fmt "[simple_item No_Flag [] 0x73 p]" "[s]" "[]" "[]"]
    vformat_loop_items [of mem fmt "[simple_item No_Flag [] 0x73 p, Literal 0x20]" "[s, [0x20]]" "[]" "[]"]
    vformat_loop_items [of mem fmt "[simple_item No_Flag [] 0x64 a]" "[pr_int [] (scast a) 0 (-1) 0x20 False]" "[]" "[]"]
    vformat_loop_items [of mem fmt "[Literal 0x30, Literal 0x78, simple_item Zero_Flag [0x32] 0x58 a]"
      "[[0x30], [0x78], pr_uint [] (ucast a) 16 False 2 (-1) 0x30 False]" "[]" "[]"]
  by (simp_all add: vformat_def simple_items)
    (simp_all add: simple_item_def conversion_text_def flag_text_def precision_text_def letters_def is_decimal_def)

section \<open>The buffer\<close>

lemma store_text_exact:
  assumes "length out < unat len"
  shows "store_text s len out mem a =
    (if unat (a - s) < length out then out ! unat (a - s) else if unat (a - s) = length out then 0 else mem a)"
proof -
  have l: "length out < 2 ^ 32" using order_less_trans [OF assms unat_less_u32 [of len]] by simp
  then have u: "unat (of_nat (length out) :: u32) = length out" by (simp add: unat_of_nat_u32)
  have "len \<noteq> 0" "(of_nat (length out) :: u32) < len" using assms u by (auto simp: word_less_nat_alt)
  moreover have "a = s + of_nat (length out) \<longleftrightarrow> unat (a - s) = length out" using u by (metis add_diff_cancel_left' diff_add_cancel add.commute word_unat_eq_iff)
  moreover note fold_string_output_inside [of 0 out s len mem a]
  ultimately show ?thesis using l assms by (auto simp: store_text_def Let_def word_less_nat_alt split: prod.split)
qed

definition tokens_text :: "MNEM_TOKEN list \<Rightarrow> u8 list" where
  "tokens_text ts = concat (map token_output ts)"

lemma print_tokens_text:
  "\<lbrakk>list_all (\<lambda>t. length (token_output t) < unat sz) ts; unat count + length (tokens_text ts) < 2 ^ 32\<rbrakk> \<Longrightarrow>
    print_tokens ts buffer sz count mem a =
      (let i = unat (a - buffer); n = unat count in
       if ts = [] then mem a
       else if n \<le> i \<and> i < n + length (tokens_text ts) then tokens_text ts ! (i - n)
       else if i = n + length (tokens_text ts) then 0 else mem a)"
proof (induction ts arbitrary: count mem)
  case (Cons t ts)
  define o1 where "o1 = token_output t"
  have len: "length o1 < unat sz" using Cons.prems(1) by (simp add: o1_def)
  have whole: "tokens_text (t # ts) = o1 @ tokens_text ts" by (simp add: tokens_text_def o1_def)
  have b: "unat count + length o1 + length (tokens_text ts) < 4294967296" using Cons.prems(2) by (simp add: whole)
  then have c: "unat (count + of_nat (length o1)) = unat count + length o1"
    by (subst unat_add_u32) (simp_all add: unat_of_nat_u32)
  define mem1 where "mem1 = store_text (buffer + count) sz o1 mem"
  have shift: "unat (a - (buffer + count)) = unat (a - buffer) - unat count" if "unat count \<le> unat (a - buffer)"
    using that by (simp add: diff_diff_eq [symmetric] unat_sub_u32 word_le_nat_alt)
  have out: "mem1 a = mem a" if "unat (a - buffer) < unat count"
  proof -
    have "unat (a - (buffer + count)) = unat (a - buffer) + 4294967296 - unat count"
      using that unat_sub_if_size [of "a - buffer" count] by (simp add: diff_diff_eq word_size)
    then have "length o1 < unat (a - (buffer + count))" using b by linarith
    then show ?thesis using store_text_exact [OF len, of "buffer + count" mem a] by (simp add: mem1_def)
  qed
  have "print_tokens (t # ts) buffer sz count mem a = print_tokens ts buffer sz (count + of_nat (length o1)) mem1 a"
    by (simp add: o1_def mem1_def)
  also have "\<dots> = (let i = unat (a - buffer); n = unat count + length o1 in
       if ts = [] then mem1 a
       else if n \<le> i \<and> i < n + length (tokens_text ts) then tokens_text ts ! (i - n)
       else if i = n + length (tokens_text ts) then 0 else mem1 a)"
    using Cons.IH [of "count + of_nat (length o1)" mem1] Cons.prems(1) b by (simp add: c)
  finally show ?case
    using out shift store_text_exact [OF len, of "buffer + count" mem a] unfolding mem1_def [symmetric] whole
    by (cases "unat (a - buffer) < unat count") (auto simp: Let_def nth_append tokens_text_def)
qed simp

text \<open>
  C28: when the disassembler finds the tokens of an instruction, the buffer afterwards holds their texts one
  after another with a terminating zero, and nothing else is changed, as long as every single text is
  shorter than the given size. The size does not limit the whole text: a text of \<open>n\<close> characters writes
  \<open>n + 1\<close> bytes, whatever the size of the buffer is.
\<close>

theorem i80386_mnem_get_str_prints:
  assumes "i80386_mnem_get_tokens c address = Some (True, ts)" and "ts \<noteq> []"
    and "list_all (\<lambda>t. length (token_output t) < unat sz) ts" and "length (tokens_text ts) < 2 ^ 32"
  shows "\<exists>mem'. i80386_mnem_get_str c address buffer sz mem = Some (1, mem') \<and>
    (\<forall>i < length (tokens_text ts). mem' (buffer + of_nat i) = tokens_text ts ! i) \<and>
    mem' (buffer + of_nat (length (tokens_text ts))) = 0 \<and>
    (\<forall>a. length (tokens_text ts) < unat (a - buffer) \<longrightarrow> mem' a = mem a)"
proof -
  have "i80386_mnem_get_str c address buffer sz mem = Some (1, print_tokens ts buffer sz 0 mem)"
    using assms(1) by (simp add: i80386_mnem_get_str_def)
  moreover have "unat (of_nat i :: u32) = i" if "i \<le> length (tokens_text ts)" for i
    using that assms(4) by (simp add: unat_of_nat_u32)
  ultimately show ?thesis
    using print_tokens_text [OF assms(3), of 0 buffer mem] assms(2,4) by (auto simp: Let_def)
qed

text \<open>
  The instruction \<open>mov [eax+ebx*4+0x12345678], 0x9ABCDEF0\<close>. Its text has 39 characters, so that the 32 bytes
  that the exception handlers provide for it are not enough: byte 38 of the text is written behind them.
\<close>

definition long_mov :: code where
  "long_mov = code_at 0x1000 [0xC7, 0x84, 0x98, 0x78, 0x56, 0x34, 0x12, 0xF0, 0xDE, 0xBC, 0x9A]"

definition long_mov_1 :: I80386_MNEM where
  "long_mov_1 = the (i80386_fetch long_mov 0x1000 mnem_zero)"

definition long_mov_2 :: I80386_MNEM where
  "long_mov_2 = snd (the (i80386_decode_opcode long_mov long_mov_1))"

lemma long_mov_steps:
  "i80386_fetch long_mov 0x1000 mnem_zero = Some long_mov_1"
  "i80386_decode_opcode long_mov long_mov_1 = Some (I80386_DECODE_OK, long_mov_2)"
  by code_simp+

lemma long_mov_text:
  "list_all (\<lambda>t. length (token_output t) < 32) (mn_line long_mov_2)" "mn_line long_mov_2 \<noteq> []"
  "length (tokens_text (mn_line long_mov_2)) = 39" "tokens_text (mn_line long_mov_2) ! 38 = 0x30"
  by code_simp+

theorem i80386_mnem_get_str_prints_witness:
  "\<exists>mem'. i80386_mnem_get_str long_mov 0x1000 0x8000 32 (\<lambda>_. 0xFF) = Some (1, mem') \<and> mem' (0x8000 + 38) = 0x30 \<and> mem' 0x9000 = 0xFF"
proof -
  have "i80386_mnem_get_tokens long_mov 0x1000 = Some (True, mn_line long_mov_2)"
    by (simp add: i80386_mnem_get_tokens_def long_mov_steps(1) i80386_decode_instruction.simps [of _ long_mov_1] long_mov_steps(2))
  from i80386_mnem_get_str_prints [OF this long_mov_text(2), of 32 "0x8000" "\<lambda>_. 0xFF"] long_mov_text
  obtain mem' where "i80386_mnem_get_str long_mov 0x1000 0x8000 32 (\<lambda>_. 0xFF) = Some (1, mem')"
    "\<forall>i < 39. mem' (0x8000 + of_nat i) = tokens_text (mn_line long_mov_2) ! i"
    "\<forall>a. 39 < unat (a - 0x8000) \<longrightarrow> mem' a = 0xFF" by auto
  then show ?thesis using long_mov_text(4) by (auto dest: spec [of _ 38] spec [of _ "0x9000"])
qed

end
