(* ===== verification/Kmessage.thy ===== *)
theory Kmessage
  imports Console Disasm_Print
begin

text \<open>
  Kernel messages with constant formats. The boot code, the exception handlers and the shell print with
  \<^verbatim>\<open>kprint\<close> and \<^verbatim>\<open>kdprint\<close> (\<^verbatim>\<open>kdprint.h\<close>), whose formats are string constants without an address of their own.
  Such a call is written here as the list of the parts of its format with their arguments. \<open>kprint\<close>
  outputs the characters of the parts as \<^verbatim>\<open>kprintf\<close> does, and agrees with it for the same format in memory
  (\<open>kprintf_parts\<close>).
\<close>

section \<open>Parts of a message\<close>

text \<open>
  The conversions that the kernel uses: \<open>%u\<close> and \<open>%X\<close> with a width and zeros or blanks before the number,
  \<open>%X\<close> with a precision, \<open>%s\<close> with a width on either side, for a string in memory (\<open>Str\<close>) and for a string
  constant (\<open>Name\<close>), and \<open>%c\<close>. The widths are below 100.
\<close>

datatype part =
    Lit string
  | Dec bool nat u32
  | Hex bool nat u32
  | Hex_Prec nat nat u32
  | Str bool nat u32
  | Name string
  | Chr u8

definition pad_char :: "bool \<Rightarrow> u8" where
  "pad_char zeros = (if zeros then 0x30 else 0x20)"

primrec part_bytes :: "memory \<Rightarrow> part \<Rightarrow> u8 list option" where
  "part_bytes mem (Lit s) = Some (string_bytes s)"
| "part_bytes mem (Dec zeros width a) = Some (pr_uint [] (ucast a) 10 False (int width) (-1) (pad_char zeros) False)"
| "part_bytes mem (Hex zeros width a) = Some (pr_uint [] (ucast a) 16 False (int width) (-1) (pad_char zeros) False)"
| "part_bytes mem (Hex_Prec width prec a) = Some (pr_uint [] (ucast a) 16 False (int width) (int prec) 0x20 False)"
| "part_bytes mem (Str left width p) = pr_string mem [] p (int width) (-1) left"
| "part_bytes mem (Name s) = Some (string_bytes s)"
| "part_bytes mem (Chr c) = Some [c]"

primrec message :: "memory \<Rightarrow> part list \<Rightarrow> u8 list option" where
  "message mem [] = Some []"
| "message mem (p # ps) = do { cs \<leftarrow> part_bytes mem p; ds \<leftarrow> message mem ps; Some (cs @ ds) }"

definition kdprint :: "(nat \<Rightarrow> u8) \<Rightarrow> part list \<Rightarrow> console \<Rightarrow> console option" where
  "kdprint uart parts con = do {
     out \<leftarrow> message (con_memory con) parts;
     Some (fold (serial_output uart) out con) }"

definition kprint :: "(nat \<Rightarrow> u8) \<Rightarrow> part list \<Rightarrow> console \<Rightarrow> console option" where
  "kprint uart parts con = do {
     out \<leftarrow> message (con_memory con) parts;
     kdprint uart parts (fold tty_output out con) }"

section \<open>The formats of the parts\<close>

definition width_text :: "nat \<Rightarrow> u8 list" where
  "width_text w = (if w = 0 then [] else if w < 10 then [0x30 + of_nat w] else [0x30 + of_nat (w div 10), 0x30 + of_nat (w mod 10)])"

definition conv :: "flag \<Rightarrow> nat \<Rightarrow> nat option \<Rightarrow> u8 \<Rightarrow> u32 \<Rightarrow> item" where
  "conv fl w prec c a = Conversion \<lparr>it_flag = fl, it_width = width_text w, it_precision = map_option width_text prec,
     it_longs = 0, it_letter = c, it_args = [a]\<rparr>"

definition num_flag :: "bool \<Rightarrow> flag" where
  "num_flag zeros = (if zeros then Zero_Flag else No_Flag)"

definition str_flag :: "bool \<Rightarrow> flag" where
  "str_flag left = (if left then Minus_Flag else No_Flag)"

text \<open>How a part is written in a format; a string constant is somewhere in memory.\<close>

inductive part_format :: "memory \<Rightarrow> part \<Rightarrow> item list \<Rightarrow> bool" for mem where
  Lit: "list_all (\<lambda>c. c \<noteq> 0 \<and> c \<noteq> 0x25) (string_bytes s) \<Longrightarrow> part_format mem (Lit s) (map Literal (string_bytes s))"
| Dec: "w < 100 \<Longrightarrow> part_format mem (Dec zeros w a) [conv (num_flag zeros) w None 0x75 a]"
| Hex: "w < 100 \<Longrightarrow> part_format mem (Hex zeros w a) [conv (num_flag zeros) w None 0x58 a]"
| Hex_Prec: "\<lbrakk>w < 100; prec < 100\<rbrakk> \<Longrightarrow> part_format mem (Hex_Prec w prec a) [conv No_Flag w (Some prec) 0x58 a]"
| Str: "w < 100 \<Longrightarrow> part_format mem (Str left w p) [conv (str_flag left) w None 0x73 p]"
| Name: "\<lbrakk>cstr mem p (string_bytes s); p \<noteq> 0; length s < 2 ^ 32\<rbrakk> \<Longrightarrow> part_format mem (Name s) [conv No_Flag 0 None 0x73 p]"
| Chr: "part_format mem (Chr c) [conv No_Flag 0 None 0x63 (ucast c)]"

lemma width_decimal:
  assumes "w < 100"
  shows "list_all is_decimal (width_text w)" "decimal (width_text w) = int w" "width_text w = [] \<or> hd (width_text w) \<noteq> 0x30"
proof -
  have d: "unat (0x30 + of_nat k :: u8) = 48 + k" "uint (0x30 + of_nat k :: u8) = 48 + int k" if "k < 10" for k
    using that by (simp_all add: unat_word_ariths uint_word_ariths unat_of_nat unsigned_of_nat take_bit_nat_eq_self)
  have k: "w div 10 < 10" "w mod 10 < 10" using assms by simp_all
  show "list_all is_decimal (width_text w)"
    using d(1) k by (auto simp: width_text_def is_decimal_def word_le_nat_alt less_Suc_eq_le [symmetric])
  have "int (w div 10) * 10 + int (w mod 10) = int w" by presburger
  then show "decimal (width_text w) = int w"
    using d(2) k assms by (auto simp: width_text_def decimal_def s32_small)
  show "width_text w = [] \<or> hd (width_text w) \<noteq> 0x30"
    using d(1) k by (auto simp: width_text_def word_unat_eq_iff)
qed

text \<open>A part in a format is a sequence of complete items whose output is that of the part.\<close>

lemma conv_ok:
  "\<lbrakk>w < 100; \<And>n. prec = Some n \<Longrightarrow> n < 100; c \<in> set letters\<rbrakk> \<Longrightarrow> item_ok (conv fl w prec c a)"
  using width_decimal [of w] width_decimal [of "the prec"] by (auto simp: conv_def split: option.split)

lemma ucast_u8_u32 [simp]: "ucast (ucast (c :: u8) :: u32) = c"
  by (rule bit_word_eqI) (simp add: bit_simps)

lemma conv_output:
  "w < 100 \<Longrightarrow> item_output mem (conv (num_flag zeros) w None 0x75 a) =
    Some (pr_uint [] (ucast a) 10 False (int w) (-1) (pad_char zeros) False)"
  "w < 100 \<Longrightarrow> item_output mem (conv (num_flag zeros) w None 0x58 a) =
    Some (pr_uint [] (ucast a) 16 False (int w) (-1) (pad_char zeros) False)"
  "\<lbrakk>w < 100; prec < 100\<rbrakk> \<Longrightarrow> item_output mem (conv No_Flag w (Some prec) 0x58 a) =
    Some (pr_uint [] (ucast a) 16 False (int w) (int prec) 0x20 False)"
  "item_output mem (conv No_Flag w None 0x63 (ucast (c :: u8))) = Some [c]"
  by (simp_all add: conv_def conversion_def unsigned_conversion_def item_spec_def va_u32_def va_unsigned_def num_flag_def pad_char_def
        output_char_def width_decimal(2))

lemma conv_output_string:
  assumes "w < 100"
  shows "item_output mem (conv (str_flag left) w None 0x73 p) = pr_string mem [] p (int w) (-1) left"
proof -
  define spec where "spec = \<lparr>fs_left = left, fs_pad = 0x20, fs_width = int w, fs_precision = -1, fs_long_long = False\<rparr>"
  have "conversion mem 0x73 spec [p] [] = map_option (Pair []) (pr_string mem [] p (int w) (-1) left)"
    by (simp add: conversion_def va_u32_def spec_def map_option_case) (simp add: Option.bind_eq_Some_conv split: option.split)
  moreover have "item_output mem (conv (str_flag left) w None 0x73 p) =
      (case conversion mem 0x73 spec [p] [] of Some ([], out) \<Rightarrow> Some out | _ \<Rightarrow> None)"
    by (simp add: conv_def item_spec_def spec_def str_flag_def width_decimal(2) [OF assms])
  ultimately show ?thesis by (cases "pr_string mem [] p (int w) (-1) left") simp_all
qed

lemma part_format_output:
  assumes "part_format mem part items" and "part_bytes mem part = Some cs"
  shows "list_all item_ok items \<and> (\<exists>outs. list_all2 (\<lambda>it o'. item_output mem it = Some o') items outs \<and> concat outs = cs)"
  using assms
proof cases
  case (Lit s)
  have "list_all2 (\<lambda>it o'. item_output mem it = Some o') (map Literal xs) (map (\<lambda>c. [c]) xs)" for xs
    by (induction xs) simp_all
  then show ?thesis using Lit assms(2) by (auto simp: list_all_iff intro!: exI [of _ "map (\<lambda>c. [c]) (string_bytes s)"])
next
  case (Name p s)
  then have "string_arg mem p = Some (string_bytes s)" by (auto intro!: string_arg_cstr simp: string_bytes_def)
  then have "item_output mem (conv No_Flag 0 None 0x73 p) = Some (string_bytes s)"
    using conv_output_string [of 0 mem False p] pr_string_plain by (simp add: str_flag_def)
  then show ?thesis using Name assms(2) conv_ok [of 0 None "0x73"] by (auto simp: letters_def intro!: exI [of _ "[string_bytes s]"])
qed (use assms(2) in \<open>auto simp: conv_output conv_output_string letters_def intro!: conv_ok exI [of _ "[cs]"]\<close>)

lemma vformat_parts:
  assumes "list_all2 (part_format mem) parts items" and "message mem parts = Some out"
    and "cstr mem fmt (concat (map item_text (concat items)))"
  shows "vformat mem fmt (concat (map item_args (concat items)) @ rest) = Some out"
proof -
  have "list_all item_ok (concat items) \<and>
    (\<exists>outs. list_all2 (\<lambda>it o'. item_output mem it = Some o') (concat items) outs \<and> concat outs = out)"
    using assms(1,2)
  proof (induction parts items arbitrary: out rule: list_all2_induct)
    case (Cons part parts its items)
    obtain cs ds where o: "part_bytes mem part = Some cs" "message mem parts = Some ds" "out = cs @ ds"
      using Cons.prems by (auto simp: bind_eq_Some_conv)
    obtain outs where "list_all2 (\<lambda>it o'. item_output mem it = Some o') its outs" "concat outs = cs" "list_all item_ok its"
      using part_format_output [OF Cons.hyps(1) o(1)] by blast
    moreover obtain outs' where "list_all2 (\<lambda>it o'. item_output mem it = Some o') (concat items) outs'" "concat outs' = ds"
      "list_all item_ok (concat items)"
      using Cons.IH [OF o(2)] by blast
    ultimately show ?case using o(3) by (auto intro!: exI [of _ "outs @ outs'"] list_all2_appendI)
  qed simp
  then show ?thesis using vformat_loop_items [OF assms(3), of _ rest "[]"] by (auto simp: vformat_def)
qed

text \<open>
  For a format and strings in memory outside the screen, \<^verbatim>\<open>kprintf\<close> does what \<open>kprint\<close> does with the parts
  of the format.
\<close>

lemma kprintf_parts:
  assumes "\<And>mem. only_screen (con_memory con) mem \<Longrightarrow>
      list_all2 (part_format mem) parts items \<and> cstr mem fmt (concat (map item_text (concat items)))"
    and "tty_ok (con_tty con)" and "kprint uart parts con = Some con'"
  shows "kprintf uart fmt (concat (map item_args (concat items)) @ rest) con = Some con'"
proof -
  obtain out out' where out: "message (con_memory con) parts = Some out"
    "message (con_memory (fold tty_output out con)) parts = Some out'"
    "con' = fold (serial_output uart) out' (fold tty_output out con)"
    using assms(3) by (auto simp: kprint_def kdprint_def bind_eq_Some_conv)
  have "only_screen (con_memory con) (con_memory con)" by (simp add: only_screen_def)
  from assms(1) [OF this] have "vformat (con_memory con) fmt (concat (map item_args (concat items)) @ rest) = Some out"
    by (elim conjE) (rule vformat_parts [OF _ out(1)])
  moreover have "only_screen (con_memory con) (con_memory (fold tty_output out con))"
    using fold_tty_putc [OF assms(2), of out] by (simp add: con_memory_def fold_tty_output)
  from assms(1) [OF this]
  have "vformat (con_memory (fold tty_output out con)) fmt (concat (map item_args (concat items)) @ rest) = Some out'"
    by (elim conjE) (rule vformat_parts [OF _ out(2)])
  ultimately show ?thesis using out(3) by (simp add: kprintf_def vfprintf_def STDIO_def SERIAL_def)
qed

section \<open>What is printed\<close>

text \<open>Messages whose strings are constants do not depend on memory.\<close>

primrec constant_part :: "part \<Rightarrow> bool" where
  "constant_part (Lit s) = True"
| "constant_part (Dec zeros width a) = True"
| "constant_part (Hex zeros width a) = True"
| "constant_part (Hex_Prec width prec a) = True"
| "constant_part (Str left width p) = False"
| "constant_part (Name s) = True"
| "constant_part (Chr c) = True"

definition const_bytes :: "part list \<Rightarrow> u8 list" where
  "const_bytes parts = the (message (\<lambda>_. 0) parts)"

lemma part_bytes_constant: "constant_part p \<Longrightarrow> \<exists>cs. \<forall>mem. part_bytes mem p = Some cs"
  by (cases p) simp_all

lemma message_constant: "list_all constant_part ps \<Longrightarrow> message mem ps = Some (const_bytes ps)"
proof (induction ps)
  case (Cons p ps)
  then obtain cs where "\<And>mem. part_bytes mem p = Some cs" "message mem ps = Some (const_bytes ps)"
    using part_bytes_constant [of p] by auto
  moreover have "message (\<lambda>_. 0) ps \<noteq> None" using Cons.prems by (induction ps) (auto dest: part_bytes_constant simp: bind_eq_None_conv)
  ultimately show ?case by (auto simp: const_bytes_def)
qed (simp add: const_bytes_def)

text \<open>The effect of output on the console: the screen and the bytes on the line, nothing else.\<close>

definition printed :: "u8 list \<Rightarrow> console \<Rightarrow> console \<Rightarrow> bool" where
  "printed out con con' \<longleftrightarrow> tty_ok (con_tty con') \<and>
    screen_of (con_tty con') = fold screen_putc out (screen_of (con_tty con)) \<and>
    sl_writes (con_serial con') = sl_writes (con_serial con) @ map (Pair COM1) out \<and>
    con_keyboard con' = con_keyboard con \<and> only_screen (con_memory con) (con_memory con')"

lemma printed_refl: "tty_ok (con_tty con) \<Longrightarrow> printed [] con con"
  by (simp add: printed_def only_screen_def)

lemma printed_trans: "\<lbrakk>printed out con con'; printed out' con' con''\<rbrakk> \<Longrightarrow> printed (out @ out') con con''"
  by (auto simp: printed_def intro: only_screen_trans)

lemma kprint_printed:
  assumes "tty_ok (con_tty con)" and "\<And>n. uart n AND UART_THRE \<noteq> 0"
    and "\<And>mem. only_screen (con_memory con) mem \<Longrightarrow> message mem parts = Some out"
  shows "\<exists>con'. kprint uart parts con = Some con' \<and> printed out con con'"
proof -
  define con1 where "con1 = fold tty_output out con"
  have tty: "con_tty con1 = fold tty_putc out (con_tty con)" "con_serial con1 = con_serial con" "con_keyboard con1 = con_keyboard con"
    by (simp_all add: con1_def fold_tty_output)
  note screen = fold_tty_putc [OF assms(1), of out]
  have "message (con_memory con) parts = Some out" "message (con_memory con1) parts = Some out"
    using assms(3) screen by (simp_all add: con_memory_def tty only_screen_def)
  then have "kprint uart parts con = Some (fold (serial_output uart) out con1)"
    by (simp add: kprint_def kdprint_def con1_def [symmetric])
  then show ?thesis
    using fold_serial_output [where uart = uart and out = out and con = con1, OF assms(2)] screen
    by (simp add: printed_def tty con_memory_def)
qed

lemma kprint_constant:
  "\<lbrakk>tty_ok (con_tty con); \<And>n. uart n AND UART_THRE \<noteq> 0; list_all constant_part parts\<rbrakk> \<Longrightarrow>
    \<exists>con'. kprint uart parts con = Some con' \<and> printed (const_bytes parts) con con'"
  by (rule kprint_printed) (simp_all add: message_constant)

end
