(* ===== verification/Exceptions.thy ===== *)
theory Exceptions
  imports Kmessage Scheduler
begin

text \<open>
  \<^verbatim>\<open>src/ke/exceptions.c\<close>, \<^verbatim>\<open>src/ke/stackframe.c\<close> and the structures of \<^verbatim>\<open>i86.h\<close>: the handlers of the
  processor's exceptions. A handler disassembles the faulting instruction, reports the exception and prints
  the call stack. The machine is the console, whose memory holds the stacks and the code, with the kernel of the
  scheduler. The state that the entry code saved is passed by value; \<open>buf\<close> is the address of the
  handler's local array \<^verbatim>\<open>buffer\<close>. A read from an address that is not mapped stops the handler (\<open>None\<close>).
\<close>

section \<open>Data\<close>

record exception_frame_t =
  ef_error :: u32
  ef_eip :: u32
  ef_cs :: u32
  ef_eflags :: u32
  ef_esp2 :: u32
  ef_ss2 :: u32

record cpu_state_t =
  cs_cr0 :: u32
  cs_cr2 :: u32
  cs_cr3 :: u32
  cs_es :: u32
  cs_ss :: u32
  cs_ds :: u32
  cs_fs :: u32
  cs_gs :: u32
  cs_eax :: u32
  cs_ecx :: u32
  cs_edx :: u32
  cs_ebx :: u32
  cs_esp :: u32
  cs_ebp :: u32
  cs_esi :: u32
  cs_edi :: u32

record exception_state_t =
  ex_cpu :: cpu_state_t
  ex_frame :: exception_frame_t

record machine =
  mc_con :: console
  mc_kernel :: kernel

definition mc_paging :: "machine \<Rightarrow> paging" where
  "mc_paging m = snd (snd (k_mm (mc_kernel m)))"

definition mc_code :: "machine \<Rightarrow> code" where
  "mc_code m = \<lparr>code_pg = mc_paging m, code_mem = con_memory (mc_con m)\<rparr>"

definition set_memory :: "memory \<Rightarrow> machine \<Rightarrow> machine" where
  "set_memory mem m = m\<lparr>mc_con := (mc_con m)\<lparr>con_tty := (con_tty (mc_con m))\<lparr>tty_memory := mem\<rparr>\<rparr>\<rparr>"

definition m_kprint :: "(nat \<Rightarrow> u8) \<Rightarrow> part list \<Rightarrow> machine \<Rightarrow> machine option" where
  "m_kprint uart parts m = do { con \<leftarrow> kprint uart parts (mc_con m); Some (m\<lparr>mc_con := con\<rparr>) }"

definition vec_de :: u8 where "vec_de = 0x00"
definition vec_ud :: u8 where "vec_ud = 0x06"
definition vec_df :: u8 where "vec_df = 0x08"
definition vec_ts :: u8 where "vec_ts = 0x0A"
definition vec_np :: u8 where "vec_np = 0x0B"
definition vec_ss :: u8 where "vec_ss = 0x0C"
definition vec_gp :: u8 where "vec_gp = 0x0D"
definition vec_pf :: u8 where "vec_pf = 0x0E"

definition UNMAPPED_WRITE_ACCESS :: u32 where "UNMAPPED_WRITE_ACCESS = 1"
definition UNMAPPED_READ_ACCESS :: u32 where "UNMAPPED_READ_ACCESS = 2"
definition WRITE_ACCESS_VIOLATION :: u32 where "WRITE_ACCESS_VIOLATION = 3"
definition READ_ACCESS_VIOLATION :: u32 where "READ_ACCESS_VIOLATION = 4"
definition INTEGER_DIVISION_ERROR :: u32 where "INTEGER_DIVISION_ERROR = 5"
definition CODE_ACCESS_VIOLATION :: u32 where "CODE_ACCESS_VIOLATION = 6"
definition UNMAPPED_CODE_ACCESS :: u32 where "UNMAPPED_CODE_ACCESS = 7"
definition NULL_DEREFERENCE :: u32 where "NULL_DEREFERENCE = 8"

lemmas fault_kinds = UNMAPPED_WRITE_ACCESS_def UNMAPPED_READ_ACCESS_def WRITE_ACCESS_VIOLATION_def READ_ACCESS_VIOLATION_def
  INTEGER_DIVISION_ERROR_def CODE_ACCESS_VIOLATION_def UNMAPPED_CODE_ACCESS_def NULL_DEREFERENCE_def

definition error_names :: "string list" where
  "error_names =
    [''Unknown error'', ''Unmapped write access'', ''Unmapped read access'', ''Write access violation'',
     ''Read access violation'', ''Integer divide by zero'', ''Code access violation'', ''Unmapped code access'',
     ''NULL dereference'']"

section \<open>The call stack\<close>

text \<open>A \<^verbatim>\<open>stack_frame_t\<close> is the caller's frame pointer, followed by the return address.\<close>

definition frame_caller :: "machine \<Rightarrow> u32 \<Rightarrow> u32 option" where
  "frame_caller m frame = load32 (mc_code m) frame"

definition frame_return_address :: "machine \<Rightarrow> u32 \<Rightarrow> u32 option" where
  "frame_return_address m frame = load32 (mc_code m) (frame + 4)"

definition stackframe_next :: "machine \<Rightarrow> u32 \<Rightarrow> u32 option" where
  "stackframe_next m frame = (if frame = 0 then Some 0 else frame_caller m frame)"

partial_function (option) call_stack_loop :: "(nat \<Rightarrow> u8) \<Rightarrow> u32 \<Rightarrow> machine \<Rightarrow> machine option" where
  "call_stack_loop uart frame m =
    (if frame \<noteq> 0 \<and> pg_virt2phys frame (mc_paging m) \<noteq> 0
     then do {
       return_address \<leftarrow> frame_return_address m frame;
       m \<leftarrow> m_kprint uart [Lit '' 0x'', Hex True 8 (return_address - 1), Lit ''\<newline>''] m;
       frame \<leftarrow> stackframe_next m frame;
       call_stack_loop uart frame m }
     else Some m)"

definition print_call_stack :: "(nat \<Rightarrow> u8) \<Rightarrow> exception_state_t \<Rightarrow> machine \<Rightarrow> machine option" where
  "print_call_stack uart state m = do {
     m \<leftarrow> m_kprint uart [Lit ''Call stack:\<newline> 0x'', Hex True 8 (ef_eip (ex_frame state)), Lit ''\<newline>''] m;
     call_stack_loop uart (cs_ebp (ex_cpu state)) m }"

section \<open>The registers\<close>

definition ex_print_state :: "(nat \<Rightarrow> u8) \<Rightarrow> exception_state_t \<Rightarrow> machine \<Rightarrow> machine option" where
  "ex_print_state uart state m = (let ef = ex_frame state; cpu = ex_cpu state in do {
     m \<leftarrow> m_kprint uart
       [Lit ''CS = 0x'', Hex_Prec 8 4 (ef_cs ef), Lit ''\<newline>EIP = 0x'', Hex_Prec 8 8 (ef_eip ef),
        Lit ''\<newline>F   = 0x'', Hex_Prec 8 8 (ef_eflags ef), Lit ''\<newline>''] m;
     m \<leftarrow> (if ef_cs ef AND 0x3 \<noteq> 0
        then m_kprint uart
          [Lit ''SS2 = 0x'', Hex_Prec 8 4 (ef_ss2 ef), Lit ''\<newline>ESP2 = 0x'', Hex_Prec 8 8 (ef_esp2 ef), Lit ''\<newline>''] m
        else Some m);
     m_kprint uart
       [Lit ''CR0 = 0x'', Hex True 2 (cs_cr0 cpu), Lit ''\<newline>CR2 = 0x'', Hex True 2 (cs_cr2 cpu),
        Lit ''\<newline>CR3 = 0x'', Hex True 2 (cs_cr3 cpu), Lit ''\<newline>EAX = 0x'', Hex True 2 (cs_eax cpu),
        Lit ''\<newline>ECX = 0x'', Hex True 2 (cs_ecx cpu), Lit ''\<newline>EDX = 0x'', Hex True 2 (cs_edx cpu),
        Lit ''\<newline>EBX = 0x'', Hex True 2 (cs_ebx cpu), Lit ''\<newline>ESP = 0x'', Hex True 2 (cs_esp cpu),
        Lit ''\<newline>EBP = 0x'', Hex True 2 (cs_ebp cpu), Lit ''\<newline>ESI = 0x'', Hex True 2 (cs_esi cpu),
        Lit ''\<newline>EDI = 0x'', Hex True 2 (cs_edi cpu), Lit ''\<newline>SS  = 0x'', Hex True 2 (cs_ss cpu),
        Lit ''\<newline>ES  = 0x'', Hex True 2 (cs_es cpu), Lit ''\<newline>DS  = 0x'', Hex True 2 (cs_ds cpu),
        Lit ''\<newline>FS  = 0x'', Hex True 2 (cs_fs cpu), Lit ''\<newline>GS  = 0x'', Hex True 2 (cs_gs cpu), Lit ''\<newline>''] m })"

section \<open>The handlers\<close>

definition privilege :: "exception_state_t \<Rightarrow> string" where
  "privilege state = (if ef_cs (ex_frame state) AND 0x3 \<noteq> 0 then ''User'' else ''Kernel'')"

definition process_id :: "u32 \<Rightarrow> machine \<Rightarrow> u32" where
  "process_id proc m = (if proc \<noteq> 0 then pr_id (k_procs (mc_kernel m) proc) else 0)"

text \<open>\<^verbatim>\<open>char buffer[32] = {0}\<close>, and the text of the instruction in it.\<close>

definition clear_buffer :: "u32 \<Rightarrow> nat \<Rightarrow> memory \<Rightarrow> memory" where
  "clear_buffer buf n mem = (\<lambda>a. if unat (a - buf) < n then 0 else mem a)"

definition instruction_text :: "u32 \<Rightarrow> exception_state_t \<Rightarrow> machine \<Rightarrow> machine option" where
  "instruction_text buf state m = (let m = set_memory (clear_buffer buf 32 (con_memory (mc_con m))) m in do {
     (_, mem) \<leftarrow> i80386_mnem_get_str (mc_code m) (ef_eip (ex_frame state)) buf 32 (con_memory (mc_con m));
     Some (set_memory mem m) })"

definition de :: "(nat \<Rightarrow> u8) \<Rightarrow> u32 \<Rightarrow> u32 \<Rightarrow> exception_state_t \<Rightarrow> machine \<Rightarrow> machine option" where
  "de uart buf proc state m = (let priv = privilege state; pid = process_id proc m; eip = ef_eip (ex_frame state) in do {
     m \<leftarrow> instruction_text buf state m;
     m \<leftarrow> m_kprint uart
       [Lit ''EXCEPTION:\<newline> '', Name priv, Lit '' process (pid='', Dec False 0 pid, Lit '')\<newline> threw exception at 0x'',
        Hex True 8 eip, Lit ''\<newline> '', Hex True 8 INTEGER_DIVISION_ERROR, Lit '': Integer division by zero\<newline> 0x'',
        Hex True 8 eip, Lit '': '', Str False 0 buf, Lit ''\<newline>''] m;
     print_call_stack uart state m })"

text \<open>
  The handlers \<^verbatim>\<open>df\<close>, \<^verbatim>\<open>ts\<close>, \<^verbatim>\<open>np\<close>, \<^verbatim>\<open>gp\<close>, \<^verbatim>\<open>ud\<close> and \<^verbatim>\<open>ss\<close> have the same body up to the name in the format.
\<close>

definition fault_report ::
  "string \<Rightarrow> (nat \<Rightarrow> u8) \<Rightarrow> u32 \<Rightarrow> u32 \<Rightarrow> exception_state_t \<Rightarrow> machine \<Rightarrow> machine option" where
  "fault_report name uart buf proc state m =
    (let priv = privilege state; pid = process_id proc m; eip = ef_eip (ex_frame state) in do {
     m \<leftarrow> instruction_text buf state m;
     m \<leftarrow> m_kprint uart
       [Lit ''EXCEPTION:\<newline> '', Name priv, Lit '' process (pid='', Dec False 0 pid, Lit '')\<newline> Threw exception at 0x'',
        Hex True 8 eip, Lit ''\<newline> '', Hex True 8 0, Lit ('': #'' @ name @ ''(''), Hex False 0 (ef_error (ex_frame state)),
        Lit '')\<newline> 0x'', Hex True 8 eip, Lit '': '', Str False 0 buf, Lit ''\<newline>''] m;
     m \<leftarrow> ex_print_state uart state m;
     print_call_stack uart state m })"

definition df :: "(nat \<Rightarrow> u8) \<Rightarrow> u32 \<Rightarrow> u32 \<Rightarrow> exception_state_t \<Rightarrow> machine \<Rightarrow> machine option" where
  "df = fault_report ''DF''"

definition ts :: "(nat \<Rightarrow> u8) \<Rightarrow> u32 \<Rightarrow> u32 \<Rightarrow> exception_state_t \<Rightarrow> machine \<Rightarrow> machine option" where
  "ts = fault_report ''TS''"

definition np :: "(nat \<Rightarrow> u8) \<Rightarrow> u32 \<Rightarrow> u32 \<Rightarrow> exception_state_t \<Rightarrow> machine \<Rightarrow> machine option" where
  "np = fault_report ''NP''"

definition gp :: "(nat \<Rightarrow> u8) \<Rightarrow> u32 \<Rightarrow> u32 \<Rightarrow> exception_state_t \<Rightarrow> machine \<Rightarrow> machine option" where
  "gp = fault_report ''GP''"

definition ud :: "(nat \<Rightarrow> u8) \<Rightarrow> u32 \<Rightarrow> u32 \<Rightarrow> exception_state_t \<Rightarrow> machine \<Rightarrow> machine option" where
  "ud = fault_report ''UD''"

definition ss :: "(nat \<Rightarrow> u8) \<Rightarrow> u32 \<Rightarrow> u32 \<Rightarrow> exception_state_t \<Rightarrow> machine \<Rightarrow> machine option" where
  "ss = fault_report ''SS''"

text \<open>The \<^verbatim>\<open>switch\<close> of \<^verbatim>\<open>pf\<close>; \<^verbatim>\<open>PTE_NP\<close> and \<^verbatim>\<open>PTE_RO\<close> are 0.\<close>

definition pf_error :: "exception_state_t \<Rightarrow> u32" where
  "pf_error state =
    (let bits = ef_error (ex_frame state) AND (PTE_P OR PTE_RW);
         cr2 = cs_cr2 (ex_cpu state);
         eip = ef_eip (ex_frame state) in
     if bits = 0 then
       (if cr2 = eip then UNMAPPED_CODE_ACCESS
        else if cr2 AND 0xFFFFF000 = 0 then NULL_DEREFERENCE
        else UNMAPPED_READ_ACCESS)
     else if bits = PTE_P then
       (if cr2 = eip then CODE_ACCESS_VIOLATION else READ_ACCESS_VIOLATION)
     else if bits = PTE_RW then
       (if cr2 AND 0xFFFFF000 = 0 then NULL_DEREFERENCE else UNMAPPED_WRITE_ACCESS)
     else if bits = PTE_P OR PTE_RW then WRITE_ACCESS_VIOLATION
     else 0)"

definition pf :: "(nat \<Rightarrow> u8) \<Rightarrow> u32 \<Rightarrow> u32 \<Rightarrow> exception_state_t \<Rightarrow> machine \<Rightarrow> machine option" where
  "pf uart buf proc state m =
    (let priv = privilege state; pid = process_id proc m; eip = ef_eip (ex_frame state) in do {
     m \<leftarrow> instruction_text buf state m;
     let error = pf_error state in do {
     assert (unat error < length error_names);
     m \<leftarrow> m_kprint uart
       [Lit ''EXCEPTION:\<newline> '', Name priv, Lit '' process (pid='', Dec False 0 pid, Lit '')\<newline> Threw exception at 0x'',
        Hex True 8 eip, Lit '': '', Str False 0 buf, Lit ''\<newline> '', Hex True 8 error, Lit '': '',
        Name (error_names ! unat error), Lit '' ('', Hex True 8 (cs_cr2 (ex_cpu state)), Lit '')\<newline>''] m;
     print_call_stack uart state m } })"

definition ex_fault_handler :: "(nat \<Rightarrow> u8) \<Rightarrow> u32 \<Rightarrow> u8 \<Rightarrow> exception_state_t \<Rightarrow> machine \<Rightarrow> machine option" where
  "ex_fault_handler uart buf vector state m =
    (let proc = scheduler_current (mc_kernel m) in
     if vector = vec_de then de uart buf proc state m
     else if vector = vec_df then df uart buf proc state m
     else if vector = vec_ts then ts uart buf proc state m
     else if vector = vec_np then np uart buf proc state m
     else if vector = vec_gp then gp uart buf proc state m
     else if vector = vec_ud then ud uart buf proc state m
     else if vector = vec_ss then ss uart buf proc state m
     else if vector = vec_pf then pf uart buf proc state m
     else Some m)"

end
