(* ===== verification/Exceptions_Correct.thy ===== *)
theory Exceptions_Correct
  imports Exceptions
begin

text \<open>
  Correctness of the exception handlers: the call stack that is printed, the classification of page faults, and the
  whole report of a page fault. A report changes the screen, the serial line and the local buffer, and nothing of the kernel.
\<close>

section \<open>Messages\<close>

definition mc_printed :: "u8 list \<Rightarrow> machine \<Rightarrow> machine \<Rightarrow> bool" where
  "mc_printed out m m' \<longleftrightarrow> mc_kernel m' = mc_kernel m \<and> printed out (mc_con m) (mc_con m')"

lemma mc_printed_trans: "\<lbrakk>mc_printed out m m'; mc_printed out' m' m''\<rbrakk> \<Longrightarrow> mc_printed (out @ out') m m''"
  by (auto simp: mc_printed_def intro: printed_trans)

lemma mc_printed_facts:
  assumes "mc_printed out m m'"
  shows "tty_ok (con_tty (mc_con m'))" "mc_paging m' = mc_paging m" "only_screen (con_memory (mc_con m)) (con_memory (mc_con m'))"
  using assms by (simp_all add: mc_printed_def printed_def mc_paging_def)

lemma m_kprint_printed:
  assumes "tty_ok (con_tty (mc_con m))" and "\<And>n. uart n AND UART_THRE \<noteq> 0"
    and "\<And>mem. only_screen (con_memory (mc_con m)) mem \<Longrightarrow> message mem parts = Some out"
  shows "\<exists>m'. m_kprint uart parts m = Some m' \<and> mc_printed out m m'"
  using kprint_printed [of "mc_con m" uart parts out] assms by (auto simp: m_kprint_def mc_printed_def)

lemma m_kprint_constant:
  assumes "tty_ok (con_tty (mc_con m))" and "\<And>n. uart n AND UART_THRE \<noteq> 0" and "list_all constant_part parts"
  shows "\<exists>m'. m_kprint uart parts m = Some m' \<and> mc_printed (const_bytes parts) m m'"
  using assms by (intro m_kprint_printed message_constant)

lemma m_kprint_keeps:
  assumes "m_kprint uart parts m = Some m'" and "tty_ok (con_tty (mc_con m))"
  shows "tty_ok (con_tty (mc_con m'))" "mc_paging m' = mc_paging m" "only_screen (con_memory (mc_con m)) (con_memory (mc_con m'))"
proof -
  have tty: "con_tty (fold (serial_output uart) cs con) = con_tty con" for cs con
    by (induction cs arbitrary: con) (simp_all add: serial_output_def)
  show "tty_ok (con_tty (mc_con m'))" "mc_paging m' = mc_paging m" "only_screen (con_memory (mc_con m)) (con_memory (mc_con m'))"
    using assms fold_tty_putc [OF assms(2)]
    by (auto simp: m_kprint_def kprint_def kdprint_def bind_eq_Some_conv con_memory_def tty fold_tty_output mc_paging_def)
qed

section \<open>The call stack\<close>

text \<open>The frames from a frame pointer on, with their return addresses and callers, up to the first that is not mapped.\<close>

primrec frame_chain :: "code \<Rightarrow> u32 \<Rightarrow> (u32 \<times> u32) list \<Rightarrow> bool" where
  "frame_chain c f [] \<longleftrightarrow> f = 0 \<or> pg_virt2phys f (code_pg c) = 0"
| "frame_chain c f (fr # fs) \<longleftrightarrow> f \<noteq> 0 \<and> pg_virt2phys f (code_pg c) \<noteq> 0 \<and> load32 c (f + 4) = Some (fst fr) \<and>
    load32 c f = Some (snd fr) \<and> frame_chain c (snd fr) fs"

text \<open>A view of memory that printing does not change.\<close>

definition off_screen :: "(code \<Rightarrow> bool) \<Rightarrow> machine \<Rightarrow> bool" where
  "off_screen P m \<longleftrightarrow> (\<forall>mem. only_screen (con_memory (mc_con m)) mem \<longrightarrow> P \<lparr>code_pg = mc_paging m, code_mem = mem\<rparr>)"

lemma off_screen_now: "off_screen P m \<Longrightarrow> P (mc_code m)"
  by (simp add: off_screen_def mc_code_def)

lemma off_screen_keep:
  "\<lbrakk>off_screen P m; mc_paging m' = mc_paging m; only_screen (con_memory (mc_con m)) (con_memory (mc_con m'))\<rbrakk> \<Longrightarrow> off_screen P m'"
  by (auto simp: off_screen_def intro: only_screen_trans)

lemma off_screen_mono: "\<lbrakk>off_screen P m; \<And>c. \<lbrakk>P c; code_pg c = mc_paging m\<rbrakk> \<Longrightarrow> Q c\<rbrakk> \<Longrightarrow> off_screen Q m"
  by (simp add: off_screen_def)

definition frames_text :: "(u32 \<times> u32) list \<Rightarrow> u8 list" where
  "frames_text fs = concat (map (\<lambda>fr. const_bytes [Lit '' 0x'', Hex True 8 (fst fr - 1), Lit ''\<newline>'']) fs)"

lemma call_stack_loop_prints:
  assumes uart: "\<And>n. uart n AND UART_THRE \<noteq> 0"
  shows "\<lbrakk>tty_ok (con_tty (mc_con m)); off_screen (\<lambda>c. frame_chain c f fs) m\<rbrakk> \<Longrightarrow>
    \<exists>m'. call_stack_loop uart f m = Some m' \<and> mc_printed (frames_text fs) m m'"
proof (induction fs arbitrary: f m)
  case Nil
  then have "f = 0 \<or> pg_virt2phys f (mc_paging m) = 0" using off_screen_now [OF Nil.prems(2)] by (simp add: mc_code_def)
  then show ?case using Nil.prems(1) printed_refl
    by (subst call_stack_loop.simps) (auto simp: mc_printed_def frames_text_def)
next
  case (Cons fr fs)
  from off_screen_now [OF Cons.prems(2)]
  have now: "f \<noteq> 0" "pg_virt2phys f (mc_paging m) \<noteq> 0" "load32 (mc_code m) (f + 4) = Some (fst fr)" by (simp_all add: mc_code_def)
  obtain m1 where m1: "m_kprint uart [Lit '' 0x'', Hex True 8 (fst fr - 1), Lit ''\<newline>''] m = Some m1"
    "mc_printed (const_bytes [Lit '' 0x'', Hex True 8 (fst fr - 1), Lit ''\<newline>'']) m m1"
    using m_kprint_constant [where uart = uart, OF Cons.prems(1) uart, of "[Lit '' 0x'', Hex True 8 (fst fr - 1), Lit ''\<newline>'']"] by auto
  note keep = off_screen_keep [OF Cons.prems(2) mc_printed_facts(2,3) [OF m1(2)]]
  then have "load32 (mc_code m1) f = Some (snd fr)" using off_screen_now by fastforce
  then have step: "call_stack_loop uart f m = call_stack_loop uart (snd fr) m1"
    using now m1(1) by (subst call_stack_loop.simps) (simp add: frame_return_address_def stackframe_next_def frame_caller_def)
  have "off_screen (\<lambda>c. frame_chain c (snd fr) fs) m1" using keep by (rule off_screen_mono) simp
  from Cons.IH [OF mc_printed_facts(1) [OF m1(2)] this] obtain m' where
    "call_stack_loop uart (snd fr) m1 = Some m'" "mc_printed (frames_text fs) m1 m'" by blast
  then show ?case using step mc_printed_trans [OF m1(2)] by (auto simp: frames_text_def)
qed

text \<open>
  The call stack ends and is printed completely: the address of the faulting instruction, then one line
  for each frame of the chain that starts at \<^verbatim>\<open>ebp\<close>, innermost first, with the address before the return
  address, up to the first frame pointer that is \<^verbatim>\<open>NULL\<close> or not mapped.
\<close>

lemma print_call_stack_prints:
  assumes "tty_ok (con_tty (mc_con m))" and "\<And>n. uart n AND UART_THRE \<noteq> 0"
    and "off_screen (\<lambda>c. frame_chain c (cs_ebp (ex_cpu state)) fs) m"
  shows "\<exists>m'. print_call_stack uart state m = Some m' \<and>
    mc_printed (const_bytes [Lit ''Call stack:\<newline> 0x'', Hex True 8 (ef_eip (ex_frame state)), Lit ''\<newline>''] @ frames_text fs) m m'"
proof -
  obtain m1 where m1: "m_kprint uart [Lit ''Call stack:\<newline> 0x'', Hex True 8 (ef_eip (ex_frame state)), Lit ''\<newline>''] m = Some m1"
    "mc_printed (const_bytes [Lit ''Call stack:\<newline> 0x'', Hex True 8 (ef_eip (ex_frame state)), Lit ''\<newline>'']) m m1"
    using m_kprint_constant [where uart = uart, OF assms(1,2), of "[Lit ''Call stack:\<newline> 0x'', Hex True 8 (ef_eip (ex_frame state)), Lit ''\<newline>'']"] by auto
  from call_stack_loop_prints [where uart = uart, OF assms(2) mc_printed_facts(1) [OF m1(2)] off_screen_keep [OF assms(3) mc_printed_facts(2,3) [OF m1(2)]]]
  obtain m' where "call_stack_loop uart (cs_ebp (ex_cpu state)) m1 = Some m'" "mc_printed (frames_text fs) m1 m'" by blast
  then show ?thesis using m1(1) mc_printed_trans [OF m1(2)] by (auto simp: print_call_stack_def)
qed

text \<open>A set of mapped frames, each of which has its caller in the set.\<close>

definition frame_cycle :: "u32 set \<Rightarrow> code \<Rightarrow> bool" where
  "frame_cycle F c \<longleftrightarrow> (\<forall>f \<in> F. f \<noteq> 0 \<and> pg_virt2phys f (code_pg c) \<noteq> 0 \<and> (\<forall>f'. load32 c f = Some f' \<longrightarrow> f' \<in> F))"

lemma call_stack_loop_cycle:
  assumes "call_stack_loop uart f m = Some m'"
  shows "\<not> (tty_ok (con_tty (mc_con m)) \<and> off_screen (frame_cycle F) m \<and> f \<in> F)"
proof (rule call_stack_loop.raw_induct [OF _ assms, where P = "\<lambda>uart f m m'. \<not> (tty_ok (con_tty (mc_con m)) \<and> off_screen (frame_cycle F) m \<and> f \<in> F)"],
    rule notI, elim conjE, goal_cases)
  case (1 loop uart f m m')
  then have ok: "tty_ok (con_tty (mc_con m))" and cyc: "off_screen (frame_cycle F) m" and f: "f \<in> F" by simp_all
  have "f \<noteq> 0" "pg_virt2phys f (mc_paging m) \<noteq> 0" using off_screen_now [OF cyc] f by (auto simp: frame_cycle_def mc_code_def)
  with 1(2) obtain ra m1 f' where m1: "m_kprint uart [Lit '' 0x'', Hex True 8 (ra - 1), Lit ''\<newline>''] m = Some m1"
    "frame_caller m1 f = Some f'" "loop uart f' m1 = Some m'"
    by (auto simp: bind_eq_Some_conv stackframe_next_def)
  note keep = m_kprint_keeps [OF m1(1) ok]
  from off_screen_keep [OF cyc keep(2,3)] have cyc': "off_screen (frame_cycle F) m1" .
  have "f' \<in> F" using off_screen_now [OF cyc'] f m1(2) by (auto simp: frame_cycle_def frame_caller_def)
  then show False using 1(1) [OF m1(3)] keep(1) cyc' by blast
qed

text \<open>
  frames that call each other in a circle, as a damaged stack may have them, are followed for ever: the
  handler does not return, however large the circle is. There is no limit on the number of frames that are printed.
\<close>

theorem print_call_stack_cycle:
  assumes "tty_ok (con_tty (mc_con m))" and "off_screen (frame_cycle F) m" and "cs_ebp (ex_cpu state) \<in> F"
  shows "print_call_stack uart state m = None"
proof (rule ccontr)
  assume "print_call_stack uart state m \<noteq> None"
  then obtain m1 m' where m1: "m_kprint uart [Lit ''Call stack:\<newline> 0x'', Hex True 8 (ef_eip (ex_frame state)), Lit ''\<newline>''] m = Some m1"
    "call_stack_loop uart (cs_ebp (ex_cpu state)) m1 = Some m'"
    by (auto simp: print_call_stack_def bind_eq_Some_conv)
  note keep = m_kprint_keeps [OF m1(1) assms(1)]
  from call_stack_loop_cycle [OF m1(2)] keep(1) off_screen_keep [OF assms(2) keep(2,3)] assms(3) show False by blast
qed

text \<open>
  For the witnesses: memory that is mapped everywhere, the instruction \<open>nop\<close> everywhere, a frame at \<open>0x3000\<close> without
  caller that returns to \<open>0x2001\<close>, and a frame at \<open>0x4000\<close> that is its own caller.
\<close>

definition sample_memory :: memory where
  "sample_memory a =
    (if a = 0x3004 then 0x01 else if a = 0x3005 then 0x20 else if 0x3000 \<le> a \<and> a < 0x3008 then 0
     else if a = 0x4001 then 0x40 else if 0x4000 \<le> a \<and> a < 0x4004 then 0 else 0x90)"

definition sample_machine :: machine where
  "sample_machine = \<lparr>mc_con = sample_console\<lparr>con_tty := (con_tty sample_console)\<lparr>tty_memory := sample_memory\<rparr>\<rparr>,
     mc_kernel = \<lparr>k_sched = \<lparr>sc_active = procman_empty, sc_inactive = procman_empty\<rparr>, k_procs = undefined, k_heap = undefined,
       k_mm = (undefined, undefined, \<lparr>pg_win = \<lambda>_. 0x1001, pg_pt_phys = 0\<rparr>), k_ram = \<lambda>_. 0\<rparr>\<rparr>"

definition sample_state :: "u32 \<Rightarrow> exception_state_t" where
  "sample_state ebp = \<lparr>ex_cpu = \<lparr>cs_cr0 = 0, cs_cr2 = 0xD0000000, cs_cr3 = 0, cs_es = 0, cs_ss = 0, cs_ds = 0, cs_fs = 0, cs_gs = 0,
     cs_eax = 0, cs_ecx = 0, cs_edx = 0, cs_ebx = 0, cs_esp = 0, cs_ebp = ebp, cs_esi = 0, cs_edi = 0\<rparr>,
     ex_frame = \<lparr>ef_error = 2, ef_eip = 0x1000, ef_cs = 8, ef_eflags = 0, ef_esp2 = 0, ef_ss2 = 0\<rparr>\<rparr>"

lemma sample_facts:
  "tty_ok (con_tty (mc_con sample_machine))" "con_memory (mc_con sample_machine) = sample_memory"
  "mc_paging sample_machine = \<lparr>pg_win = \<lambda>_. 0x1001, pg_pt_phys = 0\<rparr>"
  by (simp_all add: sample_machine_def sample_console_def tty_ok_def con_memory_def mc_paging_def VGA_HEIGHT_def VGA_WIDTH_def)

lemma sample_mapped: "pg_virt2phys f \<lparr>pg_win = \<lambda>_. 0x1001, pg_pt_phys = 0\<rparr> \<noteq> 0"
  using code_at_mapped [of 0 "[]" f] by (simp add: mapped_def code_at_def)

definition sample_code :: "memory \<Rightarrow> code" where
  "sample_code mem = \<lparr>code_pg = \<lparr>pg_win = \<lambda>_. 0x1001, pg_pt_phys = 0\<rparr>, code_mem = mem\<rparr>"

lemma sample_load32:
  assumes "\<And>a. a < 0x8000 \<Longrightarrow> mem a = sample_memory a"
  shows "load32 (sample_code mem) 0x3000 = Some 0" "load32 (sample_code mem) 0x3004 = Some 0x2001"
    "load32 (sample_code mem) 0x4000 = Some 0x4000"
proof -
  have bytes: "mem 0x3000 = 0" "mem 0x3001 = 0" "mem 0x3002 = 0" "mem 0x3003 = 0" "mem 0x3004 = 1" "mem 0x3005 = 0x20" "mem 0x3006 = 0"
    "mem 0x3007 = 0" "mem 0x4000 = 0" "mem 0x4001 = 0x40" "mem 0x4002 = 0" "mem 0x4003 = 0"
    by (simp_all add: assms) (simp_all add: sample_memory_def)
  have "load8 (sample_code mem) a = Some (mem a)" for a by (simp add: load8_def present_def PTE_P_def sample_code_def)
  then show "load32 (sample_code mem) 0x3000 = Some 0" "load32 (sample_code mem) 0x3004 = Some 0x2001"
    "load32 (sample_code mem) 0x4000 = Some 0x4000"
    by (simp_all add: load32_def bytes)
qed

lemma below_screen:
  assumes "only_screen mem mem'" and "a < 0x8000"
  shows "mem' a = mem a"
proof -
  have "a < VGA_MEMORY" using assms(2) by (rule order_less_trans) (simp add: VGA_MEMORY_def)
  then have "\<not> VGA_MEMORY \<le> a" by simp
  then show ?thesis using assms(1) by (simp add: only_screen_def)
qed

theorem print_call_stack_cycle_witness: "print_call_stack (\<lambda>_. 0x20) (sample_state 0x4000) sample_machine = None"
proof (rule print_call_stack_cycle [where F = "{0x4000}", OF sample_facts(1)])
  have "frame_cycle {0x4000} (sample_code mem)" if "only_screen sample_memory mem" for mem
    using sample_load32(3) [OF below_screen [OF that]] by (simp add: frame_cycle_def) (simp add: sample_code_def sample_mapped)
  then show "off_screen (frame_cycle {0x4000}) sample_machine"
    by (simp add: off_screen_def sample_facts sample_code_def)
qed (simp add: sample_state_def)

section \<open>Page faults\<close>

text \<open>
  What a page fault is, by the error code of the processor (bit 0: the page is present, bit 1: the access was a
  write) and the address of the access.
\<close>

definition page_fault_name :: "exception_state_t \<Rightarrow> string" where
  "page_fault_name state =
    (let error = ef_error (ex_frame state); address = cs_cr2 (ex_cpu state);
         present = bit error 0; write = bit error 1; fetch = (address = ef_eip (ex_frame state)) in
     if present \<and> write then ''Write access violation''
     else if present \<and> fetch then ''Code access violation''
     else if present then ''Read access violation''
     else if fetch \<and> \<not> write then ''Unmapped code access''
     else if unat address < 4096 then ''NULL dereference''
     else if write then ''Unmapped write access''
     else ''Unmapped read access'')"

lemma in_page_zero: "(a :: u32) AND 0xFFFFF000 = 0 \<longleftrightarrow> unat a < 4096"
proof -
  have "unat (a AND 0xFFFFF000) = unat a div 4096 * 4096"
    using unat_less_u32 [of a] div_times_less_eq_dividend [of "unat a" 4096]
    by (simp only: frame_mask and_not_mask_u32 unat_push_bit_u32 unat_drop_bit_u32) (simp del: unat_less_u32)
  then have "unat (a AND 0xFFFFF000) = 0 \<longleftrightarrow> unat a < 4096" by (simp add: div_eq_0_iff)
  then show ?thesis by (simp add: unat_eq_0)
qed

lemma error_bits: "(e :: u32) AND 3 = (if bit e 0 then 1 else 0) OR (if bit e 1 then 2 else 0)"
proof (rule bit_word_eqI)
  fix n
  have "bit (3 :: u32) n \<longleftrightarrow> n = 0 \<or> n = 1" "bit (1 :: u32) n \<longleftrightarrow> n = 0" "bit (2 :: u32) n \<longleftrightarrow> n = 1"
  proof -
    have three: "(3 :: u32) = mask 2" by (simp add: mask_eq_exp_minus_1)
    show "bit (3 :: u32) n \<longleftrightarrow> n = 0 \<or> n = 1" unfolding three bit_mask_iff by auto
    show "bit (1 :: u32) n \<longleftrightarrow> n = 0" by (auto simp: bit_1_iff)
    show "bit (2 :: u32) n \<longleftrightarrow> n = 1" by (auto simp: bit_2_iff)
  qed
  then show "bit (e AND 3) n \<longleftrightarrow> bit ((if bit e 0 then 1 else 0) OR (if bit e 1 then 2 else 0) :: u32) n"
    by (auto simp: bit_and_iff bit_or_iff)
qed

lemma pf_error_name:
  "unat (pf_error state) < length error_names \<and> error_names ! unat (pf_error state) = page_fault_name state"
  using error_bits [of "ef_error (ex_frame state)"]
  by (simp add: pf_error_def page_fault_name_def Let_def PTE_P_def PTE_RW_def in_page_zero fault_kinds error_names_def)

section \<open>The report\<close>

text \<open>The machine with a text in the local buffer of 32 bytes.\<close>

definition with_text :: "u32 \<Rightarrow> u8 list \<Rightarrow> machine \<Rightarrow> machine" where
  "with_text buf cs m = set_memory (\<lambda>a. if unat (a - buf) < length cs then cs ! unat (a - buf)
     else if unat (a - buf) < 32 then 0 else con_memory (mc_con m) a) m"

definition cleared :: "u32 \<Rightarrow> machine \<Rightarrow> machine" where
  "cleared buf m = set_memory (clear_buffer buf 32 (con_memory (mc_con m))) m"

lemma set_memory_facts [simp]:
  "con_memory (mc_con (set_memory mem m)) = mem" "mc_kernel (set_memory mem m) = mc_kernel m"
  "mc_paging (set_memory mem m) = mc_paging m" "tty_ok (con_tty (mc_con (set_memory mem m))) = tty_ok (con_tty (mc_con m))"
  "set_memory mem (set_memory mem' m) = set_memory mem m"
  by (simp_all add: set_memory_def con_memory_def mc_paging_def tty_ok_def)

lemma instruction_text_buffer:
  assumes "i80386_mnem_get_tokens (mc_code (cleared buf m)) (ef_eip (ex_frame state)) = Some (True, toks)"
    and "length (tokens_text toks) < 32"
  shows "instruction_text buf state m = Some (with_text buf (tokens_text toks) m)"
proof -
  have short: "list_all (\<lambda>t. length (token_output t) < unat (32 :: u32)) toks"
    using assms(2) by (induction toks) (simp_all add: tokens_text_def)
  define mem where "mem = con_memory (mc_con m)"
  have "print_tokens toks buf 32 0 (clear_buffer buf 32 mem) a =
      (if unat (a - buf) < length (tokens_text toks) then tokens_text toks ! unat (a - buf)
       else if unat (a - buf) < 32 then 0 else mem a)" for a
    using print_tokens_text [OF short, of 0 buf "clear_buffer buf 32 mem" a] assms(2)
    by (auto simp: Let_def clear_buffer_def tokens_text_def)
  then have "print_tokens toks buf 32 0 (clear_buffer buf 32 mem) = (\<lambda>a. if unat (a - buf) < length (tokens_text toks)
      then tokens_text toks ! unat (a - buf) else if unat (a - buf) < 32 then 0 else mem a)" by blast
  then show ?thesis
    using assms(1) unfolding mem_def by (simp add: instruction_text_def i80386_mnem_get_str_def cleared_def Let_def with_text_def)
qed

lemma cstr_nthI:
  "\<lbrakk>\<And>i. i < length s \<Longrightarrow> mem (p + of_nat i) = s ! i; mem (p + of_nat (length s)) = 0; 0 \<notin> set s\<rbrakk> \<Longrightarrow> cstr mem p s"
proof (induction s arbitrary: p)
  case (Cons c s)
  have "cstr mem (p + 1) s"
    using Cons.prems(1) [of "Suc _"] Cons.prems(2,3) by (intro Cons.IH) (simp_all add: add.assoc)
  then show ?case using Cons.prems(1) [of 0] Cons.prems(3) by auto
qed simp

text \<open>An array of 32 bytes outside the VGA buffer.\<close>

definition buffer_off_screen :: "u32 \<Rightarrow> bool" where
  "buffer_off_screen buf \<longleftrightarrow> buf \<noteq> 0 \<and> (\<forall>i < 32. \<not> (VGA_MEMORY \<le> buf + of_nat i \<and> buf + of_nat i < VGA_MEMORY + 4000))"

lemma buffer_printed:
  assumes "buffer_off_screen buf" and "length cs < 32" and "0 \<notin> set cs" and "only_screen (con_memory (mc_con (with_text buf cs m))) mem"
  shows "pr_string mem [] buf 0 (-1) False = Some cs"
proof -
  have u: "unat (of_nat i :: u32) = i" if "i < 32" for i using that by (simp add: unat_of_nat_u32)
  have "mem (buf + of_nat i) = (if i < length cs then cs ! i else 0)" if "i < 32" for i
    using assms(1,4) that by (simp add: buffer_off_screen_def only_screen_def with_text_def u)
  then have "cstr mem buf cs" using assms(2,3) by (intro cstr_nthI) simp_all
  then show ?thesis using assms(1,2) by (intro pr_string_plain string_arg_cstr) (simp_all add: buffer_off_screen_def)
qed

text \<open>A message with constants around the text in the buffer.\<close>

lemma message_append: "message mem (ps @ qs) = do { cs \<leftarrow> message mem ps; ds \<leftarrow> message mem qs; Some (cs @ ds) }"
  by (induction ps) (simp_all add: Option.bind_assoc)

lemma report_printed:
  assumes "tty_ok (con_tty (mc_con m))" and "\<And>n. uart n AND UART_THRE \<noteq> 0"
    and "buffer_off_screen buf" and "length cs < 32" and "0 \<notin> set cs"
    and "list_all constant_part ps" and "list_all constant_part qs"
  shows "\<exists>m'. m_kprint uart (ps @ Str False 0 buf # qs) (with_text buf cs m) = Some m' \<and>
    mc_printed (const_bytes ps @ cs @ const_bytes qs) (with_text buf cs m) m'"
proof (rule m_kprint_printed [where uart = uart, OF _ assms(2)])
  show "tty_ok (con_tty (mc_con (with_text buf cs m)))" using assms(1) by (simp add: with_text_def)
  fix mem
  assume "only_screen (con_memory (mc_con (with_text buf cs m))) mem"
  then show "message mem (ps @ Str False 0 buf # qs) = Some (const_bytes ps @ cs @ const_bytes qs)"
    using buffer_printed [OF assms(3-5)] assms(6,7) by (simp add: message_append message_constant)
qed

definition page_fault_head :: "exception_state_t \<Rightarrow> u32 \<Rightarrow> part list" where
  "page_fault_head state pid =
    [Lit ''EXCEPTION:\<newline> '', Name (privilege state), Lit '' process (pid='', Dec False 0 pid, Lit '')\<newline> Threw exception at 0x'',
     Hex True 8 (ef_eip (ex_frame state)), Lit '': '']"

definition page_fault_kind :: "exception_state_t \<Rightarrow> nat \<Rightarrow> part list" where
  "page_fault_kind state kind =
    [Lit ''\<newline> '', Hex True 8 (of_nat kind), Lit '': '', Name (page_fault_name state),
     Lit '' ('', Hex True 8 (cs_cr2 (ex_cpu state)), Lit '')\<newline>'']"

definition call_stack_head :: "exception_state_t \<Rightarrow> part list" where
  "call_stack_head state = [Lit ''Call stack:\<newline> 0x'', Hex True 8 (ef_eip (ex_frame state)), Lit ''\<newline>'']"

text \<open>
  C36: a page fault is reported completely, on a consistent terminal, with a serial line that is ready, and under two
  conditions on what the handler meets, because it checks neither: the text of the faulting instruction fits with its
  terminator into the local buffer of 32 bytes (which lies outside the VGA buffer) and holds no zero byte, and the
  chain of saved frame pointers ends, after the frames \<open>fs\<close>, and is not part of the VGA buffer. Then the handler
  returns, and has printed the privilege level and number of the running process, the address and the text of the
  instruction, the number and name of the fault as the error code and the address of the access determine it, that
  address, and the call stack. The screen and the serial line show the same text, and of the rest of the machine only
  the local buffer has changed. Without the conditions it is otherwise: \<open>print_call_stack_cycle\<close> shows that a
  cyclic chain is followed for ever, and longer instruction texts leave the buffer, since the printing knows no bound (\<open>Disasm_Print\<close>).
\<close>

theorem page_fault_reported:
  assumes "tty_ok (con_tty (mc_con m))" and "\<And>n. uart n AND UART_THRE \<noteq> 0" and "buffer_off_screen buf"
    and "i80386_mnem_get_tokens (mc_code (cleared buf m)) (ef_eip (ex_frame state)) = Some (True, toks)"
    and "length (tokens_text toks) < 32" and "0 \<notin> set (tokens_text toks)"
    and "off_screen (\<lambda>c. frame_chain c (cs_ebp (ex_cpu state)) fs) (with_text buf (tokens_text toks) m)"
  shows "\<exists>m' kind. ex_fault_handler uart buf 14 state m = Some m' \<and>
    kind < length error_names \<and> error_names ! kind = page_fault_name state \<and>
    mc_printed (const_bytes (page_fault_head state (process_id (scheduler_current (mc_kernel m)) m)) @ tokens_text toks @
      const_bytes (page_fault_kind state kind) @ const_bytes (call_stack_head state) @ frames_text fs)
      (with_text buf (tokens_text toks) m) m'"
proof -
  define kind where "kind = unat (pf_error state)"
  have kind: "kind < length error_names" "error_names ! kind = page_fault_name state" "of_nat kind = pf_error state"
    using pf_error_name [of state] by (simp_all add: kind_def)
  define pid where "pid = process_id (scheduler_current (mc_kernel m)) m"
  define m0 where "m0 = with_text buf (tokens_text toks) m"
  obtain m1 where m1: "m_kprint uart (page_fault_head state pid @ Str False 0 buf # page_fault_kind state kind) m0 = Some m1"
    "mc_printed (const_bytes (page_fault_head state pid) @ tokens_text toks @ const_bytes (page_fault_kind state kind)) m0 m1"
    using report_printed [where uart = uart and m = m and ps = "page_fault_head state pid" and qs = "page_fault_kind state kind",
        OF assms(1,2,3,5,6)]
    by (auto simp: m0_def page_fault_head_def page_fault_kind_def)
  have "off_screen (\<lambda>c. frame_chain c (cs_ebp (ex_cpu state)) fs) m1"
    using assms(7) mc_printed_facts(2,3) [OF m1(2)] unfolding m0_def by (rule off_screen_keep)
  from print_call_stack_prints [where uart = uart, OF mc_printed_facts(1) [OF m1(2)] assms(2) this]
  obtain m' where m': "print_call_stack uart state m1 = Some m'"
    "mc_printed (const_bytes (call_stack_head state) @ frames_text fs) m1 m'" by (auto simp: call_stack_head_def)
  have "ex_fault_handler uart buf 14 state m = print_call_stack uart state m1"
    using m1(1) kind
    by (simp add: ex_fault_handler_def Let_def vec_de_def vec_df_def vec_ts_def vec_np_def vec_gp_def vec_ud_def vec_ss_def vec_pf_def
        pf_def instruction_text_buffer [OF assms(4,5)] pid_def [symmetric] m0_def [symmetric] kind_def [symmetric]
        page_fault_head_def page_fault_kind_def)
  then show ?thesis using m'(1) kind mc_printed_trans [OF m1(2) m'(2)] unfolding pid_def m0_def by auto
qed

definition nop_code :: code where
  "nop_code = sample_code (\<lambda>a. if a - 0x8000 < 32 then 0 else sample_memory a)"

lemma nop_code_cleared: "mc_code (cleared 0x8000 sample_machine) = nop_code"
  by (simp add: nop_code_def sample_code_def mc_code_def cleared_def clear_buffer_def sample_facts word_less_nat_alt)

definition nop_1 :: I80386_MNEM where
  "nop_1 = the (i80386_fetch nop_code 0x1000 mnem_zero)"

definition nop_2 :: I80386_MNEM where
  "nop_2 = snd (the (i80386_decode_opcode nop_code nop_1))"

lemma nop_steps:
  "i80386_fetch nop_code 0x1000 mnem_zero = Some nop_1"
  "i80386_decode_opcode nop_code nop_1 = Some (I80386_DECODE_OK, nop_2)"
  "tokens_text (mn_line nop_2) = string_bytes ''nop ''"
  by code_simp+

theorem page_fault_reported_witness:
  "\<exists>m' kind. ex_fault_handler (\<lambda>_. 0x20) 0x8000 14 (sample_state 0x3000) sample_machine = Some m' \<and>
     error_names ! kind = ''Unmapped write access'' \<and> mc_kernel m' = mc_kernel sample_machine"
proof -
  let ?state = "sample_state 0x3000"
  have toks: "i80386_mnem_get_tokens nop_code 0x1000 = Some (True, mn_line nop_2)"
    by (simp add: i80386_mnem_get_tokens_def nop_steps(1) i80386_decode_instruction.simps [of _ nop_1] nop_steps(2))
  have chain: "off_screen (\<lambda>c. frame_chain c 0x3000 [(0x2001, 0)]) (with_text 0x8000 cs sample_machine)" if "length cs < 32" for cs
  proof -
    define mem0 where "mem0 = con_memory (mc_con (with_text 0x8000 cs sample_machine))"
    have mem0: "mem0 a = sample_memory a" if "a < 0x8000" for a
    proof -
      have "\<not> unat (a - 0x8000) < 32"
        using that unat_sub_if_size [of a "0x8000"] by (simp add: word_size word_less_nat_alt)
      then show ?thesis using \<open>length cs < 32\<close> by (simp add: mem0_def with_text_def sample_facts)
    qed
    have "frame_chain (sample_code mem) 0x3000 [(0x2001, 0)]" if "only_screen mem0 mem" for mem
    proof -
      have "mem a = sample_memory a" if "a < 0x8000" for a
        using below_screen [OF \<open>only_screen mem0 mem\<close> that] mem0 [OF that] by simp
      from sample_load32 [OF this] show ?thesis by (simp) (simp add: sample_code_def sample_mapped)
    qed
    then show ?thesis by (simp add: off_screen_def mem0_def [symmetric] sample_code_def) (simp add: with_text_def sample_facts)
  qed
  have short: "length (tokens_text (mn_line nop_2)) < 32" "0 \<notin> set (tokens_text (mn_line nop_2))"
    by (simp_all add: nop_steps(3) string_bytes_def)
  have buf: "buffer_off_screen 0x8000"
    by (simp add: buffer_off_screen_def VGA_MEMORY_def word_le_nat_alt unat_word_ariths unat_of_nat)
  have name: "page_fault_name ?state = ''Unmapped write access''" by (simp add: page_fault_name_def sample_state_def bit_2_iff)
  show ?thesis
    using page_fault_reported [where uart = "\<lambda>_. 0x20" and m = sample_machine and buf = "0x8000" and state = ?state
        and toks = "mn_line nop_2" and fs = "[(0x2001, 0)]", OF sample_facts(1) _ buf _ short]
      toks chain [OF short(1)] name
    by (auto simp: nop_code_cleared UART_THRE_def sample_state_def mc_printed_def with_text_def)
qed

end
