(* ===== verification/Shell_Pages.thy ===== *)
theory Shell_Pages
  imports Exceptions_Correct
begin

text \<open>
  The listing of the page tables in \<^verbatim>\<open>src/shell/shell.c\<close>. Entries whose frames follow each other and that have the
  same flags are printed as one row. \<^verbatim>\<open>print_page_directory\<close> and \<^verbatim>\<open>print_page_tables\<close> are copies of each other up to
  the number of entries, the format of a row and the column with the virtual address; their loops are one
  definition with the printing of a row as argument.
\<close>

section \<open>The code\<close>

definition PTE_A :: u32 where "PTE_A = 0x20"

definition PTE_D :: u32 where "PTE_D = 0x40"

text \<open>The variables of the loop.\<close>

record page_run =
  run_index :: u32
  run_virt :: u32
  run_frame :: u32
  run_flags :: u32
  run_count :: u32

definition print_access :: "(nat \<Rightarrow> u8) \<Rightarrow> u32 \<Rightarrow> machine \<Rightarrow> machine option" where
  "print_access uart flags m = do {
     m \<leftarrow> m_kprint uart [Lit (if flags AND PTE_P \<noteq> 0 then '' P '' else ''NP '')] m;
     m \<leftarrow> m_kprint uart [Lit (if flags AND PTE_RW \<noteq> 0 then ''RW '' else ''RO '')] m;
     m \<leftarrow> m_kprint uart [Lit (if flags AND PTE_US \<noteq> 0 then ''U  '' else '' S '')] m;
     m \<leftarrow> m_kprint uart [Lit (if flags AND PTE_A \<noteq> 0 then ''A '' else ''  '')] m;
     m \<leftarrow> m_kprint uart [Lit (if flags AND PTE_D \<noteq> 0 then ''D '' else ''  '')] m;
     m_kprint uart [Lit ''|\<newline>''] m }"

definition directory_row :: "page_run \<Rightarrow> part list" where
  "directory_row r = [Lit ''| '', Dec False 5 (run_index r), Lit '' | 0x'', Hex True 8 (run_frame r), Lit '' | '',
     Dec False 5 (run_count r), Lit '' |'']"

definition table_row :: "page_run \<Rightarrow> part list" where
  "table_row r = [Lit ''| '', Dec False 7 (run_index r), Lit '' | 0x'', Hex True 8 (run_virt r), Lit '' | 0x'',
     Hex True 8 (run_frame r), Lit '' | '', Dec False 5 (run_count r), Lit '' |'']"

definition print_run ::
  "(nat \<Rightarrow> u8) \<Rightarrow> (page_run \<Rightarrow> part list) \<Rightarrow> u32 \<Rightarrow> page_run \<Rightarrow> machine \<Rightarrow> machine option" where
  "print_run uart row output_flag_mask r m =
    (if run_flags r AND output_flag_mask \<noteq> 0
     then do { m \<leftarrow> m_kprint uart (row r) m; print_access uart (run_flags r) m }
     else Some m)"

text \<open>The loop from index \<open>i\<close> on, with \<open>n\<close> entries left.\<close>

primrec print_runs_loop ::
  "nat \<Rightarrow> (page_run \<Rightarrow> machine \<Rightarrow> machine option) \<Rightarrow> (nat \<Rightarrow> u32) \<Rightarrow> u32 \<Rightarrow> nat \<Rightarrow> page_run \<Rightarrow> machine \<Rightarrow>
    (page_run \<times> machine) option" where
  "print_runs_loop 0 out pt group_flag_mask i r m = Some (r, m)"
| "print_runs_loop (Suc n) out pt group_flag_mask i r m =
    (let frame = pt i AND 0xFFFFF000;
         flags = pt i AND group_flag_mask in
     if run_frame r + run_count r * PAGE_SIZE = frame \<and> run_flags r = flags
     then print_runs_loop n out pt group_flag_mask (i + 1) (r\<lparr>run_count := run_count r + 1\<rparr>) m
     else do {
       m \<leftarrow> out r m;
       print_runs_loop n out pt group_flag_mask (i + 1)
         \<lparr>run_index = of_nat i, run_virt = run_virt r + run_count r * PAGE_SIZE, run_frame = frame, run_flags = flags,
          run_count = 1\<rparr> m })"

definition print_runs ::
  "(nat \<Rightarrow> u8) \<Rightarrow> (page_run \<Rightarrow> part list) \<Rightarrow> nat \<Rightarrow> (nat \<Rightarrow> u32) \<Rightarrow> u32 \<Rightarrow> u32 \<Rightarrow> machine \<Rightarrow> machine option" where
  "print_runs uart row n pt group_flag_mask output_flag_mask m = (
     let start = \<lparr>run_index = 0, run_virt = 0, run_frame = pt 0 AND 0xFFFFF000, run_flags = pt 0 AND group_flag_mask, run_count = 0\<rparr> in do {
     (r, m) \<leftarrow> print_runs_loop n (print_run uart row output_flag_mask) pt group_flag_mask 0 start m;
     m \<leftarrow> print_run uart row output_flag_mask r m;
     m_kprint uart [Lit ''\<newline>''] m })"

definition print_page_directory :: "(nat \<Rightarrow> u8) \<Rightarrow> (nat \<Rightarrow> u32) \<Rightarrow> u32 \<Rightarrow> u32 \<Rightarrow> machine \<Rightarrow> machine option" where
  "print_page_directory uart pd group_flag_mask output_flag_mask m = do {
     m \<leftarrow> m_kprint uart [Lit ''Page directory:\<newline>| index | frame      | count | access |\<newline>''] m;
     print_runs uart directory_row 1024 pd group_flag_mask output_flag_mask m }"

definition print_page_tables :: "(nat \<Rightarrow> u8) \<Rightarrow> (nat \<Rightarrow> u32) \<Rightarrow> u32 \<Rightarrow> u32 \<Rightarrow> machine \<Rightarrow> machine option" where
  "print_page_tables uart pt group_flag_mask output_flag_mask m = do {
     m \<leftarrow> m_kprint uart [Lit ''Page tables:\<newline>|  index  | virt       | frame      | count | access      |\<newline>''] m;
     print_runs uart table_row (1024 * 1024) pt group_flag_mask output_flag_mask m }"

text \<open>
  The static arrays \<^verbatim>\<open>pg_pd\<close> and \<^verbatim>\<open>pg_pt\<close>, as they are behind the recursive window. The window shows the directory in
  place of the last table, which no code writes.
\<close>

definition pg_pd :: "paging \<Rightarrow> nat \<Rightarrow> u32" where
  "pg_pd g i = pg_win g (0xFFFFF000 + 4 * of_nat i)"

definition pg_pt :: "paging \<Rightarrow> nat \<Rightarrow> u32" where
  "pg_pt g i = (if i < 0xFFC00 then pg_win g (0xFFC00000 + 4 * of_nat i) else 0)"

definition print_paging :: "(nat \<Rightarrow> u8) \<Rightarrow> machine \<Rightarrow> machine option" where
  "print_paging uart m = do {
     m \<leftarrow> print_page_directory uart (pg_pd (mc_paging m)) (PTE_P OR PTE_RW OR PTE_US) PTE_P m;
     print_page_tables uart (pg_pt (mc_paging m)) (PTE_P OR PTE_RW OR PTE_US) PTE_P m }"

section \<open>The rows partition the table\<close>

definition run_ok :: "(nat \<Rightarrow> u32) \<Rightarrow> u32 \<Rightarrow> nat \<Rightarrow> nat \<Rightarrow> page_run \<Rightarrow> bool" where
  "run_ok pt group_flag_mask i n r \<longleftrightarrow> run_index r = of_nat i \<and> run_virt r = of_nat i * PAGE_SIZE \<and> run_count r = of_nat n \<and>
     (\<forall>k < n. pt (i + k) AND 0xFFFFF000 = run_frame r + of_nat k * PAGE_SIZE \<and> pt (i + k) AND group_flag_mask = run_flags r)"

text \<open>
  \<open>runs_of pt group_flag_mask i ns rs\<close>: from entry \<open>i\<close> on, the runs \<open>rs\<close> have the lengths \<open>ns\<close>; none is empty, and no run could go on
  with the entry that follows it.
\<close>

primrec runs_of :: "(nat \<Rightarrow> u32) \<Rightarrow> u32 \<Rightarrow> nat \<Rightarrow> nat list \<Rightarrow> page_run list \<Rightarrow> bool" where
  "runs_of pt group_flag_mask i [] rs \<longleftrightarrow> rs = []"
| "runs_of pt group_flag_mask i (n # ns) rs \<longleftrightarrow> 0 < n \<and> (case rs of [] \<Rightarrow> False | r # rs \<Rightarrow> run_ok pt group_flag_mask i n r \<and>
     (ns \<noteq> [] \<longrightarrow> pt (i + n) AND 0xFFFFF000 \<noteq> run_frame r + of_nat n * PAGE_SIZE \<or> pt (i + n) AND group_flag_mask \<noteq> run_flags r) \<and>
     runs_of pt group_flag_mask (i + n) ns rs)"

definition access_text :: "u32 \<Rightarrow> part list" where
  "access_text flags =
    [Lit (if flags AND PTE_P \<noteq> 0 then '' P '' else ''NP ''), Lit (if flags AND PTE_RW \<noteq> 0 then ''RW '' else ''RO ''),
     Lit (if flags AND PTE_US \<noteq> 0 then ''U  '' else '' S ''), Lit (if flags AND PTE_A \<noteq> 0 then ''A '' else ''  ''),
     Lit (if flags AND PTE_D \<noteq> 0 then ''D '' else ''  ''), Lit ''|\<newline>'']"

definition rows_text :: "(page_run \<Rightarrow> part list) \<Rightarrow> u32 \<Rightarrow> page_run list \<Rightarrow> u8 list" where
  "rows_text row output_flag_mask rs =
     const_bytes (concat (map (\<lambda>r. row r @ access_text (run_flags r)) (filter (\<lambda>r. run_flags r AND output_flag_mask \<noteq> 0) rs)))"

lemma const_bytes_append:
  "\<lbrakk>list_all constant_part ps; list_all constant_part qs\<rbrakk> \<Longrightarrow> const_bytes (ps @ qs) = const_bytes ps @ const_bytes qs"
  using message_constant [of "ps @ qs" "\<lambda>_. 0"] message_constant [of ps "\<lambda>_. 0"] message_constant [of qs "\<lambda>_. 0"]
  by (simp add: message_append)

text \<open>Printing constant messages one after another.\<close>

lemma m_kprint_then:
  assumes "tty_ok (con_tty (mc_con m))" and "\<And>n. uart n AND UART_THRE \<noteq> 0" and "list_all constant_part ps"
    and "\<And>m1. \<lbrakk>mc_printed (const_bytes ps) m m1; tty_ok (con_tty (mc_con m1))\<rbrakk> \<Longrightarrow> \<exists>m'. f m1 = Some m' \<and> mc_printed out m1 m'"
  shows "\<exists>m'. m_kprint uart ps m \<bind> f = Some m' \<and> mc_printed (const_bytes ps @ out) m m'"
proof -
  obtain m1 where m1: "m_kprint uart ps m = Some m1" "mc_printed (const_bytes ps) m m1"
    using m_kprint_constant [where uart = uart, OF assms(1-3)] by blast
  from assms(4) [OF m1(2) mc_printed_facts(1) [OF m1(2)]] obtain m' where "f m1 = Some m'" "mc_printed out m1 m'" by blast
  then show ?thesis using m1(1) mc_printed_trans [OF m1(2)] by auto
qed

lemma print_access_printed:
  assumes "tty_ok (con_tty (mc_con m))" and "\<And>n. uart n AND UART_THRE \<noteq> 0"
  shows "\<exists>m'. print_access uart flags m = Some m' \<and> mc_printed (const_bytes (access_text flags)) m m'"
proof -
  have split: "const_bytes (access_text flags) =
      const_bytes [Lit (if flags AND PTE_P \<noteq> 0 then '' P '' else ''NP '')] @
      const_bytes [Lit (if flags AND PTE_RW \<noteq> 0 then ''RW '' else ''RO '')] @
      const_bytes [Lit (if flags AND PTE_US \<noteq> 0 then ''U  '' else '' S '')] @
      const_bytes [Lit (if flags AND PTE_A \<noteq> 0 then ''A '' else ''  '')] @
      const_bytes [Lit (if flags AND PTE_D \<noteq> 0 then ''D '' else ''  '')] @ const_bytes [Lit ''|\<newline>'']"
    unfolding access_text_def by (simp flip: const_bytes_append)
  show ?thesis
    unfolding print_access_def split
    by (intro m_kprint_then [where uart = uart] m_kprint_constant [where uart = uart] assms) simp_all
qed

lemma access_text_constant [simp]: "list_all constant_part (access_text flags)"
  by (simp add: access_text_def)

definition constant_rows :: "(page_run \<Rightarrow> part list) \<Rightarrow> bool" where
  "constant_rows row \<longleftrightarrow> (\<forall>r. list_all constant_part (row r))"

lemma constant_rows [simp]: "constant_rows directory_row" "constant_rows table_row"
  by (simp_all add: constant_rows_def directory_row_def table_row_def)

lemma rows_text_simps [simp]:
  "rows_text row om [] = []"
  "constant_rows row \<Longrightarrow> rows_text row om (r # rs) =
    (if run_flags r AND om \<noteq> 0 then const_bytes (row r) @ const_bytes (access_text (run_flags r)) else []) @ rows_text row om rs"
proof -
  show "rows_text row om [] = []" by (simp add: rows_text_def const_bytes_def)
  assume row: "constant_rows row"
  then have "list_all constant_part (concat (map (\<lambda>r. row r @ access_text (run_flags r)) rs'))" for rs'
    by (induction rs') (simp_all add: constant_rows_def)
  then show "rows_text row om (r # rs) =
      (if run_flags r AND om \<noteq> 0 then const_bytes (row r) @ const_bytes (access_text (run_flags r)) else []) @ rows_text row om rs"
    using row by (simp add: rows_text_def const_bytes_append constant_rows_def)
qed

lemma print_run_printed:
  assumes "tty_ok (con_tty (mc_con m))" and "\<And>n. uart n AND UART_THRE \<noteq> 0" and "constant_rows row"
  shows "\<exists>m'. print_run uart row om r m = Some m' \<and> mc_printed (rows_text row om [r]) m m'"
proof (cases "run_flags r AND om = 0")
  case True
  then show ?thesis using printed_refl [OF assms(1)] assms(3) by (simp add: print_run_def mc_printed_def)
next
  case False
  then show ?thesis
    using m_kprint_then [where uart = uart and f = "print_access uart (run_flags r)" and out = "const_bytes (access_text (run_flags r))",
        OF assms(1,2) _ print_access_printed [where uart = uart, OF _ assms(2)]] assms(3)
    by (simp add: print_run_def constant_rows_def)
qed

lemma print_runs_loop_rows:
  assumes uart: "\<And>n. uart n AND UART_THRE \<noteq> 0" and row: "constant_rows row"
  shows "\<lbrakk>tty_ok (con_tty (mc_con m)); run_ok pt gm s c r; 0 < c\<rbrakk> \<Longrightarrow>
    \<exists>ns rs r' m'. print_runs_loop n (print_run uart row om) pt gm (s + c) r m = Some (r', m') \<and> sum_list ns = c + n \<and>
      runs_of pt gm s ns (rs @ [r']) \<and> mc_printed (rows_text row om rs) m m'"
proof (induction n arbitrary: s c r m)
  case 0
  then show ?case using printed_refl [OF 0(1)]
    by (intro exI [of _ "[c]"] exI [of _ "[]"] exI [of _ r] exI [of _ m]) (simp add: mc_printed_def)
next
  case (Suc n)
  define frame flags where "frame = pt (s + c) AND 0xFFFFF000" and "flags = pt (s + c) AND gm"
  show ?case
  proof (cases "run_frame r + run_count r * PAGE_SIZE = frame \<and> run_flags r = flags")
    case True
    have "run_ok pt gm s (c + 1) (r\<lparr>run_count := run_count r + 1\<rparr>)"
      using Suc.prems(2) True by (auto simp: run_ok_def frame_def flags_def less_Suc_eq)
    from Suc.IH [OF Suc.prems(1) this] show ?thesis using True by (simp add: frame_def flags_def add.assoc)
  next
    case False
    define r1 where "r1 = \<lparr>run_index = of_nat (s + c), run_virt = run_virt r + run_count r * PAGE_SIZE, run_frame = frame,
      run_flags = flags, run_count = 1\<rparr>"
    obtain m1 where m1: "print_run uart row om r m = Some m1" "mc_printed (rows_text row om [r]) m m1"
      using print_run_printed [where uart = uart, OF Suc.prems(1) uart row] by blast
    have "run_ok pt gm (s + c) 1 r1"
      using Suc.prems(2) by (simp add: run_ok_def r1_def frame_def flags_def algebra_simps)
    from Suc.IH [OF mc_printed_facts(1) [OF m1(2)] this] obtain ns rs r' m' where
      IH: "print_runs_loop n (print_run uart row om) pt gm (s + c + 1) r1 m1 = Some (r', m')" "sum_list ns = 1 + n"
      "runs_of pt gm (s + c) ns (rs @ [r'])" "mc_printed (rows_text row om rs) m1 m'" by auto
    have "print_runs_loop (Suc n) (print_run uart row om) pt gm (s + c) r m = Some (r', m')"
      using False m1(1) IH(1) by (auto simp: frame_def flags_def r1_def Let_def)
    moreover have "runs_of pt gm s (c # ns) (r # rs @ [r'])"
      using Suc.prems(2,3) IH(3) False by (auto simp: run_ok_def frame_def flags_def)
    moreover have "mc_printed (rows_text row om (r # rs)) m m'" using mc_printed_trans [OF m1(2) IH(4)] row by simp
    ultimately show ?thesis using IH(2) by (intro exI [of _ "c # ns"] exI [of _ "r # rs"] exI [of _ r'] exI [of _ m']) simp
  qed
qed

lemma rows_text_snoc: "constant_rows row \<Longrightarrow> rows_text row om (rs @ [r]) = rows_text row om rs @ rows_text row om [r]"
  by (induction rs) simp_all

lemma print_runs_rows:
  assumes "tty_ok (con_tty (mc_con m))" and "\<And>n. uart n AND UART_THRE \<noteq> 0" and "constant_rows row" and "0 < n"
  shows "\<exists>m' ns rs. print_runs uart row n pt gm om m = Some m' \<and> sum_list ns = n \<and> runs_of pt gm 0 ns rs \<and>
    mc_printed (rows_text row om rs @ const_bytes [Lit ''\<newline>'']) m m'"
proof -
  obtain k where n: "n = Suc k" using assms(4) by (cases n) auto
  define start where "start = \<lparr>run_index = 0, run_virt = 0, run_frame = pt 0 AND 0xFFFFF000, run_flags = pt 0 AND gm, run_count = 0\<rparr>"
  have "run_ok pt gm 0 1 (start\<lparr>run_count := 1\<rparr>)" by (simp add: run_ok_def start_def)
  from print_runs_loop_rows [where uart = uart and n = k and om = om, OF assms(2,3,1) this]
  obtain ns rs r m1 where l: "print_runs_loop k (print_run uart row om) pt gm 1 (start\<lparr>run_count := 1\<rparr>) m = Some (r, m1)"
    "sum_list ns = n" "runs_of pt gm 0 ns (rs @ [r])" "mc_printed (rows_text row om rs) m m1" using n by auto
  have first: "print_runs_loop n (print_run uart row om) pt gm 0 start m = Some (r, m1)" using l(1) n by (simp add: start_def)
  obtain m2 where m2: "print_run uart row om r m1 = Some m2" "mc_printed (rows_text row om [r]) m1 m2"
    using print_run_printed [where uart = uart, OF mc_printed_facts(1) [OF l(4)] assms(2,3)] by blast
  obtain m3 where m3: "m_kprint uart [Lit ''\<newline>''] m2 = Some m3" "mc_printed (const_bytes [Lit ''\<newline>'']) m2 m3"
    using m_kprint_constant [where uart = uart, OF mc_printed_facts(1) [OF m2(2)] assms(2), of "[Lit ''\<newline>'']"] by auto
  have "print_runs uart row n pt gm om m = Some m3" using first m2(1) m3(1) by (simp add: print_runs_def start_def)
  moreover have "mc_printed (rows_text row om (rs @ [r]) @ const_bytes [Lit ''\<newline>'']) m m3"
    using mc_printed_trans [OF mc_printed_trans [OF l(4) m2(2)] m3(2)] assms(3) by (simp add: rows_text_snoc)
  ultimately show ?thesis using l(2,3) by blast
qed

text \<open>
  C39: the listing of the page tables is complete. The rows of both lists partition the 1024 entries of the
  directory and the 1048576 entries of the tables, in order, into the longest runs of entries with equal flags and
  consecutive frames; a row shows the index, the virtual address, the frame and the length of its run; exactly the
  runs that are present are printed, and nothing but the screen and the serial line changes.
\<close>

theorem print_paging_complete:
  assumes "tty_ok (con_tty (mc_con m))" and "\<And>n. uart n AND UART_THRE \<noteq> 0"
  shows "\<exists>m' ds dirs ts tables. print_paging uart m = Some m' \<and>
    sum_list ds = 1024 \<and> runs_of (pg_pd (mc_paging m)) 7 0 ds dirs \<and>
    sum_list ts = 1048576 \<and> runs_of (pg_pt (mc_paging m)) 7 0 ts tables \<and>
    mc_printed ((const_bytes [Lit ''Page directory:\<newline>| index | frame      | count | access |\<newline>''] @
        rows_text directory_row 1 dirs @ const_bytes [Lit ''\<newline>'']) @
      const_bytes [Lit ''Page tables:\<newline>|  index  | virt       | frame      | count | access      |\<newline>''] @
        rows_text table_row 1 tables @ const_bytes [Lit ''\<newline>'']) m m'"
proof -
  have flags: "PTE_P OR PTE_RW OR PTE_US = 7" "PTE_P = 1" by (simp_all add: PTE_P_def PTE_RW_def PTE_US_def)
  then have p: "1 OR PTE_RW OR PTE_US = 7" by simp
  obtain m1 where m1: "m_kprint uart [Lit ''Page directory:\<newline>| index | frame      | count | access |\<newline>''] m = Some m1"
    "mc_printed (const_bytes [Lit ''Page directory:\<newline>| index | frame      | count | access |\<newline>'']) m m1"
    using m_kprint_constant [where uart = uart, OF assms, of "[Lit ''Page directory:\<newline>| index | frame      | count | access |\<newline>'']"]
    by auto
  obtain m2 ds dirs where m2: "print_runs uart directory_row 1024 (pg_pd (mc_paging m)) 7 1 m1 = Some m2" "sum_list ds = 1024"
    "runs_of (pg_pd (mc_paging m)) 7 0 ds dirs" "mc_printed (rows_text directory_row 1 dirs @ const_bytes [Lit ''\<newline>'']) m1 m2"
    using print_runs_rows [where uart = uart and row = directory_row and n = 1024 and pt = "pg_pd (mc_paging m)" and gm = 7 and om = 1,
        OF mc_printed_facts(1) [OF m1(2)] assms(2)] by auto
  obtain m3 where m3: "m_kprint uart [Lit ''Page tables:\<newline>|  index  | virt       | frame      | count | access      |\<newline>''] m2 = Some m3"
    "mc_printed (const_bytes [Lit ''Page tables:\<newline>|  index  | virt       | frame      | count | access      |\<newline>'']) m2 m3"
    using m_kprint_constant [where uart = uart, OF mc_printed_facts(1) [OF m2(4)] assms(2),
        of "[Lit ''Page tables:\<newline>|  index  | virt       | frame      | count | access      |\<newline>'']"] by auto
  have pg: "mc_paging m2 = mc_paging m" using mc_printed_facts(2) [OF m1(2)] mc_printed_facts(2) [OF m2(4)] by simp
  obtain m4 ts tables where m4: "print_runs uart table_row (1024 * 1024) (pg_pt (mc_paging m)) 7 1 m3 = Some m4" "sum_list ts = 1024 * 1024"
    "runs_of (pg_pt (mc_paging m)) 7 0 ts tables" "mc_printed (rows_text table_row 1 tables @ const_bytes [Lit ''\<newline>'']) m3 m4"
    using print_runs_rows [where uart = uart and row = table_row and n = "1024 * 1024" and pt = "pg_pt (mc_paging m)" and gm = 7 and om = 1,
        OF mc_printed_facts(1) [OF m3(2)] assms(2)] by auto
  have "print_paging uart m = Some m4"
    unfolding print_paging_def print_page_directory_def print_page_tables_def flags
    by (simp only: flags p m1(1) m2(1) m3(1) m4(1) pg Option.bind.simps)
  with m2(2,3) m4(2,3) mc_printed_trans [OF mc_printed_trans [OF m1(2) m2(4)] mc_printed_trans [OF m3(2) m4(4)]] show ?thesis
    by (intro exI [of _ m4] exI [of _ ds] exI [of _ dirs] exI [of _ ts] exI [of _ tables]) simp
qed

theorem print_paging_complete_witness:
  "\<exists>m' ds dirs. print_paging (\<lambda>_. 0x20) sample_machine = Some m' \<and> sum_list ds = 1024 \<and>
     runs_of (pg_pd (mc_paging sample_machine)) 7 0 ds dirs"
  using print_paging_complete [where uart = "\<lambda>_. 0x20", OF sample_facts(1)] by (auto simp: UART_THRE_def)

end
