(* ===== verification/Proctest.thy ===== *)
theory Proctest
  imports Exceptions_Correct
begin

text \<open>
  \<^verbatim>\<open>src/shell/proctest.c\<close>: fourteen kernel processes that race a letter along a row of the screen. \<^verbatim>\<open>proc_race\<close>
  never returns; its model is the effect of a number of turns of its loop. The waiting between two steps
  (\<^verbatim>\<open>haltwait\<close>) has no effect on the state.
\<close>

section \<open>Racing\<close>

text \<open>The column and the direction (true: to the left).\<close>

definition race_step :: "u32 \<times> bool \<Rightarrow> u32 \<times> bool" where
  "race_step r = (case r of (x, j) \<Rightarrow>
    (if j then (if 0 < x then (x - 1, j) else (x, False))
     else (if x < VGA_WIDTH - 1 then (x + 1, j) else (x, True))))"

definition race_turn :: "u8 \<Rightarrow> u8 \<Rightarrow> u32 \<Rightarrow> (u32 \<times> bool) \<times> tty \<Rightarrow> (u32 \<times> bool) \<times> tty" where
  "race_turn ch col y st = (case st of (r, t) \<Rightarrow>
    (let t = tty_pute ch col (fst r) y t;
         t = tty_pute 0x20 col (fst r) y t
     in (race_step r, t)))"

definition proc_race :: "nat \<Rightarrow> u8 \<Rightarrow> u8 \<Rightarrow> u32 \<Rightarrow> u32 \<Rightarrow> tty \<Rightarrow> (u32 \<times> bool) \<times> tty" where
  "proc_race turns ch col sx sy t = (race_turn ch col sy ^^ turns) ((sx, False), t)"

definition proc_a :: "nat \<Rightarrow> tty \<Rightarrow> (u32 \<times> bool) \<times> tty" where "proc_a n = proc_race n 0x41 1 0 4"
definition proc_b :: "nat \<Rightarrow> tty \<Rightarrow> (u32 \<times> bool) \<times> tty" where "proc_b n = proc_race n 0x42 2 0 5"
definition proc_c :: "nat \<Rightarrow> tty \<Rightarrow> (u32 \<times> bool) \<times> tty" where "proc_c n = proc_race n 0x43 3 0 6"
definition proc_d :: "nat \<Rightarrow> tty \<Rightarrow> (u32 \<times> bool) \<times> tty" where "proc_d n = proc_race n 0x44 4 0 7"
definition proc_e :: "nat \<Rightarrow> tty \<Rightarrow> (u32 \<times> bool) \<times> tty" where "proc_e n = proc_race n 0x45 5 0 8"
definition proc_f :: "nat \<Rightarrow> tty \<Rightarrow> (u32 \<times> bool) \<times> tty" where "proc_f n = proc_race n 0x46 6 0 9"
definition proc_g :: "nat \<Rightarrow> tty \<Rightarrow> (u32 \<times> bool) \<times> tty" where "proc_g n = proc_race n 0x47 9 0 10"
definition proc_h :: "nat \<Rightarrow> tty \<Rightarrow> (u32 \<times> bool) \<times> tty" where "proc_h n = proc_race n 0x48 10 0 11"
definition proc_i :: "nat \<Rightarrow> tty \<Rightarrow> (u32 \<times> bool) \<times> tty" where "proc_i n = proc_race n 0x49 11 0 12"
definition proc_j :: "nat \<Rightarrow> tty \<Rightarrow> (u32 \<times> bool) \<times> tty" where "proc_j n = proc_race n 0x4A 12 0 13"
definition proc_k :: "nat \<Rightarrow> tty \<Rightarrow> (u32 \<times> bool) \<times> tty" where "proc_k n = proc_race n 0x4B 13 0 14"
definition proc_l :: "nat \<Rightarrow> tty \<Rightarrow> (u32 \<times> bool) \<times> tty" where "proc_l n = proc_race n 0x4C 14 0 15"
definition proc_m :: "nat \<Rightarrow> tty \<Rightarrow> (u32 \<times> bool) \<times> tty" where "proc_m n = proc_race n 0x4D 15 0 16"
definition proc_n :: "nat \<Rightarrow> tty \<Rightarrow> (u32 \<times> bool) \<times> tty" where "proc_n n = proc_race n 0x4E 8 0 17"

section \<open>Starting the processes\<close>

text \<open>
  The messages of \<^verbatim>\<open>proctest\<close>. The addresses of the names and of the entry points are arguments, in the
  order of the calls.
\<close>

definition proctest_messages :: "string list" where
  "proctest_messages =
    [''Starting proc_a...\<newline>'', ''Starting proc_b...\<newline>'', ''Starting proc_c...\<newline>'', ''Starting proc_d...\<newline>'',
     ''Starting proc_e..\<newline>'', ''Starting proc_f...\<newline>'', ''Starting proc_g...\<newline>'', ''Starting proc_h...\<newline>'',
     ''Starting proc_i...\<newline>'', ''Starting proc_j...\<newline>'', ''Starting proc_k...\<newline>'', ''Starting proc_l...\<newline>'',
     ''Starting proc_m...\<newline>'', ''Starting proc_n...\<newline>'']"

definition m_load_kprocess :: "u32 \<Rightarrow> u32 \<Rightarrow> machine \<Rightarrow> (u32 \<times> machine) option" where
  "m_load_kprocess path entry m = do {
     (proc, k) \<leftarrow> scheduler_load_kprocess path entry (mc_kernel m);
     Some (proc, m\<lparr>mc_kernel := k\<rparr>) }"

primrec start_processes :: "(nat \<Rightarrow> u8) \<Rightarrow> (string \<times> u32 \<times> u32) list \<Rightarrow> machine \<Rightarrow> machine option" where
  "start_processes uart [] m = Some m"
| "start_processes uart (p # ps) m = (case p of (msg, path, entry) \<Rightarrow> do {
     m \<leftarrow> m_kprint uart [Lit msg] m;
     (_, m) \<leftarrow> m_load_kprocess path entry m;
     start_processes uart ps m })"

definition proctest :: "(nat \<Rightarrow> u8) \<Rightarrow> (nat \<Rightarrow> u32) \<Rightarrow> (nat \<Rightarrow> u32) \<Rightarrow> machine \<Rightarrow> machine option" where
  "proctest uart paths entries m =
     start_processes uart (zip proctest_messages (map (\<lambda>i. (paths i, entries i)) [0 ..< 14])) m"

section \<open>The race stays on its row\<close>

text \<open>The column after a number of turns: to the right edge and back, with one turn of rest at each edge.\<close>

definition race_column :: "nat \<Rightarrow> nat" where
  "race_column n = (if n mod 160 < 80 then n mod 160 else 159 - n mod 160)"

lemma race_column_bound: "race_column n < 80"
  by (auto simp: race_column_def)

lemma race_step_column:
  "race_step (of_nat (race_column n), 80 \<le> n mod 160) = (of_nat (race_column (Suc n)), 80 \<le> Suc n mod 160)"
proof -
  define q where "q = n mod 160"
  have q: "q < 160" "Suc n mod 160 = (if q = 159 then 0 else Suc q)" by (auto simp: q_def mod_Suc)
  consider "q < 79" | "q = 79" | "80 \<le> q" "q < 159" | "q = 159" using q(1) by linarith
  then show ?thesis
  proof cases
    case 1
    then have "of_nat q < (79 :: u32)" by (simp add: word_less_nat_alt unat_of_nat_u32)
    then show ?thesis using 1 by (simp add: race_step_def race_column_def q q_def [symmetric] VGA_WIDTH_def add.commute)
  next
    case 3
    then have "unat (of_nat (159 - q) :: u32) = 159 - q" by (intro unat_of_nat_u32) simp
    then have "0 < (of_nat (159 - q) :: u32)" "(of_nat (159 - q) :: u32) - 1 = of_nat (158 - q)"
      using 3 by (simp_all add: word_less_nat_alt del: of_nat_diff) (simp_all add: of_nat_diff)
    then show ?thesis using 3 by (simp add: race_step_def race_column_def q q_def [symmetric])
  qed (simp_all add: race_step_def race_column_def q q_def [symmetric] VGA_WIDTH_def)
qed

text \<open>The row after a number of turns: every column that the letter has left is blank.\<close>

definition race_row :: "nat \<Rightarrow> u8 \<Rightarrow> (nat \<Rightarrow> u16) \<Rightarrow> nat \<Rightarrow> u16" where
  "race_row n col row = (\<lambda>x. if x < 80 \<and> x < n then vga_entry 0x20 col else row x)"

lemma race_row_Suc: "(race_row n col row)(race_column n := vga_entry 0x20 col) = race_row (Suc n) col row"
proof -
  have "race_column n = n" if "n < 80" using that by (simp add: race_column_def)
  then show ?thesis by (cases "n < 80") (auto simp: race_row_def race_column_bound fun_eq_iff less_Suc_eq)
qed

lemma race_turn_screen:
  assumes "unat x < 80" and "unat y < 25" and "race_turn ch col y ((x, j), t) = (r, t')"
  shows "r = race_step (x, j) \<and> only_screen (tty_memory t) (tty_memory t') \<and>
    screen_of t' = put_cell (unat x) (unat y) (vga_entry 0x20 col) (screen_of t)"
proof -
  define k where "k = (of_nat (80 * unat y + unat x) :: u32)"
  have t': "r = race_step (x, j)" "t' = vga_store k (vga_entry 0x20 col) (vga_store k (vga_entry ch col) t)"
    using assms(3) by (simp_all add: race_turn_def tty_pute_store [OF assms(1,2)] k_def)
  moreover have "only_screen (tty_memory t) (tty_memory t')"
    unfolding t' k_def by (rule only_screen_trans [OF only_screen_store only_screen_store]) (use assms in simp_all)
  moreover have "vga_cell (tty_memory t') = (vga_cell (tty_memory t))(unat y := (vga_cell (tty_memory t) (unat y))(unat x := vga_entry 0x20 col))"
    unfolding t' k_def by (simp only: vga_cell_store [OF assms(1,2)] fun_upd_upd fun_upd_same)
  ultimately show ?thesis by (simp add: screen_of_def put_cell_def)
qed

text \<open>
  a racing process keeps its letter on its own row for ever: after any number of turns the letter is at the
  column of a back and forth motion between the edges of the screen, the columns it has left are blank, every other
  cell and the position and colour of the terminal are as before, and nothing outside the VGA buffer is written.
\<close>

theorem proc_race_stays:
  assumes "unat sy < 25"
  shows "\<exists>t'. proc_race n ch col 0 sy t = ((of_nat (race_column n), 80 \<le> n mod 160), t') \<and>
    only_screen (tty_memory t) (tty_memory t') \<and>
    screen_of t' = (screen_of t)\<lparr>cells := (cells (screen_of t))(unat sy := race_row n col (cells (screen_of t) (unat sy)))\<rparr>"
proof (induction n)
  case 0
  have "race_row 0 col row = row" for row by (simp add: race_row_def)
  then show ?case by (simp add: proc_race_def race_column_def)
next
  case (Suc n)
  then obtain t1 where t1: "proc_race n ch col 0 sy t = ((of_nat (race_column n), 80 \<le> n mod 160), t1)"
    "only_screen (tty_memory t) (tty_memory t1)"
    "screen_of t1 = (screen_of t)\<lparr>cells := (cells (screen_of t))(unat sy := race_row n col (cells (screen_of t) (unat sy)))\<rparr>" by blast
  obtain r t' where t': "race_turn ch col sy ((of_nat (race_column n), 80 \<le> n mod 160), t1) = (r, t')" by fastforce
  have u: "unat (of_nat (race_column n) :: u32) = race_column n" using race_column_bound [of n] by (simp add: unat_of_nat_u32)
  then have "unat (of_nat (race_column n) :: u32) < 80" using race_column_bound by simp
  from race_turn_screen [OF this assms t'] have
    "r = (of_nat (race_column (Suc n)), 80 \<le> Suc n mod 160)" "only_screen (tty_memory t1) (tty_memory t')"
    "screen_of t' = put_cell (race_column n) (unat sy) (vga_entry 0x20 col) (screen_of t1)"
    by (simp_all only: race_step_column u)
  moreover have "proc_race (Suc n) ch col 0 sy t = (r, t')" using t1(1) t' by (simp add: proc_race_def)
  moreover have "put_cell (race_column n) (unat sy) (vga_entry 0x20 col) (screen_of t1) =
      (screen_of t)\<lparr>cells := (cells (screen_of t))(unat sy := race_row (Suc n) col (cells (screen_of t) (unat sy)))\<rparr>"
    by (simp add: t1(3) put_cell_def race_row_Suc)
  ultimately show ?case using only_screen_trans [OF t1(2)] by metis
qed

theorem proc_race_stays_witness:
  "\<exists>t'. proc_n 200 (con_tty sample_console) = ((40, False), t') \<and>
     cells (screen_of t') 17 79 = vga_entry 0x20 8 \<and> cells (screen_of t') 18 = cells (screen_of (con_tty sample_console)) 18"
  using proc_race_stays [of 17 200 "0x4E" 8 "con_tty sample_console"]
  by (auto simp: proc_n_def race_column_def race_row_def)

end
