(* ===== verification/Shell.thy ===== *)
theory Shell
  imports Shell_Pages Proctest
begin

text \<open>
  \<^verbatim>\<open>src/shell/shell.c\<close>: the kernel shell. The local arrays \<^verbatim>\<open>buffer\<close>, \<^verbatim>\<open>cmd\<close> and \<^verbatim>\<open>args\<close> are in memory, so that an
  index outside an array reaches what lies beside it; their addresses and those of the command names are
  part of the environment, as are the bytes that the devices provide: \<open>se_irq n\<close> are the bytes for which the
  keyboard interrupts before the n-th poll of a loop that waits. \<^verbatim>\<open>char\<close> is signed on the target.

  The shell never returns. Its model is one turn of its loop (\<open>kshell_turn\<close>), on the index and the position of the
  prompt. A command that does not return is \<open>None\<close>.
\<close>

section \<open>Environment\<close>

record shell_env =
  se_uart :: "nat \<Rightarrow> u8"
  se_beyond :: "u32 \<Rightarrow> u8"
  se_irq :: "nat \<Rightarrow> u8 list"
  se_buffer :: u32
  se_cmd :: u32
  se_args :: u32
  se_names :: "nat \<Rightarrow> u32"
  se_paths :: "nat \<Rightarrow> u32"
  se_entries :: "nat \<Rightarrow> u32"

definition sh_print :: "shell_env \<Rightarrow> part list \<Rightarrow> machine \<Rightarrow> machine option" where
  "sh_print env = m_kprint (se_uart env)"

definition on_con :: "(console \<Rightarrow> console) \<Rightarrow> machine \<Rightarrow> machine" where
  "on_con f m = m\<lparr>mc_con := f (mc_con m)\<rparr>"

definition on_tty :: "(tty \<Rightarrow> tty) \<Rightarrow> machine \<Rightarrow> machine" where
  "on_tty f m = on_con (\<lambda>con. con\<lparr>con_tty := f (con_tty con)\<rparr>) m"

definition mc_memory :: "machine \<Rightarrow> memory" where
  "mc_memory m = con_memory (mc_con m)"

definition store_byte :: "u32 \<Rightarrow> u8 \<Rightarrow> machine \<Rightarrow> machine" where
  "store_byte a v m = set_memory ((mc_memory m)(a := v)) m"

definition sh_serial_write :: "shell_env \<Rightarrow> u8 \<Rightarrow> machine \<Rightarrow> machine" where
  "sh_serial_write env b m = on_con (serial_output (se_uart env) b) m"

text \<open>The interrupts before a poll.\<close>

definition keyboard_interrupts :: "u8 list \<Rightarrow> machine \<Rightarrow> machine" where
  "keyboard_interrupts als m = on_con (\<lambda>con. con\<lparr>con_keyboard := fold ps2_int_handler als (con_keyboard con)\<rparr>) m"

text \<open>\<^verbatim>\<open>sc\<close> and \<^verbatim>\<open>ch\<close> as the loops of \<^verbatim>\<open>kshell\<close> and \<^verbatim>\<open>print_input\<close> read them.\<close>

definition read_input :: "shell_env \<Rightarrow> machine \<Rightarrow> u8 \<times> u8 \<times> machine" where
  "read_input env m =
    (let (code, k) = ps2_getscancode (con_keyboard (mc_con m));
         m = on_con (\<lambda>con. con\<lparr>con_keyboard := k\<rparr>) m;
         sc = ucast code in
     if sc \<noteq> ucast EOF then (sc, ucast (ps2_sc2ch (se_beyond env) (scast sc)), m)
     else
       let (ch, s) = serial_read (se_uart env) (con_serial (mc_con m))
       in (sc, ucast ch, on_con (\<lambda>con. con\<lparr>con_serial := s\<rparr>) m))"

section \<open>Commands\<close>

definition print_memory_stats :: "shell_env \<Rightarrow> int \<Rightarrow> machine \<Rightarrow> machine option" where
  "print_memory_stats env c m = (
     let p = fst (snd (k_mm (mc_kernel m)));
         pm_usable = pmm_get_usable p;
         pm_used = pmm_get_used p;
         pm_free = pmm_get_free p in do {
     m \<leftarrow> sh_print env [Lit ''\<newline>       |    Physical Memory |\<newline>''] m;
     if c = 0 then do {
       m \<leftarrow> sh_print env [Lit ''usable | '', Dec False 12 pm_usable, Lit '' pages |\<newline>''] m;
       m \<leftarrow> sh_print env [Lit ''used   | '', Dec False 12 pm_used, Lit '' pages |\<newline>''] m;
       sh_print env [Lit ''free   | '', Dec False 12 pm_free, Lit '' pages |\<newline>''] m }
     else if c = 1 then do {
       m \<leftarrow> sh_print env [Lit ''usable | '', Dec False 15 (TO_ADDR pm_usable div 1024), Lit '' kb |\<newline>''] m;
       m \<leftarrow> sh_print env [Lit ''used   | '', Dec False 15 (TO_ADDR pm_used div 1024), Lit '' kb |\<newline>''] m;
       sh_print env [Lit ''free   | '', Dec False 15 (TO_ADDR pm_free div 1024), Lit '' kb |\<newline>''] m }
     else Some m })"

definition print_input_turn :: "shell_env \<Rightarrow> u32 \<Rightarrow> u32 \<Rightarrow> machine \<Rightarrow> machine option" where
  "print_input_turn env x y m = (
     let (sc, ch, m) = read_input env m;
         m = on_tty (tty_set_position x y) m in do {
     m \<leftarrow> (if sc \<noteq> ucast EOF then sh_print env [Hex True 2 (scast sc), Lit '' ''] m else Some m);
     let m = on_tty (tty_set_position (x + 3) y) m in
     if ch \<noteq> ucast EOF then sh_print env [Lit ''('', Hex True 2 (scast ch), Lit '')\<newline>''] m else Some m })"

partial_function (option) print_input_loop :: "shell_env \<Rightarrow> nat \<Rightarrow> u32 \<times> u32 \<Rightarrow> machine \<Rightarrow> machine option" where
  "print_input_loop env n pos m = do {
     m \<leftarrow> print_input_turn env (fst pos) (snd pos) (keyboard_interrupts (se_irq env n) m);
     print_input_loop env (n + 1) pos m }"

definition print_input :: "shell_env \<Rightarrow> machine \<Rightarrow> machine option" where
  "print_input env m = print_input_loop env 0 (tty_get_position (con_tty (mc_con m))) m"

text \<open>\<^verbatim>\<open>while (getchar() == EOF);\<close>\<close>

partial_function (option) wait_key :: "shell_env \<Rightarrow> nat \<Rightarrow> machine \<Rightarrow> machine option" where
  "wait_key env n m = (
     let (ch, con) = getchar (se_uart env) (se_beyond env) (mc_con (keyboard_interrupts (se_irq env n) m));
         m = m\<lparr>mc_con := con\<rparr>
     in if ch = EOF then wait_key env (n + 1) m else Some m)"

text \<open>The loops over \<^verbatim>\<open>ptrs\<close>, of which the first ends at a failure; the array is 0 behind the result.\<close>

primrec alloc_all :: "nat \<Rightarrow> machine \<Rightarrow> (u32 list \<times> machine) option" where
  "alloc_all 0 m = Some ([], m)"
| "alloc_all (Suc n) m = do {
     (ptr, k) \<leftarrow> k_malloc 0x40000 (mc_kernel m);
     let m = m\<lparr>mc_kernel := k\<rparr> in
     if ptr \<noteq> 0 then do {
       (ptrs, m) \<leftarrow> alloc_all n (set_memory (snd (memset ptr 0 0x40000 (mc_memory m))) m);
       Some (ptr # ptrs, m) }
     else Some ([], m) }"

primrec free_all :: "u32 list \<Rightarrow> machine \<Rightarrow> machine option" where
  "free_all [] m = Some m"
| "free_all (ptr # ptrs) m = do { k \<leftarrow> k_free ptr (mc_kernel m); free_all ptrs (m\<lparr>mc_kernel := k\<rparr>) }"

definition alloctest :: "string \<Rightarrow> shell_env \<Rightarrow> machine \<Rightarrow> machine option" where
  "alloctest kind env m = do {
     m \<leftarrow> print_memory_stats env 0 m;
     m \<leftarrow> sh_print env [Lit (''press any key to allocate all '' @ kind @ '' memory\<newline>'')] m;
     m \<leftarrow> wait_key env 0 m;
     m \<leftarrow> sh_print env [Lit ''allocating....\<newline>''] m;
     (ptrs, m) \<leftarrow> alloc_all 8192 m;
     m \<leftarrow> print_memory_stats env 0 m;
     m \<leftarrow> sh_print env [Lit (''press any key to free all '' @ kind @ '' memory\<newline>'')] m;
     m \<leftarrow> wait_key env 0 m;
     m \<leftarrow> sh_print env [Lit ''freeing....\<newline>''] m;
     m \<leftarrow> free_all (ptrs @ replicate (8192 - length ptrs) 0) m;
     print_memory_stats env 0 m }"

definition alloctestk :: "shell_env \<Rightarrow> machine \<Rightarrow> machine option" where
  "alloctestk = alloctest ''kernel''"

definition alloctestu :: "shell_env \<Rightarrow> machine \<Rightarrow> machine option" where
  "alloctestu = alloctest ''user''"

definition command_names :: "string list" where
  "command_names =
    [''help'', ''cls'', ''echo'', ''mem'', ''ver'', ''inp'', ''reboot'', ''alloctestk'', ''alloctestu'', ''pagetables'',
     ''procls'', ''prockill'', ''procfork'', ''proctest'']"

text \<open>A command returns its status.\<close>

type_synonym command = "shell_env \<Rightarrow> u32 \<Rightarrow> machine \<Rightarrow> (u32 \<times> machine) option"

definition success :: "machine option \<Rightarrow> (u32 \<times> machine) option" where
  "success r = map_option (Pair 0) r"

definition kshell_command_cls :: command where
  "kshell_command_cls env userparam m = Some (0, on_tty tty_clear_screen m)"

partial_function (option) echo_loop :: "u32 \<Rightarrow> machine \<Rightarrow> machine option" where
  "echo_loop s m = (if mc_memory m s = 0 then Some m else echo_loop (s + 1) (on_tty (tty_putc (mc_memory m s)) m))"

definition kshell_command_echo :: command where
  "kshell_command_echo env userparam m = success (echo_loop userparam m)"

definition kshell_command_mem :: command where
  "kshell_command_mem env userparam m = success (do { m \<leftarrow> sh_print env [Lit ''MEMORY\<newline>''] m; print_memory_stats env 0 m })"

definition kshell_command_ver :: command where
  "kshell_command_ver env userparam m = success (sh_print env [Lit ''TOMK v0.1\<newline>KSHELL v0.1\<newline>''] m)"

definition kshell_command_input_print :: command where
  "kshell_command_input_print env userparam m = success (do { m \<leftarrow> sh_print env [Lit ''INPUT PRINT\<newline>''] m; print_input env m })"

text \<open>\<^verbatim>\<open>ps2_cpu_reset\<close> resets the processor and spins: the kernel does not continue.\<close>

definition kshell_command_reboot :: command where
  "kshell_command_reboot env userparam m = success (do { m \<leftarrow> sh_print env [Lit ''REBOOT\<newline>''] m; None })"

definition kshell_command_alloctestk :: command where
  "kshell_command_alloctestk env userparam m = success (do { m \<leftarrow> sh_print env [Lit ''ALLOC TEST\<newline>''] m; alloctestk env m })"

definition kshell_command_alloctestu :: command where
  "kshell_command_alloctestu env userparam m = success (do { m \<leftarrow> sh_print env [Lit ''ALLOC TEST\<newline>''] m; alloctestu env m })"

primrec print_names :: "shell_env \<Rightarrow> string list \<Rightarrow> machine \<Rightarrow> machine option" where
  "print_names env [] m = Some m"
| "print_names env (n # ns) m = do { m \<leftarrow> sh_print env [Lit '' - '', Name n, Lit ''\<newline>''] m; print_names env ns m }"

definition kshell_command_help :: command where
  "kshell_command_help env userparam m =
     success (do { m \<leftarrow> sh_print env [Lit ''Commands:\<newline>''] m; print_names env command_names m })"

definition kshell_command_pagetables :: command where
  "kshell_command_pagetables env userparam m = success (print_paging (se_uart env) m)"

partial_function (option) proc_list_loop :: "shell_env \<Rightarrow> u32 \<Rightarrow> machine \<Rightarrow> machine option" where
  "proc_list_loop env proc m =
    (if proc = 0 then Some m
     else
       let p = k_procs (mc_kernel m) proc in do {
       m \<leftarrow> sh_print env [Lit ''| '', Dec True 3 (pr_id p), Lit '' | '', Str True 20 (pr_path p), Lit '' |\<newline>''] m;
       proc_list_loop env (pr_next p) m })"

definition kshell_command_proc_list :: command where
  "kshell_command_proc_list env userparam m = success (do {
     m \<leftarrow> sh_print env [Lit ''\<newline>| pid | path                 |\<newline>| --- | -------------------- |\<newline>''] m;
     proc_list_loop env (scheduler_head (mc_kernel m)) m })"

text \<open>The loops that search the active list for a process number; 0 when it is not found.\<close>

partial_function (option) find_process :: "(u32 \<Rightarrow> process_t) \<Rightarrow> u32 \<Rightarrow> u32 \<Rightarrow> u32 option" where
  "find_process ps pid proc =
    (if proc = 0 then Some 0 else if pr_id (ps proc) = pid then Some proc else find_process ps pid (pr_next (ps proc)))"

definition kshell_command_proc_kill :: command where
  "kshell_command_proc_kill env userparam m = do {
     (pid, _) \<leftarrow> strtoul (mc_memory m) userparam None 0;
     proc \<leftarrow> find_process (k_procs (mc_kernel m)) pid (scheduler_head (mc_kernel m));
     if proc \<noteq> 0 then do {
       m \<leftarrow> sh_print env [Lit ''Killing process: pid='', Dec False 0 pid, Lit ''\<newline>'']
         (m\<lparr>mc_kernel := scheduler_unload_process proc (mc_kernel m)\<rparr>);
       Some (0, m) }
     else do {
       m \<leftarrow> sh_print env [Lit ''Process not found: pid='', Dec False 0 pid, Lit ''\<newline>''] m;
       Some (1, m) } }"

definition kshell_command_proc_fork :: command where
  "kshell_command_proc_fork env userparam m = do {
     (pid, _) \<leftarrow> strtoul (mc_memory m) userparam None 0;
     proc \<leftarrow> find_process (k_procs (mc_kernel m)) pid (scheduler_head (mc_kernel m));
     if proc \<noteq> 0 then
       let p = k_procs (mc_kernel m) proc in do {
       (_, m) \<leftarrow> m_load_kprocess (pr_path p) (fr_eip (pr_frame p)) m;
       Some (0, m) }
     else Some (1, m) }"

definition kshell_command_proctest :: command where
  "kshell_command_proctest env userparam m = success (proctest (se_uart env) (se_paths env) (se_entries env) m)"

definition kshell_commands :: "command list" where
  "kshell_commands =
    [kshell_command_help, kshell_command_cls, kshell_command_echo, kshell_command_mem, kshell_command_ver,
     kshell_command_input_print, kshell_command_reboot, kshell_command_alloctestk, kshell_command_alloctestu,
     kshell_command_pagetables, kshell_command_proc_list, kshell_command_proc_kill, kshell_command_proc_fork,
     kshell_command_proctest]"

section \<open>The loop\<close>

record kshell =
  sh_i :: u32
  sh_x :: u32
  sh_y :: u32

definition prompt :: "shell_env \<Rightarrow> kshell \<times> machine \<Rightarrow> (kshell \<times> machine) option" where
  "prompt env st = (case st of (sh, m) \<Rightarrow> do {
     m \<leftarrow> sh_print env [Lit ''\<newline>>''] m;
     let (x, y) = tty_get_position (con_tty (mc_con m)) in
     Some (sh\<lparr>sh_x := x, sh_y := y\<rparr>, m) })"

text \<open>\<^verbatim>\<open>char buffer[32+1] = { 0 }\<close> and the first prompt.\<close>

definition kshell_start :: "shell_env \<Rightarrow> machine \<Rightarrow> (kshell \<times> machine) option" where
  "kshell_start env m =
     prompt env (\<lparr>sh_i = 0, sh_x = 0, sh_y = 0\<rparr>, set_memory (clear_buffer (se_buffer env) 33 (mc_memory m)) m)"

definition reset_line :: "shell_env \<Rightarrow> kshell \<times> machine \<Rightarrow> kshell \<times> machine" where
  "reset_line env st = (case st of (sh, m) \<Rightarrow> (sh\<lparr>sh_i := 0\<rparr>, store_byte (se_buffer env) 0 m))"

definition kshell_backspace :: "shell_env \<Rightarrow> kshell \<times> machine \<Rightarrow> kshell \<times> machine" where
  "kshell_backspace env st = (case st of (sh, m) \<Rightarrow>
    (if sh_i sh < 1 then (sh, m)
     else
       let sh = sh\<lparr>sh_i := sh_i sh - 1\<rparr>;
           m = store_byte (se_buffer env + sh_i sh) 0 m;
           m = on_tty (tty_set_position (sh_x sh + sh_i sh) (sh_y sh)) m
       in (sh, sh_serial_write env 0x08 m)))"

definition kshell_insert :: "shell_env \<Rightarrow> u8 \<Rightarrow> kshell \<times> machine \<Rightarrow> (kshell \<times> machine) option" where
  "kshell_insert env ch st = (case st of (sh, m) \<Rightarrow>
    (if 31 < sh_i sh then Some (sh, m)
     else
       let m = store_byte (se_buffer env + sh_i sh) ch m;
           sh = sh\<lparr>sh_i := sh_i sh + 1\<rparr> in do {
       m \<leftarrow> sh_print env [Chr ch] m;
       Some (sh, if sh_i sh < 32 then store_byte (se_buffer env + sh_i sh) 0 m else m) }))"

text \<open>The loop that splits the line; the result is the index where the arguments begin.\<close>

partial_function (option) split_loop :: "shell_env \<Rightarrow> u32 \<Rightarrow> memory \<Rightarrow> (u32 \<times> memory) option" where
  "split_loop env i mem = do {
     len \<leftarrow> strlen mem (se_buffer env);
     if i < len then
       if mem (se_buffer env + i) = 0x20 then Some (i + 1, mem)
       else if mem (se_buffer env + i) = 0 then Some (i, mem)
       else split_loop env (i + 1) (mem(se_cmd env + i := mem (se_buffer env + i)))
     else Some (i, mem) }"

definition split_line :: "shell_env \<Rightarrow> memory \<Rightarrow> memory option" where
  "split_line env mem = (
     let mem = clear_buffer (se_cmd env) 33 mem;
         mem = clear_buffer (se_args env) 33 mem in do {
     (i, mem) \<leftarrow> split_loop env 0 mem;
     (_, mem) \<leftarrow> strcpy (se_args env) (se_buffer env + i) mem;
     Some mem })"

text \<open>The loop over the commands, from index \<open>i\<close> on: false when no command has the name.\<close>

primrec run_command :: "command list \<Rightarrow> nat \<Rightarrow> shell_env \<Rightarrow> machine \<Rightarrow> (bool \<times> machine) option" where
  "run_command [] i env m = Some (False, m)"
| "run_command (c # cs) i env m = do {
     r \<leftarrow> stricmp (mc_memory m) (se_names env i) (se_cmd env);
     if r = 0 then do {
       m \<leftarrow> sh_print env [Lit ''\<newline>''] m;
       (_, m) \<leftarrow> c env (se_args env) m;
       Some (True, m) }
     else run_command cs (i + 1) env m }"

definition kshell_enter :: "shell_env \<Rightarrow> kshell \<times> machine \<Rightarrow> (kshell \<times> machine) option" where
  "kshell_enter env st = (case st of (sh, m) \<Rightarrow> do {
     m \<leftarrow> (if mc_memory m (se_buffer env) \<noteq> 0 then do {
          mem \<leftarrow> split_line env (mc_memory m);
          (found, m) \<leftarrow> run_command kshell_commands 0 env (set_memory mem m);
          if \<not> found then sh_print env [Lit ''\<newline>err: unk cmd''] m else Some m }
        else Some m);
     (sh, m) \<leftarrow> prompt env (sh, m);
     Some (reset_line env (sh, m)) })"

definition kshell_char :: "shell_env \<Rightarrow> u8 \<Rightarrow> kshell \<times> machine \<Rightarrow> (kshell \<times> machine) option" where
  "kshell_char env ch st =
    (if ch = 0x08 then Some (kshell_backspace env st)
     else if ch = 0x0D then kshell_enter env st
     else kshell_insert env ch st)"

text \<open>The keys without a character; all the others do nothing.\<close>

definition kshell_scancode :: "shell_env \<Rightarrow> u8 \<Rightarrow> kshell \<times> machine \<Rightarrow> (kshell \<times> machine) option" where
  "kshell_scancode env sc st = (case st of (sh, m) \<Rightarrow>
    (if sc = 0x01 then do { st \<leftarrow> prompt env (sh, m); Some (reset_line env st) }
     else if sc = 0x4B then Some (sh\<lparr>sh_i := sh_i sh - 1\<rparr>, on_tty (tty_set_position (sh_x sh - 1) (sh_y sh)) m)
     else if sc = 0x4D then Some (sh\<lparr>sh_i := sh_i sh + 1\<rparr>, on_tty (tty_set_position (sh_x sh + 1) (sh_y sh)) m)
     else Some (sh, m)))"

definition kshell_turn :: "shell_env \<Rightarrow> kshell \<times> machine \<Rightarrow> (kshell \<times> machine) option" where
  "kshell_turn env st = (case st of (sh, m) \<Rightarrow>
    (let (sc, ch, m) = read_input env m in
     if ch \<noteq> ucast EOF then kshell_char env ch (sh, m) else kshell_scancode env sc (sh, m)))"

end
