(* ===== verification/Shell_Correct.thy ===== *)
theory Shell_Correct
  imports Shell Sched_Correct
begin

text \<open>
  Correctness of the shell: the line editor, the split of a line into command and arguments, the choice of the command,
  and the commands on processes.
\<close>

section \<open>Arrays in memory\<close>

definition span :: "u32 \<Rightarrow> nat \<Rightarrow> u32 set" where
  "span p n = {a. unat (a - p) < n}"

definition screen_span :: "u32 set" where
  "screen_span = {a. VGA_MEMORY \<le> a \<and> a < VGA_MEMORY + 4000}"

definition kept :: "u32 set \<Rightarrow> memory \<Rightarrow> memory \<Rightarrow> bool" where
  "kept A mem mem' \<longleftrightarrow> (\<forall>a. a \<notin> A \<longrightarrow> mem' a = mem a)"

lemma kept_refl [simp]: "kept A mem mem"
  and kept_trans: "\<lbrakk>kept A m1 m2; kept A m2 m3\<rbrakk> \<Longrightarrow> kept A m1 m3"
  and kept_mono: "\<lbrakk>kept A m1 m2; A \<subseteq> B\<rbrakk> \<Longrightarrow> kept B m1 m2"
  and kept_upd: "a \<in> A \<Longrightarrow> kept A mem (mem(a := v))"
  by (auto simp: kept_def)

lemma only_screen_kept: "only_screen mem mem' \<longleftrightarrow> kept screen_span mem mem'"
  by (auto simp: only_screen_def kept_def screen_span_def)

lemma span_offset: "i < n \<Longrightarrow> n \<le> 4294967296 \<Longrightarrow> p + of_nat i \<in> span p n"
  by (simp add: span_def unat_of_nat_u32)

lemma offset_eq: "\<lbrakk>i < 33; j < 33\<rbrakk> \<Longrightarrow> (p :: u32) + of_nat i = p + of_nat j \<longleftrightarrow> i = j"
  using offset_inj [of i 33 j p] by auto

lemma cstr_cong:
  "\<lbrakk>cstr mem p s; \<And>i. i \<le> length s \<Longrightarrow> mem' (p + of_nat i) = mem (p + of_nat i)\<rbrakk> \<Longrightarrow> cstr mem' p s"
proof (induction s arbitrary: p)
  case Nil
  then show ?case using Nil.prems(2) [of 0] by simp
next
  case (Cons c s)
  have "cstr mem' (p + 1) s"
    using Cons.prems(1) Cons.prems(2) [of "Suc _"] by (intro Cons.IH) (simp_all add: add.assoc)
  then show ?case using Cons.prems(1) Cons.prems(2) [of 0] by simp
qed

text \<open>The three arrays are apart from each other and from the screen.\<close>

definition arrays_apart :: "shell_env \<Rightarrow> bool" where
  "arrays_apart env \<longleftrightarrow> span (se_buffer env) 33 \<inter> span (se_cmd env) 33 = {} \<and> span (se_buffer env) 33 \<inter> span (se_args env) 33 = {} \<and>
     span (se_cmd env) 33 \<inter> span (se_args env) 33 = {} \<and>
     (span (se_buffer env) 33 \<union> span (se_cmd env) 33 \<union> span (se_args env) 33) \<inter> screen_span = {}"

section \<open>The line editor\<close>

text \<open>What the shell promises: a line of at most 32 characters.\<close>

definition edit :: "u8 \<Rightarrow> u8 list \<Rightarrow> u8 list" where
  "edit ch line = (if ch = 0x08 then butlast line else if length line < 32 then line @ [ch] else line)"

definition line_ok :: "shell_env \<Rightarrow> u8 list \<Rightarrow> kshell \<times> machine \<Rightarrow> bool" where
  "line_ok env line st \<longleftrightarrow> tty_ok (con_tty (mc_con (snd st))) \<and> sh_i (fst st) = of_nat (length line) \<and> length line \<le> 32 \<and>
     0 \<notin> set line \<and> (\<forall>k < length line. mc_memory (snd st) (se_buffer env + of_nat k) = line ! k) \<and>
     mc_memory (snd st) (se_buffer env + of_nat (length line)) = 0 \<and> mc_memory (snd st) (se_buffer env + 32) = 0"

lemma line_ok_cstr: "line_ok env line st \<Longrightarrow> cstr (mc_memory (snd st)) (se_buffer env) line"
  by (rule cstr_nthI) (simp_all add: line_ok_def)

primrec kshell_chars :: "shell_env \<Rightarrow> u8 list \<Rightarrow> kshell \<times> machine \<Rightarrow> (kshell \<times> machine) option" where
  "kshell_chars env [] st = Some st"
| "kshell_chars env (ch # chs) st = do { st \<leftarrow> kshell_char env ch st; kshell_chars env chs st }"

lemma on_tty_simps [simp]:
  "con_tty (mc_con (on_tty f m)) = f (con_tty (mc_con m))" "mc_kernel (on_tty f m) = mc_kernel m"
  by (simp_all add: on_tty_def on_con_def)

text \<open>Moving the cursor.\<close>

lemma move_cursor_simps [simp]:
  "mc_memory (on_tty (tty_set_position x y) m) = mc_memory m"
  "tty_ok (con_tty (mc_con m)) \<Longrightarrow> tty_ok (tty_set_position x y (con_tty (mc_con m)))"
  using tty_set_position_ok [of "con_tty (mc_con m)"]
  by (simp_all add: on_tty_def on_con_def mc_memory_def con_memory_def tty_set_position_def Let_def tty_ok_def)

lemma store_byte_simps [simp]:
  "mc_memory (store_byte a v m) = (mc_memory m)(a := v)" "mc_kernel (store_byte a v m) = mc_kernel m"
  "tty_ok (con_tty (mc_con (store_byte a v m))) = tty_ok (con_tty (mc_con m))"
  by (simp_all add: store_byte_def mc_memory_def)

lemma serial_write_simps [simp]:
  "con_tty (mc_con (sh_serial_write env b m)) = con_tty (mc_con m)" "mc_kernel (sh_serial_write env b m) = mc_kernel m"
  "mc_memory (sh_serial_write env b m) = mc_memory m"
  by (simp_all add: sh_serial_write_def on_con_def serial_output_def mc_memory_def con_memory_def)

text \<open>Printing constants returns, whatever the line does, and keeps memory off the screen.\<close>

lemma sh_print_returns:
  assumes "list_all constant_part parts" and "tty_ok (con_tty (mc_con m))"
  shows "\<exists>m'. sh_print env parts m = Some m' \<and> tty_ok (con_tty (mc_con m')) \<and> mc_kernel m' = mc_kernel m \<and>
    kept screen_span (mc_memory m) (mc_memory m')"
proof -
  obtain m' where m': "m_kprint (se_uart env) parts m = Some m'"
    using message_constant [OF assms(1)] by (simp add: m_kprint_def kprint_def kdprint_def)
  then have "mc_kernel m' = mc_kernel m" by (auto simp: m_kprint_def bind_eq_Some_conv)
  with m' m_kprint_keeps [OF m' assms(2)] show ?thesis by (simp add: sh_print_def mc_memory_def only_screen_kept)
qed

lemma kshell_backspace_line:
  assumes "line_ok env line (sh, m)" and "kshell_backspace env (sh, m) = st'"
  shows "line_ok env (butlast line) st' \<and> mc_kernel (snd st') = mc_kernel m \<and>
    kept (span (se_buffer env) 33) (mc_memory m) (mc_memory (snd st'))"
proof (cases line rule: rev_cases)
  case Nil
  then have "st' = (sh, m)" using assms by (auto simp: line_ok_def kshell_backspace_def)
  then show ?thesis using assms(1) Nil by simp
next
  case (snoc cs c)
  define n where "n = length cs"
  have n: "n < 32" "sh_i sh = of_nat (Suc n)" using assms(1) snoc by (simp_all add: line_ok_def n_def)
  have "unat (of_nat (Suc n) :: u32) = Suc n" using n(1) by (intro unat_of_nat_u32) simp
  then have "\<not> sh_i sh < 1" "sh_i sh - 1 = of_nat n" using n(2) by (simp_all add: word_less_nat_alt)
  then have st': "fst st' = sh\<lparr>sh_i := of_nat n\<rparr>" "mc_memory (snd st') = (mc_memory m)(se_buffer env + of_nat n := 0)"
    "tty_ok (con_tty (mc_con (snd st')))" "mc_kernel (snd st') = mc_kernel m"
    using assms by (auto simp: kshell_backspace_def Let_def line_ok_def)
  have at: "se_buffer env + of_nat k = se_buffer env + of_nat n \<longleftrightarrow> k = n" if "k \<le> 32" for k
    using offset_eq [of k n "se_buffer env"] that n(1) by simp
  have "line_ok env cs st'"
    using assms(1) snoc n at [of 32] at by (auto simp: line_ok_def st' n_def [symmetric] nth_append)
  moreover have "kept (span (se_buffer env) 33) (mc_memory m) (mc_memory (snd st'))"
    unfolding st' using n(1) by (intro kept_upd span_offset) simp_all
  ultimately show ?thesis using snoc st'(4) by simp
qed

lemma kshell_insert_line:
  assumes "line_ok env line (sh, m)" and "span (se_buffer env) 33 \<inter> screen_span = {}" and "ch \<noteq> 0"
  shows "\<exists>st'. kshell_insert env ch (sh, m) = Some st' \<and>
    line_ok env (if length line < 32 then line @ [ch] else line) st' \<and> mc_kernel (snd st') = mc_kernel m \<and>
    kept (span (se_buffer env) 33 \<union> screen_span) (mc_memory m) (mc_memory (snd st'))"
proof -
  define n where "n = length line"
  define b where "b = se_buffer env"
  have n: "n \<le> 32" "sh_i sh = of_nat n" using assms(1) by (simp_all add: line_ok_def n_def)
  have u: "unat (of_nat k :: u32) = k" if "k \<le> 33" for k using that by (intro unat_of_nat_u32) simp
  show ?thesis
  proof (cases "n < 32")
    case False
    then have "31 < sh_i sh" using n u [of n] by (simp add: word_less_nat_alt)
    then show ?thesis using assms(1) False by (auto simp: kshell_insert_def n_def)
  next
    case True
    then have "\<not> 31 < sh_i sh" using n u [of n] by (simp add: word_less_nat_alt)
    obtain m1 where m1: "sh_print env [Chr ch] (store_byte (b + of_nat n) ch m) = Some m1" "tty_ok (con_tty (mc_con m1))"
      "mc_kernel m1 = mc_kernel m" "kept screen_span ((mc_memory m)(b + of_nat n := ch)) (mc_memory m1)"
      using sh_print_returns [of "[Chr ch]" "store_byte (b + of_nat n) ch m" env] assms(1) by (auto simp: line_ok_def)
    define mem' where "mem' = (if Suc n < 32 then (mc_memory m1)(b + of_nat (Suc n) := 0) else mc_memory m1)"
    define m' where "m' = (if Suc n < 32 then store_byte (b + of_nat (Suc n)) 0 m1 else m1)"
    have m': "mc_memory m' = mem'" "tty_ok (con_tty (mc_con m'))" "mc_kernel m' = mc_kernel m"
      using m1 by (simp_all add: m'_def mem'_def)
    have "unat (sh_i sh + 1) = Suc n" using n u [of "Suc n"] True by (simp add: add.commute)
    moreover have "unat (32 :: u32) = 32" by code_simp
    ultimately have "sh_i sh + 1 < 32 \<longleftrightarrow> Suc n < 32" by (simp only: word_less_nat_alt)
    then have run: "kshell_insert env ch (sh, m) = Some (sh\<lparr>sh_i := of_nat (Suc n)\<rparr>, m')"
      using \<open>\<not> 31 < sh_i sh\<close> m1(1) n(2) by (simp add: kshell_insert_def Let_def b_def m'_def add.commute)
    have at: "b + of_nat k = b + of_nat j \<longleftrightarrow> k = j" if "k \<le> 32" "j \<le> 32" for k j using offset_eq [of k j b] that by simp
    have "b + of_nat k \<notin> screen_span" if "k \<le> 32" for k
      using assms(2) span_offset [of k 33 b] that by (auto simp: b_def)
    then have bytes: "mc_memory m1 (b + of_nat k) = (if k = n then ch else mc_memory m (b + of_nat k))" if "k \<le> 32" for k
      using m1(4) that at [of k n] True by (simp add: kept_def)
    then have bytes': "mem' (b + of_nat k) = (if k = n then ch else if k = Suc n \<and> Suc n < 32 then 0 else mc_memory m (b + of_nat k))"
      if "k \<le> 32" for k using that at [of k "Suc n"] True by (auto simp: mem'_def)
    have old: "mc_memory m (b + of_nat k) = line ! k" if "k < n" for k using assms(1) that by (simp add: line_ok_def n_def b_def)
    have "mc_memory m (b + of_nat 32) = 0" using assms(1) by (simp add: line_ok_def b_def)
    then have "mem' (b + of_nat 32) = 0" "mem' (b + of_nat (Suc n)) = 0"
      using bytes' [of 32] bytes' [of "Suc n"] True by (cases "Suc n = 32"; auto)+
    then have "line_ok env (line @ [ch]) (sh\<lparr>sh_i := of_nat (Suc n)\<rparr>, m')"
      using assms(1,3) bytes' old True m'
      by (auto simp: line_ok_def n_def [symmetric] b_def [symmetric] nth_append less_Suc_eq)
    moreover have "kept (span b 33 \<union> screen_span) (mc_memory m) mem'"
      using m1(4) span_offset [of n 33 b] span_offset [of "Suc n" 33 b] True by (auto simp: kept_def mem'_def)
    ultimately show ?thesis using run m' True by (simp add: n_def b_def)
  qed
qed

text \<open>
  C37: the line editor of the shell keeps a line of at most 32 characters: a character is appended while there is
  room and ignored when there is none, and a backspace takes the last character away. For every sequence of such keys the
  buffer holds the line as a string, the kernel's state does not change, and no memory outside the buffer and the screen is written.
\<close>

theorem kshell_line_refines:
  assumes "line_ok env line st" and "span (se_buffer env) 33 \<inter> screen_span = {}" and "0 \<notin> set chs" and "0x0D \<notin> set chs"
  shows "\<exists>st'. kshell_chars env chs st = Some st' \<and> line_ok env (fold edit chs line) st' \<and>
    cstr (mc_memory (snd st')) (se_buffer env) (fold edit chs line) \<and> length (fold edit chs line) \<le> 32 \<and>
    mc_kernel (snd st') = mc_kernel (snd st) \<and>
    kept (span (se_buffer env) 33 \<union> screen_span) (mc_memory (snd st)) (mc_memory (snd st'))"
  using assms(1,3,4)
proof (induction chs arbitrary: line st)
  case Nil
  then show ?case using line_ok_cstr by (auto simp: line_ok_def)
next
  case (Cons ch chs)
  obtain sh m where st: "st = (sh, m)" by fastforce
  obtain st1 where st1: "kshell_char env ch st = Some st1" "line_ok env (edit ch line) st1" "mc_kernel (snd st1) = mc_kernel m"
    "kept (span (se_buffer env) 33 \<union> screen_span) (mc_memory m) (mc_memory (snd st1))"
  proof (cases "ch = 0x08")
    case True
    then show ?thesis
      using kshell_backspace_line [OF Cons.prems(1) [unfolded st] refl] that
      by (auto simp: st kshell_char_def edit_def intro: kept_mono)
  next
    case False
    then show ?thesis
      using kshell_insert_line [OF Cons.prems(1) [unfolded st] assms(2), of ch] Cons.prems(2,3) that
      by (auto simp: st kshell_char_def edit_def)
  qed
  from Cons.IH [OF st1(2)] Cons.prems(2,3) obtain st' where
    "kshell_chars env chs st1 = Some st'" "line_ok env (fold edit chs (edit ch line)) st'"
    "cstr (mc_memory (snd st')) (se_buffer env) (fold edit chs (edit ch line))" "length (fold edit chs (edit ch line)) \<le> 32"
    "mc_kernel (snd st') = mc_kernel (snd st1)"
    "kept (span (se_buffer env) 33 \<union> screen_span) (mc_memory (snd st1)) (mc_memory (snd st'))" by auto
  then show ?case using st1 kept_trans [OF st1(4)] by (simp add: st)
qed

section \<open>Command and arguments\<close>

definition command_word :: "u8 list \<Rightarrow> u8 list" where
  "command_word line = takeWhile (\<lambda>c. c \<noteq> 0x20) line"

definition argument_text :: "u8 list \<Rightarrow> u8 list" where
  "argument_text line = drop (Suc (length (command_word line))) line"

lemma span_apart: "\<lbrakk>span p 33 \<inter> span q 33 = {}; i < 33; j < 33\<rbrakk> \<Longrightarrow> p + of_nat i \<noteq> q + of_nat j"
  using span_offset [of i 33 p] span_offset [of j 33 q] by auto

lemma kept_cstr:
  assumes "cstr mem p s" and "kept A mem mem'" and "\<And>i. i \<le> length s \<Longrightarrow> p + of_nat i \<notin> A"
  shows "cstr mem' p s"
  using assms by (intro cstr_cong [OF assms(1)]) (simp add: kept_def)

lemma cstr_byte: "cstr mem p s \<Longrightarrow> i < length s \<Longrightarrow> mem (p + of_nat i) = s ! i \<and> s ! i \<noteq> 0"
proof (induction s arbitrary: p i)
  case (Cons c s)
  show ?case
  proof (cases i)
    case (Suc k)
    then show ?thesis using Cons.IH [of "p + 1" k] Cons.prems by (simp add: add.assoc)
  qed (use Cons.prems in simp)
qed simp

lemma split_loop_word:
  assumes apart: "span (se_buffer env) 33 \<inter> span (se_cmd env) 33 = {}" and len: "length line \<le> 32"
  shows "\<lbrakk>cstr mem (se_buffer env) line; i \<le> length line; 0x20 \<notin> set (take i line);
      \<forall>k < 33. mem (se_cmd env + of_nat k) = (if k < i then line ! k else 0)\<rbrakk> \<Longrightarrow>
    \<exists>mem'. split_loop env (of_nat i) mem = Some (of_nat (min (length line) (Suc (length (command_word line)))), mem') \<and>
      kept (span (se_cmd env) 33) mem mem' \<and> cstr mem' (se_cmd env) (command_word line)"
proof (induction "length line - i" arbitrary: i mem)
  case 0
  then have i: "i = length line" "command_word line = line" by (auto simp: command_word_def takeWhile_eq_all_conv)
  have "split_loop env (of_nat i) mem = Some (of_nat (length line), mem)"
    using 0 i by (subst split_loop.simps) (simp add: strlen_cstr)
  moreover have "0 \<notin> set line" using cstr_byte [OF 0(2)] by (auto simp: in_set_conv_nth)
  then have "cstr mem (se_cmd env) line" using 0(5) i len by (intro cstr_nthI) simp_all
  ultimately show ?case using i by (simp add: min_def)
next
  case (Suc n)
  define b where "b = se_buffer env"
  have i: "i < length line" "i < 33" using Suc.hyps(2) len by simp_all
  have u: "unat (of_nat i :: u32) = i" "unat (of_nat (length line) :: u32) = length line" using i len by (simp_all add: unat_of_nat_u32)
  have c: "mem (b + of_nat i) = line ! i" "line ! i \<noteq> 0" using cstr_byte [OF Suc.prems(1) i(1)] by (simp_all add: b_def)
  have less: "of_nat i < (of_nat (length line) :: u32)" using i u by (simp add: word_less_nat_alt)
  show ?case
  proof (cases "line ! i = 0x20")
    case True
    have w: "command_word line = take i line"
      unfolding command_word_def using Suc.prems(3) True by (intro takeWhile_eq_take_P_nth) (auto simp: in_set_conv_nth)
    have "split_loop env (of_nat i) mem = Some (of_nat i + 1, mem)"
      using less c(1) True by (subst split_loop.simps) (simp add: strlen_cstr [OF Suc.prems(1)] b_def)
    moreover have "0 \<notin> set (take i line)" using cstr_byte [OF Suc.prems(1)] by (auto simp: in_set_conv_nth)
    then have "cstr mem (se_cmd env) (take i line)" using Suc.prems(4) i by (intro cstr_nthI) simp_all
    moreover have "min (length line) (Suc i) = Suc i" using i(1) by simp
    ultimately show ?thesis using i by (simp add: w add.commute)
  next
    case False
    define mem1 where "mem1 = mem(se_cmd env + of_nat i := line ! i)"
    have step: "split_loop env (of_nat i) mem = split_loop env (of_nat (Suc i)) mem1"
      using less c False by (subst split_loop.simps) (simp add: strlen_cstr [OF Suc.prems(1)] b_def mem1_def add.commute)
    have "cstr mem1 (se_buffer env) line"
      by (rule cstr_cong [OF Suc.prems(1)]) (use span_apart [OF apart _ i(2)] len in \<open>simp add: mem1_def\<close>)
    moreover have "0x20 \<notin> set (take (Suc i) line)" using Suc.prems(3) False i by (simp add: take_Suc_conv_app_nth)
    moreover have "\<forall>k < 33. mem1 (se_cmd env + of_nat k) = (if k < Suc i then line ! k else 0)"
      using Suc.prems(4) i offset_eq [of _ i "se_cmd env"] by (auto simp: mem1_def less_Suc_eq)
    moreover have "n = length line - Suc i" "Suc i \<le> length line" using Suc.hyps(2) i by simp_all
    ultimately obtain mem' where "split_loop env (of_nat (Suc i)) mem1 = Some (of_nat (min (length line) (Suc (length (command_word line)))), mem')"
      "kept (span (se_cmd env) 33) mem1 mem'" "cstr mem' (se_cmd env) (command_word line)"
      using Suc.hyps(1) [of "Suc i" mem1] by blast
    moreover have "kept (span (se_cmd env) 33) mem mem1" unfolding mem1_def by (rule kept_upd) (use i span_offset in simp)
    ultimately show ?thesis using step kept_trans by fastforce
  qed
qed

lemma strcpy_loop_copies:
  "\<lbrakk>cstr mem src s; length s < 33; \<And>i j. \<lbrakk>i \<le> length s; j \<le> length s\<rbrakk> \<Longrightarrow> dest + of_nat i \<noteq> src + of_nat j\<rbrakk> \<Longrightarrow>
    \<exists>mem'. strcpy_loop dest src mem = Some mem' \<and> (\<forall>i < length s. mem' (dest + of_nat i) = s ! i) \<and>
      (\<forall>a. (\<forall>i < length s. a \<noteq> dest + of_nat i) \<longrightarrow> mem' a = mem a)"
proof (induction s arbitrary: dest src mem)
  case Nil
  then show ?case by (subst strcpy_loop.simps) simp
next
  case (Cons c s)
  define mem1 where "mem1 = mem(dest := c)"
  have c: "mem src = c" "c \<noteq> 0" "cstr mem (src + 1) s" using Cons.prems(1) by simp_all
  have step: "strcpy_loop dest src mem = strcpy_loop (dest + 1) (src + 1) mem1" using c by (subst strcpy_loop.simps) (simp add: mem1_def)
  have "cstr mem1 (src + 1) s"
    by (rule cstr_cong [OF c(3)]) (use Cons.prems(3) [of 0 "Suc _"] in \<open>auto simp: mem1_def add.assoc\<close>)
  moreover have "dest + 1 + of_nat i \<noteq> src + 1 + of_nat j" if "i \<le> length s" "j \<le> length s" for i j
    using Cons.prems(3) [of "Suc i" "Suc j"] that by (simp add: add.assoc)
  ultimately obtain mem' where m: "strcpy_loop (dest + 1) (src + 1) mem1 = Some mem'"
    "\<forall>i < length s. mem' (dest + 1 + of_nat i) = s ! i"
    "\<forall>a. (\<forall>i < length s. a \<noteq> dest + 1 + of_nat i) \<longrightarrow> mem' a = mem1 a"
    using Cons.IH [of mem1 "src + 1" "dest + 1"] Cons.prems(2) by auto
  have "dest \<noteq> dest + 1 + of_nat i" if "i < length s" for i
    using offset_eq [of 0 "Suc i" dest] that Cons.prems(2) by (simp add: add.assoc)
  then have "mem' dest = c" using m(3) by (simp add: mem1_def)
  then have "\<forall>i < length (c # s). mem' (dest + of_nat i) = (c # s) ! i"
    using m(2) by (auto simp: less_Suc_eq_0_disj add.assoc)
  moreover have "mem' a = mem a" if "\<forall>i < length (c # s). a \<noteq> dest + of_nat i" for a
  proof -
    have "a \<noteq> dest + 1 + of_nat i" if "i < length s" for i
      using \<open>\<forall>i < length (c # s). a \<noteq> dest + of_nat i\<close> [rule_format, of "Suc i"] that by (simp add: add.assoc)
    moreover have "a \<noteq> dest" using that [rule_format, of 0] by simp
    ultimately show ?thesis using m(3) by (simp add: mem1_def)
  qed
  ultimately show ?case using step m(1) by auto
qed

lemma split_line_words:
  assumes apart: "arrays_apart env" and line: "cstr mem (se_buffer env) line" and len: "length line \<le> 32"
  shows "\<exists>mem'. split_line env mem = Some mem' \<and> cstr mem' (se_cmd env) (command_word line) \<and>
    cstr mem' (se_args env) (argument_text line) \<and> kept (span (se_cmd env) 33 \<union> span (se_args env) 33) mem mem'"
proof -
  have a: "span (se_buffer env) 33 \<inter> span (se_cmd env) 33 = {}" "span (se_args env) 33 \<inter> span (se_buffer env) 33 = {}"
    "span (se_args env) 33 \<inter> span (se_cmd env) 33 = {}" "span (se_buffer env) 33 \<inter> span (se_args env) 33 = {}" using apart by (auto simp: arrays_apart_def)
  define mem1 where "mem1 = clear_buffer (se_args env) 33 (clear_buffer (se_cmd env) 33 mem)"
  have k1: "kept (span (se_cmd env) 33 \<union> span (se_args env) 33) mem mem1"
    by (simp add: kept_def mem1_def clear_buffer_def span_def)
  have out: "p + of_nat i \<notin> span q 33" if "span p 33 \<inter> span q 33 = {}" "i < 33" for p q :: u32 and i
    using that span_offset [of i 33 p] by auto
  have "cstr mem1 (se_buffer env) line"
    by (rule kept_cstr [OF line k1]) (use out [OF a(1)] out [OF a(4)] len in auto)
  moreover have "\<forall>k < 33. mem1 (se_cmd env + of_nat k) = (if k < 0 then line ! k else 0)"
    using span_offset [of _ 33 "se_cmd env"] by (auto simp: mem1_def clear_buffer_def span_def)
  ultimately obtain mem2 where m2: "split_loop env 0 mem1 = Some (of_nat (min (length line) (Suc (length (command_word line)))), mem2)"
    "kept (span (se_cmd env) 33) mem1 mem2" "cstr mem2 (se_cmd env) (command_word line)"
    using split_loop_word [OF a(1) len, of mem1 0] by auto
  define j where "j = min (length line) (Suc (length (command_word line)))"
  have j: "j \<le> length line" "drop j line = argument_text line"
    by (auto simp: j_def argument_text_def min_def)
  have line2: "cstr mem2 (se_buffer env) (take j line @ drop j line)"
    using kept_cstr [OF \<open>cstr mem1 (se_buffer env) line\<close> m2(2)] out [OF a(1)] len by simp
  from cstr_append [OF this] j(1) have src: "cstr mem2 (se_buffer env + of_nat j) (argument_text line)" by (simp add: j(2))
  have ln: "length (argument_text line) = length line - j" using j by (metis length_drop)
  have distinct: "se_args env + of_nat i \<noteq> se_buffer env + of_nat j + of_nat k" if "i \<le> length (argument_text line)" "k \<le> length (argument_text line)" for i k
    using span_apart [OF a(2), of i "j + k"] that ln len j(1) by (simp add: add.assoc)
  have short: "length (argument_text line) < 33" using ln len by simp
  obtain mem3 where m3: "strcpy_loop (se_args env) (se_buffer env + of_nat j) mem2 = Some mem3"
    "\<forall>i < length (argument_text line). mem3 (se_args env + of_nat i) = argument_text line ! i"
    "\<forall>a. (\<forall>i < length (argument_text line). a \<noteq> se_args env + of_nat i) \<longrightarrow> mem3 a = mem2 a"
    using strcpy_loop_copies [OF src short distinct] by blast
  have k3: "kept (span (se_args env) 33) mem2 mem3"
    unfolding kept_def
  proof (intro allI impI)
    fix a
    assume "a \<notin> span (se_args env) 33"
    then have "a \<noteq> se_args env + of_nat i" if "i < length (argument_text line)" for i
      using span_offset [of i 33 "se_args env"] that short by auto
    then show "mem3 a = mem2 a" using m3(3) by blast
  qed
  have cmd: "cstr mem3 (se_cmd env) (command_word line)"
  proof (rule kept_cstr [OF m2(3) k3])
    have "length (command_word line) \<le> length line" by (simp add: command_word_def length_takeWhile_le)
    then show "se_cmd env + of_nat i \<notin> span (se_args env) 33" if "i \<le> length (command_word line)" for i
      using out [of "se_cmd env" "se_args env" i] a(3) that len by auto
  qed
  have args: "cstr mem3 (se_args env) (argument_text line)"
  proof (rule cstr_nthI)
    show "mem3 (se_args env + of_nat i) = argument_text line ! i" if "i < length (argument_text line)" for i
      using m3(2) that by simp
    let ?n = "length (argument_text line)"
    have "se_args env + of_nat ?n \<noteq> se_args env + of_nat i" if "i < ?n" for i using offset_eq [of ?n i "se_args env"] that ln len by auto
    then have "mem3 (se_args env + of_nat ?n) = mem2 (se_args env + of_nat ?n)" using m3(3) by blast
    also have "\<dots> = mem1 (se_args env + of_nat ?n)" using m2(2) out [OF a(3), of ?n] ln len by (simp add: kept_def)
    also have "\<dots> = 0" using span_offset [of ?n 33 "se_args env"] ln len by (simp add: mem1_def clear_buffer_def span_def)
    finally show "mem3 (se_args env + of_nat ?n) = 0" .
    show "0 \<notin> set (argument_text line)" using cstr_byte [OF src] by (auto simp: in_set_conv_nth)
  qed
  have "kept (span (se_cmd env) 33 \<union> span (se_args env) 33) mem mem3"
    using kept_trans [OF kept_trans [OF k1 kept_mono [OF m2(2)]] kept_mono [OF k3]] by blast
  moreover have "split_line env mem = Some mem3"
    using m2(1) m3(1) by (simp add: split_line_def mem1_def [symmetric] j_def [symmetric] strcpy_def)
  ultimately show ?thesis using cmd args by blast
qed

section \<open>The choice of the command\<close>

lemma order_0_iff: "order s t = 0 \<longleftrightarrow> s = t"
  by (induction s t rule: order.induct) (auto simp: not_less_iff_gr_or_eq)

definition names_at :: "shell_env \<Rightarrow> memory \<Rightarrow> bool" where
  "names_at env mem \<longleftrightarrow> (\<forall>i < 14. cstr mem (se_names env i) (string_bytes (command_names ! i)))"

definition same_name :: "u8 list \<Rightarrow> nat \<Rightarrow> bool" where
  "same_name word i \<longleftrightarrow> map upper (string_bytes (command_names ! i)) = map upper word"

lemma run_command_find:
  assumes "names_at env (mc_memory m)" and "cstr (mc_memory m) (se_cmd env) word"
  shows "i + length cs \<le> 14 \<Longrightarrow> run_command cs i env m =
    (case find (same_name word) [i ..< i + length cs] of
       None \<Rightarrow> Some (False, m)
     | Some j \<Rightarrow> do { m \<leftarrow> sh_print env [Lit ''\<newline>''] m; (_, m) \<leftarrow> (cs ! (j - i)) env (se_args env) m; Some (True, m) })"
proof (induction cs arbitrary: i)
  case (Cons c cs)
  have "cstr (mc_memory m) (se_names env i) (string_bytes (command_names ! i))" using assms(1) Cons.prems by (simp add: names_at_def)
  from stricmp_order [OF this assms(2)]
  have r: "stricmp (mc_memory m) (se_names env i) (se_cmd env) =
    Some (order (map upper (string_bytes (command_names ! i))) (map upper word))" .
  have "i < i + length (c # cs)" by simp
  then have upt: "[i ..< i + length (c # cs)] = i # [Suc i ..< Suc i + length cs]" by (subst upt_conv_Cons) simp_all
  show ?case
  proof (cases "same_name word i")
    case True
    then show ?thesis unfolding upt using r by (simp add: same_name_def order_0_iff)
  next
    case False
    have "cs ! (j - Suc i) = (c # cs) ! (j - i)" if "find (same_name word) [Suc i ..< Suc i + length cs] = Some j" for j
    proof -
      have "j \<in> set [Suc i ..< Suc i + length cs]" using that unfolding find_Some_iff by (metis nth_mem)
      then have "j - i = Suc (j - Suc i)" by auto
      then show ?thesis by simp
    qed
    moreover have "run_command (c # cs) i env m = run_command cs (Suc i) env m"
      using r False by (simp add: same_name_def order_0_iff)
    moreover have "find (same_name word) [i ..< i + length (c # cs)] = find (same_name word) [Suc i ..< Suc i + length cs]"
      unfolding upt using False by simp
    ultimately show ?thesis
      using Cons.IH [of "Suc i"] Cons.prems by (cases "find (same_name word) [Suc i ..< Suc i + length cs]") (simp_all del: upt_Suc)
  qed
qed simp

definition finish_line :: "shell_env \<Rightarrow> kshell \<Rightarrow> machine \<Rightarrow> (kshell \<times> machine) option" where
  "finish_line env sh m = map_option (reset_line env) (prompt env (sh, m))"

lemma finish_line_eq: "do { (sh, m) \<leftarrow> prompt env (sh, m); Some (reset_line env (sh, m)) } = finish_line env sh m"
  by (cases "prompt env (sh, m)") (auto simp: finish_line_def)

lemma length_kshell_commands: "length kshell_commands = 14"
  by (simp add: kshell_commands_def)

lemma run_found:
  "(case r of None \<Rightarrow> Some (False, m) | Some j \<Rightarrow> do { m \<leftarrow> f m; (_, m) \<leftarrow> g j m; Some (True, m) }) \<bind>
      (\<lambda>(b, m). (if \<not> b then e m else Some m) \<bind> h) =
    (case r of None \<Rightarrow> e m \<bind> h | Some j \<Rightarrow> do { m \<leftarrow> f m; (_, m) \<leftarrow> g j m; h m })"
  by (cases r) (simp_all add: Option.bind_assoc split_def)

lemma bind_split_assoc:
  "Option.bind (Option.bind r (\<lambda>(a, b). f a b)) h = Option.bind r (\<lambda>(a, b). Option.bind (f a b) h)"
  by (cases r) auto

text \<open>
  C38: at the end of a line the shell takes the text before the first blank as the command and the text behind that blank
  as its arguments, and stores both as strings. It runs the command of that name, compared without regard to the case
  of letters, with the arguments, or prints an error when there is none; then it prompts again. Until the command
  runs, no memory outside the two arrays and the screen has changed.
\<close>

theorem kshell_enter_runs:
  assumes "arrays_apart env" and "line_ok env line (sh, m)" and "line \<noteq> []"
    and "\<And>mem. kept (span (se_cmd env) 33 \<union> span (se_args env) 33) (mc_memory m) mem \<Longrightarrow> names_at env mem"
  shows "\<exists>mem. cstr mem (se_cmd env) (command_word line) \<and> cstr mem (se_args env) (argument_text line) \<and>
    kept (span (se_cmd env) 33 \<union> span (se_args env) 33) (mc_memory m) mem \<and>
    kshell_enter env (sh, m) =
      (case find (same_name (command_word line)) [0 ..< 14] of
         None \<Rightarrow> sh_print env [Lit ''\<newline>err: unk cmd''] (set_memory mem m) \<bind> finish_line env sh
       | Some j \<Rightarrow> do {
           m \<leftarrow> sh_print env [Lit ''\<newline>''] (set_memory mem m);
           (_, m) \<leftarrow> (kshell_commands ! j) env (se_args env) m;
           finish_line env sh m })"
proof -
  have "length line \<le> 32" "cstr (mc_memory m) (se_buffer env) line" using assms(2) line_ok_cstr [OF assms(2)] by (simp_all add: line_ok_def)
  from split_line_words [OF assms(1) this(2,1)] obtain mem where mem: "split_line env (mc_memory m) = Some mem"
    "cstr mem (se_cmd env) (command_word line)" "cstr mem (se_args env) (argument_text line)"
    "kept (span (se_cmd env) 33 \<union> span (se_args env) 33) (mc_memory m) mem" by blast
  have here: "mc_memory (set_memory mem m) = mem" by (simp add: mc_memory_def)
  have "run_command kshell_commands 0 env (set_memory mem m) =
    (case find (same_name (command_word line)) [0 ..< 14] of
       None \<Rightarrow> Some (False, set_memory mem m)
     | Some j \<Rightarrow> do { m \<leftarrow> sh_print env [Lit ''\<newline>''] (set_memory mem m); (_, m) \<leftarrow> (kshell_commands ! j) env (se_args env) m; Some (True, m) })"
    using run_command_find [of env "set_memory mem m" "command_word line" 0 kshell_commands,
        unfolded here length_kshell_commands add_0 diff_zero, OF assms(4) [OF mem(4)] mem(2) order_refl] .
  moreover have "mc_memory m (se_buffer env) \<noteq> 0"
    using cstr_byte [OF \<open>cstr (mc_memory m) (se_buffer env) line\<close>, of 0] assms(3) by simp
  moreover have "kshell_enter env (sh, m) = run_command kshell_commands 0 env (set_memory mem m) \<bind>
      (\<lambda>(b, m). (if \<not> b then sh_print env [Lit ''\<newline>err: unk cmd''] m else Some m) \<bind> finish_line env sh)"
    if "mc_memory m (se_buffer env) \<noteq> 0"
    unfolding kshell_enter_def prod.case finish_line_eq if_P [OF that] mem(1) Option.bind.simps bind_split_assoc ..
  moreover note run_found
  ultimately have "kshell_enter env (sh, m) =
      (case find (same_name (command_word line)) [0 ..< 14] of
         None \<Rightarrow> sh_print env [Lit ''\<newline>err: unk cmd''] (set_memory mem m) \<bind> finish_line env sh
       | Some j \<Rightarrow> do {
           m \<leftarrow> sh_print env [Lit ''\<newline>''] (set_memory mem m);
           (_, m) \<leftarrow> (kshell_commands ! j) env (se_args env) m;
           finish_line env sh m })" by simp
  with mem(2-4) show ?thesis by blast
qed

text \<open>
  at the beginning of a line the left arrow takes the index below zero, and the next backspace stores a zero byte two
  bytes in front of the buffer.
\<close>

theorem kshell_left_backspace:
  assumes "sh_i sh = 0"
  shows "\<exists>sh1 m1. kshell_scancode env 0x4B (sh, m) = Some (sh1, m1) \<and>
    mc_memory (snd (kshell_backspace env (sh1, m1))) = (mc_memory m)(se_buffer env - 2 := 0)"
  using assms by (simp add: kshell_scancode_def kshell_backspace_def Let_def)

section \<open>Commands on processes\<close>

lemma find_process_find:
  "plist st (us @ vs) \<Longrightarrow> find_process (snd st) pid (first vs 0) =
    Some (case find (\<lambda>p. pr_id (snd st p) = pid) vs of None \<Rightarrow> 0 | Some p \<Rightarrow> p)"
proof (induction vs arbitrary: us)
  case Nil
  then show ?case by (subst find_process.simps) simp
next
  case (Cons p vs)
  have "p \<noteq> 0" using plist_nonzero [OF Cons.prems] by simp
  moreover have "pr_next (snd st p) = first vs 0" using plist_at(1) [OF Cons.prems] .
  moreover have "plist st ((us @ [p]) @ vs)" using Cons.prems by simp
  ultimately show ?case using Cons.IH [of "us @ [p]"] by (subst find_process.simps) simp
qed

lemma deregister_lists:
  assumes "sched_lists k xs ys" and "p \<in> set xs" and "pr_flags (k_procs k p) AND PROC_FLAG_KILL = 0"
  shows "sched_lists (scheduler_unload_process p k) (remove1 p xs) (ys @ [p])"
proof -
  obtain us vs where xs: "xs = us @ p # vs" using split_list [OF assms(2)] by blast
  have act: "plist (active_state k) (us @ p # vs)" and d: "set xs \<inter> set ys = {}" using assms(1) xs by (simp_all add: sched_lists_def)
  have p: "p \<noteq> 0" "p \<notin> set (us @ vs)" "p \<notin> set ys" using plist_nonzero [OF act] plist_distinct [OF act] d xs by auto
  define k1 where "k1 = on_active (procman_remove p) k"
  have "sched_lists k1 (us @ vs) ys" unfolding k1_def by (rule active_remove) (use assms(1) xs in simp)
  from inactive_append [OF this p] have "sched_lists (on_inactive (procman_append p) k1) (us @ vs) (ys @ [p])" .
  then have "sched_lists (upd_proc p (\<lambda>x. x\<lparr>pr_flags := pr_flags x OR PROC_FLAG_KILL\<rparr>) (on_inactive (procman_append p) k1)) (us @ vs) (ys @ [p])"
    by (rule sched_lists_upd) simp
  moreover have "remove1 p xs = us @ vs" using p(2) by (simp add: xs remove1_append)
  ultimately show ?thesis using p(1) assms(3) by (simp add: scheduler_unload_process_def proc_deregister_def Let_def k1_def)
qed

text \<open>
  C40: \<^verbatim>\<open>prockill\<close> reads the process number from its arguments and takes the first active process with that number off the
  active list, to be destroyed; the process lists stay well formed. When no process has the number nothing changes and the
  command fails.
\<close>

theorem prockill_kills_first:
  assumes "sched_lists (mc_kernel m) xs ys" and "strtoul (mc_memory m) arg None 0 = Some (pid, e)" and "tty_ok (con_tty (mc_con m))"
    and "\<And>p. p \<in> set xs \<Longrightarrow> pr_flags (k_procs (mc_kernel m) p) AND PROC_FLAG_KILL = 0"
  shows "\<exists>status m'. kshell_command_proc_kill env arg m = Some (status, m') \<and>
    (case find (\<lambda>p. pr_id (k_procs (mc_kernel m) p) = pid) xs of
       None \<Rightarrow> status = 1 \<and> mc_kernel m' = mc_kernel m
     | Some p \<Rightarrow> status = 0 \<and> mc_kernel m' = scheduler_unload_process p (mc_kernel m) \<and>
         sched_lists (mc_kernel m') (remove1 p xs) (ys @ [p]))"
proof -
  let ?k = "mc_kernel m" and ?found = "find (\<lambda>p. pr_id (k_procs (mc_kernel m) p) = pid) xs"
  have act: "plist (active_state ?k) xs" using assms(1) by (simp add: sched_lists_def)
  have f: "find_process (k_procs ?k) pid (scheduler_head ?k) = Some (case ?found of None \<Rightarrow> 0 | Some p \<Rightarrow> p)"
    using find_process_find [of "active_state ?k" "[]" xs pid] plist_ends [OF act] act by (simp add: scheduler_head_def)
  show ?thesis
  proof (cases ?found)
    case None
    from sh_print_returns [of "[Lit ''Process not found: pid='', Dec False 0 pid, Lit ''\<newline>'']" m env] assms(3)
    obtain m' where "sh_print env [Lit ''Process not found: pid='', Dec False 0 pid, Lit ''\<newline>''] m = Some m'" "mc_kernel m' = ?k" by auto
    then show ?thesis using f None assms(2) by (simp add: kshell_command_proc_kill_def)
  next
    case (Some p)
    then have p: "p \<in> set xs" by (auto simp: find_Some_iff in_set_conv_nth)
    let ?m = "m\<lparr>mc_kernel := scheduler_unload_process p ?k\<rparr>"
    from sh_print_returns [of "[Lit ''Killing process: pid='', Dec False 0 pid, Lit ''\<newline>'']" ?m env] assms(3)
    obtain m' where "sh_print env [Lit ''Killing process: pid='', Dec False 0 pid, Lit ''\<newline>''] ?m = Some m'"
      "mc_kernel m' = scheduler_unload_process p ?k" by auto
    then show ?thesis
      using f Some assms(2) plist_nonzero [OF act p] deregister_lists [OF assms(1) p assms(4) [OF p]]
      by (simp add: kshell_command_proc_kill_def)
  qed
qed

text \<open>The command \<^verbatim>\<open>inp\<close> never ends.\<close>

lemma print_input_never_ends: "print_input_loop env n pos m \<noteq> Some m'"
proof
  assume run: "print_input_loop env n pos m = Some m'"
  show False
  proof (rule print_input_loop.raw_induct [OF _ run, where P = "\<lambda>env n pos m m'. False"], goal_cases)
    case (1 loop env n pos m m')
    from 1(2) obtain m1 where "loop env (n + 1) pos m1 = Some m'" by (auto simp: bind_eq_Some_conv)
    then show ?case by (rule 1(1))
  qed
qed

section \<open>Examples\<close>

lemma span_bounds: "\<lbrakk>a \<in> span p n; unat p + n \<le> 4294967296\<rbrakk> \<Longrightarrow> unat p \<le> unat a \<and> unat a < unat p + n"
  using unat_add_u32 [of p "a - p"] by (simp add: span_def)

lemma span_disjoint: "\<lbrakk>unat p + n \<le> unat q; unat q + k \<le> 4294967296\<rbrakk> \<Longrightarrow> span p n \<inter> span q k = {}"
  using span_bounds [of _ p n] span_bounds [of _ q k] by fastforce

lemma screen_disjoint: "\<lbrakk>unat p + n \<le> 0xC00B8000\<rbrakk> \<Longrightarrow> span p n \<inter> screen_span = {}"
  using span_bounds [of _ p n] by (fastforce simp: screen_span_def VGA_MEMORY_def word_le_nat_alt)

text \<open>The names of the commands at \<open>0x8100\<close>, and the line \<open>Ver x\<close> in the buffer.\<close>

definition sample_line :: "u8 list" where
  "sample_line = [0x56, 0x65, 0x72, 0x20, 0x78]"

definition shell_memory :: memory where
  "shell_memory a = (let k = unat (a - 0x8000) in
     if k < 5 then sample_line ! k
     else if 256 \<le> k \<and> k < 480 then
       let s = string_bytes (command_names ! ((k - 256) div 16)); j = (k - 256) mod 16 in if j < length s then s ! j else 0
     else 0)"

definition sample_env :: shell_env where
  "sample_env = \<lparr>se_uart = \<lambda>_. 0x20, se_beyond = \<lambda>_. 0, se_irq = \<lambda>_. [], se_buffer = 0x8000, se_cmd = 0x8040, se_args = 0x8080,
     se_names = \<lambda>i. 0x8100 + 16 * of_nat i, se_paths = \<lambda>_. 0, se_entries = \<lambda>_. 0\<rparr>"

lemma sample_apart: "arrays_apart sample_env"
proof -
  have "span 0x8000 33 \<inter> span 0x8040 33 = {}" "span 0x8000 33 \<inter> span 0x8080 33 = {}" "span 0x8040 33 \<inter> span 0x8080 33 = {}"
    by (rule span_disjoint; simp)+
  moreover have "span 0x8000 33 \<inter> screen_span = {}" "span 0x8040 33 \<inter> screen_span = {}" "span 0x8080 33 \<inter> screen_span = {}"
    by (rule screen_disjoint; simp)+
  ultimately show ?thesis by (auto simp: arrays_apart_def sample_env_def)
qed

lemma line_okI:
  "\<lbrakk>cstr (mc_memory m) (se_buffer env) line; mc_memory m (se_buffer env + 32) = 0; length line \<le> 32; sh_i sh = of_nat (length line);
    tty_ok (con_tty (mc_con m))\<rbrakk> \<Longrightarrow> line_ok env line (sh, m)"
  using cstr_byte [of "mc_memory m" "se_buffer env" line] cstr_append [of "mc_memory m" "se_buffer env" line "[]"]
  by (auto simp: line_ok_def in_set_conv_nth)

lemma sample_names:
  "list_all (\<lambda>i. cstr shell_memory (se_names sample_env i) (string_bytes (command_names ! i)) \<and>
     length (string_bytes (command_names ! i)) < 16) [0 ..< 14]"
  "cstr shell_memory 0x8000 sample_line" "shell_memory 0x8020 = 0"
  by code_simp+

lemma sample_names_kept:
  assumes "kept (span 0x8040 33 \<union> span 0x8080 33) shell_memory mem"
  shows "names_at sample_env mem"
  unfolding names_at_def
proof (intro allI impI)
  fix i :: nat
  assume i: "i < 14"
  then have n: "cstr shell_memory (se_names sample_env i) (string_bytes (command_names ! i))" "length (string_bytes (command_names ! i)) < 16"
    using sample_names(1) by (auto simp: list_all_iff)
  have "se_names sample_env i + of_nat k \<notin> span 0x8040 33 \<union> span 0x8080 33" if "k \<le> length (string_bytes (command_names ! i))" for k
  proof -
    have "unat (se_names sample_env i + of_nat k) = 0x8100 + 16 * i + k"
      using i n(2) that by (simp add: sample_env_def unat_word_ariths unat_of_nat take_bit_nat_eq_self)
    then show ?thesis
      using span_bounds [of "se_names sample_env i + of_nat k" "0x8040" 33] span_bounds [of "se_names sample_env i + of_nat k" "0x8080" 33] by auto
  qed
  then show "cstr mem (se_names sample_env i) (string_bytes (command_names ! i))" by (rule kept_cstr [OF n(1) assms])
qed

definition shell_machine :: machine where
  "shell_machine = set_memory shell_memory sample_machine"

lemma shell_machine_facts: "mc_memory shell_machine = shell_memory" "tty_ok (con_tty (mc_con shell_machine))"
  by (simp_all add: shell_machine_def mc_memory_def sample_facts)

theorem kshell_enter_runs_witness:
  "\<exists>mem. cstr mem 0x8080 [0x78] \<and>
    kshell_enter sample_env (\<lparr>sh_i = 5, sh_x = 0, sh_y = 0\<rparr>, shell_machine) = do {
      m \<leftarrow> sh_print sample_env [Lit ''\<newline>''] (set_memory mem shell_machine);
      (_, m) \<leftarrow> kshell_command_ver sample_env 0x8080 m;
      finish_line sample_env \<lparr>sh_i = 5, sh_x = 0, sh_y = 0\<rparr> m }"
proof -
  let ?sh = "\<lparr>sh_i = 5, sh_x = 0, sh_y = 0\<rparr>"
  have ok: "line_ok sample_env sample_line (?sh, shell_machine)"
    using sample_names(2,3) shell_machine_facts by (intro line_okI) (simp_all add: sample_env_def sample_line_def)
  have found: "find (same_name (command_word sample_line)) [0 ..< 14] = Some 4" "argument_text sample_line = [0x78]" "sample_line \<noteq> []"
    by code_simp+
  have nth: "kshell_commands ! 4 = kshell_command_ver" by (simp add: kshell_commands_def)
  have names: "names_at sample_env mem"
    if "kept (span (se_cmd sample_env) 33 \<union> span (se_args sample_env) 33) (mc_memory shell_machine) mem" for mem
    using sample_names_kept that by (simp add: shell_machine_facts sample_env_def)
  have args: "se_args sample_env = 0x8080" by (simp add: sample_env_def)
  from kshell_enter_runs [OF sample_apart ok found(3) names] show ?thesis
    unfolding found option.case nth args by blast
qed

theorem kshell_line_refines_witness:
  "\<exists>st'. kshell_chars sample_env [0x41, 0x08, 0x42, 0x43] (\<lparr>sh_i = 0, sh_x = 0, sh_y = 0\<rparr>, set_memory (\<lambda>_. 0) sample_machine) = Some st' \<and>
     cstr (mc_memory (snd st')) 0x8000 [0x42, 0x43]"
proof -
  have ok: "line_ok sample_env [] (\<lparr>sh_i = 0, sh_x = 0, sh_y = 0\<rparr>, set_memory (\<lambda>_. 0) sample_machine)"
    by (rule line_okI) (simp_all add: mc_memory_def sample_facts)
  have "span (se_buffer sample_env) 33 \<inter> screen_span = {}" using sample_apart by (auto simp: arrays_apart_def)
  from kshell_line_refines [OF ok this, of "[0x41, 0x08, 0x42, 0x43]"] show ?thesis
    by (auto simp: edit_def sample_env_def)
qed

theorem kshell_left_backspace_witness:
  "\<exists>sh1 m1. kshell_scancode sample_env 0x4B (\<lparr>sh_i = 0, sh_x = 1, sh_y = 0\<rparr>, shell_machine) = Some (sh1, m1) \<and>
     mc_memory (snd (kshell_backspace sample_env (sh1, m1))) 0x7FFE = 0"
  using kshell_left_backspace [of "\<lparr>sh_i = 0, sh_x = 1, sh_y = 0\<rparr>" sample_env shell_machine] by (auto simp: sample_env_def)

theorem prockill_kills_first_witness:
  "\<exists>m'. kshell_command_proc_kill sample_env 0x9000 (shell_machine\<lparr>mc_kernel := demo_kernel\<rparr>) = Some (0, m') \<and>
     sched_lists (mc_kernel m') [0x200, 0x300] [0x400, 0x100]"
proof -
  let ?m = "shell_machine\<lparr>mc_kernel := demo_kernel\<rparr>"
  have mem: "mc_memory ?m = shell_memory" using shell_machine_facts by (simp add: mc_memory_def)
  have arg: "strtoul (mc_memory ?m) 0x9000 None 0 = Some (0, None)"
    unfolding mem by (simp add: strtoul_def shell_memory_def Let_def)
  have found: "find (\<lambda>p. pr_id (k_procs (mc_kernel ?m) p) = 0) [0x100, 0x200, 0x300] = Some 0x100"
    by (simp add: demo_kernel_def plain_process_def)
  have "pr_flags (k_procs (mc_kernel ?m) p) AND PROC_FLAG_KILL = 0" if "p \<in> set [0x100, 0x200, 0x300]" for p
    using that by (auto simp: demo_kernel_def plain_process_def PROC_FLAG_KILL_def)
  moreover have "sched_lists (mc_kernel ?m) [0x100, 0x200, 0x300] [0x400]" using demo_lists by simp
  moreover have "tty_ok (con_tty (mc_con ?m))" using shell_machine_facts by simp
  ultimately show ?thesis
    using prockill_kills_first [where m = ?m and env = sample_env, OF _ arg] found by fastforce
qed

end
