(* ===== verification/Mminit.thy ===== *)
theory Mminit
  imports Kheap_Ops Pmm_Correct
begin

text \<open>
  \<^verbatim>\<open>src/mm/mminit.c\<close>: building the memory stack at boot. The addresses of the linker symbols \<^verbatim>\<open>sec_kstart\<close> and
  \<^verbatim>\<open>sec_kend\<close> are arguments, as are the boot loader's memory and information record (\<open>Kphysmap\<close>). The
  result holds the memory map, the boot allocator, the kernel heap, the kernel's virtual manager, the
  physical manager and the page tables.
\<close>

definition mminit ::
  "u32 \<Rightarrow> u32 \<Rightarrow> (u32 \<Rightarrow> u32) \<Rightarrow> multiboot_info option \<Rightarrow> heap \<times> mm \<Rightarrow> (kphysmap \<times> kinit_alloc \<times> heap \<times> mm) option" where
  "mminit sec_kstart sec_kend rd info st = (case st of (kheap, kvmm, p, g) \<Rightarrow>
    (let kbase = P2V sec_kstart;
         kend = ALIGN sec_kend PAGE_SIZE in do {
     m \<leftarrow> mb_init rd info kphysmap_init;
     ka \<leftarrow> kinit_alloc_init kend 0x00100000;
     (p, ka, g) \<leftarrow> pmm_init m p (ka, g);
     (kvmm, ka, g) \<leftarrow> vmm_init KVIRT KVIRT_END kinit_alloc kvmm (ka, g);
     ka \<leftarrow> kinit_alloc_finalize ka;
     let ksize = ALIGN (kend - kbase) PAGE_SIZE;
         kinit_alloc_base = kinit_alloc_get_base ka;
         kinit_alloc_end = kinit_alloc_get_next ka;
         kinit_alloc_size = ALIGN (kinit_alloc_end - kinit_alloc_base) PAGE_SIZE in do {
     p \<leftarrow> pmm_mark_used 0 0x100000 p;
     p \<leftarrow> pmm_mark_used (V2P kbase) ksize p;
     p \<leftarrow> pmm_mark_used (V2P kinit_alloc_base) kinit_alloc_size p;
     (_, kvmm) \<leftarrow> vmm_mark_used (P2V 0) 0x100000 kvmm;
     (_, kvmm) \<leftarrow> vmm_mark_used kbase ksize kvmm;
     (_, kvmm) \<leftarrow> vmm_mark_used kinit_alloc_base kinit_alloc_size kvmm;
     let kheap = heap_init kheap in
     Some (m, ka, kheap, kvmm, p, g) } }))"

section \<open>The memory stack after boot\<close>

text \<open>The pages of the first megabyte, of the kernel image and of the boot allocations.\<close>

definition boot_pages :: "u32 \<Rightarrow> kinit_alloc \<Rightarrow> nat set" where
  "boot_pages sec_kstart ka = {..< 256} \<union> {unat sec_kstart div 4096 ..< (unat (V2P (ka_next ka)) + 4095) div 4096}"

text \<open>Both bitmaps fit into the megabyte of the boot allocator.\<close>

lemma kinit_alloc_step:
  assumes "ka_wf ka" and "pg_wf g" and "unat (ka_limit ka) = 0x100000" and "unat sz \<le> 0x20000"
    and "unat (ka_next ka) \<le> unat (ka_base ka) + 0x80000"
  shows "\<exists>ptr n g'. kinit_alloc sz (ka, g) = Some (ptr, ka\<lparr>ka_next := n\<rparr>, g') \<and> ka_wf (ka\<lparr>ka_next := n\<rparr>) \<and> pg_wf g' \<and>
    unat (ka_next ka) + unat sz \<le> unat n \<and> unat n \<le> unat (ka_next ka) + unat sz + 15 \<and> unat (ka_next ka) \<le> unat ptr"
proof -
  have "unat (ka_next ka) + 15 < 4294967296" using assms(1) by (simp add: ka_wf_def)
  note al = ALIGN_16 [OF this]
  have fits: "unat (ALIGN (ka_next ka) 16) + unat sz \<le> unat (ka_base ka) + unat (ka_limit ka)"
    using al assms(3-5) by linarith
  have sz: "unat (ka_limit ka) + unat sz + 16 < 4294967296" using assms(3,4) by linarith
  from kinit_alloc_some [OF assms(1,2) sz fits refl] show ?thesis using al by fastforce
qed

lemma vpages_kernel:
  assumes "vmm_shape v" and "vmm_base v = KVIRT" and "vmm_end v = KVIRT_END"
    and "unat a = 0xC0000000 + 4096 * i" and "unat b = 0xC0000000 + 4096 * j" and "j \<le> 0x3FC00"
  shows "vpages v a b = {i ..< j}"
proof -
  have total: "unat (vmm_total_pages v) = 0x3FC00"
    using assms(1-3) by (simp add: vmm_shape_def KVIRT_def KVIRT_END_def TO_PAGE_def)
  have "unat (vaddr v n) = 0xC0000000 + 4096 * n" if "n < 0x3FC00" for n
    using unat_vaddr [OF assms(1), of n] that total assms(2) by (simp add: KVIRT_def)
  then show ?thesis using assms(4-6) total by (auto simp: vpages_def)
qed

lemma vmm_mark_kernel:
  assumes "vmm_counted v" and "vmm_base v = KVIRT" and "vmm_end v = KVIRT_END"
    and "unat a = 0xC0000000 + 4096 * i" and "unat sz = 4096 * k" and "i + k \<le> 0x3FC00"
  shows "\<exists>r w. vmm_mark_used a sz v = Some (r, w) \<and> vmm_counted w \<and> vmm_base w = KVIRT \<and> vmm_end w = KVIRT_END \<and>
    vfree w = vfree v - {i ..< i + k}"
proof -
  have shape: "vmm_shape v" using assms(1) by (simp add: vmm_counted_def)
  have a: "vmm_base v \<le> a" "a \<le> vmm_end v" using assms(2-6) by (simp_all add: word_le_nat_alt KVIRT_def KVIRT_END_def)
  have "unat (vmm_end v - a) = 0xFFC00000 - unat a" using a(2) assms(3) by (subst unat_sub_u32) (simp_all add: KVIRT_END_def word_le_nat_alt)
  then have sz: "sz \<le> vmm_end v - a" using assms(4-6) by (simp add: word_le_nat_alt)
  have "unat (a + sz) = unat a + unat sz" using assms(4-6) by (intro unat_add_u32) simp
  then have "unat (a + sz) = 0xC0000000 + 4096 * (i + k)" using assms(4,5) by simp
  from vpages_kernel [OF shape assms(2-4) this assms(6)] vmm_mark_used_step [OF assms(1) a sz] assms(2,3)
  show ?thesis by (auto simp: same_range_def)
qed

lemma pmm_mark_kernel:
  assumes "pmm_wf p" and "unat phys = 4096 * i" and "unat sz = 4096 * k" and "i + k < 0x40000" and "phys \<le> pmm_memory_end p"
  shows "\<exists>p'. pmm_mark_used phys sz p = Some p' \<and> pmm_wf p' \<and> pmm_memory_end p' = pmm_memory_end p \<and>
    free_set p' = free_set p - {i ..< i + k}"
proof -
  have "(4096 * i + 4096 * k + 4095) div 4096 = i + k" by presburger
  then have "pages_of phys sz = {i ..< i + k}" by (simp add: pages_of_def assms(2,3))
  then show ?thesis using pmm_mark_used_step [OF assms(1) _ assms(5), of sz] assms(2-4) by (auto simp: geometry_def)
qed

text \<open>A kernel image of whole pages from \<open>ks\<close> to \<open>ke\<close> that lies, with a megabyte behind it, in RAM.\<close>

definition kernel_fits :: "u32 \<Rightarrow> u32 \<Rightarrow> u32 \<Rightarrow> bool" where
  "kernel_fits sec_kstart sec_kend memory_end \<longleftrightarrow>
    page_aligned sec_kstart \<and> unat (P2V sec_kstart) = 0xC0000000 + unat sec_kstart \<and>
    unat (P2V sec_kstart) \<le> unat sec_kend \<and> unat sec_kend + 0x101010 \<le> 0xFFC00000 \<and>
    unat sec_kend \<le> 0xC0000000 + unat memory_end \<and> page_aligned memory_end"

lemma kernel_fits_pages:
  assumes "kernel_fits sec_kstart sec_kend memory_end"
  obtains ks ke where "unat sec_kstart = 4096 * ks" and "unat (P2V sec_kstart) = 0xC0000000 + 4096 * ks"
    and "unat (ALIGN sec_kend PAGE_SIZE) = 0xC0000000 + 4096 * ke" and "ks \<le> ke" and "4096 * ke + 0x100010 \<le> 0x3FC00000"
    and "4096 * ke \<le> unat memory_end"
proof -
  have a: "unat sec_kstart mod 4096 = 0" "unat memory_end mod 4096 = 0" using assms by (simp_all add: kernel_fits_def page_aligned_def)
  define ks where "ks = unat sec_kstart div 4096"
  have ks: "unat sec_kstart = 4096 * ks" using a(1) by (simp add: ks_def mod_0_imp_dvd)
  have kend: "unat (ALIGN sec_kend PAGE_SIZE) = (unat sec_kend + 4095) div 4096 * 4096"
    using assms by (intro ALIGN_up) (simp add: kernel_fits_def)
  define ke where "ke = (unat sec_kend + 4095) div 4096 - 0xC0000"
  have lo: "0xC0000000 + 4096 * ks \<le> unat sec_kend" using assms ks by (simp add: kernel_fits_def)
  have ke: "unat (ALIGN sec_kend PAGE_SIZE) = 0xC0000000 + 4096 * ke" using kend lo by (simp add: ke_def)
  define x where "x = unat sec_kend + 4095"
  have x: "x div 4096 * 4096 \<le> x" "x < x div 4096 * 4096 + 4096"
    using div_mult_mod_eq [of x 4096] mod_less_divisor [of 4096 x] by linarith+
  have up: "0xC0000000 + 4096 * ke < unat sec_kend + 4096" using ke kend x(1) by (simp add: x_def)
  obtain me where me: "unat memory_end = 4096 * me" using a(2) by (auto simp: mod_0_imp_dvd dvd_def)
  have "4096 * ke < 4096 * me + 4096" using up assms me by (simp add: kernel_fits_def)
  then have "4096 * ke \<le> unat memory_end" using me by simp
  moreover have "4096 * ks < 4096 * ke + 1" using lo ke kend x(2) by (simp add: x_def)
  then have "ks \<le> ke" by simp
  moreover have "4096 * ke + 0x100010 \<le> 0x3FC00000" using up assms by (simp add: kernel_fits_def)
  ultimately show thesis using that ks ke assms by (simp add: kernel_fits_def)
qed

text \<open>The end of the RAM that the physical manager finds in the map.\<close>

definition ram_end :: "kphysmap \<Rightarrow> pmm \<Rightarrow> u32" where
  "ram_end m p = pmm_memory_end (fold measure_region (km_list m) (p\<lparr>pmm_memory_end := 0, pmm_usable_pages := 0\<rparr>))"

lemma boot_allocations:
  assumes "unat kend = 0xC0000000 + 4096 * ke" and "4096 * ke + 0x100010 \<le> 0x3FC00000" and "pg_wf g"
    and "0 < km_count m" and "regions_fit (km_list m)"
  shows "\<exists>ka ka1 ka2 p1 v1 g1 g2. kinit_alloc_init kend 0x00100000 = Some ka \<and> pmm_init m p (ka, g) = Some (p1, ka1, g1) \<and>
    vmm_init KVIRT KVIRT_END kinit_alloc v (ka1, g1) = Some (v1, ka2, g2) \<and>
    kinit_alloc_finalize ka2 = Some (ka2\<lparr>ka_enabled := False, ka_limit := ka_next ka2 - ka_base ka2\<rparr>) \<and>
    ka_base ka2 = kend \<and> unat kend \<le> unat (ka_next ka2) \<and> unat (ka_next ka2) \<le> unat kend + 0x100000 \<and> pg_wf g2 \<and>
    pmm_inv p1 \<and> free_set p1 = ram_pages (km_list m) - {0} \<and> pmm_memory_end p1 = ram_end m p \<and>
    vmm_inv v1 \<and> vmm_base v1 = KVIRT \<and> vmm_end v1 = KVIRT_END \<and> vfree v1 = {..< 0x3FC00}"
proof -
  define ka where "ka = \<lparr>ka_base = kend, ka_next = kend, ka_limit = 0x100000, ka_enabled = True\<rparr>"
  have "unat kend mod 4096 = 0" using assms(1) by (simp add: mod_add_eq [symmetric])
  then have al: "page_aligned kend" by (simp add: page_aligned_def)
  then have init: "kinit_alloc_init kend 0x00100000 = Some ka"
    by (simp add: kinit_alloc_init_def ka_def page_aligned_iff [symmetric] page_aligned_def)
  have wf: "ka_wf ka" using assms(1,2) al by (simp add: ka_wf_def ka_def)
  let ?b1 = "CEIL_DIV (TO_PAGE (ram_end m p + (PAGE_SIZE - 1))) 32 * 4"
  have tot: "unat (TO_PAGE (ram_end m p + (PAGE_SIZE - 1))) < 1048576" by simp
  have "(unat (TO_PAGE (ram_end m p + (PAGE_SIZE - 1))) + 31) div 32 \<le> 1048606 div 32"
    by (rule div_le_mono) (use tot in linarith)
  then have b1: "unat ?b1 \<le> 0x20000" using bitmap_bytes [OF tot] by simp
  obtain ptr1 n1 g1 where k1: "kinit_alloc ?b1 (ka, g) = Some (ptr1, ka\<lparr>ka_next := n1\<rparr>, g1)" "ka_wf (ka\<lparr>ka_next := n1\<rparr>)" "pg_wf g1"
      "unat kend \<le> unat n1" "unat n1 \<le> unat kend + 0x20000 + 15" "unat kend \<le> unat ptr1"
    using kinit_alloc_step [OF wf assms(3) _ b1] b1 by (auto simp: ka_def)
  have "ptr1 \<noteq> 0" using k1(6) assms(1) by auto
  then obtain p1 where p1: "pmm_init m p (ka, g) = Some (p1, ka\<lparr>ka_next := n1\<rparr>, g1)" "pmm_inv p1"
      "free_set p1 = ram_pages (km_list m) - {0}" "pmm_memory_end p1 = ram_end m p"
    using pmm_init_step [OF assms(4,5) k1(1) [unfolded ram_end_def], folded ram_end_def] by blast
  let ?b2 = "CEIL_DIV (TO_PAGE (KVIRT_END - KVIRT)) 32 * 4"
  have b2: "unat ?b2 = 32640" by (simp add: KVIRT_END_def KVIRT_def TO_PAGE_def CEIL_DIV_def)
  obtain ptr2 n2 g2 where k2: "kinit_alloc ?b2 (ka\<lparr>ka_next := n1\<rparr>, g1) = Some (ptr2, ka\<lparr>ka_next := n2\<rparr>, g2)" "pg_wf g2"
      "unat n1 + 32640 \<le> unat n2" "unat n2 \<le> unat n1 + 32655" "unat n1 \<le> unat ptr2"
    using kinit_alloc_step [OF k1(2,3), of ?b2] b2 k1(5) by (auto simp: ka_def)
  have kvirt: "page_aligned KVIRT" "page_aligned KVIRT_END" "KVIRT < KVIRT_END" "KVIRT \<noteq> 0" "unat (TO_PAGE (KVIRT_END - KVIRT)) = 0x3FC00"
    by (simp_all add: KVIRT_END_def KVIRT_def page_aligned_def TO_PAGE_def)
  have "ptr2 \<noteq> 0" using k1(4) k2(5) assms(1) by auto
  then obtain v1 where v1: "vmm_init KVIRT KVIRT_END kinit_alloc v (ka\<lparr>ka_next := n1\<rparr>, g1) = Some (v1, ka\<lparr>ka_next := n2\<rparr>, g2)"
      "vmm_inv v1" "vmm_base v1 = KVIRT" "vmm_end v1 = KVIRT_END" "vfree v1 = {..< 0x3FC00}"
    using vmm_init_step [of KVIRT KVIRT_END kinit_alloc "(ka\<lparr>ka_next := n1\<rparr>, g1)" ptr2 "(ka\<lparr>ka_next := n2\<rparr>, g2)" v] k2(1) kvirt by auto
  have "kend < n2" using k2(3) k1(4) by (simp add: word_less_nat_alt)
  then have fin: "kinit_alloc_finalize (ka\<lparr>ka_next := n2\<rparr>) =
      Some (ka\<lparr>ka_next := n2\<rparr>\<lparr>ka_enabled := False, ka_limit := ka_next (ka\<lparr>ka_next := n2\<rparr>) - ka_base (ka\<lparr>ka_next := n2\<rparr>)\<rparr>)"
    by (simp add: kinit_alloc_finalize_def ka_def)
  let ?ka2 = "ka\<lparr>ka_next := n2\<rparr>"
  have n2: "ka_base ?ka2 = kend" "unat kend \<le> unat (ka_next ?ka2)" "unat (ka_next ?ka2) \<le> unat kend + 0x100000"
    using k1(4,5) k2(3,4) by (simp_all add: ka_def)
  show ?thesis
    by (intro exI conjI)
      (rule init, rule p1(1), rule v1(1), rule fin, rule n2(1), rule n2(2), rule n2(3), rule k2(2), rule p1(2), rule p1(3), rule p1(4),
        rule v1(2), rule v1(3), rule v1(4), rule v1(5))
qed

lemma heap_system_empty: "\<lbrakk>vmm_inv v; pmm_inv p; pg_wf g\<rbrakk> \<Longrightarrow> heap_system (heap_init h, v, p, g) []"
  by (simp add: heap_system_def heap_inv_def heap_init_def dll_def)

lemma mminit_step:
  assumes "mb_init rd info kphysmap_init = Some m" and "0 < km_count m" and "regions_fit (km_list m)" and "pg_wf g"
    and "kernel_fits sec_kstart sec_kend (ram_end m p)"
  shows "\<exists>ka h' v' p' g'. mminit sec_kstart sec_kend rd info (h, v, p, g) = Some (m, ka, h', v', p', g') \<and>
    heap_system (h', v', p', g') [] \<and> \<not> ka_enabled ka \<and>
    free_set p' = ram_pages (km_list m) - boot_pages sec_kstart ka \<and> vfree v' = {..< 0x3FC00} - boot_pages sec_kstart ka \<and>
    (\<forall>n \<in> boot_pages sec_kstart ka. n < 256 \<or> 0xC0000000 + n * 4096 < unat sec_kend + 0x101000)"
proof -
  define kend where "kend = ALIGN sec_kend PAGE_SIZE"
  obtain ks ke where ks: "unat sec_kstart = 4096 * ks" "unat (P2V sec_kstart) = 0xC0000000 + 4096 * ks"
    and ke: "unat kend = 0xC0000000 + 4096 * ke" and le: "ks \<le> ke" "4096 * ke + 0x100010 \<le> 0x3FC00000" "4096 * ke \<le> unat (ram_end m p)"
    using kernel_fits_pages [OF assms(5), folded kend_def] .
  obtain ka ka1 ka2 p1 v1 g1 g2 where b: "kinit_alloc_init kend 0x00100000 = Some ka" "pmm_init m p (ka, g) = Some (p1, ka1, g1)"
      "vmm_init KVIRT KVIRT_END kinit_alloc v (ka1, g1) = Some (v1, ka2, g2)"
      "kinit_alloc_finalize ka2 = Some (ka2\<lparr>ka_enabled := False, ka_limit := ka_next ka2 - ka_base ka2\<rparr>)"
      "ka_base ka2 = kend" "unat kend \<le> unat (ka_next ka2)" "unat (ka_next ka2) \<le> unat kend + 0x100000" "pg_wf g2"
    and p1: "pmm_inv p1" "free_set p1 = ram_pages (km_list m) - {0}" "pmm_memory_end p1 = ram_end m p"
    and v1: "vmm_inv v1" "vmm_base v1 = KVIRT" "vmm_end v1 = KVIRT_END" "vfree v1 = {..< 0x3FC00}"
    using boot_allocations [OF ke le(2) assms(4,2,3), of p v] by (elim exE conjE) (rule that; assumption)
  define nxt where "nxt = ka_next ka2"
  define d where "d = unat nxt - unat kend"
  define kk where "kk = (d + 4095) div 4096"
  have d: "unat (nxt - kend) = d" "d \<le> 0x100000" using b(6,7) by (simp_all add: d_def nxt_def unat_sub_u32 word_le_nat_alt)
  have kk: "kk \<le> 0x100" using d(2) by (simp add: kk_def)
  have ksize: "unat (ALIGN (kend - P2V sec_kstart) PAGE_SIZE) = 4096 * (ke - ks)"
  proof -
    have "unat (kend - P2V sec_kstart) = 4096 * (ke - ks)"
      using ks(2) ke le(1) by (subst unat_sub_u32) (simp_all add: word_le_nat_alt diff_mult_distrib2)
    then show ?thesis using ALIGN_up(1) [of "kend - P2V sec_kstart"] le by simp
  qed
  have asize: "unat (ALIGN (nxt - kend) PAGE_SIZE) = 4096 * kk"
    using ALIGN_up(1) [of "nxt - kend"] d by (simp add: kk_def)
  have phys: "V2P (P2V sec_kstart) = sec_kstart" "unat (V2P kend) = 4096 * ke" "unat (P2V 0) = 0xC0000000 + 4096 * 0"
    using ke by (simp_all add: V2P_def P2V_def KVIRT_def unat_sub_u32 word_le_nat_alt)
  obtain p2 where p2: "pmm_mark_used 0 0x100000 p1 = Some p2" "pmm_wf p2" "pmm_memory_end p2 = ram_end m p" "free_set p2 = free_set p1 - {..< 256}"
    using pmm_mark_kernel [of p1 0 0 "0x100000" 256] p1 by (auto simp: pmm_inv_def atLeast0LessThan)
  obtain p3 where p3: "pmm_mark_used sec_kstart (ALIGN (kend - P2V sec_kstart) PAGE_SIZE) p2 = Some p3" "pmm_wf p3"
      "pmm_memory_end p3 = ram_end m p" "free_set p3 = free_set p2 - {ks ..< ke}"
    using pmm_mark_kernel [OF p2(2) ks(1) ksize] le p2(3) ks(1) by (auto simp: word_le_nat_alt)
  obtain p4 where p4: "pmm_mark_used (V2P kend) (ALIGN (nxt - kend) PAGE_SIZE) p3 = Some p4" "pmm_wf p4" "free_set p4 = free_set p3 - {ke ..< ke + kk}"
    using pmm_mark_kernel [OF p3(2) phys(2) asize] le kk p3(3) phys(2) by (auto simp: word_le_nat_alt)
  have c1: "vmm_counted v1" using v1(1) by (simp add: vmm_inv_def vmm_counted_def)
  obtain r2 v2 where v2: "vmm_mark_used (P2V 0) 0x100000 v1 = Some (r2, v2)" "vmm_counted v2" "vmm_base v2 = KVIRT" "vmm_end v2 = KVIRT_END"
      "vfree v2 = vfree v1 - {..< 256}"
    using vmm_mark_kernel [OF c1 v1(2,3) phys(3), of "0x100000" 256] by (auto simp: atLeast0LessThan)
  obtain r3 v3 where v3: "vmm_mark_used (P2V sec_kstart) (ALIGN (kend - P2V sec_kstart) PAGE_SIZE) v2 = Some (r3, v3)" "vmm_counted v3"
      "vmm_base v3 = KVIRT" "vmm_end v3 = KVIRT_END" "vfree v3 = vfree v2 - {ks ..< ke}"
    using vmm_mark_kernel [OF v2(2-4) ks(2) ksize] le by auto
  obtain r4 v4 where v4: "vmm_mark_used kend (ALIGN (nxt - kend) PAGE_SIZE) v3 = Some (r4, v4)" "vmm_counted v4"
      "vmm_base v4 = KVIRT" "vfree v4 = vfree v3 - {ke ..< ke + kk}"
    using vmm_mark_kernel [OF v3(2-4) ke asize] le kk by auto
  have boot: "boot_pages sec_kstart (ka2\<lparr>ka_enabled := False, ka_limit := nxt - kend\<rparr>) = {..< 256} \<union> {ks ..< ke} \<union> {ke ..< ke + kk}"
  proof -
    have "unat (V2P nxt) = 4096 * ke + d"
      using ke b(6) by (simp add: V2P_def KVIRT_def unat_sub_u32 word_le_nat_alt d_def nxt_def)
    then have "(unat (V2P nxt) + 4095) div 4096 = ke + kk" unfolding kk_def by (simp add: add.assoc)
    moreover have "unat sec_kstart div 4096 = ks" using ks(1) by simp
    ultimately show ?thesis using le(1) by (auto simp: boot_pages_def nxt_def [symmetric])
  qed
  have "unat kend = (unat sec_kend + 4095) div 4096 * 4096"
    unfolding kend_def using assms(5) by (intro ALIGN_up) (simp add: kernel_fits_def)
  then have "0xC0000000 + 4096 * ke \<le> unat sec_kend + 4095" using ke by (simp add: div_times_less_eq_dividend)
  then have below: "\<forall>n \<in> boot_pages sec_kstart (ka2\<lparr>ka_enabled := False, ka_limit := nxt - kend\<rparr>).
      n < 256 \<or> 0xC0000000 + n * 4096 < unat sec_kend + 0x101000"
    unfolding boot using le(1) kk by auto
  have "mminit sec_kstart sec_kend rd info (h, v, p, g) =
      Some (m, ka2\<lparr>ka_enabled := False, ka_limit := nxt - kend\<rparr>, heap_init h, v4, p4, g2)"
    using assms(1) b p2(1) p3(1) p4(1) v2(1) v3(1) v4(1)
    by (simp add: mminit_def kend_def [symmetric] nxt_def [symmetric] kinit_alloc_get_base_def kinit_alloc_get_next_def phys(1) Let_def)
  moreover have "heap_system (heap_init h, v4, p4, g2) []"
  proof (rule heap_system_empty [OF _ _ b(8)])
    show "vmm_inv v4" using v4(2,3) by (simp add: vmm_inv_def vmm_counted_def KVIRT_def)
    show "pmm_inv p4" using p4(2,3) p3(4) p2(4) by (simp add: pmm_inv_def)
  qed
  moreover have "free_set p4 = ram_pages (km_list m) - boot_pages sec_kstart (ka2\<lparr>ka_enabled := False, ka_limit := nxt - kend\<rparr>)"
    unfolding boot p4(3) p3(4) p2(4) p1(2) by auto
  moreover have "vfree v4 = {..< 0x3FC00} - boot_pages sec_kstart (ka2\<lparr>ka_enabled := False, ka_limit := nxt - kend\<rparr>)"
    unfolding boot v4(4) v3(5) v2(5) v1(4) by auto
  ultimately show ?thesis using below by (intro exI conjI) (assumption | simp)+
qed

text \<open>
  C26: on a memory map with RAM up to the end of the kernel image, \<^verbatim>\<open>mminit\<close> returns with an empty heap on
  consistent managers, and disables the boot allocator. The free frames are exactly the RAM pages and
  the free kernel addresses exactly the pages of the kernel range that belong neither to the first
  megabyte nor to the kernel image nor to what the boot allocator handed out.
\<close>

theorem mminit_correct:
  assumes "mb_init rd info kphysmap_init = Some m" and "0 < km_count m" and "regions_fit (km_list m)" and "pg_wf g"
    and "kernel_fits sec_kstart sec_kend (ram_end m p)"
  shows "\<exists>ka h' v' p' g'. mminit sec_kstart sec_kend rd info (h, v, p, g) = Some (m, ka, h', v', p', g') \<and>
    heap_system (h', v', p', g') [] \<and> \<not> ka_enabled ka \<and>
    free_set p' = ram_pages (km_list m) - boot_pages sec_kstart ka \<and> vfree v' = {..< 0x3FC00} - boot_pages sec_kstart ka"
  using mminit_step [OF assms, of h v] by blast

text \<open>One region of RAM behind the first megabyte, and a kernel of 256 KiB at its beginning.\<close>

definition sample_boot_memory :: "u32 \<Rightarrow> u32 \<Rightarrow> u32" where
  "sample_boot_memory len a = (if a = 0xC0009000 then 20 else if a = 0xC0009004 then 0x100000 else if a = 0xC000900C then len
     else if a = 0xC0009014 then 1 else 0)"

definition sample_boot_info :: multiboot_info where
  "sample_boot_info = \<lparr>mbi_flags = 0x40, mbi_mmap_length = 24, mbi_mmap_addr = 0x9000\<rparr>"

lemma sample_boot_map:
  "\<exists>m. mb_init (sample_boot_memory len) (Some sample_boot_info) kphysmap_init = Some m \<and> 0 < km_count m \<and>
    km_list m = [\<lparr>kr_address = 0x100000, kr_size = len, kr_flags = 3\<rparr>]"
proof -
  let ?es = "[\<lparr>mb_size = 20, mb_addr1 = 0x100000, mb_addr2 = 0, mb_len1 = len, mb_len2 = 0, mb_type = 1\<rparr>]"
  have l: "laid_out (sample_boot_memory len) 0xC0009000 ?es" "layout_size ?es = 24"
    by (simp_all add: sample_boot_memory_def read_entry_def)
  obtain m where m: "mb_loop (sample_boot_memory len) 0xC0009000 0xC0009018 kphysmap_init = Some m" "km_wf m" "km_list m = map region_of ?es"
    using mb_loop_copies [OF l(1) _ km_wf_init(1)] l(2) km_wf_init by auto
  have "mb_init (sample_boot_memory len) (Some sample_boot_info) kphysmap_init = Some m"
    using m(1) by (simp add: mb_init_def sample_boot_info_def MULTIBOOT_FLAGS_MMAP_def P2V_def KVIRT_def)
  moreover have "0 < km_count m" using m(3) by (auto simp: km_list_def word_neq_0_conv [symmetric])
  ultimately show ?thesis using m(3) by (auto simp: region_of_def)
qed

theorem mminit_correct_witness:
  "\<exists>m ka h' v' p' g'. mminit 0x100000 0xC0140000 (sample_boot_memory 0xF00000) (Some sample_boot_info) (undefined, eight_pages, six_pages, pg_empty 0x300000) =
      Some (m, ka, h', v', p', g') \<and> heap_system (h', v', p', g') [] \<and> 0xB8 \<notin> vfree v'"
proof -
  obtain m where m: "mb_init (sample_boot_memory 0xF00000) (Some sample_boot_info) kphysmap_init = Some m" "0 < km_count m"
    "km_list m = [\<lparr>kr_address = 0x100000, kr_size = 0xF00000, kr_flags = 3\<rparr>]" using sample_boot_map [of "0xF00000"] by blast
  have ram: "is_ram \<lparr>kr_address = a, kr_size = s, kr_flags = 3\<rparr>" for a s
    by (simp add: is_ram_def KPHYSREGION_VALID_def KPHYSREGION_TYPE_MASK_def KPHYSREGION_TYPE_RAM_def)
  have fit: "regions_fit (km_list m)" by (simp add: m(3) regions_fit_def)
  have "ram_end m six_pages = 0x1000000" by (simp add: ram_end_def m(3) measure_region_def ram Let_def)
  then have k: "kernel_fits 0x100000 0xC0140000 (ram_end m six_pages)"
    by (simp add: kernel_fits_def page_aligned_def P2V_def KVIRT_def)
  show ?thesis
    using mminit_correct [OF m(1,2) fit pg_wf_empty [of "0x300000"] k, of undefined eight_pages] by (fastforce simp: boot_pages_def)
qed

end
