(* ===== verification/Kmain.thy ===== *)
theory Kmain
  imports Exceptions Mminit
begin

text \<open>
  \<^verbatim>\<open>src/init/tomk.c\<close> and \<^verbatim>\<open>src/libc/stdlib/malloc.c\<close>: the main function of the kernel. What the linker fixes (the
  ends of the sections, the entry of the shell, the names of the processes, the image of \<open>Scheduler\<close>) and what the
  boot loader hands over are the boot environment. The result is the state in which \<^verbatim>\<open>kmain\<close> halts; it is
  run without a timer interrupt, which \<open>Sched_Steps\<close> treats.
\<close>

record boot_env =
  be_uart :: "nat \<Rightarrow> u8"
  be_cursor :: u8
  be_boot :: "u32 \<times> u32"
  be_text :: "u32 \<times> u32"
  be_rodata :: "u32 \<times> u32"
  be_data :: "u32 \<times> u32"
  be_bss :: "u32 \<times> u32"
  be_kstart :: u32
  be_kend :: u32
  be_memory :: "u32 \<Rightarrow> u32"
  be_info :: "multiboot_info option"
  be_image :: kimage
  be_names :: "u32 \<times> u32 \<times> u32"
  be_shell_name :: u32
  be_kshell :: u32

definition m_kdprint :: "(nat \<Rightarrow> u8) \<Rightarrow> part list \<Rightarrow> machine \<Rightarrow> machine option" where
  "m_kdprint uart parts m = do { con \<leftarrow> kdprint uart parts (mc_con m); Some (m\<lparr>mc_con := con\<rparr>) }"

text \<open>A line of the list of sections.\<close>

definition print_section :: "boot_env \<Rightarrow> string \<Rightarrow> u32 \<times> u32 \<Rightarrow> string \<Rightarrow> machine \<Rightarrow> machine option" where
  "print_section env name sec newline =
     m_kdprint (be_uart env) [Lit name, Hex True 8 (fst sec), Lit ''-'', Hex True 8 (snd sec), Lit newline]"

definition print_selector :: "boot_env \<Rightarrow> string \<Rightarrow> u32 \<Rightarrow> string \<Rightarrow> machine \<Rightarrow> machine option" where
  "print_selector env name sel newline = m_kdprint (be_uart env) [Lit name, Hex True 4 (selector sel), Lit newline]"

definition print_layout :: "boot_env \<Rightarrow> machine \<Rightarrow> machine option" where
  "print_layout env m = do {
     m \<leftarrow> m_kdprint (be_uart env) [Lit ''Sections:\<newline>''] m;
     m \<leftarrow> print_section env '' .boot   '' (be_boot env) ''\<newline>'' m;
     m \<leftarrow> print_section env '' .text   '' (be_text env) ''\<newline>'' m;
     m \<leftarrow> print_section env '' .rodata '' (be_rodata env) ''\<newline>'' m;
     m \<leftarrow> print_section env '' .data   '' (be_data env) ''\<newline>'' m;
     m \<leftarrow> print_section env '' .bss    '' (be_bss env) ''\<newline>\<newline>'' m;
     m \<leftarrow> m_kdprint (be_uart env) [Lit ''Selectors:\<newline>''] m;
     m \<leftarrow> print_selector env '' KCODE  '' (ki_kcode (be_image env)) ''\<newline>'' m;
     m \<leftarrow> print_selector env '' KDATA  '' (ki_kdata (be_image env)) ''\<newline>'' m;
     m \<leftarrow> print_selector env '' KSTACK '' (ki_kstack (be_image env)) ''\<newline>'' m;
     m \<leftarrow> print_selector env '' UCODE  '' (ki_ucode (be_image env)) ''\<newline>'' m;
     m \<leftarrow> print_selector env '' UDATA  '' (ki_udata (be_image env)) ''\<newline>'' m;
     print_selector env '' USTACK '' (ki_ustack (be_image env)) ''\<newline>\<newline>'' m }"

text \<open>\<^verbatim>\<open>mminit\<close> and \<^verbatim>\<open>scheduler_init\<close> with the messages that end them; the latter returns early without a process.\<close>

definition m_mminit :: "boot_env \<Rightarrow> machine \<Rightarrow> machine option" where
  "m_mminit env m = do {
     (_, _, h, mm) \<leftarrow> mminit (be_kstart env) (be_kend env) (be_memory env) (be_info env) (k_heap (mc_kernel m), k_mm (mc_kernel m));
     m_kprint (be_uart env) [Lit ''[MM-INIT] Init OK\<newline>''] (m\<lparr>mc_kernel := (mc_kernel m)\<lparr>k_heap := h, k_mm := mm\<rparr>\<rparr>) }"

definition m_scheduler_init :: "boot_env \<Rightarrow> machine \<Rightarrow> machine option" where
  "m_scheduler_init env m = do {
     k \<leftarrow> scheduler_init (be_image env) (be_names env) (mc_kernel m);
     let m = m\<lparr>mc_kernel := k\<rparr> in
     if scheduler_current k = 0 then Some m else m_kprint (be_uart env) [Lit ''[SCHEDULER] Init OK\<newline>''] m }"

definition kmain :: "boot_env \<Rightarrow> machine \<Rightarrow> machine option" where
  "kmain env m = (
     let m = m\<lparr>mc_con := (mc_con m)\<lparr>con_tty := tty_init (be_cursor env) (con_tty (mc_con m))\<rparr>\<rparr> in do {
     m \<leftarrow> m_kprint (be_uart env) [Lit ''TOMK v0.1\<newline>\<newline>''] m;
     m \<leftarrow> print_layout env m;
     m \<leftarrow> m_mminit env m;
     m \<leftarrow> m_scheduler_init env m;
     m \<leftarrow> m_kprint (be_uart env) [Lit ''Starting .kshell...\<newline>''] m;
     (_, k) \<leftarrow> scheduler_load_kprocess (be_shell_name env) (be_kshell env) (mc_kernel m);
     m \<leftarrow> m_kprint (be_uart env) [Lit ''Unloading .kinit...\<newline>''] (m\<lparr>mc_kernel := k\<rparr>);
     Some (m\<lparr>mc_kernel := scheduler_unload_process (scheduler_current (mc_kernel m)) (mc_kernel m)\<rparr>) })"

section \<open>The C library's allocator\<close>

definition malloc :: "u32 \<Rightarrow> kernel \<Rightarrow> (u32 \<times> kernel) option" where
  "malloc sz = k_malloc sz"

definition free :: "u32 \<Rightarrow> kernel \<Rightarrow> kernel option" where
  "free ptr = k_free ptr"

end
