(* ===== verification/Kmain_Correct.thy ===== *)
theory Kmain_Correct
  imports Kmain Sched_Correct Exceptions_Correct
begin

text \<open>
  The boot of the kernel as a whole: with enough memory \<^verbatim>\<open>kmain\<close> brings up the memory managers, the heap and the
  three processes of the kernel, registers the shell and takes itself off the active list.
\<close>

section \<open>Enough memory\<close>

text \<open>
  A kernel whose processes are blocks in use, whose heap is mapped, and which has room for a run of \<open>n\<close> pages.
\<close>

definition kernel_ready :: "nat \<Rightarrow> kernel \<Rightarrow> u32 set \<Rightarrow> bool" where
  "kernel_ready n k P \<longleftrightarrow> (\<exists>rbs. procs_live k rbs P \<and> heap_mapped (k_heap k, k_mm k) rbs) \<and> run_room n (k_mm k)"

lemma kernel_ready_cong: "\<lbrakk>k_heap k' = k_heap k; k_mm k' = k_mm k\<rbrakk> \<Longrightarrow> kernel_ready n k' P = kernel_ready n k P"
  by (simp add: kernel_ready_def procs_live_def)

lemma kernel_ready_mono: "\<lbrakk>kernel_ready n k P; l \<le> n; Q \<subseteq> P\<rbrakk> \<Longrightarrow> kernel_ready l k Q"
  using run_room_less unfolding kernel_ready_def procs_live_def by blast

text \<open>An allocation then succeeds, and the block can be written.\<close>

lemma k_malloc_ready:
  assumes "kernel_ready (2 * n + c) k P" and "sz \<noteq> 0" "unat sz + 4158 < 4294967296"
    and c: "c = unat (grow_pages (ALIGN sz BLOCK_ALIGNMENT))"
  shows "\<exists>ptr k'. k_malloc sz k = Some (ptr, k') \<and> ptr \<noteq> 0 \<and> ptr \<notin> P \<and> kernel_ready n k' (insert ptr P) \<and>
    unat ptr + unat sz < 4294967296 \<and>
    (\<forall>a. unat ptr \<le> unat a \<longrightarrow> unat a < unat ptr + unat sz \<longrightarrow> pg_virt2phys a (snd (snd (k_mm k'))) \<noteq> 0)"
proof -
  obtain rbs where r: "heap_system (k_heap k, k_mm k) rbs" "\<And>p. p \<in> P \<Longrightarrow> contents (k_heap k) rbs p \<noteq> None"
      "heap_mapped (k_heap k, k_mm k) rbs" "run_room (2 * n + c) (k_mm k)"
    using assms(1) by (auto simp: kernel_ready_def procs_live_def)
  have "run_room c (k_mm k)" by (rule run_room_less [OF r(4)]) simp
  then have room: "run_room (unat (grow_pages (ALIGN sz BLOCK_ALIGNMENT))) (k_mm k)" by (simp add: c)
  obtain ptr h m where h: "heap_alloc sz 1 (k_heap k, k_mm k) = Some (ptr, h, m)" and
    q: "if ptr = 0 then h = k_heap k \<and> (\<forall>(b, r) \<in> set (pairs rbs). \<not> block_fits (k_heap k) (ALIGN sz BLOCK_ALIGNMENT) 1 r b) \<and>
        ((1 :: u32) \<noteq> 0 \<longrightarrow> \<not> run_room (unat (grow_pages (ALIGN sz BLOCK_ALIGNMENT))) (k_mm k) \<and> vmm_refused (k_mm k) m)
      else \<exists>rbs' s. heap_system (h, m) rbs' \<and> contents (k_heap k) rbs ptr = None \<and> sz \<le> s \<and>
        contents h rbs' = (contents (k_heap k) rbs)(ptr \<mapsto> s) \<and>
        (heap_mapped (k_heap k, k_mm k) rbs \<longrightarrow> heap_mapped (h, m) rbs') \<and>
        (m = k_mm k \<or> ((1 :: u32) \<noteq> 0 \<longrightarrow> run_taken (unat (grow_pages (ALIGN sz BLOCK_ALIGNMENT))) (k_mm k) m))"
    using heap_alloc_cases [OF r(1) assms(2,3), of 1] by blast
  have nz: "ptr \<noteq> 0" using q room by (cases "ptr = 0") simp_all
  obtain rbs' s where a: "heap_system (h, m) rbs'" "contents (k_heap k) rbs ptr = None" "sz \<le> s"
      "contents h rbs' = (contents (k_heap k) rbs)(ptr \<mapsto> s)" "heap_mapped (h, m) rbs'" "m = k_mm k \<or> run_taken c (k_mm k) m"
    using q nz r(3) unfolding c by auto
  let ?k = "k\<lparr>k_heap := h, k_mm := m\<rparr>"
  obtain v p g where m: "m = (v, p, g)" by (cases m)
  have live: "contents h rbs' ptr = Some s" by (simp add: a(4))
  have "run_room n m" using a(6) run_room_taken [OF r(4)] run_room_less [OF r(4), of n] by fastforce
  moreover have "contents h rbs' q \<noteq> None" if "q \<in> insert ptr P" for q using r(2) that by (auto simp: a(4))
  ultimately have "kernel_ready n ?k (insert ptr P)" using a(1,5) by (auto simp: kernel_ready_def procs_live_def)
  moreover have "ptr \<notin> P" using r(2) a(2) by blast
  moreover have "k_malloc sz k = Some (ptr, ?k)" using h by (simp add: k_malloc_def kmalloc_def)
  moreover have "unat ptr + unat sz < 4294967296"
    using live_bound [OF _ live] a(1,3) by (fastforce simp: heap_system_def m word_le_nat_alt)
  moreover have "pg_virt2phys a (snd (snd m)) \<noteq> 0" if "unat ptr \<le> unat a" "unat a < unat ptr + unat sz" for a
    using live_mapped [OF _ _ live that(1)] that(2) a(1,3,5) by (simp add: m word_le_nat_alt)
  ultimately show ?thesis using nz by (intro exI [of _ ptr] exI [of _ ?k]) simp
qed

section \<open>A process of the kernel\<close>

text \<open>
  A process becomes known under its entry, its name and its flags. \<open>proc_info\<close> is what stays the same when
  lists and other processes change.
\<close>

definition proc_info :: "kernel \<Rightarrow> u32 \<Rightarrow> u32 \<times> u32 \<times> u32 \<times> u32" where
  "proc_info k p = (pr_entry (k_procs k p), pr_path (k_procs k p), pr_flags (k_procs k p), pr_id (k_procs k p))"

lemma unlinked_info:
  assumes "unlinked y = unlinked x"
  shows "pr_entry y = pr_entry x" "pr_path y = pr_path x" "pr_flags y = pr_flags x" "pr_id y = pr_id x"
  using arg_cong [OF assms, of pr_entry] arg_cong [OF assms, of pr_path] arg_cong [OF assms, of pr_flags]
    arg_cong [OF assms, of pr_id]
  by (simp_all add: unlinked_def)

lemma proc_info_unlinked:
  assumes "unlinked (k_procs k' q) = unlinked (k_procs k q)"
  shows "proc_info k' q = proc_info k q"
  using unlinked_info [OF assms] by (simp add: proc_info_def)

lemma proc_register_ready:
  assumes l: "sched_lists k xs ys" and ready: "kernel_ready (2 * n + 16) k P" and P: "set xs \<union> set ys \<subseteq> P"
  shows "\<exists>p k'. proc_register path entry flags k = Some (p, k') \<and> p \<noteq> 0 \<and> p \<notin> P \<and> sched_lists k' xs (ys @ [p]) \<and>
    kernel_ready n k' (insert p P) \<and> scheduler_current k' = scheduler_current k \<and>
    pm_count (sc_active (k_sched k')) = pm_count (sc_active (k_sched k)) \<and>
    pr_flags (k_procs k' p) = flags OR PROC_FLAG_CREATE \<and> pr_entry (k_procs k' p) = entry \<and> pr_path (k_procs k' p) = path \<and>
    (\<forall>q. q \<noteq> p \<longrightarrow> proc_info k' q = proc_info k q)"
proof -
  have c: "16 = unat (grow_pages (ALIGN process_size BLOCK_ALIGNMENT))"
    by (simp add: process_size_def ALIGN_def BLOCK_ALIGNMENT_def grow_pages_def GROW_PAGES_def TO_PAGE_def REGION_SIZE_def
        HEADER_SIZE_def PAGE_SIZE_def Let_def)
  have sz: "process_size \<noteq> 0" "unat process_size + 4158 < 4294967296" by (simp_all add: process_size_def)
  from k_malloc_ready [OF ready sz c] obtain p k1 where m: "k_malloc process_size k = Some (p, k1)" "p \<noteq> 0" "p \<notin> P"
      "kernel_ready n k1 (insert p P)"
    by blast
  have "p \<notin> set xs \<union> set ys" using m(3) P by blast
  from proc_register_some [OF l m(1,2) this, of path entry flags] obtain k' where
    k': "proc_register path entry flags k = Some (p, k')" "sched_lists k' xs (ys @ [p])" "k_heap k' = k_heap k1" "k_mm k' = k_mm k1"
      "scheduler_current k' = scheduler_current k" "pm_count (sc_active (k_sched k')) = pm_count (sc_active (k_sched k))"
      "pr_flags (k_procs k' p) = flags OR PROC_FLAG_CREATE" "pr_entry (k_procs k' p) = entry" "pr_path (k_procs k' p) = path"
      "\<And>q. q \<noteq> p \<Longrightarrow> unlinked (k_procs k' q) = unlinked (k_procs k q)"
    by blast
  show ?thesis
    using k' m(2-4) kernel_ready_cong [OF k'(3,4)] proc_info_unlinked [OF k'(10)]
    by (intro exI [of _ p] exI [of _ k']) simp
qed

text \<open>Work on one process, which leaves the others, its name and its entry alone.\<close>

definition only_proc :: "u32 \<Rightarrow> kernel \<Rightarrow> kernel \<Rightarrow> bool" where
  "only_proc p k k' \<longleftrightarrow> (\<forall>q. q \<noteq> p \<longrightarrow> k_procs k' q = k_procs k q) \<and> pr_entry (k_procs k' p) = pr_entry (k_procs k p) \<and>
     pr_path (k_procs k' p) = pr_path (k_procs k p)"

lemma only_proc_trans: "\<lbrakk>only_proc p k k'; only_proc p k' k''\<rbrakk> \<Longrightarrow> only_proc p k k''"
  by (simp add: only_proc_def)

text \<open>The run that the stack and the heap of a process need, so that one of \<open>n\<close> pages remains.\<close>

definition stack_room :: "u32 \<Rightarrow> nat \<Rightarrow> nat" where
  "stack_room flags n = (if flags AND PROC_FLAG_STACK = 0 then n else 2 * n + 257)"

definition heap_room :: "u32 \<Rightarrow> nat \<Rightarrow> nat" where
  "heap_room flags n = (if flags AND PROC_FLAG_HEAP = 0 then n else 2 * n + 25)"

lemma setup_stack_ready:
  assumes ready: "kernel_ready (stack_room (pr_flags (k_procs k p)) n) k P" and "proc_has_alloc (pr_flags (k_procs k p))"
  shows "\<exists>k'. setup_stack p k = Some (True, k') \<and> kernel_ready n k' P \<and> only_proc p k k'"
proof (cases "pr_flags (k_procs k p) AND PROC_FLAG_STACK = 0")
  case True
  then have "kernel_ready n k P" using ready by (simp add: stack_room_def)
  then show ?thesis
    using True kernel_ready_cong [of "upd_proc p f k" k for f] by (simp add: setup_stack_def only_proc_def)
next
  case False
  have c: "257 = unat (grow_pages (ALIGN DEFAULT_STACK BLOCK_ALIGNMENT))"
    by (simp add: DEFAULT_STACK_def ALIGN_def BLOCK_ALIGNMENT_def grow_pages_def GROW_PAGES_def TO_PAGE_def REGION_SIZE_def
        HEADER_SIZE_def PAGE_SIZE_def Let_def)
  have sz: "DEFAULT_STACK \<noteq> 0" "unat DEFAULT_STACK + 4158 < 4294967296" by (simp_all add: DEFAULT_STACK_def)
  have "kernel_ready (2 * n + 257) k P" using ready False by (simp add: stack_room_def)
  from k_malloc_ready [OF this sz c] obtain stack k1 where m: "k_malloc DEFAULT_STACK k = Some (stack, k1)" "stack \<noteq> 0"
      "kernel_ready n k1 (insert stack P)" "unat stack + unat DEFAULT_STACK < 4294967296"
      "\<And>a. unat stack \<le> unat a \<Longrightarrow> unat a < unat stack + unat DEFAULT_STACK \<Longrightarrow> pg_virt2phys a (snd (snd (k_mm k1))) \<noteq> 0"
    by blast
  have r1: "kernel_ready n k1 P" by (rule kernel_ready_mono [OF m(3)]) auto
  have fields: "k_procs k1 = k_procs k" by (subst k_malloc_memory [OF m(1)]) simp
  have "unat (stack + DEFAULT_STACK) = unat stack + 1048576" using m(4) by (simp add: DEFAULT_STACK_def unat_add_u32)
  then have "unat (stack + DEFAULT_STACK - 4) = unat stack + 1048572" "unat (stack + DEFAULT_STACK - 4 - 4) = unat stack + 1048568"
    by (simp_all add: unat_sub_u32 word_le_nat_alt)
  then have "pg_virt2phys (stack + DEFAULT_STACK - 4) (snd (snd (k_mm k1))) \<noteq> 0"
    "pg_virt2phys (stack + DEFAULT_STACK - 4 - 4) (snd (snd (k_mm k1))) \<noteq> 0"
    using m(5) by (simp_all add: DEFAULT_STACK_def)
  then obtain ram1 ram2 where "store_dword (snd (snd (k_mm k1))) (stack + DEFAULT_STACK - 4) p (k_ram k1) = Some ram1"
    "store_dword (snd (snd (k_mm k1))) (stack + DEFAULT_STACK - 4 - 4) 0 ram1 = Some ram2"
    by (simp add: store_dword_def Let_def)
  moreover define k' where "k' = upd_proc p (\<lambda>x. x\<lparr>pr_context := (pr_context x)\<lparr>cx_esp := stack + DEFAULT_STACK - 4 - 4,
      cx_ebp := stack + DEFAULT_STACK - 4 - 4\<rparr>\<rparr>) ((upd_proc p (\<lambda>x. x\<lparr>pr_stack := stack\<rparr>) k1)\<lparr>k_ram := ram2\<rparr>)"
  ultimately have "setup_stack p k = Some (True, k')"
    using False assms(2) m(1,2) by (simp add: setup_stack_def Let_def)
  moreover have "k_heap k' = k_heap k1" "k_mm k' = k_mm k1" "only_proc p k k'"
    by (simp_all add: k'_def only_proc_def fields)
  ultimately show ?thesis using r1 kernel_ready_cong by blast
qed

lemma setup_heap_ready:
  assumes ready: "kernel_ready (heap_room (pr_flags (k_procs k p)) n) k P"
  shows "\<exists>k'. setup_heap p k = Some k' \<and> kernel_ready n k' P \<and> only_proc p k k'"
proof (cases "pr_flags (k_procs k p) AND PROC_FLAG_HEAP = 0")
  case True
  then show ?thesis using ready by (simp add: setup_heap_def only_proc_def heap_room_def)
next
  case False
  let ?sz = "CEIL_DIV (TO_PAGE (UVIRT_END - UVIRT)) 32 * 4"
  have v: "page_aligned UVIRT" "page_aligned UVIRT_END" "UVIRT < UVIRT_END" "UVIRT_END \<le> KVIRT_END"
    by (simp_all add: UVIRT_def UVIRT_END_def KVIRT_def KVIRT_END_def page_aligned_def)
  have size: "?sz = 98304" by (simp add: UVIRT_END_def UVIRT_def KVIRT_def TO_PAGE_def CEIL_DIV_def)
  have c: "25 = unat (grow_pages (ALIGN ?sz BLOCK_ALIGNMENT))"
    unfolding size by (simp add: ALIGN_def BLOCK_ALIGNMENT_def grow_pages_def GROW_PAGES_def TO_PAGE_def REGION_SIZE_def
        HEADER_SIZE_def PAGE_SIZE_def Let_def)
  have sz: "?sz \<noteq> 0" "unat ?sz + 4158 < 4294967296" unfolding size by simp_all
  have "kernel_ready (2 * n + 25) k P" using ready False by (simp add: heap_room_def)
  from k_malloc_ready [OF this sz c] obtain ptr k1 where m: "k_malloc ?sz k = Some (ptr, k1)" "ptr \<noteq> 0"
      "kernel_ready n k1 (insert ptr P)"
    by blast
  have fields: "k_procs k1 = k_procs k" by (subst k_malloc_memory [OF m(1)]) simp
  from vmm_init_step [where alloc = k_malloc, OF v m(1,2)] obtain w where
    "vmm_init UVIRT UVIRT_END k_malloc (pr_vmm (k_procs k p)) k = Some (w, k1)" by blast
  then have "\<exists>f. setup_heap p k = Some (upd_proc p f k1) \<and> only_proc p k (upd_proc p f k1)"
    using False fields by (auto simp: setup_heap_def only_proc_def)
  moreover have "kernel_ready n (upd_proc p f k1) P" for f
    using kernel_ready_mono [OF m(3), of n P] kernel_ready_cong [of "upd_proc p f k1" k1] by auto
  ultimately show ?thesis by blast
qed

text \<open>\<^verbatim>\<open>create_proc\<close> of a process that shares the address space of the kernel.\<close>

lemma create_proc_ready:
  assumes l: "sched_lists k xs (us @ p # vs)" and ready: "kernel_ready (stack_room F (heap_room F n)) k P"
    and F: "F = pr_flags (k_procs k p) AND NOT PROC_FLAG_CREATE" "F AND PROC_FLAG_TYPE_MASK = PROC_FLAG_KERNEL"
      "F AND PROC_SHARED_ADDR_SPACE \<noteq> 0"
  shows "\<exists>nxt k'. create_proc ki p k = Some (nxt, k') \<and> sched_lists k' (xs @ [p]) (us @ vs) \<and> kernel_ready n k' P \<and>
    scheduler_current k' = scheduler_current k \<and> pm_count (sc_active (k_sched k')) = pm_count (sc_active (k_sched k)) + 1 \<and>
    proc_info k' p = (pr_entry (k_procs k p), pr_path (k_procs k p), F, pm_count (sc_active (k_sched k))) \<and>
    (\<forall>q. q \<noteq> p \<longrightarrow> proc_info k' q = proc_info k q)"
proof -
  obtain code stack data where sel: "proc_selectors ki F = (code, stack, data)" by (cases "proc_selectors ki F")
  define k1 where "k1 = upd_proc p (\<lambda>x. x\<lparr>pr_context := (pr_context x)\<lparr>cx_es := data, cx_ds := data, cx_fs := data,
      cx_gs := data, cx_ss := stack\<rparr>\<rparr>) (upd_proc p (\<lambda>x. x\<lparr>pr_flags := pr_flags x AND NOT PROC_FLAG_CREATE\<rparr>) k)"
  have k1: "quiet k k1" "pr_flags (k_procs k1 p) = F" "k_sched k1 = k_sched k" "only_proc p k k1"
    unfolding k1_def F(1) by (auto intro!: quiet_trans [OF quiet_upd quiet_upd] simp: only_proc_def)
  have "kernel_ready (stack_room (pr_flags (k_procs k1 p)) (heap_room F n)) k1 P" unfolding k1(2) using ready kernel_ready_cong [of k1 k] by (simp add: k1_def)
  moreover have "proc_has_alloc (pr_flags (k_procs k1 p))" by (simp add: k1(2) proc_has_alloc_def F(2))
  ultimately obtain k2 where s: "setup_stack p k1 = Some (True, k2)" "kernel_ready (heap_room F n) k2 P" "only_proc p k1 k2"
    using setup_stack_ready by blast
  have k2: "quiet k k2" "pr_flags (k_procs k2 p) = F" "k_sched k2 = k_sched k"
    using tame_setup_stack [OF s(1)] k1 quiet_trans [OF k1(1) tame_quiet] by (simp_all add: tame_def)
  define cnt where "cnt = pm_count (sc_active (k_sched k))"
  define k3 where "k3 = (upd_proc p (\<lambda>x. x\<lparr>pr_frame := \<lparr>fr_eip = ki_startup_proc ki, fr_cs = code, fr_eflags = 0x202\<rparr>, pr_id := cnt\<rparr>) k2)
      \<lparr>k_sched := (k_sched k2)\<lparr>sc_active := (sc_active (k_sched k2))\<lparr>pm_count := cnt + 1\<rparr>\<rparr>\<rparr>"
  have k3: "quiet k k3" "pr_flags (k_procs k3 p) = F" "pr_id (k_procs k3 p) = cnt" "pm_count (sc_active (k_sched k3)) = cnt + 1"
      "only_proc p k k3" "k_heap k3 = k_heap k2" "k_mm k3 = k_mm k2"
    using k2 s(3) k1(4) by (simp_all add: k3_def quiet_def same_procman_def same_links_def only_proc_def)
  define k4 where "k4 = upd_proc p (\<lambda>x. x\<lparr>pr_context := (pr_context x)\<lparr>cx_cr3 := V2P (ki_pg_pd ki)\<rparr>\<rparr>) k3"
  have a: "setup_address_space ki p k3 = Some k4" using F(3) by (simp add: setup_address_space_def k3(2) k4_def)
  have "kernel_ready (heap_room (pr_flags (k_procs k4 p)) n) k4 P"
    using s(2) kernel_ready_cong [of k4 k2] k3(2) by (simp add: k4_def k3(6,7))
  then obtain k5 where h: "setup_heap p k4 = Some k5" "kernel_ready n k5 P" "only_proc p k4 k5" using setup_heap_ready by blast
  have t: "tame k3 k5" using tame_trans tame_setup_address_space [OF a] tame_setup_heap [OF h(1)] by blast
  have only: "only_proc p k k5"
    using k3(5) h(3) by (simp add: only_proc_def k4_def)
  define k' where "k' = on_active (procman_append p) (on_inactive (procman_remove p) k5)"
  have run: "create_proc ki p k = Some (pr_next (k_procs k5 p), k')"
    using sel s(1) k2(3) a h(1) F(1) by (simp add: create_proc_def Let_def k1_def k3_def k'_def cnt_def)
  have q: "quiet k k5" using quiet_trans [OF k3(1) tame_quiet [OF t]] .
  note c = create_proc_lists [OF l q k'_def]
  have u: "unlinked (k_procs k' q) = unlinked (k_procs k5 q)" for q by (simp add: k'_def append_fields remove_fields)
  have "proc_info k' p = (pr_entry (k_procs k p), pr_path (k_procs k p), F, cnt)"
    using proc_info_unlinked [OF u, of p] only t k3(2,3) by (simp add: proc_info_def only_proc_def tame_def)
  moreover have "proc_info k' q = proc_info k q" if "q \<noteq> p" for q
    using proc_info_unlinked [OF u, of q] only that by (simp add: proc_info_def only_proc_def)
  moreover have "scheduler_current k' = scheduler_current k"
    using q by (simp add: scheduler_current_def k'_def quiet_def same_procman_def)
  moreover have "pm_count (sc_active (k_sched k')) = cnt + 1" using c(4) t k3(4) by (simp add: tame_def)
  moreover have "kernel_ready n k' P" using h(2) kernel_ready_cong [of k' k5] by (simp add: k'_def)
  ultimately show ?thesis using run c(1) unfolding cnt_def by blast
qed

text \<open>A kernel process that is registered and created at once, with no other process inactive.\<close>

lemma start_process:
  assumes l: "sched_lists k xs []" and ready: "kernel_ready (2 * stack_room flags (heap_room flags n) + 16) k P" and P: "set xs \<subseteq> P"
    and flags: "flags AND NOT PROC_FLAG_CREATE = flags" "flags AND PROC_FLAG_TYPE_MASK = PROC_FLAG_KERNEL"
      "flags AND PROC_SHARED_ADDR_SPACE \<noteq> 0"
  shows "\<exists>p k1 nxt k'. proc_register path entry flags k = Some (p, k1) \<and> p \<noteq> 0 \<and> p \<notin> P \<and> create_proc ki p k1 = Some (nxt, k') \<and>
    sched_lists k' (xs @ [p]) [] \<and> kernel_ready n k' (insert p P) \<and> scheduler_current k' = scheduler_current k \<and>
    pm_count (sc_active (k_sched k')) = pm_count (sc_active (k_sched k)) + 1 \<and>
    proc_info k' p = (entry, path, flags, pm_count (sc_active (k_sched k))) \<and> (\<forall>q. q \<noteq> p \<longrightarrow> proc_info k' q = proc_info k q)"
proof -
  have "set xs \<union> set [] \<subseteq> P" using P by simp
  from proc_register_ready [OF l ready this, of path entry flags] obtain p k1 where
    r: "proc_register path entry flags k = Some (p, k1)" "p \<noteq> 0" "p \<notin> P" "sched_lists k1 xs ([] @ p # [])"
      "kernel_ready (stack_room flags (heap_room flags n)) k1 (insert p P)" "scheduler_current k1 = scheduler_current k"
      "pm_count (sc_active (k_sched k1)) = pm_count (sc_active (k_sched k))"
      "pr_flags (k_procs k1 p) = flags OR PROC_FLAG_CREATE" "pr_entry (k_procs k1 p) = entry" "pr_path (k_procs k1 p) = path"
      "\<And>q. q \<noteq> p \<Longrightarrow> proc_info k1 q = proc_info k q"
    by auto
  have "(flags OR PROC_FLAG_CREATE) AND NOT PROC_FLAG_CREATE = flags"
    using flags(1) by (simp add: bit.conj_disj_distrib2)
  then have "flags = pr_flags (k_procs k1 p) AND NOT PROC_FLAG_CREATE" using r(8) by simp
  from create_proc_ready [OF r(4,5) this flags(2,3), of ki] obtain nxt k' where
    c: "create_proc ki p k1 = Some (nxt, k')" "sched_lists k' (xs @ [p]) []" "kernel_ready n k' (insert p P)"
      "scheduler_current k' = scheduler_current k1" "pm_count (sc_active (k_sched k')) = pm_count (sc_active (k_sched k1)) + 1"
      "proc_info k' p = (pr_entry (k_procs k1 p), pr_path (k_procs k1 p), flags, pm_count (sc_active (k_sched k1)))"
      "\<And>q. q \<noteq> p \<Longrightarrow> proc_info k' q = proc_info k1 q"
    by auto
  show ?thesis
    by (rule exI [of _ p], rule exI [of _ k1], rule exI [of _ nxt], rule exI [of _ k']) (use r c in simp)
qed

text \<open>The processes of the kernel; \<^verbatim>\<open>scheduler_init\<close> makes the first one the current process.\<close>

lemma empty_lists: "k_sched k = \<lparr>sc_active = procman_empty, sc_inactive = procman_empty\<rparr> \<Longrightarrow> sched_lists k [] []"
  by (simp add: sched_lists_def plist_def dll_def pl_defs procman_empty_def scheduler_current_def)

lemma scheduler_init_ready:
  assumes "kernel_ready 7140 k {}"
  shows "\<exists>kinit idle sched k'. scheduler_init ki (s_kinit, s_idle, s_sched) k = Some k' \<and>
    sched_lists k' [kinit, idle, sched] [] \<and> scheduler_current k' = kinit \<and> kinit \<noteq> 0 \<and> pm_count (sc_active (k_sched k')) = 3 \<and>
    kernel_ready 16 k' {kinit, idle, sched} \<and> proc_info k' kinit = (0, s_kinit, 0x11, 0) \<and>
    proc_info k' idle = (ki_idle_proc ki, s_idle, 0x15, 1) \<and> proc_info k' sched = (ki_scheduler_proc ki, s_sched, 0x1D, 2)"
proof -
  let ?k = "k\<lparr>k_sched := \<lparr>sc_active = procman_empty, sc_inactive = procman_empty\<rparr>\<rparr>"
  have room: "2 * stack_room 0x11 (heap_room 0x11 3562) + 16 = 7140" "2 * stack_room 0x15 (heap_room 0x15 758) + 16 = 3562"
    "2 * stack_room 0x1D (heap_room 0x1D 16) + 16 = 758"
    by (simp_all add: stack_room_def heap_room_def PROC_FLAGS)
  have flags: "f AND NOT PROC_FLAG_CREATE = f" "f AND PROC_FLAG_TYPE_MASK = PROC_FLAG_KERNEL" "f AND PROC_SHARED_ADDR_SPACE \<noteq> 0"
    if "f \<in> {0x11, 0x15, 0x1D}" for f :: u32
    using that by (auto simp: PROC_FLAGS)
  have l0: "sched_lists ?k [] []" by (rule empty_lists) simp
  have r0: "kernel_ready (2 * stack_room 0x11 (heap_room 0x11 3562) + 16) ?k {}"
    unfolding room using assms kernel_ready_cong [of ?k k] by simp
  from start_process [OF l0 r0 _ flags, of s_kinit 0 ki] obtain p0 k1 n1 k2 where
    a: "proc_register s_kinit 0 0x11 ?k = Some (p0, k1)" "p0 \<noteq> 0" "create_proc ki p0 k1 = Some (n1, k2)"
      "sched_lists k2 [p0] []" "kernel_ready 3562 k2 {p0}" "pm_count (sc_active (k_sched k2)) = 1"
      "proc_info k2 p0 = (0, s_kinit, 0x11, 0)"
    by (auto simp: procman_empty_def)
  have r2: "kernel_ready (2 * stack_room 0x15 (heap_room 0x15 758) + 16) k2 {p0}" unfolding room by (rule a(5))
  from start_process [OF a(4) r2 _ flags, of s_idle "ki_idle_proc ki" ki] obtain p1 k3 n2 k4 where
    b: "proc_register s_idle (ki_idle_proc ki) 0x15 k2 = Some (p1, k3)" "p1 \<noteq> 0" "p1 \<noteq> p0" "create_proc ki p1 k3 = Some (n2, k4)"
      "sched_lists k4 [p0, p1] []" "kernel_ready 758 k4 {p1, p0}" "pm_count (sc_active (k_sched k4)) = 2"
      "proc_info k4 p1 = (ki_idle_proc ki, s_idle, 0x15, 1)" "\<And>q. q \<noteq> p1 \<Longrightarrow> proc_info k4 q = proc_info k2 q"
    by (auto simp: a(6))
  have r4: "kernel_ready (2 * stack_room 0x1D (heap_room 0x1D 16) + 16) k4 {p1, p0}" unfolding room by (rule b(6))
  from start_process [OF b(5) r4 _ flags, of s_sched "ki_scheduler_proc ki" ki] obtain p2 k5 n3 k6 where
    c: "proc_register s_sched (ki_scheduler_proc ki) 0x1D k4 = Some (p2, k5)" "p2 \<noteq> 0" "p2 \<notin> {p1, p0}"
      "create_proc ki p2 k5 = Some (n3, k6)" "sched_lists k6 [p0, p1, p2] []" "kernel_ready 16 k6 {p2, p1, p0}"
      "pm_count (sc_active (k_sched k6)) = 3" "proc_info k6 p2 = (ki_scheduler_proc ki, s_sched, 0x1D, 2)"
      "\<And>q. q \<noteq> p2 \<Longrightarrow> proc_info k6 q = proc_info k4 q"
    by (auto simp: b(7))
  let ?k' = "set_current p0 k6"
  have flag: "PROC_FLAG_KERNEL OR PROC_SHARED_ADDR_SPACE = 0x11" "PROC_FLAG_KERNEL OR PROC_SHARED_ADDR_SPACE OR PROC_FLAG_STACK = 0x15"
    "PROC_FLAG_KERNEL OR PROC_SHARED_ADDR_SPACE OR PROC_FLAG_STACK OR PROC_FLAG_HEAP = 0x1D"
    by (simp_all add: PROC_FLAGS)
  have run: "scheduler_init ki (s_kinit, s_idle, s_sched) k = Some ?k'"
    using a(1-3) b(1,2,4) c(1,2,4) by (simp add: scheduler_init_def flag Let_def)
  have lists: "sched_lists ?k' [p0, p1, p2] []" by (rule sched_lists_current [OF c(5)]) simp
  have info: "proc_info ?k' q = proc_info k6 q" for q by (simp add: proc_info_def)
  have "kernel_ready 16 ?k' {p0, p1, p2}" using c(6) kernel_ready_cong [of ?k' k6] by (simp add: insert_commute)
  moreover have "proc_info k6 p0 = (0, s_kinit, 0x11, 0)" "proc_info k6 p1 = (ki_idle_proc ki, s_idle, 0x15, 1)"
    using c(3,9) b(3,8,9) a(7) by auto
  moreover have "pm_count (sc_active (k_sched ?k')) = 3" using c(7) by (simp add: set_current_def)
  ultimately show ?thesis
    using run lists info c(8) a(2)
    by (intro exI [of _ p0] exI [of _ p1] exI [of _ p2] exI [of _ ?k']) simp
qed

section \<open>Loading and unloading\<close>

text \<open>The current process takes itself off the active list.\<close>

lemma unload_current:
  assumes l: "sched_lists k (us @ c # vs) ys" and c: "scheduler_current k = c" and kill: "pr_flags (k_procs k c) AND PROC_FLAG_KILL = 0"
  defines "k' \<equiv> scheduler_unload_process (scheduler_current k) k"
  shows "sched_lists k' (us @ vs) (ys @ [c])" "scheduler_current k' = 0" "k_heap k' = k_heap k" "k_mm k' = k_mm k"
    "proc_info k' c = (pr_entry (k_procs k c), pr_path (k_procs k c), pr_flags (k_procs k c) OR PROC_FLAG_KILL, pr_id (k_procs k c))"
    "q \<noteq> c \<Longrightarrow> proc_info k' q = proc_info k q"
proof -
  define k1 where "k1 = on_inactive (procman_append c) (on_active (procman_remove c) k)"
  have nz: "c \<noteq> 0" and dist: "distinct (us @ c # vs)" using sched_lists_active [OF l] by auto
  have k': "k' = upd_proc c (\<lambda>x. x\<lparr>pr_flags := pr_flags x OR PROC_FLAG_KILL\<rparr>) k1"
    using c kill nz by (simp add: k'_def scheduler_unload_process_def proc_deregister_def Let_def k1_def)
  have "c \<notin> set (us @ vs)" "c \<notin> set ys" using dist l by (auto simp: sched_lists_def)
  then have "sched_lists k1 (us @ vs) (ys @ [c])"
    unfolding k1_def using inactive_append [OF active_remove [OF l] nz] by simp
  then show "sched_lists k' (us @ vs) (ys @ [c])" unfolding k' by (rule sched_lists_upd) simp
  have u: "unlinked (k_procs k1 q) = unlinked (k_procs k q)" for q by (simp add: k1_def append_fields remove_fields)
  show "scheduler_current k' = 0" using c by (simp add: k' k1_def scheduler_current_def)
  show "k_heap k' = k_heap k" "k_mm k' = k_mm k" by (simp_all add: k' k1_def)
  show "proc_info k' c = (pr_entry (k_procs k c), pr_path (k_procs k c), pr_flags (k_procs k c) OR PROC_FLAG_KILL, pr_id (k_procs k c))"
    using unlinked_info [OF u] by (simp add: proc_info_def k')
  show "q \<noteq> c \<Longrightarrow> proc_info k' q = proc_info k q" using unlinked_info [OF u] by (simp add: proc_info_def k')
qed

section \<open>The messages of the boot\<close>

definition blank_screen :: screen where
  "blank_screen = \<lparr>cells = \<lambda>y x. if y < 25 \<and> x < 80 then vga_entry 0x20 7 else 0, pos_x = 0, pos_y = 0, color = 7\<rparr>"

text \<open>What has been printed since the terminal was cleared, beside the kernel.\<close>

definition boot_state :: "u8 list \<Rightarrow> kernel \<Rightarrow> machine \<Rightarrow> bool" where
  "boot_state out k m \<longleftrightarrow> tty_ok (con_tty (mc_con m)) \<and> screen_of (con_tty (mc_con m)) = fold screen_putc out blank_screen \<and>
     mc_kernel m = k"

lemma boot_print:
  assumes "boot_state out k m" and "\<And>n. uart n AND UART_THRE \<noteq> 0" and "list_all constant_part parts"
  shows "\<exists>m'. m_kprint uart parts m = Some m' \<and> boot_state (out @ const_bytes parts) k m'"
  using m_kprint_constant [where uart = uart, OF _ assms(2,3), of m] assms(1) by (auto simp: boot_state_def mc_printed_def printed_def)

lemma boot_debug:
  assumes "boot_state out k m" and "\<And>n. uart n AND UART_THRE \<noteq> 0" and "list_all constant_part parts"
  shows "\<exists>m'. m_kdprint uart parts m = Some m' \<and> boot_state out k m'"
  using fold_serial_output [where uart = uart, OF assms(2)] assms(1)
  by (simp add: m_kdprint_def kdprint_def message_constant [OF assms(3)] boot_state_def)

lemma bind_some:
  "\<lbrakk>\<exists>x. f = Some x \<and> P x; \<And>x. P x \<Longrightarrow> \<exists>y. g x = Some y \<and> Q y\<rbrakk> \<Longrightarrow> \<exists>y. Option.bind f g = Some y \<and> Q y"
  by auto

lemma boot_layout:
  assumes "boot_state out k m" and "\<And>n. be_uart env n AND UART_THRE \<noteq> 0"
  shows "\<exists>m'. print_layout env m = Some m' \<and> boot_state out k m'"
proof -
  have s: "\<exists>m'. print_section env a sec b m = Some m' \<and> boot_state out k m'" if "boot_state out k m" for a sec b m
    unfolding print_section_def by (rule boot_debug [where uart = "be_uart env", OF that assms(2)]) simp
  have l: "\<exists>m'. print_selector env a sel b m = Some m' \<and> boot_state out k m'" if "boot_state out k m" for a sel b m
    unfolding print_selector_def by (rule boot_debug [where uart = "be_uart env", OF that assms(2)]) simp
  have d: "\<exists>m'. m_kdprint (be_uart env) [Lit a] m = Some m' \<and> boot_state out k m'" if "boot_state out k m" for a m
    by (rule boot_debug [where uart = "be_uart env", OF that assms(2)]) simp
  show ?thesis
    unfolding print_layout_def by (rule bind_some, rule d [OF assms(1)], (rule bind_some, erule s l d)+, erule l)
qed

section \<open>The boot\<close>

text \<open>RAM for the kernel to boot in: a run of 28 MiB behind the kernel image and the boot allocations.\<close>

definition ram_for_boot :: "u32 \<Rightarrow> kphysmap \<Rightarrow> bool" where
  "ram_for_boot sec_kend mp \<longleftrightarrow> unat sec_kend \<le> 0xC4000000 \<and>
     (\<exists>f. {f ..< f + 7140} \<subseteq> ram_pages (km_list mp) \<and> 256 \<le> f \<and> unat sec_kend + 0x101000 \<le> 0xC0000000 + f * 4096)"

lemma mminit_ready:
  assumes "mb_init rd info kphysmap_init = Some mp" and "0 < km_count mp" and "regions_fit (km_list mp)" and "pg_wf g"
    and "kernel_fits sec_kstart sec_kend (ram_end mp p)" and "ram_for_boot sec_kend mp"
  shows "\<exists>ka h' mm'. mminit sec_kstart sec_kend rd info (h, v, p, g) = Some (mp, ka, h', mm') \<and>
    heap_system (h', mm') [] \<and> run_room 7140 mm'"
proof -
  obtain f where f: "{f ..< f + 7140} \<subseteq> ram_pages (km_list mp)" "256 \<le> f" "unat sec_kend + 0x101000 \<le> 0xC0000000 + f * 4096"
    and kend: "unat sec_kend \<le> 0xC4000000"
    using assms(6) by (auto simp: ram_for_boot_def)
  from mminit_step [OF assms(1-5), of h v] obtain ka h' v' p' g' where
    r: "mminit sec_kstart sec_kend rd info (h, v, p, g) = Some (mp, ka, h', v', p', g')" "heap_system (h', v', p', g') []"
      "free_set p' = ram_pages (km_list mp) - boot_pages sec_kstart ka" "vfree v' = {..< 0x3FC00} - boot_pages sec_kstart ka"
    and boot: "\<And>n. n \<in> boot_pages sec_kstart ka \<Longrightarrow> n < 256 \<or> 0xC0000000 + n * 4096 < unat sec_kend + 0x101000"
    by blast
  have "n \<notin> boot_pages sec_kstart ka" if "f \<le> n" for n using boot [of n] that f(2,3) by auto
  then have "{f ..< f + 7140} \<subseteq> free_set p'" using f(1) r(3) by auto
  moreover have "n \<notin> boot_pages sec_kstart ka" if "16641 \<le> n" for n using boot [of n] that kend by auto
  then have "{16641 ..< 16641 + 7140} \<subseteq> vfree v'" using r(4) by auto
  ultimately have "run_room 7140 (v', p', g')" unfolding run_room_def prod.case by blast
  then show ?thesis using r(1,2) by blast
qed

lemma lit_print: "list_all constant_part [Lit s]" "const_bytes [Lit s] = string_bytes s"
  by (simp_all add: const_bytes_def)

lemmas boot_say = boot_print [OF _ _ lit_print(1), unfolded lit_print(2)]

lemma m_mminit_boots:
  assumes "boot_state out k m" and "\<And>n. be_uart env n AND UART_THRE \<noteq> 0"
    and "mb_init (be_memory env) (be_info env) kphysmap_init = Some mp" and "0 < km_count mp" and "regions_fit (km_list mp)"
    and "pg_wf (snd (snd (k_mm k)))" and "kernel_fits (be_kstart env) (be_kend env) (ram_end mp (fst (snd (k_mm k))))"
    and "ram_for_boot (be_kend env) mp"
  shows "\<exists>m' k'. m_mminit env m = Some m' \<and> boot_state (out @ string_bytes ''[MM-INIT] Init OK\<newline>'') k' m' \<and> kernel_ready 7140 k' {}"
proof -
  obtain v p g where mm: "k_mm k = (v, p, g)" by (cases "k_mm k")
  have "pg_wf g" "kernel_fits (be_kstart env) (be_kend env) (ram_end mp p)" using assms(6,7) mm by simp_all
  from mminit_ready [OF assms(3-5) this assms(8), of "k_heap k" v] obtain ka h' mm' where
    r: "mminit (be_kstart env) (be_kend env) (be_memory env) (be_info env) (k_heap k, k_mm k) = Some (mp, ka, h', mm')"
      "heap_system (h', mm') []" "run_room 7140 mm'"
    unfolding mm by blast
  define k' where "k' = k\<lparr>k_heap := h', k_mm := mm'\<rparr>"
  have "boot_state out k' (m\<lparr>mc_kernel := k'\<rparr>)" using assms(1) by (simp add: boot_state_def)
  from boot_say [where uart = "be_uart env", OF this assms(2)] obtain m' where
    m': "m_kprint (be_uart env) [Lit ''[MM-INIT] Init OK\<newline>''] (m\<lparr>mc_kernel := k'\<rparr>) = Some m'"
      "boot_state (out @ string_bytes ''[MM-INIT] Init OK\<newline>'') k' m'"
    by blast
  have "m_mminit env m = Some m'" using r(1) assms(1) m'(1) by (simp add: m_mminit_def boot_state_def k'_def)
  moreover have "heap_mapped (h', mm') []" by (cases mm') (simp add: heap_mapped_def)
  then have "kernel_ready 7140 k' {}" using r(2,3) by (auto simp: kernel_ready_def procs_live_def k'_def intro!: exI [of _ "[]"])
  ultimately show ?thesis using m'(2) by blast
qed

lemma m_scheduler_init_boots:
  assumes "boot_state out k m" and "\<And>n. be_uart env n AND UART_THRE \<noteq> 0" and "kernel_ready 7140 k {}"
    and "be_names env = (s_kinit, s_idle, s_sched)"
  shows "\<exists>m' k' kinit idle sched. m_scheduler_init env m = Some m' \<and> boot_state (out @ string_bytes ''[SCHEDULER] Init OK\<newline>'') k' m' \<and>
    sched_lists k' [kinit, idle, sched] [] \<and> scheduler_current k' = kinit \<and> kernel_ready 16 k' {kinit, idle, sched} \<and>
    proc_info k' kinit = (0, s_kinit, 0x11, 0) \<and> proc_info k' idle = (ki_idle_proc (be_image env), s_idle, 0x15, 1) \<and>
    proc_info k' sched = (ki_scheduler_proc (be_image env), s_sched, 0x1D, 2)"
proof -
  from scheduler_init_ready [OF assms(3), of "be_image env" s_kinit s_idle s_sched] obtain kinit idle sched k' where
    r: "scheduler_init (be_image env) (s_kinit, s_idle, s_sched) k = Some k'" "sched_lists k' [kinit, idle, sched] []"
      "scheduler_current k' = kinit" "kinit \<noteq> 0" "kernel_ready 16 k' {kinit, idle, sched}"
      "proc_info k' kinit = (0, s_kinit, 0x11, 0)" "proc_info k' idle = (ki_idle_proc (be_image env), s_idle, 0x15, 1)"
      "proc_info k' sched = (ki_scheduler_proc (be_image env), s_sched, 0x1D, 2)"
    by blast
  have "boot_state out k' (m\<lparr>mc_kernel := k'\<rparr>)" using assms(1) by (simp add: boot_state_def)
  from boot_say [where uart = "be_uart env", OF this assms(2)] obtain m' where
    m': "m_kprint (be_uart env) [Lit ''[SCHEDULER] Init OK\<newline>''] (m\<lparr>mc_kernel := k'\<rparr>) = Some m'"
      "boot_state (out @ string_bytes ''[SCHEDULER] Init OK\<newline>'') k' m'"
    by blast
  have "m_scheduler_init env m = Some m'"
    using r(1,3,4) assms(1,4) m'(1) by (simp add: m_scheduler_init_def boot_state_def Let_def)
  then show ?thesis using m'(2) r by blast
qed

text \<open>The shell is registered, and the process of \<^verbatim>\<open>kmain\<close> deregistered.\<close>

lemma shell_takes_over:
  assumes l: "sched_lists k [kinit, idle, sched] []" and c: "scheduler_current k = kinit"
    and ready: "kernel_ready 16 k {kinit, idle, sched}" and kill: "pr_flags (k_procs k kinit) AND PROC_FLAG_KILL = 0"
  shows "\<exists>shell k1 k2. scheduler_load_kprocess path entry k = Some (shell, k1) \<and> k2 = scheduler_unload_process (scheduler_current k1) k1 \<and>
    sched_lists k2 [idle, sched] [shell, kinit] \<and> scheduler_current k2 = 0 \<and> kernel_ready 0 k2 {kinit, idle, sched, shell} \<and>
    pr_entry (k_procs k2 shell) = entry \<and> pr_path (k_procs k2 shell) = path \<and>
    pr_flags (k_procs k2 shell) = PROC_FLAG_KERNEL OR PROC_FLAG_STACK OR PROC_FLAG_HEAP OR PROC_FLAG_CREATE \<and>
    proc_info k2 kinit = (pr_entry (k_procs k kinit), pr_path (k_procs k kinit), pr_flags (k_procs k kinit) OR PROC_FLAG_KILL,
      pr_id (k_procs k kinit)) \<and>
    proc_info k2 idle = proc_info k idle \<and> proc_info k2 sched = proc_info k sched"
proof -
  have r: "kernel_ready (2 * 0 + 16) k {kinit, idle, sched}" using ready by simp
  have "set [kinit, idle, sched] \<union> set [] \<subseteq> {kinit, idle, sched}" by simp
  from proc_register_ready [OF l r this, of path entry "PROC_FLAG_KERNEL OR PROC_FLAG_STACK OR PROC_FLAG_HEAP"]
  obtain shell k1 where sh: "scheduler_load_kprocess path entry k = Some (shell, k1)" "shell \<notin> {kinit, idle, sched}"
      "sched_lists k1 ([] @ kinit # [idle, sched]) [shell]" "kernel_ready 0 k1 {shell, kinit, idle, sched}" "scheduler_current k1 = kinit"
      "pr_flags (k_procs k1 shell) = PROC_FLAG_KERNEL OR PROC_FLAG_STACK OR PROC_FLAG_HEAP OR PROC_FLAG_CREATE"
      "pr_entry (k_procs k1 shell) = entry" "pr_path (k_procs k1 shell) = path" "\<And>q. q \<noteq> shell \<Longrightarrow> proc_info k1 q = proc_info k q"
    using c by (auto simp: scheduler_load_kprocess_def or.assoc)
  have dist: "shell \<noteq> kinit" "idle \<noteq> kinit" "sched \<noteq> kinit" "idle \<noteq> shell" "sched \<noteq> shell"
    using sh(2) sched_lists_active(1) [OF l] by auto
  have i: "proc_info k1 kinit = proc_info k kinit" using sh(9) dist(1) by auto
  then have "pr_flags (k_procs k1 kinit) AND PROC_FLAG_KILL = 0" using kill by (simp add: proc_info_def)
  note un = unload_current [OF sh(3,5) this]
  define k2 where "k2 = scheduler_unload_process (scheduler_current k1) k1"
  note un = un [folded k2_def]
  have "kernel_ready 0 k2 {kinit, idle, sched, shell}" using sh(4) kernel_ready_cong [OF un(3,4)] by (simp add: insert_commute)
  moreover have "proc_info k2 shell = proc_info k1 shell" by (rule un(6) [OF dist(1)])
  moreover have "proc_info k2 idle = proc_info k idle" "proc_info k2 sched = proc_info k sched"
    using un(6) [OF dist(2)] un(6) [OF dist(3)] sh(9) [OF dist(4)] sh(9) [OF dist(5)] by simp_all
  ultimately show ?thesis
    using un(1,2,5) sh(1,6-8) i by (intro exI [of _ shell] exI [of _ k1] exI [of _ k2]) (simp add: proc_info_def k2_def)
qed

definition boot_text :: string where
  "boot_text = ''TOMK v0.1\<newline>\<newline>[MM-INIT] Init OK\<newline>[SCHEDULER] Init OK\<newline>Starting .kshell...\<newline>Unloading .kinit...\<newline>''"

text \<open>
  C6: the boot as a whole. With a memory map that has room for it, and a serial line that is ready, \<^verbatim>\<open>kmain\<close>
  gets to its final halt. Then the idle and the scheduler process are active, in this order, and
  none is current; the shell waits for its creation behind it \<^verbatim>\<open>.kinit\<close>, which \<^verbatim>\<open>kmain\<close> itself runs in, for its
  destruction; the four processes are distinct blocks in use of a consistent heap whose memory is mapped; and the screen shows
  the five messages.
\<close>

theorem kmain_boots:
  assumes "mb_init (be_memory env) (be_info env) kphysmap_init = Some mp" and "0 < km_count mp" and "regions_fit (km_list mp)"
    and "pg_wf (mc_paging m)" and "kernel_fits (be_kstart env) (be_kend env) (ram_end mp (fst (snd (k_mm (mc_kernel m)))))"
    and "ram_for_boot (be_kend env) mp" and "\<And>n. be_uart env n AND UART_THRE \<noteq> 0"
    and "be_names env = (s_kinit, s_idle, s_sched)"
  shows "\<exists>m' kinit idle sched shell rbs. kmain env m = Some m' \<and>
    sched_lists (mc_kernel m') [idle, sched] [shell, kinit] \<and> scheduler_current (mc_kernel m') = 0 \<and>
    proc_info (mc_kernel m') kinit = (0, s_kinit, PROC_FLAG_KERNEL OR PROC_SHARED_ADDR_SPACE OR PROC_FLAG_KILL, 0) \<and>
    proc_info (mc_kernel m') idle =
      (ki_idle_proc (be_image env), s_idle, PROC_FLAG_KERNEL OR PROC_SHARED_ADDR_SPACE OR PROC_FLAG_STACK, 1) \<and>
    proc_info (mc_kernel m') sched = (ki_scheduler_proc (be_image env), s_sched,
      PROC_FLAG_KERNEL OR PROC_SHARED_ADDR_SPACE OR PROC_FLAG_STACK OR PROC_FLAG_HEAP, 2) \<and>
    pr_entry (k_procs (mc_kernel m') shell) = be_kshell env \<and> pr_path (k_procs (mc_kernel m') shell) = be_shell_name env \<and>
    pr_flags (k_procs (mc_kernel m') shell) = PROC_FLAG_KERNEL OR PROC_FLAG_STACK OR PROC_FLAG_HEAP OR PROC_FLAG_CREATE \<and>
    procs_live (mc_kernel m') rbs {kinit, idle, sched, shell} \<and> heap_mapped (k_heap (mc_kernel m'), k_mm (mc_kernel m')) rbs \<and>
    screen_of (con_tty (mc_con m')) = fold screen_putc (string_bytes boot_text) blank_screen"
proof -
  let ?u = "be_uart env"
  define m0 where "m0 = m\<lparr>mc_con := (mc_con m)\<lparr>con_tty := tty_init (be_cursor env) (con_tty (mc_con m))\<rparr>\<rparr>"
  have "boot_state [] (mc_kernel m) m0"
    using tty_init_blank [of "be_cursor env" "con_tty (mc_con m)"] by (simp add: boot_state_def m0_def blank_screen_def)
  from boot_say [where uart = ?u, OF this assms(7), of "''TOMK v0.1\<newline>\<newline>''"] obtain m1 where
    m1: "m_kprint ?u [Lit ''TOMK v0.1\<newline>\<newline>''] m0 = Some m1" "boot_state (string_bytes ''TOMK v0.1\<newline>\<newline>'') (mc_kernel m) m1" by auto
  from boot_layout [OF m1(2) assms(7)] obtain m2 where
    m2: "print_layout env m1 = Some m2" "boot_state (string_bytes ''TOMK v0.1\<newline>\<newline>'') (mc_kernel m) m2" by blast
  from m_mminit_boots [OF m2(2) assms(7,1-3) assms(4) [unfolded mc_paging_def] assms(5,6)] obtain m3 k3 where
    m3: "m_mminit env m2 = Some m3" "boot_state (string_bytes ''TOMK v0.1\<newline>\<newline>'' @ string_bytes ''[MM-INIT] Init OK\<newline>'') k3 m3"
      "kernel_ready 7140 k3 {}" by blast
  from m_scheduler_init_boots [OF m3(2) assms(7) m3(3) assms(8)] obtain m4 k4 kinit idle sched where
    m4: "m_scheduler_init env m3 = Some m4"
      "boot_state ((string_bytes ''TOMK v0.1\<newline>\<newline>'' @ string_bytes ''[MM-INIT] Init OK\<newline>'') @ string_bytes ''[SCHEDULER] Init OK\<newline>'') k4 m4"
    and k4: "sched_lists k4 [kinit, idle, sched] []" "scheduler_current k4 = kinit" "kernel_ready 16 k4 {kinit, idle, sched}"
      "proc_info k4 kinit = (0, s_kinit, 0x11, 0)" "proc_info k4 idle = (ki_idle_proc (be_image env), s_idle, 0x15, 1)"
      "proc_info k4 sched = (ki_scheduler_proc (be_image env), s_sched, 0x1D, 2)" by blast
  from boot_say [where uart = ?u, OF m4(2) assms(7), of "''Starting .kshell...\<newline>''"] obtain m5 where
    m5: "m_kprint ?u [Lit ''Starting .kshell...\<newline>''] m4 = Some m5" "boot_state (((string_bytes ''TOMK v0.1\<newline>\<newline>'' @
      string_bytes ''[MM-INIT] Init OK\<newline>'') @ string_bytes ''[SCHEDULER] Init OK\<newline>'') @ string_bytes ''Starting .kshell...\<newline>'') k4 m5" by blast
  have kinit: "pr_flags (k_procs k4 kinit) AND PROC_FLAG_KILL = 0" using k4(4) by (simp add: proc_info_def PROC_FLAGS)
  from shell_takes_over [OF k4(1-3) kinit, of "be_shell_name env" "be_kshell env"] obtain shell k5 k6 where
    k5: "scheduler_load_kprocess (be_shell_name env) (be_kshell env) k4 = Some (shell, k5)" "k6 = scheduler_unload_process (scheduler_current k5) k5"
    and k6: "sched_lists k6 [idle, sched] [shell, kinit]" "scheduler_current k6 = 0" "kernel_ready 0 k6 {kinit, idle, sched, shell}"
      "pr_entry (k_procs k6 shell) = be_kshell env" "pr_path (k_procs k6 shell) = be_shell_name env"
      "pr_flags (k_procs k6 shell) = PROC_FLAG_KERNEL OR PROC_FLAG_STACK OR PROC_FLAG_HEAP OR PROC_FLAG_CREATE"
      "proc_info k6 kinit = (pr_entry (k_procs k4 kinit), pr_path (k_procs k4 kinit), pr_flags (k_procs k4 kinit) OR PROC_FLAG_KILL,
        pr_id (k_procs k4 kinit))" "proc_info k6 idle = proc_info k4 idle" "proc_info k6 sched = proc_info k4 sched" by blast
  from m5(2) have "boot_state (((string_bytes ''TOMK v0.1\<newline>\<newline>'' @ string_bytes ''[MM-INIT] Init OK\<newline>'') @
      string_bytes ''[SCHEDULER] Init OK\<newline>'') @ string_bytes ''Starting .kshell...\<newline>'') k5 (m5\<lparr>mc_kernel := k5\<rparr>)"
    by (simp add: boot_state_def)
  from boot_say [where uart = ?u, OF this assms(7), of "''Unloading .kinit...\<newline>''"] obtain m6 where
    m6: "m_kprint ?u [Lit ''Unloading .kinit...\<newline>''] (m5\<lparr>mc_kernel := k5\<rparr>) = Some m6" "mc_kernel m6 = k5"
      "screen_of (con_tty (mc_con m6)) = fold screen_putc (string_bytes boot_text) blank_screen"
    by (auto simp: boot_state_def boot_text_def string_bytes_def)
  have run: "kmain env m = Some (m6\<lparr>mc_kernel := k6\<rparr>)"
    using m1(1) m2(1) m3(1) m4(1) m5(1) k5 m4(2) m5(2) m6(1,2) by (simp add: kmain_def m0_def [symmetric] boot_state_def Let_def)
  obtain rbs where live: "procs_live k6 rbs {kinit, idle, sched, shell}" "heap_mapped (k_heap k6, k_mm k6) rbs"
    using k6(3) by (auto simp: kernel_ready_def)
  have "proc_info k6 kinit = (0, s_kinit, PROC_FLAG_KERNEL OR PROC_SHARED_ADDR_SPACE OR PROC_FLAG_KILL, 0)"
    "proc_info k6 idle = (ki_idle_proc (be_image env), s_idle, PROC_FLAG_KERNEL OR PROC_SHARED_ADDR_SPACE OR PROC_FLAG_STACK, 1)"
    "proc_info k6 sched = (ki_scheduler_proc (be_image env), s_sched,
      PROC_FLAG_KERNEL OR PROC_SHARED_ADDR_SPACE OR PROC_FLAG_STACK OR PROC_FLAG_HEAP, 2)"
    using k4(4-6) k6(7-9) by (simp_all add: proc_info_def PROC_FLAGS)
  then show ?thesis
    by (intro exI [of _ "m6\<lparr>mc_kernel := k6\<rparr>"] exI [of _ kinit] exI [of _ idle] exI [of _ sched] exI [of _ shell] exI [of _ rbs])
      (use run k6(1,2,4-6) live m6(3) in simp)
qed

text \<open>A machine with 64 MiB of RAM.\<close>

definition sample_env :: boot_env where
  "sample_env = \<lparr>be_uart = (\<lambda>_. 0x20), be_cursor = 0, be_boot = (0x100000, 0x101000), be_text = (0xC0101000, 0xC0120000),
     be_rodata = (0xC0120000, 0xC0128000), be_data = (0xC0128000, 0xC0130000), be_bss = (0xC0130000, 0xC0140000),
     be_kstart = 0x100000, be_kend = 0xC0140000, be_memory = sample_boot_memory 0x3F00000, be_info = Some sample_boot_info,
     be_image = demo_image, be_names = (0xC0120000, 0xC0120008, 0xC0120010), be_shell_name = 0xC0120020, be_kshell = 0xC0110000\<rparr>"

definition sample_machine :: machine where
  "sample_machine = \<lparr>mc_con = sample_console, mc_kernel = heap_kernel\<rparr>"

theorem kmain_boots_witness:
  "\<exists>m' kinit idle sched shell. kmain sample_env sample_machine = Some m' \<and>
     sched_lists (mc_kernel m') [idle, sched] [shell, kinit] \<and> scheduler_current (mc_kernel m') = 0 \<and>
     pr_entry (k_procs (mc_kernel m') shell) = 0xC0110000"
proof -
  obtain mp where m: "mb_init (sample_boot_memory 0x3F00000) (Some sample_boot_info) kphysmap_init = Some mp" "0 < km_count mp"
    "km_list mp = [\<lparr>kr_address = 0x100000, kr_size = 0x3F00000, kr_flags = 3\<rparr>]" using sample_boot_map [of "0x3F00000"] by blast
  have ram: "is_ram \<lparr>kr_address = a, kr_size = s, kr_flags = 3\<rparr>" for a s
    by (simp add: is_ram_def KPHYSREGION_VALID_def KPHYSREGION_TYPE_MASK_def KPHYSREGION_TYPE_RAM_def)
  have fit: "regions_fit (km_list mp)" by (simp add: m(3) regions_fit_def)
  have "ram_end mp six_pages = 0x4000000" by (simp add: ram_end_def m(3) measure_region_def ram Let_def)
  then have k: "kernel_fits 0x100000 0xC0140000 (ram_end mp six_pages)"
    by (simp add: kernel_fits_def page_aligned_def P2V_def KVIRT_def)
  have "{768 ..< 768 + 7140} \<subseteq> ram_pages (km_list mp)" by (auto simp: m(3) ram_pages_def ram pages_of_def)
  then have room: "ram_for_boot 0xC0140000 mp" unfolding ram_for_boot_def by (intro conjI exI [of _ 768]) simp_all
  have "pg_wf (mc_paging sample_machine)" by (simp add: mc_paging_def sample_machine_def heap_kernel_def pg_wf_empty)
  note boot = kmain_boots [of sample_env mp sample_machine "0xC0120000" "0xC0120008" "0xC0120010", OF _ m(2) fit this]
  have "\<exists>m' kinit idle sched shell rbs. kmain sample_env sample_machine = Some m' \<and>
      sched_lists (mc_kernel m') [idle, sched] [shell, kinit] \<and> scheduler_current (mc_kernel m') = 0 \<and>
      pr_entry (k_procs (mc_kernel m') shell) = be_kshell sample_env"
    using boot m(1) k room by (simp add: sample_env_def sample_machine_def heap_kernel_def UART_THRE_def) blast
  then show ?thesis by (simp add: sample_env_def)
qed

end
