(* ===== verification/Spec2Isabelle.thy ===== *)
theory Spec2Isabelle
  imports Pmm_Correct Vmm_Correct Kheap_Ops Disasm_Total Sched_Correct Console Elf_Correct Shell_Correct Kmain_Correct
begin

text \<open>
  Verification of tomk, a small 32-bit kernel for the 80386 (C and assembler under \<^verbatim>\<open>src/\<close>).

  \<^bold>\<open>The program.\<close> The boot code enters \<^verbatim>\<open>kmain\<close> with paging on and a multiboot memory map.
  \<^verbatim>\<open>mminit\<close> builds the memory stack: the boot loader's map is copied (\<^verbatim>\<open>mb.c\<close>, \<^verbatim>\<open>kphysmap.c\<close>), a bump
  allocator provides the first tables (\<^verbatim>\<open>kinit_alloc.c\<close>), the physical manager hands out frames (\<^verbatim>\<open>pmm.c\<close>),
  the virtual manager hands out address ranges and backs them with frames through the page tables
  (\<^verbatim>\<open>vmm.c\<close>, \<^verbatim>\<open>paging.asm\<close>), and the heap carves blocks out of such ranges (\<^verbatim>\<open>kheap.c\<close>). The scheduler
  (\<^verbatim>\<open>scheduler.c\<close>, \<^verbatim>\<open>process.c\<close>) keeps processes in two lists that live on the heap; the timer interrupt
  switches between them. A shell reads the keyboard and prints through the C library (\<^verbatim>\<open>libc\<close>) to the
  terminal (\<^verbatim>\<open>tty.c\<close>) and the serial line. The exception handlers print a report with the
  disassembler (\<^verbatim>\<open>i80386_mnem.c\<close>).

  \<^bold>\<open>Conventions.\<close> Integers are words of the width of the C type and wrap; 0 is \<^verbatim>\<open>NULL\<close>. A state of
  static variables is a record that the operations take and return. A result of type \<open>option\<close> is
  \<open>None\<close> where the kernel stops (a failed assertion, a page fault on a path where the kernel cannot go
  on), where an argument is missing, or where a loop does not end: such loops are
  \<open>partial_function (option)\<close>, and the theorems about them show that they return. Loops with a counter
  are structural recursions on the number of iterations left, which is the bound of the C loop, so that
  no fuel is chosen anywhere. Data that other code provides (boot loader memory, bytes from ports, the
  code of a process) is an argument.

  \<^bold>\<open>Theories.\<close>
  \<^item> \<open>Tomk_Prelude\<close>: types, the macros of \<^verbatim>\<open>paging.h\<close>, \<^verbatim>\<open>align.h\<close>, \<^verbatim>\<open>kspacedef.h\<close>, word lemmas.
    \<open>Bitmap\<close>: the page bitmaps with the run search that \<^verbatim>\<open>pmm.c\<close> and \<^verbatim>\<open>vmm.c\<close> share, and a locale for it.
  \<^item> \<open>Paging\<close> (\<^verbatim>\<open>paging.asm\<close>): mapping, unmapping, translation; a mapped range translates to its frames
    and nothing else changes. What the debug message of \<^verbatim>\<open>pg_chgpriv\<close> leaves of the page count, which the code
    keeps in a register that a C function may change, is an argument. \<open>Mman\<close> (\<^verbatim>\<open>mman.c\<close>, \<^verbatim>\<open>paging.c\<close>): page
    directories of new address spaces.
  \<^item> \<open>Kphysmap\<close> (\<^verbatim>\<open>kphysmap.c\<close>, \<^verbatim>\<open>mb.c\<close>), \<open>Kinit_Alloc\<close> (\<^verbatim>\<open>kinit_alloc.c\<close>).
  \<^item> \<open>Pmm\<close>, \<open>Pmm_Correct\<close> (\<^verbatim>\<open>pmm.c\<close>): the invariant ties the bitmap to the counters; allocation finds a run
    exactly if there is one; single pages are searched next-fit.
  \<^item> \<open>Vmm\<close>, \<open>Vmm_Correct\<close> (\<^verbatim>\<open>vmm.c\<close>): first-fit reservation, backing with distinct frames, roll-back.
  \<^item> \<open>Dll\<close>: doubly linked lists in a store. \<open>Kheap\<close>, \<open>Kheap_Correct\<close>, \<open>Kheap_Ops\<close> (\<^verbatim>\<open>kheap.c\<close>,
    \<^verbatim>\<open>kmalloc.c\<close>): the heap is a list of regions that are tiled by blocks; allocation and release are
    refined to the map from live pointers to sizes; after any sequence of allocations and
    releases the pointers in use own ranges that do not overlap and are mapped.
  \<^item> \<open>Process\<close>, \<open>Scheduler\<close> (\<^verbatim>\<open>process.c\<close>, \<^verbatim>\<open>scheduler.c\<close>): the two lists, creation and destruction.
    \<open>Sched_Lists\<close>, \<open>Sched_Switch\<close>, \<open>Sched_Steps\<close>, \<open>Sched_Correct\<close>: the timer switch is a round robin, every
    active process gets its turn. The handlers are cut at their critical sections; in every interleaving of their
    parts with ticks and other work, as long as no two handlers work on one process and only active processes are
    unloaded, the lists stay well formed and no process is lost. Without these conditions, which the code does not
    enforce, the lists can break (\<open>unload_inactive_process_loses_active\<close>).
  \<^item> \<open>Disasm\<close>, \<open>Disasm_Ops\<close>, \<open>Disasm_Decode\<close> (\<^verbatim>\<open>i80386_mnem.c\<close>): the decoder. \<open>Disasm_Correct\<close>, \<open>Disasm_Total\<close>:
    token and length bounds, termination, and that the result depends on exactly the bytes of the instruction.
  \<^item> \<open>Libc_Runtime\<close> (64-bit division), \<open>Libc_String\<close>, \<open>Libc_Strtoul\<close>, \<open>Libc_Printf\<close>: the C library.
    \<open>Libc_Print_Correct\<close>: formats are printed item by item, \<^verbatim>\<open>vsnprintf\<close> keeps to its buffer, printed
    numbers are read back.
  \<^item> \<open>Tty\<close> (\<^verbatim>\<open>tty.c\<close>): the terminal refines a screen of 25 rows and 80 columns. Only \<^verbatim>\<open>tty_pute\<close> and
    \<^verbatim>\<open>tty_clear_line\<close> leave the range to their callers. \<open>Keyboard\<close> (\<^verbatim>\<open>ps2.asm\<close>): the
    ring buffer refines a bounded queue, where a key does not arrive during a call of the reader.
    \<open>Console\<close> (\<^verbatim>\<open>uart.asm\<close>, \<^verbatim>\<open>kdprint.c\<close>, the rest of stdio).
    \<open>Kmessage\<close>: messages with constant formats as lists of their parts, which agree with \<^verbatim>\<open>kprintf\<close> of the format
    in memory. \<open>Disasm_Print\<close>: the text of disassembled instructions.
  \<^item> \<open>Elf\<close>, \<open>Elf_Correct\<close> (\<^verbatim>\<open>elf.c\<close>): checking and relocating a file in memory.
  \<^item> \<open>Exceptions\<close>, \<open>Exceptions_Correct\<close> (\<^verbatim>\<open>exceptions.c\<close>, \<^verbatim>\<open>stackframe.c\<close>): the report of every exception; a page
    fault is classified by its error code and address, and the call stack is printed to its end, if the text of
    the instruction fits the handler's buffer and the chain of frames ends. A circle of frames is followed for ever.
  \<^item> \<open>Shell_Pages\<close>, \<open>Shell\<close>, \<open>Shell_Correct\<close> (\<^verbatim>\<open>shell.c\<close>): the line editor refines a string of at most 32
    characters, a line runs the command it names, and the listing of the page tables is complete.
    \<open>Proctest\<close> (\<^verbatim>\<open>proctest.c\<close>): the racing processes.
  \<^item> \<open>Mminit\<close> (\<^verbatim>\<open>mminit.c\<close>): the composition of the memory stack; the free frames and addresses are exactly those that
    the boot does not use. \<open>Kmain\<close>, \<open>Kmain_Correct\<close> (\<^verbatim>\<open>tomk.c\<close>, \<^verbatim>\<open>malloc.c\<close>): the boot as a whole, from the memory
    map to the process lists and the text on the screen. The bound of 28 MiB on the free RAM is what is
    enough wherever the managers place the seven allocations of the boot.

  \<^bold>\<open>Interfaces.\<close> Locales state what one component needs of another, and each is interpreted on the model's
  own definitions: \<open>marking\<close> (marking ranges of pages, in both managers), \<open>frame_pool\<close> (what the virtual
  manager needs of the physical one), \<open>dll_list\<close>, \<open>dll_remove\<close> and \<open>dll_insert\<close> (linked lists: heap
  regions, heap blocks, process lists), \<open>refinement\<close> and \<open>event_refinement\<close> (timer ticks, characters on the
  terminal, bytes from the keyboard).

  \<^bold>\<open>Not modelled.\<close> Assembler that only talks to the processor or to devices: the start-up code and the descriptor
  tables (\<^verbatim>\<open>entry.asm\<close>, \<^verbatim>\<open>kernel.asm\<close>, \<^verbatim>\<open>gdt.asm\<close>, \<^verbatim>\<open>idt.asm\<close>, \<^verbatim>\<open>tss.asm\<close>), the interrupt controller and the timer
  (\<^verbatim>\<open>pic.asm\<close>, \<^verbatim>\<open>pit.asm\<close>), access to ports, flags and control registers (\<^verbatim>\<open>i86.asm\<close>, \<^verbatim>\<open>critsec.asm\<close>,
  \<^verbatim>\<open>spinlock.asm\<close>, \<^verbatim>\<open>khang.asm\<close>), the switching of stacks and registers (\<^verbatim>\<open>cswitch.asm\<close>), TLB flushes, the set-up
  of the serial line. What these leave behind is an argument of the model. \<^verbatim>\<open>fat32.c\<close> is empty. The
  messages that the memory managers, the heap and the list operations of the scheduler send for debugging are left out:
  they do not change the state that the components share.
\<close>

end
